(* ===== verification/Prelude.thy ===== *)
theory Prelude
  imports Main "HOL-Library.Word"
begin

text \<open>
  Shared vocabulary of the development. Exceptions of the C++ code are values of
  \<open>exn\<close>; a function that may throw returns \<open>exn + 'a\<close>, with \<open>Inl\<close> for the exception, and
  \<open>bindR\<close> is the sequencing of statements that stops at the first throw. \<open>assertR\<close> is
  \<open>FC_ASSERT\<close> with the message of the source. \<open>foldR\<close> is a \<open>for\<close> loop over a container.
  The second half holds the facts on association rows (an ordered index of the object
  database read as a list of id and object), on sums over rows and on sorted lists that
  the component theories use. The collection \<open>res_simps\<close> inverts successful runs.
\<close>

datatype exn =
    Assert_failed string
  | Out_of_range string
  | Logic_error string
  | Overflow_error
  | Unlinkable_block
  | Undo_history
  | Pop_empty_chain
  | Tapos_mismatch
  | Tx_expiration
  | Missing_auth string
  | Unknown_hardfork
  | Other_exception string

type_synonym 'a res = "exn + 'a"

type_synonym time_point_sec = nat
type_synonym oid = nat

named_theorems res_simps "inversion of successful runs of the result monad"

definition bindR :: "'e + 'a \<Rightarrow> ('a \<Rightarrow> 'e + 'b) \<Rightarrow> 'e + 'b" where
  "bindR m f = (case m of Inl e \<Rightarrow> Inl e | Inr a \<Rightarrow> f a)"

definition assertR :: "bool \<Rightarrow> string \<Rightarrow> exn + unit" where
  "assertR b msg = (if b then Inr () else Inl (Assert_failed msg))"

definition of_optionR :: "exn \<Rightarrow> 'a option \<Rightarrow> exn + 'a" where
  "of_optionR e x = (case x of None \<Rightarrow> Inl e | Some a \<Rightarrow> Inr a)"

text \<open>A \<open>for\<close> loop whose body may throw.\<close>

fun foldR :: "('a \<Rightarrow> 's \<Rightarrow> 'e + 's) \<Rightarrow> 'a list \<Rightarrow> 's \<Rightarrow> 'e + 's" where
  "foldR f [] s = Inr s"
| "foldR f (x # xs) s = bindR (f x s) (foldR f xs)"

text \<open>A loop that only checks each element.\<close>

fun checkR :: "('a \<Rightarrow> 'e + unit) \<Rightarrow> 'a list \<Rightarrow> 'e + unit" where
  "checkR f [] = Inr ()"
| "checkR f (x # xs) = bindR (f x) (\<lambda>_. checkR f xs)"

text \<open>Statements that only check, in order, and an assertion on a comparison that may throw.\<close>

fun seqR :: "('e + unit) list \<Rightarrow> 'e + unit" where
  "seqR [] = Inr ()"
| "seqR (c # cs) = bindR c (\<lambda>_. seqR cs)"

definition assertM :: "exn + bool \<Rightarrow> string \<Rightarrow> exn + unit" where
  "assertM m msg = bindR m (\<lambda>b. assertR b msg)"

subsection \<open>Inversion and evaluation of the result monad\<close>

lemma bindR_Inr [simp]: "bindR (Inr a) f = f a"
  by (simp add: bindR_def)

lemma bindR_Inl [simp]: "bindR (Inl e) f = Inl e"
  by (simp add: bindR_def)

lemma bindR_eq_Inr [res_simps]: "bindR m f = Inr b \<longleftrightarrow> (\<exists>a. m = Inr a \<and> f a = Inr b)"
  by (cases m) auto

lemma bindR_eq_Inl:
  "bindR m f = Inl e \<longleftrightarrow> m = Inl e \<or> (\<exists>a. m = Inr a \<and> f a = Inl e)"
  by (cases m) auto

lemma bindR_assoc: "bindR (bindR m f) g = bindR m (\<lambda>a. bindR (f a) g)"
  by (cases m) auto

lemma assertR_eq_Inr [res_simps]: "assertR b msg = Inr u \<longleftrightarrow> b"
  by (simp add: assertR_def)

lemma assertR_True [simp]: "assertR True msg = Inr ()"
  by (simp add: assertR_def)

lemma assertR_False [simp]: "assertR False msg = Inl (Assert_failed msg)"
  by (simp add: assertR_def)

lemma of_optionR_eq_Inr [res_simps]: "of_optionR e x = Inr a \<longleftrightarrow> x = Some a"
  by (cases x) (auto simp: of_optionR_def)

lemma of_optionR_Some [simp]: "of_optionR e (Some a) = Inr a"
  by (simp add: of_optionR_def)

lemma of_optionR_None [simp]: "of_optionR e None = Inl e"
  by (simp add: of_optionR_def)

lemma checkR_eq_Inr: "checkR f xs = Inr u \<longleftrightarrow> (\<forall>x \<in> set xs. f x = Inr ())"
  by (induction xs) (auto simp: bindR_eq_Inr)

lemma seqR_eq_Inr [res_simps]:
  "seqR [] = Inr u \<longleftrightarrow> True"
  "seqR (c # cs) = Inr u \<longleftrightarrow> c = Inr () \<and> seqR cs = Inr ()"
  by (auto simp: bindR_eq_Inr)

lemma assertM_eq_Inr [res_simps]: "assertM m msg = Inr u \<longleftrightarrow> m = Inr True"
  by (auto simp: assertM_def bindR_eq_Inr assertR_eq_Inr)

lemma assertM_Inr [simp]: "assertM (Inr b) msg = assertR b msg"
  by (simp add: assertM_def)

text \<open>
  The two rules for loops: a measure that every body leaves unchanged is unchanged by the
  loop, and a predicate that every body keeps is kept.
\<close>

lemma foldR_const:
  assumes "\<And>x s s'. x \<in> set xs \<Longrightarrow> f x s = Inr s' \<Longrightarrow> m s' = m s"
    and "foldR f xs s = Inr s'"
  shows "m s' = m s"
  using assms
proof (induction xs arbitrary: s)
  case Nil
  then show ?case by simp
next
  case (Cons x xs)
  from Cons.prems(2) obtain t where t: "f x s = Inr t" "foldR f xs t = Inr s'"
    by (auto simp: bindR_eq_Inr)
  have "m s' = m t"
    using Cons.prems(1) t(2) by (intro Cons.IH) auto
  also have "m t = m s"
    using Cons.prems(1) t(1) by (metis list.set_intros(1))
  finally show ?case .
qed

lemma foldR_inv:
  assumes "\<And>x s s'. x \<in> set xs \<Longrightarrow> f x s = Inr s' \<Longrightarrow> P s \<Longrightarrow> P s'"
    and "foldR f xs s = Inr s'" and "P s"
  shows "P s'"
  using assms
proof (induction xs arbitrary: s)
  case Nil
  then show ?case by simp
next
  case (Cons x xs)
  from Cons.prems(2) obtain t where t: "f x s = Inr t" "foldR f xs t = Inr s'"
    by (auto simp: bindR_eq_Inr)
  have "P t" using Cons.prems(1) [OF _ t(1) Cons.prems(3)] by simp
  then show ?case using Cons.prems(1) t(2) by (intro Cons.IH) auto
qed

subsection \<open>Rows: an index of the object database, ordered by id\<close>

fun upd_row :: "oid \<Rightarrow> 'v \<Rightarrow> (oid \<times> 'v) list \<Rightarrow> (oid \<times> 'v) list" where
  "upd_row i v [] = []"
| "upd_row i v ((j, w) # rs) = (if i = j then (j, v) # rs else (j, w) # upd_row i v rs)"

fun del_row :: "oid \<Rightarrow> (oid \<times> 'v) list \<Rightarrow> (oid \<times> 'v) list" where
  "del_row i [] = []"
| "del_row i ((j, w) # rs) = (if i = j then rs else (j, w) # del_row i rs)"

fun ins_row :: "oid \<Rightarrow> 'v \<Rightarrow> (oid \<times> 'v) list \<Rightarrow> (oid \<times> 'v) list" where
  "ins_row i v [] = [(i, v)]"
| "ins_row i v ((j, w) # rs) = (if i < j then (i, v) # (j, w) # rs else (j, w) # ins_row i v rs)"

abbreviation row_ids :: "(oid \<times> 'v) list \<Rightarrow> oid list" where
  "row_ids rs \<equiv> map fst rs"

abbreviation rows_sorted :: "(oid \<times> 'v) list \<Rightarrow> bool" where
  "rows_sorted rs \<equiv> sorted_wrt (<) (row_ids rs)"

lemma row_ids_upd_row [simp]: "row_ids (upd_row i v rs) = row_ids rs"
  by (induction i v rs rule: upd_row.induct) auto

lemma length_upd_row [simp]: "length (upd_row i v rs) = length rs"
  by (induction i v rs rule: upd_row.induct) auto

lemma set_ins_row [simp]: "set (ins_row i v rs) = insert (i, v) (set rs)"
  by (induction i v rs rule: ins_row.induct) auto

lemma set_row_ids_ins_row: "set (row_ids (ins_row i v rs)) = insert i (set (row_ids rs))"
  by (induction i v rs rule: ins_row.induct) auto

lemma set_del_row_subset: "set (del_row i rs) \<subseteq> set rs"
  by (induction i rs rule: del_row.induct) auto

lemma map_of_upd_row:
  "map_of (upd_row i v rs) = (if i \<in> set (row_ids rs) then (map_of rs)(i \<mapsto> v) else map_of rs)"
  by (induction i v rs rule: upd_row.induct) (auto simp: fun_eq_iff)

lemma rows_sorted_distinct: "rows_sorted rs \<Longrightarrow> distinct (row_ids rs)"
  by (simp add: strict_sorted_iff)

lemma map_of_None_if_less: "(\<forall>j \<in> set (row_ids rs). i < j) \<Longrightarrow> map_of rs i = None"
  by (induction rs) auto

lemma map_of_del_row:
  "rows_sorted rs \<Longrightarrow> map_of (del_row i rs) = (map_of rs)(i := None)"
proof (induction i rs rule: del_row.induct)
  case (1 i)
  then show ?case by simp
next
  case (2 i j w rs)
  then have "i = j \<Longrightarrow> map_of rs i = None"
    by (intro map_of_None_if_less) auto
  with 2 show ?case by (auto simp: fun_eq_iff)
qed

lemma map_of_eq_None_iff_row: "map_of rs i = None \<longleftrightarrow> i \<notin> set (row_ids rs)"
  by (simp add: map_of_eq_None_iff)

lemma map_of_ins_row:
  "map_of rs i = None \<Longrightarrow> map_of (ins_row i v rs) = (map_of rs)(i \<mapsto> v)"
  by (induction i v rs rule: ins_row.induct) (auto simp: fun_eq_iff split: if_splits)

lemma rows_sorted_upd_row [simp]: "rows_sorted (upd_row i v rs) = rows_sorted rs"
  by simp

lemma rows_sorted_del_row: "rows_sorted rs \<Longrightarrow> rows_sorted (del_row i rs)"
proof (induction i rs rule: del_row.induct)
  case (1 i)
  then show ?case by simp
next
  case (2 i j w rs)
  then show ?case using set_del_row_subset [of i rs] by auto
qed

lemma rows_sorted_ins_row:
  "map_of rs i = None \<Longrightarrow> rows_sorted rs \<Longrightarrow> rows_sorted (ins_row i v rs)"
  by (induction i v rs rule: ins_row.induct) (auto split: if_splits)

lemma set_row_ids_eq_dom: "set (row_ids rs) = dom (map_of rs)"
  by (simp add: dom_map_of_conv_image_fst)

text \<open>Rows sorted by id are determined by the map they represent.\<close>

lemma rows_eqI:
  assumes "rows_sorted rs" and "rows_sorted ss" and "map_of rs = map_of ss"
  shows "rs = ss"
proof -
  have "set (row_ids rs) = set (row_ids ss)"
    by (metis assms(3) set_row_ids_eq_dom)
  then have ids: "row_ids rs = row_ids ss"
    using assms(1,2) by (metis strict_sorted_equal)
  have "set rs = set ss"
    using assms rows_sorted_distinct by (metis map_of_inject_set)
  then have "\<And>k. k < length rs \<Longrightarrow> rs ! k = ss ! k"
  proof -
    fix k assume k: "k < length rs"
    have len: "length rs = length ss" using ids by (metis length_map)
    have f: "fst (rs ! k) = fst (ss ! k)"
      using ids k len by (metis nth_map)
    have "map_of rs (fst (rs ! k)) = Some (snd (rs ! k))"
      using k assms(1) rows_sorted_distinct by (metis map_of_is_SomeI nth_mem prod.collapse)
    moreover have "map_of ss (fst (ss ! k)) = Some (snd (ss ! k))"
      using k len assms(2) rows_sorted_distinct by (metis map_of_is_SomeI nth_mem prod.collapse)
    ultimately show "rs ! k = ss ! k"
      using f assms(3) by (metis option.inject prod_eq_iff)
  qed
  then show ?thesis
    using ids by (metis length_map nth_equalityI)
qed

subsection \<open>Sums over rows\<close>

definition row_sum :: "('v \<Rightarrow> int) \<Rightarrow> (oid \<times> 'v) list \<Rightarrow> int" where
  "row_sum g rs = sum_list (map (\<lambda>r. g (snd r)) rs)"

lemma row_sum_Nil [simp]: "row_sum g [] = 0"
  by (simp add: row_sum_def)

lemma row_sum_Cons [simp]: "row_sum g (r # rs) = g (snd r) + row_sum g rs"
  by (simp add: row_sum_def)

lemma row_sum_upd_row:
  "map_of rs i = Some v \<Longrightarrow> row_sum g (upd_row i v' rs) = row_sum g rs - g v + g v'"
  by (induction i v' rs rule: upd_row.induct) (auto split: if_splits)

lemma row_sum_del_row:
  "map_of rs i = Some v \<Longrightarrow> row_sum g (del_row i rs) = row_sum g rs - g v"
  by (induction i rs rule: del_row.induct) (auto split: if_splits)

lemma row_sum_ins_row: "row_sum g (ins_row i v rs) = row_sum g rs + g v"
  by (induction i v rs rule: ins_row.induct) auto

subsection \<open>Time stamps\<close>

text \<open>
  A \<open>fc::time_point_sec\<close> is a 32-bit count of seconds; the sum of a time stamp and a
  duration is reduced to 32 bits.
\<close>

definition time_max :: time_point_sec where
  "time_max = 4294967295"

definition time_min :: time_point_sec where
  "time_min = 0"

definition time_plus :: "time_point_sec \<Rightarrow> nat \<Rightarrow> time_point_sec" where
  "time_plus t s = (t + s) mod 4294967296"

definition time_diff :: "time_point_sec \<Rightarrow> time_point_sec \<Rightarrow> int" where
  "time_diff a b = int a - int b"

lemma time_plus_small: "t + s < 4294967296 \<Longrightarrow> time_plus t s = t + s"
  by (simp add: time_plus_def)

lemma time_plus_bound: "time_plus t s \<le> time_max"
  by (simp add: time_plus_def time_max_def)

end
