(* ===== verification/Chainbase.thy ===== *)
theory Chainbase
  imports Prelude
begin

text \<open>
  \<open>generic_index\<close> of \<open>libraries/chainbase/include/chainbase/chainbase.hpp\<close>: a container of
  objects with ids, its undo stack and its revision. The primary index is the list of rows
  in the order of their ids; \<open>conflict v w\<close> says that two objects collide on one of the
  other \<open>ordered_unique\<close> keys of the container, so that Boost refuses to hold both. The
  most recent undo state is the first of \<open>stack\<close>. A callback that throws gives \<open>Inl\<close>; the
  container's contents after a throw are not represented, because every caller is inside
  a session that \<open>undo\<close> ends.

  The relation \<open>tracks g0 g\<close> says that the newest undo state of \<open>g\<close> describes how to return
  to \<open>g0\<close>. Starting a session establishes it, every operation keeps it, \<open>squash\<close> composes
  two of them and \<open>undo\<close> inverts it.
\<close>

record 'v undo_state =
  old_values :: "(oid \<times> 'v) list"
  removed_values :: "(oid \<times> 'v) list"
  new_ids :: "oid list"
  old_next_id :: oid
  us_revision :: int

record 'v generic_index =
  stack :: "'v undo_state list"
  gi_revision :: int
  next_id :: oid
  indices :: "(oid \<times> 'v) list"

definition empty_index :: "'v generic_index" where
  "empty_index = \<lparr> stack = [], gi_revision = 0, next_id = 0, indices = [] \<rparr>"

definition mk_index :: "(oid \<times> 'v) list \<Rightarrow> oid \<Rightarrow> 'v generic_index" where
  "mk_index rs n = \<lparr> stack = [], gi_revision = 0, next_id = n, indices = rs \<rparr>"

subsection \<open>Lookup\<close>

definition find_id :: "'v generic_index \<Rightarrow> oid \<Rightarrow> 'v option" where
  "find_id g i = map_of (indices g) i"

definition get_id :: "'v generic_index \<Rightarrow> oid \<Rightarrow> exn + 'v" where
  "get_id g i = of_optionR (Out_of_range ''unknown key'') (find_id g i)"

text \<open>Lookup in a secondary unique index: the object whose key satisfies the test.\<close>

definition find_by :: "('v \<Rightarrow> bool) \<Rightarrow> 'v generic_index \<Rightarrow> (oid \<times> 'v) option" where
  "find_by p g = List.find (\<lambda>r. p (snd r)) (indices g)"

definition get_by :: "('v \<Rightarrow> bool) \<Rightarrow> 'v generic_index \<Rightarrow> exn + (oid \<times> 'v)" where
  "get_by p g = of_optionR (Out_of_range ''unknown key'') (find_by p g)"

subsection \<open>Recording changes\<close>

fun on_modify :: "oid \<Rightarrow> 'v \<Rightarrow> 'v undo_state list \<Rightarrow> 'v undo_state list" where
  "on_modify i v [] = []"
| "on_modify i v (h # hs) =
     (if i \<in> set (new_ids h) then h # hs
      else if map_of (old_values h) i \<noteq> None then h # hs
      else h\<lparr>old_values := ins_row i v (old_values h)\<rparr> # hs)"

fun on_remove :: "oid \<Rightarrow> 'v \<Rightarrow> 'v undo_state list \<Rightarrow> 'v undo_state list" where
  "on_remove i v [] = []"
| "on_remove i v (h # hs) =
     (if i \<in> set (new_ids h) then h\<lparr>new_ids := removeAll i (new_ids h)\<rparr> # hs
      else case map_of (old_values h) i of
        Some w \<Rightarrow> h\<lparr>removed_values := ins_row i w (removed_values h),
                    old_values := del_row i (old_values h)\<rparr> # hs
      | None \<Rightarrow>
         if map_of (removed_values h) i \<noteq> None then h # hs
         else h\<lparr>removed_values := ins_row i v (removed_values h)\<rparr> # hs)"

fun on_create :: "oid \<Rightarrow> 'v undo_state list \<Rightarrow> 'v undo_state list" where
  "on_create i [] = []"
| "on_create i (h # hs) = h\<lparr>new_ids := insort_insert i (new_ids h)\<rparr> # hs"

subsection \<open>Changing the container\<close>

definition insert_ok :: "('v \<Rightarrow> 'v \<Rightarrow> bool) \<Rightarrow> oid \<Rightarrow> 'v \<Rightarrow> (oid \<times> 'v) list \<Rightarrow> bool" where
  "insert_ok cf i v rs \<longleftrightarrow> list_all (\<lambda>(j, w). j \<noteq> i \<and> \<not> cf v w) rs"

definition modify_ok :: "('v \<Rightarrow> 'v \<Rightarrow> bool) \<Rightarrow> oid \<Rightarrow> 'v \<Rightarrow> (oid \<times> 'v) list \<Rightarrow> bool" where
  "modify_ok cf i v rs \<longleftrightarrow> list_all (\<lambda>(j, w). j \<noteq> i \<longrightarrow> \<not> cf v w) rs"

definition emplace ::
  "('v \<Rightarrow> 'v \<Rightarrow> bool) \<Rightarrow> (oid \<Rightarrow> exn + 'v) \<Rightarrow> 'v generic_index \<Rightarrow> exn + ('v generic_index \<times> oid)" where
  "emplace cf con g =
     (let new_id = next_id g in
      bindR (con new_id) (\<lambda>v.
      if insert_ok cf new_id v (indices g) then
        Inr (g\<lparr>indices := ins_row new_id v (indices g), next_id := next_id g + 1,
               stack := on_create new_id (stack g)\<rparr>, new_id)
      else Inl (Logic_error ''could not insert object, most likely a uniqueness constraint was violated'')))"

definition modify ::
  "('v \<Rightarrow> 'v \<Rightarrow> bool) \<Rightarrow> oid \<Rightarrow> ('v \<Rightarrow> exn + 'v) \<Rightarrow> 'v generic_index \<Rightarrow> exn + 'v generic_index" where
  "modify cf i m g =
     bindR (of_optionR (Other_exception ''iterator_to'') (map_of (indices g) i)) (\<lambda>v.
     bindR (m v) (\<lambda>v'.
     if modify_ok cf i v' (indices g) then
       Inr (g\<lparr>indices := upd_row i v' (indices g), stack := on_modify i v (stack g)\<rparr>)
     else Inl (Logic_error ''Could not modify object, most likely a uniqueness constraint was violated'')))"

definition remove :: "oid \<Rightarrow> 'v generic_index \<Rightarrow> exn + 'v generic_index" where
  "remove i g =
     bindR (of_optionR (Other_exception ''iterator_to'') (map_of (indices g) i)) (\<lambda>v.
     Inr (g\<lparr>indices := del_row i (indices g), stack := on_remove i v (stack g)\<rparr>))"

definition remove_object :: "oid \<Rightarrow> 'v generic_index \<Rightarrow> exn + 'v generic_index" where
  "remove_object i g =
     (case find_id g i of None \<Rightarrow> Inl (Out_of_range ''id'') | Some v \<Rightarrow> remove i g)"

subsection \<open>Sessions\<close>

definition start_undo_session :: "bool \<Rightarrow> 'v generic_index \<Rightarrow> 'v generic_index" where
  "start_undo_session enabled g =
     (if enabled then
        g\<lparr>gi_revision := gi_revision g + 1,
          stack := \<lparr> old_values = [], removed_values = [], new_ids = [],
                     old_next_id = next_id g, us_revision = gi_revision g + 1 \<rparr> # stack g\<rparr>
      else g)"

definition undo_old ::
  "('v \<Rightarrow> 'v \<Rightarrow> bool) \<Rightarrow> oid \<times> 'v \<Rightarrow> (oid \<times> 'v) list \<Rightarrow> exn + (oid \<times> 'v) list" where
  "undo_old cf item rs =
     bindR (of_optionR (Other_exception ''find'') (map_of rs (fst item))) (\<lambda>_.
     if modify_ok cf (fst item) (snd item) rs then Inr (upd_row (fst item) (snd item) rs)
     else Inl (Logic_error ''Could not modify object, most likely a uniqueness constraint was violated''))"

definition undo_removed ::
  "('v \<Rightarrow> 'v \<Rightarrow> bool) \<Rightarrow> oid \<times> 'v \<Rightarrow> (oid \<times> 'v) list \<Rightarrow> exn + (oid \<times> 'v) list" where
  "undo_removed cf item rs =
     (if insert_ok cf (fst item) (snd item) rs then Inr (ins_row (fst item) (snd item) rs)
      else Inl (Logic_error ''Could not restore object, most likely a uniqueness constraint was violated''))"

definition undo :: "('v \<Rightarrow> 'v \<Rightarrow> bool) \<Rightarrow> 'v generic_index \<Rightarrow> exn + 'v generic_index" where
  "undo cf g =
     (case stack g of [] \<Rightarrow> Inr g
      | h # hs \<Rightarrow>
         bindR (foldR (undo_old cf) (old_values h) (indices g)) (\<lambda>rs1.
         bindR (foldR (undo_removed cf) (removed_values h) (fold del_row (new_ids h) rs1)) (\<lambda>rs3.
         Inr (g\<lparr>indices := rs3, next_id := old_next_id h, stack := hs,
                gi_revision := gi_revision g - 1\<rparr>))))"

definition squash_old :: "oid \<times> 'v \<Rightarrow> 'v undo_state \<Rightarrow> 'v undo_state" where
  "squash_old item p =
     (if fst item \<in> set (new_ids p) then p
      else if map_of (old_values p) (fst item) \<noteq> None then p
      else p\<lparr>old_values := ins_row (fst item) (snd item) (old_values p)\<rparr>)"

definition squash_removed :: "oid \<times> 'v \<Rightarrow> 'v undo_state \<Rightarrow> 'v undo_state" where
  "squash_removed item p =
     (if fst item \<in> set (new_ids p) then p\<lparr>new_ids := removeAll (fst item) (new_ids p)\<rparr>
      else case map_of (old_values p) (fst item) of
        Some x \<Rightarrow> p\<lparr>removed_values := ins_row (fst item) x (removed_values p),
                    old_values := del_row (fst item) (old_values p)\<rparr>
      | None \<Rightarrow> p\<lparr>removed_values := ins_row (fst item) (snd item) (removed_values p)\<rparr>)"

definition merge_states :: "'v undo_state \<Rightarrow> 'v undo_state \<Rightarrow> 'v undo_state" where
  "merge_states state prev =
     (let p1 = fold squash_old (old_values state) prev;
          p2 = fold (\<lambda>i p. p\<lparr>new_ids := insort_insert i (new_ids p)\<rparr>) (new_ids state) p1
      in fold squash_removed (removed_values state) p2)"

definition squash :: "'v generic_index \<Rightarrow> 'v generic_index" where
  "squash g =
     (case stack g of [] \<Rightarrow> g
      | [_] \<Rightarrow> g\<lparr>stack := []\<rparr>
      | state # prev # rest \<Rightarrow>
          g\<lparr>stack := merge_states state prev # rest, gi_revision := gi_revision g - 1\<rparr>)"

text \<open>\<open>commit\<close> pops from the front of the deque, which is the last of the list.\<close>

definition commit :: "int \<Rightarrow> 'v generic_index \<Rightarrow> 'v generic_index" where
  "commit r g = g\<lparr>stack := rev (dropWhile (\<lambda>h. us_revision h \<le> r) (rev (stack g)))\<rparr>"

text \<open>The loop of \<open>undo_all\<close> runs once for each state of the stack.\<close>

primrec undo_times ::
  "nat \<Rightarrow> ('v \<Rightarrow> 'v \<Rightarrow> bool) \<Rightarrow> 'v generic_index \<Rightarrow> exn + 'v generic_index" where
  "undo_times 0 cf g = Inr g"
| "undo_times (Suc n) cf g = bindR (undo cf g) (undo_times n cf)"

definition undo_all :: "('v \<Rightarrow> 'v \<Rightarrow> bool) \<Rightarrow> 'v generic_index \<Rightarrow> exn + 'v generic_index" where
  "undo_all cf g = undo_times (length (stack g)) cf g"

definition set_revision :: "int \<Rightarrow> 'v generic_index \<Rightarrow> exn + 'v generic_index" where
  "set_revision r g =
     (if stack g \<noteq> [] then
        Inl (Logic_error ''cannot set revision while there is an existing undo stack'')
      else Inr (g\<lparr>gi_revision := r\<rparr>))"

subsection \<open>What an undo state says of one id\<close>

text \<open>The four relations of an id to an undo state, from the comment in \<open>squash\<close>.\<close>

datatype 'v status = New | Upd 'v | Del 'v | Nop

definition entry :: "'v undo_state \<Rightarrow> oid \<Rightarrow> 'v status" where
  "entry h i =
     (if i \<in> set (new_ids h) then New
      else case map_of (removed_values h) i of Some v \<Rightarrow> Del v
      | None \<Rightarrow> (case map_of (old_values h) i of Some v \<Rightarrow> Upd v | None \<Rightarrow> Nop))"

text \<open>The matrix of the comment in \<open>squash\<close>; \<open>legal\<close> leaves out its N/A cells.\<close>

fun compose :: "'v status \<Rightarrow> 'v status \<Rightarrow> 'v status" where
  "compose New (Del y) = Nop"
| "compose (Upd x) (Del y) = Del x"
| "compose Nop b = b"
| "compose a b = a"

fun legal :: "'v status \<Rightarrow> 'v status \<Rightarrow> bool" where
  "legal New New = False"
| "legal (Upd x) New = False"
| "legal (Del x) New = False"
| "legal (Del x) (Upd y) = False"
| "legal (Del x) (Del y) = False"
| "legal a b = True"

fun before :: "'v status \<Rightarrow> 'v option \<Rightarrow> 'v option" where
  "before New cur = None"
| "before (Upd v) cur = Some v"
| "before (Del v) cur = Some v"
| "before Nop cur = cur"

fun status_ok :: "oid \<Rightarrow> oid \<Rightarrow> 'v status \<Rightarrow> 'v option \<Rightarrow> bool" where
  "status_ok n0 i New cur = (n0 \<le> i \<and> cur \<noteq> None)"
| "status_ok n0 i (Upd v) cur = (cur \<noteq> None)"
| "status_ok n0 i (Del v) cur = (cur = None)"
| "status_ok n0 i Nop cur = True"

definition wf_undo :: "'v undo_state \<Rightarrow> bool" where
  "wf_undo h \<longleftrightarrow> rows_sorted (old_values h) \<and> rows_sorted (removed_values h) \<and>
     distinct (new_ids h) \<and>
     (\<forall>i \<in> set (new_ids h). map_of (old_values h) i = None \<and> map_of (removed_values h) i = None) \<and>
     (\<forall>i. map_of (old_values h) i = None \<or> map_of (removed_values h) i = None)"

definition wf_index :: "'v generic_index \<Rightarrow> bool" where
  "wf_index g \<longleftrightarrow> rows_sorted (indices g) \<and> (\<forall>i \<in> set (row_ids (indices g)). i < next_id g)"

definition tracks :: "'v generic_index \<Rightarrow> 'v generic_index \<Rightarrow> bool" where
  "tracks g0 g \<longleftrightarrow> wf_index g0 \<and> wf_index g \<and> next_id g0 \<le> next_id g \<and>
     gi_revision g = gi_revision g0 + 1 \<and>
     (\<exists>h. stack g = h # stack g0 \<and> wf_undo h \<and> old_next_id h = next_id g0 \<and>
       (\<forall>i. map_of (indices g0) i = before (entry h i) (map_of (indices g) i) \<and>
            status_ok (next_id g0) i (entry h i) (map_of (indices g) i)))"

text \<open>The steps a client takes inside a session; \<open>P\<close> restricts the modifications.\<close>

inductive index_step ::
  "('v \<Rightarrow> 'v \<Rightarrow> bool) \<Rightarrow> ('v \<Rightarrow> 'v \<Rightarrow> bool) \<Rightarrow> 'v generic_index \<Rightarrow> 'v generic_index \<Rightarrow> bool"
  for cf P where
  step_emplace: "emplace cf con g = Inr (g', i) \<Longrightarrow> index_step cf P g g'"
| step_modify: "modify cf i m g = Inr g' \<Longrightarrow>
    (\<And>v v'. map_of (indices g) i = Some v \<Longrightarrow> m v = Inr v' \<Longrightarrow> P v v') \<Longrightarrow> index_step cf P g g'"
| step_remove: "remove i g = Inr g' \<Longrightarrow> index_step cf P g g'"

definition keeps_keys :: "('v \<Rightarrow> 'v \<Rightarrow> bool) \<Rightarrow> 'v \<Rightarrow> 'v \<Rightarrow> bool" where
  "keeps_keys cf v v' \<longleftrightarrow> (\<forall>w. cf v w = cf v' w) \<and> (\<forall>w. cf w v = cf w v')"

definition unique_rows :: "('v \<Rightarrow> 'v \<Rightarrow> bool) \<Rightarrow> (oid \<times> 'v) list \<Rightarrow> bool" where
  "unique_rows cf rs \<longleftrightarrow> (\<forall>(i, v) \<in> set rs. \<forall>(j, w) \<in> set rs. i \<noteq> j \<longrightarrow> \<not> cf v w)"

subsection \<open>Successful operations\<close>

lemma emplaceD:
  assumes "emplace cf con g = Inr (g', i)"
  obtains v where "i = next_id g" "con i = Inr v" "insert_ok cf i v (indices g)"
    "g' = g\<lparr>indices := ins_row i v (indices g), next_id := next_id g + 1, stack := on_create i (stack g)\<rparr>"
  using assms by (auto simp: emplace_def Let_def res_simps split: if_splits)

lemma modifyD:
  assumes "modify cf i m g = Inr g'"
  obtains v v' where "map_of (indices g) i = Some v" "m v = Inr v'" "modify_ok cf i v' (indices g)"
    "g' = g\<lparr>indices := upd_row i v' (indices g), stack := on_modify i v (stack g)\<rparr>"
  using assms by (auto simp: modify_def res_simps split: if_splits)

lemma removeD:
  assumes "remove i g = Inr g'"
  obtains v where "map_of (indices g) i = Some v"
    "g' = g\<lparr>indices := del_row i (indices g), stack := on_remove i v (stack g)\<rparr>"
  using assms by (auto simp: remove_def res_simps)

lemma map_of_Some_row_id: "map_of rs i = Some v \<Longrightarrow> i \<in> set (row_ids rs)"
  by (metis map_of_eq_None_iff_row option.distinct(1))

lemma wf_index_fresh: "wf_index g \<Longrightarrow> next_id g \<le> i \<Longrightarrow> map_of (indices g) i = None"
  by (metis linorder_not_less map_of_Some_row_id not_None_eq wf_index_def)

lemma wf_index_emplace: "wf_index g \<Longrightarrow> emplace cf con g = Inr (g', i) \<Longrightarrow> wf_index g'"
  by (elim emplaceD) (auto simp: wf_index_def wf_index_fresh intro!: rows_sorted_ins_row)

lemma wf_index_modify: "wf_index g \<Longrightarrow> modify cf i m g = Inr g' \<Longrightarrow> wf_index g'"
  by (elim modifyD) (auto simp: wf_index_def)

lemma wf_index_remove: "wf_index g \<Longrightarrow> remove i g = Inr g' \<Longrightarrow> wf_index g'"
  by (elim removeD) (use set_del_row_subset in \<open>fastforce simp: wf_index_def rows_sorted_del_row\<close>)

subsection \<open>Every operation keeps the relation to the start of the session\<close>

lemma tracks_start:
  "wf_index g \<Longrightarrow> tracks g (start_undo_session True g)"
  by (auto simp: tracks_def start_undo_session_def wf_index_def wf_undo_def entry_def)

text \<open>The effect of each callback on the status of each id.\<close>

lemma entry_new [simp]: "entry (h\<lparr>new_ids := insort_insert i (new_ids h)\<rparr>) j = (if j = i then New else entry h j)"
  by (auto simp: entry_def set_insort_insert split: option.splits)

lemma entry_ins_old:
  "wf_undo h \<Longrightarrow> entry h i = Nop \<Longrightarrow>
   entry (h\<lparr>old_values := ins_row i v (old_values h)\<rparr>) j = (if j = i then Upd v else entry h j)"
  by (auto simp: entry_def wf_undo_def map_of_ins_row split: if_splits option.splits)

lemma entry_ins_removed:
  "wf_undo h \<Longrightarrow> entry h i = Nop \<Longrightarrow>
   entry (h\<lparr>removed_values := ins_row i v (removed_values h)\<rparr>) j = (if j = i then Del v else entry h j)"
  by (auto simp: entry_def wf_undo_def map_of_ins_row split: if_splits option.splits)

lemma entry_remove_new:
  "wf_undo h \<Longrightarrow> entry h i = New \<Longrightarrow>
   entry (h\<lparr>new_ids := removeAll i (new_ids h)\<rparr>) j = (if j = i then Nop else entry h j)"
  by (auto simp: entry_def wf_undo_def split: if_splits option.splits)

lemma entry_move:
  "wf_undo h \<Longrightarrow> entry h i = Upd v \<Longrightarrow>
   entry (h\<lparr>removed_values := ins_row i v (removed_values h), old_values := del_row i (old_values h)\<rparr>) j =
   (if j = i then Del v else entry h j)"
  by (auto simp: entry_def wf_undo_def map_of_ins_row map_of_del_row
      split: if_splits option.splits)

lemmas entry_simps = entry_ins_old entry_ins_removed entry_remove_new entry_move

lemma distinct_insort_insert: "distinct xs \<Longrightarrow> distinct (insort_insert i xs)"
  by (simp add: insort_insert_key_def distinct_insort)

lemma wf_undo_new: "wf_undo h \<Longrightarrow> entry h i = Nop \<Longrightarrow> wf_undo (h\<lparr>new_ids := insort_insert i (new_ids h)\<rparr>)"
  by (auto simp: entry_def wf_undo_def set_insort_insert distinct_insort_insert split: if_splits option.splits)

lemma wf_undo_ins_old:
  "wf_undo h \<Longrightarrow> entry h i = Nop \<Longrightarrow> wf_undo (h\<lparr>old_values := ins_row i v (old_values h)\<rparr>)"
  by (auto simp: entry_def wf_undo_def map_of_ins_row rows_sorted_ins_row
      split: if_splits option.splits)

lemma wf_undo_ins_removed:
  "wf_undo h \<Longrightarrow> entry h i = Nop \<Longrightarrow> wf_undo (h\<lparr>removed_values := ins_row i v (removed_values h)\<rparr>)"
  by (auto simp: entry_def wf_undo_def map_of_ins_row rows_sorted_ins_row
      split: if_splits option.splits)

lemma wf_undo_remove_new: "wf_undo h \<Longrightarrow> wf_undo (h\<lparr>new_ids := removeAll i (new_ids h)\<rparr>)"
  by (auto simp: wf_undo_def distinct_removeAll)

lemma wf_undo_move:
  "wf_undo h \<Longrightarrow> entry h i = Upd v \<Longrightarrow>
   wf_undo (h\<lparr>removed_values := ins_row i v (removed_values h), old_values := del_row i (old_values h)\<rparr>)"
  by (auto simp: entry_def wf_undo_def map_of_ins_row map_of_del_row rows_sorted_ins_row
      rows_sorted_del_row split: if_splits option.splits)

lemmas wf_undo_intros = wf_undo_new wf_undo_ins_old wf_undo_ins_removed wf_undo_remove_new wf_undo_move

lemma entry_not_Del:
  assumes "\<And>x. entry h i \<noteq> Del x"
  shows "i \<in> set (new_ids h) \<or> map_of (removed_values h) i = None"
proof (cases "map_of (removed_values h) i")
  case (Some v)
  with assms [of v] show ?thesis by (auto simp: entry_def split: if_splits)
qed simp

lemma tracksE:
  assumes "tracks g0 g"
  obtains h where "stack g = h # stack g0" "wf_undo h" "old_next_id h = next_id g0"
    "wf_index g0" "wf_index g" "next_id g0 \<le> next_id g" "gi_revision g = gi_revision g0 + 1"
    "\<And>i. map_of (indices g0) i = before (entry h i) (map_of (indices g) i)"
    "\<And>i. status_ok (next_id g0) i (entry h i) (map_of (indices g) i)"
  using assms by (auto simp: tracks_def)

lemma tracksI:
  assumes "wf_index g0" "wf_index g" "next_id g0 \<le> next_id g" "gi_revision g = gi_revision g0 + 1"
    "stack g = h # stack g0" "wf_undo h" "old_next_id h = next_id g0"
    "\<And>i. map_of (indices g0) i = before (entry h i) (map_of (indices g) i)"
    "\<And>i. status_ok (next_id g0) i (entry h i) (map_of (indices g) i)"
  shows "tracks g0 g"
  using assms by (auto simp: tracks_def)

lemma tracks_emplace:
  assumes "tracks g0 g" and "emplace cf con g = Inr (g', i)"
  shows "tracks g0 g'"
proof -
  from assms(1) obtain h where h: "stack g = h # stack g0" "wf_undo h" "old_next_id h = next_id g0"
    "wf_index g0" "wf_index g" "next_id g0 \<le> next_id g" "gi_revision g = gi_revision g0 + 1"
    and st: "\<And>i. map_of (indices g0) i = before (entry h i) (map_of (indices g) i)"
    "\<And>i. status_ok (next_id g0) i (entry h i) (map_of (indices g) i)"
    by (elim tracksE) blast
  from assms(2) obtain v where g': "i = next_id g"
    "g' = g\<lparr>indices := ins_row i v (indices g), next_id := next_id g + 1, stack := on_create i (stack g)\<rparr>"
    by (elim emplaceD)
  have fresh: "map_of (indices g) i = None" "map_of (indices g0) i = None"
    using h g' by (auto intro: wf_index_fresh)
  then have nop: "entry h i = Nop"
    using st [of i] by (cases "entry h i") auto
  show ?thesis
  proof (rule tracksI)
    show "wf_index g'" using h(5) assms(2) by (rule wf_index_emplace)
    show "wf_undo (h\<lparr>new_ids := insort_insert i (new_ids h)\<rparr>)"
      using h(2) nop by (rule wf_undo_new)
    show "map_of (indices g0) j = before (entry (h\<lparr>new_ids := insort_insert i (new_ids h)\<rparr>) j) (map_of (indices g') j)" for j
      using st(1) [of j] fresh by (auto simp: g' map_of_ins_row)
    show "status_ok (next_id g0) j (entry (h\<lparr>new_ids := insort_insert i (new_ids h)\<rparr>) j) (map_of (indices g') j)" for j
      using st(2) [of j] fresh h(6) g'(1) by (auto simp: g' map_of_ins_row)
  qed (use h g' in auto)
qed

lemma tracks_modify:
  assumes "tracks g0 g" and "modify cf i m g = Inr g'"
  shows "tracks g0 g'"
proof -
  from assms(1) obtain h where h: "stack g = h # stack g0" "wf_undo h" "old_next_id h = next_id g0"
    "wf_index g0" "wf_index g" "next_id g0 \<le> next_id g" "gi_revision g = gi_revision g0 + 1"
    and st: "\<And>i. map_of (indices g0) i = before (entry h i) (map_of (indices g) i)"
    "\<And>i. status_ok (next_id g0) i (entry h i) (map_of (indices g) i)"
    by (elim tracksE) blast
  from assms(2) obtain v v' where g': "map_of (indices g) i = Some v"
    "g' = g\<lparr>indices := upd_row i v' (indices g), stack := on_modify i v (stack g)\<rparr>"
    by (elim modifyD)
  define h' where "h' = (if entry h i = Nop then h\<lparr>old_values := ins_row i v (old_values h)\<rparr> else h)"
  have stack': "on_modify i v (stack g) = h' # stack g0"
    using h(1) st(2) [of i] g'(1)
    by (auto simp: h'_def entry_def split: if_splits option.splits)
  have e: "entry h' j = (if j = i \<and> entry h i = Nop then Upd v else entry h j)" for j
    using h(2) by (auto simp: h'_def entry_ins_old)
  have m: "map_of (indices g') = (map_of (indices g))(i \<mapsto> v')"
    using map_of_Some_row_id [OF g'(1)] by (simp add: g'(2) map_of_upd_row del: set_map)
  show ?thesis
  proof (rule tracksI)
    show "wf_index g'" using h(5) assms(2) by (rule wf_index_modify)
    show "wf_undo h'" using h(2) by (auto simp: h'_def intro: wf_undo_ins_old)
    show "map_of (indices g0) j = before (entry h' j) (map_of (indices g') j)" for j
      using st [of j] g'(1) by (cases "entry h i") (auto simp: e m)
    show "status_ok (next_id g0) j (entry h' j) (map_of (indices g') j)" for j
      using st(2) [of j] g'(1) by (cases "entry h i") (auto simp: e m)
    show "old_next_id h' = next_id g0" using h by (simp add: h'_def)
    show "stack g' = h' # stack g0" using stack' by (simp add: g'(2))
  qed (use h g' in auto)
qed

lemma tracks_remove:
  assumes "tracks g0 g" and "remove i g = Inr g'"
  shows "tracks g0 g'"
proof -
  from assms(1) obtain h where h: "stack g = h # stack g0" "wf_undo h" "old_next_id h = next_id g0"
    "wf_index g0" "wf_index g" "next_id g0 \<le> next_id g" "gi_revision g = gi_revision g0 + 1"
    and st: "\<And>i. map_of (indices g0) i = before (entry h i) (map_of (indices g) i)"
    "\<And>i. status_ok (next_id g0) i (entry h i) (map_of (indices g) i)"
    by (elim tracksE) blast
  from assms(2) obtain v where g': "map_of (indices g) i = Some v"
    "g' = g\<lparr>indices := del_row i (indices g), stack := on_remove i v (stack g)\<rparr>"
    by (elim removeD)
  define h' where "h' = (case entry h i of
      New \<Rightarrow> h\<lparr>new_ids := removeAll i (new_ids h)\<rparr>
    | Upd w \<Rightarrow> h\<lparr>removed_values := ins_row i w (removed_values h), old_values := del_row i (old_values h)\<rparr>
    | _ \<Rightarrow> h\<lparr>removed_values := ins_row i v (removed_values h)\<rparr>)"
  have live: "entry h i \<noteq> Del w" for w using st(2) [of i] g'(1) by (cases "entry h i") auto
  have "i \<in> set (new_ids h) \<or> map_of (removed_values h) i = None"
    using live by (rule entry_not_Del)
  then have stack': "on_remove i v (stack g) = h' # stack g0"
    using h(1) by (auto simp: h'_def entry_def split: if_splits option.splits)
  have e: "entry h' j = (if j = i then compose (entry h i) (Del v) else entry h j)" for j
    using h(2) live by (cases "entry h i") (auto simp: h'_def entry_simps)
  have m: "map_of (indices g') = (map_of (indices g))(i := None)"
    using h(5) by (simp add: g'(2) map_of_del_row wf_index_def)
  show ?thesis
  proof (rule tracksI)
    show "wf_index g'" using h(5) assms(2) by (rule wf_index_remove)
    show "wf_undo h'" using h(2) live
      by (cases "entry h i") (auto simp: h'_def intro: wf_undo_intros)
    show "map_of (indices g0) j = before (entry h' j) (map_of (indices g') j)" for j
      using st [of j] g'(1) live by (cases "entry h i") (auto simp: e m)
    show "status_ok (next_id g0) j (entry h' j) (map_of (indices g') j)" for j
      using st(2) [of j] g'(1) live by (cases "entry h i") (auto simp: e m)
    show "old_next_id h' = next_id g0" using h by (auto simp: h'_def split: status.splits)
    show "stack g' = h' # stack g0" using stack' by (simp add: g'(2))
  qed (use h g' in auto)
qed

lemma tracks_step: "tracks g0 g \<Longrightarrow> index_step cf P g g' \<Longrightarrow> tracks g0 g'"
  by (auto elim!: index_step.cases intro: tracks_emplace tracks_modify tracks_remove)

lemma tracks_steps: "(index_step cf P)\<^sup>*\<^sup>* g g' \<Longrightarrow> tracks g0 g \<Longrightarrow> tracks g0 g'"
  by (induction rule: rtranclp_induct) (auto intro: tracks_step)

subsection \<open>Squash\<close>

text \<open>
  A loop over items with distinct ids that changes the status of the item's id only: each
  id is changed by its own item.
\<close>

lemma fold_entries:
  assumes step: "\<And>x p. x \<in> set xs \<Longrightarrow> wf_undo p \<Longrightarrow> ok x (entry p (key x)) \<Longrightarrow>
        wf_undo (f x p) \<and> (\<forall>j. entry (f x p) j = (if j = key x then upd x (entry p j) else entry p j))"
    and "distinct (map key xs)" and "wf_undo p" and "\<forall>x \<in> set xs. ok x (entry p (key x))"
  shows "wf_undo (fold f xs p) \<and> (\<forall>x \<in> set xs. entry (fold f xs p) (key x) = upd x (entry p (key x))) \<and>
         (\<forall>j. j \<notin> key ` set xs \<longrightarrow> entry (fold f xs p) j = entry p j)"
  using assms
proof (induction xs arbitrary: p)
  case Nil
  then show ?case by simp
next
  case (Cons x xs)
  have x: "wf_undo (f x p)" "\<And>j. entry (f x p) j = (if j = key x then upd x (entry p j) else entry p j)"
    using Cons.prems(1) [of x p] Cons.prems by auto
  have keep: "entry (f x p) (key y) = entry p (key y)" if "y \<in> set xs" for y
    using that Cons.prems(2) x(2) by (auto simp: image_iff)
  have "wf_undo (fold f xs (f x p)) \<and>
     (\<forall>y \<in> set xs. entry (fold f xs (f x p)) (key y) = upd y (entry (f x p) (key y))) \<and>
     (\<forall>j. j \<notin> key ` set xs \<longrightarrow> entry (fold f xs (f x p)) j = entry (f x p) j)"
    by (rule Cons.IH) (use Cons.prems x keep in auto)
  with x keep Cons.prems(2) show ?case by auto
qed

lemma squash_old_entry:
  assumes "wf_undo p" and "\<And>x. entry p (fst item) \<noteq> Del x"
  shows "wf_undo (squash_old item p) \<and> (\<forall>j. entry (squash_old item p) j =
     (if j = fst item then compose (entry p j) (Upd (snd item)) else entry p j))"
proof -
  have "squash_old item p =
     (if entry p (fst item) = Nop then p\<lparr>old_values := ins_row (fst item) (snd item) (old_values p)\<rparr> else p)"
    using entry_not_Del [OF assms(2)] by (auto simp: squash_old_def entry_def split: if_splits option.splits)
  then show ?thesis
    using assms by (cases "entry p (fst item)") (auto simp: entry_ins_old wf_undo_ins_old)
qed

lemma squash_removed_entry:
  assumes "wf_undo p" and "\<And>x. entry p (fst item) \<noteq> Del x"
  shows "wf_undo (squash_removed item p) \<and> (\<forall>j. entry (squash_removed item p) j =
     (if j = fst item then compose (entry p j) (Del (snd item)) else entry p j))"
proof -
  have "fst item \<in> set (new_ids p) \<or> map_of (removed_values p) (fst item) = None"
    using assms(2) by (rule entry_not_Del)
  then have "squash_removed item p = (case entry p (fst item) of
      New \<Rightarrow> p\<lparr>new_ids := removeAll (fst item) (new_ids p)\<rparr>
    | Upd x \<Rightarrow> p\<lparr>removed_values := ins_row (fst item) x (removed_values p),
                 old_values := del_row (fst item) (old_values p)\<rparr>
    | _ \<Rightarrow> p\<lparr>removed_values := ins_row (fst item) (snd item) (removed_values p)\<rparr>)"
    by (auto simp: squash_removed_def entry_def split: option.splits)
  then show ?thesis
    using assms by (cases "entry p (fst item)") (auto simp: entry_simps wf_undo_intros)
qed

lemma map_of_row_iff: "rows_sorted rs \<Longrightarrow> map_of rs i = Some v \<longleftrightarrow> (i, v) \<in> set rs"
  using rows_sorted_distinct [of rs] by simp

lemma wf_undo_disjoint:
  assumes "wf_undo h"
  shows "map_of (old_values h) i = None \<or> map_of (removed_values h) i = None"
proof -
  from assms have "\<forall>i. map_of (old_values h) i = None \<or> map_of (removed_values h) i = None"
    by (simp add: wf_undo_def)
  then show ?thesis by (rule spec)
qed

lemma entry_iffs:
  assumes "wf_undo h"
  shows "i \<in> set (new_ids h) \<longleftrightarrow> entry h i = New"
    and "(i, v) \<in> set (old_values h) \<longleftrightarrow> entry h i = Upd v"
    and "(i, v) \<in> set (removed_values h) \<longleftrightarrow> entry h i = Del v"
proof -
  have *: "(i, v) \<in> set (old_values h) \<longleftrightarrow> map_of (old_values h) i = Some v"
    "(i, v) \<in> set (removed_values h) \<longleftrightarrow> map_of (removed_values h) i = Some v"
    using assms by (simp_all add: wf_undo_def map_of_row_iff)
  note disj = wf_undo_disjoint [OF assms, of i]
  have new: "i \<in> set (new_ids h) \<Longrightarrow> map_of (old_values h) i = None \<and> map_of (removed_values h) i = None"
    using assms by (simp add: wf_undo_def)
  show "i \<in> set (new_ids h) \<longleftrightarrow> entry h i = New"
    by (auto simp: entry_def split: option.splits)
  show "(i, v) \<in> set (old_values h) \<longleftrightarrow> entry h i = Upd v"
    "(i, v) \<in> set (removed_values h) \<longleftrightarrow> entry h i = Del v"
    unfolding * using disj new
    by (cases "i \<in> set (new_ids h)"; cases "map_of (old_values h) i";
        cases "map_of (removed_values h) i"; auto simp: entry_def)+
qed

lemma merge_states_entry:
  fixes A B :: "'v undo_state"
  assumes A: "wf_undo A" and B: "wf_undo B"
    and legal: "\<And>i. legal (entry A i) (entry B i)"
  shows "wf_undo (merge_states B A) \<and> (\<forall>i. entry (merge_states B A) i = compose (entry A i) (entry B i))"
proof -
  let ?new = "\<lambda>i p. p\<lparr>new_ids := insort_insert i (new_ids p)\<rparr>"
  define p1 where "p1 = fold squash_old (old_values B) A"
  define p2 where "p2 = fold ?new (new_ids B) p1"
  note B_iffs = entry_iffs [OF B]
  have d: "distinct (map fst (old_values B))" "distinct (map fst (removed_values B))"
    using B by (auto simp: wf_undo_def rows_sorted_distinct)
  have 1: "wf_undo p1 \<and> (\<forall>x \<in> set (old_values B). entry p1 (fst x) = compose (entry A (fst x)) (Upd (snd x))) \<and>
     (\<forall>j. j \<notin> fst ` set (old_values B) \<longrightarrow> entry p1 j = entry A j)"
    unfolding p1_def
  proof (rule fold_entries [where ok = "\<lambda>_ e. \<forall>x. e \<noteq> Del x"])
    show "\<forall>x\<in>set (old_values B). \<forall>y. entry A (fst x) \<noteq> Del y"
      using legal B_iffs(2) by (metis legal.simps(4) prod.collapse)
    fix x and p :: "'v undo_state" assume "x \<in> set (old_values B)" and "wf_undo p" and "\<forall>y. entry p (fst x) \<noteq> Del y"
    then show "wf_undo (squash_old x p) \<and> (\<forall>j. entry (squash_old x p) j =
        (if j = fst x then compose (entry p j) (Upd (snd x)) else entry p j))"
      by (intro squash_old_entry) auto
  qed (use A d in auto)
  have e1: "entry p1 j = (case entry B j of Upd v \<Rightarrow> compose (entry A j) (Upd v) | _ \<Rightarrow> entry A j)" for j
    using 1 B_iffs(2) [of j] by (cases "entry B j") (force simp: image_iff)+
  have 2: "wf_undo p2 \<and> (\<forall>i \<in> set (new_ids B). entry p2 i = New) \<and>
     (\<forall>j. j \<notin> (\<lambda>x. x) ` set (new_ids B) \<longrightarrow> entry p2 j = entry p1 j)"
    unfolding p2_def
  proof (rule fold_entries [where ok = "\<lambda>_ e. e = Nop" and key = "\<lambda>x. x" and upd = "\<lambda>_ _. New"])
    show "\<forall>i\<in>set (new_ids B). entry p1 i = Nop"
    proof
      fix i assume "i \<in> set (new_ids B)"
      then show "entry p1 i = Nop"
        using legal [of i] by (cases "entry A i") (auto simp: e1 B_iffs(1))
    qed
  qed (use 1 B in \<open>auto simp: wf_undo_def [of B] intro: wf_undo_new\<close>)
  have e2: "entry p2 j = (case entry B j of New \<Rightarrow> New | Upd v \<Rightarrow> compose (entry A j) (Upd v) | _ \<Rightarrow> entry A j)" for j
    using 2 e1 [of j] B_iffs(1) [of j] by (cases "entry B j") auto
  have 3: "wf_undo (merge_states B A) \<and>
     (\<forall>x \<in> set (removed_values B). entry (merge_states B A) (fst x) = compose (entry p2 (fst x)) (Del (snd x))) \<and>
     (\<forall>j. j \<notin> fst ` set (removed_values B) \<longrightarrow> entry (merge_states B A) j = entry p2 j)"
    unfolding merge_states_def Let_def p1_def [symmetric] p2_def [symmetric]
  proof (rule fold_entries [where ok = "\<lambda>_ e. \<forall>x. e \<noteq> Del x"])
    show "\<forall>x\<in>set (removed_values B). \<forall>y. entry p2 (fst x) \<noteq> Del y"
    proof (intro ballI allI)
      fix x y assume "x \<in> set (removed_values B)"
      then have "entry B (fst x) = Del (snd x)" using B_iffs(3) by (metis prod.collapse)
      then show "entry p2 (fst x) \<noteq> Del y"
        using legal [of "fst x"] by (cases "entry A (fst x)") (auto simp: e2)
    qed
    fix x and p :: "'v undo_state" assume "x \<in> set (removed_values B)" and "wf_undo p" and "\<forall>y. entry p (fst x) \<noteq> Del y"
    then show "wf_undo (squash_removed x p) \<and> (\<forall>j. entry (squash_removed x p) j =
        (if j = fst x then compose (entry p j) (Del (snd x)) else entry p j))"
      by (intro squash_removed_entry) auto
  qed (use 2 d in auto)
  have "entry (merge_states B A) j = compose (entry A j) (entry B j)" for j
  proof (cases "entry B j")
    case (Del v)
    then have "(j, v) \<in> set (removed_values B)" using B_iffs(3) by simp
    with 3 have "entry (merge_states B A) j = compose (entry p2 j) (Del v)" by force
    with Del show ?thesis by (simp add: e2)
  next
    case New
    with 3 B_iffs(3) [of j] have "entry (merge_states B A) j = entry p2 j" by force
    with New legal [of j] show ?thesis by (cases "entry A j") (auto simp: e2)
  next
    case (Upd v)
    with 3 B_iffs(3) [of j] have "entry (merge_states B A) j = entry p2 j" by force
    with Upd show ?thesis by (simp add: e2)
  next
    case Nop
    with 3 B_iffs(3) [of j] have "entry (merge_states B A) j = entry p2 j" by force
    with Nop show ?thesis by (cases "entry A j") (auto simp: e2)
  qed
  with 3 show ?thesis by blast
qed

lemma old_next_id_merge [simp]: "old_next_id (merge_states B A) = old_next_id A"
proof -
  have old: "old_next_id (fold squash_old xs p) = old_next_id p" for xs and p :: "'v undo_state"
    by (induction xs arbitrary: p) (auto simp: squash_old_def)
  have new: "old_next_id (fold (\<lambda>i p. p\<lparr>new_ids := insort_insert i (new_ids p)\<rparr>) xs p) = old_next_id p"
    for xs and p :: "'v undo_state"
    by (induction xs arbitrary: p) auto
  have rem: "old_next_id (fold squash_removed xs p) = old_next_id p" for xs and p :: "'v undo_state"
    by (induction xs arbitrary: p) (auto simp: squash_removed_def split: option.splits)
  show ?thesis by (simp add: merge_states_def Let_def old new rem)
qed

lemma before_compose: "legal a b \<Longrightarrow> status_ok n i b c \<Longrightarrow> before (compose a b) c = before a (before b c)"
  by (cases a; cases b) auto

lemma tracks_legal:
  assumes "tracks g0 g1" and "tracks g1 g2" and "stack g1 = A # stack g0" and "stack g2 = B # stack g1"
  shows "legal (entry A i) (entry B i)"
proof -
  have A: "map_of (indices g0) i = before (entry A i) (map_of (indices g1) i)"
    "status_ok (next_id g0) i (entry A i) (map_of (indices g1) i)"
    using assms(1,3) by (auto simp: tracks_def)
  have B: "map_of (indices g1) i = before (entry B i) (map_of (indices g2) i)"
    "status_ok (next_id g1) i (entry B i) (map_of (indices g2) i)"
    using assms(2,4) by (auto simp: tracks_def)
  have "next_id g1 \<le> i \<Longrightarrow> map_of (indices g0) i = None"
    using assms(1) by (auto simp: tracks_def intro: wf_index_fresh)
  with A B show ?thesis by (cases "entry A i"; cases "entry B i") auto
qed

text \<open>Squashing a nested session into the outer one gives the undo state of both.\<close>

lemma tracks_squash:
  assumes "tracks g0 g1" and "tracks g1 g2"
  shows "tracks g0 (squash g2)"
proof -
  obtain A where A: "stack g1 = A # stack g0" "wf_undo A" "old_next_id A = next_id g0"
    using assms(1) by (auto simp: tracks_def)
  obtain B where B: "stack g2 = B # stack g1" "wf_undo B"
    using assms(2) by (auto simp: tracks_def)
  have l: "legal (entry A i) (entry B i)" for i
    using assms A(1) B(1) by (rule tracks_legal)
  note m = merge_states_entry [OF A(2) B(2) l]
  have nid: "old_next_id (merge_states B A) = old_next_id A"
    by (simp add: old_next_id_merge)
  have st: "map_of (indices g0) i = before (entry A i) (map_of (indices g1) i)"
    "status_ok (next_id g0) i (entry A i) (map_of (indices g1) i)"
    "map_of (indices g1) i = before (entry B i) (map_of (indices g2) i)"
    "status_ok (next_id g1) i (entry B i) (map_of (indices g2) i)" for i
    using assms A(1) B(1) by (auto simp: tracks_def)
  have le: "next_id g0 \<le> next_id g1" using assms by (auto simp: tracks_def)
  show ?thesis
  proof (rule tracksI [where h = "merge_states B A"])
    show "status_ok (next_id g0) i (entry (merge_states B A) i) (map_of (indices (squash g2)) i)" for i
      using st [of i] l [of i] m le A(1) B(1)
      by (cases "entry A i"; cases "entry B i") (auto simp: squash_def)
    show "map_of (indices g0) i = before (entry (merge_states B A) i) (map_of (indices (squash g2)) i)" for i
      using st [of i] m before_compose [OF l st(4), of i] A(1) B(1) by (simp add: squash_def)
  qed (use assms A B m nid in \<open>auto simp: squash_def tracks_def wf_index_def\<close>)
qed

subsection \<open>Undo\<close>

lemma undo_old_rows:
  assumes "foldR (undo_old cf) xs rs = Inr rs'" and "distinct (map fst xs)"
  shows "row_ids rs' = row_ids rs \<and> map_of rs' = map_of rs ++ map_of xs"
  using assms
proof (induction xs arbitrary: rs)
  case Nil
  then show ?case by simp
next
  case (Cons x xs)
  from Cons.prems obtain v where x: "map_of rs (fst x) = Some v"
    "foldR (undo_old cf) xs (upd_row (fst x) (snd x) rs) = Inr rs'"
    by (auto simp: res_simps undo_old_def [of cf x] split: if_splits)
  have "map_of xs (fst x) = None" using Cons.prems(2) by (simp add: map_of_eq_None_iff)
  with Cons.IH [OF x(2)] Cons.prems(2) map_of_Some_row_id [OF x(1)] show ?case
    by (cases x) (auto simp: map_of_upd_row map_add_def fun_eq_iff split: option.splits simp del: set_map)
qed

lemma undo_removed_rows:
  assumes "foldR (undo_removed cf) xs rs = Inr rs'" and "distinct (map fst xs)" and "rows_sorted rs"
  shows "rows_sorted rs' \<and> map_of rs' = map_of rs ++ map_of xs"
  using assms
proof (induction xs arbitrary: rs)
  case Nil
  then show ?case by simp
next
  case (Cons x xs)
  from Cons.prems(1) have x: "insert_ok cf (fst x) (snd x) rs"
    "foldR (undo_removed cf) xs (ins_row (fst x) (snd x) rs) = Inr rs'"
    by (auto simp: res_simps undo_removed_def [of cf x] split: if_splits)
  have none: "map_of rs (fst x) = None"
    using x(1) by (auto simp: insert_ok_def list_all_iff map_of_eq_None_iff)
  have "map_of xs (fst x) = None" using Cons.prems(2) by (simp add: map_of_eq_None_iff)
  with Cons.IH [OF x(2)] Cons.prems(2,3) none show ?case
    by (cases x) (auto simp: map_of_ins_row rows_sorted_ins_row map_add_def fun_eq_iff split: option.splits)
qed

lemma fold_del_rows:
  "rows_sorted rs \<Longrightarrow> rows_sorted (fold del_row is rs) \<and>
     (\<forall>j. map_of (fold del_row is rs) j = (if j \<in> set is then None else map_of rs j))"
  by (induction "is" arbitrary: rs) (auto simp: rows_sorted_del_row map_of_del_row)

lemma wf_undo_distinct:
  "wf_undo h \<Longrightarrow> distinct (row_ids (old_values h)) \<and> distinct (row_ids (removed_values h))"
  by (simp add: wf_undo_def rows_sorted_distinct)

text \<open>If \<open>undo\<close> returns, it returns the index as it was when the session started.\<close>

lemma undo_tracked:
  assumes "tracks g0 g" and "undo cf g = Inr g'"
  shows "g' = g0"
proof -
  from assms(1) obtain h where h: "stack g = h # stack g0" "wf_undo h" "old_next_id h = next_id g0"
    "wf_index g0" "wf_index g" "gi_revision g = gi_revision g0 + 1"
    and st: "\<And>i. map_of (indices g0) i = before (entry h i) (map_of (indices g) i)"
    by (elim tracksE) blast
  from assms(2) h(1) obtain rs1 rs3 where
    1: "foldR (undo_old cf) (old_values h) (indices g) = Inr rs1"
    and 3: "foldR (undo_removed cf) (removed_values h) (fold del_row (new_ids h) rs1) = Inr rs3"
    and g': "g' = g\<lparr>indices := rs3, next_id := old_next_id h, stack := stack g0, gi_revision := gi_revision g - 1\<rparr>"
    by (auto simp: undo_def res_simps)
  note d = wf_undo_distinct [OF h(2)]
  note r1 = undo_old_rows [OF 1 conjunct1 [OF d]]
  have s1: "rows_sorted rs1" using r1 h(5) by (simp add: wf_index_def)
  note r2 = fold_del_rows [OF s1, of "new_ids h"]
  note r3 = undo_removed_rows [OF 3 conjunct2 [OF d] conjunct1 [OF r2]]
  have new: "i \<in> set (new_ids h) \<Longrightarrow> map_of (removed_values h) i = None" for i
    using h(2) by (simp add: wf_undo_def)
  have "map_of rs3 i = map_of (indices g0) i" for i
  proof -
    have "map_of rs3 i = before (entry h i) (map_of (indices g) i)"
      using r1 r2 r3 new by (auto simp: entry_def map_add_def split: option.splits)
    then show ?thesis using st by simp
  qed
  then have "rs3 = indices g0"
    using r3 h(4) by (intro rows_eqI) (auto simp: wf_index_def)
  with g' h show ?thesis by simp
qed

text \<open>
  \<open>undo\<close> returns when no modification of the session changed a unique key: then neither
  restoring an old value nor putting a removed object back can collide.
\<close>

lemma unique_rowsD:
  "unique_rows cf rs \<Longrightarrow> (i, v) \<in> set rs \<Longrightarrow> (j, w) \<in> set rs \<Longrightarrow> i \<noteq> j \<Longrightarrow> \<not> cf v w"
  by (auto simp: unique_rows_def)

lemma set_upd_row_subset: "set (upd_row i v rs) \<subseteq> insert (i, v) (set rs)"
  by (induction i v rs rule: upd_row.induct) auto

lemma set_upd_row:
  "distinct (row_ids rs) \<Longrightarrow> set (upd_row i v rs) \<subseteq> insert (i, v) {r \<in> set rs. fst r \<noteq> i}"
  by (induction i v rs rule: upd_row.induct) (auto simp: image_iff)

lemma unique_rows_upd_row:
  assumes "unique_rows cf rs" and "rows_sorted rs" and "map_of rs i = Some v" and "keeps_keys cf v v'"
  shows "modify_ok cf i v' rs \<and> unique_rows cf (upd_row i v' rs)"
proof -
  have iv: "(i, v) \<in> set rs" using assms(2,3) by (simp add: map_of_row_iff)
  have *: "\<not> cf v' w \<and> \<not> cf w v'" if "(j, w) \<in> set rs" "j \<noteq> i" for j w
    using assms(4) unique_rowsD [OF assms(1) iv that(1)] unique_rowsD [OF assms(1) that(1) iv] that(2)
    by (simp add: keeps_keys_def)
  have sub: "set (upd_row i v' rs) \<subseteq> insert (i, v') {r \<in> set rs. fst r \<noteq> i}"
    using rows_sorted_distinct [OF assms(2)] by (rule set_upd_row)
  have "\<not> cf x y" if "(j, x) \<in> set (upd_row i v' rs)" "(k, y) \<in> set (upd_row i v' rs)" "j \<noteq> k" for j x k y
  proof -
    have "(j, x) = (i, v') \<or> (j, x) \<in> set rs \<and> j \<noteq> i" "(k, y) = (i, v') \<or> (k, y) \<in> set rs \<and> k \<noteq> i"
      using that(1,2) sub by auto
    with that(3) * unique_rowsD [OF assms(1)] show ?thesis by blast
  qed
  with * show ?thesis by (fastforce simp: modify_ok_def list_all_iff unique_rows_def)
qed

lemma undo_old_total:
  assumes "unique_rows cf rs" and "rows_sorted rs" and "distinct (map fst xs)"
    and "\<And>i v. (i, v) \<in> set xs \<Longrightarrow> \<exists>v'. map_of rs i = Some v' \<and> keeps_keys cf v' v"
  shows "\<exists>rs'. foldR (undo_old cf) xs rs = Inr rs'"
  using assms
proof (induction xs arbitrary: rs)
  case Nil
  then show ?case by simp
next
  case (Cons x xs)
  obtain i v where x: "x = (i, v)" by (cases x)
  obtain v' where v': "map_of rs i = Some v'" "keeps_keys cf v' v"
    using Cons.prems(4) x by auto
  note u = unique_rows_upd_row [OF Cons.prems(1,2) v']
  have "map_of (upd_row i v rs) j = map_of rs j" if "j \<noteq> i" for j
    using that by (simp add: map_of_upd_row del: set_map)
  then have "\<exists>rs'. foldR (undo_old cf) xs (upd_row i v rs) = Inr rs'"
    using Cons.prems u x by (intro Cons.IH) (force simp: image_iff)+
  with u v' x show ?case by (simp add: undo_old_def [of cf "(i, v)"])
qed

lemma undo_removed_total:
  assumes "unique_rows cf rs0" and "set rs \<subseteq> set rs0" and "set xs \<subseteq> set rs0"
    and "distinct (map fst xs)" and "fst ` set rs \<inter> fst ` set xs = {}"
  shows "\<exists>rs'. foldR (undo_removed cf) xs rs = Inr rs'"
  using assms
proof (induction xs arbitrary: rs)
  case Nil
  then show ?case by simp
next
  case (Cons x xs)
  have "insert_ok cf (fst x) (snd x) rs"
    unfolding insert_ok_def list_all_iff
  proof
    fix r assume r: "r \<in> set rs"
    have "fst r \<noteq> fst x" using r Cons.prems(5) by (auto simp: disjoint_iff)
    moreover have "(fst x, snd x) \<in> set rs0" "(fst r, snd r) \<in> set rs0"
      using r Cons.prems(2,3) by auto
    ultimately show "case r of (j, w) \<Rightarrow> j \<noteq> fst x \<and> \<not> cf (snd x) w"
      using unique_rowsD [OF Cons.prems(1), of "fst x" "snd x" "fst r" "snd r"] by (cases r) auto
  qed
  moreover have "\<exists>rs'. foldR (undo_removed cf) xs (ins_row (fst x) (snd x) rs) = Inr rs'"
  proof (rule Cons.IH)
    show "set (ins_row (fst x) (snd x) rs) \<subseteq> set rs0" using Cons.prems(2,3) by simp
    show "fst ` set (ins_row (fst x) (snd x) rs) \<inter> fst ` set xs = {}"
      using Cons.prems(4,5) by simp
  qed (use Cons.prems in auto)
  ultimately show ?case by (simp add: undo_removed_def [of cf x])
qed

definition key_tracks :: "('v \<Rightarrow> 'v \<Rightarrow> bool) \<Rightarrow> 'v generic_index \<Rightarrow> 'v generic_index \<Rightarrow> bool" where
  "key_tracks cf g0 g \<longleftrightarrow> unique_rows cf (indices g0) \<and> unique_rows cf (indices g) \<and>
     (\<forall>i v v'. map_of (indices g0) i = Some v \<longrightarrow> map_of (indices g) i = Some v' \<longrightarrow> keeps_keys cf v v')"

lemma undo_total:
  assumes "tracks g0 g" and "key_tracks cf g0 g"
  shows "undo cf g = Inr g0"
proof -
  from assms(1) obtain h where h: "stack g = h # stack g0" "wf_undo h" "wf_index g0" "wf_index g"
    and st: "\<And>i. map_of (indices g0) i = before (entry h i) (map_of (indices g) i)"
    "\<And>i. status_ok (next_id g0) i (entry h i) (map_of (indices g) i)"
    by (elim tracksE) blast
  note iffs = entry_iffs [OF h(2)] and d = wf_undo_distinct [OF h(2)]
  have sorted: "rows_sorted (indices g)" "rows_sorted (indices g0)"
    using h by (auto simp: wf_index_def)
  have "\<exists>v'. map_of (indices g) i = Some v' \<and> keeps_keys cf v' v" if "(i, v) \<in> set (old_values h)" for i v
    using that st [of i] assms(2) iffs(2) [of i v] by (auto simp: key_tracks_def keeps_keys_def)
  then obtain rs1 where 1: "foldR (undo_old cf) (old_values h) (indices g) = Inr rs1"
    using undo_old_total [of cf "indices g" "old_values h"] assms(2) sorted d
    by (auto simp: key_tracks_def)
  note r1 = undo_old_rows [OF 1 conjunct1 [OF d]]
  let ?rs2 = "fold del_row (new_ids h) rs1"
  have s1: "rows_sorted rs1" using r1 sorted by simp
  note r2 = fold_del_rows [OF s1, of "new_ids h"]
  have m2: "map_of ?rs2 i = (case entry h i of New \<Rightarrow> None | Del v \<Rightarrow> None | Upd v \<Rightarrow> Some v | Nop \<Rightarrow> map_of (indices g) i)" for i
    using r1 r2 st(2) [of i] wf_undo_disjoint [OF h(2), of i]
    by (auto simp: entry_def map_add_def split: option.splits if_splits)
  have sub: "set ?rs2 \<subseteq> set (indices g0)"
  proof
    fix r assume r: "r \<in> set ?rs2"
    then have "map_of ?rs2 (fst r) = Some (snd r)" using map_of_row_iff [OF conjunct1 [OF r2]] by simp
    then have "map_of (indices g0) (fst r) = Some (snd r)"
      using st(1) [of "fst r"] m2 [of "fst r"] by (cases "entry h (fst r)") auto
    then show "r \<in> set (indices g0)" using sorted by (simp add: map_of_row_iff)
  qed
  have subx: "set (removed_values h) \<subseteq> set (indices g0)"
  proof
    fix r assume "r \<in> set (removed_values h)"
    then have "entry h (fst r) = Del (snd r)" using iffs(3) by (metis prod.collapse)
    then have "map_of (indices g0) (fst r) = Some (snd r)" using st(1) by simp
    then show "r \<in> set (indices g0)" using sorted by (simp add: map_of_row_iff)
  qed
  have disj: "fst ` set ?rs2 \<inter> fst ` set (removed_values h) = {}"
  proof -
    have "fst r \<notin> fst ` set (removed_values h)" if "r \<in> set ?rs2" for r
    proof -
      have "map_of ?rs2 (fst r) = Some (snd r)" using map_of_row_iff [OF conjunct1 [OF r2]] that by simp
      then have "entry h (fst r) \<noteq> Del v" for v using m2 [of "fst r"] by auto
      then show ?thesis using iffs(3) by force
    qed
    then show ?thesis by blast
  qed
  obtain rs3 where "foldR (undo_removed cf) (removed_values h) ?rs2 = Inr rs3"
    using undo_removed_total [of cf, OF _ sub subx conjunct2 [OF d] disj] assms(2)
    by (auto simp: key_tracks_def)
  then obtain g' where "undo cf g = Inr g'" using 1 h(1) by (simp add: undo_def)
  then show ?thesis using undo_tracked [OF assms(1)] by simp
qed

lemma keeps_keys_refl [simp]: "keeps_keys cf v v"
  by (simp add: keeps_keys_def)

lemma keeps_keys_trans: "keeps_keys cf u v \<Longrightarrow> keeps_keys cf v w \<Longrightarrow> keeps_keys cf u w"
  by (simp add: keeps_keys_def)

lemma key_tracks_refl: "unique_rows cf (indices g) \<Longrightarrow> key_tracks cf g (start_undo_session True g)"
  by (auto simp: key_tracks_def start_undo_session_def)

lemma unique_rows_subset: "unique_rows cf rs \<Longrightarrow> set rs' \<subseteq> set rs \<Longrightarrow> unique_rows cf rs'"
  by (force simp: unique_rows_def)

lemma unique_rows_ins_row:
  assumes "symp cf" and "unique_rows cf rs" and "insert_ok cf i v rs"
  shows "unique_rows cf (ins_row i v rs)"
  using assms by (force simp: unique_rows_def insert_ok_def list_all_iff dest: sympD)

lemma key_tracks_step:
  assumes "symp cf" and "tracks g0 g" and "key_tracks cf g0 g" and "index_step cf (keeps_keys cf) g g'"
  shows "key_tracks cf g0 g'"
proof -
  have wf: "wf_index g" "wf_index g0" "next_id g0 \<le> next_id g" using assms(2) by (auto simp: tracks_def)
  then have sorted: "rows_sorted (indices g)" by (simp add: wf_index_def)
  from assms(4) show ?thesis
  proof cases
    case (step_emplace con i)
    then obtain v where e: "i = next_id g" "insert_ok cf i v (indices g)" "indices g' = ins_row i v (indices g)"
      by (elim emplaceD) auto
    have "map_of (indices g) i = None" "map_of (indices g0) i = None"
      using wf e(1) by (auto intro: wf_index_fresh)
    then show ?thesis
      using assms(3) e unique_rows_ins_row [OF assms(1) _ e(2)]
      by (auto simp: key_tracks_def map_of_ins_row)
  next
    case (step_modify i m)
    then obtain v v' where e: "map_of (indices g) i = Some v" "m v = Inr v'" "indices g' = upd_row i v' (indices g)"
      by (elim modifyD) auto
    have k: "keeps_keys cf v v'" using step_modify(2) e by blast
    have "unique_rows cf (indices g')"
      using unique_rows_upd_row [OF _ sorted e(1) k] assms(3) e(3) by (auto simp: key_tracks_def)
    then show ?thesis
      using assms(3) e k keeps_keys_trans [of cf _ v v'] map_of_Some_row_id [OF e(1)]
      by (auto simp: key_tracks_def map_of_upd_row simp del: set_map)
  next
    case (step_remove i)
    then have e: "indices g' = del_row i (indices g)" by (elim removeD) auto
    then have "unique_rows cf (indices g')"
      using assms(3) by (simp add: key_tracks_def unique_rows_subset [OF _ set_del_row_subset])
    then show ?thesis
      using assms(3) sorted by (auto simp: key_tracks_def e map_of_del_row split: if_splits)
  qed
qed

lemma key_tracks_steps:
  assumes "(index_step cf (keeps_keys cf))\<^sup>*\<^sup>* g g'" and "symp cf" and "tracks g0 g" and "key_tracks cf g0 g"
  shows "key_tracks cf g0 g'"
  using assms(1)
proof (induction rule: rtranclp_induct)
  case base
  then show ?case using assms by simp
next
  case (step y z)
  then show ?case
    using key_tracks_step [OF assms(2) _ step.IH step.hyps(2)] tracks_steps [OF step.hyps(1) assms(3)] by blast
qed

subsection \<open>The contract of a session\<close>

text \<open>
  A client of the undo stack relies on three laws: changes made after \<open>start\<close> are undone by
  \<open>undo\<close>, and squashing a nested session leaves one session that undoes both. The locale
  is the interface; the interpretation below is on \<open>generic_index\<close>.
\<close>

locale undo_sessions =
  fixes good :: "'s \<Rightarrow> bool"
    and start :: "'s \<Rightarrow> 's"
    and steps :: "'s \<Rightarrow> 's \<Rightarrow> bool"
    and revert :: "'s \<Rightarrow> exn + 's"
    and merge :: "'s \<Rightarrow> 's"
    and in_session :: "'s \<Rightarrow> 's \<Rightarrow> bool"
  assumes start_session: "good s \<Longrightarrow> in_session s (start s)"
    and steps_session: "in_session s0 s \<Longrightarrow> steps s s' \<Longrightarrow> in_session s0 s'"
    and session_good: "in_session s0 s \<Longrightarrow> good s"
    and revert_session: "in_session s0 s \<Longrightarrow> revert s = Inr s' \<Longrightarrow> s' = s0"
    and merge_session: "in_session s0 s1 \<Longrightarrow> in_session s1 s2 \<Longrightarrow> in_session s0 (merge s2)"
begin

lemma revert_restores:
  assumes "good s" and "steps (start s) s'" and "revert s' = Inr s''"
  shows "s'' = s"
  using assms start_session steps_session revert_session by blast

text \<open>A transaction inside a block: the inner session is merged, then the outer one fails.\<close>

lemma merged_revert_restores:
  assumes "good s" and "steps (start s) s1" and "steps (start s1) s2" and "steps (merge s2) s3"
    and "revert s3 = Inr s'"
  shows "s' = s"
proof -
  have 1: "in_session s s1" using assms start_session steps_session by blast
  then have "in_session s1 s2" using assms start_session steps_session session_good by blast
  with 1 have "in_session s (merge s2)" by (rule merge_session)
  then have "in_session s s3" using assms(4) by (rule steps_session)
  then show ?thesis using assms(5) by (rule revert_session)
qed

end

interpretation gi: undo_sessions wf_index "start_undo_session True" "(index_step cf P)\<^sup>*\<^sup>*" "undo cf" squash tracks
  by unfold_locales
    (auto simp: tracks_start intro: tracks_steps undo_tracked tracks_squash, simp add: tracks_def)

subsection \<open>Properties\<close>

text \<open>
  C5: restoring a session. From any well-formed index whose rows respect the unique keys,
  after \<open>start_undo_session\<close> and any sequence of creations, removals and modifications that
  do not change a unique key, \<open>undo\<close> does not throw and gives back exactly the index as it
  was: objects, next id, revision and the rest of the undo stack.
\<close>

theorem undo_restores_session:
  assumes "symp cf" and "wf_index g" and "unique_rows cf (indices g)"
    and "(index_step cf (keeps_keys cf))\<^sup>*\<^sup>* (start_undo_session True g) g'"
  shows "undo cf g' = Inr g"
  using assms tracks_start [OF assms(2)] key_tracks_refl [OF assms(3)]
  by (intro undo_total tracks_steps [OF assms(4)] key_tracks_steps [OF assms(4)])

definition same_key :: "nat \<times> nat \<Rightarrow> nat \<times> nat \<Rightarrow> bool" where
  "same_key v w \<longleftrightarrow> fst v = fst w"

definition sample_index :: "(nat \<times> nat) generic_index" where
  "sample_index = mk_index [(0, (10, 1)), (1, (11, 2)), (4, (12, 3))] 5"

definition sample_changed :: "(nat \<times> nat) generic_index" where
  "sample_changed =
     \<lparr> stack = [\<lparr> old_values = [(1, (11, 2))], removed_values = [(0, (10, 1))], new_ids = [5],
                  old_next_id = 5, us_revision = 1 \<rparr>],
       gi_revision = 1, next_id = 6, indices = [(1, (11, 7)), (4, (12, 3)), (5, (13, 0))] \<rparr>"

lemma sample_steps:
  "(index_step same_key (keeps_keys same_key))\<^sup>*\<^sup>* (start_undo_session True sample_index) sample_changed"
proof -
  let ?s0 = "start_undo_session True sample_index"
  let ?s1 = "case modify same_key 1 (\<lambda>v. Inr (fst v, 7)) ?s0 of Inr g \<Rightarrow> g | Inl _ \<Rightarrow> ?s0"
  let ?s2 = "case remove 0 ?s1 of Inr g \<Rightarrow> g | Inl _ \<Rightarrow> ?s1"
  note defs = sample_index_def mk_index_def start_undo_session_def modify_def remove_def emplace_def
    modify_ok_def insert_ok_def same_key_def Let_def insort_insert_key_def
  have "index_step same_key (keeps_keys same_key) ?s0 ?s1"
    by (rule step_modify [of _ 1 "\<lambda>v. Inr (fst v, 7)"])
      (auto simp: defs keeps_keys_def)
  moreover have "index_step same_key (keeps_keys same_key) ?s1 ?s2"
    by (rule step_remove [of 0]) (simp add: defs)
  moreover have "index_step same_key (keeps_keys same_key) ?s2 sample_changed"
    by (rule step_emplace [of _ "\<lambda>_. Inr (13, 0)" _ _ 5]) (simp add: defs sample_changed_def)
  ultimately show ?thesis by (metis (no_types, lifting) rtranclp.simps)
qed

theorem undo_restores_session_witness: "undo same_key sample_changed = Inr sample_index"
  by (rule undo_restores_session [OF _ _ _ sample_steps])
    (auto simp: same_key_def sample_index_def mk_index_def wf_index_def unique_rows_def intro: sympI)

text \<open>
  C21: \<open>squash\<close>. The merged undo state has, for every object, the cell of the 4x4 matrix that
  the comment in \<open>squash\<close> gives for its status in the two merged states, provided no object
  is in one of the cells marked N/A.
\<close>

theorem squash_follows_matrix:
  assumes "wf_undo A" and "wf_undo B" and "\<And>i. legal (entry A i) (entry B i)"
  shows "entry (merge_states B A) i = compose (entry A i) (entry B i)"
  using merge_states_entry [OF assms] by blast

definition state_a :: "nat undo_state" where
  "state_a = \<lparr> old_values = [(1, 10), (2, 20)], removed_values = [(3, 30)], new_ids = [7, 8],
     old_next_id = 7, us_revision = 1 \<rparr>"

definition state_b :: "nat undo_state" where
  "state_b = \<lparr> old_values = [(1, 11), (4, 40)], removed_values = [(2, 21), (7, 70)], new_ids = [9],
     old_next_id = 9, us_revision = 2 \<rparr>"

theorem squash_follows_matrix_witness:
  "entry (merge_states state_b state_a) 2 = Del 20 \<and> entry state_a 2 = Upd 20"
proof -
  have l: "legal (entry state_a i) (entry state_b i)" for i
    by (auto simp: state_a_def state_b_def entry_def)
  have "wf_undo state_a" "wf_undo state_b"
    by (auto simp: wf_undo_def state_a_def state_b_def)
  from squash_follows_matrix [OF this l, of 2] show ?thesis
    by (simp add: state_a_def state_b_def entry_def)
qed

text \<open>
  Nested sessions. When a second session is opened inside a first one and squashed into
  it, and more changes follow, an \<open>undo\<close> that returns gives back the index as it was before
  the first session. This is how a failed block takes back its applied transactions.
\<close>

theorem squash_then_undo:
  assumes "wf_index g"
    and "(index_step cf P)\<^sup>*\<^sup>* (start_undo_session True g) g1"
    and "(index_step cf P)\<^sup>*\<^sup>* (start_undo_session True g1) g2"
    and "(index_step cf P)\<^sup>*\<^sup>* (squash g2) g3"
    and "undo cf g3 = Inr g'"
  shows "g' = g"
  using assms by (rule gi.merged_revert_restores)

theorem squash_then_undo_witness:
  "undo same_key (squash (start_undo_session True sample_changed)) = Inr sample_index"
proof -
  have u: "undo same_key (squash (start_undo_session True sample_changed)) =
      Inr (case undo same_key (squash (start_undo_session True sample_changed)) of Inr g \<Rightarrow> g | Inl _ \<Rightarrow> sample_changed)"
    by (simp add: sample_changed_def start_undo_session_def squash_def merge_states_def undo_def
        undo_old_def undo_removed_def modify_ok_def insert_ok_def same_key_def)
  show ?thesis
    using u squash_then_undo [OF _ sample_steps rtranclp.rtrancl_refl rtranclp.rtrancl_refl u]
    by (simp add: sample_index_def mk_index_def wf_index_def)
qed


lemma undo_pops: "undo cf g = Inr g' \<Longrightarrow> stack g' = tl (stack g)"
  by (auto simp: undo_def res_simps split: list.splits)

text \<open>
  \<open>undo_all\<close> terminates and, when it returns, leaves no undo state behind.
\<close>

theorem undo_all_empties: "undo_all cf g = Inr g' \<Longrightarrow> stack g' = []"
proof -
  have "undo_times n cf g = Inr g' \<Longrightarrow> stack g' = drop n (stack g)" for n g
    by (induction n arbitrary: g) (auto simp: res_simps drop_Suc dest!: undo_pops)
  then show "undo_all cf g = Inr g' \<Longrightarrow> stack g' = []" by (simp add: undo_all_def)
qed

theorem undo_all_empties_witness:
  "\<exists>g. undo_all same_key sample_changed = Inr g \<and> stack g = []"
proof -
  have "undo_all same_key sample_changed = Inr sample_index"
    by (simp add: undo_all_def sample_changed_def sample_index_def mk_index_def undo_def undo_old_def
        undo_removed_def modify_ok_def insert_ok_def same_key_def)
  from this undo_all_empties [OF this] show ?thesis by blast
qed

end
