(* ===== verification/Config.thy ===== *)
theory Config
  imports Prelude
begin

text \<open>
  The constants of \<open>libraries/protocol/include/bmchain/protocol/config.hpp\<close> for the live
  network (\<open>IS_TEST_NET\<close> undefined). The build options fixed here and in every theory are
  the defaults of \<open>CMakeLists.txt\<close>: no test net, no low-memory node, \<open>CLEAR_VOTES\<close> on.
  Durations are seconds.
\<close>

type_synonym asset_symbol_type = nat

text \<open>A symbol is 64 bits: the precision in the low byte, then up to six characters.\<close>

definition sym :: "nat \<Rightarrow> nat list \<Rightarrow> asset_symbol_type" where
  "sym prec cs = prec + 256 * foldr (\<lambda>c acc. c + 256 * acc) cs 0"

definition VESTS_SYMBOL :: asset_symbol_type where
  "VESTS_SYMBOL = sym 6 [86, 69, 83, 84, 83]"

definition BMT_SYMBOL :: asset_symbol_type where
  "BMT_SYMBOL = sym 3 [66, 77, 84]"

definition SBD_SYMBOL :: asset_symbol_type where
  "SBD_SYMBOL = sym 3 [83, 66, 68]"

definition GENESIS_TIME :: time_point_sec where "GENESIS_TIME = 1510655500"
definition CASHOUT_WINDOW_SECONDS :: nat where "CASHOUT_WINDOW_SECONDS = 60*60*24*7"
definition SECOND_CASHOUT_WINDOW :: nat where "SECOND_CASHOUT_WINDOW = 60*60*24*30"
definition UPVOTE_LOCKOUT :: nat where "UPVOTE_LOCKOUT = 60*60*12"
definition MIN_ACCOUNT_CREATION_FEE :: int where "MIN_ACCOUNT_CREATION_FEE = 10000"
definition OWNER_AUTH_RECOVERY_PERIOD :: nat where "OWNER_AUTH_RECOVERY_PERIOD = 60*60*24*30"
definition ACCOUNT_RECOVERY_REQUEST_EXPIRATION_PERIOD :: nat where
  "ACCOUNT_RECOVERY_REQUEST_EXPIRATION_PERIOD = 60*60*24"
definition OWNER_UPDATE_LIMIT :: nat where "OWNER_UPDATE_LIMIT = 60*60"
definition OWNER_AUTH_HISTORY_TRACKING_START_BLOCK_NUM :: nat where
  "OWNER_AUTH_HISTORY_TRACKING_START_BLOCK_NUM = 3186477"

definition BLOCK_INTERVAL :: nat where "BLOCK_INTERVAL = 3"
definition BLOCKS_PER_DAY :: nat where "BLOCKS_PER_DAY = 24*60*60 div BLOCK_INTERVAL"
definition BLOCKS_PER_YEAR :: nat where "BLOCKS_PER_YEAR = 365*24*60*60 div BLOCK_INTERVAL"
definition START_VESTING_BLOCK :: nat where "START_VESTING_BLOCK = BLOCKS_PER_DAY * 7"
definition START_MINER_VOTING_BLOCK :: nat where "START_MINER_VOTING_BLOCK = BLOCKS_PER_DAY * 30"

definition INIT_MINER_NAME :: string where "INIT_MINER_NAME = ''initminer''"
definition NUM_INIT_MINERS :: nat where "NUM_INIT_MINERS = 1"
definition INIT_PUBLIC_KEY_STR :: string where
  "INIT_PUBLIC_KEY_STR = ''BMT66aNeWvP9Mkx7j6WiMgYZs1jbDoGtTi6cFTdkeBXkLAqGHvF7L''"
definition ADDRESS_PREFIX :: string where "ADDRESS_PREFIX = ''BMT''"
definition MAX_WITNESSES :: nat where "MAX_WITNESSES = 21"
definition MAX_VOTED_WITNESSES :: nat where "MAX_VOTED_WITNESSES = 20"
definition MAX_MINER_WITNESSES :: nat where "MAX_MINER_WITNESSES = 0"
definition MAX_RUNNER_WITNESSES :: nat where "MAX_RUNNER_WITNESSES = 1"
definition HARDFORK_REQUIRED_WITNESSES :: nat where "HARDFORK_REQUIRED_WITNESSES = 17"
definition MAX_TIME_UNTIL_EXPIRATION :: nat where "MAX_TIME_UNTIL_EXPIRATION = 60*60"
definition MAX_MEMO_SIZE :: nat where "MAX_MEMO_SIZE = 2048"
definition MAX_PROXY_RECURSION_DEPTH :: nat where "MAX_PROXY_RECURSION_DEPTH = 4"
definition SAVINGS_REWARD_INTERVAL_BLOCKS :: nat where
  "SAVINGS_REWARD_INTERVAL_BLOCKS = 20*60*24*30"
definition VOTE_REGENERATION_SECONDS :: int where "VOTE_REGENERATION_SECONDS = 5*60*60*24"
definition MAX_VOTE_CHANGES :: int where "MAX_VOTE_CHANGES = 5"
definition REVERSE_AUCTION_WINDOW_SECONDS :: nat where "REVERSE_AUCTION_WINDOW_SECONDS = 60*30"
definition MIN_VOTE_INTERVAL_SEC :: int where "MIN_VOTE_INTERVAL_SEC = 3"
definition VOTE_DUST_THRESHOLD :: int where "VOTE_DUST_THRESHOLD = 10000"
definition MIN_ROOT_COMMENT_INTERVAL :: int where "MIN_ROOT_COMMENT_INTERVAL = 5*60"
definition MIN_REPLY_INTERVAL :: int where "MIN_REPLY_INTERVAL = 20"
definition MAX_ACCOUNT_WITNESS_VOTES :: nat where "MAX_ACCOUNT_WITNESS_VOTES = 30"

definition PERCENT_100 :: int where "PERCENT_100 = 10000"
definition PERCENT_1 :: int where "PERCENT_1 = PERCENT_100 div 100"
definition INFLATION_RATE_START_PERCENT :: int where "INFLATION_RATE_START_PERCENT = 978"
definition INFLATION_RATE_STOP_PERCENT :: int where "INFLATION_RATE_STOP_PERCENT = 95"
definition INFLATION_NARROWING_PERIOD :: nat where "INFLATION_NARROWING_PERIOD = 250000"
definition CONTENT_REWARD_PERCENT :: int where "CONTENT_REWARD_PERCENT = 75 * PERCENT_1"
definition VESTING_FUND_PERCENT :: int where "VESTING_FUND_PERCENT = 5 * PERCENT_1"
definition CONTENT_REWARD_PERCENT_NEW :: int where "CONTENT_REWARD_PERCENT_NEW = 90 * PERCENT_1"
definition MAX_COMMENT_DEPTH :: nat where "MAX_COMMENT_DEPTH = 65535"
definition CREATE_ACCOUNT_WITH_BMT_MODIFIER :: int where "CREATE_ACCOUNT_WITH_BMT_MODIFIER = 1"
definition CREATE_ACCOUNT_DELEGATION_RATIO :: int where "CREATE_ACCOUNT_DELEGATION_RATIO = 5"
definition CREATE_ACCOUNT_DELEGATION_TIME :: nat where
  "CREATE_ACCOUNT_DELEGATION_TIME = 60*60*24*30"
definition MINING_REWARD :: int where "MINING_REWARD = 1000"
definition POST_REWARD_FUND_NAME :: string where "POST_REWARD_FUND_NAME = ''post''"
definition RECENT_RSHARES_DECAY_RATE :: int where "RECENT_RSHARES_DECAY_RATE = 60*60*24*15"
definition VIRTUAL_SCHEDULE_LAP_LENGTH2 :: "128 word" where "VIRTUAL_SCHEDULE_LAP_LENGTH2 = -1"
definition CONTENT_CONSTANT :: "128 word" where "CONTENT_CONSTANT = 2000000000000"
definition LIQUIDITY_REWARD_PERIOD_SEC :: nat where "LIQUIDITY_REWARD_PERIOD_SEC = 60*60"
definition LIQUIDITY_REWARD_BLOCKS :: nat where "LIQUIDITY_REWARD_BLOCKS = LIQUIDITY_REWARD_PERIOD_SEC div BLOCK_INTERVAL"
definition MIN_LIQUIDITY_REWARD :: int where "MIN_LIQUIDITY_REWARD = 1000 * int LIQUIDITY_REWARD_BLOCKS"
definition APR_PERCENT_MULTIPLY_PER_BLOCK :: nat where "APR_PERCENT_MULTIPLY_PER_BLOCK = 0x5ccce802de5f"
definition APR_PERCENT_SHIFT_PER_BLOCK :: nat where "APR_PERCENT_SHIFT_PER_BLOCK = 87"
definition APR_PERCENT_MULTIPLY_PER_ROUND :: nat where "APR_PERCENT_MULTIPLY_PER_ROUND = 0x79ccf5c73480"
definition APR_PERCENT_SHIFT_PER_ROUND :: nat where "APR_PERCENT_SHIFT_PER_ROUND = 83"
definition APR_PERCENT_MULTIPLY_PER_HOUR :: nat where "APR_PERCENT_MULTIPLY_PER_HOUR = 0x6cc139a15cbd"
definition APR_PERCENT_SHIFT_PER_HOUR :: nat where "APR_PERCENT_SHIFT_PER_HOUR = 77"
definition CURATE_APR_PERCENT :: nat where "CURATE_APR_PERCENT = 3875"
definition CONTENT_APR_PERCENT :: nat where "CONTENT_APR_PERCENT = 3875"
definition LIQUIDITY_APR_PERCENT :: nat where "LIQUIDITY_APR_PERCENT = 750"
definition PRODUCER_APR_PERCENT :: nat where "PRODUCER_APR_PERCENT = 750"
definition POW_APR_PERCENT :: nat where "POW_APR_PERCENT = 750"
definition MIN_PAYOUT :: int where "MIN_PAYOUT = 20"

definition MIN_ACCOUNT_NAME_LENGTH :: nat where "MIN_ACCOUNT_NAME_LENGTH = 3"
definition MAX_ACCOUNT_NAME_LENGTH :: nat where "MAX_ACCOUNT_NAME_LENGTH = 16"
definition MIN_PERMLINK_LENGTH :: nat where "MIN_PERMLINK_LENGTH = 0"
definition MAX_PERMLINK_LENGTH :: nat where "MAX_PERMLINK_LENGTH = 256"
definition MAX_WITNESS_URL_LENGTH :: nat where "MAX_WITNESS_URL_LENGTH = 2048"
definition INIT_SUPPLY :: int where "INIT_SUPPLY = 92000000000"
definition INIT_SUPPLY_REP :: int where "INIT_SUPPLY_REP = 10000000000000"
definition MAX_SHARE_SUPPLY :: int where "MAX_SHARE_SUPPLY = 1000000000000000"
definition MAX_SIG_CHECK_DEPTH :: nat where "MAX_SIG_CHECK_DEPTH = 2"
definition MAX_TRANSACTION_SIZE :: nat where "MAX_TRANSACTION_SIZE = 1024*64"
definition MIN_BLOCK_SIZE_LIMIT :: nat where "MIN_BLOCK_SIZE_LIMIT = MAX_TRANSACTION_SIZE"
definition MAX_BLOCK_SIZE :: nat where "MAX_BLOCK_SIZE = MAX_TRANSACTION_SIZE * BLOCK_INTERVAL * 2000"
definition MAX_UNDO_HISTORY :: nat where "MAX_UNDO_HISTORY = 10000"
definition IRREVERSIBLE_THRESHOLD :: int where "IRREVERSIBLE_THRESHOLD = 75 * PERCENT_1"

definition MINER_ACCOUNT :: string where "MINER_ACCOUNT = ''miners''"
definition NULL_ACCOUNT :: string where "NULL_ACCOUNT = ''null''"
definition TEMP_ACCOUNT :: string where "TEMP_ACCOUNT = ''temp''"
definition PROXY_TO_SELF_ACCOUNT :: string where "PROXY_TO_SELF_ACCOUNT = []"
definition ROOT_POST_PARENT :: string where "ROOT_POST_PARENT = []"

definition USING_CLOSE_CONTENT :: nat where "USING_CLOSE_CONTENT = 1"
definition FIRST_PAYOUT_BLOCK :: nat where "FIRST_PAYOUT_BLOCK = 20*60*24*7"
definition VOTE_EMISSION_RATE :: int where "VOTE_EMISSION_RATE = 500"
definition COMMENT_EMISSION_RATE :: int where "COMMENT_EMISSION_RATE = 2000"
definition POST_EMISSION_RATE :: int where "POST_EMISSION_RATE = 5000"
definition USER_EMISSION_RATE :: int where "USER_EMISSION_RATE = 10000"
definition BURN_INIT_REP_BLOCK :: nat where "BURN_INIT_REP_BLOCK = 10512000"
definition DAILY_INFLATION_RATE_RESTRICTION :: int where "DAILY_INFLATION_RATE_RESTRICTION = 20"
definition SAVINGS_EMISSION_RATE :: int where "SAVINGS_EMISSION_RATE = 20"
definition SAVINGS_WITHDRAW_INTERVALS :: int where "SAVINGS_WITHDRAW_INTERVALS = 30"
definition SAVINGS_WITHDRAW_INTERVAL_SECONDS :: nat where
  "SAVINGS_WITHDRAW_INTERVAL_SECONDS = 60*60*24*7"
definition REVERSE_AUCTION_TIME :: nat where "REVERSE_AUCTION_TIME = 1467295200 - 60*60*24*6"
definition CUSTOM_TOKEN_CREATION_FEE :: int where "CUSTOM_TOKEN_CREATION_FEE = 100000"
definition MIN_CURATION_PERCENT :: int where "MIN_CURATION_PERCENT = 25 * PERCENT_1"
definition MAX_CURATION_PERCENT :: int where "MAX_CURATION_PERCENT = PERCENT_100"

lemma symbol_values:
  "VESTS_SYMBOL = 91621639411206" "BMT_SYMBOL = 1414349315" "SBD_SYMBOL = 1145197315"
  by (simp_all add: VESTS_SYMBOL_def BMT_SYMBOL_def SBD_SYMBOL_def sym_def)

lemma symbols_distinct [simp]:
  "BMT_SYMBOL \<noteq> VESTS_SYMBOL" "VESTS_SYMBOL \<noteq> BMT_SYMBOL"
  "BMT_SYMBOL \<noteq> SBD_SYMBOL" "SBD_SYMBOL \<noteq> BMT_SYMBOL"
  "VESTS_SYMBOL \<noteq> SBD_SYMBOL" "SBD_SYMBOL \<noteq> VESTS_SYMBOL"
  by (simp_all add: symbol_values)

end
