(* ===== verification/Fc_Lib.thy ===== *)
theory Fc_Lib
  imports Config "HOL-Library.Signed_Division"
begin

text \<open>
  The library \<open>fc\<close> (git submodule \<open>libraries/fc\<close>, not part of the repository's own
  files) and the other third-party code the chain calls are the fields of one record,
  which every definition that uses them takes as its argument \<open>fc\<close>:
  \<^item> \<open>share_type\<close> is \<open>fc::safe<int64_t>\<close> (\<open>types.hpp\<close>): its operators are \<open>safe_add\<close> and so
    on, which return the result or throw; \<open>safe_of_u64\<close> is its construction from an
    unsigned 64-bit value;
  \<^item> \<open>fc::uint128_t\<close> is an unsigned 128-bit integer, so its values are words of that
    width; its construction from a signed value and its \<open>to_uint64\<close> are fields;
  \<^item> the string functions \<open>fc::is_utf8\<close>, \<open>fc::json\<close>, \<open>fc::from_hex\<close>, the edit-script
    library \<open>diff_match_patch\<close>, and the power function of the mathematical library.
  The locale \<open>fc_exact\<close> states what the chain relies on for its money: an operator of
  \<open>safe\<close> that returns, returns the exact integer. It says nothing of when they throw.
\<close>

record fc_lib =
  safe_add :: "int \<Rightarrow> int \<Rightarrow> exn + int"
  safe_sub :: "int \<Rightarrow> int \<Rightarrow> exn + int"
  safe_mul :: "int \<Rightarrow> int \<Rightarrow> exn + int"
  safe_div :: "int \<Rightarrow> int \<Rightarrow> exn + int"
  safe_mod :: "int \<Rightarrow> int \<Rightarrow> exn + int"
  safe_neg :: "int \<Rightarrow> exn + int"
  safe_of_u64 :: "nat \<Rightarrow> int"
  u128_of_int :: "int \<Rightarrow> 128 word"
  u128_to_u64 :: "128 word \<Rightarrow> exn + nat"
  is_utf8 :: "string \<Rightarrow> bool"
  prune_invalid_utf8 :: "string \<Rightarrow> string"
  json_is_valid :: "string \<Rightarrow> bool"
  json_entries :: "string \<Rightarrow> exn + (string \<times> (exn + string)) list option"
  from_hex :: "string \<Rightarrow> nat \<Rightarrow> exn + string"
  patch_from_text :: "string \<Rightarrow> exn + string list"
  patch_apply :: "string list \<Rightarrow> string \<Rightarrow> exn + string"
  pow17 :: "nat \<Rightarrow> nat"

locale fc_exact =
  fixes fc :: fc_lib
  assumes safe_addD: "safe_add fc a b = Inr c \<Longrightarrow> c = a + b"
    and safe_subD: "safe_sub fc a b = Inr c \<Longrightarrow> c = a - b"
    and safe_mulD: "safe_mul fc a b = Inr c \<Longrightarrow> c = a * b"
    and safe_divD: "safe_div fc a b = Inr c \<Longrightarrow> b \<noteq> 0 \<and> c = a sdiv b"
    and safe_modD: "safe_mod fc a b = Inr c \<Longrightarrow> b \<noteq> 0 \<and> c = a smod b"
    and safe_negD: "safe_neg fc a = Inr c \<Longrightarrow> c = - a"
    and safe_of_u64_small: "n < 2 ^ 63 \<Longrightarrow> safe_of_u64 fc n = int n"
    and u128_of_int_small: "0 \<le> a \<Longrightarrow> a < 2 ^ 63 \<Longrightarrow> u128_of_int fc a = word_of_int a"
    and u128_to_u64D: "u128_to_u64 fc x = Inr n \<Longrightarrow> n = unat x"
begin

lemmas safe_dests = safe_addD safe_subD safe_mulD safe_negD

end

text \<open>
  An instance: 64-bit checked arithmetic, two's complement conversions and the identity
  for the string functions. It is the environment of the examples, and shows that the
  laws can hold together.
\<close>

definition in_int64 :: "int \<Rightarrow> bool" where
  "in_int64 x \<longleftrightarrow> - (2 ^ 63) \<le> x \<and> x < 2 ^ 63"

definition ck64 :: "int \<Rightarrow> exn + int" where
  "ck64 x = (if in_int64 x then Inr x else Inl Overflow_error)"

definition fc64 :: fc_lib where
  "fc64 = \<lparr> safe_add = \<lambda>a b. ck64 (a + b), safe_sub = \<lambda>a b. ck64 (a - b),
     safe_mul = \<lambda>a b. ck64 (a * b),
     safe_div = \<lambda>a b. if b = 0 then Inl Overflow_error else ck64 (a sdiv b),
     safe_mod = \<lambda>a b. if b = 0 then Inl Overflow_error else ck64 (a smod b),
     safe_neg = \<lambda>a. ck64 (- a),
     safe_of_u64 = \<lambda>n. (if n < 2 ^ 63 then int n else int n - 2 ^ 64),
     u128_of_int = word_of_int,
     u128_to_u64 = \<lambda>x. (if unat x < 2 ^ 64 then Inr (unat x) else Inl (Assert_failed ''hi == 0'')),
     is_utf8 = \<lambda>_. True, prune_invalid_utf8 = id, json_is_valid = \<lambda>_. True,
     json_entries = \<lambda>_. Inr None, from_hex = \<lambda>s n. Inr (take n s),
     patch_from_text = \<lambda>_. Inr [], patch_apply = \<lambda>_ s. Inr s,
     pow17 = id \<rparr>"

lemma ck64_eq_Inr [res_simps]: "ck64 x = Inr y \<longleftrightarrow> in_int64 x \<and> y = x"
  by (auto simp: ck64_def)

lemma fc64_simps [simp]:
  "safe_add fc64 a b = ck64 (a + b)" "safe_sub fc64 a b = ck64 (a - b)"
  "safe_mul fc64 a b = ck64 (a * b)" "safe_neg fc64 a = ck64 (- a)"
  "safe_div fc64 a b = (if b = 0 then Inl Overflow_error else ck64 (a sdiv b))"
  "safe_mod fc64 a b = (if b = 0 then Inl Overflow_error else ck64 (a smod b))"
  "safe_of_u64 fc64 n = (if n < 2 ^ 63 then int n else int n - 2 ^ 64)"
  "u128_of_int fc64 a = word_of_int a"
  "u128_to_u64 fc64 x = (if unat x < 2 ^ 64 then Inr (unat x) else Inl (Assert_failed ''hi == 0''))"
  "is_utf8 fc64 s = True" "prune_invalid_utf8 fc64 s = s" "json_is_valid fc64 s = True"
  "json_entries fc64 s = Inr None" "from_hex fc64 s n = Inr (take n s)"
  "patch_from_text fc64 s = Inr []" "patch_apply fc64 ps s = Inr s" "pow17 fc64 n = n"
  by (simp_all add: fc64_def mult.commute)

interpretation fc64: fc_exact fc64
  by unfold_locales (auto simp: ck64_eq_Inr split: if_splits)

end
