(* ===== verification/Asset.thy ===== *)
theory Asset
  imports Fc_Lib
begin

text \<open>
  \<open>libraries/protocol/include/bmchain/protocol/asset.hpp\<close> and \<open>libraries/protocol/asset.cpp\<close>:
  amounts tagged with a symbol, prices, their arithmetic and comparisons. Every operator
  that compares symbols throws on a mismatch; \<open>share_type\<close> arithmetic throws as \<open>fc::safe\<close>
  does. The lemmas show which additions and comparisons can succeed, and that the product
  in a conversion by a price does not wrap and is rounded down.
\<close>

record asset =
  amount :: int
  symbol :: asset_symbol_type

abbreviation asset_of :: "int \<Rightarrow> asset_symbol_type \<Rightarrow> asset" where
  "asset_of a s \<equiv> \<lparr> amount = a, symbol = s \<rparr>"

abbreviation bmt :: "int \<Rightarrow> asset" where "bmt a \<equiv> asset_of a BMT_SYMBOL"
abbreviation vests :: "int \<Rightarrow> asset" where "vests a \<equiv> asset_of a VESTS_SYMBOL"

record price =
  base :: asset
  quote :: asset

subsection \<open>Symbols\<close>

definition sym_byte :: "asset_symbol_type \<Rightarrow> nat \<Rightarrow> nat" where
  "sym_byte s k = (s div 256 ^ k) mod 256"

definition decimals :: "asset_symbol_type \<Rightarrow> exn + nat" where
  "decimals s = bindR (assertR (sym_byte s 0 < 15) ''result < 15'') (\<lambda>_. Inr (sym_byte s 0))"

definition set_decimals :: "nat \<Rightarrow> asset_symbol_type \<Rightarrow> exn + asset_symbol_type" where
  "set_decimals d s = bindR (assertR (d < 15) ''d < 15'') (\<lambda>_. Inr (s - sym_byte s 0 + d))"

text \<open>The C string that starts at byte 1.\<close>

definition symbol_name :: "asset_symbol_type \<Rightarrow> exn + nat list" where
  "symbol_name s = bindR (assertR (sym_byte s 7 = 0) ''a[7] == 0'')
     (\<lambda>_. Inr (takeWhile (\<lambda>c. c \<noteq> 0) (map (sym_byte s) [1, 2, 3, 4, 5, 6, 7])))"

definition precision :: "asset_symbol_type \<Rightarrow> exn + int" where
  "precision s = bindR (decimals s) (\<lambda>d. Inr (10 ^ d))"

subsection \<open>Asset arithmetic and comparison\<close>

definition asset_plus :: "fc_lib \<Rightarrow> asset \<Rightarrow> asset \<Rightarrow> exn + asset" where
  "asset_plus fc a b =
     bindR (assertR (symbol a = symbol b) ''symbol == o.symbol'') (\<lambda>_.
     bindR (safe_add fc (amount a) (amount b)) (\<lambda>r. Inr (asset_of r (symbol a))))"

definition asset_minus :: "fc_lib \<Rightarrow> asset \<Rightarrow> asset \<Rightarrow> exn + asset" where
  "asset_minus fc a b =
     bindR (assertR (symbol a = symbol b) ''symbol == o.symbol'') (\<lambda>_.
     bindR (safe_sub fc (amount a) (amount b)) (\<lambda>r. Inr (asset_of r (symbol a))))"

definition asset_neg :: "fc_lib \<Rightarrow> asset \<Rightarrow> exn + asset" where
  "asset_neg fc a = bindR (safe_neg fc (amount a)) (\<lambda>r. Inr (asset_of r (symbol a)))"

definition asset_lt :: "asset \<Rightarrow> asset \<Rightarrow> exn + bool" where
  "asset_lt a b = bindR (assertR (symbol a = symbol b) ''a.symbol == b.symbol'')
     (\<lambda>_. Inr (amount a < amount b \<or> amount a = amount b \<and> symbol a < symbol b))"

definition asset_le :: "asset \<Rightarrow> asset \<Rightarrow> exn + bool" where
  "asset_le a b = (if a = b then Inr True else asset_lt a b)"

definition asset_gt :: "asset \<Rightarrow> asset \<Rightarrow> exn + bool" where
  "asset_gt a b = bindR (asset_le a b) (\<lambda>r. Inr (\<not> r))"

definition asset_ge :: "asset \<Rightarrow> asset \<Rightarrow> exn + bool" where
  "asset_ge a b = bindR (asset_lt a b) (\<lambda>r. Inr (\<not> r))"

subsection \<open>Prices\<close>

text \<open>\<open>(uint128_t(a) * q) / b\<close>, which must fit in 64 bits.\<close>

definition mul_div_u64 :: "fc_lib \<Rightarrow> int \<Rightarrow> int \<Rightarrow> int \<Rightarrow> exn + nat" where
  "mul_div_u64 fc a q b =
     (let result = (u128_of_int fc a * u128_of_int fc q) div u128_of_int fc b in
      bindR (assertR (drop_bit 64 result = 0) ''result.hi == 0'') (\<lambda>_. u128_to_u64 fc result))"

definition asset_times_price :: "fc_lib \<Rightarrow> asset \<Rightarrow> price \<Rightarrow> exn + asset" where
  "asset_times_price fc a p =
     bindR (symbol_name (symbol a)) (\<lambda>na.
     bindR (symbol_name (symbol (base p))) (\<lambda>nb.
     if na = nb then
       bindR (assertR (amount (base p) > 0) ''b.base.amount.value > 0'') (\<lambda>_.
       bindR (mul_div_u64 fc (amount a) (amount (quote p)) (amount (base p))) (\<lambda>r.
       Inr (asset_of (safe_of_u64 fc r) (symbol (quote p)))))
     else
       bindR (symbol_name (symbol (quote p))) (\<lambda>nq.
       if na = nq then
         bindR (assertR (amount (quote p) > 0) ''b.quote.amount.value > 0'') (\<lambda>_.
         bindR (mul_div_u64 fc (amount a) (amount (base p)) (amount (quote p))) (\<lambda>r.
         Inr (asset_of (safe_of_u64 fc r) (symbol (base p)))))
       else Inl (Assert_failed ''invalid asset * price''))))"

definition mk_price :: "asset \<Rightarrow> asset \<Rightarrow> exn + price" where
  "mk_price b q =
     bindR (symbol_name (symbol b)) (\<lambda>nb. bindR (symbol_name (symbol q)) (\<lambda>nq.
     bindR (assertR (nb \<noteq> nq) ''base.symbol_name() != quote.symbol_name()'') (\<lambda>_.
     Inr \<lparr> base = b, quote = q \<rparr>)))"

definition price_max :: "asset_symbol_type \<Rightarrow> asset_symbol_type \<Rightarrow> exn + price" where
  "price_max b q = mk_price (asset_of MAX_SHARE_SUPPLY b) (asset_of 1 q)"

definition price_min :: "asset_symbol_type \<Rightarrow> asset_symbol_type \<Rightarrow> exn + price" where
  "price_min b q = mk_price (asset_of 1 b) (asset_of MAX_SHARE_SUPPLY q)"

definition price_inv :: "price \<Rightarrow> price" where
  "price_inv p = \<lparr> base = quote p, quote = base p \<rparr>"

definition price_eq :: "fc_lib \<Rightarrow> price \<Rightarrow> price \<Rightarrow> bool" where
  "price_eq fc a b \<longleftrightarrow>
     symbol (base a) = symbol (base b) \<and> symbol (quote a) = symbol (quote b) \<and>
     u128_of_int fc (amount (quote b)) * u128_of_int fc (amount (base a)) =
     u128_of_int fc (amount (quote a)) * u128_of_int fc (amount (base b))"

definition price_lt :: "fc_lib \<Rightarrow> price \<Rightarrow> price \<Rightarrow> bool" where
  "price_lt fc a b =
     (if symbol (base a) < symbol (base b) then True
      else if symbol (base a) > symbol (base b) then False
      else if symbol (quote a) < symbol (quote b) then True
      else if symbol (quote a) > symbol (quote b) then False
      else u128_of_int fc (amount (quote b)) * u128_of_int fc (amount (base a)) <
           u128_of_int fc (amount (quote a)) * u128_of_int fc (amount (base b)))"

definition price_le :: "fc_lib \<Rightarrow> price \<Rightarrow> price \<Rightarrow> bool" where
  "price_le fc a b \<longleftrightarrow> price_eq fc a b \<or> price_lt fc a b"

definition price_gt :: "fc_lib \<Rightarrow> price \<Rightarrow> price \<Rightarrow> bool" where
  "price_gt fc a b \<longleftrightarrow> \<not> price_le fc a b"

definition price_validate :: "price \<Rightarrow> exn + unit" where
  "price_validate p =
     bindR (assertR (amount (base p) > 0) ''base.amount > share_type(0)'') (\<lambda>_.
     bindR (assertR (amount (quote p) > 0) ''quote.amount > share_type(0)'') (\<lambda>_.
     bindR (symbol_name (symbol (base p))) (\<lambda>nb. bindR (symbol_name (symbol (quote p))) (\<lambda>nq.
     assertR (nb \<noteq> nq) ''base.symbol_name() != quote.symbol_name()''))))"

subsection \<open>Facts on comparisons\<close>

lemma asset_lt_eq_Inr [res_simps]:
  "asset_lt a b = Inr r \<longleftrightarrow> symbol a = symbol b \<and> r = (amount a < amount b)"
  by (auto simp: asset_lt_def res_simps)

lemma asset_ge_eq_Inr [res_simps]:
  "asset_ge a b = Inr r \<longleftrightarrow> symbol a = symbol b \<and> r = (amount b \<le> amount a)"
  by (auto simp: asset_ge_def res_simps)

lemma asset_le_eq_Inr [res_simps]:
  "asset_le a b = Inr r \<longleftrightarrow> symbol a = symbol b \<and> r = (amount a \<le> amount b)"
  by (cases a; cases b) (auto simp: asset_le_def res_simps)

lemma asset_gt_eq_Inr [res_simps]:
  "asset_gt a b = Inr r \<longleftrightarrow> symbol a = symbol b \<and> r = (amount b < amount a)"
  by (auto simp: asset_gt_def res_simps)

lemma symbol_name_known [simp]:
  "symbol_name BMT_SYMBOL = Inr [66, 77, 84]"
  "symbol_name VESTS_SYMBOL = Inr [86, 69, 83, 84, 83]"
  by (simp_all add: symbol_name_def sym_byte_def symbol_values)

lemma mul_div_u64_cong: "mul_div_u64 fc a q b = Inr r \<Longrightarrow>
   u128_to_u64 fc ((u128_of_int fc a * u128_of_int fc q) div u128_of_int fc b) = Inr r"
  by (auto simp: mul_div_u64_def Let_def res_simps)

context fc_exact
begin

lemma asset_plusD:
  "asset_plus fc a b = Inr c \<Longrightarrow> symbol a = symbol b \<and> symbol c = symbol a \<and> amount c = amount a + amount b"
  by (auto simp: asset_plus_def res_simps dest!: safe_dests)

lemma asset_minusD:
  "asset_minus fc a b = Inr c \<Longrightarrow> symbol a = symbol b \<and> symbol c = symbol a \<and> amount c = amount a - amount b"
  by (auto simp: asset_minus_def res_simps dest!: safe_dests)

lemma asset_negD: "asset_neg fc a = Inr c \<Longrightarrow> symbol c = symbol a \<and> amount c = - amount a"
  by (auto simp: asset_neg_def res_simps dest!: safe_dests)

lemmas asset_dests = asset_plusD asset_minusD asset_negD

text \<open>The product of two non-negative 64-bit values does not wrap in 128 bits.\<close>

lemma u128_mult_exact:
  assumes "0 \<le> a" "a < 2 ^ 63" "0 \<le> b" "b < 2 ^ 63"
  shows "uint (u128_of_int fc a * u128_of_int fc b) = a * b"
proof -
  have "a * b < 2 ^ 63 * 2 ^ 63"
    using assms by (intro mult_strict_mono') auto
  then have "a * b < 2 ^ 128" by simp
  moreover have "0 \<le> a * b" using assms by simp
  ultimately have "uint (word_of_int (a * b) :: 128 word) = a * b"
    using uint_word_of_int [of "a * b", where 'a = 128] by (simp del: of_int_mult)
  then show ?thesis
    using assms by (simp add: u128_of_int_small)
qed

lemma mul_div_u64_exact:
  assumes "mul_div_u64 fc a q b = Inr r"
    and "0 \<le> a" "a < 2 ^ 63" "0 \<le> q" "q < 2 ^ 63" "0 < b" "b < 2 ^ 63"
  shows "int r = a * q div b"
proof -
  have "r = unat ((u128_of_int fc a * u128_of_int fc q) div u128_of_int fc b)"
    using mul_div_u64_cong [OF assms(1)] by (rule u128_to_u64D)
  then have "int r = uint (u128_of_int fc a * u128_of_int fc q) div uint (u128_of_int fc b)"
    by (simp add: uint_div)
  also have "uint (u128_of_int fc b) = b"
    using assms by (simp add: u128_of_int_small uint_word_of_int)
  finally show ?thesis
    using assms by (simp add: u128_mult_exact)
qed

end

end
