(* ===== verification/Authority.thy ===== *)
theory Authority
  imports Config "HOL-Library.Char_ord" "HOL-Library.List_Lexorder" "HOL-Library.Sublist"
begin

text \<open>
  \<open>libraries/protocol/authority.cpp\<close> and \<open>libraries/protocol/sign_state.cpp\<close>: weighted
  authorities, the grammar of account names and the check that a set of signatures
  satisfies an authority. A \<open>flat_map\<close> is an association list in the order of its keys; the
  order of \<open>fixed_string\<close> is that of its bytes, the lexicographic order of strings. Keys are
  the strings of their bytes. \<open>get_active\<close> is the callback of the caller, which may throw.

  The lemmas show that \<open>is_valid_account_name\<close> accepts exactly the dot-separated names of
  the grammar in its header comment, and that a successful check of an authority rests on
  enough weight of provided keys and authorised accounts, however deep.
\<close>

type_synonym account_name = string
type_synonym public_key_type = string

record authority =
  weight_threshold :: nat
  account_auths :: "(account_name \<times> nat) list"
  key_auths :: "(public_key_type \<times> nat) list"

text \<open>\<open>m[k] = w\<close> on a \<open>flat_map\<close>, and \<open>insert\<close> on a \<open>flat_set\<close>.\<close>

fun flat_put :: "'k::linorder \<Rightarrow> 'v \<Rightarrow> ('k \<times> 'v) list \<Rightarrow> ('k \<times> 'v) list" where
  "flat_put k v [] = [(k, v)]"
| "flat_put k v ((j, w) # m) =
     (if k < j then (k, v) # (j, w) # m else if k = j then (k, v) # m else (j, w) # flat_put k v m)"

definition flat_insert :: "'k::linorder \<Rightarrow> 'k list \<Rightarrow> 'k list" where
  "flat_insert k s = insort_insert k s"

definition empty_authority :: authority where
  "empty_authority = \<lparr> weight_threshold = 0, account_auths = [], key_auths = [] \<rparr>"

definition add_key_authority :: "public_key_type \<Rightarrow> nat \<Rightarrow> authority \<Rightarrow> authority" where
  "add_key_authority k w a = a\<lparr>key_auths := flat_put k w (key_auths a)\<rparr>"

definition add_account_authority :: "account_name \<Rightarrow> nat \<Rightarrow> authority \<Rightarrow> authority" where
  "add_account_authority k w a = a\<lparr>account_auths := flat_put k w (account_auths a)\<rparr>"

definition get_keys :: "authority \<Rightarrow> public_key_type list" where
  "get_keys a = map fst (key_auths a)"

definition auth_weights :: "authority \<Rightarrow> nat" where
  "auth_weights a =
     fold (\<lambda>item w. (w + snd item) mod 2 ^ 64) (key_auths a)
       (fold (\<lambda>item w. (w + snd item) mod 2 ^ 64) (account_auths a) 0)"

definition is_impossible :: "authority \<Rightarrow> bool" where
  "is_impossible a \<longleftrightarrow> auth_weights a < weight_threshold a"

definition num_auths :: "authority \<Rightarrow> nat" where
  "num_auths a = (length (account_auths a) + length (key_auths a)) mod 2 ^ 32"

definition clear_authority :: "authority \<Rightarrow> authority" where
  "clear_authority a = a\<lparr>account_auths := [], key_auths := []\<rparr>"

subsection \<open>Account names\<close>

definition is_lower :: "char \<Rightarrow> bool" where
  "is_lower c \<longleftrightarrow> CHR ''a'' \<le> c \<and> c \<le> CHR ''z''"

definition is_digit :: "char \<Rightarrow> bool" where
  "is_digit c \<longleftrightarrow> CHR ''0'' \<le> c \<and> c \<le> CHR ''9''"

definition find_first_of :: "char \<Rightarrow> nat \<Rightarrow> string \<Rightarrow> nat option" where
  "find_first_of c begin s =
     (let k = begin + length (takeWhile (\<lambda>d. d \<noteq> c) (drop begin s))
      in if k < length s then Some k else None)"

text \<open>One pass of the \<open>while\<close> loop per label; \<open>begin\<close> is where the label starts.\<close>

function name_labels_ok :: "string \<Rightarrow> nat \<Rightarrow> bool" where
  "name_labels_ok name begin =
     (let len = length name;
          end = (case find_first_of CHR ''.'' begin name of None \<Rightarrow> len | Some e \<Rightarrow> e)
      in if end < begin + 3 then False
         else if \<not> is_lower (name ! begin) then False
         else if \<not> (is_lower (name ! (end - 1)) \<or> is_digit (name ! (end - 1))) then False
         else if \<not> list_all (\<lambda>i. is_lower (name ! i) \<or> is_digit (name ! i) \<or> name ! i = CHR ''-'')
                    [begin + 1 ..< end - 1] then False
         else if end = len then True
         else name_labels_ok name (end + 1))"
  by pat_completeness auto
termination
  by (relation "measure (\<lambda>(name, begin). length name - begin)")
    (auto simp: find_first_of_def Let_def split: option.splits if_splits)

declare name_labels_ok.simps [simp del]

definition is_valid_account_name :: "string \<Rightarrow> bool" where
  "is_valid_account_name name =
     (if length name < MIN_ACCOUNT_NAME_LENGTH then False
      else if length name > MAX_ACCOUNT_NAME_LENGTH then False
      else name_labels_ok name 0)"

definition authority_validate :: "authority \<Rightarrow> exn + unit" where
  "authority_validate a =
     checkR (\<lambda>item. assertR (is_valid_account_name (fst item)) ''is_valid_account_name( item.first )'')
       (account_auths a)"

text \<open>The grammar: labels separated by dots.\<close>

definition valid_label :: "string \<Rightarrow> bool" where
  "valid_label l \<longleftrightarrow> 3 \<le> length l \<and> is_lower (hd l) \<and> (is_lower (last l) \<or> is_digit (last l)) \<and>
     list_all (\<lambda>c. is_lower c \<or> is_digit c \<or> c = CHR ''-'') l"

fun split_dots :: "string \<Rightarrow> string list" where
  "split_dots [] = [[]]"
| "split_dots (c # cs) =
     (if c = CHR ''.'' then [] # split_dots cs
      else case split_dots cs of l # ls \<Rightarrow> (c # l) # ls | [] \<Rightarrow> [[c]])"

subsection \<open>Signatures\<close>

record sign_state =
  available_keys :: "public_key_type list"
  provided_signatures :: "(public_key_type \<times> bool) list"
  approved_by :: "account_name list"

type_synonym authority_getter = "account_name \<Rightarrow> exn + authority"

definition mk_sign_state :: "public_key_type list \<Rightarrow> public_key_type list \<Rightarrow> sign_state" where
  "mk_sign_state sigs keys =
     \<lparr> available_keys = keys, provided_signatures = fold (\<lambda>k m. flat_put k False m) sigs [],
       approved_by = [''temp''] \<rparr>"

definition signed_by :: "public_key_type \<Rightarrow> sign_state \<Rightarrow> bool \<times> sign_state" where
  "signed_by k s =
     (case map_of (provided_signatures s) k of
        None \<Rightarrow>
          if k \<in> set (available_keys s)
          then (True, s\<lparr>provided_signatures := flat_put k True (provided_signatures s)\<rparr>)
          else (False, s)
      | Some _ \<Rightarrow> (True, s\<lparr>provided_signatures := flat_put k True (provided_signatures s)\<rparr>))"

text \<open>The loop over \<open>key_auths\<close>: \<open>Inl\<close> when it returns true, else the weight so far.\<close>

fun check_keys ::
  "nat \<Rightarrow> (public_key_type \<times> nat) list \<Rightarrow> nat \<Rightarrow> sign_state \<Rightarrow> (bool \<times> nat) \<times> sign_state" where
  "check_keys thr [] w s = ((False, w), s)"
| "check_keys thr ((k, kw) # ks) w s =
     (let (ok, s1) = signed_by k s in
      if ok then
        let w1 = (w + kw) mod 2 ^ 32 in
        if w1 \<ge> thr then ((True, w1), s1) else check_keys thr ks w1 s1
      else check_keys thr ks w s1)"

text \<open>
  The loop over \<open>account_auths\<close>. \<open>rec\<close> is the recursive call, \<open>None\<close> when
  \<open>depth == max_recursion\<close>.
\<close>

fun check_accounts ::
  "authority_getter \<Rightarrow> (authority \<Rightarrow> sign_state \<Rightarrow> exn + bool \<times> sign_state) option \<Rightarrow>
   nat \<Rightarrow> (account_name \<times> nat) list \<Rightarrow> nat \<Rightarrow> sign_state \<Rightarrow> exn + bool \<times> sign_state" where
  "check_accounts get rec thr [] w s = Inr (w \<ge> thr, s)"
| "check_accounts get rec thr ((a, aw) # as) w s =
     (if a \<notin> set (approved_by s) then
        case rec of
          None \<Rightarrow> check_accounts get rec thr as w s
        | Some chk \<Rightarrow>
            bindR (get a) (\<lambda>auth. bindR (chk auth s) (\<lambda>(ok, s1).
            if ok then
              let s2 = s1\<lparr>approved_by := flat_insert a (approved_by s1)\<rparr>; w1 = (w + aw) mod 2 ^ 32 in
              if w1 \<ge> thr then Inr (True, s2) else check_accounts get rec thr as w1 s2
            else check_accounts get rec thr as w s1))
      else
        let w1 = (w + aw) mod 2 ^ 32 in
        if w1 \<ge> thr then Inr (True, s) else check_accounts get rec thr as w1 s)"

definition check_authority_body ::
  "authority_getter \<Rightarrow> (authority \<Rightarrow> sign_state \<Rightarrow> exn + bool \<times> sign_state) option \<Rightarrow>
   authority \<Rightarrow> sign_state \<Rightarrow> exn + bool \<times> sign_state" where
  "check_authority_body get rec auth s =
     (case check_keys (weight_threshold auth) (key_auths auth) 0 s of
        ((True, _), s1) \<Rightarrow> Inr (True, s1)
      | ((False, w), s1) \<Rightarrow> check_accounts get rec (weight_threshold auth) (account_auths auth) w s1)"

text \<open>The first argument is \<open>max_recursion - depth\<close>.\<close>

primrec check_authority ::
  "nat \<Rightarrow> authority_getter \<Rightarrow> authority \<Rightarrow> sign_state \<Rightarrow> exn + bool \<times> sign_state" where
  "check_authority 0 get = check_authority_body get None"
| "check_authority (Suc n) get = check_authority_body get (Some (check_authority n get))"

definition check_authority_id ::
  "nat \<Rightarrow> authority_getter \<Rightarrow> account_name \<Rightarrow> sign_state \<Rightarrow> exn + bool \<times> sign_state" where
  "check_authority_id n get a s =
     (if a \<in> set (approved_by s) then Inr (True, s)
      else bindR (get a) (\<lambda>auth. check_authority n get auth s))"

definition remove_unused_signatures :: "sign_state \<Rightarrow> bool \<times> sign_state" where
  "remove_unused_signatures s =
     (list_ex (\<lambda>sig. \<not> snd sig) (provided_signatures s),
      s\<lparr>provided_signatures := filter snd (provided_signatures s)\<rparr>)"

text \<open>The specification of a satisfied authority, with no bound on the depth.\<close>

inductive satisfied ::
  "public_key_type set \<Rightarrow> authority_getter \<Rightarrow> account_name set \<Rightarrow> authority \<Rightarrow> bool"
  for K get appr where
  satisfiedI: "subseq ks (key_auths auth) \<Longrightarrow> fst ` set ks \<subseteq> K \<Longrightarrow> subseq as (account_auths auth) \<Longrightarrow>
     (\<forall>a \<in> set as. fst a \<in> appr \<or> (\<exists>b. get (fst a) = Inr b \<and> satisfied K get appr b)) \<Longrightarrow>
     weight_threshold auth \<le> sum_list (map snd ks) + sum_list (map snd as) \<Longrightarrow>
     satisfied K get appr auth"

subsection \<open>Account names follow the grammar\<close>

lemma split_dots_nonempty [simp]: "split_dots s \<noteq> []"
  by (induction s) (auto split: list.splits)

lemma split_dots_no_dot: "CHR ''.'' \<notin> set s \<Longrightarrow> split_dots s = [s]"
  by (induction s) auto

lemma split_dots_append: "CHR ''.'' \<notin> set l \<Longrightarrow> split_dots (l @ CHR ''.'' # r) = l # split_dots r"
  by (induction l) auto

lemma not_special [simp]: "\<not> is_lower CHR ''.''" "\<not> is_digit CHR ''.''"
  by (simp_all add: is_lower_def is_digit_def)

lemma all_shift: "(\<forall>k < e - b. P (b + k)) \<longleftrightarrow> (\<forall>i \<in> {b..<e}. P i)" for e b :: nat
proof (intro iffI ballI allI impI)
  fix i assume "\<forall>k < e - b. P (b + k)" and "i \<in> {b..<e}"
  moreover from this have "i - b < e - b" by auto
  ultimately have "P (b + (i - b))" by blast
  then show "P i" using \<open>i \<in> {b..<e}\<close> by simp
qed auto

text \<open>The checks of one pass are those of \<open>valid_label\<close> on the characters up to the end.\<close>

lemma label_checks:
  assumes "b + 3 \<le> e" and "e \<le> length name"
  shows "is_lower (name ! b) \<and> (is_lower (name ! (e - 1)) \<or> is_digit (name ! (e - 1))) \<and>
     list_all (\<lambda>i. is_lower (name ! i) \<or> is_digit (name ! i) \<or> name ! i = CHR ''-'') [b + 1 ..< e - 1]
     \<longleftrightarrow> valid_label (take (e - b) (drop b name))"
proof -
  let ?l = "take (e - b) (drop b name)"
  let ?ok = "\<lambda>c. is_lower c \<or> is_digit c \<or> c = CHR ''-''"
  have len: "length ?l = e - b" using assms by simp
  have ne: "?l \<noteq> []" using assms by auto
  have nth: "?l ! k = name ! (b + k)" if "k < e - b" for k using assms that by simp
  have hd: "hd ?l = name ! b"
    using nth [of 0] assms hd_conv_nth [OF ne] by simp
  have last: "last ?l = name ! (e - 1)"
    using nth [of "e - b - 1"] assms last_conv_nth [OF ne] len by simp
  have all: "list_all ?ok ?l \<longleftrightarrow> (\<forall>i \<in> {b..<e}. ?ok (name ! i))"
  proof -
    have "list_all ?ok ?l \<longleftrightarrow> (\<forall>k < e - b. ?ok (name ! (b + k)))"
      using nth len by (simp add: list_all_length)
    also have "\<dots> \<longleftrightarrow> (\<forall>i \<in> {b..<e}. ?ok (name ! i))" by (rule all_shift)
    finally show ?thesis .
  qed
  have split: "{b..<e} = insert b (insert (e - 1) {b + 1..<e - 1})"
    using assms by auto
  have inner: "list_all (\<lambda>i. ?ok (name ! i)) [b + 1 ..< e - 1] \<longleftrightarrow> (\<forall>i \<in> {b + 1..<e - 1}. ?ok (name ! i))"
    by (auto simp: list_all_iff)
  show ?thesis
    unfolding valid_label_def all split inner hd last using assms len by auto
qed

lemma name_labels_ok_grammar:
  "b \<le> length name \<Longrightarrow>
   name_labels_ok name b \<longleftrightarrow> list_all valid_label (split_dots (drop b name))"
proof (induction "length name - b" arbitrary: b rule: less_induct)
  case less
  let ?rest = "drop b name"
  define l where "l = takeWhile (\<lambda>d. d \<noteq> CHR ''.'') ?rest"
  have nodot: "CHR ''.'' \<notin> set l" by (auto simp: l_def dest: set_takeWhileD)
  have lenl: "length l \<le> length name - b" by (metis l_def length_drop length_takeWhile_le)
  have take: "take (length l) ?rest = l" unfolding l_def by (rule takeWhile_eq_take [symmetric])
  define e where "e = b + length l"
  have e_le: "e \<le> length name" using less.prems lenl by (simp add: e_def)
  have short: "valid_label l \<Longrightarrow> b + 3 \<le> e" by (simp add: valid_label_def e_def)
  have ends: "(case find_first_of CHR ''.'' b name of None \<Rightarrow> length name | Some e \<Rightarrow> e) = e"
    using e_le by (auto simp: find_first_of_def Let_def e_def l_def)
  have unfold: "name_labels_ok name b \<longleftrightarrow>
      valid_label l \<and> (if e = length name then True else name_labels_ok name (e + 1))"
  proof (cases "b + 3 \<le> e")
    case True
    have "e - b = length l" by (simp add: e_def)
    then show ?thesis
      using label_checks [OF True e_le] True take
      by (subst name_labels_ok.simps) (auto simp: Let_def ends)
  next
    case False
    then show ?thesis using short
      by (subst name_labels_ok.simps) (auto simp: Let_def ends)
  qed
  show ?case
  proof (cases "e = length name")
    case True
    then have "?rest = l" using take lenl less.prems by (simp add: e_def)
    then show ?thesis using True unfold nodot by (simp add: split_dots_no_dot)
  next
    case False
    then have lt: "e < length name" using e_le by simp
    then have "length l < length ?rest" using less.prems by (simp add: e_def)
    then have dot: "?rest ! length l = CHR ''.''"
      using nth_length_takeWhile [of "\<lambda>d. d \<noteq> CHR ''.''" ?rest] by (simp add: l_def)
    have "?rest = l @ CHR ''.'' # drop (e + 1) name"
    proof -
      have "?rest = take (length l) ?rest @ ?rest ! length l # drop (Suc (length l)) ?rest"
        using \<open>length l < length ?rest\<close> by (rule id_take_nth_drop)
      then show ?thesis using take dot by (simp add: e_def add.commute add.left_commute)
    qed
    then have "split_dots ?rest = l # split_dots (drop (e + 1) name)"
      using nodot by (simp add: split_dots_append)
    moreover have "name_labels_ok name (e + 1) \<longleftrightarrow> list_all valid_label (split_dots (drop (e + 1) name))"
      using lt by (intro less.hyps) (auto simp: e_def)
    ultimately show ?thesis using False unfold by simp
  qed
qed

text \<open>
  C30: account names. \<open>is_valid_account_name\<close> accepts a name exactly when it has between 3
  and 16 characters and is a dot-separated sequence of labels, each of three or more
  lowercase letters, digits and hyphens, starting with a letter and ending with a letter or
  digit.
\<close>

theorem is_valid_account_name_grammar:
  "is_valid_account_name name \<longleftrightarrow>
     3 \<le> length name \<and> length name \<le> 16 \<and> list_all valid_label (split_dots name)"
  using name_labels_ok_grammar [of 0 name]
  by (auto simp: is_valid_account_name_def MIN_ACCOUNT_NAME_LENGTH_def MAX_ACCOUNT_NAME_LENGTH_def)

subsection \<open>A successful check is backed by signatures\<close>

abbreviation account_ok :: "public_key_type set \<Rightarrow> authority_getter \<Rightarrow> account_name set \<Rightarrow> account_name \<Rightarrow> bool" where
  "account_ok K get appr a \<equiv> a \<in> appr \<or> (\<exists>b. get a = Inr b \<and> satisfied K get appr b)"

definition sound_state :: "public_key_type set \<Rightarrow> authority_getter \<Rightarrow> account_name set \<Rightarrow> sign_state \<Rightarrow> bool" where
  "sound_state K get appr s \<longleftrightarrow> set (available_keys s) \<subseteq> K \<and> fst ` set (provided_signatures s) \<subseteq> K \<and>
     (\<forall>a \<in> set (approved_by s). account_ok K get appr a)"

lemma dom_flat_put: "fst ` set (flat_put k v m) = insert k (fst ` set m)"
  by (induction k v m rule: flat_put.induct) auto

lemma set_flat_insert [simp]: "set (flat_insert k s) = insert k (set s)"
  by (simp add: flat_insert_def set_insort_insert)

lemma signed_by_sound:
  "signed_by k s = (ok, s') \<Longrightarrow> sound_state K get appr s \<Longrightarrow> sound_state K get appr s' \<and> (ok \<longrightarrow> k \<in> K)"
proof -
  assume sb: "signed_by k s = (ok, s')" and s: "sound_state K get appr s"
  have K: "k \<in> K" if ok
    using sb that s by (auto simp: signed_by_def sound_state_def split: option.splits if_splits dest!: map_of_SomeD)
  then have "k \<in> K \<Longrightarrow> sound_state K get appr (s\<lparr>provided_signatures := flat_put k True (provided_signatures s)\<rparr>)"
    using s by (simp add: sound_state_def dom_flat_put)
  with K sb s show ?thesis
    by (auto simp: signed_by_def split: option.splits if_splits)
qed

lemma check_keys_sound:
  assumes "check_keys thr ks w s = ((r, w'), s')" and "sound_state K get appr s"
  shows "sound_state K get appr s' \<and> (r \<longrightarrow> thr \<le> w') \<and>
     (\<exists>ks'. subseq ks' ks \<and> fst ` set ks' \<subseteq> K \<and> w' \<le> w + sum_list (map snd ks'))"
  using assms
proof (induction thr ks w s rule: check_keys.induct)
  case (1 thr w s)
  then show ?case by (auto intro!: exI [of _ "[]"])
next
  case (2 thr k kw ks w s)
  obtain ok s1 where sb: "signed_by k s = (ok, s1)" by (cases "signed_by k s")
  note s1 = signed_by_sound [OF sb 2(4)]
  define w1 where "w1 = (w + kw) mod 2 ^ 32"
  have w1: "w1 \<le> w + kw" by (simp add: w1_def)
  show ?case
  proof (cases ok)
    case False
    with 2(3) sb have "check_keys thr ks w s1 = ((r, w'), s')" by simp
    from 2(2) [OF sb [symmetric] refl False this] s1 show ?thesis
      by (meson list_emb_Cons)
  next
    case True
    show ?thesis
    proof (cases "thr \<le> w1")
      case True
      with 2(3) sb \<open>ok\<close> have "r" "w' = w1" "s' = s1" by (auto simp: Let_def w1_def)
      with s1 w1 True \<open>ok\<close> show ?thesis
        by (intro conjI exI [of _ "[(k, kw)]"]) (auto simp: subseq_singleton_left)
    next
      case False
      with 2(3) sb \<open>ok\<close> have "check_keys thr ks w1 s1 = ((r, w'), s')" by (simp add: Let_def w1_def)
      with 2(1) [OF sb [symmetric] refl \<open>ok\<close> w1_def] False s1 obtain ks' where
        "sound_state K get appr s'" "r \<longrightarrow> thr \<le> w'" "subseq ks' ks" "fst ` set ks' \<subseteq> K"
        "w' \<le> w1 + sum_list (map snd ks')"
        by blast
      with w1 s1 \<open>ok\<close> show ?thesis
        by (intro conjI exI [of _ "(k, kw) # ks'"]) auto
    qed
  qed
qed

lemma check_accounts_sound:
  assumes rec: "\<And>chk auth s ok s'. rec = Some chk \<Longrightarrow> chk auth s = Inr (ok, s') \<Longrightarrow> sound_state K get appr s \<Longrightarrow>
      sound_state K get appr s' \<and> (ok \<longrightarrow> satisfied K get appr auth)"
    and "check_accounts get rec thr as w s = Inr (r, s')" and "sound_state K get appr s"
  shows "sound_state K get appr s' \<and> (r \<longrightarrow>
     (\<exists>as'. subseq as' as \<and> (\<forall>a \<in> set as'. account_ok K get appr (fst a)) \<and> thr \<le> w + sum_list (map snd as')))"
  using assms(2,3)
proof (induction as arbitrary: w s)
  case Nil
  then show ?case by (auto intro!: exI [of _ "[]"])
next
  case (Cons x as)
  obtain a aw where x: "x = (a, aw)" by (cases x)
  have le: "(w + aw) mod 2 ^ 32 \<le> w + aw" by simp
  have skip: ?case if "check_accounts get rec thr as w t = Inr (r, s')" "sound_state K get appr t" for t
    using Cons.IH [OF that] by (meson list_emb_Cons)
  have take: ?case if t: "sound_state K get appr t" and a: "account_ok K get appr a"
    and "(if (w + aw) mod 2 ^ 32 \<ge> thr then Inr (True, t)
          else check_accounts get rec thr as ((w + aw) mod 2 ^ 32) t) = Inr (r, s')" for t
  proof (cases "(w + aw) mod 2 ^ 32 \<ge> thr")
    case True
    with that(3) have "s' = t" by simp
    with t a True le x show ?thesis
      by (intro conjI impI exI [of _ "[x]"]) (auto simp: subseq_singleton_left)
  next
    case False
    with that(3) have "check_accounts get rec thr as ((w + aw) mod 2 ^ 32) t = Inr (r, s')" by simp
    note ih = Cons.IH [OF this t]
    show ?thesis
    proof (intro conjI impI)
      show "sound_state K get appr s'" using ih by blast
      assume r
      with ih obtain as' where "subseq as' as" "\<forall>a \<in> set as'. account_ok K get appr (fst a)"
        "thr \<le> (w + aw) mod 2 ^ 32 + sum_list (map snd as')" by blast
      with le a x show "\<exists>as'. subseq as' (x # as) \<and> (\<forall>a \<in> set as'. account_ok K get appr (fst a)) \<and>
          thr \<le> w + sum_list (map snd as')"
        by (intro exI [of _ "x # as'"]) auto
    qed
  qed
  show ?case
  proof (cases "a \<in> set (approved_by s)")
    case True
    then have "account_ok K get appr a" using Cons.prems(2) by (auto simp: sound_state_def)
    with Cons.prems True x show ?thesis by (intro take [of s]) (auto simp: Let_def)
  next
    case notin: False
    show ?thesis
    proof (cases rec)
      case None
      with notin Cons.prems x show ?thesis by (intro skip [of s]) auto
    next
      case (Some chk)
      with notin Cons.prems(1) x obtain auth ok s1 where c: "get a = Inr auth" "chk auth s = Inr (ok, s1)"
        and k: "(if ok then
              let s2 = s1\<lparr>approved_by := flat_insert a (approved_by s1)\<rparr>; w1 = (w + aw) mod 2 ^ 32 in
              if w1 \<ge> thr then Inr (True, s2) else check_accounts get rec thr as w1 s2
            else check_accounts get rec thr as w s1) = Inr (r, s')"
        by (auto simp: bindR_eq_Inr)
      note s1 = rec [OF Some c(2) Cons.prems(2)]
      show ?thesis
      proof (cases ok)
        case True
        then have ok: "account_ok K get appr a" using s1 c(1) by blast
        then have "sound_state K get appr (s1\<lparr>approved_by := flat_insert a (approved_by s1)\<rparr>)"
          using s1 by (auto simp: sound_state_def)
        with ok k True show ?thesis by (intro take) (auto simp: Let_def)
      next
        case False
        with k s1 show ?thesis by (intro skip) auto
      qed
    qed
  qed
qed

lemma check_authority_body_sound:
  assumes rec: "\<And>chk auth s ok s'. rec = Some chk \<Longrightarrow> chk auth s = Inr (ok, s') \<Longrightarrow> sound_state K get appr s \<Longrightarrow>
      sound_state K get appr s' \<and> (ok \<longrightarrow> satisfied K get appr auth)"
    and "check_authority_body get rec auth s = Inr (r, s')" and "sound_state K get appr s"
  shows "sound_state K get appr s' \<and> (r \<longrightarrow> satisfied K get appr auth)"
proof -
  obtain rk w s1 where ck: "check_keys (weight_threshold auth) (key_auths auth) 0 s = ((rk, w), s1)"
    by (metis surj_pair)
  from check_keys_sound [OF ck assms(3)] obtain ks where s1: "sound_state K get appr s1"
    and rk: "rk \<longrightarrow> weight_threshold auth \<le> w"
    and ks: "subseq ks (key_auths auth)" "fst ` set ks \<subseteq> K" "w \<le> sum_list (map snd ks)"
    by auto
  show ?thesis
  proof (cases rk)
    case True
    with assms(2) ck have "s' = s1" by (simp add: check_authority_body_def)
    moreover have "satisfied K get appr auth"
      using ks rk True by (intro satisfiedI [of ks _ _ "[]"]) auto
    ultimately show ?thesis using s1 by simp
  next
    case False
    with assms(2) ck have "check_accounts get rec (weight_threshold auth) (account_auths auth) w s1 = Inr (r, s')"
      by (simp add: check_authority_body_def)
    with rec have ca: "sound_state K get appr s' \<and> (r \<longrightarrow> (\<exists>as'. subseq as' (account_auths auth) \<and>
        (\<forall>a \<in> set as'. account_ok K get appr (fst a)) \<and> weight_threshold auth \<le> w + sum_list (map snd as')))"
      using s1 by (rule check_accounts_sound)
    note s' = conjunct1 [OF ca] and as = conjunct2 [OF ca]
    have "satisfied K get appr auth" if r
    proof -
      from mp [OF as that] obtain as' where "subseq as' (account_auths auth)"
        "\<forall>a \<in> set as'. account_ok K get appr (fst a)" "weight_threshold auth \<le> w + sum_list (map snd as')"
        by blast
      then show ?thesis using ks by (intro satisfiedI [of ks _ _ as']) simp_all
    qed
    with s' show ?thesis by blast
  qed
qed

lemma check_authority_sound:
  "check_authority n get auth s = Inr (r, s') \<Longrightarrow> sound_state K get appr s \<Longrightarrow>
   sound_state K get appr s' \<and> (r \<longrightarrow> satisfied K get appr auth)"
proof (induction n arbitrary: auth s r s')
  case 0
  show ?case
    by (rule check_authority_body_sound [of None K get appr auth s]) (use 0 in auto)
next
  case (Suc n)
  show ?case
    by (rule check_authority_body_sound [of "Some (check_authority n get)" K get appr auth s])
      (use Suc in auto)
qed

lemma fst_fold_flat_put: "fst ` set (fold (\<lambda>k m. flat_put k v m) ks m) = set ks \<union> fst ` set m"
  by (induction ks arbitrary: m) (auto simp: dom_flat_put)

lemma sound_mk_sign_state:
  "''temp'' \<in> appr \<Longrightarrow> sound_state (set sigs \<union> set keys) get appr (mk_sign_state sigs keys)"
  by (auto simp: sound_state_def mk_sign_state_def fst_fold_flat_put)

text \<open>
  An accepted authority is backed by signatures. If \<open>check_authority\<close>, started with the
  signatures of a transaction, returns true for an authority, then keys that signed and
  accounts that are themselves so authorised (or are the always-approved \<open>temp\<close>) carry
  enough weight to reach the threshold, whatever the recursion limit and although the
  weights are added in 32 bits.
\<close>

theorem check_authority_backed:
  assumes "check_authority n get auth (mk_sign_state sigs keys) = Inr (True, s')"
  shows "satisfied (set sigs \<union> set keys) get {''temp''} auth"
  using check_authority_sound [OF assms sound_mk_sign_state] by blast

lemma check_authority_2:
  "check_authority 2 get =
     check_authority_body get (Some (check_authority_body get (Some (check_authority_body get None))))"
  by (simp add: numeral_2_eq_2)

definition sample_get :: authority_getter where
  "sample_get a =
     (if a = ''bob'' then Inr \<lparr> weight_threshold = 1, account_auths = [], key_auths = [(''KB'', 1)] \<rparr>
      else Inl (Out_of_range ''unknown key''))"

definition sample_auth :: authority where
  "sample_auth = \<lparr> weight_threshold = 3, account_auths = [(''bob'', 2)], key_auths = [(''KA'', 1), (''KC'', 1)] \<rparr>"

theorem check_authority_backed_witness:
  "\<exists>s'. check_authority 2 sample_get sample_auth (mk_sign_state [''KA'', ''KB''] []) = Inr (True, s') \<and>
     satisfied {''KA'', ''KB''} sample_get {''temp''} sample_auth"
proof -
  obtain s' where s': "check_authority 2 sample_get sample_auth (mk_sign_state [''KA'', ''KB''] []) = Inr (True, s')"
    by (simp add: check_authority_2 check_authority_body_def sample_auth_def sample_get_def mk_sign_state_def
        signed_by_def Let_def)
  from check_authority_backed [OF s'] s' show ?thesis by auto
qed

end
