(* ===== verification/Operations.thy ===== *)
theory Operations
  imports Asset Authority
begin

text \<open>
  The operations of \<open>libraries/protocol/include/bmchain/protocol/bmchain_operations.hpp\<close> and
  \<open>custom_token_operations.hpp\<close>: one record per operation structure, with the fields of the
  source under a two-letter prefix, the variant \<open>operation\<close>, and the accounts whose authority
  each operation requires. The empty \<open>extensions\<close> sets carry no data and have no field. A
  \<open>flat_set\<close> of names is a list. The proof-of-work operations and
  \<open>report_over_production_operation\<close> have no evaluator with an effect and are left out.
\<close>

record beneficiary_route_type =
  br_account :: account_name
  br_weight :: nat

datatype comment_options_extension =
    comment_payout_beneficiaries "beneficiary_route_type list"
  | comment_curation_rewards_percent nat

record chain_properties =
  account_creation_fee :: asset
  maximum_block_size :: nat
  cp_sbd_interest_rate :: nat

definition default_chain_properties :: chain_properties where
  "default_chain_properties =
     \<lparr> account_creation_fee = bmt MIN_ACCOUNT_CREATION_FEE,
       maximum_block_size = MIN_BLOCK_SIZE_LIMIT * 2, cp_sbd_interest_rate = 0 \<rparr>"

datatype token_setup_parameter =
    token_param_allow_vesting bool
  | token_param_allow_voting bool

record account_create_operation =
  ac_fee :: asset
  ac_creator :: account_name
  ac_new_account_name :: account_name
  ac_owner :: authority
  ac_active :: authority
  ac_posting :: authority
  ac_memo_key :: public_key_type
  ac_json_metadata :: string

record account_create_with_delegation_operation =
  ad_fee :: asset
  ad_delegation :: asset
  ad_creator :: account_name
  ad_new_account_name :: account_name
  ad_owner :: authority
  ad_active :: authority
  ad_posting :: authority
  ad_memo_key :: public_key_type
  ad_json_metadata :: string

record account_update_operation =
  au_account :: account_name
  au_owner :: "authority option"
  au_active :: "authority option"
  au_posting :: "authority option"
  au_memo_key :: public_key_type
  au_json_metadata :: string

record comment_operation =
  cm_parent_author :: account_name
  cm_parent_permlink :: string
  cm_author :: account_name
  cm_permlink :: string
  cm_title :: string
  cm_body :: string
  cm_json_metadata :: string

record encrypted_content_operation =
  en_comment :: comment_operation
  en_encrypted_message :: string
  en_sent_time :: nat
  en_nonce :: nat
  en_message_size :: nat
  en_checksum :: nat
  en_price :: asset
  en_owner :: account_name
  en_order_id :: nat
  en_apply_order :: bool

record comment_options_operation =
  cp_author :: account_name
  cp_permlink :: string
  cp_max_accepted_payout :: asset
  cp_percent_bmt_dollars :: nat
  cp_allow_votes :: bool
  cp_allow_curation_rewards :: bool
  cp_extensions :: "comment_options_extension list"

record challenge_authority_operation =
  ch_challenger :: account_name
  ch_challenged :: account_name
  ch_require_owner :: bool

record delete_comment_operation =
  dc_author :: account_name
  dc_permlink :: string

record vote_operation =
  vo_voter :: account_name
  vo_author :: account_name
  vo_permlink :: string
  vo_weight :: int
  vo_comment_bmchain :: string

record transfer_operation =
  tr_from :: account_name
  tr_to :: account_name
  tr_amount :: asset
  tr_memo :: string

record escrow_transfer_operation =
  et_from :: account_name
  et_to :: account_name
  et_agent :: account_name
  et_escrow_id :: nat
  et_bmt_amount :: asset
  et_fee :: asset
  et_ratification_deadline :: time_point_sec
  et_escrow_expiration :: time_point_sec
  et_json_meta :: string

record escrow_approve_operation =
  ea_from :: account_name
  ea_to :: account_name
  ea_agent :: account_name
  ea_who :: account_name
  ea_escrow_id :: nat
  ea_approve :: bool

record escrow_dispute_operation =
  ed_from :: account_name
  ed_to :: account_name
  ed_agent :: account_name
  ed_who :: account_name
  ed_escrow_id :: nat

record escrow_release_operation =
  er_from :: account_name
  er_to :: account_name
  er_agent :: account_name
  er_who :: account_name
  er_receiver :: account_name
  er_escrow_id :: nat
  er_bmt_amount :: asset

record transfer_to_vesting_operation =
  tv_from :: account_name
  tv_to :: account_name
  tv_amount :: asset

record withdraw_savings_operation =
  wi_account :: account_name
  wi_savings :: asset

record set_withdraw_savings_route_operation =
  sr_from_account :: account_name
  sr_to_account :: account_name
  sr_percent :: nat
  sr_auto_vest :: bool

record witness_update_operation =
  wu_owner :: account_name
  wu_url :: string
  wu_block_signing_key :: public_key_type
  wu_props :: chain_properties
  wu_fee :: asset

record account_witness_vote_operation =
  av_account :: account_name
  av_witness :: account_name
  av_approve :: bool

record account_witness_proxy_operation =
  ap_account :: account_name
  ap_proxy :: account_name

record custom_operation =
  cu_required_auths :: "account_name list"
  cu_id :: nat
  cu_data :: string

record custom_json_operation =
  cj_required_auths :: "account_name list"
  cj_required_posting_auths :: "account_name list"
  cj_id :: string
  cj_json :: string

record custom_binary_operation =
  cb_required_owner_auths :: "account_name list"
  cb_required_active_auths :: "account_name list"
  cb_required_posting_auths :: "account_name list"
  cb_required_auths :: "authority list"
  cb_id :: string
  cb_data :: string

record feed_publish_operation =
  fp_publisher :: account_name
  fp_exchange_rate :: price

record convert_operation =
  cv_owner :: account_name
  cv_requestid :: nat
  cv_amount :: asset

record limit_order_create_operation =
  lc_owner :: account_name
  lc_orderid :: nat
  lc_amount_to_sell :: asset
  lc_min_to_receive :: asset
  lc_fill_or_kill :: bool
  lc_expiration :: time_point_sec

record limit_order_create2_operation =
  lt_owner :: account_name
  lt_orderid :: nat
  lt_amount_to_sell :: asset
  lt_fill_or_kill :: bool
  lt_exchange_rate :: price
  lt_expiration :: time_point_sec

record limit_order_cancel_operation =
  lx_owner :: account_name
  lx_orderid :: nat

record request_account_recovery_operation =
  rq_recovery_account :: account_name
  rq_account_to_recover :: account_name
  rq_new_owner_authority :: authority

record recover_account_operation =
  rc_account_to_recover :: account_name
  rc_new_owner_authority :: authority
  rc_recent_owner_authority :: authority

record reset_account_operation =
  rs_reset_account :: account_name
  rs_account_to_reset :: account_name
  rs_new_owner_authority :: authority

record set_reset_account_operation =
  ss_account :: account_name
  ss_current_reset_account :: account_name
  ss_reset_account :: account_name

record change_recovery_account_operation =
  cg_account_to_recover :: account_name
  cg_new_recovery_account :: account_name

record transfer_to_savings_operation =
  ts_from :: account_name
  ts_to :: account_name
  ts_amount :: asset
  ts_memo :: string

record transfer_from_savings_operation =
  tf_from :: account_name
  tf_request_id :: nat
  tf_to :: account_name
  tf_amount :: asset
  tf_memo :: string

record cancel_transfer_from_savings_operation =
  tc_from :: account_name
  tc_request_id :: nat

record decline_voting_rights_operation =
  dv_account :: account_name
  dv_decline :: bool

record claim_reward_balance_operation =
  cl_account :: account_name
  cl_reward_bmt :: asset
  cl_reward_vests :: asset

record delegate_vesting_shares_operation =
  de_delegator :: account_name
  de_delegatee :: account_name
  de_vesting_shares :: asset

record content_order_create_operation =
  oc_author :: account_name
  oc_permlink :: string
  oc_owner :: account_name
  oc_price :: asset
  oc_json_metadata :: string

record content_order_cancel_operation =
  ox_owner :: account_name
  ox_order_id :: nat
  ox_json_metadata :: string

record content_order_cancel_by_author_operation =
  oa_author :: account_name
  oa_order_id :: nat
  oa_json_metadata :: string

record private_message_operation =
  pm_from :: account_name
  pm_to :: account_name
  pm_from_memo_key :: public_key_type
  pm_to_memo_key :: public_key_type
  pm_sent_time :: nat
  pm_nonce :: nat
  pm_checksum :: nat
  pm_message_size :: nat
  pm_encrypted_message :: string

record custom_token_create_operation =
  tk_control_account :: account_name
  tk_current_supply :: asset
  tk_custom_token_creation_fee :: asset

record custom_token_transfer_operation =
  tt_from :: account_name
  tt_to :: account_name
  tt_amount :: asset

record custom_token_setup_emissions_operation =
  te_schedule_time :: time_point_sec
  te_control_account :: account_name
  te_symbol :: asset
  te_inflation_rate :: nat
  te_interval_seconds :: nat
  te_interval_count :: nat

record custom_token_set_setup_parameters_operation =
  tp_control_account :: account_name
  tp_symbol :: asset
  tp_setup_parameters :: "token_setup_parameter list"

text \<open>The variant of \<open>operations.hpp\<close>, without the virtual operations.\<close>

datatype (plugins only: code) operation =
    account_create_op account_create_operation
  | account_create_with_delegation_op account_create_with_delegation_operation
  | account_update_op account_update_operation
  | comment_op comment_operation
  | encrypted_content_op encrypted_content_operation
  | comment_options_op comment_options_operation
  | challenge_authority_op challenge_authority_operation
  | delete_comment_op delete_comment_operation
  | vote_op vote_operation
  | transfer_op transfer_operation
  | escrow_transfer_op escrow_transfer_operation
  | escrow_approve_op escrow_approve_operation
  | escrow_dispute_op escrow_dispute_operation
  | escrow_release_op escrow_release_operation
  | transfer_to_vesting_op transfer_to_vesting_operation
  | withdraw_savings_op withdraw_savings_operation
  | set_withdraw_savings_route_op set_withdraw_savings_route_operation
  | witness_update_op witness_update_operation
  | account_witness_vote_op account_witness_vote_operation
  | account_witness_proxy_op account_witness_proxy_operation
  | custom_op custom_operation
  | custom_json_op custom_json_operation
  | custom_binary_op custom_binary_operation
  | feed_publish_op feed_publish_operation
  | convert_op convert_operation
  | limit_order_create_op limit_order_create_operation
  | limit_order_create2_op limit_order_create2_operation
  | limit_order_cancel_op limit_order_cancel_operation
  | request_account_recovery_op request_account_recovery_operation
  | recover_account_op recover_account_operation
  | reset_account_op reset_account_operation
  | set_reset_account_op set_reset_account_operation
  | change_recovery_account_op change_recovery_account_operation
  | transfer_to_savings_op transfer_to_savings_operation
  | transfer_from_savings_op transfer_from_savings_operation
  | cancel_transfer_from_savings_op cancel_transfer_from_savings_operation
  | decline_voting_rights_op decline_voting_rights_operation
  | claim_reward_balance_op claim_reward_balance_operation
  | delegate_vesting_shares_op delegate_vesting_shares_operation
  | content_order_create_op content_order_create_operation
  | content_order_cancel_op content_order_cancel_operation
  | content_order_cancel_by_author_op content_order_cancel_by_author_operation
  | private_message_op private_message_operation
  | custom_token_create_op custom_token_create_operation
  | custom_token_transfer_op custom_token_transfer_operation
  | custom_token_setup_emissions_op custom_token_setup_emissions_operation
  | custom_token_set_setup_parameters_op custom_token_set_setup_parameters_operation
  | prove_authority_op

subsection \<open>Required authorities\<close>

text \<open>
  The four \<open>get_required_*_authorities\<close> of each structure; those of \<open>base_operation\<close> do
  nothing. \<open>operation_get_required_authorities\<close> inserts into the sets it is given.
\<close>

definition required_active_authorities :: "operation \<Rightarrow> account_name list" where
  "required_active_authorities opn =
     (case opn of
        account_create_op p \<Rightarrow> [ac_creator p]
      | account_create_with_delegation_op p \<Rightarrow> [ad_creator p]
      | account_update_op p \<Rightarrow> (if au_owner p = None then [au_account p] else [])
      | challenge_authority_op p \<Rightarrow> [ch_challenger p]
      | transfer_op p \<Rightarrow> (if symbol (tr_amount p) \<noteq> VESTS_SYMBOL then [tr_from p] else [])
      | escrow_transfer_op p \<Rightarrow> [et_from p]
      | escrow_approve_op p \<Rightarrow> [ea_who p]
      | escrow_dispute_op p \<Rightarrow> [ed_who p]
      | escrow_release_op p \<Rightarrow> [er_who p]
      | transfer_to_vesting_op p \<Rightarrow> [tv_from p]
      | withdraw_savings_op p \<Rightarrow> [wi_account p]
      | set_withdraw_savings_route_op p \<Rightarrow> [sr_from_account p]
      | witness_update_op p \<Rightarrow> [wu_owner p]
      | account_witness_vote_op p \<Rightarrow> [av_account p]
      | account_witness_proxy_op p \<Rightarrow> [ap_account p]
      | custom_op p \<Rightarrow> cu_required_auths p
      | custom_json_op p \<Rightarrow> cj_required_auths p
      | custom_binary_op p \<Rightarrow> cb_required_active_auths p
      | feed_publish_op p \<Rightarrow> [fp_publisher p]
      | convert_op p \<Rightarrow> [cv_owner p]
      | limit_order_create_op p \<Rightarrow> [lc_owner p]
      | limit_order_create2_op p \<Rightarrow> [lt_owner p]
      | limit_order_cancel_op p \<Rightarrow> [lx_owner p]
      | request_account_recovery_op p \<Rightarrow> [rq_recovery_account p]
      | reset_account_op p \<Rightarrow> [rs_reset_account p]
      | transfer_to_savings_op p \<Rightarrow> [ts_from p]
      | transfer_from_savings_op p \<Rightarrow> [tf_from p]
      | cancel_transfer_from_savings_op p \<Rightarrow> [tc_from p]
      | delegate_vesting_shares_op p \<Rightarrow> [de_delegator p]
      | content_order_create_op p \<Rightarrow> [oc_owner p]
      | content_order_cancel_op p \<Rightarrow> [ox_owner p]
      | content_order_cancel_by_author_op p \<Rightarrow> [oa_author p]
      | custom_token_transfer_op p \<Rightarrow> [tt_from p]
      | _ \<Rightarrow> [])"

definition required_owner_authorities :: "operation \<Rightarrow> account_name list" where
  "required_owner_authorities opn =
     (case opn of
        account_update_op p \<Rightarrow> (if au_owner p \<noteq> None then [au_account p] else [])
      | transfer_op p \<Rightarrow> (if symbol (tr_amount p) = VESTS_SYMBOL then [tr_from p] else [])
      | custom_binary_op p \<Rightarrow> cb_required_owner_auths p
      | set_reset_account_op p \<Rightarrow> (if ss_current_reset_account p \<noteq> [] then [ss_account p] else [])
      | change_recovery_account_op p \<Rightarrow> [cg_account_to_recover p]
      | decline_voting_rights_op p \<Rightarrow> [dv_account p]
      | custom_token_create_op p \<Rightarrow> [tk_control_account p]
      | custom_token_transfer_op p \<Rightarrow> [tt_from p]
      | custom_token_setup_emissions_op p \<Rightarrow> [te_control_account p]
      | _ \<Rightarrow> [])"

definition required_posting_authorities :: "operation \<Rightarrow> account_name list" where
  "required_posting_authorities opn =
     (case opn of
        comment_op p \<Rightarrow> [cm_author p]
      | encrypted_content_op p \<Rightarrow> [cm_author (en_comment p)]
      | comment_options_op p \<Rightarrow> [cp_author p]
      | delete_comment_op p \<Rightarrow> [dc_author p]
      | vote_op p \<Rightarrow> [vo_voter p]
      | custom_json_op p \<Rightarrow> cj_required_posting_auths p
      | custom_binary_op p \<Rightarrow> cb_required_posting_auths p
      | set_reset_account_op p \<Rightarrow> (if ss_current_reset_account p = [] then [ss_account p] else [])
      | claim_reward_balance_op p \<Rightarrow> [cl_account p]
      | private_message_op p \<Rightarrow> [pm_from p]
      | _ \<Rightarrow> [])"

definition required_other_authorities :: "operation \<Rightarrow> authority list" where
  "required_other_authorities opn =
     (case opn of
        recover_account_op p \<Rightarrow> [rc_new_owner_authority p, rc_recent_owner_authority p]
      | custom_binary_op p \<Rightarrow> cb_required_auths p
      | _ \<Rightarrow> [])"

definition operation_get_required_authorities ::
  "operation \<Rightarrow> account_name list \<times> account_name list \<times> account_name list \<times> authority list \<Rightarrow>
   account_name list \<times> account_name list \<times> account_name list \<times> authority list" where
  "operation_get_required_authorities opn = (\<lambda>(active, owner, posting, other).
     (fold flat_insert (required_active_authorities opn) active,
      fold flat_insert (required_owner_authorities opn) owner,
      fold flat_insert (required_posting_authorities opn) posting,
      other @ required_other_authorities opn))"

definition is_market_operation :: "operation \<Rightarrow> bool" where
  "is_market_operation opn =
     (case opn of
        limit_order_create_op _ \<Rightarrow> True
      | limit_order_cancel_op _ \<Rightarrow> True
      | transfer_op _ \<Rightarrow> True
      | transfer_to_vesting_op _ \<Rightarrow> True
      | _ \<Rightarrow> False)"

definition lc_get_price :: "limit_order_create_operation \<Rightarrow> exn + price" where
  "lc_get_price p = mk_price (lc_amount_to_sell p) (lc_min_to_receive p)"

end
