(* ===== verification/Objects.thy ===== *)
theory Objects
  imports Operations Chainbase
begin

text \<open>
  The objects of the chain database (\<open>account_object.hpp\<close>, \<open>bmchain_objects.hpp\<close>,
  \<open>comment_object.hpp\<close>, \<open>witness_objects.hpp\<close>, \<open>global_property_object.hpp\<close>,
  \<open>custom_token_objects.hpp\<close>, \<open>block_summary_object.hpp\<close>, \<open>transaction_object.hpp\<close> and
  \<open>hardfork.hpp\<close> under \<open>libraries/chain\<close>): one record per class with the source's fields
  under a prefix, its default member initialisers as \<open>default_*\<close>, and for each container the
  test \<open>*_conflict\<close> that two objects collide on an \<open>ordered_unique\<close> key that does not contain
  the id. The \<open>id\<close> of an object is the key of its row. A block or transaction id, a digest
  and a public key are strings of bytes. The record \<open>database\<close> holds one container per class;
  the classes with a single object (the dynamic global properties, the witness schedule and
  the hardfork property) are fields.
\<close>

definition null_key :: public_key_type where
  "null_key = replicate 33 (CHR 0x00)"

definition default_price :: price where
  "default_price = \<lparr> base = bmt 0, quote = bmt 0 \<rparr>"

datatype witness_schedule_type = elected | timeshare | miner | schedule_none

datatype curve_id = quadratic | quadratic_curation | linear | square_root | power17_curve

datatype order_status = order_open | order_completed | order_canceled

datatype smt_phase =
    account_elevated | setup_completed | contribution_begin_time_completed
  | contribution_end_time_completed | launch_time_completed | launch_failed | launch_success

record account_object =
  a_name :: account_name
  a_memo_key :: public_key_type
  a_json_metadata :: string
  a_proxy :: account_name
  a_avatar :: string
  a_last_account_update :: time_point_sec
  a_created :: time_point_sec
  a_mined :: bool
  a_owner_challenged :: bool
  a_active_challenged :: bool
  a_last_owner_proved :: time_point_sec
  a_last_active_proved :: time_point_sec
  a_recovery_account :: account_name
  a_reset_account :: account_name
  a_last_account_recovery :: time_point_sec
  a_comment_count :: nat
  a_lifetime_vote_count :: nat
  a_post_count :: nat
  a_can_vote :: bool
  a_voting_power :: nat
  a_balance :: asset
  a_savings_balance :: asset
  a_sbd_balance :: asset
  a_sbd_seconds :: "128 word"
  a_sbd_seconds_last_update :: time_point_sec
  a_sbd_last_interest_payment :: time_point_sec
  a_savings_sbd_balance :: asset
  a_savings_sbd_seconds :: "128 word"
  a_savings_sbd_seconds_last_update :: time_point_sec
  a_savings_sbd_last_interest_payment :: time_point_sec
  a_savings_withdraw_requests :: nat
  a_reward_sbd_balance :: asset
  a_reward_bmt_balance :: asset
  a_reward_vesting_balance :: asset
  a_reward_vesting_bmt :: asset
  a_curation_rewards :: int
  a_posting_rewards :: int
  a_vesting_shares :: asset
  a_delegated_vesting_shares :: asset
  a_received_vesting_shares :: asset
  a_savings_withdraw_rate :: asset
  a_next_savings_withdrawal :: time_point_sec
  a_withdrawn :: int
  a_to_withdraw :: int
  a_withdraw_routes :: nat
  a_proxied_vsf_votes :: "int list"
  a_witnesses_voted_for :: nat
  a_last_post :: time_point_sec
  a_last_root_post :: time_point_sec
  a_last_vote_time :: time_point_sec
  a_post_bandwidth :: nat

definition default_account_object :: account_object where
  "default_account_object =
     \<lparr> a_name = [], a_memo_key = null_key, a_json_metadata = [], a_proxy = [], a_avatar = [],
       a_last_account_update = 0, a_created = 0, a_mined = True, a_owner_challenged = False,
       a_active_challenged = False, a_last_owner_proved = time_min,
       a_last_active_proved = time_min, a_recovery_account = [],
       a_reset_account = NULL_ACCOUNT, a_last_account_recovery = 0, a_comment_count = 0,
       a_lifetime_vote_count = 0, a_post_count = 0, a_can_vote = True,
       a_voting_power = nat PERCENT_100, a_balance = bmt 0, a_savings_balance = bmt 0,
       a_sbd_balance = asset_of 0 SBD_SYMBOL, a_sbd_seconds = 0,
       a_sbd_seconds_last_update = 0, a_sbd_last_interest_payment = 0,
       a_savings_sbd_balance = asset_of 0 SBD_SYMBOL, a_savings_sbd_seconds = 0,
       a_savings_sbd_seconds_last_update = 0, a_savings_sbd_last_interest_payment = 0,
       a_savings_withdraw_requests = 0, a_reward_sbd_balance = asset_of 0 SBD_SYMBOL,
       a_reward_bmt_balance = bmt 0, a_reward_vesting_balance = vests 0,
       a_reward_vesting_bmt = bmt 0, a_curation_rewards = 0, a_posting_rewards = 0,
       a_vesting_shares = vests 0, a_delegated_vesting_shares = vests 0,
       a_received_vesting_shares = vests 0, a_savings_withdraw_rate = bmt 0,
       a_next_savings_withdrawal = time_max, a_withdrawn = 0, a_to_withdraw = 0,
       a_withdraw_routes = 0, a_proxied_vsf_votes = replicate MAX_PROXY_RECURSION_DEPTH 0,
       a_witnesses_voted_for = 0, a_last_post = 0, a_last_root_post = time_min,
       a_last_vote_time = 0, a_post_bandwidth = 0 \<rparr>"

record account_authority_object =
  aa_account :: account_name
  aa_owner :: authority
  aa_active :: authority
  aa_posting :: authority
  aa_last_owner_update :: time_point_sec

definition default_account_authority_object :: account_authority_object where
  "default_account_authority_object =
     \<lparr> aa_account = [], aa_owner = empty_authority, aa_active = empty_authority,
       aa_posting = empty_authority, aa_last_owner_update = 0 \<rparr>"

record vesting_delegation_object =
  vd_delegator :: account_name
  vd_delegatee :: account_name
  vd_vesting_shares :: asset
  vd_min_delegation_time :: time_point_sec

definition default_vesting_delegation_object :: vesting_delegation_object where
  "default_vesting_delegation_object =
     \<lparr> vd_delegator = [], vd_delegatee = [], vd_vesting_shares = bmt 0,
       vd_min_delegation_time = 0 \<rparr>"

record rep_delegation_expiration_object =
  ve_delegator :: account_name
  ve_vesting_shares :: asset
  ve_expiration :: time_point_sec

definition default_rep_delegation_expiration_object :: rep_delegation_expiration_object where
  "default_rep_delegation_expiration_object =
     \<lparr> ve_delegator = [], ve_vesting_shares = bmt 0, ve_expiration = 0 \<rparr>"

record owner_authority_history_object =
  oh_account :: account_name
  oh_previous_owner_authority :: authority
  oh_last_valid_time :: time_point_sec

definition default_owner_authority_history_object :: owner_authority_history_object where
  "default_owner_authority_history_object =
     \<lparr> oh_account = [], oh_previous_owner_authority = empty_authority,
       oh_last_valid_time = 0 \<rparr>"

record account_recovery_request_object =
  rr_account_to_recover :: account_name
  rr_new_owner_authority :: authority
  rr_expires :: time_point_sec

definition default_account_recovery_request_object :: account_recovery_request_object where
  "default_account_recovery_request_object =
     \<lparr> rr_account_to_recover = [], rr_new_owner_authority = empty_authority, rr_expires = 0 \<rparr>"

record change_recovery_account_request_object =
  crr_account_to_recover :: account_name
  crr_recovery_account :: account_name
  crr_effective_on :: time_point_sec

definition default_change_recovery_account_request_object :: change_recovery_account_request_object where
  "default_change_recovery_account_request_object =
     \<lparr> crr_account_to_recover = [], crr_recovery_account = [], crr_effective_on = 0 \<rparr>"

record convert_request_object =
  cr_owner :: account_name
  cr_requestid :: nat
  cr_amount :: asset
  cr_conversion_date :: time_point_sec

definition default_convert_request_object :: convert_request_object where
  "default_convert_request_object =
     \<lparr> cr_owner = [], cr_requestid = 0, cr_amount = bmt 0, cr_conversion_date = 0 \<rparr>"

record escrow_object =
  e_escrow_id :: nat
  e_from :: account_name
  e_to :: account_name
  e_agent :: account_name
  e_ratification_deadline :: time_point_sec
  e_escrow_expiration :: time_point_sec
  e_bmt_balance :: asset
  e_pending_fee :: asset
  e_to_approved :: bool
  e_agent_approved :: bool
  e_disputed :: bool

definition default_escrow_object :: escrow_object where
  "default_escrow_object =
     \<lparr> e_escrow_id = 20, e_from = [], e_to = [], e_agent = [], e_ratification_deadline = 0,
       e_escrow_expiration = 0, e_bmt_balance = bmt 0, e_pending_fee = bmt 0,
       e_to_approved = False, e_agent_approved = False, e_disputed = False \<rparr>"

record savings_withdraw_object =
  sw_from :: account_name
  sw_to :: account_name
  sw_memo :: string
  sw_request_id :: nat
  sw_amount :: asset
  sw_complete :: time_point_sec

definition default_savings_withdraw_object :: savings_withdraw_object where
  "default_savings_withdraw_object =
     \<lparr> sw_from = [], sw_to = [], sw_memo = [], sw_request_id = 0, sw_amount = bmt 0,
       sw_complete = 0 \<rparr>"

record limit_order_object =
  lo_created :: time_point_sec
  lo_expiration :: time_point_sec
  lo_seller :: account_name
  lo_orderid :: nat
  lo_for_sale :: int
  lo_sell_price :: price

definition default_limit_order_object :: limit_order_object where
  "default_limit_order_object =
     \<lparr> lo_created = 0, lo_expiration = 0, lo_seller = [], lo_orderid = 0, lo_for_sale = 0,
       lo_sell_price = default_price \<rparr>"

record withdraw_rep_route_object =
  wr_from_account :: oid
  wr_to_account :: oid
  wr_percent :: nat
  wr_auto_vest :: bool

definition default_withdraw_rep_route_object :: withdraw_rep_route_object where
  "default_withdraw_rep_route_object =
     \<lparr> wr_from_account = 0, wr_to_account = 0, wr_percent = 0, wr_auto_vest = False \<rparr>"

record decline_voting_rights_request_object =
  dr_account :: oid
  dr_effective_date :: time_point_sec

definition default_decline_voting_rights_request_object :: decline_voting_rights_request_object where
  "default_decline_voting_rights_request_object =
     \<lparr> dr_account = 0, dr_effective_date = 0 \<rparr>"

record reward_fund_object =
  rf_name :: string
  rf_reward_balance :: asset
  rf_recent_claims :: "128 word"
  rf_last_update :: time_point_sec
  rf_content_constant :: "128 word"
  rf_percent_curation_rewards :: nat
  rf_percent_content_rewards :: nat
  rf_author_reward_curve :: curve_id
  rf_curation_reward_curve :: curve_id

definition default_reward_fund_object :: reward_fund_object where
  "default_reward_fund_object =
     \<lparr> rf_name = [], rf_reward_balance = bmt 0, rf_recent_claims = 0, rf_last_update = 0,
       rf_content_constant = 0, rf_percent_curation_rewards = 0,
       rf_percent_content_rewards = 0, rf_author_reward_curve = power17_curve,
       rf_curation_reward_curve = square_root \<rparr>"

record content_order_object =
  co_sent_time :: time_point_sec
  co_author :: account_name
  co_permlink :: string
  co_owner :: account_name
  co_price :: asset
  co_status :: order_status
  co_json_metadata :: string

definition default_content_order_object :: content_order_object where
  "default_content_order_object =
     \<lparr> co_sent_time = 0, co_author = [], co_permlink = [], co_owner = [], co_price = bmt 0,
       co_status = order_open, co_json_metadata = [] \<rparr>"

record comment_object =
  c_category :: string
  c_parent_author :: account_name
  c_parent_permlink :: string
  c_author :: account_name
  c_permlink :: string
  c_title :: string
  c_body :: string
  c_json_metadata :: string
  c_last_update :: time_point_sec
  c_created :: time_point_sec
  c_active :: time_point_sec
  c_last_payout :: time_point_sec
  c_depth :: nat
  c_children :: nat
  c_net_rshares :: int
  c_abs_rshares :: int
  c_vote_rshares :: int
  c_children_abs_rshares :: int
  c_cashout_time :: time_point_sec
  c_max_cashout_time :: time_point_sec
  c_total_vote_weight :: nat
  c_reward_weight :: nat
  c_total_payout_value :: asset
  c_curator_payout_value :: asset
  c_beneficiary_payout_value :: asset
  c_author_rewards :: int
  c_net_votes :: int
  c_root_comment :: oid
  c_max_accepted_payout :: asset
  c_percent_bmt_dollars :: nat
  c_allow_replies :: bool
  c_allow_votes :: bool
  c_allow_curation_rewards :: bool
  c_curation_rewards_percent :: nat
  c_beneficiaries :: "beneficiary_route_type list"
  c_unique :: bool
  c_encrypted :: bool
  c_private_post :: bool
  c_owner :: account_name
  c_encrypted_body :: string
  c_message_size :: nat
  c_checksum :: nat
  c_nonce :: nat
  c_price :: asset

definition default_comment_object :: comment_object where
  "default_comment_object =
     \<lparr> c_category = [], c_parent_author = [], c_parent_permlink = [], c_author = [],
       c_permlink = [], c_title = [], c_body = [], c_json_metadata = [], c_last_update = 0,
       c_created = 0, c_active = 0, c_last_payout = 0, c_depth = 0, c_children = 0,
       c_net_rshares = 0, c_abs_rshares = 0, c_vote_rshares = 0, c_children_abs_rshares = 0,
       c_cashout_time = 0, c_max_cashout_time = 0, c_total_vote_weight = 0,
       c_reward_weight = 0, c_total_payout_value = bmt 0, c_curator_payout_value = bmt 0,
       c_beneficiary_payout_value = bmt 0, c_author_rewards = 0, c_net_votes = 0,
       c_root_comment = 0, c_max_accepted_payout = bmt 1000000000,
       c_percent_bmt_dollars = nat PERCENT_100, c_allow_replies = True, c_allow_votes = True,
       c_allow_curation_rewards = True,
       c_curation_rewards_percent = nat MIN_CURATION_PERCENT, c_beneficiaries = [],
       c_unique = False, c_encrypted = False, c_private_post = False, c_owner = [],
       c_encrypted_body = [], c_message_size = 0, c_checksum = 0, c_nonce = 0,
       c_price = bmt 0 \<rparr>"

record comment_vote_object =
  cvo_voter :: oid
  cvo_comment :: oid
  cvo_weight :: nat
  cvo_rshares :: int
  cvo_vote_percent :: int
  cvo_last_update :: time_point_sec
  cvo_num_changes :: int
  cvo_comment_bmchain :: string

definition default_comment_vote_object :: comment_vote_object where
  "default_comment_vote_object =
     \<lparr> cvo_voter = 0, cvo_comment = 0, cvo_weight = 0, cvo_rshares = 0, cvo_vote_percent = 0,
       cvo_last_update = 0, cvo_num_changes = 0, cvo_comment_bmchain = [] \<rparr>"

record witness_object =
  w_owner :: account_name
  w_created :: time_point_sec
  w_url :: string
  w_total_missed :: nat
  w_last_aslot :: nat
  w_last_confirmed_block_num :: nat
  w_pow_worker :: nat
  w_signing_key :: public_key_type
  w_props :: chain_properties
  w_votes :: int
  w_schedule :: witness_schedule_type
  w_virtual_last_update :: "128 word"
  w_virtual_position :: "128 word"
  w_virtual_scheduled_time :: "128 word"
  w_last_work :: string
  w_running_version :: "32 word"
  w_hardfork_version_vote :: "32 word"
  w_hardfork_time_vote :: time_point_sec

definition default_witness_object :: witness_object where
  "default_witness_object =
     \<lparr> w_owner = [], w_created = 0, w_url = [], w_total_missed = 0, w_last_aslot = 0,
       w_last_confirmed_block_num = 0, w_pow_worker = 0, w_signing_key = null_key,
       w_props = default_chain_properties, w_votes = 0, w_schedule = schedule_none,
       w_virtual_last_update = 0, w_virtual_position = 0, w_virtual_scheduled_time = -1,
       w_last_work = [], w_running_version = 0, w_hardfork_version_vote = 0,
       w_hardfork_time_vote = GENESIS_TIME \<rparr>"

record witness_vote_object =
  wv_witness :: oid
  wv_account :: oid

definition default_witness_vote_object :: witness_vote_object where
  "default_witness_vote_object =
     \<lparr> wv_witness = 0, wv_account = 0 \<rparr>"

record witness_schedule_object =
  ws_current_virtual_time :: "128 word"
  ws_next_shuffle_block_num :: nat
  ws_current_shuffled_witnesses :: "account_name list"
  ws_num_scheduled_witnesses :: nat
  ws_elected_weight :: nat
  ws_timeshare_weight :: nat
  ws_miner_weight :: nat
  ws_witness_pay_normalization_factor :: nat
  ws_median_props :: chain_properties
  ws_majority_version :: "32 word"
  ws_max_voted_witnesses :: nat
  ws_max_miner_witnesses :: nat
  ws_max_runner_witnesses :: nat
  ws_hardfork_required_witnesses :: nat

definition default_witness_schedule_object :: witness_schedule_object where
  "default_witness_schedule_object =
     \<lparr> ws_current_virtual_time = 0, ws_next_shuffle_block_num = 1,
       ws_current_shuffled_witnesses = replicate MAX_WITNESSES [],
       ws_num_scheduled_witnesses = 1, ws_elected_weight = 1, ws_timeshare_weight = 5,
       ws_miner_weight = 1, ws_witness_pay_normalization_factor = 25,
       ws_median_props = default_chain_properties, ws_majority_version = 0,
       ws_max_voted_witnesses = MAX_VOTED_WITNESSES,
       ws_max_miner_witnesses = MAX_MINER_WITNESSES,
       ws_max_runner_witnesses = MAX_RUNNER_WITNESSES,
       ws_hardfork_required_witnesses = HARDFORK_REQUIRED_WITNESSES \<rparr>"

record custom_token_object =
  ct_control_account :: account_name
  ct_symbol :: asset_symbol_type
  ct_current_supply :: asset
  ct_reward_fund :: asset
  ct_inflation_rate :: nat
  ct_generation_time :: time_point_sec
  ct_schedule_time :: time_point_sec
  ct_interval_seconds :: nat
  ct_interval_count :: nat
  ct_allow_voting :: bool
  ct_allow_vesting :: bool
  ct_phase :: smt_phase
  ct_max_supply :: int
  ct_generation_begin_time :: time_point_sec
  ct_generation_end_time :: time_point_sec
  ct_announced_launch_time :: time_point_sec
  ct_launch_expiration_time :: time_point_sec

definition default_custom_token_object :: custom_token_object where
  "default_custom_token_object =
     \<lparr> ct_control_account = [], ct_symbol = 0, ct_current_supply = bmt 0,
       ct_reward_fund = bmt 0, ct_inflation_rate = 0, ct_generation_time = 0,
       ct_schedule_time = GENESIS_TIME, ct_interval_seconds = 0, ct_interval_count = 0,
       ct_allow_voting = False, ct_allow_vesting = False, ct_phase = account_elevated,
       ct_max_supply = 0, ct_generation_begin_time = 0, ct_generation_end_time = 0,
       ct_announced_launch_time = 0, ct_launch_expiration_time = 0 \<rparr>"

record account_balance_object =
  ab_symbol :: asset_symbol_type
  ab_owner :: account_name
  ab_balance :: asset

definition default_account_balance_object :: account_balance_object where
  "default_account_balance_object =
     \<lparr> ab_symbol = 0, ab_owner = [], ab_balance = bmt 0 \<rparr>"

record dynamic_global_property_object =
  g_head_block_number :: nat
  g_head_block_id :: string
  g_time :: time_point_sec
  g_current_witness :: account_name
  g_total_pow :: nat
  g_num_pow_witnesses :: nat
  g_virtual_supply :: asset
  g_current_supply :: asset
  g_confidential_supply :: asset
  g_current_sbd_supply :: asset
  g_confidential_sbd_supply :: asset
  g_total_vesting_fund_bmt :: asset
  g_total_vesting_shares :: asset
  g_total_reward_fund_bmt :: asset
  g_total_reward_shares2 :: "128 word"
  g_pending_rewarded_vesting_shares :: asset
  g_pending_rewarded_vesting_bmt :: asset
  g_sbd_interest_rate :: nat
  g_sbd_print_rate :: nat
  g_maximum_block_size :: nat
  g_current_aslot :: nat
  g_recent_slots_filled :: "128 word"
  g_participation_count :: nat
  g_last_irreversible_block_num :: nat
  g_vote_power_reserve_rate :: nat
  g_custom_token_creation_fee :: asset
  g_sbd_stop_percent :: nat
  g_sbd_start_percent :: nat
  g_daily_emission :: asset
  g_last_current_supply :: asset

definition default_dynamic_global_property_object :: dynamic_global_property_object where
  "default_dynamic_global_property_object =
     \<lparr> g_head_block_number = 0, g_head_block_id = replicate 20 (CHR 0x00), g_time = 0, g_current_witness = [],
       g_total_pow = 2 ^ 64 - 1, g_num_pow_witnesses = 0, g_virtual_supply = bmt 0,
       g_current_supply = bmt 0, g_confidential_supply = bmt 0,
       g_current_sbd_supply = asset_of 0 SBD_SYMBOL,
       g_confidential_sbd_supply = asset_of 0 SBD_SYMBOL, g_total_vesting_fund_bmt = bmt 0,
       g_total_vesting_shares = vests 0, g_total_reward_fund_bmt = bmt 0,
       g_total_reward_shares2 = 0, g_pending_rewarded_vesting_shares = vests 0,
       g_pending_rewarded_vesting_bmt = bmt 0, g_sbd_interest_rate = 0,
       g_sbd_print_rate = nat PERCENT_100, g_maximum_block_size = 0, g_current_aslot = 0,
       g_recent_slots_filled = 0, g_participation_count = 0,
       g_last_irreversible_block_num = 0, g_vote_power_reserve_rate = 10,
       g_custom_token_creation_fee = bmt CUSTOM_TOKEN_CREATION_FEE, g_sbd_stop_percent = 0,
       g_sbd_start_percent = 0, g_daily_emission = bmt 0, g_last_current_supply = bmt 0 \<rparr>"

record block_summary_object =
  bs_block_id :: string

definition default_block_summary_object :: block_summary_object where
  "default_block_summary_object =
     \<lparr> bs_block_id = replicate 20 (CHR 0x00) \<rparr>"

record transaction_object =
  tx_trx_id :: string
  tx_expiration :: time_point_sec

definition default_transaction_object :: transaction_object where
  "default_transaction_object =
     \<lparr> tx_trx_id = [], tx_expiration = 0 \<rparr>"

text \<open>
  The messages of the plugin \<open>private_message\<close>; its container exists only on a node that runs
  the plugin. \<open>message_size\<close> has no initialiser and is never written, and has no field.
\<close>

record message_object =
  ms_from :: account_name
  ms_to :: account_name
  ms_from_memo_key :: public_key_type
  ms_to_memo_key :: public_key_type
  ms_sent_time :: nat
  ms_nonce :: nat
  ms_receive_time :: time_point_sec
  ms_checksum :: nat
  ms_encrypted_message :: string

definition default_message_object :: message_object where
  "default_message_object =
     \<lparr> ms_from = [], ms_to = [], ms_from_memo_key = [], ms_to_memo_key = [], ms_sent_time = 0,
       ms_nonce = 0, ms_receive_time = 0, ms_checksum = 0, ms_encrypted_message = [] \<rparr>"

record hardfork_property_object =
  hf_processed_hardforks :: "time_point_sec list"
  hf_last_hardfork :: nat
  hf_current_hardfork_version :: "32 word"
  hf_next_hardfork :: "32 word"
  hf_next_hardfork_time :: time_point_sec

definition default_hardfork_property_object :: hardfork_property_object where
  "default_hardfork_property_object =
     \<lparr> hf_processed_hardforks = [], hf_last_hardfork = 0, hf_current_hardfork_version = 0,
       hf_next_hardfork = 0, hf_next_hardfork_time = 0 \<rparr>"

subsection \<open>Unique keys\<close>

text \<open>\<open>strcmp_less\<close> compares up to the first NUL.\<close>

definition c_str :: "string \<Rightarrow> string" where
  "c_str s = takeWhile (\<lambda>c. c \<noteq> CHR 0x00) s"

definition no_conflict :: "'v \<Rightarrow> 'v \<Rightarrow> bool" where
  "no_conflict v w = False"

definition account_conflict :: "account_object \<Rightarrow> account_object \<Rightarrow> bool" where
  "account_conflict v w \<longleftrightarrow> a_name v = a_name w"

definition vesting_delegation_conflict :: "vesting_delegation_object \<Rightarrow> vesting_delegation_object \<Rightarrow> bool" where
  "vesting_delegation_conflict v w \<longleftrightarrow> vd_delegator v = vd_delegator w \<and> vd_delegatee v = vd_delegatee w"

definition convert_request_conflict :: "convert_request_object \<Rightarrow> convert_request_object \<Rightarrow> bool" where
  "convert_request_conflict v w \<longleftrightarrow> cr_owner v = cr_owner w \<and> cr_requestid v = cr_requestid w"

definition escrow_conflict :: "escrow_object \<Rightarrow> escrow_object \<Rightarrow> bool" where
  "escrow_conflict v w \<longleftrightarrow> e_from v = e_from w \<and> e_escrow_id v = e_escrow_id w"

definition savings_withdraw_conflict :: "savings_withdraw_object \<Rightarrow> savings_withdraw_object \<Rightarrow> bool" where
  "savings_withdraw_conflict v w \<longleftrightarrow> sw_from v = sw_from w \<and> sw_request_id v = sw_request_id w"

definition limit_order_conflict :: "limit_order_object \<Rightarrow> limit_order_object \<Rightarrow> bool" where
  "limit_order_conflict v w \<longleftrightarrow> lo_seller v = lo_seller w \<and> lo_orderid v = lo_orderid w"

definition withdraw_route_conflict :: "withdraw_rep_route_object \<Rightarrow> withdraw_rep_route_object \<Rightarrow> bool" where
  "withdraw_route_conflict v w \<longleftrightarrow> wr_from_account v = wr_from_account w \<and> wr_to_account v = wr_to_account w"

definition decline_voting_conflict ::
  "decline_voting_rights_request_object \<Rightarrow> decline_voting_rights_request_object \<Rightarrow> bool" where
  "decline_voting_conflict v w \<longleftrightarrow> dr_account v = dr_account w"

definition reward_fund_conflict :: "reward_fund_object \<Rightarrow> reward_fund_object \<Rightarrow> bool" where
  "reward_fund_conflict v w \<longleftrightarrow> rf_name v = rf_name w"

text \<open>The key \<open>by_sent_time\<close> of content orders is the time alone.\<close>

definition content_order_conflict :: "content_order_object \<Rightarrow> content_order_object \<Rightarrow> bool" where
  "content_order_conflict v w \<longleftrightarrow>
     co_sent_time v = co_sent_time w \<or>
     co_author v = co_author w \<and> c_str (co_permlink v) = c_str (co_permlink w) \<and> co_owner v = co_owner w"

definition comment_conflict :: "comment_object \<Rightarrow> comment_object \<Rightarrow> bool" where
  "comment_conflict v w \<longleftrightarrow> c_author v = c_author w \<and> c_str (c_permlink v) = c_str (c_permlink w)"

definition comment_vote_conflict :: "comment_vote_object \<Rightarrow> comment_vote_object \<Rightarrow> bool" where
  "comment_vote_conflict v w \<longleftrightarrow> cvo_comment v = cvo_comment w \<and> cvo_voter v = cvo_voter w"

definition witness_conflict :: "witness_object \<Rightarrow> witness_object \<Rightarrow> bool" where
  "witness_conflict v w \<longleftrightarrow> w_owner v = w_owner w"

definition witness_vote_conflict :: "witness_vote_object \<Rightarrow> witness_vote_object \<Rightarrow> bool" where
  "witness_vote_conflict v w \<longleftrightarrow> wv_account v = wv_account w \<and> wv_witness v = wv_witness w"

definition custom_token_conflict :: "custom_token_object \<Rightarrow> custom_token_object \<Rightarrow> bool" where
  "custom_token_conflict v w \<longleftrightarrow> ct_symbol v = ct_symbol w"

definition transaction_conflict :: "transaction_object \<Rightarrow> transaction_object \<Rightarrow> bool" where
  "transaction_conflict v w \<longleftrightarrow> tx_trx_id v = tx_trx_id w"

subsection \<open>Members of the objects\<close>

definition witness_vote_weight :: "fc_lib \<Rightarrow> account_object \<Rightarrow> exn + int" where
  "witness_vote_weight fc a =
     foldR (\<lambda>v acc. safe_add fc acc v) (a_proxied_vsf_votes a) (amount (a_vesting_shares a))"

definition proxied_vsf_votes_total :: "fc_lib \<Rightarrow> account_object \<Rightarrow> exn + int" where
  "proxied_vsf_votes_total fc a = foldR (\<lambda>v acc. safe_add fc acc v) (a_proxied_vsf_votes a) 0"

definition effective_vesting_shares :: "fc_lib \<Rightarrow> account_object \<Rightarrow> exn + asset" where
  "effective_vesting_shares fc a =
     bindR (asset_minus fc (a_vesting_shares a) (a_delegated_vesting_shares a)) (\<lambda>d.
     asset_plus fc d (a_received_vesting_shares a))"

definition is_approved :: "escrow_object \<Rightarrow> bool" where
  "is_approved e \<longleftrightarrow> e_to_approved e \<and> e_agent_approved e"

definition amount_for_sale :: "limit_order_object \<Rightarrow> asset" where
  "amount_for_sale lo = asset_of (lo_for_sale lo) (symbol (base (lo_sell_price lo)))"

definition amount_to_receive :: "fc_lib \<Rightarrow> limit_order_object \<Rightarrow> exn + asset" where
  "amount_to_receive fc lo = asset_times_price fc (amount_for_sale lo) (lo_sell_price lo)"

definition get_vesting_share_price :: "dynamic_global_property_object \<Rightarrow> exn + price" where
  "get_vesting_share_price g =
     (if amount (g_total_vesting_fund_bmt g) = 0 \<or> amount (g_total_vesting_shares g) = 0
      then mk_price (bmt 1000) (vests 1000000)
      else mk_price (g_total_vesting_shares g) (g_total_vesting_fund_bmt g))"

definition get_reward_vesting_share_price :: "fc_lib \<Rightarrow> dynamic_global_property_object \<Rightarrow> exn + price" where
  "get_reward_vesting_share_price fc g =
     bindR (asset_plus fc (g_total_vesting_shares g) (g_pending_rewarded_vesting_shares g)) (\<lambda>b.
     bindR (asset_plus fc (g_total_vesting_fund_bmt g) (g_pending_rewarded_vesting_bmt g)) (\<lambda>q.
     mk_price b q))"

end
