(* ===== verification/Database.thy ===== *)
theory Database
  imports Objects
begin

text \<open>
  The chain database as a record of containers, with one \<open>modify_*\<close>, \<open>create_*\<close> and \<open>remove_*\<close>
  per class (the templates \<open>modify\<close>, \<open>create\<close> and \<open>remove\<close> of \<open>chainbase::database\<close> at that
  class), and the two quantities of \<open>database::validate_invariants\<close> that every operation has
  to keep: \<open>supply_gap\<close>, the recorded supply of BMT less all BMT held anywhere, and
  \<open>vests_gap\<close> and \<open>pending_gap\<close>, the same for vesting shares and for the BMT behind unclaimed
  vesting rewards. The facts \<open>table_gaps\<close> say by how much each primitive moves them; they
  hold in every state, and the theories of the operations combine them.
\<close>

record database =
  accounts :: "account_object generic_index"
  account_authorities :: "account_authority_object generic_index"
  witnesses :: "witness_object generic_index"
  witness_votes :: "witness_vote_object generic_index"
  comments :: "comment_object generic_index"
  comment_votes :: "comment_vote_object generic_index"
  limit_orders :: "limit_order_object generic_index"
  convert_requests :: "convert_request_object generic_index"
  escrows :: "escrow_object generic_index"
  savings_withdraws :: "savings_withdraw_object generic_index"
  withdraw_routes :: "withdraw_rep_route_object generic_index"
  decline_requests :: "decline_voting_rights_request_object generic_index"
  recovery_requests :: "account_recovery_request_object generic_index"
  change_recovery_requests :: "change_recovery_account_request_object generic_index"
  owner_histories :: "owner_authority_history_object generic_index"
  reward_funds :: "reward_fund_object generic_index"
  delegations :: "vesting_delegation_object generic_index"
  delegation_expirations :: "rep_delegation_expiration_object generic_index"
  content_orders :: "content_order_object generic_index"
  custom_tokens :: "custom_token_object generic_index"
  account_balances :: "account_balance_object generic_index"
  transactions :: "transaction_object generic_index"
  block_summaries :: "block_summary_object generic_index"
  messages :: "message_object generic_index option"
  dgpo :: dynamic_global_property_object
  wso :: witness_schedule_object
  hfo :: hardfork_property_object

definition empty_database :: database where
  "empty_database =
     \<lparr> accounts = empty_index,
       account_authorities = empty_index,
       witnesses = empty_index,
       witness_votes = empty_index,
       comments = empty_index,
       comment_votes = empty_index,
       limit_orders = empty_index,
       convert_requests = empty_index,
       escrows = empty_index,
       savings_withdraws = empty_index,
       withdraw_routes = empty_index,
       decline_requests = empty_index,
       recovery_requests = empty_index,
       change_recovery_requests = empty_index,
       owner_histories = empty_index,
       reward_funds = empty_index,
       delegations = empty_index,
       delegation_expirations = empty_index,
       content_orders = empty_index,
       custom_tokens = empty_index,
       account_balances = empty_index,
       transactions = empty_index,
       block_summaries = empty_index,
       messages = None,
       dgpo = default_dynamic_global_property_object, wso = default_witness_schedule_object,
       hfo = default_hardfork_property_object \<rparr>"

subsection \<open>Access to the containers\<close>

definition modify_account :: "oid \<Rightarrow> (account_object \<Rightarrow> exn + account_object) \<Rightarrow> database \<Rightarrow> exn + database" where
  "modify_account i m db = bindR (modify account_conflict i m (accounts db)) (\<lambda>t. Inr (db\<lparr>accounts := t\<rparr>))"

definition create_account :: "(oid \<Rightarrow> exn + account_object) \<Rightarrow> database \<Rightarrow> exn + (database \<times> oid)" where
  "create_account con db = bindR (emplace account_conflict con (accounts db)) (\<lambda>(t, i). Inr (db\<lparr>accounts := t\<rparr>, i))"

definition remove_account :: "oid \<Rightarrow> database \<Rightarrow> exn + database" where
  "remove_account i db = bindR (remove i (accounts db)) (\<lambda>t. Inr (db\<lparr>accounts := t\<rparr>))"

definition modify_account_authority :: "oid \<Rightarrow> (account_authority_object \<Rightarrow> exn + account_authority_object) \<Rightarrow> database \<Rightarrow> exn + database" where
  "modify_account_authority i m db = bindR (modify no_conflict i m (account_authorities db)) (\<lambda>t. Inr (db\<lparr>account_authorities := t\<rparr>))"

definition create_account_authority :: "(oid \<Rightarrow> exn + account_authority_object) \<Rightarrow> database \<Rightarrow> exn + (database \<times> oid)" where
  "create_account_authority con db = bindR (emplace no_conflict con (account_authorities db)) (\<lambda>(t, i). Inr (db\<lparr>account_authorities := t\<rparr>, i))"

definition remove_account_authority :: "oid \<Rightarrow> database \<Rightarrow> exn + database" where
  "remove_account_authority i db = bindR (remove i (account_authorities db)) (\<lambda>t. Inr (db\<lparr>account_authorities := t\<rparr>))"

definition modify_witness :: "oid \<Rightarrow> (witness_object \<Rightarrow> exn + witness_object) \<Rightarrow> database \<Rightarrow> exn + database" where
  "modify_witness i m db = bindR (modify witness_conflict i m (witnesses db)) (\<lambda>t. Inr (db\<lparr>witnesses := t\<rparr>))"

definition create_witness :: "(oid \<Rightarrow> exn + witness_object) \<Rightarrow> database \<Rightarrow> exn + (database \<times> oid)" where
  "create_witness con db = bindR (emplace witness_conflict con (witnesses db)) (\<lambda>(t, i). Inr (db\<lparr>witnesses := t\<rparr>, i))"

definition remove_witness :: "oid \<Rightarrow> database \<Rightarrow> exn + database" where
  "remove_witness i db = bindR (remove i (witnesses db)) (\<lambda>t. Inr (db\<lparr>witnesses := t\<rparr>))"

definition modify_witness_vote :: "oid \<Rightarrow> (witness_vote_object \<Rightarrow> exn + witness_vote_object) \<Rightarrow> database \<Rightarrow> exn + database" where
  "modify_witness_vote i m db = bindR (modify witness_vote_conflict i m (witness_votes db)) (\<lambda>t. Inr (db\<lparr>witness_votes := t\<rparr>))"

definition create_witness_vote :: "(oid \<Rightarrow> exn + witness_vote_object) \<Rightarrow> database \<Rightarrow> exn + (database \<times> oid)" where
  "create_witness_vote con db = bindR (emplace witness_vote_conflict con (witness_votes db)) (\<lambda>(t, i). Inr (db\<lparr>witness_votes := t\<rparr>, i))"

definition remove_witness_vote :: "oid \<Rightarrow> database \<Rightarrow> exn + database" where
  "remove_witness_vote i db = bindR (remove i (witness_votes db)) (\<lambda>t. Inr (db\<lparr>witness_votes := t\<rparr>))"

definition modify_comment :: "oid \<Rightarrow> (comment_object \<Rightarrow> exn + comment_object) \<Rightarrow> database \<Rightarrow> exn + database" where
  "modify_comment i m db = bindR (modify comment_conflict i m (comments db)) (\<lambda>t. Inr (db\<lparr>comments := t\<rparr>))"

definition create_comment :: "(oid \<Rightarrow> exn + comment_object) \<Rightarrow> database \<Rightarrow> exn + (database \<times> oid)" where
  "create_comment con db = bindR (emplace comment_conflict con (comments db)) (\<lambda>(t, i). Inr (db\<lparr>comments := t\<rparr>, i))"

definition remove_comment :: "oid \<Rightarrow> database \<Rightarrow> exn + database" where
  "remove_comment i db = bindR (remove i (comments db)) (\<lambda>t. Inr (db\<lparr>comments := t\<rparr>))"

definition modify_comment_vote :: "oid \<Rightarrow> (comment_vote_object \<Rightarrow> exn + comment_vote_object) \<Rightarrow> database \<Rightarrow> exn + database" where
  "modify_comment_vote i m db = bindR (modify comment_vote_conflict i m (comment_votes db)) (\<lambda>t. Inr (db\<lparr>comment_votes := t\<rparr>))"

definition create_comment_vote :: "(oid \<Rightarrow> exn + comment_vote_object) \<Rightarrow> database \<Rightarrow> exn + (database \<times> oid)" where
  "create_comment_vote con db = bindR (emplace comment_vote_conflict con (comment_votes db)) (\<lambda>(t, i). Inr (db\<lparr>comment_votes := t\<rparr>, i))"

definition remove_comment_vote :: "oid \<Rightarrow> database \<Rightarrow> exn + database" where
  "remove_comment_vote i db = bindR (remove i (comment_votes db)) (\<lambda>t. Inr (db\<lparr>comment_votes := t\<rparr>))"

definition modify_limit_order :: "oid \<Rightarrow> (limit_order_object \<Rightarrow> exn + limit_order_object) \<Rightarrow> database \<Rightarrow> exn + database" where
  "modify_limit_order i m db = bindR (modify limit_order_conflict i m (limit_orders db)) (\<lambda>t. Inr (db\<lparr>limit_orders := t\<rparr>))"

definition create_limit_order :: "(oid \<Rightarrow> exn + limit_order_object) \<Rightarrow> database \<Rightarrow> exn + (database \<times> oid)" where
  "create_limit_order con db = bindR (emplace limit_order_conflict con (limit_orders db)) (\<lambda>(t, i). Inr (db\<lparr>limit_orders := t\<rparr>, i))"

definition remove_limit_order :: "oid \<Rightarrow> database \<Rightarrow> exn + database" where
  "remove_limit_order i db = bindR (remove i (limit_orders db)) (\<lambda>t. Inr (db\<lparr>limit_orders := t\<rparr>))"

definition modify_convert_request :: "oid \<Rightarrow> (convert_request_object \<Rightarrow> exn + convert_request_object) \<Rightarrow> database \<Rightarrow> exn + database" where
  "modify_convert_request i m db = bindR (modify convert_request_conflict i m (convert_requests db)) (\<lambda>t. Inr (db\<lparr>convert_requests := t\<rparr>))"

definition create_convert_request :: "(oid \<Rightarrow> exn + convert_request_object) \<Rightarrow> database \<Rightarrow> exn + (database \<times> oid)" where
  "create_convert_request con db = bindR (emplace convert_request_conflict con (convert_requests db)) (\<lambda>(t, i). Inr (db\<lparr>convert_requests := t\<rparr>, i))"

definition remove_convert_request :: "oid \<Rightarrow> database \<Rightarrow> exn + database" where
  "remove_convert_request i db = bindR (remove i (convert_requests db)) (\<lambda>t. Inr (db\<lparr>convert_requests := t\<rparr>))"

definition modify_escrow :: "oid \<Rightarrow> (escrow_object \<Rightarrow> exn + escrow_object) \<Rightarrow> database \<Rightarrow> exn + database" where
  "modify_escrow i m db = bindR (modify escrow_conflict i m (escrows db)) (\<lambda>t. Inr (db\<lparr>escrows := t\<rparr>))"

definition create_escrow :: "(oid \<Rightarrow> exn + escrow_object) \<Rightarrow> database \<Rightarrow> exn + (database \<times> oid)" where
  "create_escrow con db = bindR (emplace escrow_conflict con (escrows db)) (\<lambda>(t, i). Inr (db\<lparr>escrows := t\<rparr>, i))"

definition remove_escrow :: "oid \<Rightarrow> database \<Rightarrow> exn + database" where
  "remove_escrow i db = bindR (remove i (escrows db)) (\<lambda>t. Inr (db\<lparr>escrows := t\<rparr>))"

definition modify_savings_withdraw :: "oid \<Rightarrow> (savings_withdraw_object \<Rightarrow> exn + savings_withdraw_object) \<Rightarrow> database \<Rightarrow> exn + database" where
  "modify_savings_withdraw i m db = bindR (modify savings_withdraw_conflict i m (savings_withdraws db)) (\<lambda>t. Inr (db\<lparr>savings_withdraws := t\<rparr>))"

definition create_savings_withdraw :: "(oid \<Rightarrow> exn + savings_withdraw_object) \<Rightarrow> database \<Rightarrow> exn + (database \<times> oid)" where
  "create_savings_withdraw con db = bindR (emplace savings_withdraw_conflict con (savings_withdraws db)) (\<lambda>(t, i). Inr (db\<lparr>savings_withdraws := t\<rparr>, i))"

definition remove_savings_withdraw :: "oid \<Rightarrow> database \<Rightarrow> exn + database" where
  "remove_savings_withdraw i db = bindR (remove i (savings_withdraws db)) (\<lambda>t. Inr (db\<lparr>savings_withdraws := t\<rparr>))"

definition modify_withdraw_route :: "oid \<Rightarrow> (withdraw_rep_route_object \<Rightarrow> exn + withdraw_rep_route_object) \<Rightarrow> database \<Rightarrow> exn + database" where
  "modify_withdraw_route i m db = bindR (modify withdraw_route_conflict i m (withdraw_routes db)) (\<lambda>t. Inr (db\<lparr>withdraw_routes := t\<rparr>))"

definition create_withdraw_route :: "(oid \<Rightarrow> exn + withdraw_rep_route_object) \<Rightarrow> database \<Rightarrow> exn + (database \<times> oid)" where
  "create_withdraw_route con db = bindR (emplace withdraw_route_conflict con (withdraw_routes db)) (\<lambda>(t, i). Inr (db\<lparr>withdraw_routes := t\<rparr>, i))"

definition remove_withdraw_route :: "oid \<Rightarrow> database \<Rightarrow> exn + database" where
  "remove_withdraw_route i db = bindR (remove i (withdraw_routes db)) (\<lambda>t. Inr (db\<lparr>withdraw_routes := t\<rparr>))"

definition modify_decline_request :: "oid \<Rightarrow> (decline_voting_rights_request_object \<Rightarrow> exn + decline_voting_rights_request_object) \<Rightarrow> database \<Rightarrow> exn + database" where
  "modify_decline_request i m db = bindR (modify decline_voting_conflict i m (decline_requests db)) (\<lambda>t. Inr (db\<lparr>decline_requests := t\<rparr>))"

definition create_decline_request :: "(oid \<Rightarrow> exn + decline_voting_rights_request_object) \<Rightarrow> database \<Rightarrow> exn + (database \<times> oid)" where
  "create_decline_request con db = bindR (emplace decline_voting_conflict con (decline_requests db)) (\<lambda>(t, i). Inr (db\<lparr>decline_requests := t\<rparr>, i))"

definition remove_decline_request :: "oid \<Rightarrow> database \<Rightarrow> exn + database" where
  "remove_decline_request i db = bindR (remove i (decline_requests db)) (\<lambda>t. Inr (db\<lparr>decline_requests := t\<rparr>))"

definition modify_recovery_request :: "oid \<Rightarrow> (account_recovery_request_object \<Rightarrow> exn + account_recovery_request_object) \<Rightarrow> database \<Rightarrow> exn + database" where
  "modify_recovery_request i m db = bindR (modify no_conflict i m (recovery_requests db)) (\<lambda>t. Inr (db\<lparr>recovery_requests := t\<rparr>))"

definition create_recovery_request :: "(oid \<Rightarrow> exn + account_recovery_request_object) \<Rightarrow> database \<Rightarrow> exn + (database \<times> oid)" where
  "create_recovery_request con db = bindR (emplace no_conflict con (recovery_requests db)) (\<lambda>(t, i). Inr (db\<lparr>recovery_requests := t\<rparr>, i))"

definition remove_recovery_request :: "oid \<Rightarrow> database \<Rightarrow> exn + database" where
  "remove_recovery_request i db = bindR (remove i (recovery_requests db)) (\<lambda>t. Inr (db\<lparr>recovery_requests := t\<rparr>))"

definition modify_change_recovery :: "oid \<Rightarrow> (change_recovery_account_request_object \<Rightarrow> exn + change_recovery_account_request_object) \<Rightarrow> database \<Rightarrow> exn + database" where
  "modify_change_recovery i m db = bindR (modify no_conflict i m (change_recovery_requests db)) (\<lambda>t. Inr (db\<lparr>change_recovery_requests := t\<rparr>))"

definition create_change_recovery :: "(oid \<Rightarrow> exn + change_recovery_account_request_object) \<Rightarrow> database \<Rightarrow> exn + (database \<times> oid)" where
  "create_change_recovery con db = bindR (emplace no_conflict con (change_recovery_requests db)) (\<lambda>(t, i). Inr (db\<lparr>change_recovery_requests := t\<rparr>, i))"

definition remove_change_recovery :: "oid \<Rightarrow> database \<Rightarrow> exn + database" where
  "remove_change_recovery i db = bindR (remove i (change_recovery_requests db)) (\<lambda>t. Inr (db\<lparr>change_recovery_requests := t\<rparr>))"

definition modify_owner_history :: "oid \<Rightarrow> (owner_authority_history_object \<Rightarrow> exn + owner_authority_history_object) \<Rightarrow> database \<Rightarrow> exn + database" where
  "modify_owner_history i m db = bindR (modify no_conflict i m (owner_histories db)) (\<lambda>t. Inr (db\<lparr>owner_histories := t\<rparr>))"

definition create_owner_history :: "(oid \<Rightarrow> exn + owner_authority_history_object) \<Rightarrow> database \<Rightarrow> exn + (database \<times> oid)" where
  "create_owner_history con db = bindR (emplace no_conflict con (owner_histories db)) (\<lambda>(t, i). Inr (db\<lparr>owner_histories := t\<rparr>, i))"

definition remove_owner_history :: "oid \<Rightarrow> database \<Rightarrow> exn + database" where
  "remove_owner_history i db = bindR (remove i (owner_histories db)) (\<lambda>t. Inr (db\<lparr>owner_histories := t\<rparr>))"

definition modify_reward_fund :: "oid \<Rightarrow> (reward_fund_object \<Rightarrow> exn + reward_fund_object) \<Rightarrow> database \<Rightarrow> exn + database" where
  "modify_reward_fund i m db = bindR (modify reward_fund_conflict i m (reward_funds db)) (\<lambda>t. Inr (db\<lparr>reward_funds := t\<rparr>))"

definition create_reward_fund :: "(oid \<Rightarrow> exn + reward_fund_object) \<Rightarrow> database \<Rightarrow> exn + (database \<times> oid)" where
  "create_reward_fund con db = bindR (emplace reward_fund_conflict con (reward_funds db)) (\<lambda>(t, i). Inr (db\<lparr>reward_funds := t\<rparr>, i))"

definition remove_reward_fund :: "oid \<Rightarrow> database \<Rightarrow> exn + database" where
  "remove_reward_fund i db = bindR (remove i (reward_funds db)) (\<lambda>t. Inr (db\<lparr>reward_funds := t\<rparr>))"

definition modify_delegation :: "oid \<Rightarrow> (vesting_delegation_object \<Rightarrow> exn + vesting_delegation_object) \<Rightarrow> database \<Rightarrow> exn + database" where
  "modify_delegation i m db = bindR (modify vesting_delegation_conflict i m (delegations db)) (\<lambda>t. Inr (db\<lparr>delegations := t\<rparr>))"

definition create_delegation :: "(oid \<Rightarrow> exn + vesting_delegation_object) \<Rightarrow> database \<Rightarrow> exn + (database \<times> oid)" where
  "create_delegation con db = bindR (emplace vesting_delegation_conflict con (delegations db)) (\<lambda>(t, i). Inr (db\<lparr>delegations := t\<rparr>, i))"

definition remove_delegation :: "oid \<Rightarrow> database \<Rightarrow> exn + database" where
  "remove_delegation i db = bindR (remove i (delegations db)) (\<lambda>t. Inr (db\<lparr>delegations := t\<rparr>))"

definition modify_delegation_expiration :: "oid \<Rightarrow> (rep_delegation_expiration_object \<Rightarrow> exn + rep_delegation_expiration_object) \<Rightarrow> database \<Rightarrow> exn + database" where
  "modify_delegation_expiration i m db = bindR (modify no_conflict i m (delegation_expirations db)) (\<lambda>t. Inr (db\<lparr>delegation_expirations := t\<rparr>))"

definition create_delegation_expiration :: "(oid \<Rightarrow> exn + rep_delegation_expiration_object) \<Rightarrow> database \<Rightarrow> exn + (database \<times> oid)" where
  "create_delegation_expiration con db = bindR (emplace no_conflict con (delegation_expirations db)) (\<lambda>(t, i). Inr (db\<lparr>delegation_expirations := t\<rparr>, i))"

definition remove_delegation_expiration :: "oid \<Rightarrow> database \<Rightarrow> exn + database" where
  "remove_delegation_expiration i db = bindR (remove i (delegation_expirations db)) (\<lambda>t. Inr (db\<lparr>delegation_expirations := t\<rparr>))"

definition modify_content_order :: "oid \<Rightarrow> (content_order_object \<Rightarrow> exn + content_order_object) \<Rightarrow> database \<Rightarrow> exn + database" where
  "modify_content_order i m db = bindR (modify content_order_conflict i m (content_orders db)) (\<lambda>t. Inr (db\<lparr>content_orders := t\<rparr>))"

definition create_content_order :: "(oid \<Rightarrow> exn + content_order_object) \<Rightarrow> database \<Rightarrow> exn + (database \<times> oid)" where
  "create_content_order con db = bindR (emplace content_order_conflict con (content_orders db)) (\<lambda>(t, i). Inr (db\<lparr>content_orders := t\<rparr>, i))"

definition remove_content_order :: "oid \<Rightarrow> database \<Rightarrow> exn + database" where
  "remove_content_order i db = bindR (remove i (content_orders db)) (\<lambda>t. Inr (db\<lparr>content_orders := t\<rparr>))"

definition modify_custom_token :: "oid \<Rightarrow> (custom_token_object \<Rightarrow> exn + custom_token_object) \<Rightarrow> database \<Rightarrow> exn + database" where
  "modify_custom_token i m db = bindR (modify custom_token_conflict i m (custom_tokens db)) (\<lambda>t. Inr (db\<lparr>custom_tokens := t\<rparr>))"

definition create_custom_token :: "(oid \<Rightarrow> exn + custom_token_object) \<Rightarrow> database \<Rightarrow> exn + (database \<times> oid)" where
  "create_custom_token con db = bindR (emplace custom_token_conflict con (custom_tokens db)) (\<lambda>(t, i). Inr (db\<lparr>custom_tokens := t\<rparr>, i))"

definition remove_custom_token :: "oid \<Rightarrow> database \<Rightarrow> exn + database" where
  "remove_custom_token i db = bindR (remove i (custom_tokens db)) (\<lambda>t. Inr (db\<lparr>custom_tokens := t\<rparr>))"

definition modify_account_balance :: "oid \<Rightarrow> (account_balance_object \<Rightarrow> exn + account_balance_object) \<Rightarrow> database \<Rightarrow> exn + database" where
  "modify_account_balance i m db = bindR (modify no_conflict i m (account_balances db)) (\<lambda>t. Inr (db\<lparr>account_balances := t\<rparr>))"

definition create_account_balance :: "(oid \<Rightarrow> exn + account_balance_object) \<Rightarrow> database \<Rightarrow> exn + (database \<times> oid)" where
  "create_account_balance con db = bindR (emplace no_conflict con (account_balances db)) (\<lambda>(t, i). Inr (db\<lparr>account_balances := t\<rparr>, i))"

definition remove_account_balance :: "oid \<Rightarrow> database \<Rightarrow> exn + database" where
  "remove_account_balance i db = bindR (remove i (account_balances db)) (\<lambda>t. Inr (db\<lparr>account_balances := t\<rparr>))"

definition modify_transaction :: "oid \<Rightarrow> (transaction_object \<Rightarrow> exn + transaction_object) \<Rightarrow> database \<Rightarrow> exn + database" where
  "modify_transaction i m db = bindR (modify transaction_conflict i m (transactions db)) (\<lambda>t. Inr (db\<lparr>transactions := t\<rparr>))"

definition create_transaction :: "(oid \<Rightarrow> exn + transaction_object) \<Rightarrow> database \<Rightarrow> exn + (database \<times> oid)" where
  "create_transaction con db = bindR (emplace transaction_conflict con (transactions db)) (\<lambda>(t, i). Inr (db\<lparr>transactions := t\<rparr>, i))"

definition remove_transaction :: "oid \<Rightarrow> database \<Rightarrow> exn + database" where
  "remove_transaction i db = bindR (remove i (transactions db)) (\<lambda>t. Inr (db\<lparr>transactions := t\<rparr>))"

definition modify_block_summary :: "oid \<Rightarrow> (block_summary_object \<Rightarrow> exn + block_summary_object) \<Rightarrow> database \<Rightarrow> exn + database" where
  "modify_block_summary i m db = bindR (modify no_conflict i m (block_summaries db)) (\<lambda>t. Inr (db\<lparr>block_summaries := t\<rparr>))"

definition create_block_summary :: "(oid \<Rightarrow> exn + block_summary_object) \<Rightarrow> database \<Rightarrow> exn + (database \<times> oid)" where
  "create_block_summary con db = bindR (emplace no_conflict con (block_summaries db)) (\<lambda>(t, i). Inr (db\<lparr>block_summaries := t\<rparr>, i))"

definition remove_block_summary :: "oid \<Rightarrow> database \<Rightarrow> exn + database" where
  "remove_block_summary i db = bindR (remove i (block_summaries db)) (\<lambda>t. Inr (db\<lparr>block_summaries := t\<rparr>))"

definition modify_dgpo ::
  "(dynamic_global_property_object \<Rightarrow> exn + dynamic_global_property_object) \<Rightarrow> database \<Rightarrow> exn + database" where
  "modify_dgpo m db = bindR (m (dgpo db)) (\<lambda>g. Inr (db\<lparr>dgpo := g\<rparr>))"

definition modify_wso ::
  "(witness_schedule_object \<Rightarrow> exn + witness_schedule_object) \<Rightarrow> database \<Rightarrow> exn + database" where
  "modify_wso m db = bindR (m (wso db)) (\<lambda>w. Inr (db\<lparr>wso := w\<rparr>))"

definition modify_hfo ::
  "(hardfork_property_object \<Rightarrow> exn + hardfork_property_object) \<Rightarrow> database \<Rightarrow> exn + database" where
  "modify_hfo m db = bindR (m (hfo db)) (\<lambda>h. Inr (db\<lparr>hfo := h\<rparr>))"

subsection \<open>Where BMT and vesting shares are held\<close>

definition bmt_of_account :: "account_object \<Rightarrow> int" where
  "bmt_of_account a = amount (a_balance a) + amount (a_savings_balance a) + amount (a_reward_bmt_balance a)"

definition vests_of_account :: "account_object \<Rightarrow> int" where
  "vests_of_account a = amount (a_vesting_shares a) + amount (a_reward_vesting_balance a)"

definition pending_of_account :: "account_object \<Rightarrow> int" where
  "pending_of_account a = amount (a_reward_vesting_bmt a)"

definition bmt_of_convert :: "convert_request_object \<Rightarrow> int" where
  "bmt_of_convert c = amount (cr_amount c)"

definition bmt_of_limit_order :: "limit_order_object \<Rightarrow> int" where
  "bmt_of_limit_order lo = (if symbol (base (lo_sell_price lo)) = BMT_SYMBOL then lo_for_sale lo else 0)"

definition bmt_of_escrow :: "escrow_object \<Rightarrow> int" where
  "bmt_of_escrow e = amount (e_bmt_balance e) + amount (e_pending_fee e)"

definition bmt_of_savings_withdraw :: "savings_withdraw_object \<Rightarrow> int" where
  "bmt_of_savings_withdraw s = amount (sw_amount s)"

definition bmt_of_reward_fund :: "reward_fund_object \<Rightarrow> int" where
  "bmt_of_reward_fund r = amount (rf_reward_balance r)"

definition bmt_of_content_order :: "content_order_object \<Rightarrow> int" where
  "bmt_of_content_order c = (if co_status c = order_open then amount (co_price c) else 0)"

definition bmt_of_dgpo :: "dynamic_global_property_object \<Rightarrow> int" where
  "bmt_of_dgpo g = amount (g_total_vesting_fund_bmt g) + amount (g_total_reward_fund_bmt g) +
     amount (g_pending_rewarded_vesting_bmt g)"

definition bmt_held :: "database \<Rightarrow> int" where
  "bmt_held db =
     row_sum bmt_of_account (indices (accounts db)) +
     row_sum bmt_of_convert (indices (convert_requests db)) +
     row_sum bmt_of_limit_order (indices (limit_orders db)) +
     row_sum bmt_of_escrow (indices (escrows db)) +
     row_sum bmt_of_savings_withdraw (indices (savings_withdraws db)) +
     row_sum bmt_of_reward_fund (indices (reward_funds db)) +
     row_sum bmt_of_content_order (indices (content_orders db)) +
     bmt_of_dgpo (dgpo db)"

definition supply_gap :: "database \<Rightarrow> int" where
  "supply_gap db = amount (g_current_supply (dgpo db)) - bmt_held db"

definition vests_gap :: "database \<Rightarrow> int" where
  "vests_gap db = amount (g_total_vesting_shares (dgpo db)) + amount (g_pending_rewarded_vesting_shares (dgpo db)) -
     row_sum vests_of_account (indices (accounts db))"

definition pending_gap :: "database \<Rightarrow> int" where
  "pending_gap db = amount (g_pending_rewarded_vesting_bmt (dgpo db)) -
     row_sum pending_of_account (indices (accounts db))"

text \<open>The state after a step keeps all three.\<close>

definition keeps_gaps :: "database \<Rightarrow> database \<Rightarrow> bool" where
  "keeps_gaps db db' \<longleftrightarrow> supply_gap db' = supply_gap db \<and> vests_gap db' = vests_gap db \<and> pending_gap db' = pending_gap db"

subsection \<open>How the primitives move the gaps\<close>

named_theorems table_gaps "destruction rules: the effect of a primitive on the gaps"

lemmas gap_defs = supply_gap_def vests_gap_def pending_gap_def bmt_held_def

lemma keeps_gaps_refl [simp]: "keeps_gaps db db"
  by (simp add: keeps_gaps_def)

lemma keeps_gaps_trans: "keeps_gaps db1 db2 \<Longrightarrow> keeps_gaps db2 db3 \<Longrightarrow> keeps_gaps db1 db3"
  by (simp add: keeps_gaps_def)

lemma foldR_keeps_gaps:
  assumes "\<And>x db db'. x \<in> set xs \<Longrightarrow> f x db = Inr db' \<Longrightarrow> keeps_gaps db db'"
    and "foldR f xs db = Inr db'"
  shows "keeps_gaps db db'"
  using assms(2)
proof (rule foldR_inv [where P = "keeps_gaps db", rotated])
  show "keeps_gaps db db" by simp
qed (blast intro: assms(1) keeps_gaps_trans)

lemma modify_account_gaps [table_gaps]:
  "modify_account i m db = Inr db' \<Longrightarrow> \<exists>v v'. map_of (indices (accounts db)) i = Some v \<and> m v = Inr v' \<and>
     supply_gap db' = supply_gap db + bmt_of_account v - bmt_of_account v' \<and>
     vests_gap db' = vests_gap db + vests_of_account v - vests_of_account v' \<and>
     pending_gap db' = pending_gap db + pending_of_account v - pending_of_account v'"
  by (auto simp: modify_account_def res_simps gap_defs row_sum_upd_row elim!: modifyD)

lemma create_account_gaps [table_gaps]:
  "create_account con db = Inr (db', i) \<Longrightarrow> \<exists>v. con i = Inr v \<and>
     supply_gap db' = supply_gap db - bmt_of_account v \<and>
     vests_gap db' = vests_gap db - vests_of_account v \<and>
     pending_gap db' = pending_gap db - pending_of_account v"
  by (auto simp: create_account_def res_simps gap_defs row_sum_ins_row elim!: emplaceD)

lemma remove_account_gaps [table_gaps]:
  "remove_account i db = Inr db' \<Longrightarrow> \<exists>v. map_of (indices (accounts db)) i = Some v \<and>
     supply_gap db' = supply_gap db + bmt_of_account v \<and>
     vests_gap db' = vests_gap db + vests_of_account v \<and>
     pending_gap db' = pending_gap db + pending_of_account v"
  by (auto simp: remove_account_def res_simps gap_defs row_sum_del_row elim!: removeD)

lemma modify_account_authority_gaps [table_gaps]:
  "modify_account_authority i m db = Inr db' \<Longrightarrow> \<exists>v v'. map_of (indices (account_authorities db)) i = Some v \<and> m v = Inr v' \<and>
     supply_gap db' = supply_gap db \<and>
     vests_gap db' = vests_gap db \<and>
     pending_gap db' = pending_gap db"
  by (auto simp: modify_account_authority_def res_simps gap_defs row_sum_upd_row elim!: modifyD)

lemma create_account_authority_gaps [table_gaps]:
  "create_account_authority con db = Inr (db', i) \<Longrightarrow> \<exists>v. con i = Inr v \<and>
     supply_gap db' = supply_gap db \<and>
     vests_gap db' = vests_gap db \<and>
     pending_gap db' = pending_gap db"
  by (auto simp: create_account_authority_def res_simps gap_defs row_sum_ins_row elim!: emplaceD)

lemma remove_account_authority_gaps [table_gaps]:
  "remove_account_authority i db = Inr db' \<Longrightarrow> \<exists>v. map_of (indices (account_authorities db)) i = Some v \<and>
     supply_gap db' = supply_gap db \<and>
     vests_gap db' = vests_gap db \<and>
     pending_gap db' = pending_gap db"
  by (auto simp: remove_account_authority_def res_simps gap_defs row_sum_del_row elim!: removeD)

lemma modify_witness_gaps [table_gaps]:
  "modify_witness i m db = Inr db' \<Longrightarrow> \<exists>v v'. map_of (indices (witnesses db)) i = Some v \<and> m v = Inr v' \<and>
     supply_gap db' = supply_gap db \<and>
     vests_gap db' = vests_gap db \<and>
     pending_gap db' = pending_gap db"
  by (auto simp: modify_witness_def res_simps gap_defs row_sum_upd_row elim!: modifyD)

lemma create_witness_gaps [table_gaps]:
  "create_witness con db = Inr (db', i) \<Longrightarrow> \<exists>v. con i = Inr v \<and>
     supply_gap db' = supply_gap db \<and>
     vests_gap db' = vests_gap db \<and>
     pending_gap db' = pending_gap db"
  by (auto simp: create_witness_def res_simps gap_defs row_sum_ins_row elim!: emplaceD)

lemma remove_witness_gaps [table_gaps]:
  "remove_witness i db = Inr db' \<Longrightarrow> \<exists>v. map_of (indices (witnesses db)) i = Some v \<and>
     supply_gap db' = supply_gap db \<and>
     vests_gap db' = vests_gap db \<and>
     pending_gap db' = pending_gap db"
  by (auto simp: remove_witness_def res_simps gap_defs row_sum_del_row elim!: removeD)

lemma modify_witness_vote_gaps [table_gaps]:
  "modify_witness_vote i m db = Inr db' \<Longrightarrow> \<exists>v v'. map_of (indices (witness_votes db)) i = Some v \<and> m v = Inr v' \<and>
     supply_gap db' = supply_gap db \<and>
     vests_gap db' = vests_gap db \<and>
     pending_gap db' = pending_gap db"
  by (auto simp: modify_witness_vote_def res_simps gap_defs row_sum_upd_row elim!: modifyD)

lemma create_witness_vote_gaps [table_gaps]:
  "create_witness_vote con db = Inr (db', i) \<Longrightarrow> \<exists>v. con i = Inr v \<and>
     supply_gap db' = supply_gap db \<and>
     vests_gap db' = vests_gap db \<and>
     pending_gap db' = pending_gap db"
  by (auto simp: create_witness_vote_def res_simps gap_defs row_sum_ins_row elim!: emplaceD)

lemma remove_witness_vote_gaps [table_gaps]:
  "remove_witness_vote i db = Inr db' \<Longrightarrow> \<exists>v. map_of (indices (witness_votes db)) i = Some v \<and>
     supply_gap db' = supply_gap db \<and>
     vests_gap db' = vests_gap db \<and>
     pending_gap db' = pending_gap db"
  by (auto simp: remove_witness_vote_def res_simps gap_defs row_sum_del_row elim!: removeD)

lemma modify_comment_gaps [table_gaps]:
  "modify_comment i m db = Inr db' \<Longrightarrow> \<exists>v v'. map_of (indices (comments db)) i = Some v \<and> m v = Inr v' \<and>
     supply_gap db' = supply_gap db \<and>
     vests_gap db' = vests_gap db \<and>
     pending_gap db' = pending_gap db"
  by (auto simp: modify_comment_def res_simps gap_defs row_sum_upd_row elim!: modifyD)

lemma create_comment_gaps [table_gaps]:
  "create_comment con db = Inr (db', i) \<Longrightarrow> \<exists>v. con i = Inr v \<and>
     supply_gap db' = supply_gap db \<and>
     vests_gap db' = vests_gap db \<and>
     pending_gap db' = pending_gap db"
  by (auto simp: create_comment_def res_simps gap_defs row_sum_ins_row elim!: emplaceD)

lemma remove_comment_gaps [table_gaps]:
  "remove_comment i db = Inr db' \<Longrightarrow> \<exists>v. map_of (indices (comments db)) i = Some v \<and>
     supply_gap db' = supply_gap db \<and>
     vests_gap db' = vests_gap db \<and>
     pending_gap db' = pending_gap db"
  by (auto simp: remove_comment_def res_simps gap_defs row_sum_del_row elim!: removeD)

lemma modify_comment_vote_gaps [table_gaps]:
  "modify_comment_vote i m db = Inr db' \<Longrightarrow> \<exists>v v'. map_of (indices (comment_votes db)) i = Some v \<and> m v = Inr v' \<and>
     supply_gap db' = supply_gap db \<and>
     vests_gap db' = vests_gap db \<and>
     pending_gap db' = pending_gap db"
  by (auto simp: modify_comment_vote_def res_simps gap_defs row_sum_upd_row elim!: modifyD)

lemma create_comment_vote_gaps [table_gaps]:
  "create_comment_vote con db = Inr (db', i) \<Longrightarrow> \<exists>v. con i = Inr v \<and>
     supply_gap db' = supply_gap db \<and>
     vests_gap db' = vests_gap db \<and>
     pending_gap db' = pending_gap db"
  by (auto simp: create_comment_vote_def res_simps gap_defs row_sum_ins_row elim!: emplaceD)

lemma remove_comment_vote_gaps [table_gaps]:
  "remove_comment_vote i db = Inr db' \<Longrightarrow> \<exists>v. map_of (indices (comment_votes db)) i = Some v \<and>
     supply_gap db' = supply_gap db \<and>
     vests_gap db' = vests_gap db \<and>
     pending_gap db' = pending_gap db"
  by (auto simp: remove_comment_vote_def res_simps gap_defs row_sum_del_row elim!: removeD)

lemma modify_limit_order_gaps [table_gaps]:
  "modify_limit_order i m db = Inr db' \<Longrightarrow> \<exists>v v'. map_of (indices (limit_orders db)) i = Some v \<and> m v = Inr v' \<and>
     supply_gap db' = supply_gap db + bmt_of_limit_order v - bmt_of_limit_order v' \<and>
     vests_gap db' = vests_gap db \<and>
     pending_gap db' = pending_gap db"
  by (auto simp: modify_limit_order_def res_simps gap_defs row_sum_upd_row elim!: modifyD)

lemma create_limit_order_gaps [table_gaps]:
  "create_limit_order con db = Inr (db', i) \<Longrightarrow> \<exists>v. con i = Inr v \<and>
     supply_gap db' = supply_gap db - bmt_of_limit_order v \<and>
     vests_gap db' = vests_gap db \<and>
     pending_gap db' = pending_gap db"
  by (auto simp: create_limit_order_def res_simps gap_defs row_sum_ins_row elim!: emplaceD)

lemma remove_limit_order_gaps [table_gaps]:
  "remove_limit_order i db = Inr db' \<Longrightarrow> \<exists>v. map_of (indices (limit_orders db)) i = Some v \<and>
     supply_gap db' = supply_gap db + bmt_of_limit_order v \<and>
     vests_gap db' = vests_gap db \<and>
     pending_gap db' = pending_gap db"
  by (auto simp: remove_limit_order_def res_simps gap_defs row_sum_del_row elim!: removeD)

lemma modify_convert_request_gaps [table_gaps]:
  "modify_convert_request i m db = Inr db' \<Longrightarrow> \<exists>v v'. map_of (indices (convert_requests db)) i = Some v \<and> m v = Inr v' \<and>
     supply_gap db' = supply_gap db + bmt_of_convert v - bmt_of_convert v' \<and>
     vests_gap db' = vests_gap db \<and>
     pending_gap db' = pending_gap db"
  by (auto simp: modify_convert_request_def res_simps gap_defs row_sum_upd_row elim!: modifyD)

lemma create_convert_request_gaps [table_gaps]:
  "create_convert_request con db = Inr (db', i) \<Longrightarrow> \<exists>v. con i = Inr v \<and>
     supply_gap db' = supply_gap db - bmt_of_convert v \<and>
     vests_gap db' = vests_gap db \<and>
     pending_gap db' = pending_gap db"
  by (auto simp: create_convert_request_def res_simps gap_defs row_sum_ins_row elim!: emplaceD)

lemma remove_convert_request_gaps [table_gaps]:
  "remove_convert_request i db = Inr db' \<Longrightarrow> \<exists>v. map_of (indices (convert_requests db)) i = Some v \<and>
     supply_gap db' = supply_gap db + bmt_of_convert v \<and>
     vests_gap db' = vests_gap db \<and>
     pending_gap db' = pending_gap db"
  by (auto simp: remove_convert_request_def res_simps gap_defs row_sum_del_row elim!: removeD)

lemma modify_escrow_gaps [table_gaps]:
  "modify_escrow i m db = Inr db' \<Longrightarrow> \<exists>v v'. map_of (indices (escrows db)) i = Some v \<and> m v = Inr v' \<and>
     supply_gap db' = supply_gap db + bmt_of_escrow v - bmt_of_escrow v' \<and>
     vests_gap db' = vests_gap db \<and>
     pending_gap db' = pending_gap db"
  by (auto simp: modify_escrow_def res_simps gap_defs row_sum_upd_row elim!: modifyD)

lemma create_escrow_gaps [table_gaps]:
  "create_escrow con db = Inr (db', i) \<Longrightarrow> \<exists>v. con i = Inr v \<and>
     supply_gap db' = supply_gap db - bmt_of_escrow v \<and>
     vests_gap db' = vests_gap db \<and>
     pending_gap db' = pending_gap db"
  by (auto simp: create_escrow_def res_simps gap_defs row_sum_ins_row elim!: emplaceD)

lemma remove_escrow_gaps [table_gaps]:
  "remove_escrow i db = Inr db' \<Longrightarrow> \<exists>v. map_of (indices (escrows db)) i = Some v \<and>
     supply_gap db' = supply_gap db + bmt_of_escrow v \<and>
     vests_gap db' = vests_gap db \<and>
     pending_gap db' = pending_gap db"
  by (auto simp: remove_escrow_def res_simps gap_defs row_sum_del_row elim!: removeD)

lemma modify_savings_withdraw_gaps [table_gaps]:
  "modify_savings_withdraw i m db = Inr db' \<Longrightarrow> \<exists>v v'. map_of (indices (savings_withdraws db)) i = Some v \<and> m v = Inr v' \<and>
     supply_gap db' = supply_gap db + bmt_of_savings_withdraw v - bmt_of_savings_withdraw v' \<and>
     vests_gap db' = vests_gap db \<and>
     pending_gap db' = pending_gap db"
  by (auto simp: modify_savings_withdraw_def res_simps gap_defs row_sum_upd_row elim!: modifyD)

lemma create_savings_withdraw_gaps [table_gaps]:
  "create_savings_withdraw con db = Inr (db', i) \<Longrightarrow> \<exists>v. con i = Inr v \<and>
     supply_gap db' = supply_gap db - bmt_of_savings_withdraw v \<and>
     vests_gap db' = vests_gap db \<and>
     pending_gap db' = pending_gap db"
  by (auto simp: create_savings_withdraw_def res_simps gap_defs row_sum_ins_row elim!: emplaceD)

lemma remove_savings_withdraw_gaps [table_gaps]:
  "remove_savings_withdraw i db = Inr db' \<Longrightarrow> \<exists>v. map_of (indices (savings_withdraws db)) i = Some v \<and>
     supply_gap db' = supply_gap db + bmt_of_savings_withdraw v \<and>
     vests_gap db' = vests_gap db \<and>
     pending_gap db' = pending_gap db"
  by (auto simp: remove_savings_withdraw_def res_simps gap_defs row_sum_del_row elim!: removeD)

lemma modify_withdraw_route_gaps [table_gaps]:
  "modify_withdraw_route i m db = Inr db' \<Longrightarrow> \<exists>v v'. map_of (indices (withdraw_routes db)) i = Some v \<and> m v = Inr v' \<and>
     supply_gap db' = supply_gap db \<and>
     vests_gap db' = vests_gap db \<and>
     pending_gap db' = pending_gap db"
  by (auto simp: modify_withdraw_route_def res_simps gap_defs row_sum_upd_row elim!: modifyD)

lemma create_withdraw_route_gaps [table_gaps]:
  "create_withdraw_route con db = Inr (db', i) \<Longrightarrow> \<exists>v. con i = Inr v \<and>
     supply_gap db' = supply_gap db \<and>
     vests_gap db' = vests_gap db \<and>
     pending_gap db' = pending_gap db"
  by (auto simp: create_withdraw_route_def res_simps gap_defs row_sum_ins_row elim!: emplaceD)

lemma remove_withdraw_route_gaps [table_gaps]:
  "remove_withdraw_route i db = Inr db' \<Longrightarrow> \<exists>v. map_of (indices (withdraw_routes db)) i = Some v \<and>
     supply_gap db' = supply_gap db \<and>
     vests_gap db' = vests_gap db \<and>
     pending_gap db' = pending_gap db"
  by (auto simp: remove_withdraw_route_def res_simps gap_defs row_sum_del_row elim!: removeD)

lemma modify_decline_request_gaps [table_gaps]:
  "modify_decline_request i m db = Inr db' \<Longrightarrow> \<exists>v v'. map_of (indices (decline_requests db)) i = Some v \<and> m v = Inr v' \<and>
     supply_gap db' = supply_gap db \<and>
     vests_gap db' = vests_gap db \<and>
     pending_gap db' = pending_gap db"
  by (auto simp: modify_decline_request_def res_simps gap_defs row_sum_upd_row elim!: modifyD)

lemma create_decline_request_gaps [table_gaps]:
  "create_decline_request con db = Inr (db', i) \<Longrightarrow> \<exists>v. con i = Inr v \<and>
     supply_gap db' = supply_gap db \<and>
     vests_gap db' = vests_gap db \<and>
     pending_gap db' = pending_gap db"
  by (auto simp: create_decline_request_def res_simps gap_defs row_sum_ins_row elim!: emplaceD)

lemma remove_decline_request_gaps [table_gaps]:
  "remove_decline_request i db = Inr db' \<Longrightarrow> \<exists>v. map_of (indices (decline_requests db)) i = Some v \<and>
     supply_gap db' = supply_gap db \<and>
     vests_gap db' = vests_gap db \<and>
     pending_gap db' = pending_gap db"
  by (auto simp: remove_decline_request_def res_simps gap_defs row_sum_del_row elim!: removeD)

lemma modify_recovery_request_gaps [table_gaps]:
  "modify_recovery_request i m db = Inr db' \<Longrightarrow> \<exists>v v'. map_of (indices (recovery_requests db)) i = Some v \<and> m v = Inr v' \<and>
     supply_gap db' = supply_gap db \<and>
     vests_gap db' = vests_gap db \<and>
     pending_gap db' = pending_gap db"
  by (auto simp: modify_recovery_request_def res_simps gap_defs row_sum_upd_row elim!: modifyD)

lemma create_recovery_request_gaps [table_gaps]:
  "create_recovery_request con db = Inr (db', i) \<Longrightarrow> \<exists>v. con i = Inr v \<and>
     supply_gap db' = supply_gap db \<and>
     vests_gap db' = vests_gap db \<and>
     pending_gap db' = pending_gap db"
  by (auto simp: create_recovery_request_def res_simps gap_defs row_sum_ins_row elim!: emplaceD)

lemma remove_recovery_request_gaps [table_gaps]:
  "remove_recovery_request i db = Inr db' \<Longrightarrow> \<exists>v. map_of (indices (recovery_requests db)) i = Some v \<and>
     supply_gap db' = supply_gap db \<and>
     vests_gap db' = vests_gap db \<and>
     pending_gap db' = pending_gap db"
  by (auto simp: remove_recovery_request_def res_simps gap_defs row_sum_del_row elim!: removeD)

lemma modify_change_recovery_gaps [table_gaps]:
  "modify_change_recovery i m db = Inr db' \<Longrightarrow> \<exists>v v'. map_of (indices (change_recovery_requests db)) i = Some v \<and> m v = Inr v' \<and>
     supply_gap db' = supply_gap db \<and>
     vests_gap db' = vests_gap db \<and>
     pending_gap db' = pending_gap db"
  by (auto simp: modify_change_recovery_def res_simps gap_defs row_sum_upd_row elim!: modifyD)

lemma create_change_recovery_gaps [table_gaps]:
  "create_change_recovery con db = Inr (db', i) \<Longrightarrow> \<exists>v. con i = Inr v \<and>
     supply_gap db' = supply_gap db \<and>
     vests_gap db' = vests_gap db \<and>
     pending_gap db' = pending_gap db"
  by (auto simp: create_change_recovery_def res_simps gap_defs row_sum_ins_row elim!: emplaceD)

lemma remove_change_recovery_gaps [table_gaps]:
  "remove_change_recovery i db = Inr db' \<Longrightarrow> \<exists>v. map_of (indices (change_recovery_requests db)) i = Some v \<and>
     supply_gap db' = supply_gap db \<and>
     vests_gap db' = vests_gap db \<and>
     pending_gap db' = pending_gap db"
  by (auto simp: remove_change_recovery_def res_simps gap_defs row_sum_del_row elim!: removeD)

lemma modify_owner_history_gaps [table_gaps]:
  "modify_owner_history i m db = Inr db' \<Longrightarrow> \<exists>v v'. map_of (indices (owner_histories db)) i = Some v \<and> m v = Inr v' \<and>
     supply_gap db' = supply_gap db \<and>
     vests_gap db' = vests_gap db \<and>
     pending_gap db' = pending_gap db"
  by (auto simp: modify_owner_history_def res_simps gap_defs row_sum_upd_row elim!: modifyD)

lemma create_owner_history_gaps [table_gaps]:
  "create_owner_history con db = Inr (db', i) \<Longrightarrow> \<exists>v. con i = Inr v \<and>
     supply_gap db' = supply_gap db \<and>
     vests_gap db' = vests_gap db \<and>
     pending_gap db' = pending_gap db"
  by (auto simp: create_owner_history_def res_simps gap_defs row_sum_ins_row elim!: emplaceD)

lemma remove_owner_history_gaps [table_gaps]:
  "remove_owner_history i db = Inr db' \<Longrightarrow> \<exists>v. map_of (indices (owner_histories db)) i = Some v \<and>
     supply_gap db' = supply_gap db \<and>
     vests_gap db' = vests_gap db \<and>
     pending_gap db' = pending_gap db"
  by (auto simp: remove_owner_history_def res_simps gap_defs row_sum_del_row elim!: removeD)

lemma modify_reward_fund_gaps [table_gaps]:
  "modify_reward_fund i m db = Inr db' \<Longrightarrow> \<exists>v v'. map_of (indices (reward_funds db)) i = Some v \<and> m v = Inr v' \<and>
     supply_gap db' = supply_gap db + bmt_of_reward_fund v - bmt_of_reward_fund v' \<and>
     vests_gap db' = vests_gap db \<and>
     pending_gap db' = pending_gap db"
  by (auto simp: modify_reward_fund_def res_simps gap_defs row_sum_upd_row elim!: modifyD)

lemma create_reward_fund_gaps [table_gaps]:
  "create_reward_fund con db = Inr (db', i) \<Longrightarrow> \<exists>v. con i = Inr v \<and>
     supply_gap db' = supply_gap db - bmt_of_reward_fund v \<and>
     vests_gap db' = vests_gap db \<and>
     pending_gap db' = pending_gap db"
  by (auto simp: create_reward_fund_def res_simps gap_defs row_sum_ins_row elim!: emplaceD)

lemma remove_reward_fund_gaps [table_gaps]:
  "remove_reward_fund i db = Inr db' \<Longrightarrow> \<exists>v. map_of (indices (reward_funds db)) i = Some v \<and>
     supply_gap db' = supply_gap db + bmt_of_reward_fund v \<and>
     vests_gap db' = vests_gap db \<and>
     pending_gap db' = pending_gap db"
  by (auto simp: remove_reward_fund_def res_simps gap_defs row_sum_del_row elim!: removeD)

lemma modify_delegation_gaps [table_gaps]:
  "modify_delegation i m db = Inr db' \<Longrightarrow> \<exists>v v'. map_of (indices (delegations db)) i = Some v \<and> m v = Inr v' \<and>
     supply_gap db' = supply_gap db \<and>
     vests_gap db' = vests_gap db \<and>
     pending_gap db' = pending_gap db"
  by (auto simp: modify_delegation_def res_simps gap_defs row_sum_upd_row elim!: modifyD)

lemma create_delegation_gaps [table_gaps]:
  "create_delegation con db = Inr (db', i) \<Longrightarrow> \<exists>v. con i = Inr v \<and>
     supply_gap db' = supply_gap db \<and>
     vests_gap db' = vests_gap db \<and>
     pending_gap db' = pending_gap db"
  by (auto simp: create_delegation_def res_simps gap_defs row_sum_ins_row elim!: emplaceD)

lemma remove_delegation_gaps [table_gaps]:
  "remove_delegation i db = Inr db' \<Longrightarrow> \<exists>v. map_of (indices (delegations db)) i = Some v \<and>
     supply_gap db' = supply_gap db \<and>
     vests_gap db' = vests_gap db \<and>
     pending_gap db' = pending_gap db"
  by (auto simp: remove_delegation_def res_simps gap_defs row_sum_del_row elim!: removeD)

lemma modify_delegation_expiration_gaps [table_gaps]:
  "modify_delegation_expiration i m db = Inr db' \<Longrightarrow> \<exists>v v'. map_of (indices (delegation_expirations db)) i = Some v \<and> m v = Inr v' \<and>
     supply_gap db' = supply_gap db \<and>
     vests_gap db' = vests_gap db \<and>
     pending_gap db' = pending_gap db"
  by (auto simp: modify_delegation_expiration_def res_simps gap_defs row_sum_upd_row elim!: modifyD)

lemma create_delegation_expiration_gaps [table_gaps]:
  "create_delegation_expiration con db = Inr (db', i) \<Longrightarrow> \<exists>v. con i = Inr v \<and>
     supply_gap db' = supply_gap db \<and>
     vests_gap db' = vests_gap db \<and>
     pending_gap db' = pending_gap db"
  by (auto simp: create_delegation_expiration_def res_simps gap_defs row_sum_ins_row elim!: emplaceD)

lemma remove_delegation_expiration_gaps [table_gaps]:
  "remove_delegation_expiration i db = Inr db' \<Longrightarrow> \<exists>v. map_of (indices (delegation_expirations db)) i = Some v \<and>
     supply_gap db' = supply_gap db \<and>
     vests_gap db' = vests_gap db \<and>
     pending_gap db' = pending_gap db"
  by (auto simp: remove_delegation_expiration_def res_simps gap_defs row_sum_del_row elim!: removeD)

lemma modify_content_order_gaps [table_gaps]:
  "modify_content_order i m db = Inr db' \<Longrightarrow> \<exists>v v'. map_of (indices (content_orders db)) i = Some v \<and> m v = Inr v' \<and>
     supply_gap db' = supply_gap db + bmt_of_content_order v - bmt_of_content_order v' \<and>
     vests_gap db' = vests_gap db \<and>
     pending_gap db' = pending_gap db"
  by (auto simp: modify_content_order_def res_simps gap_defs row_sum_upd_row elim!: modifyD)

lemma create_content_order_gaps [table_gaps]:
  "create_content_order con db = Inr (db', i) \<Longrightarrow> \<exists>v. con i = Inr v \<and>
     supply_gap db' = supply_gap db - bmt_of_content_order v \<and>
     vests_gap db' = vests_gap db \<and>
     pending_gap db' = pending_gap db"
  by (auto simp: create_content_order_def res_simps gap_defs row_sum_ins_row elim!: emplaceD)

lemma remove_content_order_gaps [table_gaps]:
  "remove_content_order i db = Inr db' \<Longrightarrow> \<exists>v. map_of (indices (content_orders db)) i = Some v \<and>
     supply_gap db' = supply_gap db + bmt_of_content_order v \<and>
     vests_gap db' = vests_gap db \<and>
     pending_gap db' = pending_gap db"
  by (auto simp: remove_content_order_def res_simps gap_defs row_sum_del_row elim!: removeD)

lemma modify_custom_token_gaps [table_gaps]:
  "modify_custom_token i m db = Inr db' \<Longrightarrow> \<exists>v v'. map_of (indices (custom_tokens db)) i = Some v \<and> m v = Inr v' \<and>
     supply_gap db' = supply_gap db \<and>
     vests_gap db' = vests_gap db \<and>
     pending_gap db' = pending_gap db"
  by (auto simp: modify_custom_token_def res_simps gap_defs row_sum_upd_row elim!: modifyD)

lemma create_custom_token_gaps [table_gaps]:
  "create_custom_token con db = Inr (db', i) \<Longrightarrow> \<exists>v. con i = Inr v \<and>
     supply_gap db' = supply_gap db \<and>
     vests_gap db' = vests_gap db \<and>
     pending_gap db' = pending_gap db"
  by (auto simp: create_custom_token_def res_simps gap_defs row_sum_ins_row elim!: emplaceD)

lemma remove_custom_token_gaps [table_gaps]:
  "remove_custom_token i db = Inr db' \<Longrightarrow> \<exists>v. map_of (indices (custom_tokens db)) i = Some v \<and>
     supply_gap db' = supply_gap db \<and>
     vests_gap db' = vests_gap db \<and>
     pending_gap db' = pending_gap db"
  by (auto simp: remove_custom_token_def res_simps gap_defs row_sum_del_row elim!: removeD)

lemma modify_account_balance_gaps [table_gaps]:
  "modify_account_balance i m db = Inr db' \<Longrightarrow> \<exists>v v'. map_of (indices (account_balances db)) i = Some v \<and> m v = Inr v' \<and>
     supply_gap db' = supply_gap db \<and>
     vests_gap db' = vests_gap db \<and>
     pending_gap db' = pending_gap db"
  by (auto simp: modify_account_balance_def res_simps gap_defs row_sum_upd_row elim!: modifyD)

lemma create_account_balance_gaps [table_gaps]:
  "create_account_balance con db = Inr (db', i) \<Longrightarrow> \<exists>v. con i = Inr v \<and>
     supply_gap db' = supply_gap db \<and>
     vests_gap db' = vests_gap db \<and>
     pending_gap db' = pending_gap db"
  by (auto simp: create_account_balance_def res_simps gap_defs row_sum_ins_row elim!: emplaceD)

lemma remove_account_balance_gaps [table_gaps]:
  "remove_account_balance i db = Inr db' \<Longrightarrow> \<exists>v. map_of (indices (account_balances db)) i = Some v \<and>
     supply_gap db' = supply_gap db \<and>
     vests_gap db' = vests_gap db \<and>
     pending_gap db' = pending_gap db"
  by (auto simp: remove_account_balance_def res_simps gap_defs row_sum_del_row elim!: removeD)

lemma modify_transaction_gaps [table_gaps]:
  "modify_transaction i m db = Inr db' \<Longrightarrow> \<exists>v v'. map_of (indices (transactions db)) i = Some v \<and> m v = Inr v' \<and>
     supply_gap db' = supply_gap db \<and>
     vests_gap db' = vests_gap db \<and>
     pending_gap db' = pending_gap db"
  by (auto simp: modify_transaction_def res_simps gap_defs row_sum_upd_row elim!: modifyD)

lemma create_transaction_gaps [table_gaps]:
  "create_transaction con db = Inr (db', i) \<Longrightarrow> \<exists>v. con i = Inr v \<and>
     supply_gap db' = supply_gap db \<and>
     vests_gap db' = vests_gap db \<and>
     pending_gap db' = pending_gap db"
  by (auto simp: create_transaction_def res_simps gap_defs row_sum_ins_row elim!: emplaceD)

lemma remove_transaction_gaps [table_gaps]:
  "remove_transaction i db = Inr db' \<Longrightarrow> \<exists>v. map_of (indices (transactions db)) i = Some v \<and>
     supply_gap db' = supply_gap db \<and>
     vests_gap db' = vests_gap db \<and>
     pending_gap db' = pending_gap db"
  by (auto simp: remove_transaction_def res_simps gap_defs row_sum_del_row elim!: removeD)

lemma modify_block_summary_gaps [table_gaps]:
  "modify_block_summary i m db = Inr db' \<Longrightarrow> \<exists>v v'. map_of (indices (block_summaries db)) i = Some v \<and> m v = Inr v' \<and>
     supply_gap db' = supply_gap db \<and>
     vests_gap db' = vests_gap db \<and>
     pending_gap db' = pending_gap db"
  by (auto simp: modify_block_summary_def res_simps gap_defs row_sum_upd_row elim!: modifyD)

lemma create_block_summary_gaps [table_gaps]:
  "create_block_summary con db = Inr (db', i) \<Longrightarrow> \<exists>v. con i = Inr v \<and>
     supply_gap db' = supply_gap db \<and>
     vests_gap db' = vests_gap db \<and>
     pending_gap db' = pending_gap db"
  by (auto simp: create_block_summary_def res_simps gap_defs row_sum_ins_row elim!: emplaceD)

lemma remove_block_summary_gaps [table_gaps]:
  "remove_block_summary i db = Inr db' \<Longrightarrow> \<exists>v. map_of (indices (block_summaries db)) i = Some v \<and>
     supply_gap db' = supply_gap db \<and>
     vests_gap db' = vests_gap db \<and>
     pending_gap db' = pending_gap db"
  by (auto simp: remove_block_summary_def res_simps gap_defs row_sum_del_row elim!: removeD)

lemma modify_dgpo_gaps [table_gaps]:
  "modify_dgpo m db = Inr db' \<Longrightarrow> \<exists>g'. m (dgpo db) = Inr g' \<and>
     supply_gap db' = supply_gap db + amount (g_current_supply g') - amount (g_current_supply (dgpo db)) +
       bmt_of_dgpo (dgpo db) - bmt_of_dgpo g' \<and>
     vests_gap db' = vests_gap db + amount (g_total_vesting_shares g') - amount (g_total_vesting_shares (dgpo db)) +
       amount (g_pending_rewarded_vesting_shares g') - amount (g_pending_rewarded_vesting_shares (dgpo db)) \<and>
     pending_gap db' = pending_gap db + amount (g_pending_rewarded_vesting_bmt g') -
       amount (g_pending_rewarded_vesting_bmt (dgpo db))"
  by (auto simp: modify_dgpo_def res_simps gap_defs)

lemma modify_wso_gaps [table_gaps]: "modify_wso m db = Inr db' \<Longrightarrow> keeps_gaps db db'"
  by (auto simp: modify_wso_def res_simps gap_defs keeps_gaps_def)

lemma modify_hfo_gaps [table_gaps]: "modify_hfo m db = Inr db' \<Longrightarrow> keeps_gaps db db'"
  by (auto simp: modify_hfo_def res_simps gap_defs keeps_gaps_def)

end
