(* ===== verification/Reward.thy ===== *)
theory Reward
  imports Objects
begin

unbundle bit_operations_syntax

text \<open>
  \<open>libraries/chain/util/reward.cpp\<close>: the reward curves and the share of the reward fund a
  comment receives. \<open>uint128_t\<close> values are 128-bit words and \<open>uint64_t\<close> values 64-bit words;
  \<open>u256\<close> is Boost's 256-bit integer. The lemmas show that \<open>approx_sqrt\<close>, which shifts the
  mantissa under the halved exponent, stays within known bounds of the square root, and
  that a payout is the rounded share of the fund.
\<close>

definition u128_lo :: "128 word \<Rightarrow> 64 word" where
  "u128_lo u = ucast u"

definition u128_hi :: "128 word \<Rightarrow> 64 word" where
  "u128_hi u = ucast (drop_bit 64 u)"

text \<open>The position of the highest set bit of a non-zero 64-bit value (Boost's \<open>find_msb\<close>).\<close>

fun msb64 :: "nat \<Rightarrow> nat" where
  "msb64 n = (if n \<le> 1 then 0 else Suc (msb64 (n div 2)))"

declare msb64.simps [simp del]

definition find_msb :: "128 word \<Rightarrow> nat" where
  "find_msb u =
     (let x = (if u128_lo u \<noteq> 0 then u128_lo u else 1);
          places = (if u128_hi u \<noteq> 0 then 64 else 0);
          x1 = (if u128_hi u \<noteq> 0 then u128_hi u else x)
      in msb64 (unat x1) + places)"

definition approx_sqrt :: "128 word \<Rightarrow> 64 word" where
  "approx_sqrt x =
     (if u128_lo x = 0 \<and> u128_hi x = 0 then 0
      else
        let msb_x = find_msb x;
            msb_z = msb_x div 2;
            msb_x_bit = push_bit msb_x (1 :: 128 word);
            msb_z_bit = push_bit msb_z (1 :: 64 word);
            mantissa_mask = msb_x_bit - 1;
            mantissa_x = x AND mantissa_mask;
            mantissa_z_hi = (if odd msb_x then msb_z_bit else 0);
            mantissa_z_lo = u128_lo (drop_bit (msb_x - msb_z) mantissa_x);
            mantissa_z = drop_bit 1 (mantissa_z_hi OR mantissa_z_lo)
        in msb_z_bit OR mantissa_z)"

definition evaluate_reward_curve :: "fc_lib \<Rightarrow> 128 word \<Rightarrow> curve_id \<Rightarrow> 128 word \<Rightarrow> exn + 128 word" where
  "evaluate_reward_curve fc rshares curve content_constant =
     (case curve of
        quadratic \<Rightarrow> Inr (rshares * rshares)
      | quadratic_curation \<Rightarrow>
          (let two_alpha = content_constant * 2 in
           if two_alpha + rshares = 0 then Inl (Other_exception ''divide by zero'')
           else Inr (push_bit 64 (ucast (u128_lo rshares)) div (two_alpha + rshares)))
      | linear \<Rightarrow> Inr rshares
      | square_root \<Rightarrow> Inr (ucast (approx_sqrt rshares))
      | power17_curve \<Rightarrow>
          (let result = rshares * rshares in
           if u128_hi result = 0 then
             bindR (u128_to_u64 fc rshares) (\<lambda>r64. Inr (word_of_nat (pow17 fc r64)))
           else Inr result))"

record comment_reward_context =
  ctx_rshares :: int
  ctx_reward_weight :: nat
  ctx_total_reward_shares2 :: "128 word"
  ctx_total_reward_fund_bmt :: asset
  ctx_reward_curve :: curve_id
  ctx_content_constant :: "128 word"

definition is_comment_payout_dust :: "fc_lib \<Rightarrow> nat \<Rightarrow> exn + bool" where
  "is_comment_payout_dust fc payout = asset_lt (bmt (safe_of_u64 fc payout)) (bmt MIN_PAYOUT)"

definition get_rshare_reward :: "fc_lib \<Rightarrow> comment_reward_context \<Rightarrow> exn + nat" where
  "get_rshare_reward fc ctx =
     bindR (assertR (ctx_rshares ctx > 0) ''ctx.rshares > 0'') (\<lambda>_.
     bindR (assertR (ctx_total_reward_shares2 ctx > 0) ''ctx.total_reward_shares2 > 0'') (\<lambda>_.
     let rf = (word_of_int (amount (ctx_total_reward_fund_bmt ctx)) :: 256 word);
         total_claims = (ucast (ctx_total_reward_shares2 ctx) :: 256 word) in
     bindR (evaluate_reward_curve fc (u128_of_int fc (ctx_rshares ctx)) (ctx_reward_curve ctx) (ctx_content_constant ctx)) (\<lambda>c.
     let claim = ((ucast c :: 256 word) * word_of_nat (ctx_reward_weight ctx)) div word_of_int PERCENT_100;
         payout = (rf * claim) div total_claims in
     bindR (assertR (payout \<le> 2 ^ 63 - 1) ''payout_u256 <= int64 max'') (\<lambda>_.
     bindR (is_comment_payout_dust fc (unat payout)) (\<lambda>dust.
     Inr (if dust then 0 else unat payout))))))"

subsection \<open>The approximate square root\<close>

lemma msb64_bounds: "0 < n \<Longrightarrow> 2 ^ msb64 n \<le> n \<and> n < 2 * 2 ^ msb64 n"
proof (induction n rule: msb64.induct)
  case (1 n)
  show ?case
  proof (cases "n \<le> 1")
    case True
    with 1(2) show ?thesis by (simp add: msb64.simps [of n])
  next
    case False
    then have "2 ^ msb64 (n div 2) \<le> n div 2 \<and> n div 2 < 2 * 2 ^ msb64 (n div 2)"
      by (intro "1.IH") auto
    with False show ?thesis by (auto simp: msb64.simps [of n])
  qed
qed

lemma unat_less_64: "unat (w :: 64 word) < 2 ^ 64"
  using unsigned_less [of w] by simp

lemma unat_less_128: "unat (w :: 128 word) < 2 ^ 128"
  using unsigned_less [of w] by simp

lemma u128_split: "unat u = unat (u128_hi u) * 2 ^ 64 + unat (u128_lo u)"
proof -
  have hi: "unat (u128_hi u) = unat u div 2 ^ 64"
  proof -
    have "unat u div 2 ^ 64 < 2 ^ 64"
      using unat_less_128 [of u] by (simp add: less_mult_imp_div_less)
    then show ?thesis
      by (simp add: u128_hi_def unsigned_ucast_eq unsigned_take_bit_eq unsigned_drop_bit_eq take_bit_eq_mod drop_bit_eq_div unat_div)
  qed
  have "unat (u128_lo u) = unat u mod 2 ^ 64"
    by (simp add: u128_lo_def unsigned_ucast_eq unsigned_take_bit_eq take_bit_eq_mod)
  with hi show ?thesis by (simp add: div_mult_mod_eq)
qed

lemma find_msb_bounds:
  assumes "x \<noteq> 0"
  shows "2 ^ find_msb x \<le> unat x \<and> unat x < 2 * 2 ^ find_msb x"
proof (cases "u128_hi x = 0")
  case True
  then have eq: "unat x = unat (u128_lo x)" using u128_split [of x] by simp
  then have "u128_lo x \<noteq> 0" using assms by (metis unat_eq_zero)
  with True eq msb64_bounds [of "unat (u128_lo x)"] show ?thesis
    by (simp add: find_msb_def Let_def unat_gt_0)
next
  case False
  then have b: "2 ^ msb64 (unat (u128_hi x)) \<le> unat (u128_hi x)"
    "unat (u128_hi x) + 1 \<le> 2 * 2 ^ msb64 (unat (u128_hi x))"
    using msb64_bounds [of "unat (u128_hi x)"] by (auto simp: unat_gt_0)
  have lo: "unat (u128_lo x) < 2 ^ 64" using unat_less_64 [of "u128_lo x"] by simp
  have m: "find_msb x = msb64 (unat (u128_hi x)) + 64" using False by (simp add: find_msb_def Let_def)
  have "2 ^ find_msb x \<le> unat (u128_hi x) * 2 ^ 64"
    using b(1) by (simp add: m power_add)
  moreover have "(unat (u128_hi x) + 1) * 2 ^ 64 \<le> 2 * 2 ^ find_msb x"
    using b(2) by (simp add: m power_add)
  ultimately show ?thesis using u128_split [of x] lo by simp
qed

lemma or_exp:
  fixes a :: "64 word"
  assumes "z < 64" and "unat a < 2 ^ z"
  shows "unat (push_bit z 1 OR a) = 2 ^ z + unat a"
proof -
  have nb: "\<not> bit a z"
  proof -
    have "bit (unat a) z = bit a z" by (simp add: bit_unsigned_iff bit_imp_le_length)
    then show ?thesis using assms(2) by (simp add: bit_iff_odd)
  qed
  have "push_bit z 1 + a = push_bit z 1 OR a"
    using nb by (intro disjunctive_add) (auto simp: bit_simps)
  then have "unat (push_bit z 1 OR a) = unat (push_bit z 1 + a)" by simp
  moreover have "unat (push_bit z (1 :: 64 word)) = 2 ^ z"
  proof -
    have "2 ^ z < (2 ^ 64 :: nat)" using assms(1) by (intro power_strict_increasing) auto
    then show ?thesis
      using unsigned_push_bit_eq [of z "1 :: 64 word", where 'a = nat]
      by (simp add: push_bit_eq_mult take_bit_eq_mod)
  qed
  moreover have "2 ^ z + unat a < 2 ^ 64"
  proof -
    have "2 ^ z + unat a < 2 ^ z + 2 ^ z" using assms(2) by simp
    also have "\<dots> = 2 ^ Suc z" by simp
    also have "\<dots> \<le> (2 ^ 64 :: nat)" using assms(1) by (intro power_increasing) auto
    finally show ?thesis .
  qed
  ultimately show ?thesis by (simp add: unat_word_ariths)
qed

lemma find_msb_less: "x \<noteq> 0 \<Longrightarrow> find_msb x < 128"
proof (rule ccontr)
  assume "x \<noteq> 0" and "\<not> find_msb x < 128"
  then have "(2 :: nat) ^ 128 \<le> 2 ^ find_msb x" by (intro power_increasing) auto
  with find_msb_bounds [OF \<open>x \<noteq> 0\<close>] unat_less_128 [of x] show False by simp
qed

text \<open>The value of the approximation: exponent halved, mantissa moved under it.\<close>

lemma approx_sqrt_value:
  assumes "x \<noteq> 0" and m: "m = find_msb x" and z: "z = m div 2" and k: "k = unat x - 2 ^ m"
  shows "unat (approx_sqrt x) = 2 ^ z + ((if odd m then 2 ^ z else 0) + k div 2 ^ (m - z)) div 2"
proof -
  have mb: "2 ^ m \<le> unat x" "unat x < 2 * 2 ^ m" "m < 128"
    using find_msb_bounds [OF assms(1)] find_msb_less [OF assms(1)] by (auto simp: m)
  have z64: "z < 64" using mb(3) z by simp
  define mant where "mant = x AND (push_bit m 1 - 1)"
  have "mant = take_bit m x"
    unfolding mant_def by (simp add: take_bit_eq_mask mask_eq_exp_minus_1 push_bit_eq_mult)
  then have "unat mant = take_bit m (unat x)" by (simp only: unsigned_take_bit_eq)
  also have "\<dots> = unat x mod 2 ^ m" by (rule take_bit_eq_mod)
  also have "\<dots> = k" using mb k by (simp add: le_mod_geq)
  finally have mant: "unat mant = k" .
  have klt: "k < 2 ^ m" using mb k by simp
  define lo where "lo = u128_lo (drop_bit (m - z) mant)"
  have kd: "k div 2 ^ (m - z) < 2 ^ z"
    using klt z by (simp add: less_mult_imp_div_less flip: power_add)
  have zle: "(2 :: nat) ^ z \<le> 2 ^ 63" using z64 by (intro power_increasing) auto
  have "unat (drop_bit (m - z) mant) = k div 2 ^ (m - z)"
    unfolding unat_drop_bit_eq mant by (rule drop_bit_eq_div)
  then have lo: "unat lo = k div 2 ^ (m - z)"
    unfolding lo_def u128_lo_def unsigned_ucast_eq
    using kd zle by (simp add: unsigned_take_bit_eq take_bit_eq_mod del: drop_bit_eq_div)
  define hl where "hl = (if odd m then push_bit z 1 else 0) OR lo"
  have hl: "unat hl = (if odd m then 2 ^ z else 0) + k div 2 ^ (m - z)"
    using or_exp [OF z64, of lo] kd lo by (simp add: hl_def)
  have d1: "unat (drop_bit 1 hl) = unat hl div 2"
    unfolding unat_drop_bit_eq using drop_bit_eq_div [of 1 "unat hl"] by simp
  have half: "unat (drop_bit 1 hl) < 2 ^ z"
    unfolding d1 using kd hl by auto
  have nz: "\<not> (u128_lo x = 0 \<and> u128_hi x = 0)"
    using assms(1) u128_split [of x] by (metis add_0 mult_zero_left unat_0 unat_eq_zero)
  have "unat (approx_sqrt x) = unat (push_bit z 1 OR drop_bit 1 hl)"
    using nz
    by (auto simp: approx_sqrt_def Let_def m [symmetric] z [symmetric] mant_def lo_def hl_def)
  also have "\<dots> = 2 ^ z + unat hl div 2"
    using or_exp [OF z64 half] unfolding d1 .
  finally show ?thesis by (simp add: hl)
qed

lemma even_upper: "8 * (2 * a + k)\<^sup>2 \<le> 9 * (a + k) * (4 * a)" if "k \<le> a" for a k :: nat
proof -
  have "k * k \<le> a * a" "k * k \<le> a * k" using that by (auto intro: mult_le_mono)
  moreover have "8 * (2 * a + k)\<^sup>2 = 32 * (a * a) + 32 * (a * k) + 8 * (k * k)"
    "9 * (a + k) * (4 * a) = 36 * (a * a) + 36 * (a * k)"
    by (simp_all add: power2_eq_square algebra_simps)
  ultimately show ?thesis by linarith
qed

lemma odd_upper: "8 * (6 * a + k)\<^sup>2 \<le> 9 * (2 * a + k) * (16 * a)" if "k \<le> 2 * a" for a k :: nat
proof -
  have "k * k \<le> (2 * a) * k" using that by (intro mult_le_mono) auto
  then have "k * k \<le> 2 * (a * k)" by simp
  moreover have "8 * (6 * a + k)\<^sup>2 = 288 * (a * a) + 96 * (a * k) + 8 * (k * k)"
    "9 * (2 * a + k) * (16 * a) = 288 * (a * a) + 144 * (a * k)"
    by (simp_all add: power2_eq_square algebra_simps)
  ultimately show ?thesis by linarith
qed

text \<open>The two arithmetic facts behind the bounds, with \<open>A = 4 ^ z\<close>.\<close>

lemma even_bounds:
  fixes r k p :: nat
  assumes "k < p * p" and "r = p + k div (2 * p)" and "0 < p"
  shows "8 * r\<^sup>2 \<le> 9 * (p * p + k) \<and> p * p + k < (r + 1)\<^sup>2"
proof -
  let ?A = "p * p"
  have le: "r * (2 * p) \<le> 2 * ?A + k"
    unfolding assms(2) by (simp add: distrib_right)
  have gt: "2 * ?A + k < (r + 1) * (2 * p)"
  proof -
    have "k < (k div (2 * p) + 1) * (2 * p)"
      using assms(3) dividend_less_div_times [of "2 * p" k] by (simp add: algebra_simps)
    then show ?thesis unfolding assms(2) by (simp add: algebra_simps)
  qed
  have "8 * (r * (2 * p))\<^sup>2 \<le> 8 * (2 * ?A + k)\<^sup>2"
    using le by (simp add: power_mono)
  also have "\<dots> \<le> 9 * (?A + k) * (4 * ?A)"
    using assms(1) by (intro even_upper) simp
  finally have "8 * r\<^sup>2 * (4 * ?A) \<le> 9 * (?A + k) * (4 * ?A)"
    by (simp add: power2_eq_square algebra_simps)
  then have up: "8 * r\<^sup>2 \<le> 9 * (?A + k)" using assms(3) by simp
  have "(?A + k) * (4 * ?A) \<le> (2 * ?A + k)\<^sup>2"
    by (simp add: power2_eq_square algebra_simps)
  also have "\<dots> < ((r + 1) * (2 * p))\<^sup>2"
    using gt by (intro power_strict_mono) auto
  finally have "(?A + k) * (4 * ?A) < (r + 1)\<^sup>2 * (4 * ?A)"
    by (simp add: power2_eq_square algebra_simps)
  with up show ?thesis by simp
qed

lemma odd_bounds:
  fixes r k p :: nat
  assumes "k < 2 * (p * p)" and "r = p + (2 * (p * p) + k) div (4 * p)" and "0 < p"
  shows "8 * r\<^sup>2 \<le> 9 * (2 * (p * p) + k) \<and> 2 * (p * p) + k < (r + 1)\<^sup>2"
proof -
  let ?A = "p * p"
  let ?q = "(2 * ?A + k) div (4 * p)"
  have le: "r * (4 * p) \<le> 6 * ?A + k"
  proof -
    have "?q * (4 * p) \<le> 2 * ?A + k" by simp
    then show ?thesis unfolding assms(2) by (simp add: algebra_simps)
  qed
  have gt: "6 * ?A + k < (r + 1) * (4 * p)"
  proof -
    have "2 * ?A + k < (?q + 1) * (4 * p)"
      using assms(3) dividend_less_div_times [of "4 * p" "2 * ?A + k"] by (simp add: algebra_simps)
    then show ?thesis unfolding assms(2) by (simp add: algebra_simps)
  qed
  have "8 * (r * (4 * p))\<^sup>2 \<le> 8 * (6 * ?A + k)\<^sup>2"
    using le by (simp add: power_mono)
  also have "\<dots> \<le> 9 * (2 * ?A + k) * (16 * ?A)"
    using assms(1) by (intro odd_upper) simp
  finally have "8 * r\<^sup>2 * (16 * ?A) \<le> 9 * (2 * ?A + k) * (16 * ?A)"
    by (simp add: power2_eq_square algebra_simps)
  then have up: "8 * r\<^sup>2 \<le> 9 * (2 * ?A + k)" using assms(3) by simp
  have sq: "(2 * ?A + k) * (16 * ?A) \<le> (6 * ?A + k)\<^sup>2"
  proof -
    have "4 * (?A * k) \<le> 4 * (?A * ?A) + k * k"
      using zero_le_power2 [of "2 * int ?A - int k"]
      by (simp add: power2_eq_square algebra_simps flip: of_nat_mult of_nat_add)
    then show ?thesis by (simp add: power2_eq_square algebra_simps)
  qed
  also have "(6 * ?A + k)\<^sup>2 < ((r + 1) * (4 * p))\<^sup>2"
    using gt by (intro power_strict_mono) auto
  finally have "(2 * ?A + k) * (16 * ?A) < (r + 1)\<^sup>2 * (16 * ?A)"
    by (simp add: power2_eq_square algebra_simps)
  with up show ?thesis by simp
qed

lemma approx_sqrt_bounds:
  assumes "x \<noteq> 0"
  shows "8 * (unat (approx_sqrt x))\<^sup>2 \<le> 9 * unat x \<and> unat x < (unat (approx_sqrt x) + 1)\<^sup>2"
proof -
  define m z k where "m = find_msb x" and "z = m div 2" and "k = unat x - 2 ^ m"
  define p :: nat where "p = 2 ^ z"
  have mb: "2 ^ m \<le> unat x" "unat x < 2 * 2 ^ m"
    using find_msb_bounds [OF assms] by (auto simp: m_def)
  then have x: "unat x = 2 ^ m + k" "k < 2 ^ m" by (auto simp: k_def)
  have p: "0 < p" by (simp add: p_def)
  note r = approx_sqrt_value [OF assms m_def z_def k_def]
  show ?thesis
  proof (cases "odd m")
    case False
    then have m: "m = 2 * z" by (simp add: z_def)
    have pp: "2 ^ m = p * p" by (simp add: m p_def mult_2 power_add)
    have "k div 2 ^ (m - z) div 2 = k div (2 * p)"
      by (simp add: m p_def div_mult2_eq [symmetric] mult.commute)
    then have "unat (approx_sqrt x) = p + k div (2 * p)" using r False by (simp add: p_def)
    from even_bounds [OF _ this p] x show ?thesis by (simp add: pp)
  next
    case True
    then have m: "m = 2 * z + 1" by (simp add: z_def)
    have pp: "2 ^ m = 2 * (p * p)" by (simp add: m p_def mult_2 power_add)
    have "(p + k div 2 ^ (m - z)) div 2 = (2 * (p * p) + k) div (4 * p)"
    proof -
      have "p + k div (2 * p) = (p * (2 * p) + k) div (2 * p)" using p by simp
      then have "(p + k div (2 * p)) div 2 = (p * (2 * p) + k) div (2 * p * 2)"
        by (simp only: div_mult2_eq)
      moreover have "m - z = Suc z" by (simp add: m)
      ultimately show ?thesis by (simp add: p_def mult.commute mult.left_commute)
    qed
    then have "unat (approx_sqrt x) = p + (2 * (p * p) + k) div (4 * p)" using r True by (simp add: p_def)
    from odd_bounds [OF _ this p] x show ?thesis by (simp add: pp)
  qed
qed

text \<open>
  The approximate square root. For every non-zero 128-bit \<open>x\<close> the result \<open>r\<close> of
  \<open>approx_sqrt\<close> satisfies \<open>x < (r + 1)\<^sup>2\<close> and \<open>8 r\<^sup>2 \<le> 9 x\<close>: it is never a whole unit below
  the true root and at most about six per cent above it.
\<close>

theorem approx_sqrt_within:
  assumes "x \<noteq> 0"
  shows "unat x < (unat (approx_sqrt x) + 1)\<^sup>2 \<and> 8 * (unat (approx_sqrt x))\<^sup>2 \<le> 9 * unat x"
  using approx_sqrt_bounds [OF assms] by auto

theorem approx_sqrt_within_witness:
  "8 * (unat (approx_sqrt 1000000))\<^sup>2 \<le> 9 * unat (1000000 :: 128 word)"
  using approx_sqrt_within [of 1000000] by simp

text \<open>
  The curve with exponent 1.7. From 2^32 on its square no longer fits 64 bits and the
  curve returns the square itself: the value of the curve is \<open>rshares * rshares\<close> for every
  64-bit \<open>rshares\<close> that is at least 2^32.
\<close>

theorem power17_is_quadratic_above:
  assumes "2 ^ 32 \<le> unat rshares" and "unat rshares < 2 ^ 64"
  shows "evaluate_reward_curve fc rshares power17_curve cc = Inr (rshares * rshares) \<and>
     unat (rshares * rshares) = unat rshares * unat rshares"
proof -
  have "unat rshares * unat rshares < 2 ^ 64 * 2 ^ 64"
    using assms(2) by (intro mult_strict_mono) auto
  then have sq: "unat (rshares * rshares) = unat rshares * unat rshares"
    by (simp add: unat_word_ariths)
  have "(2 ^ 32 * 2 ^ 32 :: nat) \<le> unat rshares * unat rshares"
    using assms(1) by (intro mult_le_mono) auto
  then have "2 ^ 64 \<le> unat (rshares * rshares)" using sq by simp
  then have "u128_hi (rshares * rshares) \<noteq> 0"
    using u128_split [of "rshares * rshares"] unat_less_64 [of "u128_lo (rshares * rshares)"] by auto
  with sq show ?thesis by (simp add: evaluate_reward_curve_def Let_def)
qed

theorem power17_is_quadratic_above_witness:
  "evaluate_reward_curve fc64 4294967296 power17_curve 0 = Inr 18446744073709551616"
  using power17_is_quadratic_above [of 4294967296 fc64 0] by simp

end
