(* ===== verification/Ledger.thy ===== *)
theory Ledger
  imports Database Reward
begin

text \<open>
  The part of \<open>libraries/chain/database.cpp\<close> every operation goes through: lookup of
  objects by their keys, the adjustments of balances and of the supply, the creation of
  vesting shares, the votes behind witnesses, and the check of all invariants. A reference
  to an object is its id, read again from the database after each change. A virtual
  operation only notifies plugins and is left out.

  The facts \<open>ledger_gaps\<close> give the effect of each of these on the supply gaps. The last
  property shows that the run-time check \<open>validate_invariants\<close> is the statement that all
  gaps are zero.
\<close>

subsection \<open>Lookup\<close>

definition find_account :: "account_name \<Rightarrow> database \<Rightarrow> (oid \<times> account_object) option" where
  "find_account n db = find_by (\<lambda>a. a_name a = n) (accounts db)"

definition get_account :: "account_name \<Rightarrow> database \<Rightarrow> exn + (oid \<times> account_object)" where
  "get_account n db = get_by (\<lambda>a. a_name a = n) (accounts db)"

definition find_witness :: "account_name \<Rightarrow> database \<Rightarrow> (oid \<times> witness_object) option" where
  "find_witness n db = find_by (\<lambda>w. w_owner w = n) (witnesses db)"

definition get_witness :: "account_name \<Rightarrow> database \<Rightarrow> exn + (oid \<times> witness_object)" where
  "get_witness n db = get_by (\<lambda>w. w_owner w = n) (witnesses db)"

definition comment_key :: "account_name \<Rightarrow> string \<Rightarrow> comment_object \<Rightarrow> bool" where
  "comment_key author permlink c \<longleftrightarrow> c_author c = author \<and> c_str (c_permlink c) = c_str permlink"

definition find_comment :: "account_name \<Rightarrow> string \<Rightarrow> database \<Rightarrow> (oid \<times> comment_object) option" where
  "find_comment author permlink db = find_by (comment_key author permlink) (comments db)"

definition get_comment :: "account_name \<Rightarrow> string \<Rightarrow> database \<Rightarrow> exn + (oid \<times> comment_object)" where
  "get_comment author permlink db = get_by (comment_key author permlink) (comments db)"

definition get_escrow :: "account_name \<Rightarrow> nat \<Rightarrow> database \<Rightarrow> exn + (oid \<times> escrow_object)" where
  "get_escrow n k db = get_by (\<lambda>e. e_from e = n \<and> e_escrow_id e = k) (escrows db)"

definition find_escrow :: "account_name \<Rightarrow> nat \<Rightarrow> database \<Rightarrow> (oid \<times> escrow_object) option" where
  "find_escrow n k db = find_by (\<lambda>e. e_from e = n \<and> e_escrow_id e = k) (escrows db)"

text \<open>Limit orders are looked up by the low 16 bits of the order id.\<close>

definition get_limit_order :: "account_name \<Rightarrow> nat \<Rightarrow> database \<Rightarrow> exn + (oid \<times> limit_order_object)" where
  "get_limit_order n k db =
     get_by (\<lambda>lo. lo_seller lo = n \<and> lo_orderid lo = k mod 65536) (limit_orders db)"

definition find_limit_order :: "account_name \<Rightarrow> nat \<Rightarrow> database \<Rightarrow> (oid \<times> limit_order_object) option" where
  "find_limit_order n k db =
     find_by (\<lambda>lo. lo_seller lo = n \<and> lo_orderid lo = k mod 65536) (limit_orders db)"

definition get_savings_withdraw ::
  "account_name \<Rightarrow> nat \<Rightarrow> database \<Rightarrow> exn + (oid \<times> savings_withdraw_object)" where
  "get_savings_withdraw n k db = get_by (\<lambda>s. sw_from s = n \<and> sw_request_id s = k) (savings_withdraws db)"

definition get_content_order_by_id :: "nat \<Rightarrow> database \<Rightarrow> exn + content_order_object" where
  "get_content_order_by_id k db = get_id (content_orders db) k"

definition get_reward_fund :: "database \<Rightarrow> exn + (oid \<times> reward_fund_object)" where
  "get_reward_fund db = get_by (\<lambda>r. rf_name r = POST_REWARD_FUND_NAME) (reward_funds db)"

definition get_account_authority :: "account_name \<Rightarrow> database \<Rightarrow> exn + (oid \<times> account_authority_object)" where
  "get_account_authority n db = get_by (\<lambda>a. aa_account a = n) (account_authorities db)"

definition head_block_num :: "database \<Rightarrow> nat" where
  "head_block_num db = g_head_block_number (dgpo db)"

definition head_block_time :: "database \<Rightarrow> time_point_sec" where
  "head_block_time db = g_time (dgpo db)"

definition calculate_discussion_payout_time :: "comment_object \<Rightarrow> database \<Rightarrow> exn + time_point_sec" where
  "calculate_discussion_payout_time c db =
     (if c_parent_author c = ROOT_POST_PARENT then Inr (c_cashout_time c)
      else bindR (get_id (comments db) (c_root_comment c)) (\<lambda>r. Inr (c_cashout_time r)))"

definition witness_participation_rate :: "database \<Rightarrow> nat" where
  "witness_participation_rate db =
     nat PERCENT_100 * length (filter (bit (g_recent_slots_filled (dgpo db))) [0 ..< 128]) div 128"

subsection \<open>Balances\<close>

definition adjust_balance :: "fc_lib \<Rightarrow> oid \<Rightarrow> asset \<Rightarrow> database \<Rightarrow> exn + database" where
  "adjust_balance fc i delta =
     modify_account i (\<lambda>a.
       if symbol delta = BMT_SYMBOL then
         bindR (asset_plus fc (a_balance a) delta) (\<lambda>b. Inr (a\<lparr>a_balance := b\<rparr>))
       else Inl (Assert_failed ''invalid symbol''))"

definition adjust_savings_balance :: "fc_lib \<Rightarrow> oid \<Rightarrow> asset \<Rightarrow> database \<Rightarrow> exn + database" where
  "adjust_savings_balance fc i delta =
     modify_account i (\<lambda>a.
       if symbol delta = BMT_SYMBOL then
         bindR (asset_plus fc (a_savings_balance a) delta) (\<lambda>b. Inr (a\<lparr>a_savings_balance := b\<rparr>))
       else Inl (Assert_failed ''invalid symbol''))"

definition adjust_reward_balance :: "fc_lib \<Rightarrow> oid \<Rightarrow> asset \<Rightarrow> database \<Rightarrow> exn + database" where
  "adjust_reward_balance fc i delta =
     modify_account i (\<lambda>a.
       if symbol delta = BMT_SYMBOL then
         bindR (asset_plus fc (a_reward_bmt_balance a) delta) (\<lambda>b. Inr (a\<lparr>a_reward_bmt_balance := b\<rparr>))
       else Inl (Assert_failed ''invalid symbol''))"

definition adjust_supply :: "fc_lib \<Rightarrow> asset \<Rightarrow> bool \<Rightarrow> database \<Rightarrow> exn + database" where
  "adjust_supply fc delta adjust_vesting db =
     (let adj = (adjust_vesting \<and> \<not> head_block_num db < BLOCKS_PER_DAY * 7) in
      modify_dgpo (\<lambda>g.
        if symbol delta = BMT_SYMBOL then
          bindR (if adj \<and> amount delta > 0 then safe_mul fc (amount delta) 9 else Inr 0) (\<lambda>v.
          let new_vesting = bmt v in
          bindR (asset_plus fc delta new_vesting) (\<lambda>d.
          bindR (asset_plus fc (g_current_supply g) d) (\<lambda>cs.
          bindR (asset_plus fc (g_virtual_supply g) d) (\<lambda>vs.
          bindR (asset_plus fc (g_total_vesting_fund_bmt g) new_vesting) (\<lambda>tv.
          Inr (g\<lparr>g_current_supply := cs, g_virtual_supply := vs, g_total_vesting_fund_bmt := tv\<rparr>))))))
        else Inl (Assert_failed ''invalid symbol'')) db)"

definition get_balance :: "account_object \<Rightarrow> asset_symbol_type \<Rightarrow> exn + asset" where
  "get_balance a s = (if s = BMT_SYMBOL then Inr (a_balance a) else Inl (Assert_failed ''invalid symbol''))"

definition get_savings_balance :: "account_object \<Rightarrow> asset_symbol_type \<Rightarrow> exn + asset" where
  "get_savings_balance a s =
     (if s = BMT_SYMBOL then Inr (a_savings_balance a) else Inl (Assert_failed ''invalid symbol''))"

definition pay_fee :: "fc_lib \<Rightarrow> oid \<Rightarrow> asset \<Rightarrow> database \<Rightarrow> exn + database" where
  "pay_fee fc i fee db =
     bindR (assertR (amount fee \<ge> 0) ''fee.amount >= 0'') (\<lambda>_.
     if amount fee = 0 then Inr db
     else
       bindR (get_id (accounts db) i) (\<lambda>a.
       bindR (assertM (asset_ge (a_balance a) fee) ''account.balance >= fee'') (\<lambda>_.
       bindR (asset_neg fc fee) (\<lambda>nf.
       bindR (adjust_balance fc i nf db) (\<lambda>db1.
       adjust_supply fc nf False db1)))))"

subsection \<open>Votes behind witnesses\<close>

definition adjust_witness_vote :: "fc_lib \<Rightarrow> oid \<Rightarrow> int \<Rightarrow> database \<Rightarrow> exn + database" where
  "adjust_witness_vote fc i delta db =
     modify_witness i (\<lambda>w.
       let now = ws_current_virtual_time (wso db);
           pos = w_virtual_position w + u128_of_int fc (w_votes w) * (now - w_virtual_last_update w) in
       bindR (safe_add fc (w_votes w) delta) (\<lambda>votes.
       bindR (assertR (votes \<le> amount (g_total_vesting_shares (dgpo db))) ''w.votes <= total_vesting_shares.amount'') (\<lambda>_.
       bindR (assertR (u128_of_int fc (votes + 1) \<noteq> 0) ''division by zero'') (\<lambda>_.
       let t = now + (VIRTUAL_SCHEDULE_LAP_LENGTH2 - pos) div u128_of_int fc (votes + 1) in
       Inr (w\<lparr>w_virtual_position := pos, w_virtual_last_update := now, w_votes := votes,
              w_virtual_scheduled_time := (if t < now then -1 else t)\<rparr>))))) db"

text \<open>The votes of an account in the order of \<open>by_account_witness\<close>.\<close>

definition votes_of_account :: "oid \<Rightarrow> database \<Rightarrow> (oid \<times> witness_vote_object) list" where
  "votes_of_account i db =
     sort_key (\<lambda>r. wv_witness (snd r)) (filter (\<lambda>r. wv_account (snd r) = i) (indices (witness_votes db)))"

definition adjust_witness_votes :: "fc_lib \<Rightarrow> oid \<Rightarrow> int \<Rightarrow> database \<Rightarrow> exn + database" where
  "adjust_witness_votes fc i delta db =
     foldR (\<lambda>r. adjust_witness_vote fc (wv_witness (snd r)) delta) (votes_of_account i db) db"

text \<open>
  The vote weights move up the chain of proxies. \<open>n\<close> is how many levels are left:
  \<open>BMCHAIN_MAX_PROXY_RECURSION_DEPTH - depth\<close>.
\<close>

primrec adjust_proxied_witness_votes_at :: "fc_lib \<Rightarrow> nat \<Rightarrow> oid \<Rightarrow> int \<Rightarrow> database \<Rightarrow> exn + database" where
  "adjust_proxied_witness_votes_at fc 0 i delta db =
     bindR (get_id (accounts db) i) (\<lambda>a.
     if a_proxy a \<noteq> PROXY_TO_SELF_ACCOUNT then Inr db
     else adjust_witness_votes fc i delta db)"
| "adjust_proxied_witness_votes_at fc (Suc n) i delta db =
     bindR (get_id (accounts db) i) (\<lambda>a.
     if a_proxy a \<noteq> PROXY_TO_SELF_ACCOUNT then
       bindR (get_account (a_proxy a) db) (\<lambda>(pi, _).
       let depth = MAX_PROXY_RECURSION_DEPTH - Suc n in
       bindR (modify_account pi (\<lambda>p.
         bindR (safe_add fc (a_proxied_vsf_votes p ! depth) delta) (\<lambda>v.
         Inr (p\<lparr>a_proxied_vsf_votes := (a_proxied_vsf_votes p)[depth := v]\<rparr>))) db) (\<lambda>db1.
       adjust_proxied_witness_votes_at fc n pi delta db1))
     else adjust_witness_votes fc i delta db)"

definition adjust_proxied_witness_votes :: "fc_lib \<Rightarrow> oid \<Rightarrow> int \<Rightarrow> database \<Rightarrow> exn + database" where
  "adjust_proxied_witness_votes fc i delta db =
     adjust_proxied_witness_votes_at fc MAX_PROXY_RECURSION_DEPTH i delta db"

text \<open>The overload for an array of deltas, one per level.\<close>

definition add_deltas :: "fc_lib \<Rightarrow> nat \<Rightarrow> int list \<Rightarrow> account_object \<Rightarrow> exn + account_object" where
  "add_deltas fc depth delta =
     foldR (\<lambda>i p.
       bindR (safe_add fc (a_proxied_vsf_votes p ! (i + depth)) (delta ! i)) (\<lambda>v.
       Inr (p\<lparr>a_proxied_vsf_votes := (a_proxied_vsf_votes p)[i + depth := v]\<rparr>)))
       (rev [0 ..< MAX_PROXY_RECURSION_DEPTH - depth])"

definition total_delta :: "fc_lib \<Rightarrow> nat \<Rightarrow> int list \<Rightarrow> exn + int" where
  "total_delta fc depth delta =
     foldR (\<lambda>i acc. safe_add fc acc (delta ! i)) (rev [0 ..< MAX_PROXY_RECURSION_DEPTH - depth + 1]) 0"

primrec adjust_proxied_witness_votes_array_at ::
  "fc_lib \<Rightarrow> nat \<Rightarrow> oid \<Rightarrow> int list \<Rightarrow> database \<Rightarrow> exn + database" where
  "adjust_proxied_witness_votes_array_at fc 0 i delta db =
     bindR (get_id (accounts db) i) (\<lambda>a.
     if a_proxy a \<noteq> PROXY_TO_SELF_ACCOUNT then Inr db
     else bindR (total_delta fc MAX_PROXY_RECURSION_DEPTH delta) (\<lambda>t. adjust_witness_votes fc i t db))"
| "adjust_proxied_witness_votes_array_at fc (Suc n) i delta db =
     bindR (get_id (accounts db) i) (\<lambda>a.
     let depth = MAX_PROXY_RECURSION_DEPTH - Suc n in
     if a_proxy a \<noteq> PROXY_TO_SELF_ACCOUNT then
       bindR (get_account (a_proxy a) db) (\<lambda>(pi, _).
       bindR (modify_account pi (add_deltas fc depth delta) db) (\<lambda>db1.
       adjust_proxied_witness_votes_array_at fc n pi delta db1))
     else bindR (total_delta fc depth delta) (\<lambda>t. adjust_witness_votes fc i t db))"

definition adjust_proxied_witness_votes_array :: "fc_lib \<Rightarrow> oid \<Rightarrow> int list \<Rightarrow> database \<Rightarrow> exn + database" where
  "adjust_proxied_witness_votes_array fc i delta db =
     adjust_proxied_witness_votes_array_at fc MAX_PROXY_RECURSION_DEPTH i delta db"

definition clear_witness_votes :: "oid \<Rightarrow> database \<Rightarrow> exn + database" where
  "clear_witness_votes i db =
     bindR (foldR (\<lambda>r. remove_witness_vote (fst r)) (votes_of_account i db) db) (\<lambda>db1.
     modify_account i (\<lambda>a. Inr (a\<lparr>a_witnesses_voted_for := 0\<rparr>)) db1)"

subsection \<open>Vesting, rewards and emission\<close>

definition create_vesting :: "fc_lib \<Rightarrow> oid \<Rightarrow> asset \<Rightarrow> bool \<Rightarrow> database \<Rightarrow> exn + (database \<times> asset)" where
  "create_vesting fc i liquid to_reward_balance db =
     bindR (if to_reward_balance then get_reward_vesting_share_price fc (dgpo db)
            else get_vesting_share_price (dgpo db)) (\<lambda>pr.
     bindR (asset_times_price fc liquid pr) (\<lambda>new_vesting.
     bindR (modify_account i (\<lambda>a.
       if to_reward_balance then
         bindR (asset_plus fc (a_reward_vesting_balance a) new_vesting) (\<lambda>rv.
         bindR (asset_plus fc (a_reward_vesting_bmt a) liquid) (\<lambda>rb.
         Inr (a\<lparr>a_reward_vesting_balance := rv, a_reward_vesting_bmt := rb\<rparr>)))
       else
         bindR (asset_plus fc (a_vesting_shares a) new_vesting) (\<lambda>vs.
         Inr (a\<lparr>a_vesting_shares := vs\<rparr>))) db) (\<lambda>db1.
     bindR (modify_dgpo (\<lambda>g.
       if to_reward_balance then
         bindR (asset_plus fc (g_pending_rewarded_vesting_shares g) new_vesting) (\<lambda>ps.
         bindR (asset_plus fc (g_pending_rewarded_vesting_bmt g) liquid) (\<lambda>pb.
         Inr (g\<lparr>g_pending_rewarded_vesting_shares := ps, g_pending_rewarded_vesting_bmt := pb\<rparr>)))
       else
         bindR (asset_plus fc (g_total_vesting_fund_bmt g) liquid) (\<lambda>tf.
         bindR (asset_plus fc (g_total_vesting_shares g) new_vesting) (\<lambda>ts.
         Inr (g\<lparr>g_total_vesting_fund_bmt := tf, g_total_vesting_shares := ts\<rparr>)))) db1) (\<lambda>db2.
     bindR (if to_reward_balance then Inr db2
            else adjust_proxied_witness_votes fc i (amount new_vesting) db2) (\<lambda>db3.
     Inr (db3, new_vesting))))))"

definition pay_reward_funds :: "fc_lib \<Rightarrow> int \<Rightarrow> database \<Rightarrow> exn + (database \<times> int)" where
  "pay_reward_funds fc reward db =
     foldR (\<lambda>row (db, used).
       bindR (safe_mul fc reward (int (rf_percent_content_rewards (snd row)))) (\<lambda>p.
       bindR (safe_div fc p PERCENT_100) (\<lambda>r.
       bindR (modify_reward_fund (fst row) (\<lambda>rfo.
         bindR (asset_plus fc (rf_reward_balance rfo) (bmt r)) (\<lambda>b. Inr (rfo\<lparr>rf_reward_balance := b\<rparr>))) db) (\<lambda>db1.
       bindR (safe_add fc used r) (\<lambda>used1.
       bindR (assertR (used1 \<le> reward) ''used_rewards <= reward'') (\<lambda>_.
       Inr (db1, used1)))))))
     (indices (reward_funds db)) (db, 0)"

text \<open>
  \<open>new_bmt\<close> is a plain \<open>int64_t\<close>; the first product is computed in 64 bits, here on small
  constants of the callers, so it is written as integer arithmetic.
\<close>

definition process_funds_bmchain :: "fc_lib \<Rightarrow> int \<Rightarrow> database \<Rightarrow> exn + database" where
  "process_funds_bmchain fc new_bmt db =
     (let props = dgpo db in
      if amount (g_daily_emission props) \<ge>
           (amount (g_current_supply props) * DAILY_INFLATION_RATE_RESTRICTION) sdiv 100 sdiv 365 \<and>
         g_head_block_number props mod (20 * 60 * 24) \<noteq> 0
      then Inr db
      else
        bindR (pay_reward_funds fc ((new_bmt * CONTENT_REWARD_PERCENT_NEW) sdiv PERCENT_100) db) (\<lambda>(db1, content_reward).
        bindR (safe_sub fc new_bmt content_reward) (\<lambda>witness_reward.
        bindR (get_witness (g_current_witness props) db1) (\<lambda>(_, cwit).
        bindR (get_account (w_owner cwit) db1) (\<lambda>(wi, _).
        bindR (modify_account wi (\<lambda>a.
          bindR (asset_plus fc (a_balance a) (bmt witness_reward)) (\<lambda>b. Inr (a\<lparr>a_balance := b\<rparr>))) db1) (\<lambda>db2.
        bindR (safe_add fc content_reward witness_reward) (\<lambda>minted.
        modify_dgpo (\<lambda>p.
          let p0 = (if g_head_block_number p mod (20 * 60 * 24) = 0
                    then p\<lparr>g_daily_emission := bmt 0\<rparr> else p) in
          bindR (asset_plus fc (g_total_vesting_fund_bmt p0) (bmt 0)) (\<lambda>tv.
          bindR (asset_plus fc (g_current_supply p0) (bmt minted)) (\<lambda>cs.
          bindR (asset_plus fc (g_virtual_supply p0) (bmt minted)) (\<lambda>vs.
          bindR (asset_plus fc (g_daily_emission p0) (bmt minted)) (\<lambda>de.
          Inr (p0\<lparr>g_total_vesting_fund_bmt := tv, g_current_supply := cs, g_virtual_supply := vs,
                  g_daily_emission := de\<rparr>)))))) db2)))))))"

definition adjust_rshares2 :: "128 word \<Rightarrow> 128 word \<Rightarrow> database \<Rightarrow> exn + database" where
  "adjust_rshares2 old new =
     modify_dgpo (\<lambda>g. Inr (g\<lparr>g_total_reward_shares2 := g_total_reward_shares2 g - old + new\<rparr>))"

definition update_owner_authority :: "oid \<Rightarrow> authority \<Rightarrow> database \<Rightarrow> exn + database" where
  "update_owner_authority i auth db =
     bindR (get_id (accounts db) i) (\<lambda>a.
     bindR (if head_block_num db \<ge> OWNER_AUTH_HISTORY_TRACKING_START_BLOCK_NUM then
              bindR (create_owner_history (\<lambda>_.
                bindR (get_account_authority (a_name a) db) (\<lambda>(_, aa).
                Inr \<lparr> oh_account = a_name a, oh_previous_owner_authority = aa_owner aa,
                      oh_last_valid_time = head_block_time db \<rparr>)) db) (\<lambda>(db1, _). Inr db1)
            else Inr db) (\<lambda>db1.
     bindR (get_account_authority (a_name a) db1) (\<lambda>(ai, _).
     modify_account_authority ai (\<lambda>aa. Inr (aa\<lparr>aa_owner := auth, aa_last_owner_update := head_block_time db1\<rparr>)) db1)))"

subsection \<open>The check of all invariants\<close>

text \<open>
  \<open>validate_invariants\<close> sums every place that holds BMT. The loops run over the container's
  ids, or over the accounts in the order of their names. The feed history is written only
  at genesis, with the null price, so the comparison that needs a price is not reached.
\<close>

definition vsf_votes_of :: "fc_lib \<Rightarrow> account_object \<Rightarrow> exn + int" where
  "vsf_votes_of fc a =
     (if a_proxy a = PROXY_TO_SELF_ACCOUNT then witness_vote_weight fc a
      else Inr (a_proxied_vsf_votes a ! (MAX_PROXY_RECURSION_DEPTH - 1)))"

definition sum_assets :: "fc_lib \<Rightarrow> ('v \<Rightarrow> exn + asset) \<Rightarrow> (oid \<times> 'v) list \<Rightarrow> asset \<Rightarrow> exn + asset" where
  "sum_assets fc h rs = foldR (\<lambda>r acc. bindR (h (snd r)) (\<lambda>x. asset_plus fc acc x)) rs"

definition by_name_order :: "(oid \<times> account_object) list \<Rightarrow> (oid \<times> account_object) list" where
  "by_name_order rs = sort_key (\<lambda>r. a_name (snd r)) rs"

definition validate_account_sums ::
  "fc_lib \<Rightarrow> database \<Rightarrow> exn + (asset \<times> asset \<times> asset \<times> int)" where
  "validate_account_sums fc db =
     foldR (\<lambda>r (ts, tv, pv, vsf).
       bindR (asset_plus fc ts (a_balance (snd r))) (\<lambda>ts1.
       bindR (asset_plus fc ts1 (a_savings_balance (snd r))) (\<lambda>ts2.
       bindR (asset_plus fc ts2 (a_reward_bmt_balance (snd r))) (\<lambda>ts3.
       bindR (asset_plus fc tv (a_vesting_shares (snd r))) (\<lambda>tv1.
       bindR (asset_plus fc tv1 (a_reward_vesting_balance (snd r))) (\<lambda>tv2.
       bindR (asset_plus fc pv (a_reward_vesting_bmt (snd r))) (\<lambda>pv1.
       bindR (vsf_votes_of fc (snd r)) (\<lambda>v.
       bindR (safe_add fc vsf v) (\<lambda>vsf1.
       Inr (ts3, tv2, pv1, vsf1))))))))))
     (by_name_order (indices (accounts db))) (bmt 0, vests 0, bmt 0, 0)"

definition only_bmt :: "asset \<Rightarrow> string \<Rightarrow> exn + asset" where
  "only_bmt a msg = (if symbol a = BMT_SYMBOL then Inr a else Inl (Assert_failed msg))"

definition validate_invariants :: "fc_lib \<Rightarrow> database \<Rightarrow> exn + unit" where
  "validate_invariants fc db =
     (let gpo = dgpo db in
      bindR (checkR (\<lambda>r. assertR (w_votes (snd r) \<le> amount (g_total_vesting_shares gpo))
        ''itr->votes <= gpo.total_vesting_shares.amount'') (indices (witnesses db))) (\<lambda>_.
      bindR (validate_account_sums fc db) (\<lambda>(ts0, total_vesting, pending_vesting_bmt, total_vsf_votes).
      bindR (sum_assets fc (\<lambda>c. only_bmt (cr_amount c) ''Encountered illegal symbol in convert_request_object'')
        (indices (convert_requests db)) ts0) (\<lambda>ts1.
      bindR (sum_assets fc (\<lambda>lo. Inr (bmt (if symbol (base (lo_sell_price lo)) = BMT_SYMBOL then lo_for_sale lo else 0)))
        (indices (limit_orders db)) ts1) (\<lambda>ts2.
      bindR (foldR (\<lambda>r acc.
        bindR (asset_plus fc acc (e_bmt_balance (snd r))) (\<lambda>acc1.
        bindR (only_bmt (e_pending_fee (snd r)) ''found escrow pending fee that is not BMT'') (\<lambda>fee.
        asset_plus fc acc1 fee))) (indices (escrows db)) ts2) (\<lambda>ts3.
      bindR (sum_assets fc (\<lambda>sw. only_bmt (sw_amount sw) ''found savings withdraw that is not BMT'')
        (indices (savings_withdraws db)) ts3) (\<lambda>ts4.
      bindR (sum_assets fc (\<lambda>r. Inr (rf_reward_balance r)) (indices (reward_funds db)) ts4) (\<lambda>ts5.
      bindR (sum_assets fc (\<lambda>c. Inr (co_price c)) (indices (content_orders db)) (bmt 0)) (\<lambda>_.
      bindR (sum_assets fc (\<lambda>c. Inr (if co_status c = order_open then co_price c else bmt 0))
        (indices (content_orders db)) ts5) (\<lambda>ts6.
      bindR (asset_plus fc (g_total_vesting_fund_bmt gpo) (g_total_reward_fund_bmt gpo)) (\<lambda>f1.
      bindR (asset_plus fc f1 (g_pending_rewarded_vesting_bmt gpo)) (\<lambda>f2.
      bindR (asset_plus fc ts6 f2) (\<lambda>total_supply.
      bindR (assertR (g_current_supply gpo = total_supply) ''gpo.current_supply == total_supply'') (\<lambda>_.
      bindR (asset_plus fc (g_total_vesting_shares gpo) (g_pending_rewarded_vesting_shares gpo)) (\<lambda>tv.
      bindR (assertR (tv = total_vesting) ''total_vesting_shares + pending == total_vesting'') (\<lambda>_.
      bindR (assertR (amount (g_total_vesting_shares gpo) = total_vsf_votes) ''total_vesting_shares == total_vsf_votes'') (\<lambda>_.
      bindR (assertR (g_pending_rewarded_vesting_bmt gpo = pending_vesting_bmt) ''pending_rewarded_vesting_bmt'') (\<lambda>_.
      assertM (asset_ge (g_virtual_supply gpo) (g_current_supply gpo)) ''gpo.virtual_supply >= gpo.current_supply''))))))))))))))))))"

subsection \<open>Effects on the gaps\<close>

lemma row_sum_insort: "row_sum g (insort_key f r rs) = g (snd r) + row_sum g rs"
  by (induction rs) auto

lemma row_sum_sort [simp]: "row_sum g (sort_key f rs) = row_sum g rs"
  by (induction rs) (simp_all add: row_sum_insort)

lemma keeps_gapsI:
  "supply_gap db' = supply_gap db \<Longrightarrow> vests_gap db' = vests_gap db \<Longrightarrow> pending_gap db' = pending_gap db \<Longrightarrow>
   keeps_gaps db db'"
  by (simp add: keeps_gaps_def)

lemmas holdings = bmt_of_account_def vests_of_account_def pending_of_account_def bmt_of_convert_def
  bmt_of_limit_order_def bmt_of_escrow_def bmt_of_savings_withdraw_def bmt_of_reward_fund_def
  bmt_of_content_order_def bmt_of_dgpo_def

lemma adjust_witness_vote_gaps: "adjust_witness_vote fc i d db = Inr db' \<Longrightarrow> keeps_gaps db db'"
  by (auto simp: adjust_witness_vote_def keeps_gaps_def dest!: table_gaps)

lemma adjust_witness_votes_gaps: "adjust_witness_votes fc i d db = Inr db' \<Longrightarrow> keeps_gaps db db'"
  unfolding adjust_witness_votes_def
  by (erule foldR_keeps_gaps [rotated]) (rule adjust_witness_vote_gaps)

lemma adjust_proxied_witness_votes_at_gaps:
  "adjust_proxied_witness_votes_at fc n i d db = Inr db' \<Longrightarrow> keeps_gaps db db'"
proof (induction n arbitrary: i db)
  case 0
  then show ?case by (auto simp: res_simps split: if_splits intro: adjust_witness_votes_gaps)
next
  case (Suc n)
  show ?case
  proof (cases "\<exists>a. get_id (accounts db) i = Inr a \<and> a_proxy a \<noteq> PROXY_TO_SELF_ACCOUNT")
    case True
    with Suc.prems obtain pi db1 m where m: "modify_account pi m db = Inr db1"
      and m_def: "m = (\<lambda>p. bindR (safe_add fc (a_proxied_vsf_votes p ! (MAX_PROXY_RECURSION_DEPTH - Suc n)) d)
         (\<lambda>v. Inr (p\<lparr>a_proxied_vsf_votes := (a_proxied_vsf_votes p)[MAX_PROXY_RECURSION_DEPTH - Suc n := v]\<rparr>)))"
      and r: "adjust_proxied_witness_votes_at fc n pi d db1 = Inr db'"
      by (auto simp: res_simps Let_def)
    have "keeps_gaps db db1"
      using m by (auto simp: m_def keeps_gaps_def holdings res_simps dest!: table_gaps)
    with Suc.IH [OF r] show ?thesis by (blast intro: keeps_gaps_trans)
  next
    case False
    with Suc.prems show ?thesis
      by (auto simp: res_simps Let_def split: if_splits intro: adjust_witness_votes_gaps)
  qed
qed

lemma add_deltas_holdings:
  "add_deltas fc depth delta a = Inr a' \<Longrightarrow>
   bmt_of_account a' = bmt_of_account a \<and> vests_of_account a' = vests_of_account a \<and>
   pending_of_account a' = pending_of_account a"
  unfolding add_deltas_def
  by (intro conjI; erule foldR_const [rotated]) (auto simp: res_simps holdings)

lemma adjust_proxied_witness_votes_array_at_gaps:
  "adjust_proxied_witness_votes_array_at fc n i d db = Inr db' \<Longrightarrow> keeps_gaps db db'"
proof (induction n arbitrary: i db)
  case 0
  then show ?case by (auto simp: res_simps split: if_splits intro: adjust_witness_votes_gaps)
next
  case (Suc n)
  show ?case
  proof (cases "\<exists>a. get_id (accounts db) i = Inr a \<and> a_proxy a \<noteq> PROXY_TO_SELF_ACCOUNT")
    case True
    with Suc.prems obtain pi db1 where
      m: "modify_account pi (add_deltas fc (MAX_PROXY_RECURSION_DEPTH - Suc n) d) db = Inr db1"
      and r: "adjust_proxied_witness_votes_array_at fc n pi d db1 = Inr db'"
      by (auto simp: res_simps Let_def)
    have "keeps_gaps db db1"
      using m by (auto simp: keeps_gaps_def dest!: table_gaps add_deltas_holdings)
    with Suc.IH [OF r] show ?thesis by (blast intro: keeps_gaps_trans)
  next
    case False
    with Suc.prems show ?thesis
      by (auto simp: res_simps Let_def split: if_splits intro: adjust_witness_votes_gaps)
  qed
qed

lemma adjust_proxied_witness_votes_gaps [table_gaps]:
  "adjust_proxied_witness_votes fc i d db = Inr db' \<Longrightarrow> keeps_gaps db db'"
  unfolding adjust_proxied_witness_votes_def by (rule adjust_proxied_witness_votes_at_gaps)

lemma adjust_proxied_witness_votes_array_gaps [table_gaps]:
  "adjust_proxied_witness_votes_array fc i ds db = Inr db' \<Longrightarrow> keeps_gaps db db'"
  unfolding adjust_proxied_witness_votes_array_def by (rule adjust_proxied_witness_votes_array_at_gaps)

lemma clear_witness_votes_gaps [table_gaps]: "clear_witness_votes i db = Inr db' \<Longrightarrow> keeps_gaps db db'"
proof -
  assume "clear_witness_votes i db = Inr db'"
  then obtain db1 where 1: "foldR (\<lambda>r. remove_witness_vote (fst r)) (votes_of_account i db) db = Inr db1"
    and 2: "modify_account i (\<lambda>a. Inr (a\<lparr>a_witnesses_voted_for := 0\<rparr>)) db1 = Inr db'"
    by (auto simp: clear_witness_votes_def res_simps)
  have "keeps_gaps db db1"
    using 1 by (rule foldR_keeps_gaps [rotated]) (auto simp: keeps_gaps_def dest!: table_gaps)
  moreover have "keeps_gaps db1 db'"
    using 2 by (auto simp: keeps_gaps_def holdings dest!: table_gaps)
  ultimately show ?thesis by (rule keeps_gaps_trans)
qed

lemma adjust_rshares2_gaps [table_gaps]: "adjust_rshares2 a b db = Inr db' \<Longrightarrow> keeps_gaps db db'"
  by (auto simp: adjust_rshares2_def keeps_gaps_def holdings dest!: table_gaps)

lemma update_owner_authority_gaps [table_gaps]:
  "update_owner_authority i auth db = Inr db' \<Longrightarrow> keeps_gaps db db'"
  by (auto simp: update_owner_authority_def res_simps keeps_gaps_def split: if_splits prod.splits dest!: table_gaps)

named_theorems ledger_gaps "effects of the ledger functions on the gaps, for exact arithmetic"

context fc_exact
begin

lemma adjust_balance_gaps [ledger_gaps]:
  "adjust_balance fc i d db = Inr db' \<Longrightarrow> symbol d = BMT_SYMBOL \<and> supply_gap db' = supply_gap db - amount d \<and>
   vests_gap db' = vests_gap db \<and> pending_gap db' = pending_gap db"
  by (auto simp: adjust_balance_def res_simps holdings split: if_splits dest!: table_gaps asset_dests)

lemma adjust_savings_balance_gaps [ledger_gaps]:
  "adjust_savings_balance fc i d db = Inr db' \<Longrightarrow> symbol d = BMT_SYMBOL \<and> supply_gap db' = supply_gap db - amount d \<and>
   vests_gap db' = vests_gap db \<and> pending_gap db' = pending_gap db"
  by (auto simp: adjust_savings_balance_def res_simps holdings split: if_splits dest!: table_gaps asset_dests)

lemma adjust_reward_balance_gaps [ledger_gaps]:
  "adjust_reward_balance fc i d db = Inr db' \<Longrightarrow> symbol d = BMT_SYMBOL \<and> supply_gap db' = supply_gap db - amount d \<and>
   vests_gap db' = vests_gap db \<and> pending_gap db' = pending_gap db"
  by (auto simp: adjust_reward_balance_def res_simps holdings split: if_splits dest!: table_gaps asset_dests)

lemma adjust_supply_gaps [ledger_gaps]:
  "adjust_supply fc d adj db = Inr db' \<Longrightarrow> supply_gap db' = supply_gap db + amount d \<and>
   vests_gap db' = vests_gap db \<and> pending_gap db' = pending_gap db"
  by (auto simp: adjust_supply_def Let_def res_simps holdings split: if_splits dest!: table_gaps asset_dests)

lemma pay_fee_gaps [ledger_gaps]: "pay_fee fc i fee db = Inr db' \<Longrightarrow> keeps_gaps db db'"
  by (auto simp: pay_fee_def res_simps keeps_gaps_def split: if_splits dest!: ledger_gaps asset_dests)

lemma create_vesting_gaps [ledger_gaps]:
  "create_vesting fc i liquid rw db = Inr (db', v) \<Longrightarrow> supply_gap db' = supply_gap db - amount liquid \<and>
   vests_gap db' = vests_gap db \<and> pending_gap db' = pending_gap db"
  by (auto simp: create_vesting_def res_simps holdings keeps_gaps_def split: if_splits dest!: table_gaps asset_dests)

lemma pay_reward_funds_gaps [ledger_gaps]:
  assumes "pay_reward_funds fc reward db = Inr (db', used)"
  shows "supply_gap db' = supply_gap db - used \<and> vests_gap db' = vests_gap db \<and> pending_gap db' = pending_gap db"
proof -
  let ?P = "\<lambda>s. supply_gap (fst s) = supply_gap db - snd s \<and> vests_gap (fst s) = vests_gap db \<and>
     pending_gap (fst s) = pending_gap db"
  have "?P (db', used)"
    using assms unfolding pay_reward_funds_def
    by (rule foldR_inv [rotated])
      (auto simp: res_simps holdings split: prod.splits dest!: table_gaps asset_dests safe_addD)
  then show ?thesis by simp
qed

lemma process_funds_bmchain_gaps [ledger_gaps]:
  "process_funds_bmchain fc n db = Inr db' \<Longrightarrow> keeps_gaps db db'"
  by (auto simp: process_funds_bmchain_def Let_def res_simps holdings keeps_gaps_def
      split: if_splits prod.splits dest!: table_gaps ledger_gaps asset_dests safe_dests)

text \<open>Sums over a container.\<close>

lemma sum_assets_amount:
  "sum_assets fc h rs a = Inr b \<Longrightarrow>
   (\<And>v x. h v = Inr x \<Longrightarrow> amount x = w v) \<Longrightarrow> amount b = amount a + row_sum w rs"
  unfolding sum_assets_def
proof (induction rs arbitrary: a)
  case Nil
  then show ?case by simp
next
  case (Cons r rs)
  from Cons.prems(1) obtain x a1 where "h (snd r) = Inr x" "asset_plus fc a x = Inr a1"
    "foldR (\<lambda>r acc. bindR (h (snd r)) (\<lambda>x. asset_plus fc acc x)) rs a1 = Inr b"
    by (auto simp: bindR_eq_Inr)
  with Cons.IH [of a1] Cons.prems(2) show ?case by (auto dest!: asset_dests)
qed

lemma sum_escrows_amount:
  "foldR (\<lambda>r acc. bindR (asset_plus fc acc (e_bmt_balance (snd r))) (\<lambda>acc1.
     bindR (only_bmt (e_pending_fee (snd r)) msg) (\<lambda>fee. asset_plus fc acc1 fee))) rs a = Inr b \<Longrightarrow>
   amount b = amount a + row_sum bmt_of_escrow rs"
  by (induction rs arbitrary: a)
    (fastforce simp: res_simps holdings only_bmt_def split: if_splits dest!: asset_dests)+

definition vsf_weight :: "account_object \<Rightarrow> int" where
  "vsf_weight a = (if a_proxy a = PROXY_TO_SELF_ACCOUNT then amount (a_vesting_shares a) + sum_list (a_proxied_vsf_votes a)
     else a_proxied_vsf_votes a ! (MAX_PROXY_RECURSION_DEPTH - 1))"

lemma fold_safe_add: "foldR (\<lambda>v acc. safe_add fc acc v) xs a = Inr b \<Longrightarrow> b = a + sum_list xs"
  by (induction xs arbitrary: a) (fastforce simp: res_simps dest!: safe_addD)+

lemma vsf_votes_of_weight: "vsf_votes_of fc a = Inr v \<Longrightarrow> v = vsf_weight a"
  by (auto simp: vsf_votes_of_def vsf_weight_def witness_vote_weight_def split: if_splits dest!: fold_safe_add)

lemma validate_account_sums_amounts:
  assumes "validate_account_sums fc db = Inr (ts, tv, pv, vsf)"
  shows "amount ts = row_sum bmt_of_account (indices (accounts db)) \<and>
     amount tv = row_sum vests_of_account (indices (accounts db)) \<and>
     amount pv = row_sum pending_of_account (indices (accounts db)) \<and>
     vsf = row_sum vsf_weight (indices (accounts db))"
proof -
  let ?f = "\<lambda>r (ts, tv, pv, vsf).
       bindR (asset_plus fc ts (a_balance (snd r))) (\<lambda>ts1.
       bindR (asset_plus fc ts1 (a_savings_balance (snd r))) (\<lambda>ts2.
       bindR (asset_plus fc ts2 (a_reward_bmt_balance (snd r))) (\<lambda>ts3.
       bindR (asset_plus fc tv (a_vesting_shares (snd r))) (\<lambda>tv1.
       bindR (asset_plus fc tv1 (a_reward_vesting_balance (snd r))) (\<lambda>tv2.
       bindR (asset_plus fc pv (a_reward_vesting_bmt (snd r))) (\<lambda>pv1.
       bindR (vsf_votes_of fc (snd r)) (\<lambda>v.
       bindR (safe_add fc vsf v) (\<lambda>vsf1.
       Inr (ts3, tv2, pv1, vsf1)))))))))"
  have step: "amount ts = amount ts0 + bmt_of_account (snd r) \<and> amount tv = amount tv0 + vests_of_account (snd r) \<and>
      amount pv = amount pv0 + pending_of_account (snd r) \<and> vsf = vsf0 + vsf_weight (snd r)"
    if "?f r (ts0, tv0, pv0, vsf0) = Inr (ts, tv, pv, vsf)"
    for r :: "oid \<times> account_object" and ts0 tv0 pv0 vsf0 ts tv pv vsf
    using that by (auto simp: res_simps holdings dest!: asset_dests safe_addD vsf_votes_of_weight)
  have loop: "amount ts = amount ts0 + row_sum bmt_of_account rs \<and> amount tv = amount tv0 + row_sum vests_of_account rs \<and>
      amount pv = amount pv0 + row_sum pending_of_account rs \<and> vsf = vsf0 + row_sum vsf_weight rs"
    if "foldR ?f rs (ts0, tv0, pv0, vsf0) = Inr (ts, tv, pv, vsf)" for rs ts0 tv0 pv0 vsf0
    using that
  proof (induction rs arbitrary: ts0 tv0 pv0 vsf0)
    case Nil
    then show ?case by simp
  next
    case (Cons r rs)
    from Cons.prems obtain s where s: "?f r (ts0, tv0, pv0, vsf0) = Inr s" "foldR ?f rs s = Inr (ts, tv, pv, vsf)"
      by (auto simp only: foldR.simps bindR_eq_Inr)
    obtain ts1 tv1 pv1 vsf1 where "s = (ts1, tv1, pv1, vsf1)" by (cases s)
    with step [of r ts0 tv0 pv0 vsf0 ts1 tv1 pv1 vsf1] Cons.IH [of ts1 tv1 pv1 vsf1] s show ?case by simp
  qed
  show ?thesis
    using loop [OF assms [unfolded validate_account_sums_def]] by (simp add: by_name_order_def)
qed

lemma validate_invariants_gaps:
  assumes "validate_invariants fc db = Inr ()"
  shows "supply_gap db = 0 \<and> vests_gap db = 0 \<and> pending_gap db = 0 \<and>
     amount (g_total_vesting_shares (dgpo db)) = row_sum vsf_weight (indices (accounts db)) \<and>
     (\<forall>r \<in> set (indices (witnesses db)). w_votes (snd r) \<le> amount (g_total_vesting_shares (dgpo db)))"
proof -
  from assms obtain ts0 tv pv vsf ts1 ts2 ts3 ts4 ts5 ts6 f1 f2 total tv2 where
    w: "\<forall>r \<in> set (indices (witnesses db)). w_votes (snd r) \<le> amount (g_total_vesting_shares (dgpo db))"
    and a: "validate_account_sums fc db = Inr (ts0, tv, pv, vsf)"
    and s1: "sum_assets fc (\<lambda>c. only_bmt (cr_amount c) ''Encountered illegal symbol in convert_request_object'')
      (indices (convert_requests db)) ts0 = Inr ts1"
    and s2: "sum_assets fc (\<lambda>lo. Inr (bmt (if symbol (base (lo_sell_price lo)) = BMT_SYMBOL then lo_for_sale lo else 0)))
      (indices (limit_orders db)) ts1 = Inr ts2"
    and s3: "foldR (\<lambda>r acc. bindR (asset_plus fc acc (e_bmt_balance (snd r))) (\<lambda>acc1.
        bindR (only_bmt (e_pending_fee (snd r)) ''found escrow pending fee that is not BMT'') (\<lambda>fee.
        asset_plus fc acc1 fee))) (indices (escrows db)) ts2 = Inr ts3"
    and s4: "sum_assets fc (\<lambda>sw. only_bmt (sw_amount sw) ''found savings withdraw that is not BMT'')
      (indices (savings_withdraws db)) ts3 = Inr ts4"
    and s5: "sum_assets fc (\<lambda>r. Inr (rf_reward_balance r)) (indices (reward_funds db)) ts4 = Inr ts5"
    and s6: "sum_assets fc (\<lambda>c. Inr (if co_status c = order_open then co_price c else bmt 0))
      (indices (content_orders db)) ts5 = Inr ts6"
    and f: "asset_plus fc (g_total_vesting_fund_bmt (dgpo db)) (g_total_reward_fund_bmt (dgpo db)) = Inr f1"
      "asset_plus fc f1 (g_pending_rewarded_vesting_bmt (dgpo db)) = Inr f2" "asset_plus fc ts6 f2 = Inr total"
    and t: "g_current_supply (dgpo db) = total"
      "asset_plus fc (g_total_vesting_shares (dgpo db)) (g_pending_rewarded_vesting_shares (dgpo db)) = Inr tv"
      "amount (g_total_vesting_shares (dgpo db)) = vsf" "g_pending_rewarded_vesting_bmt (dgpo db) = pv"
    by (auto simp: validate_invariants_def Let_def res_simps checkR_eq_Inr)
  note sums = validate_account_sums_amounts [OF a]
  have "amount ts1 = amount ts0 + row_sum bmt_of_convert (indices (convert_requests db))"
    by (rule sum_assets_amount [OF s1]) (auto simp: only_bmt_def holdings split: if_splits)
  moreover have "amount ts2 = amount ts1 + row_sum bmt_of_limit_order (indices (limit_orders db))"
    by (rule sum_assets_amount [OF s2]) (auto simp: holdings)
  moreover note sum_escrows_amount [OF s3]
  moreover have "amount ts4 = amount ts3 + row_sum bmt_of_savings_withdraw (indices (savings_withdraws db))"
    by (rule sum_assets_amount [OF s4]) (auto simp: only_bmt_def holdings split: if_splits)
  moreover have "amount ts5 = amount ts4 + row_sum bmt_of_reward_fund (indices (reward_funds db))"
    by (rule sum_assets_amount [OF s5]) (auto simp: holdings)
  moreover have "amount ts6 = amount ts5 + row_sum bmt_of_content_order (indices (content_orders db))"
    by (rule sum_assets_amount [OF s6]) (auto simp: holdings)
  ultimately have "supply_gap db = 0"
    using sums t(1) asset_plusD [OF f(1)] asset_plusD [OF f(2)] asset_plusD [OF f(3)]
    by (simp add: supply_gap_def bmt_held_def bmt_of_dgpo_def)
  moreover have "vests_gap db = 0" using sums asset_plusD [OF t(2)] by (simp add: vests_gap_def)
  moreover have "pending_gap db = 0" using sums t(4) by (simp add: pending_gap_def)
  ultimately show ?thesis using w sums t(3) by simp
qed

end

text \<open>
  C3: the run-time check. If \<open>validate_invariants\<close> returns, the recorded supply of BMT is
  exactly the BMT held in accounts, conversions, limit orders, escrows, savings withdrawals,
  reward funds, open content orders and the global funds; the recorded vesting shares are
  the shares of the accounts; the pending BMT is that behind unclaimed vesting; and no
  witness has more votes than there are vesting shares.
\<close>

theorem validate_invariants_sound:
  assumes "fc_exact fc" and "validate_invariants fc db = Inr ()"
  shows "supply_gap db = 0 \<and> vests_gap db = 0 \<and> pending_gap db = 0 \<and>
     (\<forall>r \<in> set (indices (witnesses db)). w_votes (snd r) \<le> amount (g_total_vesting_shares (dgpo db)))"
  using fc_exact.validate_invariants_gaps [OF assms] by blast

text \<open>A small chain for the examples: three accounts and the supply they hold.\<close>

definition sample_account :: "string \<Rightarrow> int \<Rightarrow> account_object" where
  "sample_account n b = default_account_object\<lparr>a_name := n, a_balance := bmt b\<rparr>"

definition sample_dgpo :: dynamic_global_property_object where
  "sample_dgpo = default_dynamic_global_property_object\<lparr>g_head_block_number := 1000, g_time := 1600000000,
     g_current_supply := bmt 1500, g_virtual_supply := bmt 1500\<rparr>"

definition sample_db :: database where
  "sample_db = empty_database\<lparr>dgpo := sample_dgpo,
     accounts := mk_index [(0, sample_account ''alice'' 1000), (1, sample_account ''bob'' 500),
       (2, sample_account ''carol'' 0)] 3\<rparr>"

lemma replicate_proxied [simp]: "replicate MAX_PROXY_RECURSION_DEPTH (0 :: int) = [0, 0, 0, 0]"
  by (simp add: MAX_PROXY_RECURSION_DEPTH_def numeral_eq_Suc)

lemmas sample_simps = sample_db_def sample_dgpo_def sample_account_def empty_database_def empty_index_def
  mk_index_def default_account_object_def default_dynamic_global_property_object_def

lemmas eval64 = ck64_def in_int64_def asset_plus_def asset_minus_def asset_neg_def asset_lt_def
  asset_le_def asset_gt_def asset_ge_def

theorem validate_invariants_sound_witness:
  "validate_invariants fc64 sample_db = Inr () \<and> supply_gap sample_db = 0"
proof -
  have v: "validate_invariants fc64 sample_db = Inr ()"
    by (simp add: validate_invariants_def validate_account_sums_def by_name_order_def sum_assets_def
        vsf_votes_of_def witness_vote_weight_def sample_simps eval64 PROXY_TO_SELF_ACCOUNT_def)
  from validate_invariants_sound [OF fc64.fc_exact_axioms v] v show ?thesis by simp
qed

end
