(* ===== verification/Validate.thy ===== *)
theory Validate
  imports Operations
begin

text \<open>
  The \<open>validate\<close> methods of \<open>libraries/protocol/bmchain_operations.cpp\<close> and
  \<open>custom_token_operations.cpp\<close>: the checks an operation passes before its evaluator runs,
  which need no state. Each definition lists the checks in the order of the source;
  \<open>operation_validate\<close> is the visitor over the variant.
\<close>

definition validate_account_name :: "account_name \<Rightarrow> exn + unit" where
  "validate_account_name n = assertR (is_valid_account_name n) ''Account name is invalid''"

definition validate_permlink :: "fc_lib \<Rightarrow> string \<Rightarrow> exn + unit" where
  "validate_permlink fc l = seqR
     [assertR (length l < MAX_PERMLINK_LENGTH) ''permlink is too long'',
      assertR (is_utf8 fc l) ''permlink not formatted in UTF8'']"

definition is_asset_type :: "asset \<Rightarrow> asset_symbol_type \<Rightarrow> bool" where
  "is_asset_type a s \<longleftrightarrow> symbol a = s"

definition validate_json_metadata :: "fc_lib \<Rightarrow> string \<Rightarrow> exn + unit" where
  "validate_json_metadata fc j =
     (if length j > 0 then seqR
        [assertR (is_utf8 fc j) ''JSON Metadata not formatted in UTF8'',
         assertR (json_is_valid fc j) ''JSON Metadata not valid JSON'']
      else Inr ())"

definition account_create_validate :: "fc_lib \<Rightarrow> account_create_operation \<Rightarrow> exn + unit" where
  "account_create_validate fc p = seqR
     [validate_account_name (ac_new_account_name p),
      assertR (is_asset_type (ac_fee p) BMT_SYMBOL) ''Account creation fee must be BMT'',
      authority_validate (ac_owner p),
      authority_validate (ac_active p),
      validate_json_metadata fc (ac_json_metadata p),
      assertM (asset_ge (ac_fee p) (bmt 0)) ''Account creation fee cannot be negative'']"

definition account_create_with_delegation_validate ::
  "fc_lib \<Rightarrow> account_create_with_delegation_operation \<Rightarrow> exn + unit" where
  "account_create_with_delegation_validate fc p = seqR
     [validate_account_name (ad_new_account_name p),
      validate_account_name (ad_creator p),
      assertR (is_asset_type (ad_fee p) BMT_SYMBOL) ''Account creation fee must be BMT'',
      assertR (is_asset_type (ad_delegation p) VESTS_SYMBOL) ''Delegation must be VESTS'',
      authority_validate (ad_owner p),
      authority_validate (ad_active p),
      authority_validate (ad_posting p),
      validate_json_metadata fc (ad_json_metadata p),
      assertM (asset_ge (ad_fee p) (bmt 0)) ''Account creation fee cannot be negative'',
      assertM (asset_ge (ad_delegation p) (vests 0)) ''Delegation cannot be negative'']"

definition account_update_validate :: "fc_lib \<Rightarrow> account_update_operation \<Rightarrow> exn + unit" where
  "account_update_validate fc p = seqR
     [validate_account_name (au_account p),
      validate_json_metadata fc (au_json_metadata p)]"

definition comment_validate :: "fc_lib \<Rightarrow> comment_operation \<Rightarrow> exn + unit" where
  "comment_validate fc p = seqR
     [assertR (length (cm_title p) < 256) ''Title larger than size limit'',
      assertR (is_utf8 fc (cm_title p)) ''Title not formatted in UTF8'',
      assertR (length (cm_body p) > 0) ''Body is empty'',
      assertR (is_utf8 fc (cm_body p)) ''Body not formatted in UTF8'',
      (if length (cm_parent_author p) \<noteq> 0 then validate_account_name (cm_parent_author p) else Inr ()),
      validate_account_name (cm_author p),
      validate_permlink fc (cm_parent_permlink p),
      validate_permlink fc (cm_permlink p),
      (if length (cm_json_metadata p) > 0
       then assertR (json_is_valid fc (cm_json_metadata p)) ''JSON Metadata not valid JSON'' else Inr ())]"

text \<open>The loop over the beneficiaries: \<open>prev\<close> is the previous route and \<open>wsum\<close> the weight so far.\<close>

definition validate_route_weight :: "beneficiary_route_type \<Rightarrow> nat \<Rightarrow> exn + nat" where
  "validate_route_weight b wsum =
     bindR (validate_account_name (br_account b)) (\<lambda>_.
     bindR (assertR (int (br_weight b) \<le> PERCENT_100) ''Cannot allocate more than 100% of rewards to one account'') (\<lambda>_.
     let wsum1 = (wsum + br_weight b) mod 2 ^ 32 in
     bindR (assertR (int wsum1 \<le> PERCENT_100) ''Cannot allocate more than 100% of rewards to a comment'') (\<lambda>_.
     Inr wsum1)))"

fun validate_routes :: "beneficiary_route_type \<Rightarrow> beneficiary_route_type list \<Rightarrow> nat \<Rightarrow> exn + unit" where
  "validate_routes prev [] wsum = Inr ()"
| "validate_routes prev (b # bs) wsum =
     bindR (validate_route_weight b wsum) (\<lambda>wsum1.
     bindR (assertR (br_account prev < br_account b)
       ''Benficiaries must be specified in sorted order (account ascending)'') (\<lambda>_.
     validate_routes b bs wsum1))"

definition beneficiaries_validate :: "beneficiary_route_type list \<Rightarrow> exn + unit" where
  "beneficiaries_validate bs =
     bindR (assertR (bs \<noteq> []) ''Must specify at least one beneficiary'') (\<lambda>_.
     bindR (assertR (length bs < 128) ''Cannot specify more than 127 beneficiaries.'') (\<lambda>_.
     bindR (validate_route_weight (hd bs) 0) (\<lambda>wsum.
     validate_routes (hd bs) (tl bs) wsum)))"

definition curation_rewards_percent_validate :: "nat \<Rightarrow> exn + unit" where
  "curation_rewards_percent_validate pc =
     assertR (MIN_CURATION_PERCENT \<le> int pc \<and> int pc \<le> MAX_CURATION_PERCENT)
       ''Curation rewards percent must be between ${min} and ${max}.''"

fun comment_options_extension_validate :: "comment_options_extension \<Rightarrow> exn + unit" where
  "comment_options_extension_validate (comment_payout_beneficiaries bs) = beneficiaries_validate bs"
| "comment_options_extension_validate (comment_curation_rewards_percent pc) = curation_rewards_percent_validate pc"

definition comment_options_validate :: "fc_lib \<Rightarrow> comment_options_operation \<Rightarrow> exn + unit" where
  "comment_options_validate fc p = seqR
     [validate_account_name (cp_author p),
      assertR (int (cp_percent_bmt_dollars p) \<le> PERCENT_100) ''Percent cannot exceed 100%'',
      assertR (symbol (cp_max_accepted_payout p) = BMT_SYMBOL) ''Max accepted payout must be in SBD'',
      assertR (amount (cp_max_accepted_payout p) \<ge> 0) ''Cannot accept less than 0 payout'',
      validate_permlink fc (cp_permlink p),
      checkR comment_options_extension_validate (cp_extensions p)]"

definition delete_comment_validate :: "fc_lib \<Rightarrow> delete_comment_operation \<Rightarrow> exn + unit" where
  "delete_comment_validate fc p = seqR
     [validate_permlink fc (dc_permlink p), validate_account_name (dc_author p)]"

definition challenge_authority_validate :: "challenge_authority_operation \<Rightarrow> exn + unit" where
  "challenge_authority_validate p = seqR
     [validate_account_name (ch_challenger p),
      validate_account_name (ch_challenged p),
      assertR (ch_challenged p \<noteq> ch_challenger p) ''cannot challenge yourself'']"

definition vote_validate :: "fc_lib \<Rightarrow> vote_operation \<Rightarrow> exn + unit" where
  "vote_validate fc p = seqR
     [validate_account_name (vo_voter p),
      validate_account_name (vo_author p),
      assertR (\<bar>vo_weight p\<bar> \<le> PERCENT_100) ''Weight is not a BMCHAIN percentage'',
      validate_permlink fc (vo_permlink p)]"

definition validate_memo :: "fc_lib \<Rightarrow> string \<Rightarrow> exn + unit" where
  "validate_memo fc m = seqR
     [assertR (length m < MAX_MEMO_SIZE) ''Memo is too large'',
      assertR (is_utf8 fc m) ''Memo is not UTF8'']"

definition transfer_validate :: "fc_lib \<Rightarrow> transfer_operation \<Rightarrow> exn + unit" where
  "transfer_validate fc p = seqR
     [validate_account_name (tr_from p),
      validate_account_name (tr_to p),
      assertR (amount (tr_amount p) > 0) ''Cannot transfer a negative amount (aka: stealing)'',
      validate_memo fc (tr_memo p)]"

definition transfer_to_vesting_validate :: "transfer_to_vesting_operation \<Rightarrow> exn + unit" where
  "transfer_to_vesting_validate p = seqR
     [validate_account_name (tv_from p),
      assertR (is_asset_type (tv_amount p) BMT_SYMBOL) ''Amount must be BMT'',
      (if tv_to p \<noteq> [] then validate_account_name (tv_to p) else Inr ()),
      assertM (asset_gt (tv_amount p) (bmt 0)) ''Must transfer a nonzero amount'']"

definition withdraw_savings_validate :: "withdraw_savings_operation \<Rightarrow> exn + unit" where
  "withdraw_savings_validate p = seqR
     [validate_account_name (wi_account p),
      assertR (is_asset_type (wi_savings p) BMT_SYMBOL) ''Amount must be BMT'']"

definition set_withdraw_savings_route_validate :: "set_withdraw_savings_route_operation \<Rightarrow> exn + unit" where
  "set_withdraw_savings_route_validate p = seqR
     [validate_account_name (sr_from_account p),
      validate_account_name (sr_to_account p),
      assertR (int (sr_percent p) \<le> PERCENT_100) ''Percent must be valid steemit percent'']"

definition chain_properties_validate :: "chain_properties \<Rightarrow> exn + unit" where
  "chain_properties_validate c = seqR
     [assertR (amount (account_creation_fee c) \<ge> MIN_ACCOUNT_CREATION_FEE)
        ''account_creation_fee.amount >= BMCHAIN_MIN_ACCOUNT_CREATION_FEE'',
      assertR (maximum_block_size c \<ge> MIN_BLOCK_SIZE_LIMIT)
        ''maximum_block_size >= BMCHAIN_MIN_BLOCK_SIZE_LIMIT'']"

definition witness_update_validate :: "fc_lib \<Rightarrow> witness_update_operation \<Rightarrow> exn + unit" where
  "witness_update_validate fc p = seqR
     [validate_account_name (wu_owner p),
      assertR (length (wu_url p) > 0) ''URL size must be greater than 0'',
      assertR (is_utf8 fc (wu_url p)) ''URL is not valid UTF8'',
      assertM (asset_ge (wu_fee p) (bmt 0)) ''Fee cannot be negative'',
      chain_properties_validate (wu_props p)]"

definition account_witness_vote_validate :: "account_witness_vote_operation \<Rightarrow> exn + unit" where
  "account_witness_vote_validate p = seqR
     [validate_account_name (av_account p), validate_account_name (av_witness p)]"

definition account_witness_proxy_validate :: "account_witness_proxy_operation \<Rightarrow> exn + unit" where
  "account_witness_proxy_validate p = seqR
     [validate_account_name (ap_account p),
      (if length (ap_proxy p) \<noteq> 0 then validate_account_name (ap_proxy p) else Inr ()),
      assertR (ap_proxy p \<noteq> ap_account p) ''Cannot proxy to self'']"

definition custom_validate :: "custom_operation \<Rightarrow> exn + unit" where
  "custom_validate p = assertR (length (cu_required_auths p) > 0) ''at least on account must be specified''"

definition custom_json_validate :: "fc_lib \<Rightarrow> custom_json_operation \<Rightarrow> exn + unit" where
  "custom_json_validate fc p = seqR
     [assertR (length (cj_required_auths p) + length (cj_required_posting_auths p) > 0)
        ''at least on account must be specified'',
      assertR (length (cj_id p) \<le> 32) ''id is too long'',
      assertR (is_utf8 fc (cj_json p)) ''JSON Metadata not formatted in UTF8'',
      assertR (json_is_valid fc (cj_json p)) ''JSON Metadata not valid JSON'']"

definition custom_binary_validate :: "custom_binary_operation \<Rightarrow> exn + unit" where
  "custom_binary_validate p = seqR
     [assertR (length (cb_required_owner_auths p) + length (cb_required_active_auths p) +
               length (cb_required_posting_auths p) > 0) ''at least on account must be specified'',
      assertR (length (cb_id p) \<le> 32) ''id is too long'',
      checkR authority_validate (cb_required_auths p)]"

definition escrow_transfer_validate :: "fc_lib \<Rightarrow> escrow_transfer_operation \<Rightarrow> exn + unit" where
  "escrow_transfer_validate fc p = seqR
     [validate_account_name (et_from p),
      validate_account_name (et_to p),
      validate_account_name (et_agent p),
      assertR (amount (et_fee p) \<ge> 0) ''fee cannot be negative'',
      assertR (amount (et_bmt_amount p) \<ge> 0) ''steem amount cannot be negative'',
      assertR (et_from p \<noteq> et_agent p \<and> et_to p \<noteq> et_agent p) ''agent must be a third party'',
      assertR (symbol (et_fee p) = BMT_SYMBOL) ''fee must be BMT'',
      assertR (symbol (et_bmt_amount p) = BMT_SYMBOL) ''steem amount must contain BMT'',
      assertR (et_ratification_deadline p < et_escrow_expiration p)
        ''ratification deadline must be before escrow expiration'',
      validate_json_metadata fc (et_json_meta p)]"

definition escrow_approve_validate :: "escrow_approve_operation \<Rightarrow> exn + unit" where
  "escrow_approve_validate p = seqR
     [validate_account_name (ea_from p), validate_account_name (ea_to p),
      validate_account_name (ea_agent p), validate_account_name (ea_who p),
      assertR (ea_who p = ea_to p \<or> ea_who p = ea_agent p) ''to or agent must approve escrow'']"

definition escrow_dispute_validate :: "escrow_dispute_operation \<Rightarrow> exn + unit" where
  "escrow_dispute_validate p = seqR
     [validate_account_name (ed_from p), validate_account_name (ed_to p),
      validate_account_name (ed_agent p), validate_account_name (ed_who p),
      assertR (ed_who p = ed_from p \<or> ed_who p = ed_to p) ''who must be from or to'']"

definition escrow_release_validate :: "escrow_release_operation \<Rightarrow> exn + unit" where
  "escrow_release_validate p = seqR
     [validate_account_name (er_from p), validate_account_name (er_to p),
      validate_account_name (er_agent p), validate_account_name (er_who p),
      validate_account_name (er_receiver p),
      assertR (er_who p = er_from p \<or> er_who p = er_to p \<or> er_who p = er_agent p) ''who must be from or to or agent'',
      assertR (er_receiver p = er_from p \<or> er_receiver p = er_to p) ''receiver must be from or to'',
      assertR (amount (er_bmt_amount p) \<ge> 0) ''steem amount cannot be negative'',
      assertR (symbol (er_bmt_amount p) = BMT_SYMBOL) ''steem amount must contain BMT'']"

definition request_account_recovery_validate :: "request_account_recovery_operation \<Rightarrow> exn + unit" where
  "request_account_recovery_validate p = seqR
     [validate_account_name (rq_recovery_account p),
      validate_account_name (rq_account_to_recover p),
      authority_validate (rq_new_owner_authority p)]"

definition recover_account_validate :: "recover_account_operation \<Rightarrow> exn + unit" where
  "recover_account_validate p = seqR
     [validate_account_name (rc_account_to_recover p),
      assertR (rc_new_owner_authority p \<noteq> rc_recent_owner_authority p)
        ''Cannot set new owner authority to the recent owner authority'',
      assertR (\<not> is_impossible (rc_new_owner_authority p)) ''new owner authority cannot be impossible'',
      assertR (\<not> is_impossible (rc_recent_owner_authority p)) ''recent owner authority cannot be impossible'',
      assertR (weight_threshold (rc_new_owner_authority p) \<noteq> 0) ''new owner authority cannot be trivial'',
      authority_validate (rc_new_owner_authority p),
      authority_validate (rc_recent_owner_authority p)]"

definition change_recovery_account_validate :: "change_recovery_account_operation \<Rightarrow> exn + unit" where
  "change_recovery_account_validate p = seqR
     [validate_account_name (cg_account_to_recover p), validate_account_name (cg_new_recovery_account p)]"

definition transfer_to_savings_validate :: "fc_lib \<Rightarrow> transfer_to_savings_operation \<Rightarrow> exn + unit" where
  "transfer_to_savings_validate fc p = seqR
     [validate_account_name (ts_from p), validate_account_name (ts_to p),
      assertR (amount (ts_amount p) > 0) ''amount.amount > 0'',
      assertR (symbol (ts_amount p) = BMT_SYMBOL) ''amount.symbol == BMT_SYMBOL'',
      validate_memo fc (ts_memo p)]"

definition transfer_from_savings_validate :: "fc_lib \<Rightarrow> transfer_from_savings_operation \<Rightarrow> exn + unit" where
  "transfer_from_savings_validate fc p = seqR
     [validate_account_name (tf_from p), validate_account_name (tf_to p),
      assertR (amount (tf_amount p) > 0) ''amount.amount > 0'',
      assertR (symbol (tf_amount p) = BMT_SYMBOL) ''amount.symbol == BMT_SYMBOL'',
      validate_memo fc (tf_memo p)]"

definition cancel_transfer_from_savings_validate :: "cancel_transfer_from_savings_operation \<Rightarrow> exn + unit" where
  "cancel_transfer_from_savings_validate p = validate_account_name (tc_from p)"

definition decline_voting_rights_validate :: "decline_voting_rights_operation \<Rightarrow> exn + unit" where
  "decline_voting_rights_validate p = validate_account_name (dv_account p)"

definition reset_account_validate :: "reset_account_operation \<Rightarrow> exn + unit" where
  "reset_account_validate p = seqR
     [validate_account_name (rs_reset_account p), validate_account_name (rs_account_to_reset p),
      assertR (\<not> is_impossible (rs_new_owner_authority p)) ''new owner authority cannot be impossible'',
      assertR (weight_threshold (rs_new_owner_authority p) \<noteq> 0) ''new owner authority cannot be trivial'',
      authority_validate (rs_new_owner_authority p)]"

definition set_reset_account_validate :: "set_reset_account_operation \<Rightarrow> exn + unit" where
  "set_reset_account_validate p = seqR
     [validate_account_name (ss_account p),
      (if length (ss_current_reset_account p) \<noteq> 0 then validate_account_name (ss_current_reset_account p) else Inr ()),
      validate_account_name (ss_reset_account p),
      assertR (ss_current_reset_account p \<noteq> ss_reset_account p)
        ''new reset account cannot be current reset account'']"

definition claim_reward_balance_validate :: "claim_reward_balance_operation \<Rightarrow> exn + unit" where
  "claim_reward_balance_validate p = seqR
     [validate_account_name (cl_account p),
      assertR (is_asset_type (cl_reward_bmt p) BMT_SYMBOL) ''Reward Steem must be BMT'',
      assertR (is_asset_type (cl_reward_vests p) VESTS_SYMBOL) ''Reward Steem must be REP'',
      assertR (amount (cl_reward_bmt p) \<ge> 0) ''Cannot claim a negative amount'',
      assertR (amount (cl_reward_vests p) \<ge> 0) ''Cannot claim a negative amount'',
      assertR (amount (cl_reward_bmt p) > 0 \<or> amount (cl_reward_vests p) > 0) ''Must claim something.'']"

definition delegate_vesting_shares_validate :: "delegate_vesting_shares_operation \<Rightarrow> exn + unit" where
  "delegate_vesting_shares_validate p = seqR
     [validate_account_name (de_delegator p), validate_account_name (de_delegatee p),
      assertR (de_delegator p \<noteq> de_delegatee p) ''You cannot delegate VESTS to yourself'',
      assertR (is_asset_type (de_vesting_shares p) VESTS_SYMBOL) ''Delegation must be VESTS'',
      assertM (asset_ge (de_vesting_shares p) (vests 0)) ''Delegation cannot be negative'']"

definition content_order_create_validate :: "content_order_create_operation \<Rightarrow> exn + unit" where
  "content_order_create_validate p = seqR
     [validate_account_name (oc_author p), validate_account_name (oc_owner p),
      assertR (oc_author p \<noteq> oc_owner p) ''You cannot sell content to yourself'',
      assertR (is_asset_type (oc_price p) BMT_SYMBOL) ''Price must be BMT'']"

definition content_order_cancel_validate :: "content_order_cancel_operation \<Rightarrow> exn + unit" where
  "content_order_cancel_validate p = validate_account_name (ox_owner p)"

definition content_order_cancel_by_author_validate :: "content_order_cancel_by_author_operation \<Rightarrow> exn + unit" where
  "content_order_cancel_by_author_validate p = validate_account_name (oa_author p)"

definition private_message_validate :: "private_message_operation \<Rightarrow> exn + unit" where
  "private_message_validate p = validate_account_name (pm_from p)"

definition custom_token_setup_emissions_validate :: "custom_token_setup_emissions_operation \<Rightarrow> exn + unit" where
  "custom_token_setup_emissions_validate p =
     assertR (te_schedule_time p > GENESIS_TIME) ''schedule_time > BMCHAIN_GENESIS_TIME''"

text \<open>The bodies the source leaves empty check nothing.\<close>

definition operation_validate :: "fc_lib \<Rightarrow> operation \<Rightarrow> exn + unit" where
  "operation_validate fc opn =
     (case opn of
        account_create_op p \<Rightarrow> account_create_validate fc p
      | account_create_with_delegation_op p \<Rightarrow> account_create_with_delegation_validate fc p
      | account_update_op p \<Rightarrow> account_update_validate fc p
      | comment_op p \<Rightarrow> comment_validate fc p
      | encrypted_content_op p \<Rightarrow> comment_validate fc (en_comment p)
      | comment_options_op p \<Rightarrow> comment_options_validate fc p
      | challenge_authority_op p \<Rightarrow> challenge_authority_validate p
      | delete_comment_op p \<Rightarrow> delete_comment_validate fc p
      | vote_op p \<Rightarrow> vote_validate fc p
      | transfer_op p \<Rightarrow> transfer_validate fc p
      | escrow_transfer_op p \<Rightarrow> escrow_transfer_validate fc p
      | escrow_approve_op p \<Rightarrow> escrow_approve_validate p
      | escrow_dispute_op p \<Rightarrow> escrow_dispute_validate p
      | escrow_release_op p \<Rightarrow> escrow_release_validate p
      | transfer_to_vesting_op p \<Rightarrow> transfer_to_vesting_validate p
      | withdraw_savings_op p \<Rightarrow> withdraw_savings_validate p
      | set_withdraw_savings_route_op p \<Rightarrow> set_withdraw_savings_route_validate p
      | witness_update_op p \<Rightarrow> witness_update_validate fc p
      | account_witness_vote_op p \<Rightarrow> account_witness_vote_validate p
      | account_witness_proxy_op p \<Rightarrow> account_witness_proxy_validate p
      | custom_op p \<Rightarrow> custom_validate p
      | custom_json_op p \<Rightarrow> custom_json_validate fc p
      | custom_binary_op p \<Rightarrow> custom_binary_validate p
      | request_account_recovery_op p \<Rightarrow> request_account_recovery_validate p
      | recover_account_op p \<Rightarrow> recover_account_validate p
      | reset_account_op p \<Rightarrow> reset_account_validate p
      | set_reset_account_op p \<Rightarrow> set_reset_account_validate p
      | change_recovery_account_op p \<Rightarrow> change_recovery_account_validate p
      | transfer_to_savings_op p \<Rightarrow> transfer_to_savings_validate fc p
      | transfer_from_savings_op p \<Rightarrow> transfer_from_savings_validate fc p
      | cancel_transfer_from_savings_op p \<Rightarrow> cancel_transfer_from_savings_validate p
      | decline_voting_rights_op p \<Rightarrow> decline_voting_rights_validate p
      | claim_reward_balance_op p \<Rightarrow> claim_reward_balance_validate p
      | delegate_vesting_shares_op p \<Rightarrow> delegate_vesting_shares_validate p
      | content_order_create_op p \<Rightarrow> content_order_create_validate p
      | content_order_cancel_op p \<Rightarrow> content_order_cancel_validate p
      | content_order_cancel_by_author_op p \<Rightarrow> content_order_cancel_by_author_validate p
      | private_message_op p \<Rightarrow> private_message_validate p
      | custom_token_setup_emissions_op p \<Rightarrow> custom_token_setup_emissions_validate p
      | feed_publish_op _ \<Rightarrow> Inr ()
      | convert_op _ \<Rightarrow> Inr ()
      | limit_order_create_op _ \<Rightarrow> Inr ()
      | limit_order_create2_op _ \<Rightarrow> Inr ()
      | limit_order_cancel_op _ \<Rightarrow> Inr ()
      | custom_token_create_op _ \<Rightarrow> Inr ()
      | custom_token_transfer_op _ \<Rightarrow> Inr ()
      | custom_token_set_setup_parameters_op _ \<Rightarrow> Inr ()
      | prove_authority_op \<Rightarrow> Inr ())"

subsection \<open>Beneficiaries\<close>

lemma route_weightD:
  "validate_route_weight b wsum = Inr s \<Longrightarrow>
   is_valid_account_name (br_account b) \<and> s = (wsum + br_weight b) mod 2 ^ 32 \<and> int s \<le> PERCENT_100 \<and>
   int (br_weight b) \<le> PERCENT_100"
  by (auto simp: validate_route_weight_def validate_account_name_def Let_def res_simps)

lemma validate_routesD:
  assumes "validate_routes prev bs wsum = Inr ()" and "int wsum \<le> PERCENT_100"
  shows "sorted_wrt (<) (map br_account (prev # bs)) \<and> (\<forall>b \<in> set bs. is_valid_account_name (br_account b)) \<and>
     int (wsum + sum_list (map br_weight bs)) \<le> PERCENT_100"
  using assms
proof (induction bs arbitrary: prev wsum)
  case Nil
  then show ?case by simp
next
  case (Cons b bs)
  from Cons.prems(1) obtain s where s: "validate_route_weight b wsum = Inr s"
    and lt: "br_account prev < br_account b" and rest: "validate_routes b bs s = Inr ()"
    by (auto simp: res_simps)
  note w = route_weightD [OF s]
  have "wsum + br_weight b < 2 ^ 32" using w Cons.prems(2) by (simp add: PERCENT_100_def)
  then have s_eq: "s = wsum + br_weight b" using w by simp
  have ih: "sorted_wrt (<) (map br_account (b # bs)) \<and> (\<forall>b \<in> set bs. is_valid_account_name (br_account b)) \<and>
     int (s + sum_list (map br_weight bs)) \<le> PERCENT_100"
    using w by (intro Cons.IH [OF rest]) simp
  then have "sorted_wrt (<) (map br_account (prev # b # bs))"
    using lt by (auto intro: less_trans)
  with ih w s_eq show ?case by (simp add: add.assoc)
qed

text \<open>
  Beneficiaries. A list of beneficiaries that passes \<open>validate\<close> is not empty, has strictly
  increasing valid account names and weights whose true sum is at most 100 per cent: the
  incremental check makes the 32-bit sum exact.
\<close>

theorem beneficiaries_validate_ok:
  assumes "beneficiaries_validate bs = Inr ()"
  shows "bs \<noteq> [] \<and> sorted_wrt (<) (map br_account bs) \<and> (\<forall>b \<in> set bs. is_valid_account_name (br_account b)) \<and>
     int (sum_list (map br_weight bs)) \<le> PERCENT_100"
proof -
  from assms obtain s where "bs \<noteq> []" and s: "validate_route_weight (hd bs) 0 = Inr s"
    and r: "validate_routes (hd bs) (tl bs) s = Inr ()"
    by (auto simp: beneficiaries_validate_def res_simps)
  then obtain b cs where bs: "bs = b # cs" by (cases bs) auto
  note w = route_weightD [OF s]
  have "br_weight b < 2 ^ 32" using w bs by (simp add: PERCENT_100_def)
  then have "s = br_weight b" using w bs by simp
  with validate_routesD [OF r] w bs show ?thesis by simp
qed

theorem beneficiaries_validate_ok_witness:
  "beneficiaries_validate [\<lparr> br_account = ''alice'', br_weight = 2500 \<rparr>, \<lparr> br_account = ''bob'', br_weight = 7500 \<rparr>] = Inr () \<and>
   sorted_wrt (<) [''alice'', ''bob'']"
proof -
  have ok: "is_valid_account_name ''alice''" "is_valid_account_name ''bob''"
    by (simp_all add: is_valid_account_name_def MIN_ACCOUNT_NAME_LENGTH_def MAX_ACCOUNT_NAME_LENGTH_def
        name_labels_ok.simps find_first_of_def is_lower_def is_digit_def Let_def upt_rec)
  then have v: "beneficiaries_validate
      [\<lparr> br_account = ''alice'', br_weight = 2500 \<rparr>, \<lparr> br_account = ''bob'', br_weight = 7500 \<rparr>] = Inr ()"
    by (simp add: beneficiaries_validate_def validate_route_weight_def validate_account_name_def
        PERCENT_100_def Let_def)
  from beneficiaries_validate_ok [OF v] v show ?thesis by simp
qed

end
