(* ===== verification/Frames.thy ===== *)
theory Frames
  imports Ledger Validate
begin

text \<open>
  What the primitives of the database and the functions of the ledger leave alone, and how
  a property of all objects of a container is kept. \<open>all_rows\<close> is such a property; its three
  rules turn an invariant of a container into an obligation on the objects a step writes.
  The collection \<open>frames\<close> says which fields of the database a function may write, as an
  equation with a record update, so that the simplifier reads every other field through it.
\<close>

subsection \<open>Rows of a container\<close>

definition all_rows :: "('v \<Rightarrow> bool) \<Rightarrow> 'v generic_index \<Rightarrow> bool" where
  "all_rows P g \<longleftrightarrow> list_all (\<lambda>r. P (snd r)) (indices g)"

lemma map_of_upd_row_Some: "map_of rs i = Some v \<Longrightarrow> map_of (upd_row i v' rs) = (map_of rs)(i \<mapsto> v')"
  using map_of_Some_row_id [of rs i v] by (simp add: map_of_upd_row del: set_map)

lemma all_rows_map_of: "all_rows P g \<Longrightarrow> map_of (indices g) i = Some v \<Longrightarrow> P v"
  by (auto simp: all_rows_def list_all_iff dest!: map_of_SomeD)

lemma all_rows_get_id: "all_rows P g \<Longrightarrow> get_id g i = Inr v \<Longrightarrow> P v"
  by (auto simp: get_id_def find_id_def res_simps intro: all_rows_map_of)

lemma find_by_set: "find_by p g = Some (i, v) \<Longrightarrow> (i, v) \<in> set (indices g) \<and> p v"
  unfolding find_by_def by (metis find_Some_iff nth_mem snd_conv)

lemma all_rows_find_by: "all_rows P g \<Longrightarrow> find_by p g = Some (i, v) \<Longrightarrow> P v"
  by (auto simp: all_rows_def list_all_iff dest!: find_by_set)

lemma all_rows_emplace:
  "all_rows P g \<Longrightarrow> emplace cf con g = Inr (g', i) \<Longrightarrow> (\<And>v. con i = Inr v \<Longrightarrow> P v) \<Longrightarrow> all_rows P g'"
  by (elim emplaceD) (auto simp: all_rows_def list_all_iff)

lemma all_rows_modify:
  "all_rows P g \<Longrightarrow> modify cf i m g = Inr g' \<Longrightarrow> (\<And>v v'. P v \<Longrightarrow> m v = Inr v' \<Longrightarrow> P v') \<Longrightarrow> all_rows P g'"
proof (elim modifyD)
  fix v v'
  assume a: "all_rows P g" and v: "map_of (indices g) i = Some v" "m v = Inr v'"
    and g: "g' = g\<lparr>indices := upd_row i v' (indices g), stack := on_modify i v (stack g)\<rparr>"
    and step: "\<And>v v'. P v \<Longrightarrow> m v = Inr v' \<Longrightarrow> P v'"
  have "P v'" using all_rows_map_of [OF a v(1)] v(2) by (rule step)
  then show ?thesis
    using a set_upd_row_subset [of i v' "indices g"] by (auto simp: g all_rows_def list_all_iff)
qed

lemma all_rows_remove: "all_rows P g \<Longrightarrow> remove i g = Inr g' \<Longrightarrow> all_rows P g'"
  by (elim removeD) (use set_del_row_subset in \<open>fastforce simp: all_rows_def list_all_iff\<close>)

lemma modify_rows:
  "modify cf i m g = Inr g' \<Longrightarrow> \<exists>v v'. map_of (indices g) i = Some v \<and> m v = Inr v' \<and>
     map_of (indices g') = (map_of (indices g))(i \<mapsto> v') \<and> row_ids (indices g') = row_ids (indices g)"
  by (elim modifyD) (auto simp: map_of_upd_row_Some)

lemma emplace_rows:
  "emplace cf con g = Inr (g', i) \<Longrightarrow> \<exists>v. con i = Inr v \<and> map_of (indices g) i = None \<and>
     map_of (indices g') = (map_of (indices g))(i \<mapsto> v)"
proof (elim emplaceD)
  fix v
  assume "i = next_id g" and v: "con i = Inr v" and ok: "insert_ok cf i v (indices g)"
    and g: "g' = g\<lparr>indices := ins_row i v (indices g), next_id := next_id g + 1, stack := on_create i (stack g)\<rparr>"
  have "map_of (indices g) i = None"
    using ok by (auto simp: insert_ok_def list_all_iff map_of_eq_None_iff)
  with v g show ?thesis by (auto simp: map_of_ins_row)
qed

lemma get_by_find: "get_by p g = Inr r \<longleftrightarrow> find_by p g = Some r"
  by (simp add: get_by_def res_simps)

lemma find_by_map_of:
  assumes "rows_sorted (indices g)" and "find_by p g = Some (i, v)"
  shows "map_of (indices g) i = Some v"
  using find_by_set [OF assms(2)] rows_sorted_distinct [OF assms(1)] by simp

lemma find_by_row:
  "rows_sorted (indices g) \<Longrightarrow> get_by p g = Inr (i, v) \<Longrightarrow> map_of (indices g) i = Some v \<and> p v"
  by (auto simp: get_by_find dest: find_by_map_of find_by_set)

subsection \<open>Frames\<close>

named_theorems frames "which fields of the database a function writes"

lemma modify_account_frame [frames]: "modify_account i m db = Inr db' \<Longrightarrow> \<exists>t. db' = db\<lparr>accounts := t\<rparr>"
  by (auto simp: modify_account_def res_simps)

lemma modify_dgpo_frame [frames]: "modify_dgpo m db = Inr db' \<Longrightarrow> \<exists>t. db' = db\<lparr>dgpo := t\<rparr>"
  by (auto simp: modify_dgpo_def res_simps)

lemma modify_reward_fund_frame [frames]: "modify_reward_fund i m db = Inr db' \<Longrightarrow> \<exists>t. db' = db\<lparr>reward_funds := t\<rparr>"
  by (auto simp: modify_reward_fund_def res_simps)

lemma adjust_balance_frame [frames]: "adjust_balance fc i d db = Inr db' \<Longrightarrow> \<exists>t. db' = db\<lparr>accounts := t\<rparr>"
  by (auto simp: adjust_balance_def dest!: modify_account_frame)

lemma adjust_savings_balance_frame [frames]:
  "adjust_savings_balance fc i d db = Inr db' \<Longrightarrow> \<exists>t. db' = db\<lparr>accounts := t\<rparr>"
  by (auto simp: adjust_savings_balance_def dest!: modify_account_frame)

lemma adjust_reward_balance_frame [frames]:
  "adjust_reward_balance fc i d db = Inr db' \<Longrightarrow> \<exists>t. db' = db\<lparr>accounts := t\<rparr>"
  by (auto simp: adjust_reward_balance_def dest!: modify_account_frame)

lemma adjust_supply_frame [frames]: "adjust_supply fc d v db = Inr db' \<Longrightarrow> \<exists>t. db' = db\<lparr>dgpo := t\<rparr>"
  by (auto simp: adjust_supply_def Let_def dest!: modify_dgpo_frame)

lemma db_self:
  "\<exists>w. s = s\<lparr>witnesses := w\<rparr>" "\<exists>r. s = s\<lparr>reward_funds := r\<rparr>"
  by (rule exI [of _ "witnesses s"], simp) (rule exI [of _ "reward_funds s"], simp)

lemma foldR_frame:
  assumes "\<And>x s s'. x \<in> set xs \<Longrightarrow> f x s = Inr s' \<Longrightarrow> R s s'" and "\<And>s. R s s"
    and "\<And>s t u. R s t \<Longrightarrow> R t u \<Longrightarrow> R s u" and "foldR f xs s = Inr s'"
  shows "R s s'"
  using assms(4)
proof (rule foldR_inv [where P = "R s", rotated])
  show "R s s" by (rule assms(2))
qed (blast intro: assms(1,3))

lemma adjust_witness_votes_frame [frames]:
  "adjust_witness_votes fc i d db = Inr db' \<Longrightarrow> \<exists>w. db' = db\<lparr>witnesses := w\<rparr>"
  unfolding adjust_witness_votes_def
  by (erule foldR_frame [where R = "\<lambda>db db'. \<exists>w. db' = db\<lparr>witnesses := w\<rparr>", rotated 3])
    (auto simp: adjust_witness_vote_def modify_witness_def res_simps db_self)

lemma adjust_proxied_witness_votes_at_frame:
  "adjust_proxied_witness_votes_at fc n i d db = Inr db' \<Longrightarrow> \<exists>a w. db' = db\<lparr>accounts := a, witnesses := w\<rparr>"
proof (induction n arbitrary: i db)
  case 0
  show ?case
    by (insert 0, rule exI [of _ "accounts db'"], rule exI [of _ "witnesses db'"])
      (auto simp: res_simps split: if_splits dest!: frames)
next
  case (Suc n)
  show ?case
  proof (cases "\<exists>a. get_id (accounts db) i = Inr a \<and> a_proxy a \<noteq> PROXY_TO_SELF_ACCOUNT")
    case True
    with Suc.prems obtain pi m db1 where m: "modify_account pi m db = Inr db1"
      and r: "adjust_proxied_witness_votes_at fc n pi d db1 = Inr db'"
      by (auto simp: res_simps Let_def)
    show ?thesis
      by (insert Suc.IH [OF r] modify_account_frame [OF m], rule exI [of _ "accounts db'"],
          rule exI [of _ "witnesses db'"]) auto
  next
    case False
    show ?thesis
      by (insert Suc.prems False, rule exI [of _ "accounts db'"], rule exI [of _ "witnesses db'"])
        (auto simp: res_simps Let_def split: if_splits dest!: frames)
  qed
qed

lemma adjust_proxied_witness_votes_frame [frames]:
  "adjust_proxied_witness_votes fc i d db = Inr db' \<Longrightarrow> \<exists>a w. db' = db\<lparr>accounts := a, witnesses := w\<rparr>"
  unfolding adjust_proxied_witness_votes_def by (rule adjust_proxied_witness_votes_at_frame)

lemma create_vesting_frame [frames]:
  "create_vesting fc i l rw db = Inr (db', v) \<Longrightarrow> \<exists>a w g. db' = db\<lparr>accounts := a, witnesses := w, dgpo := g\<rparr>"
  by (rule exI [of _ "accounts db'"], rule exI [of _ "witnesses db'"], rule exI [of _ "dgpo db'"])
    (auto simp: create_vesting_def res_simps split: if_splits dest!: frames)

lemma pay_reward_funds_frame [frames]:
  assumes "pay_reward_funds fc r db = Inr (db', u)"
  shows "\<exists>t. db' = db\<lparr>reward_funds := t\<rparr>"
proof -
  have "\<exists>t. fst (db', u) = (fst (db, 0 :: int))\<lparr>reward_funds := t\<rparr>"
    using assms unfolding pay_reward_funds_def
    by (rule foldR_frame [where R = "\<lambda>s s'. \<exists>t. fst s' = (fst s)\<lparr>reward_funds := t\<rparr>", rotated 3])
      (auto simp: res_simps split: prod.splits dest!: frames simp: db_self)
  then show ?thesis by simp
qed

lemma process_funds_bmchain_frame [frames]:
  "process_funds_bmchain fc n db = Inr db' \<Longrightarrow> \<exists>a r g. db' = db\<lparr>accounts := a, reward_funds := r, dgpo := g\<rparr>"
  by (rule exI [of _ "accounts db'"], rule exI [of _ "reward_funds db'"], rule exI [of _ "dgpo db'"])
    (auto simp: process_funds_bmchain_def Let_def res_simps split: if_splits prod.splits dest!: frames)

subsection \<open>What every step keeps\<close>

text \<open>
  A step is calm when it keeps the containers that money is looked up in ordered by id, so
  that a lookup by key and one by id read the same row, keeps which reward funds there are
  and the records of transactions seen; it is quiet when it does not touch the escrows either. The collection \<open>quiets\<close> says
  so for the primitives on the other containers and for the functions of the ledger.
\<close>

definition db_sorted :: "database \<Rightarrow> bool" where
  "db_sorted db \<longleftrightarrow> rows_sorted (indices (accounts db)) \<and> rows_sorted (indices (limit_orders db)) \<and>
     rows_sorted (indices (savings_withdraws db)) \<and> rows_sorted (indices (content_orders db)) \<and>
     rows_sorted (indices (escrows db)) \<and> rows_sorted (indices (reward_funds db))"

definition fund_ids :: "database \<Rightarrow> oid list" where
  "fund_ids db = row_ids (indices (reward_funds db))"

definition calm :: "database \<Rightarrow> database \<Rightarrow> bool" where
  "calm db db' \<longleftrightarrow> fund_ids db' = fund_ids db \<and> transactions db' = transactions db \<and>
     (db_sorted db \<longrightarrow> db_sorted db')"

definition quiet :: "database \<Rightarrow> database \<Rightarrow> bool" where
  "quiet db db' \<longleftrightarrow> calm db db' \<and> escrows db' = escrows db"

lemmas quiet_defs = quiet_def calm_def

lemma quiet_refl [simp]: "quiet db db" and calm_refl [simp]: "calm db db"
  by (auto simp: quiet_defs)

lemma quiet_trans: "quiet db1 db2 \<Longrightarrow> quiet db2 db3 \<Longrightarrow> quiet db1 db3"
  and calm_trans: "calm db1 db2 \<Longrightarrow> calm db2 db3 \<Longrightarrow> calm db1 db3"
  by (auto simp: quiet_defs)

lemma quiet_calm: "quiet db db' \<Longrightarrow> calm db db'"
  by (simp add: quiet_def)

named_theorems quiets "functions that keep the escrows, the reward funds and the order of rows"

lemma sorted_modify: "modify cf i m g = Inr g' \<Longrightarrow> row_ids (indices g') = row_ids (indices g)"
  by (auto elim!: modifyD)

lemma sorted_emplace: "emplace cf con g = Inr (g', i) \<Longrightarrow> rows_sorted (indices g) \<longrightarrow> rows_sorted (indices g')"
  using emplace_rows [of cf con g g' i] by (auto elim!: emplaceD intro: rows_sorted_ins_row)

lemma sorted_remove: "remove i g = Inr g' \<Longrightarrow> rows_sorted (indices g) \<longrightarrow> rows_sorted (indices g')"
  by (auto elim!: removeD intro: rows_sorted_del_row)

lemmas quiet_simps = quiet_defs db_sorted_def fund_ids_def

lemma modify_quiet [quiets]:
  "modify_account i m1 db = Inr db' \<Longrightarrow> quiet db db'"
  "modify_account_authority i m2 db = Inr db' \<Longrightarrow> quiet db db'"
  "modify_witness i m3 db = Inr db' \<Longrightarrow> quiet db db'"
  "modify_witness_vote i m4 db = Inr db' \<Longrightarrow> quiet db db'"
  "modify_comment i m5 db = Inr db' \<Longrightarrow> quiet db db'"
  "modify_comment_vote i m6 db = Inr db' \<Longrightarrow> quiet db db'"
  "modify_limit_order i m7 db = Inr db' \<Longrightarrow> quiet db db'"
  "modify_convert_request i m8 db = Inr db' \<Longrightarrow> quiet db db'"
  "modify_savings_withdraw i m9 db = Inr db' \<Longrightarrow> quiet db db'"
  "modify_withdraw_route i m10 db = Inr db' \<Longrightarrow> quiet db db'"
  "modify_decline_request i m11 db = Inr db' \<Longrightarrow> quiet db db'"
  "modify_recovery_request i m12 db = Inr db' \<Longrightarrow> quiet db db'"
  "modify_change_recovery i m13 db = Inr db' \<Longrightarrow> quiet db db'"
  "modify_owner_history i m14 db = Inr db' \<Longrightarrow> quiet db db'"
  "modify_delegation i m15 db = Inr db' \<Longrightarrow> quiet db db'"
  "modify_delegation_expiration i m16 db = Inr db' \<Longrightarrow> quiet db db'"
  "modify_content_order i m17 db = Inr db' \<Longrightarrow> quiet db db'"
  "modify_custom_token i m18 db = Inr db' \<Longrightarrow> quiet db db'"
  "modify_account_balance i m19 db = Inr db' \<Longrightarrow> quiet db db'"
  "modify_block_summary i m21 db = Inr db' \<Longrightarrow> quiet db db'"
  by (auto simp: res_simps quiet_simps split_beta
      modify_account_def modify_account_authority_def modify_witness_def modify_witness_vote_def modify_comment_def modify_comment_vote_def modify_limit_order_def modify_convert_request_def modify_savings_withdraw_def modify_withdraw_route_def modify_decline_request_def modify_recovery_request_def modify_change_recovery_def modify_owner_history_def modify_delegation_def modify_delegation_expiration_def modify_content_order_def modify_custom_token_def modify_account_balance_def modify_block_summary_def
      dest!: sorted_modify)

lemma remove_quiet [quiets]:
  "remove_account i db = Inr db' \<Longrightarrow> quiet db db'"
  "remove_account_authority i db = Inr db' \<Longrightarrow> quiet db db'"
  "remove_witness i db = Inr db' \<Longrightarrow> quiet db db'"
  "remove_witness_vote i db = Inr db' \<Longrightarrow> quiet db db'"
  "remove_comment i db = Inr db' \<Longrightarrow> quiet db db'"
  "remove_comment_vote i db = Inr db' \<Longrightarrow> quiet db db'"
  "remove_limit_order i db = Inr db' \<Longrightarrow> quiet db db'"
  "remove_convert_request i db = Inr db' \<Longrightarrow> quiet db db'"
  "remove_savings_withdraw i db = Inr db' \<Longrightarrow> quiet db db'"
  "remove_withdraw_route i db = Inr db' \<Longrightarrow> quiet db db'"
  "remove_decline_request i db = Inr db' \<Longrightarrow> quiet db db'"
  "remove_recovery_request i db = Inr db' \<Longrightarrow> quiet db db'"
  "remove_change_recovery i db = Inr db' \<Longrightarrow> quiet db db'"
  "remove_owner_history i db = Inr db' \<Longrightarrow> quiet db db'"
  "remove_delegation i db = Inr db' \<Longrightarrow> quiet db db'"
  "remove_delegation_expiration i db = Inr db' \<Longrightarrow> quiet db db'"
  "remove_content_order i db = Inr db' \<Longrightarrow> quiet db db'"
  "remove_custom_token i db = Inr db' \<Longrightarrow> quiet db db'"
  "remove_account_balance i db = Inr db' \<Longrightarrow> quiet db db'"
  "remove_block_summary i db = Inr db' \<Longrightarrow> quiet db db'"
  by (auto simp: res_simps quiet_simps split_beta
      remove_account_def remove_account_authority_def remove_witness_def remove_witness_vote_def remove_comment_def remove_comment_vote_def remove_limit_order_def remove_convert_request_def remove_savings_withdraw_def remove_withdraw_route_def remove_decline_request_def remove_recovery_request_def remove_change_recovery_def remove_owner_history_def remove_delegation_def remove_delegation_expiration_def remove_content_order_def remove_custom_token_def remove_account_balance_def remove_block_summary_def
      dest!: sorted_remove)

lemma create_quiet [quiets]:
  "create_account k43 db = Inr (db', i) \<Longrightarrow> quiet db db'"
  "create_account_authority k44 db = Inr (db', i) \<Longrightarrow> quiet db db'"
  "create_witness k45 db = Inr (db', i) \<Longrightarrow> quiet db db'"
  "create_witness_vote k46 db = Inr (db', i) \<Longrightarrow> quiet db db'"
  "create_comment k47 db = Inr (db', i) \<Longrightarrow> quiet db db'"
  "create_comment_vote k48 db = Inr (db', i) \<Longrightarrow> quiet db db'"
  "create_limit_order k49 db = Inr (db', i) \<Longrightarrow> quiet db db'"
  "create_convert_request k50 db = Inr (db', i) \<Longrightarrow> quiet db db'"
  "create_savings_withdraw k51 db = Inr (db', i) \<Longrightarrow> quiet db db'"
  "create_withdraw_route k52 db = Inr (db', i) \<Longrightarrow> quiet db db'"
  "create_decline_request k53 db = Inr (db', i) \<Longrightarrow> quiet db db'"
  "create_recovery_request k54 db = Inr (db', i) \<Longrightarrow> quiet db db'"
  "create_change_recovery k55 db = Inr (db', i) \<Longrightarrow> quiet db db'"
  "create_owner_history k56 db = Inr (db', i) \<Longrightarrow> quiet db db'"
  "create_delegation k57 db = Inr (db', i) \<Longrightarrow> quiet db db'"
  "create_delegation_expiration k58 db = Inr (db', i) \<Longrightarrow> quiet db db'"
  "create_content_order k59 db = Inr (db', i) \<Longrightarrow> quiet db db'"
  "create_custom_token k60 db = Inr (db', i) \<Longrightarrow> quiet db db'"
  "create_account_balance k61 db = Inr (db', i) \<Longrightarrow> quiet db db'"
  "create_block_summary k63 db = Inr (db', i) \<Longrightarrow> quiet db db'"
  by (auto simp: res_simps quiet_simps split_beta
      create_account_def create_account_authority_def create_witness_def create_witness_vote_def create_comment_def create_comment_vote_def create_limit_order_def create_convert_request_def create_savings_withdraw_def create_withdraw_route_def create_decline_request_def create_recovery_request_def create_change_recovery_def create_owner_history_def create_delegation_def create_delegation_expiration_def create_content_order_def create_custom_token_def create_account_balance_def create_block_summary_def
      dest!: sorted_emplace)

lemma modify_single_quiet [quiets]:
  "modify_dgpo f db = Inr db' \<Longrightarrow> quiet db db'"
  "modify_wso g db = Inr db' \<Longrightarrow> quiet db db'"
  "modify_hfo h db = Inr db' \<Longrightarrow> quiet db db'"
  "modify_reward_fund i m db = Inr db' \<Longrightarrow> quiet db db'"
  by (auto simp: res_simps quiet_simps modify_dgpo_def modify_wso_def modify_hfo_def modify_reward_fund_def
      dest!: sorted_modify)

lemma escrow_calm [quiets]:
  "modify_escrow i m db = Inr db' \<Longrightarrow> calm db db'"
  "remove_escrow i db = Inr db' \<Longrightarrow> calm db db'"
  "create_escrow k db = Inr (db', i) \<Longrightarrow> calm db db'"
  by (auto simp: res_simps quiet_simps modify_escrow_def remove_escrow_def create_escrow_def
      dest!: sorted_modify sorted_remove sorted_emplace)

lemma foldR_quiet:
  "(\<And>x s s'. x \<in> set xs \<Longrightarrow> f x s = Inr s' \<Longrightarrow> quiet s s') \<Longrightarrow> foldR f xs db = Inr db' \<Longrightarrow> quiet db db'"
  by (erule foldR_frame [rotated 3]) (auto intro: quiet_trans)

lemma adjust_quiet [quiets]:
  "adjust_balance fc i d db = Inr db' \<Longrightarrow> quiet db db'"
  "adjust_savings_balance fc i d db = Inr db' \<Longrightarrow> quiet db db'"
  "adjust_reward_balance fc i d db = Inr db' \<Longrightarrow> quiet db db'"
  "adjust_supply fc d v db = Inr db' \<Longrightarrow> quiet db db'"
  "adjust_witness_vote fc i n db = Inr db' \<Longrightarrow> quiet db db'"
  "adjust_rshares2 a b db = Inr db' \<Longrightarrow> quiet db db'"
  by (auto simp: adjust_balance_def adjust_savings_balance_def adjust_reward_balance_def adjust_supply_def Let_def
      adjust_witness_vote_def adjust_rshares2_def dest!: quiets)

lemma adjust_witness_votes_quiet [quiets]: "adjust_witness_votes fc i n db = Inr db' \<Longrightarrow> quiet db db'"
  unfolding adjust_witness_votes_def by (erule foldR_quiet [rotated]) (auto dest: quiets)

lemma adjust_proxied_witness_votes_at_quiet:
  "adjust_proxied_witness_votes_at fc n i d db = Inr db' \<Longrightarrow> quiet db db'"
  by (induction n arbitrary: i db)
    (fastforce simp: res_simps Let_def split: if_splits dest: quiets intro: quiet_trans)+

lemma adjust_proxied_witness_votes_array_at_quiet:
  "adjust_proxied_witness_votes_array_at fc n i d db = Inr db' \<Longrightarrow> quiet db db'"
  by (induction n arbitrary: i db)
    (fastforce simp: res_simps Let_def split: if_splits dest: quiets intro: quiet_trans)+

lemma adjust_proxied_quiet [quiets]:
  "adjust_proxied_witness_votes fc i n db = Inr db' \<Longrightarrow> quiet db db'"
  "adjust_proxied_witness_votes_array fc i ds db = Inr db' \<Longrightarrow> quiet db db'"
  unfolding adjust_proxied_witness_votes_def adjust_proxied_witness_votes_array_def
  by (fact adjust_proxied_witness_votes_at_quiet adjust_proxied_witness_votes_array_at_quiet)+

lemma clear_witness_votes_quiet [quiets]: "clear_witness_votes i db = Inr db' \<Longrightarrow> quiet db db'"
  by (auto simp: clear_witness_votes_def res_simps dest!: quiets foldR_quiet [rotated] intro: quiet_trans)

lemma update_owner_authority_quiet [quiets]: "update_owner_authority i a db = Inr db' \<Longrightarrow> quiet db db'"
  by (auto simp: update_owner_authority_def res_simps split: if_splits prod.splits dest!: quiets intro: quiet_trans)

lemma create_vesting_quiet [quiets]: "create_vesting fc i l rw db = Inr (db', x) \<Longrightarrow> quiet db db'"
  by (auto simp: create_vesting_def res_simps quiet_defs split: if_splits dest!: quiets)

lemma pay_reward_funds_quiet [quiets]: "pay_reward_funds fc r db = Inr (db', u) \<Longrightarrow> quiet db db'"
proof -
  assume "pay_reward_funds fc r db = Inr (db', u)"
  then have "quiet (fst (db, 0 :: int)) (fst (db', u))"
    unfolding pay_reward_funds_def
    by (rule foldR_frame [where R = "\<lambda>s s'. quiet (fst s) (fst s')", rotated 3])
      (auto simp: res_simps split: prod.splits dest!: quiets intro: quiet_trans)
  then show ?thesis by simp
qed

lemma process_funds_bmchain_quiet [quiets]: "process_funds_bmchain fc n db = Inr db' \<Longrightarrow> quiet db db'"
  by (auto simp: process_funds_bmchain_def Let_def res_simps quiet_defs split: if_splits prod.splits dest!: quiets)

lemma pay_fee_quiet [quiets]: "pay_fee fc i d db = Inr db' \<Longrightarrow> quiet db db'"
  by (auto simp: pay_fee_def res_simps quiet_defs split: if_splits dest!: quiets)

end
