(* ===== verification/Escrow.thy ===== *)
theory Escrow
  imports Frames
begin

text \<open>
  The four escrow operations of \<open>bmchain_evaluator.cpp\<close>. An escrow is created unapproved
  with its amount and fee taken from the sender; recipient and agent ratify it or either
  rejects it; after both ratified, the agent has the fee, a dispute can be raised, and the
  amount is released in parts until the object is removed. The lemmas show that every step
  keeps the BMT of the chain and the well-formedness of escrows, and who may release what to
  whom.
\<close>

definition escrow_transfer_evaluator :: "fc_lib \<Rightarrow> escrow_transfer_operation \<Rightarrow> database \<Rightarrow> exn + database" where
  "escrow_transfer_evaluator fc p db =
     bindR (get_account (et_from p) db) (\<lambda>(fi, from).
     bindR (get_account (et_to p) db) (\<lambda>_.
     bindR (get_account (et_agent p) db) (\<lambda>_.
     bindR (assertR (et_ratification_deadline p > head_block_time db)
       ''The escorw ratification deadline must be after head block time.'') (\<lambda>_.
     bindR (assertR (et_escrow_expiration p > head_block_time db)
       ''The escrow expiration must be after head block time.'') (\<lambda>_.
     bindR (if symbol (et_fee p) = BMT_SYMBOL then asset_plus fc (et_bmt_amount p) (et_fee p)
            else Inr (et_bmt_amount p)) (\<lambda>bmt_spent.
     bindR (assertM (asset_ge (a_balance from) bmt_spent) ''Account cannot cover BMT costs of escrow.'') (\<lambda>_.
     bindR (asset_neg fc bmt_spent) (\<lambda>neg.
     bindR (adjust_balance fc fi neg db) (\<lambda>db1.
     bindR (create_escrow (\<lambda>_. Inr (default_escrow_object\<lparr>
       e_escrow_id := et_escrow_id p, e_from := et_from p, e_to := et_to p, e_agent := et_agent p,
       e_ratification_deadline := et_ratification_deadline p, e_escrow_expiration := et_escrow_expiration p,
       e_bmt_balance := et_bmt_amount p, e_pending_fee := et_fee p\<rparr>)) db1) (\<lambda>(db2, _).
     Inr db2))))))))))"

text \<open>The two marks: each of the parties of the operation approves, unless it rejects.\<close>

definition escrow_mark :: "escrow_approve_operation \<Rightarrow> oid \<Rightarrow> database \<Rightarrow> exn + database" where
  "escrow_mark p ei db =
     bindR (get_id (escrows db) ei) (\<lambda>esc.
     bindR (if ea_who p = ea_to p then
              bindR (assertR (\<not> e_to_approved esc) ''Account 'to' has already approved the escrow.'') (\<lambda>_.
              if ea_approve p then modify_escrow ei (\<lambda>e. Inr (e\<lparr>e_to_approved := True\<rparr>)) db else Inr db)
            else Inr db) (\<lambda>db1.
     bindR (get_id (escrows db1) ei) (\<lambda>esc1.
     if ea_who p = ea_agent p then
       bindR (assertR (\<not> e_agent_approved esc1) ''Account 'agent' has already approved the escrow.'') (\<lambda>_.
       if ea_approve p then modify_escrow ei (\<lambda>e. Inr (e\<lparr>e_agent_approved := True\<rparr>)) db1 else Inr db1)
     else Inr db1)))"

text \<open>A rejection returns amount and fee; the second approval pays the fee.\<close>

definition escrow_settle :: "fc_lib \<Rightarrow> escrow_approve_operation \<Rightarrow> oid \<Rightarrow> database \<Rightarrow> exn + database" where
  "escrow_settle fc p ei db =
     bindR (get_id (escrows db) ei) (\<lambda>esc.
     if \<not> ea_approve p then
       bindR (get_account (ea_from p) db) (\<lambda>(fi, _).
       bindR (adjust_balance fc fi (e_bmt_balance esc) db) (\<lambda>db1.
       bindR (adjust_balance fc fi (e_pending_fee esc) db1) (\<lambda>db2.
       remove_escrow ei db2)))
     else if e_to_approved esc \<and> e_agent_approved esc then
       bindR (get_account (ea_agent p) db) (\<lambda>(ai, _).
       bindR (adjust_balance fc ai (e_pending_fee esc) db) (\<lambda>db1.
       modify_escrow ei (\<lambda>e. Inr (e\<lparr>e_pending_fee := (e_pending_fee e)\<lparr>amount := 0\<rparr>\<rparr>)) db1))
     else Inr db)"

definition escrow_approve_evaluator :: "fc_lib \<Rightarrow> escrow_approve_operation \<Rightarrow> database \<Rightarrow> exn + database" where
  "escrow_approve_evaluator fc p db =
     bindR (get_escrow (ea_from p) (ea_escrow_id p) db) (\<lambda>(ei, esc).
     bindR (assertR (e_to esc = ea_to p) ''Operation 'to' does not match escrow 'to'.'') (\<lambda>_.
     bindR (assertR (e_agent esc = ea_agent p) ''Operation 'agent' does not match escrow 'agent'.'') (\<lambda>_.
     bindR (assertR (e_ratification_deadline esc \<ge> head_block_time db)
       ''The escrow ratification deadline has passed. Escrow can no longer be ratified.'') (\<lambda>_.
     bindR (escrow_mark p ei db) (escrow_settle fc p ei)))))"

definition escrow_dispute_evaluator :: "escrow_dispute_operation \<Rightarrow> database \<Rightarrow> exn + database" where
  "escrow_dispute_evaluator p db =
     bindR (get_account (ed_from p) db) (\<lambda>_.
     bindR (get_escrow (ed_from p) (ed_escrow_id p) db) (\<lambda>(ei, e).
     bindR (assertR (head_block_time db < e_escrow_expiration e)
       ''Disputing the escrow must happen before expiration.'') (\<lambda>_.
     bindR (assertR (e_to_approved e \<and> e_agent_approved e)
       ''The escrow must be approved by all parties before a dispute can be raised.'') (\<lambda>_.
     bindR (assertR (\<not> e_disputed e) ''The escrow is already under dispute.'') (\<lambda>_.
     bindR (assertR (e_to e = ed_to p) ''Operation 'to' does not match escrow 'to'.'') (\<lambda>_.
     bindR (assertR (e_agent e = ed_agent p) ''Operation 'agent' does not match escrow 'agent'.'') (\<lambda>_.
     modify_escrow ei (\<lambda>e. Inr (e\<lparr>e_disputed := True\<rparr>)) db)))))))"

text \<open>Who may release to whom.\<close>

definition release_check :: "escrow_release_operation \<Rightarrow> time_point_sec \<Rightarrow> escrow_object \<Rightarrow> exn + unit" where
  "release_check p now e =
     (if e_disputed e then
        assertR (er_who p = e_agent e) ''Only 'agent' can release funds in a disputed escrow.''
      else
        bindR (assertR (er_who p = e_from e \<or> er_who p = e_to e)
          ''Only 'from' and 'to' can release funds from a non-disputed escrow'') (\<lambda>_.
        if e_escrow_expiration e > now then
          (if er_who p = e_from e then
             assertR (er_receiver p = e_to e) ''Only 'from' can release funds to 'to'.''
           else if er_who p = e_to e then
             assertR (er_receiver p = e_from e) ''Only 'to' can release funds to 'from'.''
           else Inr ())
        else Inr ()))"

definition escrow_release_evaluator :: "fc_lib \<Rightarrow> escrow_release_operation \<Rightarrow> database \<Rightarrow> exn + database" where
  "escrow_release_evaluator fc p db =
     bindR (get_account (er_from p) db) (\<lambda>_.
     bindR (get_account (er_receiver p) db) (\<lambda>(ri, _).
     bindR (get_escrow (er_from p) (er_escrow_id p) db) (\<lambda>(ei, e).
     bindR (assertM (asset_ge (e_bmt_balance e) (er_bmt_amount p)) ''Release amount exceeds escrow balance.'') (\<lambda>_.
     bindR (assertR (e_to e = er_to p) ''Operation 'to' does not match escrow 'to'.'') (\<lambda>_.
     bindR (assertR (e_agent e = er_agent p) ''Operation 'agent' does not match escrow 'agent'.'') (\<lambda>_.
     bindR (assertR (er_receiver p = e_from e \<or> er_receiver p = e_to e)
       ''Funds must be released to from or to'') (\<lambda>_.
     bindR (assertR (e_to_approved e \<and> e_agent_approved e)
       ''Funds cannot be released prior to escrow approval.'') (\<lambda>_.
     bindR (release_check p (head_block_time db) e) (\<lambda>_.
     bindR (adjust_balance fc ri (er_bmt_amount p) db) (\<lambda>db1.
     bindR (modify_escrow ei (\<lambda>e.
       bindR (asset_minus fc (e_bmt_balance e) (er_bmt_amount p)) (\<lambda>b. Inr (e\<lparr>e_bmt_balance := b\<rparr>))) db1) (\<lambda>db2.
     bindR (get_id (escrows db2) ei) (\<lambda>e2.
     if amount (e_bmt_balance e2) = 0 then remove_escrow ei db2 else Inr db2))))))))))))"

subsection \<open>Conservation\<close>

lemma modify_escrow_row:
  "modify_escrow i m db = Inr db' \<Longrightarrow> \<exists>v v'. map_of (indices (escrows db)) i = Some v \<and> m v = Inr v' \<and>
     map_of (indices (escrows db')) = (map_of (indices (escrows db)))(i \<mapsto> v') \<and>
     rows_sorted (indices (escrows db')) = rows_sorted (indices (escrows db))"
  by (auto simp: modify_escrow_def res_simps dest!: modify_rows)

lemmas escrow_row_simps = get_id_def find_id_def get_escrow_def get_by_def

subsection \<open>Well-formed escrows\<close>

text \<open>
  Amounts are non-negative BMT, the fee has been paid out once both parties approved, and
  only an approved escrow is disputed.
\<close>

definition escrow_wf :: "escrow_object \<Rightarrow> bool" where
  "escrow_wf e \<longleftrightarrow> symbol (e_bmt_balance e) = BMT_SYMBOL \<and> symbol (e_pending_fee e) = BMT_SYMBOL \<and>
     amount (e_bmt_balance e) \<ge> 0 \<and> amount (e_pending_fee e) \<ge> 0 \<and>
     (is_approved e \<longrightarrow> amount (e_pending_fee e) = 0) \<and> (e_disputed e \<longrightarrow> is_approved e)"

definition escrows_ok :: "escrow_object generic_index \<Rightarrow> bool" where
  "escrows_ok g \<longleftrightarrow> rows_sorted (indices g) \<and> all_rows escrow_wf g"

lemma all_rows_iff: "rows_sorted (indices g) \<Longrightarrow> all_rows P g \<longleftrightarrow> (\<forall>i v. map_of (indices g) i = Some v \<longrightarrow> P v)"
  using rows_sorted_distinct [of "indices g"] by (auto simp: all_rows_def list_all_iff)

lemma escrows_ok_iff:
  "escrows_ok g \<longleftrightarrow> rows_sorted (indices g) \<and> (\<forall>i e. map_of (indices g) i = Some e \<longrightarrow> escrow_wf e)"
  by (auto simp: escrows_ok_def all_rows_iff)

lemma escrows_ok_upd:
  "escrows_ok g \<Longrightarrow> map_of (indices g') = (map_of (indices g))(i \<mapsto> e) \<Longrightarrow>
   rows_sorted (indices g') = rows_sorted (indices g) \<Longrightarrow> escrow_wf e \<Longrightarrow> escrows_ok g'"
  by (auto simp: escrows_ok_iff)

lemma remove_escrow_ok: "remove_escrow i db = Inr db' \<Longrightarrow>
    rows_sorted (indices (escrows db)) \<Longrightarrow>
    rows_sorted (indices (escrows db')) \<and> map_of (indices (escrows db')) = (map_of (indices (escrows db)))(i := None)"
  by (auto simp: remove_escrow_def res_simps rows_sorted_del_row map_of_del_row elim!: removeD)

lemma create_escrow_ok:
  assumes "create_escrow (\<lambda>_. Inr e) db = Inr (db', i)" and "escrows_ok (escrows db)" and "escrow_wf e"
  shows "escrows_ok (escrows db')"
proof -
  from assms(1) obtain t where t: "emplace escrow_conflict (\<lambda>_. Inr e) (escrows db) = Inr (t, i)" "db' = db\<lparr>escrows := t\<rparr>"
    by (auto simp: create_escrow_def res_simps)
  from t(1) have "map_of (indices (escrows db)) i = None" "indices t = ins_row i e (indices (escrows db))"
    using emplace_rows [OF t(1)] by (auto elim!: emplaceD)
  with t(2) assms(2,3) show ?thesis
    by (auto simp: escrows_ok_iff map_of_ins_row rows_sorted_ins_row split: if_splits)
qed

lemma escrow_dispute_ok:
  assumes "escrow_dispute_evaluator p db = Inr db'" and ok: "escrows_ok (escrows db)"
  shows "escrows_ok (escrows db')"
proof -
  from assms(1) obtain i e where e: "get_escrow (ed_from p) (ed_escrow_id p) db = Inr (i, e)" "is_approved e"
    and m: "modify_escrow i (\<lambda>e. Inr (e\<lparr>e_disputed := True\<rparr>)) db = Inr db'"
    by (auto simp: escrow_dispute_evaluator_def is_approved_def res_simps)
  from e(1) ok have row: "map_of (indices (escrows db)) i = Some e"
    by (auto simp: get_escrow_def escrows_ok_iff dest: find_by_row)
  with ok have "escrow_wf e" by (auto simp: escrows_ok_iff)
  with e(2) row modify_escrow_row [OF m] show ?thesis
    by (auto intro!: escrows_ok_upd [OF ok] simp: escrow_wf_def is_approved_def)
qed

context fc_exact
begin

lemma escrow_transfer_ok:
  "escrow_transfer_evaluator fc p db = Inr db' \<Longrightarrow> escrow_transfer_validate fc p = Inr () \<Longrightarrow>
   escrows_ok (escrows db) \<Longrightarrow> escrows_ok (escrows db')"
  by (auto simp: escrow_transfer_evaluator_def escrow_transfer_validate_def res_simps split: prod.splits
      dest!: adjust_balance_frame create_escrow_ok)
    (auto simp: escrow_wf_def default_escrow_object_def is_approved_def)

lemma escrow_transfer_gaps:
  "escrow_transfer_evaluator fc p db = Inr db' \<Longrightarrow> symbol (et_fee p) = BMT_SYMBOL \<Longrightarrow> keeps_gaps db db'"
  by (auto simp: escrow_transfer_evaluator_def default_escrow_object_def res_simps holdings keeps_gaps_def
      split: if_splits prod.splits dest!: table_gaps ledger_gaps asset_dests)

lemma escrow_reject_gaps:
  assumes "adjust_balance fc fi (e_bmt_balance e) db = Inr db1" and "adjust_balance fc fi (e_pending_fee e) db1 = Inr db2"
    and "remove_escrow ei db2 = Inr db'" and "map_of (indices (escrows db)) ei = Some e"
  shows "keeps_gaps db db'"
  using assms adjust_balance_frame [OF assms(1)] adjust_balance_frame [OF assms(2)]
  by (auto simp: holdings keeps_gaps_def dest!: table_gaps ledger_gaps)

lemma escrow_fee_gaps:
  assumes "adjust_balance fc ai (e_pending_fee e) db = Inr db1"
    and "modify_escrow ei (\<lambda>e. Inr (e\<lparr>e_pending_fee := (e_pending_fee e)\<lparr>amount := 0\<rparr>\<rparr>)) db1 = Inr db'"
    and "map_of (indices (escrows db)) ei = Some e"
  shows "keeps_gaps db db'"
  using assms adjust_balance_frame [OF assms(1)]
  by (auto simp: holdings keeps_gaps_def dest!: table_gaps ledger_gaps)

lemma escrow_mark_gaps:
  "modify_escrow ei (\<lambda>e. Inr (e\<lparr>e_to_approved := b\<rparr>)) db = Inr db' \<Longrightarrow> keeps_gaps db db'"
  "modify_escrow ei (\<lambda>e. Inr (e\<lparr>e_agent_approved := b\<rparr>)) db = Inr db' \<Longrightarrow> keeps_gaps db db'"
  "modify_escrow ei (\<lambda>e. Inr (e\<lparr>e_disputed := b\<rparr>)) db = Inr db' \<Longrightarrow> keeps_gaps db db'"
  by (auto simp: holdings keeps_gaps_def dest!: table_gaps)

lemma escrow_settle_gaps: "escrow_settle fc p i db = Inr db' \<Longrightarrow> keeps_gaps db db'"
  by (auto simp: escrow_settle_def res_simps escrow_row_simps split: if_splits prod.splits
      intro: escrow_reject_gaps escrow_fee_gaps)

lemma escrow_mark_rows:
  assumes "escrow_mark p i db = Inr db'"
  shows "keeps_gaps db db' \<and> rows_sorted (indices (escrows db')) = rows_sorted (indices (escrows db)) \<and>
    (\<exists>e b c. map_of (indices (escrows db)) i = Some e \<and> (e_to_approved e \<longrightarrow> b) \<and> (e_agent_approved e \<longrightarrow> c) \<and>
       map_of (indices (escrows db')) = (map_of (indices (escrows db)))(i \<mapsto> e\<lparr>e_to_approved := b, e_agent_approved := c\<rparr>))"
proof -
  let ?rows = "\<lambda>db. map_of (indices (escrows db))"
  let ?s = "\<lambda>db. rows_sorted (indices (escrows db))"
  from assms obtain e db1 where e: "?rows db i = Some e"
    and 1: "db1 = db \<or> modify_escrow i (\<lambda>e. Inr (e\<lparr>e_to_approved := True\<rparr>)) db = Inr db1"
    and 2: "db' = db1 \<or> modify_escrow i (\<lambda>e. Inr (e\<lparr>e_agent_approved := True\<rparr>)) db1 = Inr db'"
    by (auto simp: escrow_mark_def escrow_row_simps res_simps split: if_splits)
  have "keeps_gaps db db1" "keeps_gaps db1 db'" using 1 2 by (auto intro: escrow_mark_gaps)
  moreover from 1 obtain b where r1: "?s db1 = ?s db" "e_to_approved e \<longrightarrow> b" "?rows db1 = (?rows db)(i \<mapsto> e\<lparr>e_to_approved := b\<rparr>)"
  proof
    assume "db1 = db"
    with e that [of "e_to_approved e"] show thesis by (simp add: map_upd_triv)
  next
    assume "modify_escrow i (\<lambda>e. Inr (e\<lparr>e_to_approved := True\<rparr>)) db = Inr db1"
    with e that [of True] show thesis by (auto dest!: modify_escrow_row)
  qed
  moreover from 2 obtain c where "?s db' = ?s db1" "e_agent_approved e \<longrightarrow> c"
    "?rows db' = (?rows db)(i \<mapsto> e\<lparr>e_to_approved := b, e_agent_approved := c\<rparr>)"
  proof
    assume "db' = db1"
    with r1(3) that [of "e_agent_approved e"] show thesis by simp
  next
    assume "modify_escrow i (\<lambda>e. Inr (e\<lparr>e_agent_approved := True\<rparr>)) db1 = Inr db'"
    with r1(3) that [of True] show thesis by (auto dest!: modify_escrow_row)
  qed
  ultimately show ?thesis using e by (blast intro: keeps_gaps_trans)
qed

lemma escrow_approve_gaps: "escrow_approve_evaluator fc p db = Inr db' \<Longrightarrow> keeps_gaps db db'"
  by (auto simp: escrow_approve_evaluator_def res_simps split: prod.splits
      dest!: escrow_mark_rows intro: keeps_gaps_trans escrow_settle_gaps)

lemma escrow_dispute_gaps: "escrow_dispute_evaluator p db = Inr db' \<Longrightarrow> keeps_gaps db db'"
  by (auto simp: escrow_dispute_evaluator_def res_simps split: prod.splits intro: escrow_mark_gaps)

lemma escrow_settle_ok:
  assumes "escrow_settle fc p i db = Inr db'" and e: "map_of (indices (escrows db)) i = Some e"
    and srt: "rows_sorted (indices (escrows db))"
    and others: "\<And>j e. j \<noteq> i \<Longrightarrow> map_of (indices (escrows db)) j = Some e \<Longrightarrow> escrow_wf e"
    and wf: "escrow_wf (e\<lparr>e_pending_fee := f\<rparr>)" "\<not> is_approved e \<Longrightarrow> escrow_wf e"
      "symbol (e_pending_fee e) = BMT_SYMBOL"
  shows "escrows_ok (escrows db')"
proof -
  note settle = assms(1) [unfolded escrow_settle_def get_id_def find_id_def e]
  show ?thesis
  proof (cases "ea_approve p")
    case False
    with settle obtain fi db1 db2 where "adjust_balance fc fi (e_bmt_balance e) db = Inr db1"
        "adjust_balance fc fi (e_pending_fee e) db1 = Inr db2" and rm: "remove_escrow i db2 = Inr db'"
      by (auto simp: res_simps)
    then have "escrows db2 = escrows db" by (auto dest!: adjust_balance_frame)
    with remove_escrow_ok [OF rm] srt others show ?thesis by (auto simp: escrows_ok_iff)
  next
    case approve: True
    show ?thesis
    proof (cases "is_approved e")
      case True
      with settle approve obtain ai db1 where "adjust_balance fc ai (e_pending_fee e) db = Inr db1"
        and m: "modify_escrow i (\<lambda>e. Inr (e\<lparr>e_pending_fee := (e_pending_fee e)\<lparr>amount := 0\<rparr>\<rparr>)) db1 = Inr db'"
        by (auto simp: res_simps is_approved_def)
      then have "escrows db1 = escrows db" by (auto dest!: adjust_balance_frame)
      with modify_escrow_row [OF m] srt others e True wf(1,3) show ?thesis
        by (auto simp: escrows_ok_iff escrow_wf_def is_approved_def)
    next
      case False
      with settle approve have "db' = db" by (auto simp: is_approved_def)
      with srt others e wf(2) [OF False] show ?thesis by (auto simp: escrows_ok_iff) (metis option.inject)
    qed
  qed
qed

lemma escrow_approve_ok:
  assumes "escrow_approve_evaluator fc p db = Inr db'" and ok: "escrows_ok (escrows db)"
  shows "escrows_ok (escrows db')"
proof -
  let ?rows = "\<lambda>db. map_of (indices (escrows db))"
  from assms(1) obtain i db1 where m: "escrow_mark p i db = Inr db1" and t: "escrow_settle fc p i db1 = Inr db'"
    by (auto simp: escrow_approve_evaluator_def res_simps)
  obtain e b c where e: "?rows db i = Some e" "rows_sorted (indices (escrows db1))" "e_to_approved e \<longrightarrow> b"
      "e_agent_approved e \<longrightarrow> c" "?rows db1 = (?rows db)(i \<mapsto> e\<lparr>e_to_approved := b, e_agent_approved := c\<rparr>)"
    using escrow_mark_rows [OF m] ok by (auto simp: escrows_ok_iff)
  have wf: "escrow_wf e" using ok e(1) by (auto simp: escrows_ok_iff)
  show ?thesis
  proof (rule escrow_settle_ok [OF t, where f = "bmt 0"])
    show "?rows db1 i = Some (e\<lparr>e_to_approved := b, e_agent_approved := c\<rparr>)" by (simp add: e(5))
    show "escrow_wf e'" if "j \<noteq> i" "?rows db1 j = Some e'" for j e'
      using that ok by (auto simp: e(5) escrows_ok_iff)
  qed (use wf e in \<open>auto simp: escrow_wf_def is_approved_def\<close>)
qed

lemma escrow_release_gaps_ok:
  assumes "escrow_release_evaluator fc p db = Inr db'" and ok: "escrows_ok (escrows db)"
  shows "keeps_gaps db db' \<and> escrows_ok (escrows db')"
proof -
  from assms(1) obtain ri i e db1 db2 e2 where
    g: "get_escrow (er_from p) (er_escrow_id p) db = Inr (i, e)" "is_approved e"
      "amount (er_bmt_amount p) \<le> amount (e_bmt_balance e)"
    and 1: "adjust_balance fc ri (er_bmt_amount p) db = Inr db1"
    and 2: "modify_escrow i (\<lambda>e. bindR (asset_minus fc (e_bmt_balance e) (er_bmt_amount p))
       (\<lambda>b. Inr (e\<lparr>e_bmt_balance := b\<rparr>))) db1 = Inr db2"
    and 3: "get_id (escrows db2) i = Inr e2" "(if amount (e_bmt_balance e2) = 0 then remove_escrow i db2 else Inr db2) = Inr db'"
    by (auto simp: escrow_release_evaluator_def is_approved_def res_simps)
  let ?rows = "\<lambda>db. map_of (indices (escrows db))"
  have e: "?rows db i = Some e" "escrow_wf e"
    using g(1) ok by (auto simp: get_escrow_def escrows_ok_iff dest!: find_by_row)
  obtain bal where b: "asset_minus fc (e_bmt_balance e) (er_bmt_amount p) = Inr bal"
      "?rows db2 = (?rows db)(i \<mapsto> e\<lparr>e_bmt_balance := bal\<rparr>)"
      "rows_sorted (indices (escrows db2)) = rows_sorted (indices (escrows db))"
    using modify_escrow_row [OF 2] adjust_balance_frame [OF 1] e(1) by (auto simp: res_simps)
  then have e2: "e2 = e\<lparr>e_bmt_balance := bal\<rparr>" and wf2: "escrow_wf e2"
    using 3(1) e(2) g(2,3) asset_minusD [OF b(1)]
    by (auto simp: get_id_def find_id_def res_simps escrow_wf_def is_approved_def)
  then have ok2: "escrows_ok (escrows db2)" using b escrows_ok_upd [OF ok b(2,3)] by simp
  have "keeps_gaps db db2"
    using 1 2 by (auto simp: holdings keeps_gaps_def res_simps dest!: table_gaps ledger_gaps asset_dests)
  moreover have "keeps_gaps db2 db'"
    using 3 wf2 g(2) e2 by (auto simp: keeps_gaps_def holdings escrow_wf_def is_approved_def get_id_def find_id_def res_simps
        split: if_splits dest!: table_gaps)
  moreover have "escrows_ok (escrows db')"
    using 3(2) ok2 by (auto simp: escrows_ok_iff split: if_splits dest!: remove_escrow_ok)
  ultimately show ?thesis by (blast intro: keeps_gaps_trans)
qed

end

lemma escrow_transfer_calm: "escrow_transfer_evaluator fc p db = Inr db' \<Longrightarrow> db_sorted db \<Longrightarrow> calm db db'"
  by (auto simp: escrow_transfer_evaluator_def res_simps quiet_defs split: if_splits dest!: quiets)

lemma escrow_dispute_calm: "escrow_dispute_evaluator p db = Inr db' \<Longrightarrow> db_sorted db \<Longrightarrow> calm db db'"
  by (auto simp: escrow_dispute_evaluator_def res_simps quiet_defs split: if_splits dest!: quiets)

lemma escrow_release_calm: "escrow_release_evaluator fc p db = Inr db' \<Longrightarrow> db_sorted db \<Longrightarrow> calm db db'"
  by (auto simp: escrow_release_evaluator_def res_simps quiet_defs split: if_splits dest!: quiets)

lemma escrow_mark_calm: "escrow_mark p i db = Inr db' \<Longrightarrow> db_sorted db \<Longrightarrow> calm db db'"
  by (auto simp: escrow_mark_def res_simps quiet_defs split: if_splits dest!: quiets)

lemma escrow_settle_calm: "escrow_settle fc p i db = Inr db' \<Longrightarrow> db_sorted db \<Longrightarrow> calm db db'"
  by (auto simp: escrow_settle_def res_simps quiet_defs split: if_splits dest!: quiets)

lemma escrow_approve_calm: "escrow_approve_evaluator fc p db = Inr db' \<Longrightarrow> db_sorted db \<Longrightarrow> calm db db'"
  by (auto simp: escrow_approve_evaluator_def res_simps calm_def
      dest!: escrow_mark_calm escrow_settle_calm)

subsection \<open>Who may release what\<close>

text \<open>The rule of a release: the agent decides a dispute; before that the parties pay each other.\<close>

definition release_allowed :: "escrow_release_operation \<Rightarrow> time_point_sec \<Rightarrow> escrow_object \<Rightarrow> bool" where
  "release_allowed p now e \<longleftrightarrow> er_receiver p \<in> {e_from e, e_to e} \<and>
     (if e_disputed e then er_who p = e_agent e
      else er_who p \<in> {e_from e, e_to e} \<and>
        (now < e_escrow_expiration e \<and> e_from e \<noteq> e_to e \<longrightarrow> er_receiver p \<noteq> er_who p))"

lemma release_check_allowed:
  "release_check p now e = Inr u \<Longrightarrow> er_receiver p = e_from e \<or> er_receiver p = e_to e \<Longrightarrow> release_allowed p now e"
  by (auto simp: release_check_def release_allowed_def res_simps split: if_splits)

text \<open>
  C29: who may release an escrow. A release that succeeds is of an escrow both parties
  ratified, takes no more than its balance, pays one of the two parties, and is made by the
  agent if there is a dispute; otherwise by one of the parties, and before the expiration
  only in favour of the other. The escrow then holds that much less and is gone when that
  leaves nothing; no other escrow changes.
\<close>

theorem escrow_release_by_rule:
  assumes "escrow_release_evaluator fc p db = Inr db'" and "fc_exact fc" and "rows_sorted (indices (escrows db))"
  shows "\<exists>i e b. get_escrow (er_from p) (er_escrow_id p) db = Inr (i, e) \<and> is_approved e \<and> release_allowed p (head_block_time db) e \<and>
    amount b = amount (e_bmt_balance e) - amount (er_bmt_amount p) \<and> 0 \<le> amount b \<and>
    map_of (indices (escrows db')) = (map_of (indices (escrows db)))(i := if amount b = 0 then None else Some (e\<lparr>e_bmt_balance := b\<rparr>))"
proof -
  from assms(1) obtain ri i e db1 db2 e2 where
    g: "get_escrow (er_from p) (er_escrow_id p) db = Inr (i, e)" "is_approved e" "amount (er_bmt_amount p) \<le> amount (e_bmt_balance e)"
      "release_check p (head_block_time db) e = Inr ()" "er_receiver p = e_from e \<or> er_receiver p = e_to e"
    and 1: "adjust_balance fc ri (er_bmt_amount p) db = Inr db1"
    and 2: "modify_escrow i (\<lambda>e. bindR (asset_minus fc (e_bmt_balance e) (er_bmt_amount p))
       (\<lambda>b. Inr (e\<lparr>e_bmt_balance := b\<rparr>))) db1 = Inr db2"
    and 3: "get_id (escrows db2) i = Inr e2" "(if amount (e_bmt_balance e2) = 0 then remove_escrow i db2 else Inr db2) = Inr db'"
    by (auto simp: escrow_release_evaluator_def is_approved_def res_simps)
  let ?rows = "\<lambda>db. map_of (indices (escrows db))"
  have e: "?rows db i = Some e" using g(1) assms(3) by (auto simp: get_escrow_def dest!: find_by_row)
  obtain b where b: "asset_minus fc (e_bmt_balance e) (er_bmt_amount p) = Inr b"
      "?rows db2 = (?rows db)(i \<mapsto> e\<lparr>e_bmt_balance := b\<rparr>)" "rows_sorted (indices (escrows db2))"
    using modify_escrow_row [OF 2] adjust_balance_frame [OF 1] e assms(3) by (auto simp: res_simps)
  have a: "amount b = amount (e_bmt_balance e) - amount (er_bmt_amount p)" using fc_exact.asset_minusD [OF assms(2) b(1)] by simp
  have "e2 = e\<lparr>e_bmt_balance := b\<rparr>" using 3(1) b(2) by (simp add: get_id_def find_id_def res_simps)
  then have "?rows db' = (?rows db)(i := if amount b = 0 then None else Some (e\<lparr>e_bmt_balance := b\<rparr>))"
    using 3(2) b remove_escrow_ok [OF _ b(3)] by (auto split: if_splits)
  with g a release_check_allowed [OF g(4,5)] show ?thesis by (intro exI conjI) auto
qed

definition agreed_escrow :: escrow_object where
  "agreed_escrow = default_escrow_object\<lparr> e_from := ''alice'', e_to := ''bob'', e_agent := ''carol'', e_escrow_expiration := 500,
     e_bmt_balance := bmt 40, e_to_approved := True, e_agent_approved := True \<rparr>"

definition escrow_chain :: database where
  "escrow_chain = empty_database\<lparr>accounts := mk_index [(0, default_account_object\<lparr>a_name := ''alice''\<rparr>), (1, default_account_object\<lparr>a_name := ''bob''\<rparr>)] 2,
     escrows := mk_index [(0, agreed_escrow)] 1\<rparr>"

definition sample_release :: escrow_release_operation where
  "sample_release = \<lparr> er_from = ''alice'', er_to = ''bob'', er_agent = ''carol'', er_who = ''alice'', er_receiver = ''bob'', er_escrow_id = 20,
     er_bmt_amount = bmt 15 \<rparr>"

lemmas release_evals = escrow_chain_def sample_release_def agreed_escrow_def default_escrow_object_def mk_index_def get_account_def
  get_escrow_def get_by_def find_by_def

theorem escrow_release_by_rule_witness:
  "\<exists>db' e. escrow_release_evaluator fc64 sample_release escrow_chain = Inr db' \<and> map_of (indices (escrows db')) 0 = Some e \<and>
     amount (e_bmt_balance e) = 25"
proof -
  have "\<exists>db'. escrow_release_evaluator fc64 sample_release escrow_chain = Inr db'"
    by (simp add: escrow_release_evaluator_def release_evals)
      (simp add: release_check_def assertM_def eval64 adjust_balance_def modify_account_def modify_def modify_ok_def account_conflict_def
        modify_escrow_def escrow_conflict_def get_id_def find_id_def head_block_time_def empty_database_def
        default_dynamic_global_property_object_def default_account_object_def)
  then obtain db' where r: "escrow_release_evaluator fc64 sample_release escrow_chain = Inr db'" ..
  have "rows_sorted (indices (escrows escrow_chain))" by (simp add: release_evals)
  from escrow_release_by_rule [OF r fc64.fc_exact_axioms this] r show ?thesis by (auto simp: release_evals)
qed

end
