(* ===== verification/Transfers.thy ===== *)
theory Transfers
  imports Frames
begin

text \<open>
  Transfers, savings, withdrawal routes, claims of rewards and delegation of vesting shares
  (\<open>bmchain_evaluator.cpp\<close>). The evaluators whose bodies the source has commented out do
  nothing, as there. The lemmas give the effect of each on the gaps.
\<close>

definition transfer_evaluator :: "fc_lib \<Rightarrow> transfer_operation \<Rightarrow> database \<Rightarrow> exn + database" where
  "transfer_evaluator fc p db =
     bindR (get_account (tr_from p) db) (\<lambda>(fi, from).
     bindR (get_account (tr_to p) db) (\<lambda>(ti, _).
     bindR (if a_active_challenged from then
              modify_account fi (\<lambda>a. Inr (a\<lparr>a_active_challenged := False, a_last_active_proved := head_block_time db\<rparr>)) db
            else Inr db) (\<lambda>db1.
     bindR (get_id (accounts db1) fi) (\<lambda>from1.
     bindR (get_balance from1 (symbol (tr_amount p))) (\<lambda>bal.
     bindR (assertM (asset_ge bal (tr_amount p)) ''Account does not have sufficient funds for transfer.'') (\<lambda>_.
     bindR (asset_neg fc (tr_amount p)) (\<lambda>neg.
     bindR (adjust_balance fc fi neg db1) (\<lambda>db2.
     adjust_balance fc ti (tr_amount p) db2))))))))"

definition transfer_to_vesting_evaluator :: "transfer_to_vesting_operation \<Rightarrow> database \<Rightarrow> exn + database" where
  "transfer_to_vesting_evaluator p db = Inr db"

definition withdraw_savings_evaluator :: "fc_lib \<Rightarrow> withdraw_savings_operation \<Rightarrow> database \<Rightarrow> exn + database" where
  "withdraw_savings_evaluator fc p db =
     bindR (get_account (wi_account p) db) (\<lambda>(i, account).
     bindR (assertM (asset_ge (a_savings_balance account) (bmt 0))
       ''Account does not have sufficient savings for withdraw.'') (\<lambda>_.
     if amount (wi_savings p) = 0 then
       bindR (assertR (amount (a_savings_withdraw_rate account) \<noteq> 0)
         ''This operation would not change the vesting withdraw rate.'') (\<lambda>_.
       modify_account i (\<lambda>a. Inr (a\<lparr>a_savings_withdraw_rate := bmt 0, a_next_savings_withdrawal := time_max,
         a_to_withdraw := 0, a_withdrawn := 0\<rparr>)) db)
     else
       modify_account i (\<lambda>a.
         bindR (safe_div fc (amount (wi_savings p)) SAVINGS_WITHDRAW_INTERVALS) (\<lambda>r.
         let rate = bmt (if r = 0 then 1 else r) in
         bindR (assertR (a_savings_withdraw_rate a \<noteq> rate)
           ''This operation would not change the vesting withdraw rate.'') (\<lambda>_.
         Inr (a\<lparr>a_savings_withdraw_rate := rate,
           a_next_savings_withdrawal := time_plus (head_block_time db) SAVINGS_WITHDRAW_INTERVAL_SECONDS,
           a_to_withdraw := amount (wi_savings p), a_withdrawn := 0\<rparr>)))) db))"

text \<open>
  After the change of the route, the percentages of the account's routes are added up as a
  16-bit sum. The loop starts after the key \<open>(from, 0)\<close>, so a route to account 0 is skipped.
\<close>

definition routes_percent :: "oid \<Rightarrow> database \<Rightarrow> nat" where
  "routes_percent i db =
     sum_list (map (\<lambda>r. wr_percent (snd r))
       (filter (\<lambda>r. wr_from_account (snd r) = i \<and> wr_to_account (snd r) > 0) (indices (withdraw_routes db)))) mod 65536"

definition set_withdraw_savings_route_evaluator ::
  "set_withdraw_savings_route_operation \<Rightarrow> database \<Rightarrow> exn + database" where
  "set_withdraw_savings_route_evaluator p db =
     bindR (get_account (sr_from_account p) db) (\<lambda>(fi, from).
     bindR (get_account (sr_to_account p) db) (\<lambda>(ti, _).
     bindR (case find_by (\<lambda>r. wr_from_account r = fi \<and> wr_to_account r = ti) (withdraw_routes db) of
         None \<Rightarrow>
           bindR (assertR (sr_percent p \<noteq> 0) ''Cannot create a 0% destination.'') (\<lambda>_.
           bindR (assertR (a_withdraw_routes from < 10) ''Account already has the maximum number of routes.'') (\<lambda>_.
           bindR (create_withdraw_route (\<lambda>_. Inr \<lparr> wr_from_account = fi, wr_to_account = ti,
             wr_percent = sr_percent p, wr_auto_vest = sr_auto_vest p \<rparr>) db) (\<lambda>(db1, _).
           modify_account fi (\<lambda>a. Inr (a\<lparr>a_withdraw_routes := (a_withdraw_routes a + 1) mod 65536\<rparr>)) db1)))
       | Some (ri, _) \<Rightarrow>
           if sr_percent p = 0 then
             bindR (remove_withdraw_route ri db) (\<lambda>db1.
             modify_account fi (\<lambda>a. Inr (a\<lparr>a_withdraw_routes := (a_withdraw_routes a + 65535) mod 65536\<rparr>)) db1)
           else
             modify_withdraw_route ri (\<lambda>r. Inr \<lparr> wr_from_account = fi, wr_to_account = ti,
               wr_percent = sr_percent p, wr_auto_vest = sr_auto_vest p \<rparr>) db) (\<lambda>db2.
     bindR (assertR (int (routes_percent fi db2) \<le> PERCENT_100)
       ''More than 100% of vesting withdrawals allocated to destinations.'') (\<lambda>_.
     Inr db2))))"

definition transfer_to_savings_evaluator :: "fc_lib \<Rightarrow> transfer_to_savings_operation \<Rightarrow> database \<Rightarrow> exn + database" where
  "transfer_to_savings_evaluator fc p db =
     bindR (get_account (ts_from p) db) (\<lambda>(fi, from).
     bindR (get_account (ts_to p) db) (\<lambda>(ti, _).
     bindR (get_balance from (symbol (ts_amount p))) (\<lambda>bal.
     bindR (assertM (asset_ge bal (ts_amount p)) ''Account does not have sufficient funds to transfer to savings.'') (\<lambda>_.
     bindR (asset_neg fc (ts_amount p)) (\<lambda>neg.
     bindR (adjust_balance fc fi neg db) (\<lambda>db1.
     adjust_savings_balance fc ti (ts_amount p) db1))))))"

definition transfer_from_savings_evaluator :: "transfer_from_savings_operation \<Rightarrow> database \<Rightarrow> exn + database" where
  "transfer_from_savings_evaluator p db = Inr db"

definition cancel_transfer_from_savings_evaluator ::
  "fc_lib \<Rightarrow> cancel_transfer_from_savings_operation \<Rightarrow> database \<Rightarrow> exn + database" where
  "cancel_transfer_from_savings_evaluator fc p db =
     bindR (get_savings_withdraw (tc_from p) (tc_request_id p) db) (\<lambda>(si, swo).
     bindR (get_account (sw_from swo) db) (\<lambda>(fi, _).
     bindR (adjust_savings_balance fc fi (sw_amount swo) db) (\<lambda>db1.
     bindR (remove_savings_withdraw si db1) (\<lambda>db2.
     bindR (get_account (tc_from p) db2) (\<lambda>(gi, _).
     modify_account gi (\<lambda>a. Inr (a\<lparr>a_savings_withdraw_requests := (a_savings_withdraw_requests a + 255) mod 256\<rparr>)) db2)))))"

text \<open>The BMT behind the claimed share of the unclaimed vesting.\<close>

definition reward_vesting_bmt_to_move :: "fc_lib \<Rightarrow> asset \<Rightarrow> account_object \<Rightarrow> exn + asset" where
  "reward_vesting_bmt_to_move fc v acnt =
     (if v = a_reward_vesting_balance acnt then Inr (a_reward_vesting_bmt acnt)
      else
        bindR (assertR (u128_of_int fc (amount (a_reward_vesting_balance acnt)) \<noteq> 0) ''division by zero'') (\<lambda>_.
        bindR (u128_to_u64 fc (u128_of_int fc (amount v) * u128_of_int fc (amount (a_reward_vesting_bmt acnt)) div
          u128_of_int fc (amount (a_reward_vesting_balance acnt)))) (\<lambda>m. Inr (bmt (safe_of_u64 fc m)))))"

definition claim_to_account :: "fc_lib \<Rightarrow> asset \<Rightarrow> asset \<Rightarrow> account_object \<Rightarrow> exn + account_object" where
  "claim_to_account fc v moved a =
     bindR (asset_plus fc (a_vesting_shares a) v) (\<lambda>vs.
     bindR (asset_minus fc (a_reward_vesting_balance a) v) (\<lambda>rv.
     bindR (asset_minus fc (a_reward_vesting_bmt a) moved) (\<lambda>rb.
     Inr (a\<lparr>a_vesting_shares := vs, a_reward_vesting_balance := rv, a_reward_vesting_bmt := rb\<rparr>))))"

definition claim_to_dgpo ::
  "fc_lib \<Rightarrow> asset \<Rightarrow> asset \<Rightarrow> dynamic_global_property_object \<Rightarrow> exn + dynamic_global_property_object" where
  "claim_to_dgpo fc v moved g =
     bindR (asset_plus fc (g_total_vesting_shares g) v) (\<lambda>tvs.
     bindR (asset_plus fc (g_total_vesting_fund_bmt g) moved) (\<lambda>tvf.
     bindR (asset_minus fc (g_pending_rewarded_vesting_shares g) v) (\<lambda>pvs.
     bindR (asset_minus fc (g_pending_rewarded_vesting_bmt g) moved) (\<lambda>pvb.
     Inr (g\<lparr>g_total_vesting_shares := tvs, g_total_vesting_fund_bmt := tvf,
            g_pending_rewarded_vesting_shares := pvs, g_pending_rewarded_vesting_bmt := pvb\<rparr>)))))"

definition claim_reward_balance_evaluator :: "fc_lib \<Rightarrow> claim_reward_balance_operation \<Rightarrow> database \<Rightarrow> exn + database" where
  "claim_reward_balance_evaluator fc p db =
     bindR (get_account (cl_account p) db) (\<lambda>(i, acnt).
     bindR (assertM (asset_le (cl_reward_bmt p) (a_reward_bmt_balance acnt)) ''Cannot claim that much BMT.'') (\<lambda>_.
     bindR (assertM (asset_le (cl_reward_vests p) (a_reward_vesting_balance acnt)) ''Cannot claim that much VESTS.'') (\<lambda>_.
     bindR (reward_vesting_bmt_to_move fc (cl_reward_vests p) acnt) (\<lambda>moved.
     bindR (asset_neg fc (cl_reward_bmt p)) (\<lambda>neg.
     bindR (adjust_reward_balance fc i neg db) (\<lambda>db1.
     bindR (adjust_balance fc i (cl_reward_bmt p) db1) (\<lambda>db2.
     bindR (modify_account i (claim_to_account fc (cl_reward_vests p) moved) db2) (\<lambda>db3.
     bindR (modify_dgpo (claim_to_dgpo fc (cl_reward_vests p) moved) db3) (\<lambda>db4.
     adjust_proxied_witness_votes fc i (amount (cl_reward_vests p)) db4)))))))))"

text \<open>The shares an account has neither delegated nor scheduled for withdrawal.\<close>

definition available_shares :: "fc_lib \<Rightarrow> account_object \<Rightarrow> exn + asset" where
  "available_shares fc a =
     bindR (asset_minus fc (a_vesting_shares a) (a_delegated_vesting_shares a)) (\<lambda>d.
     bindR (safe_sub fc (a_to_withdraw a) (a_withdrawn a)) (\<lambda>w.
     asset_minus fc d (vests w)))"

definition add_delegated :: "fc_lib \<Rightarrow> asset \<Rightarrow> account_object \<Rightarrow> exn + account_object" where
  "add_delegated fc d a =
     bindR (asset_plus fc (a_delegated_vesting_shares a) d) (\<lambda>v. Inr (a\<lparr>a_delegated_vesting_shares := v\<rparr>))"

definition add_received :: "fc_lib \<Rightarrow> asset \<Rightarrow> account_object \<Rightarrow> exn + account_object" where
  "add_received fc d a =
     bindR (asset_plus fc (a_received_vesting_shares a) d) (\<lambda>v. Inr (a\<lparr>a_received_vesting_shares := v\<rparr>))"

definition sub_received :: "fc_lib \<Rightarrow> asset \<Rightarrow> account_object \<Rightarrow> exn + account_object" where
  "sub_received fc d a =
     bindR (asset_minus fc (a_received_vesting_shares a) d) (\<lambda>v. Inr (a\<lparr>a_received_vesting_shares := v\<rparr>))"

text \<open>The three branches of the evaluator: a new delegation, an increase, a decrease.\<close>

definition delegation_create ::
  "fc_lib \<Rightarrow> delegate_vesting_shares_operation \<Rightarrow> asset \<Rightarrow> asset \<Rightarrow> oid \<Rightarrow> oid \<Rightarrow> database \<Rightarrow> exn + database" where
  "delegation_create fc p avail min_delegation ri ei db =
     (let shares = de_vesting_shares p in
      bindR (assertM (asset_ge avail shares) ''Account does not have enough vesting shares to delegate.'') (\<lambda>_.
      bindR (assertM (asset_ge shares min_delegation) ''Account must delegate a minimum'') (\<lambda>_.
      bindR (create_delegation (\<lambda>_. Inr \<lparr> vd_delegator = de_delegator p, vd_delegatee = de_delegatee p,
        vd_vesting_shares = shares, vd_min_delegation_time = head_block_time db \<rparr>) db) (\<lambda>(db1, _).
      bindR (modify_account ri (add_delegated fc shares) db1) (\<lambda>db2.
      modify_account ei (add_received fc shares) db2)))))"

definition delegation_increase ::
  "fc_lib \<Rightarrow> asset \<Rightarrow> asset \<Rightarrow> asset \<Rightarrow> oid \<Rightarrow> oid \<Rightarrow> oid \<Rightarrow> vesting_delegation_object \<Rightarrow> database \<Rightarrow> exn + database" where
  "delegation_increase fc shares avail min_update ri ei di delegation db =
     bindR (asset_minus fc shares (vd_vesting_shares delegation)) (\<lambda>delta.
     bindR (assertM (asset_ge delta min_update) ''BMT increase is not enough of a difference.'') (\<lambda>_.
     bindR (assertM (asset_ge avail delta) ''Account does not have enough vesting shares to delegate.'') (\<lambda>_.
     bindR (modify_account ri (add_delegated fc delta) db) (\<lambda>db1.
     bindR (modify_account ei (add_received fc delta) db1) (\<lambda>db2.
     modify_delegation di (\<lambda>d. Inr (d\<lparr>vd_vesting_shares := shares\<rparr>)) db2)))))"

definition delegation_decrease ::
  "fc_lib \<Rightarrow> delegate_vesting_shares_operation \<Rightarrow> asset \<Rightarrow> asset \<Rightarrow> oid \<Rightarrow> oid \<Rightarrow> vesting_delegation_object \<Rightarrow>
   database \<Rightarrow> exn + database" where
  "delegation_decrease fc p min_delegation min_update ei di delegation db =
     (let shares = de_vesting_shares p in
      bindR (asset_minus fc (vd_vesting_shares delegation) shares) (\<lambda>delta.
      bindR (if amount shares > 0 then
               bindR (assertM (asset_ge delta min_update) ''BMT decrease is not enough of a difference.'') (\<lambda>_.
               assertM (asset_ge shares min_delegation)
                 ''Delegation must be removed or leave minimum delegation amount'')
             else assertR (amount (vd_vesting_shares delegation) > 0)
               ''Delegation would set vesting_shares to zero, but it is already zero'') (\<lambda>_.
      bindR (create_delegation_expiration (\<lambda>_. Inr \<lparr> ve_delegator = de_delegator p, ve_vesting_shares = delta,
        ve_expiration = max (time_plus (head_block_time db) CASHOUT_WINDOW_SECONDS)
          (vd_min_delegation_time delegation) \<rparr>) db) (\<lambda>(db1, _).
      bindR (modify_account ei (sub_received fc delta) db1) (\<lambda>db2.
      if amount shares > 0 then modify_delegation di (\<lambda>d. Inr (d\<lparr>vd_vesting_shares := shares\<rparr>)) db2
      else remove_delegation di db2)))))"

definition delegate_vesting_shares_evaluator ::
  "fc_lib \<Rightarrow> delegate_vesting_shares_operation \<Rightarrow> database \<Rightarrow> exn + database" where
  "delegate_vesting_shares_evaluator fc p db =
     bindR (get_account (de_delegator p) db) (\<lambda>(ri, delegator).
     bindR (get_account (de_delegatee p) db) (\<lambda>(ei, _).
     bindR (available_shares fc delegator) (\<lambda>avail.
     let fee = account_creation_fee (ws_median_props (wso db)); shares = de_vesting_shares p in
     bindR (safe_mul fc (amount fee) 10) (\<lambda>fee10.
     bindR (get_vesting_share_price (dgpo db)) (\<lambda>pr.
     bindR (asset_times_price fc (bmt fee10) pr) (\<lambda>min_delegation.
     bindR (asset_times_price fc fee pr) (\<lambda>min_update.
     case find_by (\<lambda>d. vd_delegator d = de_delegator p \<and> vd_delegatee d = de_delegatee p) (delegations db) of
       None \<Rightarrow> delegation_create fc p avail min_delegation ri ei db
     | Some (di, delegation) \<Rightarrow>
         bindR (asset_ge shares (vd_vesting_shares delegation)) (\<lambda>increase.
         if increase then delegation_increase fc shares avail min_update ri ei di delegation db
         else delegation_decrease fc p min_delegation min_update ei di delegation db))))))))"

subsection \<open>Conservation\<close>

lemma delegation_holdings:
  "add_delegated fc d a = Inr a' \<Longrightarrow> bmt_of_account a' = bmt_of_account a \<and> vests_of_account a' = vests_of_account a \<and>
     pending_of_account a' = pending_of_account a"
  "add_received fc d a = Inr a' \<Longrightarrow> bmt_of_account a' = bmt_of_account a \<and> vests_of_account a' = vests_of_account a \<and>
     pending_of_account a' = pending_of_account a"
  "sub_received fc d a = Inr a' \<Longrightarrow> bmt_of_account a' = bmt_of_account a \<and> vests_of_account a' = vests_of_account a \<and>
     pending_of_account a' = pending_of_account a"
  by (auto simp: add_delegated_def add_received_def sub_received_def res_simps holdings)

lemma withdraw_savings_gaps: "withdraw_savings_evaluator fc p db = Inr db' \<Longrightarrow> keeps_gaps db db'"
  by (auto simp: withdraw_savings_evaluator_def Let_def res_simps holdings keeps_gaps_def
      split: if_splits dest!: table_gaps)

lemma set_withdraw_savings_route_gaps:
  "set_withdraw_savings_route_evaluator p db = Inr db' \<Longrightarrow> keeps_gaps db db'"
  by (auto simp: set_withdraw_savings_route_evaluator_def res_simps holdings keeps_gaps_def
      split: if_splits option.splits prod.splits dest!: table_gaps)

lemma delegation_branch_gaps:
  "delegation_create fc p x y i j db = Inr db' \<Longrightarrow> keeps_gaps db db'"
  "delegation_increase fc x y z i j k d db = Inr db' \<Longrightarrow> keeps_gaps db db'"
  "delegation_decrease fc p x y i j d db = Inr db' \<Longrightarrow> keeps_gaps db db'"
  by (auto simp: delegation_create_def delegation_increase_def delegation_decrease_def Let_def res_simps keeps_gaps_def
      split: if_splits dest!: table_gaps delegation_holdings)

lemma delegation_branch_quiet:
  "delegation_create fc p x y i j db = Inr db' \<Longrightarrow> db_sorted db \<Longrightarrow> quiet db db'"
  "delegation_increase fc x y z i j k d db = Inr db' \<Longrightarrow> db_sorted db \<Longrightarrow> quiet db db'"
  "delegation_decrease fc p x y i j d db = Inr db' \<Longrightarrow> db_sorted db \<Longrightarrow> quiet db db'"
  by (auto simp: delegation_create_def delegation_increase_def delegation_decrease_def Let_def res_simps quiet_defs
      split: if_splits dest!: quiets)

lemma delegate_vesting_shares_gaps:
  "delegate_vesting_shares_evaluator fc p db = Inr db' \<Longrightarrow> keeps_gaps db db'"
  by (auto simp: delegate_vesting_shares_evaluator_def Let_def res_simps
      split: if_splits option.splits intro: delegation_branch_gaps)

context fc_exact
begin

lemma transfer_gaps: "transfer_evaluator fc p db = Inr db' \<Longrightarrow> keeps_gaps db db'"
  by (auto simp: transfer_evaluator_def res_simps holdings keeps_gaps_def
      split: if_splits dest!: table_gaps ledger_gaps asset_dests)

lemma transfer_to_savings_gaps: "transfer_to_savings_evaluator fc p db = Inr db' \<Longrightarrow> keeps_gaps db db'"
  by (auto simp: transfer_to_savings_evaluator_def res_simps keeps_gaps_def dest!: ledger_gaps asset_dests)

lemma cancel_transfer_from_savings_gaps:
  assumes "cancel_transfer_from_savings_evaluator fc p db = Inr db'" and "db_sorted db"
  shows "keeps_gaps db db'"
proof -
  from assms(1) obtain si swo fi db1 db2 gi where
    s: "get_savings_withdraw (tc_from p) (tc_request_id p) db = Inr (si, swo)"
    and 1: "adjust_savings_balance fc fi (sw_amount swo) db = Inr db1" and 2: "remove_savings_withdraw si db1 = Inr db2"
    and 3: "modify_account gi (\<lambda>a. Inr (a\<lparr>a_savings_withdraw_requests := (a_savings_withdraw_requests a + 255) mod 256\<rparr>)) db2 = Inr db'"
    by (auto simp: cancel_transfer_from_savings_evaluator_def res_simps)
  have "map_of (indices (savings_withdraws db)) si = Some swo"
    using s assms(2) find_by_row [of "savings_withdraws db" _ si swo] by (simp add: get_savings_withdraw_def db_sorted_def)
  then show ?thesis
    using 1 2 3 adjust_savings_balance_frame [OF 1]
    by (auto simp: holdings keeps_gaps_def dest!: table_gaps ledger_gaps)
qed

lemma claim_to_accountD:
  "claim_to_account fc v m a = Inr a' \<Longrightarrow> bmt_of_account a' = bmt_of_account a \<and>
     vests_of_account a' = vests_of_account a \<and> pending_of_account a' = pending_of_account a - amount m"
  by (auto simp: claim_to_account_def res_simps holdings dest!: asset_dests)

lemma claim_to_dgpoD:
  "claim_to_dgpo fc v m g = Inr g' \<Longrightarrow> bmt_of_dgpo g' = bmt_of_dgpo g \<and> g_current_supply g' = g_current_supply g \<and>
     amount (g_total_vesting_shares g') = amount (g_total_vesting_shares g) + amount v \<and>
     amount (g_pending_rewarded_vesting_shares g') = amount (g_pending_rewarded_vesting_shares g) - amount v \<and>
     amount (g_pending_rewarded_vesting_bmt g') = amount (g_pending_rewarded_vesting_bmt g) - amount m"
  by (auto simp: claim_to_dgpo_def res_simps holdings dest!: asset_dests)

lemma claim_reward_balance_gaps: "claim_reward_balance_evaluator fc p db = Inr db' \<Longrightarrow> keeps_gaps db db'"
  by (auto simp: claim_reward_balance_evaluator_def res_simps keeps_gaps_def
      dest!: table_gaps ledger_gaps asset_dests claim_to_accountD claim_to_dgpoD)

end

lemma transfer_quiet: "transfer_evaluator fc p db = Inr db' \<Longrightarrow> db_sorted db \<Longrightarrow> quiet db db'"
  by (auto simp: transfer_evaluator_def res_simps quiet_defs split: if_splits dest!: quiets)

lemma withdraw_savings_quiet: "withdraw_savings_evaluator fc p db = Inr db' \<Longrightarrow> db_sorted db \<Longrightarrow> quiet db db'"
  by (auto simp: withdraw_savings_evaluator_def res_simps quiet_defs Let_def split: if_splits dest!: quiets)

lemma set_withdraw_savings_route_quiet: "set_withdraw_savings_route_evaluator p db = Inr db' \<Longrightarrow> db_sorted db \<Longrightarrow> quiet db db'"
  by (auto simp: set_withdraw_savings_route_evaluator_def res_simps quiet_defs split: if_splits option.splits dest!: quiets)

lemma transfer_to_savings_quiet: "transfer_to_savings_evaluator fc p db = Inr db' \<Longrightarrow> db_sorted db \<Longrightarrow> quiet db db'"
  by (auto simp: transfer_to_savings_evaluator_def res_simps quiet_defs split: if_splits dest!: quiets)

lemma cancel_transfer_from_savings_quiet: "cancel_transfer_from_savings_evaluator fc p db = Inr db' \<Longrightarrow> db_sorted db \<Longrightarrow> quiet db db'"
  by (auto simp: cancel_transfer_from_savings_evaluator_def res_simps quiet_defs split: if_splits dest!: quiets)

lemma claim_reward_balance_quiet: "claim_reward_balance_evaluator fc p db = Inr db' \<Longrightarrow> db_sorted db \<Longrightarrow> quiet db db'"
  by (auto simp: claim_reward_balance_evaluator_def res_simps quiet_defs split: if_splits dest!: quiets)

lemma delegate_vesting_shares_quiet:
  "delegate_vesting_shares_evaluator fc p db = Inr db' \<Longrightarrow> db_sorted db \<Longrightarrow> quiet db db'"
  by (auto simp: delegate_vesting_shares_evaluator_def Let_def res_simps
      split: if_splits option.splits intro: delegation_branch_quiet)

end
