(* ===== verification/Market.thy ===== *)
theory Market
  imports Frames
begin

text \<open>
  Limit orders: \<open>apply_order\<close>, \<open>match\<close>, \<open>fill_order\<close> and \<open>cancel_order\<close> of
  \<open>libraries/chain/database.cpp\<close>, the three evaluators, and the expiry of orders. An order
  takes what it sells out of the balance of its owner and is matched against the orders of
  the opposite market whose price is at least as good, best price first.
\<close>

subsection \<open>The price index\<close>

text \<open>
  Rows in the order of a comparison of objects, ties by id: the position of a row is found
  by insertion, as in a tree keyed by that comparison.
\<close>

fun insert_by :: "('a \<Rightarrow> 'a \<Rightarrow> bool) \<Rightarrow> 'a \<Rightarrow> 'a list \<Rightarrow> 'a list" where
  "insert_by bf x [] = [x]"
| "insert_by bf x (y # ys) = (if bf x y then x # y # ys else y # insert_by bf x ys)"

definition sort_by :: "('a \<Rightarrow> 'a \<Rightarrow> bool) \<Rightarrow> 'a list \<Rightarrow> 'a list" where
  "sort_by bf xs = foldr (insert_by bf) xs []"

lemma set_insert_by [simp]: "set (insert_by bf x ys) = insert x (set ys)"
  by (induction ys) auto

lemma set_sort_by [simp]: "set (sort_by bf xs) = set xs"
  unfolding sort_by_def by (induction xs) auto

text \<open>The key \<open>by_price\<close>: highest price first, then the lower id.\<close>

definition price_before :: "fc_lib \<Rightarrow> oid \<times> limit_order_object \<Rightarrow> oid \<times> limit_order_object \<Rightarrow> bool" where
  "price_before fc x y \<longleftrightarrow> price_gt fc (lo_sell_price (snd x)) (lo_sell_price (snd y)) \<or>
     \<not> price_gt fc (lo_sell_price (snd y)) (lo_sell_price (snd x)) \<and> fst x < fst y"

text \<open>
  The rows from \<open>lower_bound(max_price.max())\<close> up to \<open>upper_bound(max_price)\<close>: not above the
  largest price of that market, and not below \<open>max_price\<close>.
\<close>

definition orders_from :: "fc_lib \<Rightarrow> price \<Rightarrow> price \<Rightarrow> database \<Rightarrow> oid list" where
  "orders_from fc best max_price db =
     map fst (filter (\<lambda>r. \<not> price_gt fc (lo_sell_price (snd r)) best \<and> \<not> price_gt fc max_price (lo_sell_price (snd r)))
       (sort_by (price_before fc) (indices (limit_orders db))))"

subsection \<open>Filling and matching\<close>

definition cancel_order :: "fc_lib \<Rightarrow> oid \<Rightarrow> database \<Rightarrow> exn + database" where
  "cancel_order fc i db =
     bindR (get_id (limit_orders db) i) (\<lambda>order.
     bindR (get_account (lo_seller order) db) (\<lambda>(si, _).
     bindR (adjust_balance fc si (amount_for_sale order) db) (\<lambda>db1.
     remove_limit_order i db1)))"

definition fill_order :: "fc_lib \<Rightarrow> oid \<Rightarrow> asset \<Rightarrow> asset \<Rightarrow> database \<Rightarrow> exn + (database \<times> bool)" where
  "fill_order fc i pays receives db =
     bindR (get_id (limit_orders db) i) (\<lambda>order.
     bindR (assertR (symbol (amount_for_sale order) = symbol pays) ''order.amount_for_sale().symbol == pays.symbol'') (\<lambda>_.
     bindR (assertR (symbol pays \<noteq> symbol receives) ''pays.symbol != receives.symbol'') (\<lambda>_.
     bindR (get_account (lo_seller order) db) (\<lambda>(si, _).
     bindR (adjust_balance fc si receives db) (\<lambda>db1.
     if pays = amount_for_sale order then
       bindR (remove_limit_order i db1) (\<lambda>db2. Inr (db2, True))
     else
       bindR (modify_limit_order i (\<lambda>b.
         bindR (safe_sub fc (lo_for_sale b) (amount pays)) (\<lambda>f. Inr (b\<lparr>lo_for_sale := f\<rparr>))) db1) (\<lambda>db2.
       bindR (get_id (limit_orders db2) i) (\<lambda>order2.
       bindR (amount_to_receive fc order2) (\<lambda>rcv.
       if amount rcv = 0 then bindR (cancel_order fc i db2) (\<lambda>db3. Inr (db3, True))
       else Inr (db2, False)))))))))"

text \<open>
  \<open>match\<close> returns whether the new and whether the old order was filled, the two bits of its
  result. The \<open>assert\<close>s of the source are compiled out of a release build.
\<close>

definition match :: "fc_lib \<Rightarrow> oid \<Rightarrow> oid \<Rightarrow> price \<Rightarrow> database \<Rightarrow> exn + (database \<times> bool \<times> bool)" where
  "match fc new_i old_i match_price db =
     bindR (get_id (limit_orders db) new_i) (\<lambda>new_order.
     bindR (get_id (limit_orders db) old_i) (\<lambda>old_order.
     let new_for_sale = amount_for_sale new_order; old_for_sale = amount_for_sale old_order in
     bindR (asset_times_price fc old_for_sale match_price) (\<lambda>old_value.
     bindR (asset_le new_for_sale old_value) (\<lambda>fits.
     bindR (if fits then
              bindR (asset_times_price fc new_for_sale match_price) (\<lambda>r. Inr (r, new_for_sale))
            else
              bindR (asset_times_price fc old_for_sale match_price) (\<lambda>r. Inr (old_for_sale, r)))
       (\<lambda>(new_receives, old_receives).
     let old_pays = new_receives; new_pays = old_receives in
     bindR (fill_order fc new_i new_pays new_receives db) (\<lambda>(db1, r1).
     bindR (fill_order fc old_i old_pays old_receives db1) (\<lambda>(db2, r2).
     Inr (db2, r1, r2))))))))"

definition match_step :: "fc_lib \<Rightarrow> oid \<Rightarrow> oid \<Rightarrow> database \<times> bool \<Rightarrow> exn + (database \<times> bool)" where
  "match_step fc i old_i s =
     (case s of (db, finished) \<Rightarrow>
        if finished then Inr (db, finished)
        else
          bindR (get_id (limit_orders db) old_i) (\<lambda>old_order.
          bindR (match fc i old_i (lo_sell_price old_order) db) (\<lambda>(db1, r1, _). Inr (db1, r1))))"

definition apply_order :: "fc_lib \<Rightarrow> oid \<Rightarrow> database \<Rightarrow> exn + (database \<times> bool)" where
  "apply_order fc i db =
     bindR (get_id (limit_orders db) i) (\<lambda>new_order.
     let max_price = price_inv (lo_sell_price new_order) in
     bindR (price_max (symbol (base max_price)) (symbol (quote max_price))) (\<lambda>best.
     bindR (foldR (match_step fc i) (orders_from fc best max_price db) (db, False)) (\<lambda>(db1, _).
     Inr (db1, find_id (limit_orders db1) i = None))))"

subsection \<open>The evaluators\<close>

definition limit_order_place ::
  "fc_lib \<Rightarrow> account_name \<Rightarrow> nat \<Rightarrow> asset \<Rightarrow> (exn + price) \<Rightarrow> bool \<Rightarrow> time_point_sec \<Rightarrow> database \<Rightarrow> exn + database" where
  "limit_order_place fc owner orderid amount_to_sell rate fill_or_kill expiration db =
     bindR (assertR (expiration > head_block_time db) ''Limit order has to expire after head block time.'') (\<lambda>_.
     bindR (get_account owner db) (\<lambda>(oi, acc).
     bindR (get_balance acc (symbol amount_to_sell)) (\<lambda>bal.
     bindR (assertM (asset_ge bal amount_to_sell) ''Account does not have sufficient funds for limit order.'') (\<lambda>_.
     bindR (asset_neg fc amount_to_sell) (\<lambda>neg.
     bindR (adjust_balance fc oi neg db) (\<lambda>db1.
     bindR (create_limit_order (\<lambda>_.
       bindR rate (\<lambda>pr.
       Inr \<lparr> lo_created = head_block_time db, lo_expiration = expiration, lo_seller = owner,
             lo_orderid = orderid, lo_for_sale = amount amount_to_sell, lo_sell_price = pr \<rparr>)) db1) (\<lambda>(db2, i).
     bindR (apply_order fc i db2) (\<lambda>(db3, filled).
     bindR (if fill_or_kill then assertR filled ''Cancelling order because it was not filled.'' else Inr ()) (\<lambda>_.
     Inr db3)))))))))"

definition limit_order_create_evaluator :: "fc_lib \<Rightarrow> limit_order_create_operation \<Rightarrow> database \<Rightarrow> exn + database" where
  "limit_order_create_evaluator fc p db =
     limit_order_place fc (lc_owner p) (lc_orderid p) (lc_amount_to_sell p) (lc_get_price p)
       (lc_fill_or_kill p) (lc_expiration p) db"

definition limit_order_create2_evaluator :: "fc_lib \<Rightarrow> limit_order_create2_operation \<Rightarrow> database \<Rightarrow> exn + database" where
  "limit_order_create2_evaluator fc p db =
     limit_order_place fc (lt_owner p) (lt_orderid p) (lt_amount_to_sell p) (Inr (lt_exchange_rate p))
       (lt_fill_or_kill p) (lt_expiration p) db"

definition limit_order_cancel_evaluator :: "fc_lib \<Rightarrow> limit_order_cancel_operation \<Rightarrow> database \<Rightarrow> exn + database" where
  "limit_order_cancel_evaluator fc p db =
     bindR (get_limit_order (lx_owner p) (lx_orderid p) db) (\<lambda>(i, _). cancel_order fc i db)"

subsection \<open>Matching never succeeds\<close>

text \<open>
  \<open>fill_order\<close> credits what an order receives with \<open>adjust_balance\<close>, which knows no symbol but
  BMT, and asserts that an order receives another symbol than it pays. The two calls of one
  match exchange the two amounts, so one of them throws.
\<close>

lemma fill_order_symbols:
  "fill_order fc i pays receives db = Inr r \<Longrightarrow> symbol receives = BMT_SYMBOL \<and> symbol pays \<noteq> BMT_SYMBOL"
  by (auto simp: fill_order_def adjust_balance_def modify_account_def modify_def res_simps split: if_splits)

lemma match_throws: "match fc i j pr db \<noteq> Inr r"
  by (auto simp: match_def Let_def res_simps split: if_splits dest!: fill_order_symbols)

lemma match_loop:
  "foldR (match_step fc i) js (db, False) = Inr s \<Longrightarrow> js = [] \<and> s = (db, False)"
  by (cases js) (auto simp: match_step_def res_simps match_throws)

lemma apply_order_unchanged:
  "apply_order fc i db = Inr (db', filled) \<Longrightarrow> db' = db \<and> \<not> filled"
  by (auto simp: apply_order_def Let_def res_simps get_id_def dest!: match_loop)

subsection \<open>Conservation\<close>

context fc_exact
begin

lemma limit_order_place_gaps:
  assumes "limit_order_place fc owner k sell rate fok expiration db = Inr db'"
    and "\<And>pr. symbol sell = BMT_SYMBOL \<Longrightarrow> rate = Inr pr \<Longrightarrow> symbol (base pr) = BMT_SYMBOL"
  shows "keeps_gaps db db'"
  using assms
  by (auto simp: limit_order_place_def res_simps holdings keeps_gaps_def
      dest!: apply_order_unchanged table_gaps ledger_gaps asset_dests)

lemma limit_order_create_gaps: "limit_order_create_evaluator fc p db = Inr db' \<Longrightarrow> keeps_gaps db db'"
  unfolding limit_order_create_evaluator_def
  by (erule limit_order_place_gaps) (auto simp: lc_get_price_def mk_price_def res_simps)

lemma cancel_order_gaps:
  assumes "cancel_order fc i db = Inr db'"
  shows "keeps_gaps db db'"
proof -
  from assms obtain order si db1 where o: "get_id (limit_orders db) i = Inr order"
    and 1: "adjust_balance fc si (amount_for_sale order) db = Inr db1" and 2: "remove_limit_order i db1 = Inr db'"
    by (auto simp: cancel_order_def res_simps)
  from o adjust_balance_frame [OF 1] have "map_of (indices (limit_orders db1)) i = Some order"
    by (auto simp: get_id_def find_id_def res_simps)
  with 1 2 show ?thesis
    by (auto simp: holdings keeps_gaps_def amount_for_sale_def dest!: table_gaps ledger_gaps)
qed

end

lemma cancel_order_quiet: "cancel_order fc i db = Inr db' \<Longrightarrow> db_sorted db \<Longrightarrow> quiet db db'"
  by (auto simp: cancel_order_def res_simps quiet_defs dest!: quiets)

lemma limit_order_place_quiet:
  "limit_order_place fc owner k sell rate fok expiration db = Inr db' \<Longrightarrow> db_sorted db \<Longrightarrow> quiet db db'"
  by (auto simp: limit_order_place_def res_simps quiet_defs dest!: apply_order_unchanged quiets)

end
