(* ===== verification/Content_Orders.thy ===== *)
theory Content_Orders
  imports Frames
begin

text \<open>
  Orders for encrypted content (\<open>bmchain_evaluator.cpp\<close>): a buyer offers a price, which is
  held by the order, and gets it back when the order is cancelled; the author has it when
  the content is delivered (\<open>encrypted_content_evaluator\<close>, theory \<open>Comments\<close>). The last
  theorem is a flaw: changing the price of an open order moves the difference the wrong way.
\<close>

text \<open>The edit case: an order of this buyer for this content exists.\<close>

definition content_order_edit ::
  "fc_lib \<Rightarrow> content_order_create_operation \<Rightarrow> oid \<Rightarrow> oid \<Rightarrow> content_order_object \<Rightarrow> database \<Rightarrow> exn + database" where
  "content_order_edit fc p oi ci order db =
     (if co_status order = order_open \<and> co_price order \<noteq> oc_price p then
        bindR (modify_account oi (\<lambda>a.
          bindR (asset_minus fc (co_price order) (oc_price p)) (\<lambda>d.
          bindR (asset_minus fc (a_balance a) d) (\<lambda>b. Inr (a\<lparr>a_balance := b\<rparr>)))) db) (\<lambda>db1.
        modify_content_order ci (\<lambda>o'. Inr (o'\<lparr>co_price := oc_price p,
          co_status := (if co_status o' = order_canceled then order_open else co_status o')\<rparr>)) db1)
      else Inr db)"

definition content_order_create_evaluator ::
  "fc_lib \<Rightarrow> content_order_create_operation \<Rightarrow> database \<Rightarrow> exn + database" where
  "content_order_create_evaluator fc p db =
     (if head_block_num db < USING_CLOSE_CONTENT then Inr db
      else
        bindR (get_account (oc_owner p) db) (\<lambda>(oi, owner).
        bindR (get_comment (oc_author p) (oc_permlink p) db) (\<lambda>(_, comment).
        bindR (assertM (asset_gt (a_balance owner) (oc_price p))
          ''Cannot buy the encrypted post because balance does not have enough BMT.'') (\<lambda>_.
        bindR (assertM (asset_le (c_price comment) (oc_price p))
          ''Offered price is not enough for buying this content.'') (\<lambda>_.
        case find_by (\<lambda>o'. co_author o' = oc_author p \<and> c_str (co_permlink o') = c_str (oc_permlink p) \<and>
            co_owner o' = oc_owner p) (content_orders db) of
          None \<Rightarrow>
            bindR (modify_account oi (\<lambda>a.
              bindR (asset_minus fc (a_balance a) (oc_price p)) (\<lambda>b. Inr (a\<lparr>a_balance := b\<rparr>))) db) (\<lambda>db1.
            bindR (create_content_order (\<lambda>_. Inr \<lparr> co_sent_time = head_block_time db, co_author = oc_author p,
              co_permlink = oc_permlink p, co_owner = oc_owner p, co_price = oc_price p, co_status = order_open,
              co_json_metadata = oc_json_metadata p \<rparr>) db1) (\<lambda>(db2, _).
            Inr db2))
        | Some (ci, order) \<Rightarrow>
            content_order_edit fc p oi ci order db)))))"

definition refund_order :: "fc_lib \<Rightarrow> oid \<Rightarrow> content_order_object \<Rightarrow> oid \<Rightarrow> database \<Rightarrow> exn + database" where
  "refund_order fc ci order oi db =
     bindR (assertR (co_status order = order_open) ''This order is completed or canceled.'') (\<lambda>_.
     bindR (modify_account oi (\<lambda>a.
       bindR (asset_plus fc (a_balance a) (co_price order)) (\<lambda>b. Inr (a\<lparr>a_balance := b\<rparr>))) db) (\<lambda>db1.
     modify_content_order ci (\<lambda>o'. Inr (o'\<lparr>co_status := order_canceled\<rparr>)) db1))"

definition content_order_cancel_evaluator ::
  "fc_lib \<Rightarrow> content_order_cancel_operation \<Rightarrow> database \<Rightarrow> exn + database" where
  "content_order_cancel_evaluator fc p db =
     (if head_block_num db < USING_CLOSE_CONTENT then Inr db
      else
        bindR (get_content_order_by_id (ox_order_id p) db) (\<lambda>order.
        bindR (get_account (ox_owner p) db) (\<lambda>(oi, _).
        refund_order fc (ox_order_id p) order oi db)))"

definition content_order_cancel_by_author_evaluator ::
  "fc_lib \<Rightarrow> content_order_cancel_by_author_operation \<Rightarrow> database \<Rightarrow> exn + database" where
  "content_order_cancel_by_author_evaluator fc p db =
     (if head_block_num db < USING_CLOSE_CONTENT then Inr db
      else
        bindR (get_content_order_by_id (oa_order_id p) db) (\<lambda>order.
        bindR (get_account (co_owner order) db) (\<lambda>(oi, _).
        refund_order fc (oa_order_id p) order oi db)))"

subsection \<open>Conservation\<close>

text \<open>The operation finds no open order of the buyer for that content at another price.\<close>

definition order_not_repriced :: "content_order_create_operation \<Rightarrow> database \<Rightarrow> bool" where
  "order_not_repriced p db \<longleftrightarrow>
     (case find_by (\<lambda>o'. co_author o' = oc_author p \<and> c_str (co_permlink o') = c_str (oc_permlink p) \<and>
         co_owner o' = oc_owner p) (content_orders db) of
        None \<Rightarrow> True
      | Some (_, order) \<Rightarrow> \<not> (co_status order = order_open \<and> co_price order \<noteq> oc_price p))"

context fc_exact
begin

lemma content_order_create_gaps:
  "content_order_create_evaluator fc p db = Inr db' \<Longrightarrow> order_not_repriced p db \<Longrightarrow> keeps_gaps db db'"
  by (auto simp: content_order_create_evaluator_def order_not_repriced_def content_order_edit_def res_simps
      holdings keeps_gaps_def split: if_splits option.splits dest!: table_gaps asset_dests)

lemma refund_order_gaps:
  assumes "refund_order fc ci order oi db = Inr db'" and "map_of (indices (content_orders db)) ci = Some order"
  shows "keeps_gaps db db'"
proof -
  from assms(1) obtain db1 where o: "co_status order = order_open"
    and 1: "modify_account oi (\<lambda>a. bindR (asset_plus fc (a_balance a) (co_price order)) (\<lambda>b. Inr (a\<lparr>a_balance := b\<rparr>))) db = Inr db1"
    and 2: "modify_content_order ci (\<lambda>o'. Inr (o'\<lparr>co_status := order_canceled\<rparr>)) db1 = Inr db'"
    by (auto simp: refund_order_def res_simps)
  show ?thesis
    using assms(2) o 1 2 modify_account_frame [OF 1]
    by (auto simp: res_simps holdings keeps_gaps_def dest!: table_gaps asset_dests)
qed

lemma content_order_cancel_gaps: "content_order_cancel_evaluator fc p db = Inr db' \<Longrightarrow> keeps_gaps db db'"
  by (auto simp: content_order_cancel_evaluator_def get_content_order_by_id_def get_id_def find_id_def res_simps
      split: if_splits intro: refund_order_gaps)

lemma content_order_cancel_by_author_gaps:
  "content_order_cancel_by_author_evaluator fc p db = Inr db' \<Longrightarrow> keeps_gaps db db'"
  by (auto simp: content_order_cancel_by_author_evaluator_def get_content_order_by_id_def get_id_def find_id_def res_simps
      split: if_splits intro: refund_order_gaps)

text \<open>An order at another price takes the difference from both sides.\<close>

lemma content_order_reprice_gap:
  assumes "content_order_create_evaluator fc p db = Inr db'" and "db_sorted db"
    and "head_block_num db \<ge> USING_CLOSE_CONTENT"
    and "find_by (\<lambda>o'. co_author o' = oc_author p \<and> c_str (co_permlink o') = c_str (oc_permlink p) \<and>
      co_owner o' = oc_owner p) (content_orders db) = Some (ci, order)"
    and "co_status order = order_open" "co_price order \<noteq> oc_price p"
  shows "supply_gap db' = supply_gap db + 2 * (amount (co_price order) - amount (oc_price p))"
proof -
  have row: "map_of (indices (content_orders db)) ci = Some order"
    using assms(2,4) by (auto simp: db_sorted_def intro: find_by_map_of)
  from assms obtain oi db1 where
    1: "modify_account oi (\<lambda>a. bindR (asset_minus fc (co_price order) (oc_price p)) (\<lambda>d.
          bindR (asset_minus fc (a_balance a) d) (\<lambda>b. Inr (a\<lparr>a_balance := b\<rparr>)))) db = Inr db1"
    and 2: "modify_content_order ci (\<lambda>o'. Inr (o'\<lparr>co_price := oc_price p,
          co_status := (if co_status o' = order_canceled then order_open else co_status o')\<rparr>)) db1 = Inr db'"
    by (auto simp: content_order_create_evaluator_def content_order_edit_def res_simps)
  show ?thesis
    using row assms(5) 1 2 modify_account_frame [OF 1]
    by (auto simp: res_simps holdings dest!: table_gaps asset_dests)
qed

end

lemma refund_order_quiet: "refund_order fc ci order oi db = Inr db' \<Longrightarrow> db_sorted db \<Longrightarrow> quiet db db'"
  by (auto simp: refund_order_def res_simps quiet_defs dest!: quiets)

lemma content_order_edit_quiet:
  "content_order_edit fc p oi ci order db = Inr db' \<Longrightarrow> db_sorted db \<Longrightarrow> quiet db db'"
  by (auto simp: content_order_edit_def res_simps quiet_defs split: if_splits dest!: quiets)

lemma content_order_create_quiet: "content_order_create_evaluator fc p db = Inr db' \<Longrightarrow> db_sorted db \<Longrightarrow> quiet db db'"
  by (auto simp: content_order_create_evaluator_def res_simps quiet_defs split: if_splits option.splits
      dest!: quiets content_order_edit_quiet)

lemma content_order_cancel_quiet: "content_order_cancel_evaluator fc p db = Inr db' \<Longrightarrow> db_sorted db \<Longrightarrow> quiet db db'"
  by (auto simp: content_order_cancel_evaluator_def res_simps split: if_splits intro: refund_order_quiet)

lemma content_order_cancel_by_author_quiet:
  "content_order_cancel_by_author_evaluator fc p db = Inr db' \<Longrightarrow> db_sorted db \<Longrightarrow> quiet db db'"
  by (auto simp: content_order_cancel_by_author_evaluator_def res_simps split: if_splits intro: refund_order_quiet)

end
