(* ===== verification/Tokens.thy ===== *)
theory Tokens
  imports Frames
begin

text \<open>
  Custom tokens: the evaluators of \<open>libraries/chain/custom_token_evaluator.cpp\<close> and the
  emission of \<open>database.cpp\<close>. A token is created with its whole supply in the balance of the
  control account. The lemmas show that a transfer keeps the sum of the balances of every
  token, and what the evaluators do to the BMT of the chain.
\<close>

text \<open>A fee goes to every reward fund, as a loop over the funds.\<close>

definition pay_fee_to_funds :: "fc_lib \<Rightarrow> asset \<Rightarrow> database \<Rightarrow> exn + database" where
  "pay_fee_to_funds fc fee db =
     (if amount fee > 0 then
        foldR (\<lambda>row. modify_reward_fund (fst row) (\<lambda>rfo.
          bindR (asset_plus fc (rf_reward_balance rfo) fee) (\<lambda>b. Inr (rfo\<lparr>rf_reward_balance := b\<rparr>))))
          (indices (reward_funds db)) db
      else Inr db)"

definition find_token :: "asset_symbol_type \<Rightarrow> database \<Rightarrow> (oid \<times> custom_token_object) option" where
  "find_token s db = find_by (\<lambda>t. ct_symbol t = s) (custom_tokens db)"

definition get_controlled_token :: "database \<Rightarrow> account_name \<Rightarrow> asset_symbol_type \<Rightarrow> exn + (oid \<times> custom_token_object)" where
  "get_controlled_token db control s =
     (case find_token s db of
        None \<Rightarrow> Inl (Assert_failed ''SMT numerical asset identifier not found'')
      | Some (i, t) \<Rightarrow>
          bindR (assertR (ct_control_account t = control) ''The account does NOT control the token'') (\<lambda>_. Inr (i, t)))"

definition common_pre_setup_evaluation ::
  "database \<Rightarrow> asset_symbol_type \<Rightarrow> account_name \<Rightarrow> exn + (oid \<times> custom_token_object)" where
  "common_pre_setup_evaluation db s control =
     bindR (get_controlled_token db control s) (\<lambda>(i, t).
     bindR (assertR (ct_phase t = account_elevated)
       ''token pre-setup operation no longer allowed after setup phase is over'') (\<lambda>_. Inr (i, t)))"

definition custom_token_create_evaluator :: "fc_lib \<Rightarrow> custom_token_create_operation \<Rightarrow> database \<Rightarrow> exn + database" where
  "custom_token_create_evaluator fc p db =
     bindR (get_account (tk_control_account p) db) (\<lambda>(i, acc).
     bindR (assertM (asset_ge (a_balance acc) (tk_custom_token_creation_fee p))
       ''Control account dosnt have enough BMT.'') (\<lambda>_.
     bindR (assertR (find_token (symbol (tk_current_supply p)) db = None) ''Custom token with such symbol exists.'') (\<lambda>_.
     bindR (create_custom_token (\<lambda>_. Inr (default_custom_token_object\<lparr>
       ct_control_account := tk_control_account p, ct_symbol := symbol (tk_current_supply p),
       ct_current_supply := tk_current_supply p, ct_reward_fund := asset_of 0 (symbol (tk_current_supply p)),
       ct_generation_time := head_block_time db\<rparr>)) db) (\<lambda>(db1, _).
     bindR (create_account_balance (\<lambda>_. Inr \<lparr> ab_symbol = symbol (tk_current_supply p),
       ab_owner = tk_control_account p, ab_balance = tk_current_supply p \<rparr>) db1) (\<lambda>(db2, _).
     bindR (modify_account i (\<lambda>a.
       bindR (asset_minus fc (a_balance a) (tk_custom_token_creation_fee p)) (\<lambda>b. Inr (a\<lparr>a_balance := b\<rparr>))) db2) (\<lambda>db3.
     pay_fee_to_funds fc (tk_custom_token_creation_fee p) db3))))))"

text \<open>
  The key \<open>by_owner\<close> orders the balances of one owner and symbol by descending id, so a
  lookup by owner and symbol finds the newest.
\<close>

definition find_balance :: "account_name \<Rightarrow> asset_symbol_type \<Rightarrow> database \<Rightarrow> (oid \<times> account_balance_object) option" where
  "find_balance n s db =
     List.find (\<lambda>r. ab_owner (snd r) = n \<and> ab_symbol (snd r) = s) (rev (indices (account_balances db)))"

definition custom_token_transfer_evaluator ::
  "fc_lib \<Rightarrow> custom_token_transfer_operation \<Rightarrow> database \<Rightarrow> exn + database" where
  "custom_token_transfer_evaluator fc p db =
     (let s = symbol (tt_amount p) in
      bindR (of_optionR (Assert_failed ''This account does not have enough token #1.'') (find_balance (tt_from p) s db)) (\<lambda>(fi, b).
      bindR (assertM (asset_ge (ab_balance b) (tt_amount p)) ''This account does not have enough token #2.'') (\<lambda>_.
      bindR (assertR (ab_symbol b = s) ''Wrong symbol.'') (\<lambda>_.
      bindR (modify_account_balance fi (\<lambda>b.
        bindR (asset_minus fc (ab_balance b) (tt_amount p)) (\<lambda>x. Inr (b\<lparr>ab_balance := x\<rparr>))) db) (\<lambda>db1.
      case find_balance (tt_to p) s db1 of
        None \<Rightarrow>
          bindR (create_account_balance (\<lambda>_. Inr \<lparr> ab_symbol = s, ab_owner = tt_to p, ab_balance = tt_amount p \<rparr>) db1)
            (\<lambda>(db2, _). Inr db2)
      | Some (ti, _) \<Rightarrow>
          modify_account_balance ti (\<lambda>b.
            bindR (asset_plus fc (ab_balance b) (tt_amount p)) (\<lambda>x. Inr (b\<lparr>ab_balance := x\<rparr>))) db1)))))"

definition custom_token_setup_emissions_evaluator ::
  "custom_token_setup_emissions_operation \<Rightarrow> database \<Rightarrow> exn + database" where
  "custom_token_setup_emissions_evaluator p db =
     bindR (of_optionR (Assert_failed ''Custom token with such symbol dont exists.'')
       (find_token (symbol (te_symbol p)) db)) (\<lambda>(i, _).
     modify_custom_token i (\<lambda>t. Inr (t\<lparr>ct_inflation_rate := te_inflation_rate p, ct_schedule_time := te_schedule_time p,
       ct_interval_count := te_interval_count p, ct_interval_seconds := te_interval_seconds p\<rparr>)) db)"

text \<open>The visitor of the setup parameters, in their order.\<close>

fun apply_setup_parameter :: "token_setup_parameter \<Rightarrow> custom_token_object \<Rightarrow> custom_token_object" where
  "apply_setup_parameter (token_param_allow_voting b) t = t\<lparr>ct_allow_voting := b\<rparr>"
| "apply_setup_parameter (token_param_allow_vesting b) t = t\<lparr>ct_allow_vesting := b\<rparr>"

definition custom_token_set_setup_parameters_evaluator ::
  "custom_token_set_setup_parameters_operation \<Rightarrow> database \<Rightarrow> exn + database" where
  "custom_token_set_setup_parameters_evaluator p db =
     bindR (common_pre_setup_evaluation db (symbol (tp_symbol p)) (tp_control_account p)) (\<lambda>(i, _).
     modify_custom_token i (\<lambda>t. Inr (fold apply_setup_parameter (tp_setup_parameters p) t)) db)"

subsection \<open>The BMT of the chain\<close>

lemma token_quiets:
  "pay_fee_to_funds fc fee db = Inr db' \<Longrightarrow> quiet db db'"
  "custom_token_setup_emissions_evaluator p1 db = Inr db' \<Longrightarrow> quiet db db'"
  "custom_token_set_setup_parameters_evaluator p2 db = Inr db' \<Longrightarrow> quiet db db'"
  by (auto simp: pay_fee_to_funds_def custom_token_setup_emissions_evaluator_def
      custom_token_set_setup_parameters_evaluator_def res_simps split: if_splits dest!: quiets foldR_quiet [rotated])

lemma custom_token_create_quiet: "custom_token_create_evaluator fc p db = Inr db' \<Longrightarrow> db_sorted db \<Longrightarrow> quiet db db'"
  by (auto simp: custom_token_create_evaluator_def res_simps quiet_defs dest!: quiets token_quiets)

lemma custom_token_transfer_quiet: "custom_token_transfer_evaluator fc p db = Inr db' \<Longrightarrow> db_sorted db \<Longrightarrow> quiet db db'"
  by (auto simp: custom_token_transfer_evaluator_def Let_def res_simps quiet_defs split: option.splits dest!: quiets)

lemma token_gaps:
  "custom_token_transfer_evaluator fc p0 db = Inr db' \<Longrightarrow> keeps_gaps db db'"
  "custom_token_setup_emissions_evaluator p1 db = Inr db' \<Longrightarrow> keeps_gaps db db'"
  "custom_token_set_setup_parameters_evaluator p2 db = Inr db' \<Longrightarrow> keeps_gaps db db'"
  by (auto simp: custom_token_transfer_evaluator_def custom_token_setup_emissions_evaluator_def
      custom_token_set_setup_parameters_evaluator_def Let_def res_simps keeps_gaps_def split: option.splits
      dest!: table_gaps)

context fc_exact
begin

lemma pay_funds_gap:
  "foldR (\<lambda>row. modify_reward_fund (fst row) (\<lambda>rfo.
     bindR (asset_plus fc (rf_reward_balance rfo) fee) (\<lambda>b. Inr (rfo\<lparr>rf_reward_balance := b\<rparr>)))) rows db = Inr db' \<Longrightarrow>
   supply_gap db' = supply_gap db - int (length rows) * amount fee \<and> vests_gap db' = vests_gap db \<and>
   pending_gap db' = pending_gap db"
proof (induction rows arbitrary: db)
  case Nil
  then show ?case by simp
next
  case (Cons row rows)
  from Cons.prems obtain db1 where
    1: "modify_reward_fund (fst row) (\<lambda>rfo. bindR (asset_plus fc (rf_reward_balance rfo) fee)
      (\<lambda>b. Inr (rfo\<lparr>rf_reward_balance := b\<rparr>))) db = Inr db1"
    and 2: "foldR (\<lambda>row. modify_reward_fund (fst row) (\<lambda>rfo. bindR (asset_plus fc (rf_reward_balance rfo) fee)
      (\<lambda>b. Inr (rfo\<lparr>rf_reward_balance := b\<rparr>)))) rows db1 = Inr db'"
    by (auto simp: res_simps)
  have "supply_gap db1 = supply_gap db - amount fee \<and> vests_gap db1 = vests_gap db \<and> pending_gap db1 = pending_gap db"
    using 1 by (auto simp: res_simps holdings dest!: table_gaps asset_dests)
  with Cons.IH [OF 2] show ?case by (simp add: algebra_simps)
qed

lemma pay_fee_to_funds_gap:
  "pay_fee_to_funds fc fee db = Inr db' \<Longrightarrow> 0 \<le> amount fee \<Longrightarrow>
   supply_gap db' = supply_gap db - int (length (fund_ids db)) * amount fee \<and> vests_gap db' = vests_gap db \<and>
   pending_gap db' = pending_gap db"
  by (auto simp: pay_fee_to_funds_def fund_ids_def split: if_splits dest!: pay_funds_gap)

lemma custom_token_create_gaps:
  assumes "custom_token_create_evaluator fc p db = Inr db'" and "length (fund_ids db) = 1"
    and "amount (tk_custom_token_creation_fee p) \<ge> 0"
  shows "keeps_gaps db db'"
proof -
  from assms(1) obtain i db1 db2 db3 k1 k2 b1 b2 where
    1: "create_custom_token k1 db = Inr (db1, b1)" and 2: "create_account_balance k2 db1 = Inr (db2, b2)"
    and 3: "modify_account i (\<lambda>a. bindR (asset_minus fc (a_balance a) (tk_custom_token_creation_fee p))
       (\<lambda>b. Inr (a\<lparr>a_balance := b\<rparr>))) db2 = Inr db3"
    and 4: "pay_fee_to_funds fc (tk_custom_token_creation_fee p) db3 = Inr db'"
    by (auto simp: custom_token_create_evaluator_def res_simps)
  have "fund_ids db3 = fund_ids db"
    using 1 2 3 by (auto simp: quiet_defs dest!: quiets)
  with assms(2) pay_fee_to_funds_gap [OF 4 assms(3)] 1 2 3 show ?thesis
    by (auto simp: res_simps holdings keeps_gaps_def dest!: table_gaps asset_dests)
qed

end

subsection \<open>The balances of a token\<close>

definition token_held :: "asset_symbol_type \<Rightarrow> database \<Rightarrow> int" where
  "token_held s db = row_sum (\<lambda>b. if ab_symbol b = s then amount (ab_balance b) else 0) (indices (account_balances db))"

lemma modify_account_balance_held:
  "modify_account_balance i m db = Inr db' \<Longrightarrow> \<exists>v v'. map_of (indices (account_balances db)) i = Some v \<and> m v = Inr v' \<and>
     (\<forall>s. token_held s db' = token_held s db - (if ab_symbol v = s then amount (ab_balance v) else 0) +
       (if ab_symbol v' = s then amount (ab_balance v') else 0))"
  by (auto simp: modify_account_balance_def token_held_def res_simps row_sum_upd_row elim!: modifyD)

lemma create_account_balance_held:
  "create_account_balance k db = Inr (db', i) \<Longrightarrow> \<exists>v. k i = Inr v \<and>
     (\<forall>s. token_held s db' = token_held s db + (if ab_symbol v = s then amount (ab_balance v) else 0))"
  by (auto simp: create_account_balance_def token_held_def res_simps row_sum_ins_row elim!: emplaceD)

lemma find_SomeD: "List.find P xs = Some x \<Longrightarrow> x \<in> set xs \<and> P x"
  by (metis find_Some_iff nth_mem)

lemma find_balance_row:
  "rows_sorted (indices (account_balances db)) \<Longrightarrow> find_balance n s db = Some (i, b) \<Longrightarrow>
   map_of (indices (account_balances db)) i = Some b \<and> ab_owner b = n \<and> ab_symbol b = s"
  using rows_sorted_distinct [of "indices (account_balances db)"]
  unfolding find_balance_def by (fastforce dest!: find_SomeD)

context fc_exact
begin

lemma custom_token_transfer_held:
  assumes "custom_token_transfer_evaluator fc p db = Inr db'" and srt: "rows_sorted (indices (account_balances db))"
  shows "token_held s db' = token_held s db"
proof -
  let ?s = "symbol (tt_amount p)"
  from assms(1) obtain fi b db1 where f: "find_balance (tt_from p) ?s db = Some (fi, b)"
    and 1: "modify_account_balance fi (\<lambda>b. bindR (asset_minus fc (ab_balance b) (tt_amount p))
        (\<lambda>x. Inr (b\<lparr>ab_balance := x\<rparr>))) db = Inr db1"
    and 2: "(case find_balance (tt_to p) ?s db1 of
        None \<Rightarrow> bindR (create_account_balance (\<lambda>_. Inr \<lparr> ab_symbol = ?s, ab_owner = tt_to p, ab_balance = tt_amount p \<rparr>) db1)
          (\<lambda>(db2, _). Inr db2)
      | Some (ti, _) \<Rightarrow> modify_account_balance ti (\<lambda>b.
          bindR (asset_plus fc (ab_balance b) (tt_amount p)) (\<lambda>x. Inr (b\<lparr>ab_balance := x\<rparr>))) db1) = Inr db'"
    by (auto simp: custom_token_transfer_evaluator_def Let_def res_simps)
  have sub: "token_held s db1 = token_held s db - (if ?s = s then amount (tt_amount p) else 0)"
    using 1 find_balance_row [OF srt f] by (auto simp: res_simps dest!: modify_account_balance_held asset_dests)
  have srt1: "rows_sorted (indices (account_balances db1))"
    using 1 srt by (auto simp: modify_account_balance_def res_simps elim!: modifyD)
  have "token_held s db' = token_held s db1 + (if ?s = s then amount (tt_amount p) else 0)"
  proof (cases "find_balance (tt_to p) ?s db1")
    case None
    with 2 show ?thesis by (auto simp: res_simps dest!: create_account_balance_held)
  next
    case (Some r)
    with 2 find_balance_row [OF srt1, of "tt_to p" ?s "fst r" "snd r"] show ?thesis
      by (auto simp: res_simps split: prod.splits dest!: modify_account_balance_held asset_dests)
  qed
  with sub show ?thesis by simp
qed

end

text \<open>
  A token transfer creates and destroys nothing. When it succeeds, the sum of all
  balances of every token is what it was, also when sender and receiver are the same, when
  the receiver has no balance yet, and when the amount is negative.
\<close>

theorem custom_token_transfer_conserves:
  assumes "fc_exact fc" and "custom_token_transfer_evaluator fc p db = Inr db'"
    and "rows_sorted (indices (account_balances db))"
  shows "token_held s db' = token_held s db"
  using fc_exact.custom_token_transfer_held [OF assms] .

definition sample_token_db :: database where
  "sample_token_db = sample_db\<lparr>account_balances := mk_index
     [(0, \<lparr> ab_symbol = 7, ab_owner = ''alice'', ab_balance = asset_of 100 7 \<rparr>)] 1\<rparr>"

definition sample_token_transfer :: custom_token_transfer_operation where
  "sample_token_transfer = \<lparr> tt_from = ''alice'', tt_to = ''bob'', tt_amount = asset_of 30 7 \<rparr>"

theorem custom_token_transfer_conserves_witness:
  "\<exists>db'. custom_token_transfer_evaluator fc64 sample_token_transfer sample_token_db = Inr db' \<and>
     length (indices (account_balances db')) = 2 \<and> token_held 7 db' = 100"
proof -
  have run: "\<exists>db'. custom_token_transfer_evaluator fc64 sample_token_transfer sample_token_db = Inr db' \<and>
     length (indices (account_balances db')) = 2"
    by (simp add: custom_token_transfer_evaluator_def sample_token_transfer_def sample_token_db_def find_balance_def
        mk_index_def modify_account_balance_def modify_def create_account_balance_def emplace_def insert_ok_def
        modify_ok_def no_conflict_def eval64)
  then obtain db' where r: "custom_token_transfer_evaluator fc64 sample_token_transfer sample_token_db = Inr db'"
    "length (indices (account_balances db')) = 2" by blast
  have "token_held 7 db' = token_held 7 sample_token_db"
    by (rule custom_token_transfer_conserves [OF fc64.fc_exact_axioms r(1)]) (simp add: sample_token_db_def mk_index_def)
  with r show ?thesis by (auto simp: token_held_def sample_token_db_def mk_index_def)
qed

end
