(* ===== verification/Accounts.thy ===== *)
theory Accounts
  imports Frames Tokens
begin

text \<open>
  Creation and update of accounts, witnesses and their votes, and recovery of accounts
  (\<open>bmchain_evaluator.cpp\<close>). The order of the checks and of the writes is that of the source;
  an object is read again after a write where the source reads through its reference.
\<close>

subsection \<open>Creation and update\<close>

definition check_accounts_exist :: "authority \<Rightarrow> database \<Rightarrow> exn + unit" where
  "check_accounts_exist auth db =
     checkR (\<lambda>a. bindR (get_account (fst a) db) (\<lambda>_. Inr ())) (account_auths auth)"

text \<open>The avatar is the value of the last key \<open>avatar\<close>, when the metadata is an object.\<close>

definition json_avatar :: "fc_lib \<Rightarrow> string \<Rightarrow> string \<Rightarrow> exn + string" where
  "json_avatar fc json avatar =
     (if json = [] then Inr avatar
      else
        bindR (json_entries fc json) (\<lambda>es.
        case es of None \<Rightarrow> Inr avatar
        | Some kvs \<Rightarrow> foldR (\<lambda>(k, v) av. if k = ''avatar'' then v else Inr av) kvs avatar))"

definition witness_update_evaluator :: "witness_update_operation \<Rightarrow> database \<Rightarrow> exn + database" where
  "witness_update_evaluator p db =
     bindR (get_account (wu_owner p) db) (\<lambda>_.
     bindR (assertR (length (wu_url p) \<le> MAX_WITNESS_URL_LENGTH) ''URL is too long'') (\<lambda>_.
     bindR (assertR (symbol (account_creation_fee (wu_props p)) = BMT_SYMBOL)
       ''o.props.account_creation_fee.symbol == BMT_SYMBOL'') (\<lambda>_.
     case find_witness (wu_owner p) db of
       Some (i, _) \<Rightarrow> modify_witness i (\<lambda>w. Inr (w\<lparr>w_url := wu_url p, w_signing_key := wu_block_signing_key p,
         w_props := wu_props p\<rparr>)) db
     | None \<Rightarrow> bindR (create_witness (\<lambda>_. Inr (default_witness_object\<lparr>w_owner := wu_owner p, w_url := wu_url p,
         w_signing_key := wu_block_signing_key p, w_created := head_block_time db, w_props := wu_props p\<rparr>)) db)
         (\<lambda>(db1, _). Inr db1))))"

definition account_create_evaluator :: "fc_lib \<Rightarrow> account_create_operation \<Rightarrow> database \<Rightarrow> exn + database" where
  "account_create_evaluator fc p db =
     bindR (get_account (ac_creator p) db) (\<lambda>(ci, creator).
     bindR (assertM (asset_ge (a_balance creator) (ac_fee p)) ''Insufficient balance to create account.'') (\<lambda>_.
     bindR (safe_mul fc (amount (account_creation_fee (ws_median_props (wso db)))) CREATE_ACCOUNT_WITH_BMT_MODIFIER) (\<lambda>required.
     bindR (assertM (asset_ge (ac_fee p) (bmt required)) ''Insufficient Fee'') (\<lambda>_.
     bindR (check_accounts_exist (ac_owner p) db) (\<lambda>_.
     bindR (check_accounts_exist (ac_active p) db) (\<lambda>_.
     bindR (check_accounts_exist (ac_posting p) db) (\<lambda>_.
     bindR (modify_account ci (\<lambda>c.
       bindR (asset_minus fc (a_balance c) (ac_fee p)) (\<lambda>b. Inr (c\<lparr>a_balance := b\<rparr>))) db) (\<lambda>db1.
     bindR (create_account (\<lambda>_.
       bindR (json_avatar fc (ac_json_metadata p) []) (\<lambda>avatar.
       Inr (default_account_object\<lparr>a_name := ac_new_account_name p, a_memo_key := ac_memo_key p,
         a_created := g_time (dgpo db), a_last_vote_time := g_time (dgpo db), a_mined := False,
         a_recovery_account := ac_creator p, a_avatar := avatar, a_json_metadata := ac_json_metadata p\<rparr>))) db1) (\<lambda>(db2, _).
     bindR (create_account_authority (\<lambda>_. Inr \<lparr> aa_account = ac_new_account_name p, aa_owner = ac_owner p,
       aa_active = ac_active p, aa_posting = ac_posting p, aa_last_owner_update = time_min \<rparr>) db2) (\<lambda>(db3, _).
     bindR (pay_fee_to_funds fc (ac_fee p) db3) (\<lambda>db4.
     process_funds_bmchain fc USER_EMISSION_RATE db4)))))))))))"

text \<open>The delegation a new account needs: so much per unit of fee, in vesting shares.\<close>

definition delegation_checks :: "fc_lib \<Rightarrow> account_create_with_delegation_operation \<Rightarrow> database \<Rightarrow> exn + unit" where
  "delegation_checks fc p db =
     (let fee = account_creation_fee (ws_median_props (wso db)) in
      bindR (safe_mul fc (amount fee) CREATE_ACCOUNT_WITH_BMT_MODIFIER) (\<lambda>t1.
      bindR (safe_mul fc t1 CREATE_ACCOUNT_DELEGATION_RATIO) (\<lambda>t2.
      bindR (get_vesting_share_price (dgpo db)) (\<lambda>pr.
      bindR (asset_times_price fc (bmt t2) pr) (\<lambda>target.
      bindR (safe_mul fc (amount (ad_fee p)) CREATE_ACCOUNT_DELEGATION_RATIO) (\<lambda>c1.
      bindR (asset_times_price fc (bmt c1) pr) (\<lambda>c2.
      bindR (asset_plus fc c2 (ad_delegation p)) (\<lambda>current.
      bindR (assertM (asset_ge current target) ''Inssufficient Delegation'') (\<lambda>_.
      assertM (asset_ge (ad_fee p) fee) ''Insufficient Fee'')))))))))"

definition account_create_with_delegation_evaluator ::
  "fc_lib \<Rightarrow> account_create_with_delegation_operation \<Rightarrow> database \<Rightarrow> exn + database" where
  "account_create_with_delegation_evaluator fc p db =
     bindR (get_account (ad_creator p) db) (\<lambda>(ci, creator).
     bindR (assertM (asset_ge (a_balance creator) (ad_fee p)) ''Insufficient balance to create account.'') (\<lambda>_.
     bindR (asset_minus fc (a_vesting_shares creator) (a_delegated_vesting_shares creator)) (\<lambda>d.
     bindR (safe_sub fc (a_to_withdraw creator) (a_withdrawn creator)) (\<lambda>w.
     bindR (asset_minus fc d (vests w)) (\<lambda>avail.
     bindR (assertM (asset_ge avail (ad_delegation p)) ''Insufficient vesting shares to delegate to new account.'') (\<lambda>_.
     bindR (delegation_checks fc p db) (\<lambda>_.
     bindR (check_accounts_exist (ad_owner p) db) (\<lambda>_.
     bindR (check_accounts_exist (ad_active p) db) (\<lambda>_.
     bindR (check_accounts_exist (ad_posting p) db) (\<lambda>_.
     bindR (modify_account ci (\<lambda>c.
       bindR (asset_minus fc (a_balance c) (ad_fee p)) (\<lambda>b.
       bindR (asset_plus fc (a_delegated_vesting_shares c) (ad_delegation p)) (\<lambda>dv.
       Inr (c\<lparr>a_balance := b, a_delegated_vesting_shares := dv\<rparr>)))) db) (\<lambda>db1.
     bindR (create_account (\<lambda>_. Inr (default_account_object\<lparr>a_name := ad_new_account_name p, a_memo_key := ad_memo_key p,
       a_created := g_time (dgpo db), a_last_vote_time := g_time (dgpo db), a_mined := False,
       a_recovery_account := ad_creator p, a_received_vesting_shares := ad_delegation p,
       a_json_metadata := ad_json_metadata p\<rparr>)) db1) (\<lambda>(db2, ni).
     bindR (create_account_authority (\<lambda>_. Inr \<lparr> aa_account = ad_new_account_name p, aa_owner = ad_owner p,
       aa_active = ad_active p, aa_posting = ad_posting p, aa_last_owner_update = time_min \<rparr>) db2) (\<lambda>(db3, _).
     bindR (if amount (ad_delegation p) > 0 then
              bindR (create_delegation (\<lambda>_. Inr \<lparr> vd_delegator = ad_creator p, vd_delegatee = ad_new_account_name p,
                vd_vesting_shares = ad_delegation p,
                vd_min_delegation_time = time_plus (head_block_time db) CREATE_ACCOUNT_DELEGATION_TIME \<rparr>) db3) (\<lambda>(d', _). Inr d')
            else Inr db3) (\<lambda>db4.
     if amount (ad_fee p) > 0 then bindR (create_vesting fc ni (ad_fee p) False db4) (\<lambda>(db5, _). Inr db5)
     else Inr db4))))))))))))))"

definition account_update_evaluator :: "fc_lib \<Rightarrow> account_update_operation \<Rightarrow> database \<Rightarrow> exn + database" where
  "account_update_evaluator fc p db =
     bindR (assertR (au_account p \<noteq> TEMP_ACCOUNT) ''Cannot update temp account.'') (\<lambda>_.
     bindR (case au_posting p of Some a \<Rightarrow> authority_validate a | None \<Rightarrow> Inr ()) (\<lambda>_.
     bindR (get_account (au_account p) db) (\<lambda>(i, _).
     bindR (get_account_authority (au_account p) db) (\<lambda>(ai, auth).
     bindR (case au_owner p of
              Some o' \<Rightarrow>
                bindR (assertR (time_diff (head_block_time db) (aa_last_owner_update auth) > int OWNER_UPDATE_LIMIT)
                  ''Owner authority can only be updated once an hour.'') (\<lambda>_.
                bindR (check_accounts_exist o' db) (\<lambda>_. update_owner_authority i o' db))
            | None \<Rightarrow> Inr db) (\<lambda>db1.
     bindR (case au_active p of Some a \<Rightarrow> check_accounts_exist a db1 | None \<Rightarrow> Inr ()) (\<lambda>_.
     bindR (case au_posting p of Some a \<Rightarrow> check_accounts_exist a db1 | None \<Rightarrow> Inr ()) (\<lambda>_.
     bindR (modify_account i (\<lambda>a.
       let a1 = (if au_memo_key p \<noteq> null_key then a\<lparr>a_memo_key := au_memo_key p\<rparr> else a);
           a2 = (if (au_active p \<noteq> None \<or> au_owner p \<noteq> None) \<and> a_active_challenged a1
                 then a1\<lparr>a_active_challenged := False, a_last_active_proved := head_block_time db\<rparr> else a1);
           a3 = a2\<lparr>a_last_account_update := head_block_time db\<rparr> in
       bindR (json_avatar fc (au_json_metadata p) (a_avatar a3)) (\<lambda>avatar.
       let a4 = a3\<lparr>a_avatar := avatar\<rparr> in
       Inr (if au_json_metadata p \<noteq> [] then a4\<lparr>a_json_metadata := au_json_metadata p\<rparr> else a4))) db1) (\<lambda>db2.
     if au_active p \<noteq> None \<or> au_posting p \<noteq> None then
       modify_account_authority ai (\<lambda>x.
         let x1 = (case au_active p of Some a \<Rightarrow> x\<lparr>aa_active := a\<rparr> | None \<Rightarrow> x) in
         Inr (case au_posting p of Some a \<Rightarrow> x1\<lparr>aa_posting := a\<rparr> | None \<Rightarrow> x1)) db2
     else Inr db2))))))))"

subsection \<open>Witness votes and proxies\<close>

definition account_witness_vote_evaluator :: "fc_lib \<Rightarrow> account_witness_vote_operation \<Rightarrow> database \<Rightarrow> exn + database" where
  "account_witness_vote_evaluator fc p db =
     bindR (get_account (av_account p) db) (\<lambda>(vi, voter).
     bindR (assertR (a_proxy voter = []) ''A proxy is currently set, please clear the proxy before voting for a witness.'') (\<lambda>_.
     bindR (if av_approve p then assertR (a_can_vote voter) ''Account has declined its voting rights.'' else Inr ()) (\<lambda>_.
     bindR (get_witness (av_witness p) db) (\<lambda>(wi, _).
     case find_by (\<lambda>v. wv_account v = vi \<and> wv_witness v = wi) (witness_votes db) of
       None \<Rightarrow>
         bindR (assertR (av_approve p) ''Vote doesnt exist, user must indicate a desire to approve witness.'') (\<lambda>_.
         bindR (assertR (a_witnesses_voted_for voter < MAX_ACCOUNT_WITNESS_VOTES) ''Account has voted for too many witnesses.'') (\<lambda>_.
         bindR (create_witness_vote (\<lambda>_. Inr \<lparr> wv_witness = wi, wv_account = vi \<rparr>) db) (\<lambda>(db1, _).
         bindR (witness_vote_weight fc voter) (\<lambda>weight.
         bindR (adjust_witness_vote fc wi weight db1) (\<lambda>db2.
         modify_account vi (\<lambda>a. Inr (a\<lparr>a_witnesses_voted_for := (a_witnesses_voted_for a + 1) mod 65536\<rparr>)) db2)))))
     | Some (xi, _) \<Rightarrow>
         bindR (assertR (\<not> av_approve p) ''Vote currently exists, user must indicate a desire to reject witness.'') (\<lambda>_.
         bindR (witness_vote_weight fc voter) (\<lambda>weight.
         bindR (safe_neg fc weight) (\<lambda>neg.
         bindR (adjust_witness_vote fc wi neg db) (\<lambda>db1.
         bindR (modify_account vi (\<lambda>a. Inr (a\<lparr>a_witnesses_voted_for := (a_witnesses_voted_for a + 65535) mod 65536\<rparr>)) db1)
           (remove_witness_vote xi)))))))))"

text \<open>
  The walk up the proxies of the new proxy. The chain holds each account once and may not
  grow beyond \<open>BMCHAIN_MAX_PROXY_RECURSION_DEPTH\<close>, so the walk takes at most that many steps:
  the counter \<open>n\<close> is how many more accounts the chain can take.
\<close>

primrec proxy_walk :: "nat \<Rightarrow> oid list \<Rightarrow> account_object \<Rightarrow> database \<Rightarrow> exn + unit" where
  "proxy_walk 0 chain cprox db =
     (if a_proxy cprox = [] then Inr ()
      else bindR (get_account (a_proxy cprox) db) (\<lambda>(i, next_proxy).
        bindR (assertR (i \<notin> set chain) ''This proxy would create a proxy loop.'') (\<lambda>_.
        Inl (Assert_failed ''Proxy chain is too long.''))))"
| "proxy_walk (Suc n) chain cprox db =
     (if a_proxy cprox = [] then Inr ()
      else bindR (get_account (a_proxy cprox) db) (\<lambda>(i, next_proxy).
        bindR (assertR (i \<notin> set chain) ''This proxy would create a proxy loop.'') (\<lambda>_.
        proxy_walk n (i # chain) next_proxy db)))"

definition account_witness_proxy_evaluator :: "fc_lib \<Rightarrow> account_witness_proxy_operation \<Rightarrow> database \<Rightarrow> exn + database" where
  "account_witness_proxy_evaluator fc p db =
     bindR (get_account (ap_account p) db) (\<lambda>(i, account).
     bindR (assertR (a_proxy account \<noteq> ap_proxy p) ''Proxy must change.'') (\<lambda>_.
     bindR (assertR (a_can_vote account) ''Account has declined the ability to vote and cannot proxy votes.'') (\<lambda>_.
     bindR (foldR (\<lambda>v acc. bindR (safe_neg fc v) (\<lambda>x. Inr (acc @ [x])))
       (amount (a_vesting_shares account) # a_proxied_vsf_votes account) []) (\<lambda>delta.
     bindR (adjust_proxied_witness_votes_array fc i delta db) (\<lambda>db1.
     if ap_proxy p \<noteq> [] then
       bindR (get_account (ap_proxy p) db1) (\<lambda>(ni, new_proxy).
       let chain = remdups [i, ni] in
       bindR (proxy_walk (MAX_PROXY_RECURSION_DEPTH - length chain) chain new_proxy db1) (\<lambda>_.
       bindR (clear_witness_votes i db1) (\<lambda>db2.
       bindR (modify_account i (\<lambda>a. Inr (a\<lparr>a_proxy := ap_proxy p\<rparr>)) db2) (\<lambda>db3.
       bindR (foldR (\<lambda>v acc. bindR (safe_neg fc v) (\<lambda>x. Inr (acc @ [x]))) delta []) (\<lambda>delta2.
       adjust_proxied_witness_votes_array fc i delta2 db3)))))
     else modify_account i (\<lambda>a. Inr (a\<lparr>a_proxy := ap_proxy p\<rparr>)) db1)))))"

subsection \<open>Recovery\<close>

text \<open>The witnesses by votes, then by name: the key \<open>by_vote_name\<close>.\<close>

definition by_vote_name :: "database \<Rightarrow> (oid \<times> witness_object) list" where
  "by_vote_name db =
     sort_key (\<lambda>r. - w_votes (snd r)) (sort_key (\<lambda>r. w_owner (snd r)) (indices (witnesses db)))"

text \<open>A request exists: an open authority cancels it, any other replaces it.\<close>

definition recovery_request_change :: "request_account_recovery_operation \<Rightarrow> oid \<Rightarrow> database \<Rightarrow> exn + database" where
  "recovery_request_change p ri db =
     (if weight_threshold (rq_new_owner_authority p) = 0 then remove_recovery_request ri db
      else
        bindR (assertR (\<not> is_impossible (rq_new_owner_authority p)) ''Cannot recover using an impossible authority.'') (\<lambda>_.
        bindR (check_accounts_exist (rq_new_owner_authority p) db) (\<lambda>_.
        modify_recovery_request ri (\<lambda>r. Inr (r\<lparr>rr_new_owner_authority := rq_new_owner_authority p,
          rr_expires := time_plus (head_block_time db) ACCOUNT_RECOVERY_REQUEST_EXPIRATION_PERIOD\<rparr>)) db)))"

definition request_account_recovery_evaluator ::
  "request_account_recovery_operation \<Rightarrow> database \<Rightarrow> exn + database" where
  "request_account_recovery_evaluator p db =
     bindR (get_account (rq_account_to_recover p) db) (\<lambda>(_, account).
     bindR (if a_recovery_account account \<noteq> [] then
              assertR (a_recovery_account account = rq_recovery_account p)
                ''Cannot recover an account that does not have you as there recovery partner.''
            else
              (case by_vote_name db of
                 [] \<Rightarrow> Inl (Other_exception ''end() dereferenced'')
               | w # _ \<Rightarrow> assertR (w_owner (snd w) = rq_recovery_account p)
                   ''Top witness must recover an account with no recovery partner.'')) (\<lambda>_.
     case find_by (\<lambda>r. rr_account_to_recover r = rq_account_to_recover p) (recovery_requests db) of
       None \<Rightarrow>
         bindR (assertR (\<not> is_impossible (rq_new_owner_authority p)) ''Cannot recover using an impossible authority.'') (\<lambda>_.
         bindR (assertR (weight_threshold (rq_new_owner_authority p) \<noteq> 0) ''Cannot recover using an open authority.'') (\<lambda>_.
         bindR (check_accounts_exist (rq_new_owner_authority p) db) (\<lambda>_.
         bindR (create_recovery_request (\<lambda>_. Inr \<lparr> rr_account_to_recover = rq_account_to_recover p,
           rr_new_owner_authority = rq_new_owner_authority p,
           rr_expires = time_plus (head_block_time db) ACCOUNT_RECOVERY_REQUEST_EXPIRATION_PERIOD \<rparr>) db)
           (\<lambda>(db1, _). Inr db1))))
     | Some (ri, _) \<Rightarrow>
         recovery_request_change p ri db))"

definition recover_account_evaluator :: "recover_account_operation \<Rightarrow> database \<Rightarrow> exn + database" where
  "recover_account_evaluator p db =
     bindR (get_account (rc_account_to_recover p) db) (\<lambda>(i, account).
     bindR (assertR (time_diff (head_block_time db) (a_last_account_recovery account) > int OWNER_UPDATE_LIMIT)
       ''Owner authority can only be updated once an hour.'') (\<lambda>_.
     bindR (of_optionR (Assert_failed ''There are no active recovery requests for this account.'')
       (find_by (\<lambda>r. rr_account_to_recover r = rc_account_to_recover p) (recovery_requests db))) (\<lambda>(ri, request).
     bindR (assertR (rr_new_owner_authority request = rc_new_owner_authority p)
       ''New owner authority does not match recovery request.'') (\<lambda>_.
     bindR (assertR (list_ex (\<lambda>h. oh_account (snd h) = rc_account_to_recover p \<and>
         oh_previous_owner_authority (snd h) = rc_recent_owner_authority p) (indices (owner_histories db)))
       ''Recent authority not found in authority history.'') (\<lambda>_.
     bindR (remove_recovery_request ri db) (\<lambda>db1.
     bindR (update_owner_authority i (rc_new_owner_authority p) db1) (\<lambda>db2.
     modify_account i (\<lambda>a. Inr (a\<lparr>a_last_account_recovery := head_block_time db\<rparr>)) db2)))))))"

definition change_recovery_account_evaluator ::
  "change_recovery_account_operation \<Rightarrow> database \<Rightarrow> exn + database" where
  "change_recovery_account_evaluator p db =
     bindR (get_account (cg_new_recovery_account p) db) (\<lambda>_.
     bindR (get_account (cg_account_to_recover p) db) (\<lambda>(_, account).
     let effective = time_plus (head_block_time db) OWNER_AUTH_RECOVERY_PERIOD in
     case find_by (\<lambda>r. crr_account_to_recover r = cg_account_to_recover p) (change_recovery_requests db) of
       None \<Rightarrow>
         bindR (create_change_recovery (\<lambda>_. Inr \<lparr> crr_account_to_recover = cg_account_to_recover p,
           crr_recovery_account = cg_new_recovery_account p, crr_effective_on = effective \<rparr>) db) (\<lambda>(db1, _). Inr db1)
     | Some (ri, _) \<Rightarrow>
         (if a_recovery_account account \<noteq> cg_new_recovery_account p then
            modify_change_recovery ri (\<lambda>r. Inr (r\<lparr>crr_recovery_account := cg_new_recovery_account p,
              crr_effective_on := effective\<rparr>))
          else remove_change_recovery ri) db))"

definition decline_voting_rights_evaluator :: "decline_voting_rights_operation \<Rightarrow> database \<Rightarrow> exn + database" where
  "decline_voting_rights_evaluator p db =
     bindR (get_account (dv_account p) db) (\<lambda>(i, _).
     let itr = find_by (\<lambda>r. dr_account r = i) (decline_requests db) in
     if dv_decline p then
       bindR (assertR (itr = None) ''Cannot create new request because one already exists.'') (\<lambda>_.
       bindR (create_decline_request (\<lambda>_. Inr \<lparr> dr_account = i,
         dr_effective_date = time_plus (head_block_time db) OWNER_AUTH_RECOVERY_PERIOD \<rparr>) db) (\<lambda>(db1, _). Inr db1))
     else
       bindR (of_optionR (Assert_failed ''Cannot cancel the request because it does not exist.'') itr) (\<lambda>(ri, _).
       remove_decline_request ri db))"

text \<open>The operations the source disables.\<close>

definition challenge_authority_evaluator :: "challenge_authority_operation \<Rightarrow> database \<Rightarrow> exn + database" where
  "challenge_authority_evaluator p db = Inl (Assert_failed ''Challenge authority operation is currently disabled.'')"

definition reset_account_evaluator :: "reset_account_operation \<Rightarrow> database \<Rightarrow> exn + database" where
  "reset_account_evaluator p db = Inl (Assert_failed ''Reset Account Operation is currently disabled.'')"

definition set_reset_account_evaluator :: "set_reset_account_operation \<Rightarrow> database \<Rightarrow> exn + database" where
  "set_reset_account_evaluator p db = Inl (Assert_failed ''Set Reset Account Operation is currently disabled.'')"

subsection \<open>Conservation\<close>

lemma account_gaps:
  "witness_update_evaluator p1 db = Inr db' \<Longrightarrow> keeps_gaps db db'"
  "request_account_recovery_evaluator p2 db = Inr db' \<Longrightarrow> keeps_gaps db db'"
  "change_recovery_account_evaluator p3 db = Inr db' \<Longrightarrow> keeps_gaps db db'"
  "decline_voting_rights_evaluator p4 db = Inr db' \<Longrightarrow> keeps_gaps db db'"
  by (auto simp: witness_update_evaluator_def request_account_recovery_evaluator_def recovery_request_change_def
      change_recovery_account_evaluator_def decline_voting_rights_evaluator_def Let_def res_simps keeps_gaps_def
      split: if_splits option.splits dest!: table_gaps)

lemma account_quiets:
  "witness_update_evaluator p1 db = Inr db' \<Longrightarrow> quiet db db'"
  "request_account_recovery_evaluator p2 db = Inr db' \<Longrightarrow> quiet db db'"
  "change_recovery_account_evaluator p3 db = Inr db' \<Longrightarrow> quiet db db'"
  "decline_voting_rights_evaluator p4 db = Inr db' \<Longrightarrow> quiet db db'"
  by (auto simp: witness_update_evaluator_def request_account_recovery_evaluator_def recovery_request_change_def
      change_recovery_account_evaluator_def decline_voting_rights_evaluator_def Let_def res_simps
      split: if_splits option.splits dest!: quiets)

lemma recover_account_gaps: "recover_account_evaluator p db = Inr db' \<Longrightarrow> keeps_gaps db db'"
  by (auto simp: recover_account_evaluator_def res_simps holdings keeps_gaps_def dest!: table_gaps)

lemma recover_account_quiet: "recover_account_evaluator p db = Inr db' \<Longrightarrow> db_sorted db \<Longrightarrow> quiet db db'"
  by (auto simp: recover_account_evaluator_def res_simps quiet_defs dest!: quiets)

lemma account_update_gaps: "account_update_evaluator fc p db = Inr db' \<Longrightarrow> keeps_gaps db db'"
  by (auto simp: account_update_evaluator_def Let_def res_simps holdings keeps_gaps_def
      split: if_splits option.splits dest!: table_gaps)

lemma account_update_quiet: "account_update_evaluator fc p db = Inr db' \<Longrightarrow> db_sorted db \<Longrightarrow> quiet db db'"
  by (auto simp: account_update_evaluator_def Let_def res_simps quiet_defs
      split: if_splits option.splits dest!: quiets)

lemma account_witness_vote_gaps: "account_witness_vote_evaluator fc p db = Inr db' \<Longrightarrow> keeps_gaps db db'"
  by (auto simp: account_witness_vote_evaluator_def res_simps holdings keeps_gaps_def
      split: if_splits option.splits dest!: table_gaps adjust_witness_vote_gaps)

lemma account_witness_vote_quiet: "account_witness_vote_evaluator fc p db = Inr db' \<Longrightarrow> db_sorted db \<Longrightarrow> quiet db db'"
  by (auto simp: account_witness_vote_evaluator_def res_simps quiet_defs
      split: if_splits option.splits dest!: quiets)

lemma account_witness_proxy_gaps: "account_witness_proxy_evaluator fc p db = Inr db' \<Longrightarrow> keeps_gaps db db'"
  by (auto simp: account_witness_proxy_evaluator_def Let_def res_simps holdings keeps_gaps_def
      split: if_splits dest!: table_gaps)

lemma account_witness_proxy_quiet: "account_witness_proxy_evaluator fc p db = Inr db' \<Longrightarrow> db_sorted db \<Longrightarrow> quiet db db'"
  by (auto simp: account_witness_proxy_evaluator_def Let_def res_simps quiet_defs split: if_splits dest!: quiets)

lemma account_create_quiet: "account_create_evaluator fc p db = Inr db' \<Longrightarrow> db_sorted db \<Longrightarrow> quiet db db'"
  by (auto simp: account_create_evaluator_def res_simps quiet_defs dest!: quiets token_quiets)

lemma account_create_with_delegation_quiet:
  "account_create_with_delegation_evaluator fc p db = Inr db' \<Longrightarrow> db_sorted db \<Longrightarrow> quiet db db'"
  by (auto simp: account_create_with_delegation_evaluator_def res_simps quiet_defs split: if_splits dest!: quiets)

context fc_exact
begin

lemma account_create_gaps:
  assumes "account_create_evaluator fc p db = Inr db'" and "length (fund_ids db) = 1" and "amount (ac_fee p) \<ge> 0"
  shows "keeps_gaps db db'"
proof -
  from assms(1) obtain ci db1 db2 db3 db4 k2 k3 avatar i2 i3 where
    1: "modify_account ci (\<lambda>c. bindR (asset_minus fc (a_balance c) (ac_fee p)) (\<lambda>b. Inr (c\<lparr>a_balance := b\<rparr>))) db = Inr db1"
    and 2: "create_account k2 db1 = Inr (db2, i2)"
      "k2 = (\<lambda>_. bindR (json_avatar fc (ac_json_metadata p) []) (\<lambda>avatar.
       Inr (default_account_object\<lparr>a_name := ac_new_account_name p, a_memo_key := ac_memo_key p,
         a_created := g_time (dgpo db), a_last_vote_time := g_time (dgpo db), a_mined := False,
         a_recovery_account := ac_creator p, a_avatar := avatar, a_json_metadata := ac_json_metadata p\<rparr>)))"
    and 3: "create_account_authority k3 db2 = Inr (db3, i3)"
    and 4: "pay_fee_to_funds fc (ac_fee p) db3 = Inr db4"
    and 5: "process_funds_bmchain fc USER_EMISSION_RATE db4 = Inr db'"
    by (auto simp: account_create_evaluator_def res_simps)
  have "fund_ids db3 = fund_ids db"
    using 1 2(1) 3 by (auto simp: quiet_defs dest!: quiets)
  moreover have "supply_gap db3 = supply_gap db + amount (ac_fee p) \<and> vests_gap db3 = vests_gap db \<and> pending_gap db3 = pending_gap db"
    using 1 2 3 by (auto simp: res_simps holdings default_account_object_def dest!: table_gaps asset_dests)
  ultimately have "keeps_gaps db db4"
    using pay_fee_to_funds_gap [OF 4 assms(3)] assms(2) by (simp add: keeps_gaps_def)
  with process_funds_bmchain_gaps [OF 5] show ?thesis by (blast intro: keeps_gaps_trans)
qed

lemma account_create_with_delegation_gaps:
  assumes "account_create_with_delegation_evaluator fc p db = Inr db'" and "amount (ad_fee p) \<ge> 0"
  shows "keeps_gaps db db'"
  using assms
  by (auto simp: account_create_with_delegation_evaluator_def default_account_object_def res_simps holdings keeps_gaps_def
      split: if_splits dest!: table_gaps create_vesting_gaps asset_dests)

end

end
