(* ===== verification/Comments.thy ===== *)
theory Comments
  imports Frames
begin

text \<open>
  Posts and replies (\<open>bmchain_evaluator.cpp\<close>): creation, edit, deletion and options of a
  comment, and the encrypted variant that delivers a content order. The build modelled is
  the default one: not \<open>IS_LOW_MEM\<close>, with \<open>CLEAR_VOTES\<close>. A post counts its replies at every
  level, so creation and deletion walk up the chain of parents; \<open>update_parents\<close> is that
  loop, and the property at the end shows that it ends with every ancestor updated.
\<close>

definition permlink_char :: "char \<Rightarrow> bool" where
  "permlink_char c \<longleftrightarrow>
     (let n = of_char c :: nat in
      n \<in> {208, 209} \<or> 176 \<le> n \<and> n \<le> 191 \<or> 128 \<le> n \<and> n \<le> 143 \<or> n = 145 \<or>
      97 \<le> n \<and> n \<le> 122 \<or> 48 \<le> n \<and> n \<le> 57 \<or> n = 45)"

definition validate_permlink_0_1 :: "string \<Rightarrow> exn + unit" where
  "validate_permlink_0_1 permlink =
     bindR (assertR (length permlink > MIN_PERMLINK_LENGTH \<and> length permlink < MAX_PERMLINK_LENGTH)
       ''Permlink is not a valid size.'') (\<lambda>_.
     checkR (\<lambda>c. assertR (permlink_char c) ''Invalid permlink character'') permlink)"

definition strcmp_equal :: "string \<Rightarrow> string \<Rightarrow> bool" where
  "strcmp_equal a b \<longleftrightarrow> length a = length b \<or> c_str a = c_str b"

subsection \<open>The chain of parents\<close>

text \<open>
  Each round updates one ancestor and goes to its parent. A parent has a smaller depth than
  its reply, so the depth of the first ancestor bounds the rounds; the counter of rounds is
  one more than that.
\<close>

primrec update_parents :: "nat \<Rightarrow> (nat \<Rightarrow> nat) \<Rightarrow> time_point_sec \<Rightarrow> oid \<Rightarrow> database \<Rightarrow> exn + database" where
  "update_parents 0 f now i db = Inl (Other_exception ''parent chain deeper than its depth'')"
| "update_parents (Suc n) f now i db =
     bindR (modify_comment i (\<lambda>p. Inr (p\<lparr>c_children := f (c_children p), c_active := now\<rparr>)) db) (\<lambda>db1.
     bindR (get_id (comments db1) i) (\<lambda>p.
     if c_parent_author p \<noteq> ROOT_POST_PARENT then
       bindR (get_comment (c_parent_author p) (c_parent_permlink p) db1) (\<lambda>(j, _). update_parents n f now j db1)
     else Inr db1))"

definition dec32 :: "nat \<Rightarrow> nat" where "dec32 n = (n + 4294967295) mod 4294967296"
definition inc32 :: "nat \<Rightarrow> nat" where "inc32 n = (n + 1) mod 4294967296"

subsection \<open>Deletion and options\<close>

definition votes_of_comment :: "oid \<Rightarrow> database \<Rightarrow> (oid \<times> comment_vote_object) list" where
  "votes_of_comment i db =
     sort_key (\<lambda>r. cvo_voter (snd r)) (filter (\<lambda>r. cvo_comment (snd r) = i) (indices (comment_votes db)))"

definition uncount_reply :: "comment_object \<Rightarrow> time_point_sec \<Rightarrow> database \<Rightarrow> exn + database" where
  "uncount_reply comment now db =
     (if c_parent_author comment \<noteq> ROOT_POST_PARENT then
        bindR (get_comment (c_parent_author comment) (c_parent_permlink comment) db) (\<lambda>(pi, parent).
        update_parents (Suc (c_depth parent)) dec32 now pi db)
      else Inr db)"

definition delete_comment_evaluator :: "delete_comment_operation \<Rightarrow> database \<Rightarrow> exn + database" where
  "delete_comment_evaluator p db =
     bindR (get_account (dc_author p) db) (\<lambda>(_, auth).
     bindR (assertR (\<not> (a_owner_challenged auth \<or> a_active_challenged auth))
       ''Operation cannot be processed because account is currently challenged.'') (\<lambda>_.
     bindR (get_comment (dc_author p) (dc_permlink p) db) (\<lambda>(ci, comment).
     bindR (assertR (c_children comment = 0) ''Cannot delete a comment with replies.'') (\<lambda>_.
     bindR (assertR (c_cashout_time comment \<noteq> time_max) ''comment.cashout_time != fc::time_point_sec::maximum()'') (\<lambda>_.
     bindR (assertR (c_net_rshares comment \<le> 0) ''Cannot delete a comment with net positive votes.'') (\<lambda>_.
     bindR (foldR (\<lambda>r. remove_comment_vote (fst r)) (votes_of_comment ci db) db) (\<lambda>db1.
     bindR (uncount_reply comment (head_block_time db) db1) (\<lambda>db2.
     remove_comment ci db2))))))))"

fun comment_options_extension_apply :: "oid \<Rightarrow> comment_options_extension \<Rightarrow> database \<Rightarrow> exn + database" where
  "comment_options_extension_apply ci (comment_payout_beneficiaries bs) db =
     bindR (get_id (comments db) ci) (\<lambda>c.
     bindR (assertR (c_beneficiaries c = []) ''Comment already has beneficiaries specified.'') (\<lambda>_.
     bindR (assertR (c_abs_rshares c = 0) ''Comment must not have been voted on before specifying beneficiaries.'') (\<lambda>_.
     modify_comment ci (\<lambda>c.
       foldR (\<lambda>b c. bindR (assertR (find_account (br_account b) db \<noteq> None) ''Beneficiary must exist.'') (\<lambda>_.
         Inr (c\<lparr>c_beneficiaries := c_beneficiaries c @ [b]\<rparr>))) bs c) db)))"
| "comment_options_extension_apply ci (comment_curation_rewards_percent pc) db =
     bindR (assertR (MIN_CURATION_PERCENT \<le> int pc \<and> int pc \<le> MAX_CURATION_PERCENT)
       ''Curation rewards percent must be between min and max.'') (\<lambda>_.
     modify_comment ci (\<lambda>c. Inr (c\<lparr>c_curation_rewards_percent := pc\<rparr>)) db)"

definition comment_options_checks :: "comment_options_operation \<Rightarrow> comment_object \<Rightarrow> exn + unit" where
  "comment_options_checks p comment =
     bindR (if \<not> cp_allow_curation_rewards p \<or> \<not> cp_allow_votes p then Inr True
            else asset_lt (cp_max_accepted_payout p) (c_max_accepted_payout comment)) (\<lambda>restricts.
     bindR (if restricts then assertR (c_abs_rshares comment = 0)
              ''One of the included comment options requires the comment to have no rshares allocated to it.''
            else Inr ()) (\<lambda>_.
     bindR (assertR (cp_allow_curation_rewards p \<longrightarrow> c_allow_curation_rewards comment)
       ''Curation rewards cannot be re-enabled.'') (\<lambda>_.
     bindR (assertR (cp_allow_votes p \<longrightarrow> c_allow_votes comment) ''Voting cannot be re-enabled.'') (\<lambda>_.
     assertM (asset_ge (c_max_accepted_payout comment) (cp_max_accepted_payout p))
       ''A comment cannot accept a greater payout.''))))"

definition comment_options_evaluator :: "comment_options_operation \<Rightarrow> database \<Rightarrow> exn + database" where
  "comment_options_evaluator p db =
     bindR (get_account (cp_author p) db) (\<lambda>(_, auth).
     bindR (assertR (\<not> (a_owner_challenged auth \<or> a_active_challenged auth))
       ''Operation cannot be processed because account is currently challenged.'') (\<lambda>_.
     bindR (get_comment (cp_author p) (cp_permlink p) db) (\<lambda>(ci, comment).
     bindR (comment_options_checks p comment) (\<lambda>_.
     bindR (modify_comment ci (\<lambda>c. Inr (c\<lparr>c_max_accepted_payout := cp_max_accepted_payout p,
       c_percent_bmt_dollars := cp_percent_bmt_dollars p, c_allow_votes := cp_allow_votes p,
       c_allow_curation_rewards := cp_allow_curation_rewards p\<rparr>)) db)
     (foldR (comment_options_extension_apply ci) (cp_extensions p))))))"

subsection \<open>New comments and edits\<close>

text \<open>
  What \<open>comment_evaluator\<close> and \<open>encrypted_content_evaluator\<close> have in common: the checks at the
  start, which return the parent of a reply, the object of a new comment, the walk and the
  emission after it is created, and the edit of an existing one.
\<close>

definition comment_checks ::
  "fc_lib \<Rightarrow> comment_operation \<Rightarrow> database \<Rightarrow> exn + ((oid \<times> account_object) \<times> (oid \<times> comment_object) option)" where
  "comment_checks fc p db =
     bindR (assertR (length (cm_title p) + length (cm_body p) + length (cm_json_metadata p) \<noteq> 0)
       ''Cannot update comment because nothing appears to be changing.'') (\<lambda>_.
     bindR (get_account (cm_author p) db) (\<lambda>(ai, auth).
     bindR (assertR (\<not> (a_owner_challenged auth \<or> a_active_challenged auth))
       ''Operation cannot be processed because account is currently challenged.'') (\<lambda>_.
     bindR (if cm_parent_author p \<noteq> ROOT_POST_PARENT then
              bindR (get_comment (cm_parent_author p) (cm_parent_permlink p) db) (\<lambda>(pi, parent).
              bindR (assertR (c_depth parent < MAX_COMMENT_DEPTH) ''Comment is nested too deep'') (\<lambda>_.
              Inr (Some (pi, parent))))
            else Inr None) (\<lambda>parent.
     bindR (if cm_json_metadata p \<noteq> [] then assertR (is_utf8 fc (cm_json_metadata p)) ''JSON Metadata must be UTF-8''
            else Inr ()) (\<lambda>_.
     Inr ((ai, auth), parent))))))"

definition check_replies_allowed :: "(oid \<times> comment_object) option \<Rightarrow> database \<Rightarrow> exn + unit" where
  "check_replies_allowed parent db =
     (case parent of None \<Rightarrow> Inr ()
      | Some (_, par) \<Rightarrow>
          bindR (get_id (comments db) (c_root_comment par)) (\<lambda>root.
          assertR (c_allow_replies root) ''The parent comment has disabled replies.''))"

definition note_post :: "comment_operation \<Rightarrow> oid \<Rightarrow> database \<Rightarrow> exn + database" where
  "note_post p ai db =
     modify_account ai (\<lambda>a.
       let a1 = (if cm_parent_author p = ROOT_POST_PARENT
                 then a\<lparr>a_last_root_post := head_block_time db, a_post_bandwidth := a_post_bandwidth a mod 4294967296\<rparr> else a) in
       Inr (a1\<lparr>a_last_post := head_block_time db, a_post_count := inc32 (a_post_count a1)\<rparr>)) db"

definition new_comment_object ::
  "fc_lib \<Rightarrow> comment_operation \<Rightarrow> comment_object option \<Rightarrow> time_point_sec \<Rightarrow> oid \<Rightarrow> exn + comment_object" where
  "new_comment_object fc p parent now i =
     bindR (validate_permlink_0_1 (cm_parent_permlink p)) (\<lambda>_.
     bindR (validate_permlink_0_1 (cm_permlink p)) (\<lambda>_.
     let c0 = default_comment_object\<lparr>c_author := cm_author p, c_permlink := cm_permlink p, c_last_update := now,
           c_created := now, c_active := now, c_last_payout := time_min, c_max_cashout_time := time_max,
           c_reward_weight := nat PERCENT_100\<rparr>;
         c1 = (case parent of
             None \<Rightarrow> c0\<lparr>c_parent_author := [], c_parent_permlink := cm_parent_permlink p,
               c_category := cm_parent_permlink p, c_root_comment := i\<rparr>
           | Some par \<Rightarrow> c0\<lparr>c_parent_author := c_author par, c_parent_permlink := c_permlink par,
               c_depth := c_depth par + 1, c_category := c_category par, c_root_comment := c_root_comment par\<rparr>);
         c2 = c1\<lparr>c_cashout_time := time_plus now CASHOUT_WINDOW_SECONDS, c_title := cm_title p\<rparr>;
         c3 = (if length (cm_body p) < 1024*1024*128 then c2\<lparr>c_body := cm_body p\<rparr> else c2) in
     Inr (if is_utf8 fc (cm_json_metadata p) then c3\<lparr>c_json_metadata := cm_json_metadata p\<rparr> else c3)))"

definition comment_created :: "fc_lib \<Rightarrow> (oid \<times> comment_object) option \<Rightarrow> oid \<Rightarrow> database \<Rightarrow> exn + database" where
  "comment_created fc parent i db =
     bindR (case parent of None \<Rightarrow> Inr db
            | Some (pi, par) \<Rightarrow> update_parents (Suc (c_depth par)) inc32 (head_block_time db) pi db) (\<lambda>db1.
     bindR (get_id (comments db1) i) (\<lambda>new_comment.
     process_funds_bmchain fc (if length (c_parent_author new_comment) = 0 then POST_EMISSION_RATE else COMMENT_EMISSION_RATE) db1))"

text \<open>A body that parses as a list of patches is applied to the old one, any other replaces it.\<close>

definition patched_body :: "fc_lib \<Rightarrow> string \<Rightarrow> string \<Rightarrow> string" where
  "patched_body fc new old =
     (case patch_from_text fc new of
        Inl _ \<Rightarrow> new
      | Inr patch \<Rightarrow>
          if patch = [] then new
          else (case patch_apply fc patch old of
                  Inl _ \<Rightarrow> new
                | Inr r \<Rightarrow> if is_utf8 fc r then r else prune_invalid_utf8 fc r))"

definition edit_comment :: "fc_lib \<Rightarrow> comment_operation \<Rightarrow> bool \<Rightarrow> time_point_sec \<Rightarrow> comment_object \<Rightarrow> exn + comment_object" where
  "edit_comment fc p has_parent now c =
     (let c0 = c\<lparr>c_last_update := now, c_active := now\<rparr> in
      bindR (assertR (c_parent_author c0 = (if has_parent then cm_parent_author p else []))
        ''The parent of a comment cannot change.'') (\<lambda>_.
      bindR (assertR (strcmp_equal (c_parent_permlink c0) (cm_parent_permlink p))
        ''The permlink of a comment cannot change.'') (\<lambda>_.
      let c1 = (if cm_title p \<noteq> [] then c0\<lparr>c_title := cm_title p\<rparr> else c0);
          c2 = (if cm_json_metadata p \<noteq> [] \<and> is_utf8 fc (cm_json_metadata p)
                then c1\<lparr>c_json_metadata := cm_json_metadata p\<rparr> else c1) in
      Inr (if cm_body p \<noteq> [] then c2\<lparr>c_body := patched_body fc (cm_body p) (c_body c2)\<rparr> else c2))))"

definition comment_evaluator :: "fc_lib \<Rightarrow> comment_operation \<Rightarrow> database \<Rightarrow> exn + database" where
  "comment_evaluator fc p db =
     bindR (comment_checks fc p db) (\<lambda>((ai, auth), parent).
     let now = head_block_time db in
     case find_comment (cm_author p) (cm_permlink p) db of
       None \<Rightarrow>
         bindR (check_replies_allowed parent db) (\<lambda>_.
         bindR (if cm_parent_author p = ROOT_POST_PARENT then
                  assertR (time_diff now (a_last_root_post auth) \<ge> MIN_ROOT_COMMENT_INTERVAL) ''You may only post once every 5 minutes.''
                else
                  assertR (time_diff now (a_last_post auth) \<ge> MIN_REPLY_INTERVAL) ''You may only comment once every 20 seconds.'') (\<lambda>_.
         bindR (note_post p ai db) (\<lambda>db1.
         bindR (create_comment (new_comment_object fc p (map_option snd parent) now) db1) (\<lambda>(db2, i).
         comment_created fc parent i db2))))
     | Some (ci, _) \<Rightarrow> modify_comment ci (edit_comment fc p (parent \<noteq> None) now) db)"

definition apply_content_order :: "fc_lib \<Rightarrow> encrypted_content_operation \<Rightarrow> oid \<Rightarrow> database \<Rightarrow> exn + database" where
  "apply_content_order fc p ai db =
     (if head_block_num db \<ge> USING_CLOSE_CONTENT \<and> en_apply_order p then
        bindR (get_content_order_by_id (en_order_id p) db) (\<lambda>co.
        bindR (assertR (co_status co = order_open) ''This order is completed or canceled.'') (\<lambda>_.
        bindR (modify_account ai (\<lambda>a.
          bindR (asset_plus fc (a_balance a) (co_price co)) (\<lambda>b. Inr (a\<lparr>a_balance := b\<rparr>))) db) (\<lambda>db1.
        modify_content_order (en_order_id p) (\<lambda>o'. Inr (o'\<lparr>co_status := order_completed\<rparr>)) db1)))
      else Inr db)"

text \<open>The encrypted message is decoded from hexadecimal into a buffer of the given size.\<close>

definition new_encrypted_object ::
  "fc_lib \<Rightarrow> encrypted_content_operation \<Rightarrow> comment_object option \<Rightarrow> database \<Rightarrow> oid \<Rightarrow> exn + comment_object" where
  "new_encrypted_object fc p parent db i =
     bindR (new_comment_object fc (en_comment p) parent (head_block_time db) i) (\<lambda>c.
     bindR (from_hex fc (en_encrypted_message p) (en_message_size p)) (\<lambda>bytes.
     if en_encrypted_message p = [] then Inr c
     else
       let n = en_message_size p;
           c1 = c\<lparr>c_encrypted := True, c_checksum := en_checksum p, c_nonce := en_nonce p, c_message_size := n,
             c_price := en_price p, c_encrypted_body := take n (bytes @ replicate n (CHR 0x00))\<rparr> in
       Inr (if head_block_num db \<ge> USING_CLOSE_CONTENT \<and> en_apply_order p
            then c1\<lparr>c_private_post := True, c_owner := en_owner p\<rparr> else c1)))"

definition encrypted_content_evaluator :: "fc_lib \<Rightarrow> encrypted_content_operation \<Rightarrow> database \<Rightarrow> exn + database" where
  "encrypted_content_evaluator fc p db =
     (let q = en_comment p; now = head_block_time db in
      bindR (comment_checks fc q db) (\<lambda>((ai, auth), parent).
      bindR (apply_content_order fc p ai db) (\<lambda>db1.
      case find_comment (cm_author q) (cm_permlink q) db1 of
        None \<Rightarrow>
          bindR (check_replies_allowed parent db1) (\<lambda>_.
          bindR (if \<not> en_apply_order p \<and> cm_parent_author q = ROOT_POST_PARENT then
                   assertR (time_diff now (a_last_root_post auth) \<ge> MIN_ROOT_COMMENT_INTERVAL) ''You may only post once every 5 minutes.''
                 else Inr ()) (\<lambda>_.
          bindR (note_post q ai db1) (\<lambda>db2.
          bindR (create_comment (new_encrypted_object fc p (map_option snd parent) db1) db2) (\<lambda>(db3, i).
          comment_created fc parent i db3))))
      | Some (ci, _) \<Rightarrow> modify_comment ci (edit_comment fc q (parent \<noteq> None) now) db1)))"

subsection \<open>Conservation\<close>

lemma update_parents_gaps: "update_parents n f now i db = Inr db' \<Longrightarrow> keeps_gaps db db'"
proof (induction n arbitrary: i db)
  case 0
  then show ?case by simp
next
  case (Suc n)
  from Suc.prems obtain m db1 where m: "modify_comment i m db = Inr db1"
    and r: "db' = db1 \<or> (\<exists>j. update_parents n f now j db1 = Inr db')"
    by (auto simp: res_simps split: if_splits)
  have "keeps_gaps db db1" using m by (auto simp: keeps_gaps_def dest!: table_gaps)
  with r Suc.IH show ?case by (blast intro: keeps_gaps_trans)
qed

lemma update_parents_quiet: "update_parents n f now i db = Inr db' \<Longrightarrow> quiet db db'"
proof (induction n arbitrary: i db)
  case 0
  then show ?case by simp
next
  case (Suc n)
  from Suc.prems obtain m db1 where m: "modify_comment i m db = Inr db1"
    and r: "db' = db1 \<or> (\<exists>j. update_parents n f now j db1 = Inr db')"
    by (auto simp: res_simps split: if_splits)
  have "quiet db db1" using m by (rule quiets)
  with r Suc.IH show ?case by (blast intro: quiet_trans)
qed

lemma uncount_reply_gaps: "uncount_reply comment now db = Inr db' \<Longrightarrow> keeps_gaps db db'"
  by (auto simp: uncount_reply_def res_simps simp del: update_parents.simps split: if_splits intro: update_parents_gaps)

lemma uncount_reply_quiet: "uncount_reply comment now db = Inr db' \<Longrightarrow> quiet db db'"
  by (auto simp: uncount_reply_def res_simps simp del: update_parents.simps split: if_splits intro: update_parents_quiet)

lemma remove_votes_gaps:
  "foldR (\<lambda>r. remove_comment_vote (fst r)) rs db = Inr db' \<Longrightarrow> keeps_gaps db db'"
  by (erule foldR_keeps_gaps [rotated]) (auto simp: keeps_gaps_def dest!: table_gaps)

lemma remove_votes_quiet: "foldR (\<lambda>r. remove_comment_vote (fst r)) rs db = Inr db' \<Longrightarrow> quiet db db'"
  by (erule foldR_quiet [rotated]) (auto dest: quiets)

lemma delete_comment_gaps: "delete_comment_evaluator p db = Inr db' \<Longrightarrow> keeps_gaps db db'"
  by (auto simp: delete_comment_evaluator_def res_simps keeps_gaps_def
      dest!: table_gaps remove_votes_gaps uncount_reply_gaps)

lemma delete_comment_quiet: "delete_comment_evaluator p db = Inr db' \<Longrightarrow> db_sorted db \<Longrightarrow> quiet db db'"
  by (auto simp: delete_comment_evaluator_def res_simps quiet_defs
      dest!: quiets remove_votes_quiet uncount_reply_quiet)

lemma comment_options_extension_gaps: "comment_options_extension_apply ci e db = Inr db' \<Longrightarrow> keeps_gaps db db'"
  by (cases e) (auto simp: res_simps keeps_gaps_def dest!: table_gaps)

lemma comment_options_extension_quiet: "comment_options_extension_apply ci e db = Inr db' \<Longrightarrow> quiet db db'"
  by (cases e) (auto simp: res_simps dest!: quiets)

lemma comment_options_gaps: "comment_options_evaluator p db = Inr db' \<Longrightarrow> keeps_gaps db db'"
proof -
  assume "comment_options_evaluator p db = Inr db'"
  then obtain ci m db1 where 1: "modify_comment ci m db = Inr db1"
    and 2: "foldR (comment_options_extension_apply ci) (cp_extensions p) db1 = Inr db'"
    by (auto simp: comment_options_evaluator_def res_simps)
  have "keeps_gaps db db1" using 1 by (auto simp: keeps_gaps_def dest!: table_gaps)
  moreover have "keeps_gaps db1 db'" using comment_options_extension_gaps 2 by (rule foldR_keeps_gaps)
  ultimately show ?thesis by (rule keeps_gaps_trans)
qed

lemma comment_options_quiet: "comment_options_evaluator p db = Inr db' \<Longrightarrow> quiet db db'"
proof -
  assume "comment_options_evaluator p db = Inr db'"
  then obtain ci m db1 where 1: "modify_comment ci m db = Inr db1"
    and 2: "foldR (comment_options_extension_apply ci) (cp_extensions p) db1 = Inr db'"
    by (auto simp: comment_options_evaluator_def res_simps)
  have "quiet db db1" using 1 by (rule quiets)
  moreover have "quiet db1 db'" using comment_options_extension_quiet 2 by (rule foldR_quiet)
  ultimately show ?thesis by (rule quiet_trans)
qed

lemma note_post_gaps: "note_post p i db = Inr db' \<Longrightarrow> keeps_gaps db db'"
  by (auto simp: note_post_def Let_def holdings keeps_gaps_def split: if_splits dest!: table_gaps)

lemma note_post_quiet: "note_post p i db = Inr db' \<Longrightarrow> quiet db db'"
  by (auto simp: note_post_def dest!: quiets)

lemma comment_created_quiet: "comment_created fc parent i db = Inr db' \<Longrightarrow> quiet db db'"
  by (auto simp: comment_created_def res_simps simp del: update_parents.simps split: option.splits
      dest!: quiets update_parents_quiet intro: quiet_trans)

lemma comment_quiet: "comment_evaluator fc p db = Inr db' \<Longrightarrow> db_sorted db \<Longrightarrow> quiet db db'"
  by (auto simp: comment_evaluator_def Let_def res_simps quiet_defs split: if_splits option.splits
      dest!: quiets note_post_quiet comment_created_quiet)

lemma apply_content_order_quiet: "apply_content_order fc p ai db = Inr db' \<Longrightarrow> db_sorted db \<Longrightarrow> quiet db db'"
  by (auto simp: apply_content_order_def res_simps quiet_defs split: if_splits dest!: quiets)

lemma encrypted_content_quiet: "encrypted_content_evaluator fc p db = Inr db' \<Longrightarrow> db_sorted db \<Longrightarrow> quiet db db'"
  by (auto simp: encrypted_content_evaluator_def Let_def res_simps quiet_defs split: if_splits option.splits
      dest!: quiets note_post_quiet comment_created_quiet apply_content_order_quiet)

context fc_exact
begin

lemma comment_created_gaps: "comment_created fc parent i db = Inr db' \<Longrightarrow> keeps_gaps db db'"
  by (auto simp: comment_created_def res_simps simp del: update_parents.simps split: option.splits
      dest!: ledger_gaps update_parents_gaps intro: keeps_gaps_trans)

lemma comment_gaps: "comment_evaluator fc p db = Inr db' \<Longrightarrow> keeps_gaps db db'"
  by (auto simp: comment_evaluator_def Let_def res_simps keeps_gaps_def split: if_splits option.splits
      dest!: table_gaps note_post_gaps comment_created_gaps)

lemma apply_content_order_gaps:
  assumes "apply_content_order fc p ai db = Inr db'"
  shows "keeps_gaps db db'"
proof (cases "head_block_num db \<ge> USING_CLOSE_CONTENT \<and> en_apply_order p")
  case True
  with assms obtain co db1 where co: "map_of (indices (content_orders db)) (en_order_id p) = Some co" "co_status co = order_open"
    and 1: "modify_account ai (\<lambda>a. bindR (asset_plus fc (a_balance a) (co_price co)) (\<lambda>b. Inr (a\<lparr>a_balance := b\<rparr>))) db = Inr db1"
    and 2: "modify_content_order (en_order_id p) (\<lambda>o'. Inr (o'\<lparr>co_status := order_completed\<rparr>)) db1 = Inr db'"
    by (auto simp: apply_content_order_def get_content_order_by_id_def get_id_def find_id_def res_simps)
  then show ?thesis
    using modify_account_frame [OF 1] by (auto simp: res_simps holdings keeps_gaps_def dest!: table_gaps asset_dests)
next
  case False
  with assms show ?thesis by (auto simp: apply_content_order_def)
qed

lemma encrypted_content_gaps: "encrypted_content_evaluator fc p db = Inr db' \<Longrightarrow> keeps_gaps db db'"
  by (auto simp: encrypted_content_evaluator_def Let_def res_simps keeps_gaps_def split: if_splits option.splits
      dest!: table_gaps note_post_gaps comment_created_gaps apply_content_order_gaps)

end

subsection \<open>The walk up the parents ends\<close>

text \<open>The id of the parent of a reply, and the comments from one up to its root.\<close>

definition parent_id :: "database \<Rightarrow> oid \<Rightarrow> oid option" where
  "parent_id db i =
     (case map_of (indices (comments db)) i of
        None \<Rightarrow> None
      | Some c \<Rightarrow>
          if c_parent_author c = ROOT_POST_PARENT then None
          else map_option fst (find_comment (c_parent_author c) (c_parent_permlink c) db))"

inductive on_thread :: "(oid \<Rightarrow> oid option) \<Rightarrow> oid \<Rightarrow> oid \<Rightarrow> bool" for parent where
  on_thread_self: "on_thread parent i i"
| on_thread_up: "parent i = Some j \<Longrightarrow> on_thread parent j k \<Longrightarrow> on_thread parent i k"

inductive_simps on_thread_step: "on_thread parent i k"

definition depth_at :: "database \<Rightarrow> oid \<Rightarrow> nat option" where
  "depth_at db i = map_option c_depth (map_of (indices (comments db)) i)"

text \<open>A well-formed forest: keys are unique, and every parent exists and is less deep than its replies.\<close>

definition threads_ok :: "database \<Rightarrow> bool" where
  "threads_ok db \<longleftrightarrow> rows_sorted (indices (comments db)) \<and>
     (\<forall>i j v w. i \<noteq> j \<and> map_of (indices (comments db)) i = Some v \<and> map_of (indices (comments db)) j = Some w \<longrightarrow> \<not> comment_conflict v w) \<and>
     (\<forall>i c. map_of (indices (comments db)) i = Some c \<and> c_parent_author c \<noteq> ROOT_POST_PARENT \<longrightarrow>
       (\<exists>j n. parent_id db i = Some j \<and> depth_at db j = Some n \<and> n < c_depth c))"

definition bump :: "(nat \<Rightarrow> nat) \<Rightarrow> time_point_sec \<Rightarrow> comment_object \<Rightarrow> comment_object" where
  "bump f now c = c\<lparr>c_children := f (c_children c), c_active := now\<rparr>"

lemma find_upd_row:
  "map_of rs i = Some v \<Longrightarrow> P v' = P v \<Longrightarrow>
   map_option fst (List.find (\<lambda>r. P (snd r)) (upd_row i v' rs)) = map_option fst (List.find (\<lambda>r. P (snd r)) rs)"
  by (induction i v' rs rule: upd_row.induct) (auto split: if_splits)

lemma find_comment_bump:
  assumes "map_of (indices g) i = Some v" and "comments db1 = g\<lparr>indices := upd_row i (bump f now v) (indices g), stack := s\<rparr>"
    and "comments db = g"
  shows "map_option fst (find_comment a l db1) = map_option fst (find_comment a l db)"
  unfolding find_comment_def find_by_def assms(2,3)
  using find_upd_row [OF assms(1), of "comment_key a l" "bump f now v"] by (simp add: comment_key_def bump_def)

text \<open>A round changes the comment it stands on, and neither parents nor depths.\<close>

lemma bump_round:
  assumes "modify_comment i (\<lambda>p. Inr (p\<lparr>c_children := f (c_children p), c_active := now\<rparr>)) db = Inr db1"
  shows "map_of (indices (comments db1)) = (map_of (indices (comments db)))(i := map_option (bump f now) (map_of (indices (comments db)) i)) \<and>
    parent_id db1 = parent_id db \<and> depth_at db1 = depth_at db \<and> rows_sorted (indices (comments db1)) = rows_sorted (indices (comments db))"
proof -
  from assms obtain v s where v: "map_of (indices (comments db)) i = Some v"
    and db1: "comments db1 = (comments db)\<lparr>indices := upd_row i (bump f now v) (indices (comments db)), stack := s\<rparr>"
    by (auto simp: modify_comment_def res_simps bump_def elim!: modifyD)
  have m: "map_of (indices (comments db1)) = (map_of (indices (comments db)))(i \<mapsto> bump f now v)"
    using v by (simp add: db1 map_of_upd_row_Some)
  have "parent_id db1 j = parent_id db j" for j
    using find_comment_bump [OF v db1 refl] v by (auto simp: parent_id_def m bump_def split: option.splits)
  moreover have "depth_at db1 j = depth_at db j" for j
    using v by (simp add: depth_at_def m bump_def)
  ultimately show ?thesis using m v by (auto simp: db1)
qed

lemma bump_threads_ok:
  assumes "modify_comment i (\<lambda>p. Inr (p\<lparr>c_children := f (c_children p), c_active := now\<rparr>)) db = Inr db1" and "threads_ok db"
  shows "threads_ok db1"
proof -
  note r = bump_round [OF assms(1)]
  have old: "\<exists>v0. map_of (indices (comments db)) j = Some v0 \<and> c_author v = c_author v0 \<and> c_permlink v = c_permlink v0 \<and>
      c_parent_author v = c_parent_author v0 \<and> c_depth v = c_depth v0" if "map_of (indices (comments db1)) j = Some v" for j v
    using that r by (auto simp: bump_def split: if_splits)
  have "rows_sorted (indices (comments db1))" using assms(2) r by (simp add: threads_ok_def)
  moreover have "\<not> comment_conflict v w" if "j \<noteq> k" "map_of (indices (comments db1)) j = Some v" "map_of (indices (comments db1)) k = Some w" for j k v w
  proof -
    from old [OF that(2)] old [OF that(3)] obtain v0 w0 where "map_of (indices (comments db)) j = Some v0" "map_of (indices (comments db)) k = Some w0"
      and "comment_conflict v w = comment_conflict v0 w0" by (auto simp: comment_conflict_def)
    then show ?thesis using assms(2) \<open>j \<noteq> k\<close> unfolding threads_ok_def by blast
  qed
  moreover have "\<exists>k n. parent_id db1 j = Some k \<and> depth_at db1 k = Some n \<and> n < c_depth v"
    if "map_of (indices (comments db1)) j = Some v" "c_parent_author v \<noteq> ROOT_POST_PARENT" for j v
    using old [OF that(1)] that(2) r assms(2) unfolding threads_ok_def by auto
  ultimately show ?thesis unfolding threads_ok_def by blast
qed

lemma bump_succeeds:
  assumes "threads_ok db" and "map_of (indices (comments db)) i = Some c"
  shows "\<exists>db1. modify_comment i (\<lambda>p. Inr (p\<lparr>c_children := f (c_children p), c_active := now\<rparr>)) db = Inr db1"
proof -
  have "distinct (row_ids (indices (comments db)))" using assms(1) by (auto simp: threads_ok_def intro: rows_sorted_distinct)
  then have "modify_ok comment_conflict i (c\<lparr>c_children := f (c_children c), c_active := now\<rparr>) (indices (comments db))"
    using assms by (fastforce simp: modify_ok_def list_all_iff threads_ok_def comment_conflict_def)
  then show ?thesis using assms(2) by (simp add: modify_comment_def modify_def)
qed

lemma thread_shallower:
  assumes "on_thread (parent_id db) i k" and "threads_ok db" and "depth_at db i = Some m" and "depth_at db k = Some n"
  shows "k = i \<or> n < m"
  using assms
proof (induction arbitrary: m rule: on_thread.induct)
  case (on_thread_up i j k)
  from on_thread_up.prems(2) obtain c where c: "map_of (indices (comments db)) i = Some c" "c_depth c = m" by (auto simp: depth_at_def)
  with on_thread_up.hyps(1) have "c_parent_author c \<noteq> ROOT_POST_PARENT" by (auto simp: parent_id_def)
  with c on_thread_up.prems(1) on_thread_up.hyps(1) obtain d where d: "depth_at db j = Some d" "d < m" unfolding threads_ok_def by force
  with on_thread_up.IH [OF on_thread_up.prems(1) d(1) on_thread_up.prems(3)] on_thread_up.prems(3) show ?case by auto
qed simp

text \<open>
  C31: replies are counted up the whole thread. In a well-formed forest of comments the loop
  over the ancestors ends within the depth of the first one, and it updates the counter and
  the activity time of every comment from there to the root, each once, and of no other.
\<close>

theorem update_parents_counts_thread:
  assumes "threads_ok db" and "depth_at db i = Some d" and "d < n"
  shows "\<exists>db'. update_parents n f now i db = Inr db' \<and> (\<forall>k. map_of (indices (comments db')) k =
    (if on_thread (parent_id db) i k then map_option (bump f now) (map_of (indices (comments db)) k)
     else map_of (indices (comments db)) k))"
  using assms
proof (induction n arbitrary: i db d)
  case (Suc n)
  from Suc.prems(2) obtain c where c: "map_of (indices (comments db)) i = Some c" "c_depth c = d" by (auto simp: depth_at_def)
  obtain db1 where m: "modify_comment i (\<lambda>p. Inr (p\<lparr>c_children := f (c_children p), c_active := now\<rparr>)) db = Inr db1"
    using bump_succeeds [OF Suc.prems(1) c(1)] by blast
  note r = bump_round [OF m]
  have g: "get_id (comments db1) i = Inr (bump f now c)" using r c by (simp add: get_id_def find_id_def)
  show ?case
  proof (cases "c_parent_author c = ROOT_POST_PARENT")
    case True
    then have "parent_id db i = None" using c by (simp add: parent_id_def)
    then have "on_thread (parent_id db) i k \<longleftrightarrow> k = i" for k by (subst on_thread_step) auto
    with True m g r show ?thesis by (auto simp: bump_def)
  next
    case False
    then obtain j e where j: "parent_id db i = Some j" "depth_at db j = Some e" "e < d"
      using Suc.prems(1) c unfolding threads_ok_def by blast
    have "parent_id db1 i = Some j" using r j by simp
    moreover have "map_of (indices (comments db1)) i = Some (bump f now c)" using r c by simp
    ultimately have "map_option fst (find_comment (c_parent_author c) (c_parent_permlink c) db1) = Some j"
      using False by (simp add: parent_id_def bump_def)
    then obtain w where w: "get_comment (c_parent_author c) (c_parent_permlink c) db1 = Inr (j, w)"
      by (auto simp: find_comment_def get_comment_def get_by_find)
    have "depth_at db1 j = Some e" "e < n" using r j Suc.prems(3) by simp_all
    from Suc.IH [OF bump_threads_ok [OF m Suc.prems(1)] this] obtain db' where u: "update_parents n f now j db1 = Inr db'"
      and k: "\<And>k. map_of (indices (comments db')) k = (if on_thread (parent_id db) j k then map_option (bump f now) (map_of (indices (comments db1)) k)
        else map_of (indices (comments db1)) k)" using r by auto
    have ni: "\<not> on_thread (parent_id db) j i"
      using thread_shallower [OF _ Suc.prems(1) j(2), of i] Suc.prems(2) j by auto
    have "on_thread (parent_id db) i k \<longleftrightarrow> k = i \<or> on_thread (parent_id db) j k" for k
      using j(1) by (subst on_thread_step) auto
    with k ni r have "map_of (indices (comments db')) k = (if on_thread (parent_id db) i k then map_option (bump f now) (map_of (indices (comments db)) k)
        else map_of (indices (comments db)) k)" for k by auto
    moreover have "update_parents (Suc n) f now i db = Inr db'" using m g w u False by (simp add: bump_def)
    ultimately show ?thesis by blast
  qed
qed simp

definition thread_chain :: database where
  "thread_chain = empty_database\<lparr>comments := mk_index
     [(0, default_comment_object\<lparr>c_author := ''alice'', c_permlink := ''post''\<rparr>),
      (1, default_comment_object\<lparr>c_author := ''bob'', c_permlink := ''re'', c_parent_author := ''alice'', c_parent_permlink := ''post'', c_depth := 1\<rparr>)] 2\<rparr>"

theorem update_parents_counts_thread_witness:
  "\<exists>db'. update_parents 2 inc32 7 1 thread_chain = Inr db' \<and>
     map_option c_children (map_of (indices (comments db')) 0) = Some 1"
proof -
  have e: "map_of (indices (comments thread_chain)) k = (if k = 0 then Some (default_comment_object\<lparr>c_author := ''alice'', c_permlink := ''post''\<rparr>)
      else if k = 1 then Some (default_comment_object\<lparr>c_author := ''bob'', c_permlink := ''re'', c_parent_author := ''alice'', c_parent_permlink := ''post'', c_depth := 1\<rparr>)
      else None)" for k by (simp add: thread_chain_def mk_index_def)
  have p: "parent_id thread_chain k = (if k = 1 then Some 0 else None)" for k
    by (simp add: parent_id_def e) (simp add: thread_chain_def mk_index_def find_comment_def find_by_def comment_key_def default_comment_object_def
        ROOT_POST_PARENT_def)
  have ok: "threads_ok thread_chain"
    unfolding threads_ok_def p depth_at_def e
    by (auto simp: thread_chain_def mk_index_def comment_conflict_def default_comment_object_def c_str_def ROOT_POST_PARENT_def split: if_splits)
  have d: "depth_at thread_chain 1 = Some 1" by (simp add: depth_at_def e)
  have t: "on_thread (parent_id thread_chain) 1 0" by (rule on_thread_up [where j = 0]) (simp_all add: p on_thread_self)
  from update_parents_counts_thread [OF ok d, of 2 inc32 7] obtain db' where "update_parents 2 inc32 7 1 thread_chain = Inr db'"
    and "map_of (indices (comments db')) 0 = map_option (bump inc32 7) (map_of (indices (comments thread_chain)) 0)" using t by auto
  then show ?thesis by (auto simp: e bump_def inc32_def default_comment_object_def)
qed

end
