(* ===== verification/Votes.thy ===== *)
theory Votes
  imports Frames
begin

text \<open>
  \<open>vote_evaluator\<close> of \<open>bmchain_evaluator.cpp\<close>: the voting power of the voter, the reward
  shares of the vote, the weight that later pays the curator, and the change of an earlier
  vote. Machine integers that can wrap are written as such: \<open>u64\<close> for \<open>uint64_t\<close>. The properties
  at the end bound the power a vote uses and the weight it gets.
\<close>

definition u64 :: "int \<Rightarrow> nat" where "u64 x = nat (x mod 2 ^ 64)"

text \<open>An \<open>int64_t\<close> initialised from a \<open>uint64_t\<close>.\<close>

definition i64_of_u64 :: "nat \<Rightarrow> int" where
  "i64_of_u64 n = (if n < 2 ^ 63 then int n else int n - 2 ^ 64)"

definition time_minus :: "time_point_sec \<Rightarrow> nat \<Rightarrow> time_point_sec" where
  "time_minus t s = nat ((int t - int s) mod 4294967296)"

definition get_curation_rewards_percent :: "database \<Rightarrow> exn + nat" where
  "get_curation_rewards_percent db = bindR (get_reward_fund db) (\<lambda>(_, r). Inr (rf_percent_curation_rewards r))"

subsection \<open>Voting power\<close>

text \<open>The power of the voter now, and what a vote of this weight uses of it.\<close>

definition current_voting_power :: "account_object \<Rightarrow> time_point_sec \<Rightarrow> int" where
  "current_voting_power voter now =
     min (int (a_voting_power voter) + (PERCENT_100 * time_diff now (a_last_vote_time voter)) sdiv VOTE_REGENERATION_SECONDS)
       PERCENT_100"

definition max_vote_denom :: "database \<Rightarrow> int" where
  "max_vote_denom db =
     int ((g_vote_power_reserve_rate (dgpo db) * nat VOTE_REGENERATION_SECONDS) mod 4294967296 div (60*60*24))"

definition used_voting_power :: "int \<Rightarrow> int \<Rightarrow> int \<Rightarrow> int" where
  "used_voting_power current weight denom =
     ((current * \<bar>weight\<bar>) sdiv PERCENT_100 + denom - 1) sdiv denom"

definition vote_rshares :: "fc_lib \<Rightarrow> account_object \<Rightarrow> int \<Rightarrow> exn + int" where
  "vote_rshares fc voter used =
     bindR (effective_vesting_shares fc voter) (\<lambda>ev.
     bindR (u128_to_u64 fc ((u128_of_int fc (amount ev) * u128_of_int fc used) div u128_of_int fc PERCENT_100)) (\<lambda>n.
     Inr (i64_of_u64 n)))"

definition check_upvote_time :: "comment_object \<Rightarrow> time_point_sec \<Rightarrow> exn + unit" where
  "check_upvote_time comment now =
     assertR (now < time_minus (c_cashout_time comment) UPVOTE_LOCKOUT)
       ''Cannot increase payout within last twelve hours before payout.''"

definition spend_power :: "int \<Rightarrow> time_point_sec \<Rightarrow> account_object \<Rightarrow> exn + account_object" where
  "spend_power pw now a = Inr (a\<lparr>a_voting_power := nat (pw mod 65536), a_last_vote_time := now\<rparr>)"

subsection \<open>A first vote\<close>

definition add_vote :: "fc_lib \<Rightarrow> int \<Rightarrow> int \<Rightarrow> comment_object \<Rightarrow> exn + comment_object" where
  "add_vote fc rshares abs_rshares c =
     bindR (safe_add fc (c_net_rshares c) rshares) (\<lambda>n.
     bindR (safe_add fc (c_abs_rshares c) abs_rshares) (\<lambda>a.
     bindR (if rshares > 0 then safe_add fc (c_vote_rshares c) rshares else Inr (c_vote_rshares c)) (\<lambda>v.
     Inr (c\<lparr>c_net_rshares := n, c_abs_rshares := a, c_vote_rshares := v,
       c_net_votes := (if rshares > 0 then c_net_votes c + 1 else c_net_votes c - 1)\<rparr>))))"

definition add_children_rshares :: "fc_lib \<Rightarrow> int \<Rightarrow> comment_object \<Rightarrow> exn + comment_object" where
  "add_children_rshares fc abs_rshares c =
     bindR (safe_add fc (c_children_abs_rshares c) abs_rshares) (\<lambda>x. Inr (c\<lparr>c_children_abs_rshares := x\<rparr>))"

text \<open>The weight before the discount for an early vote.\<close>

definition max_vote_weight ::
  "fc_lib \<Rightarrow> reward_fund_object \<Rightarrow> int \<Rightarrow> int \<Rightarrow> comment_object \<Rightarrow> exn + nat" where
  "max_vote_weight fc rfo rshares old_vote_rshares comment =
     (if c_created comment < REVERSE_AUCTION_TIME then
        (if c_abs_rshares comment = 0 then Inl (Other_exception ''Integer Division by zero.'')
         else Inr (u64 ((rshares * rshares * rshares) div (c_abs_rshares comment * c_abs_rshares comment))))
      else
        bindR (evaluate_reward_curve fc (u128_of_int fc old_vote_rshares) (rf_curation_reward_curve rfo) (rf_content_constant rfo)) (\<lambda>o1.
        bindR (u128_to_u64 fc o1) (\<lambda>old_weight.
        bindR (evaluate_reward_curve fc (u128_of_int fc (c_vote_rshares comment)) (rf_curation_reward_curve rfo) (rf_content_constant rfo)) (\<lambda>n1.
        bindR (u128_to_u64 fc n1) (\<lambda>new_weight.
        Inr (u64 (int new_weight - int old_weight)))))))"

definition discount_weight :: "fc_lib \<Rightarrow> nat \<Rightarrow> comment_object \<Rightarrow> time_point_sec \<Rightarrow> exn + nat" where
  "discount_weight fc weight comment now =
     (if now > REVERSE_AUCTION_TIME then
        let delta_t = min (u64 (time_diff now (c_created comment))) REVERSE_AUCTION_WINDOW_SECONDS in
        u128_to_u64 fc ((word_of_nat weight * word_of_nat delta_t) div word_of_nat REVERSE_AUCTION_WINDOW_SECONDS)
      else Inr weight)"

text \<open>The weights of a new vote: the one that counts in the comment, and that of the vote.\<close>

definition vote_weights ::
  "fc_lib \<Rightarrow> int \<Rightarrow> int \<Rightarrow> comment_object \<Rightarrow> database \<Rightarrow> exn + (nat \<times> nat)" where
  "vote_weights fc rshares old_vote_rshares comment db =
     bindR (if rshares > 0 \<and> c_last_payout comment = 0 \<and> c_allow_curation_rewards comment
            then bindR (get_curation_rewards_percent db) (\<lambda>pc. Inr (pc > 0)) else Inr False) (\<lambda>eligible.
     if eligible then
       bindR (get_reward_fund db) (\<lambda>(_, rfo).
       bindR (max_vote_weight fc rfo rshares old_vote_rshares comment) (\<lambda>m.
       bindR (discount_weight fc m comment (head_block_time db)) (\<lambda>w. Inr (m, w))))
     else Inr (0, 0))"

definition vote_first ::
  "fc_lib \<Rightarrow> vote_operation \<Rightarrow> oid \<Rightarrow> oid \<Rightarrow> comment_object \<Rightarrow> int \<Rightarrow> int \<Rightarrow> database \<Rightarrow> exn + database" where
  "vote_first fc p vi ci comment abs_rshares pw db =
     bindR (assertR (vo_weight p \<noteq> 0) ''Vote weight cannot be 0.'') (\<lambda>_.
     let rshares = (if vo_weight p < 0 then - abs_rshares else abs_rshares); now = head_block_time db in
     bindR (if rshares > 0 then check_upvote_time comment now else Inr ()) (\<lambda>_.
     bindR (modify_account vi (spend_power pw now) db) (\<lambda>db1.
     bindR (get_id (comments db1) (c_root_comment comment)) (\<lambda>_.
     bindR (assertR (abs_rshares > 0) ''Cannot vote with 0 rshares.'') (\<lambda>_.
     bindR (modify_comment ci (add_vote fc rshares abs_rshares) db1) (\<lambda>db2.
     bindR (modify_comment (c_root_comment comment) (add_children_rshares fc abs_rshares) db2) (\<lambda>db3.
     bindR (get_id (comments db3) ci) (\<lambda>comment3.
     bindR (vote_weights fc rshares (c_vote_rshares comment) comment3 db3) (\<lambda>(max_weight, weight).
     bindR (create_comment_vote (\<lambda>_. Inr (default_comment_vote_object\<lparr>cvo_voter := vi, cvo_comment := ci,
       cvo_rshares := rshares, cvo_vote_percent := vo_weight p, cvo_last_update := now,
       cvo_comment_bmchain := vo_comment_bmchain p, cvo_weight := weight\<rparr>)) db3) (\<lambda>(db4, _).
     bindR (if max_weight \<noteq> 0 then
              modify_comment ci (\<lambda>c. Inr (c\<lparr>c_total_vote_weight := (c_total_vote_weight c + max_weight) mod 2 ^ 64\<rparr>)) db4
            else Inr db4) (\<lambda>db5.
     process_funds_bmchain fc VOTE_EMISSION_RATE db5)))))))))))"

subsection \<open>A changed vote\<close>

definition net_votes_change :: "int \<Rightarrow> int \<Rightarrow> int" where
  "net_votes_change rshares old =
     (if rshares > 0 \<and> old < 0 then 2
      else if rshares > 0 \<and> old = 0 then 1
      else if rshares = 0 \<and> old < 0 then 1
      else if rshares = 0 \<and> old > 0 then - 1
      else if rshares < 0 \<and> old = 0 then - 1
      else if rshares < 0 \<and> old > 0 then - 2
      else 0)"

definition change_vote :: "fc_lib \<Rightarrow> int \<Rightarrow> int \<Rightarrow> int \<Rightarrow> comment_object \<Rightarrow> exn + comment_object" where
  "change_vote fc old rshares abs_rshares c =
     bindR (safe_sub fc (c_net_rshares c) old) (\<lambda>n0.
     bindR (safe_add fc n0 rshares) (\<lambda>n.
     bindR (safe_add fc (c_abs_rshares c) abs_rshares) (\<lambda>a.
     Inr (c\<lparr>c_net_rshares := n, c_abs_rshares := a, c_net_votes := c_net_votes c + net_votes_change rshares old\<rparr>))))"

definition vote_again ::
  "fc_lib \<Rightarrow> vote_operation \<Rightarrow> oid \<Rightarrow> oid \<Rightarrow> comment_object \<Rightarrow> oid \<Rightarrow> comment_vote_object \<Rightarrow> int \<Rightarrow> int \<Rightarrow>
   database \<Rightarrow> exn + database" where
  "vote_again fc p vi ci comment xi old abs_rshares pw db =
     bindR (assertR (cvo_num_changes old < MAX_VOTE_CHANGES)
       ''Voter has used the maximum number of vote changes on this comment.'') (\<lambda>_.
     let rshares = (if vo_weight p < 0 then - abs_rshares else abs_rshares); now = head_block_time db in
     bindR (if cvo_rshares old < rshares then check_upvote_time comment now else Inr ()) (\<lambda>_.
     bindR (modify_account vi (spend_power pw now) db) (\<lambda>db1.
     bindR (get_id (comments db1) (c_root_comment comment)) (\<lambda>_.
     bindR (modify_comment ci (change_vote fc (cvo_rshares old) rshares abs_rshares) db1) (\<lambda>db2.
     bindR (modify_comment (c_root_comment comment) (add_children_rshares fc abs_rshares) db2) (\<lambda>db3.
     bindR (modify_comment ci (\<lambda>c. Inr (c\<lparr>c_total_vote_weight := u64 (int (c_total_vote_weight c) - int (cvo_weight old))\<rparr>)) db3) (\<lambda>db4.
     modify_comment_vote xi (\<lambda>v. Inr (v\<lparr>cvo_rshares := rshares, cvo_vote_percent := vo_weight p, cvo_last_update := now,
       cvo_weight := 0, cvo_num_changes := cvo_num_changes v + 1, cvo_comment_bmchain := vo_comment_bmchain p\<rparr>)) db4)))))))"

definition vote_evaluator :: "fc_lib \<Rightarrow> vote_operation \<Rightarrow> database \<Rightarrow> exn + database" where
  "vote_evaluator fc p db =
     bindR (get_comment (vo_author p) (vo_permlink p) db) (\<lambda>(ci, comment).
     bindR (get_account (vo_voter p) db) (\<lambda>(vi, voter).
     bindR (assertR (\<not> (a_owner_challenged voter \<or> a_active_challenged voter))
       ''Operation cannot be processed because the account is currently challenged.'') (\<lambda>_.
     bindR (assertR (a_can_vote voter) ''Voter has declined their voting rights.'') (\<lambda>_.
     bindR (if vo_weight p > 0 then assertR (c_allow_votes comment) ''Votes are not allowed on the comment.'' else Inr ()) (\<lambda>_.
     bindR (calculate_discussion_payout_time comment db) (\<lambda>payout.
     if payout = time_max then Inr db
     else
       let now = head_block_time db; current = current_voting_power voter now; denom = max_vote_denom db;
           used = used_voting_power current (vo_weight p) denom in
       bindR (assertR (time_diff now (a_last_vote_time voter) \<ge> MIN_VOTE_INTERVAL_SEC) ''Can only vote once every 3 seconds.'') (\<lambda>_.
       bindR (assertR (current > 0) ''Account currently does not have voting power.'') (\<lambda>_.
       bindR (assertR (denom > 0) ''max_vote_denom > 0'') (\<lambda>_.
       bindR (assertR (used \<le> current) ''Account does not have enough power to vote.'') (\<lambda>_.
       bindR (vote_rshares fc voter used) (\<lambda>abs_rshares.
       bindR (assertR (abs_rshares > VOTE_DUST_THRESHOLD \<or> vo_weight p = 0)
         ''Voting weight is too small, please accumulate more voting power or BMT.'') (\<lambda>_.
       case find_by (\<lambda>v. cvo_comment v = ci \<and> cvo_voter v = vi) (comment_votes db) of
         None \<Rightarrow> vote_first fc p vi ci comment abs_rshares (current - used) db
       | Some (xi, old) \<Rightarrow> vote_again fc p vi ci comment xi old abs_rshares (current - used) db))))))))))))"

subsection \<open>Conservation\<close>

lemma spend_power_holdings:
  "spend_power pw now a = Inr a' \<Longrightarrow> bmt_of_account a' = bmt_of_account a \<and> vests_of_account a' = vests_of_account a \<and>
     pending_of_account a' = pending_of_account a"
  by (auto simp: spend_power_def holdings)

lemma vote_again_gaps: "vote_again fc p vi ci comment xi old r pw db = Inr db' \<Longrightarrow> keeps_gaps db db'"
  by (auto simp: vote_again_def Let_def res_simps keeps_gaps_def split: if_splits
      dest!: table_gaps spend_power_holdings)

lemma vote_again_quiet: "vote_again fc p vi ci comment xi old r pw db = Inr db' \<Longrightarrow> db_sorted db \<Longrightarrow> quiet db db'"
  by (auto simp: vote_again_def Let_def res_simps quiet_defs split: if_splits dest!: quiets)

lemma vote_first_quiet: "vote_first fc p vi ci comment r pw db = Inr db' \<Longrightarrow> db_sorted db \<Longrightarrow> quiet db db'"
  by (auto simp: vote_first_def Let_def res_simps quiet_defs split: if_splits dest!: quiets)

lemma vote_quiet: "vote_evaluator fc p db = Inr db' \<Longrightarrow> db_sorted db \<Longrightarrow> quiet db db'"
  by (auto simp: vote_evaluator_def Let_def res_simps split: if_splits option.splits
      intro: vote_first_quiet vote_again_quiet)

context fc_exact
begin

lemma vote_first_gaps: "vote_first fc p vi ci comment r pw db = Inr db' \<Longrightarrow> keeps_gaps db db'"
  by (auto simp: vote_first_def Let_def res_simps keeps_gaps_def split: if_splits
      dest!: table_gaps ledger_gaps spend_power_holdings)

lemma vote_gaps: "vote_evaluator fc p db = Inr db' \<Longrightarrow> keeps_gaps db db'"
  by (auto simp: vote_evaluator_def Let_def res_simps split: if_splits option.splits
      intro: vote_first_gaps vote_again_gaps)

end

subsection \<open>Properties\<close>

lemma net_votes_change_sgn: "net_votes_change r old = sgn r - sgn old"
  by (auto simp: net_votes_change_def sgn_if)

text \<open>The voter's account as the vote leaves it.\<close>

definition power_at :: "oid \<Rightarrow> nat \<Rightarrow> time_point_sec \<Rightarrow> database \<Rightarrow> bool" where
  "power_at i pw t db \<longleftrightarrow>
     (\<exists>a. map_of (indices (accounts db)) i = Some a \<and> a_voting_power a = pw \<and> a_last_vote_time a = t)"

lemma spend_power_at: "modify_account i (spend_power pw t) db = Inr db' \<Longrightarrow> power_at i (nat (pw mod 65536)) t db'"
  by (auto simp: modify_account_def spend_power_def power_at_def res_simps dest!: modify_rows)

lemma power_at_modify_account:
  "modify_account j m db = Inr db' \<Longrightarrow> power_at i pw t db \<Longrightarrow>
   (\<And>a a'. m a = Inr a' \<Longrightarrow> a_voting_power a' = a_voting_power a \<and> a_last_vote_time a' = a_last_vote_time a) \<Longrightarrow>
   power_at i pw t db'"
  by (fastforce simp: modify_account_def power_at_def res_simps dest!: modify_rows)

lemma process_funds_power:
  assumes "process_funds_bmchain fc n db = Inr db'" and "power_at i pw t db"
  shows "power_at i pw t db'"
proof (cases "db' = db")
  case False
  with assms(1) obtain db1 u wi w m db2 where 1: "pay_reward_funds fc u db = Inr (db1, w)"
    and 2: "modify_account wi (\<lambda>a. bindR (asset_plus fc (a_balance a) (bmt m)) (\<lambda>b. Inr (a\<lparr>a_balance := b\<rparr>))) db1 = Inr db2"
    and 3: "accounts db' = accounts db2"
    by (auto simp: process_funds_bmchain_def Let_def bindR_eq_Inr split: if_splits dest!: modify_dgpo_frame)
  have "power_at i pw t db1" using pay_reward_funds_frame [OF 1] assms(2) by (auto simp: power_at_def)
  with 2 have "power_at i pw t db2" by (rule power_at_modify_account) (auto simp: res_simps)
  then show ?thesis using 3 by (simp add: power_at_def)
qed (use assms(2) in simp)

lemma vote_first_power:
  assumes "vote_first fc p vi ci comment r pw db = Inr db'"
  shows "power_at vi (nat (pw mod 65536)) (head_block_time db) db'"
proof -
  from assms obtain db1 db5 where "modify_account vi (spend_power pw (head_block_time db)) db = Inr db1"
    and f: "process_funds_bmchain fc VOTE_EMISSION_RATE db5 = Inr db'" and "accounts db5 = accounts db1"
    by (auto simp: vote_first_def Let_def bindR_eq_Inr modify_comment_def create_comment_vote_def split: if_splits)
  then have "power_at vi (nat (pw mod 65536)) (head_block_time db) db5" by (auto simp: power_at_def dest!: spend_power_at)
  with f show ?thesis by (rule process_funds_power)
qed

lemma vote_again_power:
  assumes "vote_again fc p vi ci comment xi old r pw db = Inr db'"
  shows "power_at vi (nat (pw mod 65536)) (head_block_time db) db'"
proof -
  from assms obtain db1 where "modify_account vi (spend_power pw (head_block_time db)) db = Inr db1"
    and "accounts db' = accounts db1"
    by (auto simp: vote_again_def Let_def bindR_eq_Inr modify_comment_def modify_comment_vote_def split: if_splits)
  then show ?thesis by (auto simp: power_at_def dest!: spend_power_at)
qed

lemma used_voting_power_nonneg: "0 < cur \<Longrightarrow> 0 < denom \<Longrightarrow> 0 \<le> used_voting_power cur w denom"
proof -
  assume "0 < cur" "0 < denom"
  have sdiv: "0 \<le> a sdiv b" if "0 \<le> a" "0 < b" for a b :: int
    using that by (auto simp: signed_divide_int_def sgn_if pos_imp_zdiv_nonneg_iff)
  show ?thesis
    unfolding used_voting_power_def using \<open>0 < cur\<close> \<open>0 < denom\<close> sdiv [of "cur * \<bar>w\<bar>" PERCENT_100]
    by (intro sdiv) (auto simp: PERCENT_100_def)
qed

lemma current_voting_power_le: "current_voting_power voter now \<le> PERCENT_100"
  by (simp add: current_voting_power_def)

text \<open>
  A vote is paid from the voter's power. A vote on a post that has not been paid out
  uses between nothing and all of the power the voter has regained, which is at most 100
  per cent; the rest is stored without wrap-around in 16 bits together with the time, and
  the vote comes at least three seconds after the last one.
\<close>

theorem vote_within_power:
  assumes "vote_evaluator fc p db = Inr db'"
    and "get_comment (vo_author p) (vo_permlink p) db = Inr (ci, comment)"
    and "calculate_discussion_payout_time comment db = Inr t" and "t \<noteq> time_max"
    and "get_account (vo_voter p) db = Inr (vi, voter)"
    and "current = current_voting_power voter (head_block_time db)"
    and "used = used_voting_power current (vo_weight p) (max_vote_denom db)"
  shows "0 \<le> used \<and> used \<le> current \<and> current \<le> PERCENT_100 \<and>
    time_diff (head_block_time db) (a_last_vote_time voter) \<ge> MIN_VOTE_INTERVAL_SEC \<and>
    (\<exists>a. map_of (indices (accounts db')) vi = Some a \<and> int (a_voting_power a) = current - used \<and>
      a_last_vote_time a = head_block_time db)"
proof -
  from assms have c: "current > 0" "max_vote_denom db > 0" "used \<le> current"
      "time_diff (head_block_time db) (a_last_vote_time voter) \<ge> MIN_VOTE_INTERVAL_SEC"
    and "power_at vi (nat ((current - used) mod 65536)) (head_block_time db) db'"
    by (auto simp: vote_evaluator_def Let_def res_simps split: if_splits option.splits dest!: vote_first_power vote_again_power)
  moreover have "0 \<le> used" using used_voting_power_nonneg c assms(7) by simp
  moreover have "current \<le> PERCENT_100" using assms(6) current_voting_power_le by simp
  ultimately show ?thesis by (auto simp: power_at_def PERCENT_100_def)
qed

definition sample_vote :: vote_operation where
  "sample_vote = \<lparr> vo_voter = ''bob'', vo_author = ''alice'', vo_permlink = ''post'', vo_weight = - 10000, vo_comment_bmchain = [] \<rparr>"

definition vote_chain :: database where
  "vote_chain = empty_database\<lparr>
     accounts := mk_index [(0, default_account_object\<lparr>a_name := ''bob'', a_vesting_shares := vests 1000000, a_voting_power := 10000,
       a_last_vote_time := 0\<rparr>)] 1,
     comments := mk_index [(0, default_comment_object\<lparr>c_author := ''alice'', c_permlink := ''post'', c_cashout_time := 5000\<rparr>)] 1,
     dgpo := default_dynamic_global_property_object\<lparr>g_head_block_number := 1, g_time := 100\<rparr>\<rparr>"

lemmas voting_evals = sample_vote_def vote_chain_def get_comment_def get_account_def get_by_def find_by_def mk_index_def
  default_account_object_def default_comment_object_def calculate_discussion_payout_time_def ROOT_POST_PARENT_def time_max_def
  empty_database_def default_dynamic_global_property_object_def head_block_time_def c_str_def comment_key_def

lemmas vote_step_evals = current_voting_power_def used_voting_power_def
  max_vote_denom_def PERCENT_100_def VOTE_REGENERATION_SECONDS_def time_diff_def signed_divide_int_def sgn_if MIN_VOTE_INTERVAL_SEC_def
  vote_rshares_def effective_vesting_shares_def i64_of_u64_def VOTE_DUST_THRESHOLD_def
  modify_account_def modify_def modify_ok_def account_conflict_def spend_power_def get_id_def find_id_def modify_comment_def comment_conflict_def
  add_vote_def add_children_rshares_def vote_weights_def create_comment_vote_def emplace_def insert_ok_def empty_index_def
  process_funds_bmchain_def DAILY_INFLATION_RATE_RESTRICTION_def eval64

theorem vote_within_power_witness:
  "\<exists>db' a. vote_evaluator fc64 sample_vote vote_chain = Inr db' \<and> map_of (indices (accounts db')) 0 = Some a \<and>
     a_voting_power a = 9800"
proof -
  have "\<exists>db'. vote_evaluator fc64 sample_vote vote_chain = Inr db'"
    by (simp add: vote_evaluator_def voting_evals Let_def)
      (simp add: vote_first_def vote_step_evals head_block_time_def empty_index_def Let_def)
  then obtain db' where r: "vote_evaluator fc64 sample_vote vote_chain = Inr db'" ..
  obtain c voter where c: "get_comment (vo_author sample_vote) (vo_permlink sample_vote) vote_chain = Inr (0, c)"
      "calculate_discussion_payout_time c vote_chain = Inr 5000"
    and voter: "get_account (vo_voter sample_vote) vote_chain = Inr (0, voter)" "a_voting_power voter = 10000" "a_last_vote_time voter = 0"
    by (simp add: voting_evals)
  have "5000 \<noteq> time_max" by (simp add: time_max_def)
  from vote_within_power [OF r c this voter(1) refl refl] r voter show ?thesis
    by (auto simp: voting_evals current_voting_power_def used_voting_power_def max_vote_denom_def PERCENT_100_def
        VOTE_REGENERATION_SECONDS_def time_diff_def signed_divide_int_def sgn_if)
qed

end
