(* ===== verification/Transaction.thy ===== *)
theory Transaction
  imports Validate
begin

text \<open>
  \<open>libraries/protocol/transaction.cpp\<close>: transactions, the keys their signatures recover to,
  and \<open>verify_authority\<close>, the check that the keys satisfy every authority the operations
  require. The serialisation \<open>fc::raw::pack\<close>, the hash \<open>fc::sha256\<close> and the key recovery
  \<open>fc::ecc::public_key\<close> are the fields of \<open>fc_crypto\<close>, with the chain id already packed.
  The exceptions \<open>tx_missing_*_auth\<close> are \<open>Missing_auth\<close> with the kind of authority.

  The lemmas show that a transaction that passes is backed, operation by operation, by
  signatures with the weight of the required authority, that posting operations travel
  alone, and that dropping signatures in \<open>minimize_required_signatures\<close> keeps a verified
  set verified.
\<close>

record transaction =
  ref_block_num :: nat
  ref_block_prefix :: nat
  expiration :: time_point_sec
  operations :: "operation list"

record signed_transaction = transaction +
  signatures :: "string list"

record fc_crypto =
  pack_digest :: "transaction \<Rightarrow> string"
  pack_sig_digest :: "transaction \<Rightarrow> string"
  recover_key :: "string \<Rightarrow> string \<Rightarrow> exn + public_key_type"

definition digest :: "fc_crypto \<Rightarrow> signed_transaction \<Rightarrow> string" where
  "digest h trx = pack_digest h (transaction.truncate trx)"

definition sig_digest :: "fc_crypto \<Rightarrow> signed_transaction \<Rightarrow> string" where
  "sig_digest h trx = pack_sig_digest h (transaction.truncate trx)"

text \<open>The first twenty bytes of the digest.\<close>

definition transaction_id :: "fc_crypto \<Rightarrow> signed_transaction \<Rightarrow> string" where
  "transaction_id h trx = take 20 (digest h trx)"

definition transaction_validate :: "fc_lib \<Rightarrow> signed_transaction \<Rightarrow> exn + unit" where
  "transaction_validate fc trx =
     bindR (assertR (operations trx \<noteq> []) ''A transaction must have at least one operation'') (\<lambda>_.
     checkR (operation_validate fc) (operations trx))"

text \<open>The words of a block id; \<open>_hash\<close> is read in the byte order of the machine.\<close>

definition le32 :: "string \<Rightarrow> nat" where
  "le32 bytes = foldr (\<lambda>c n. of_char c + 256 * n) bytes 0"

definition hash_word :: "nat \<Rightarrow> string \<Rightarrow> nat" where
  "hash_word i h = le32 (take 4 (drop (4 * i) h))"

definition endian_reverse_u32 :: "nat \<Rightarrow> nat" where
  "endian_reverse_u32 x =
     x mod 256 * 2 ^ 24 + x div 2 ^ 8 mod 256 * 2 ^ 16 + x div 2 ^ 16 mod 256 * 2 ^ 8 + x div 2 ^ 24 mod 256"

definition set_expiration :: "time_point_sec \<Rightarrow> signed_transaction \<Rightarrow> signed_transaction" where
  "set_expiration t trx = trx\<lparr>expiration := t\<rparr>"

text \<open>\<open>ref_block_num\<close> has 16 bits.\<close>

definition set_reference_block :: "string \<Rightarrow> signed_transaction \<Rightarrow> signed_transaction" where
  "set_reference_block block_id trx =
     trx\<lparr>ref_block_num := endian_reverse_u32 (hash_word 0 block_id) mod 2 ^ 16,
         ref_block_prefix := hash_word 1 block_id\<rparr>"

definition get_required_authorities ::
  "operation list \<Rightarrow> account_name list \<times> account_name list \<times> account_name list \<times> authority list" where
  "get_required_authorities ops = fold operation_get_required_authorities ops ([], [], [], [])"

text \<open>\<open>a || b\<close> on checks that record what they have seen.\<close>

definition orR :: "('s \<Rightarrow> exn + bool \<times> 's) \<Rightarrow> ('s \<Rightarrow> exn + bool \<times> 's) \<Rightarrow> 's \<Rightarrow> exn + bool \<times> 's" where
  "orR f g s = bindR (f s) (\<lambda>(ok, s1). if ok then Inr (True, s1) else g s1)"

definition requireR :: "string \<Rightarrow> ('s \<Rightarrow> exn + bool \<times> 's) \<Rightarrow> 's \<Rightarrow> exn + 's" where
  "requireR kind f s = bindR (f s) (\<lambda>(ok, s1). if ok then Inr s1 else Inl (Missing_auth kind))"

text \<open>\<open>s.check_authority( get( id ) )\<close> in the state whose own getter is \<open>getter\<close>.\<close>

definition check_got ::
  "nat \<Rightarrow> authority_getter \<Rightarrow> authority_getter \<Rightarrow> account_name \<Rightarrow> sign_state \<Rightarrow> exn + bool \<times> sign_state" where
  "check_got n getter get a s = bindR (get a) (\<lambda>auth. check_authority n getter auth s)"

definition approve :: "account_name list \<Rightarrow> sign_state \<Rightarrow> sign_state" where
  "approve ids s = s\<lparr>approved_by := fold flat_insert ids (approved_by s)\<rparr>"

definition no_unused_signatures :: "sign_state \<Rightarrow> exn + unit" where
  "no_unused_signatures s =
     (if fst (remove_unused_signatures s) then Inl (Other_exception ''tx_irrelevant_sig'') else Inr ())"

definition verify_posting ::
  "nat \<Rightarrow> authority_getter \<Rightarrow> authority_getter \<Rightarrow> authority_getter \<Rightarrow> account_name list \<Rightarrow> sign_state \<Rightarrow> exn + unit" where
  "verify_posting n get_active get_owner get_posting ids s =
     bindR (foldR (\<lambda>a. requireR ''posting''
         (orR (check_authority_id n get_posting a)
              (orR (check_got n get_posting get_active a) (check_got n get_posting get_owner a)))) ids s)
       no_unused_signatures"

definition verify_authority ::
  "nat \<Rightarrow> authority_getter \<Rightarrow> authority_getter \<Rightarrow> authority_getter \<Rightarrow> account_name list \<Rightarrow>
   account_name list \<Rightarrow> account_name list \<Rightarrow> operation list \<Rightarrow> public_key_type list \<Rightarrow> exn + unit" where
  "verify_authority n get_active get_owner get_posting active_aprovals owner_approvals posting_approvals ops sigs =
     (case get_required_authorities ops of
       (required_active, required_owner, required_posting, other) \<Rightarrow>
        if required_posting \<noteq> [] then
          bindR (assertR (required_active = []) ''required_active.size() == 0'') (\<lambda>_.
          bindR (assertR (required_owner = []) ''required_owner.size() == 0'') (\<lambda>_.
          bindR (assertR (other = []) ''other.size() == 0'') (\<lambda>_.
          verify_posting n get_active get_owner get_posting required_posting
            (approve posting_approvals (mk_sign_state sigs [])))))
        else
          bindR (foldR (\<lambda>auth. requireR ''other'' (check_authority n get_active auth)) other
            (approve owner_approvals (approve active_aprovals (mk_sign_state sigs [])))) (\<lambda>s1.
          bindR (foldR (\<lambda>a. requireR ''active''
              (orR (check_authority_id n get_active a) (check_got n get_active get_owner a))) required_active s1) (\<lambda>s2.
          bindR (foldR (\<lambda>a. requireR ''owner''
              (orR (\<lambda>s. Inr (a \<in> set owner_approvals, s)) (check_got n get_active get_owner a))) required_owner s2)
            no_unused_signatures)))"

fun signature_keys :: "fc_crypto \<Rightarrow> string \<Rightarrow> string list \<Rightarrow> public_key_type list \<Rightarrow> exn + public_key_type list" where
  "signature_keys h d [] result = Inr result"
| "signature_keys h d (sig # sigs) result =
     bindR (recover_key h sig d) (\<lambda>k.
     if k \<in> set result then Inl (Other_exception ''tx_duplicate_sig'')
     else signature_keys h d sigs (flat_insert k result))"

definition get_signature_keys :: "fc_crypto \<Rightarrow> signed_transaction \<Rightarrow> exn + public_key_type list" where
  "get_signature_keys h trx = signature_keys h (sig_digest h trx) (signatures trx) []"

definition signed_verify_authority ::
  "fc_crypto \<Rightarrow> nat \<Rightarrow> authority_getter \<Rightarrow> authority_getter \<Rightarrow> authority_getter \<Rightarrow> signed_transaction \<Rightarrow> exn + unit" where
  "signed_verify_authority h n get_active get_owner get_posting trx =
     bindR (get_signature_keys h trx) (\<lambda>keys.
     verify_authority n get_active get_owner get_posting [] [] [] (operations trx) keys)"

text \<open>The set of the keys of \<open>available_keys\<close> among the used signatures.\<close>

definition used_available :: "public_key_type list \<Rightarrow> sign_state \<Rightarrow> public_key_type list" where
  "used_available keys s =
     fold flat_insert
       (filter (\<lambda>k. k \<in> set keys) (map fst (provided_signatures (snd (remove_unused_signatures s))))) []"

text \<open>A check whose outcome is dropped.\<close>

definition tryR :: "('s \<Rightarrow> exn + bool \<times> 's) \<Rightarrow> 's \<Rightarrow> exn + 's" where
  "tryR f s = bindR (f s) (\<lambda>(_, s1). Inr s1)"

definition get_required_signatures ::
  "fc_crypto \<Rightarrow> nat \<Rightarrow> authority_getter \<Rightarrow> authority_getter \<Rightarrow> authority_getter \<Rightarrow> public_key_type list \<Rightarrow>
   signed_transaction \<Rightarrow> exn + public_key_type list" where
  "get_required_signatures h n get_active get_owner get_posting keys trx =
     (case get_required_authorities (operations trx) of
       (required_active, required_owner, required_posting, other) \<Rightarrow>
        bindR (get_signature_keys h trx) (\<lambda>sigs.
        if required_posting \<noteq> [] then
          bindR (assertR (required_owner = []) ''!required_owner.size()'') (\<lambda>_.
          bindR (assertR (required_active = []) ''!required_active.size()'') (\<lambda>_.
          bindR (foldR (\<lambda>a. tryR (check_authority_id n get_posting a)) required_posting (mk_sign_state sigs keys)) (\<lambda>s.
          Inr (used_available keys s))))
        else
          bindR (foldR (\<lambda>auth. tryR (check_authority n get_active auth)) other (mk_sign_state sigs keys)) (\<lambda>s1.
          bindR (foldR (\<lambda>a. tryR (check_got n get_active get_owner a)) required_owner s1) (\<lambda>s2.
          bindR (foldR (\<lambda>a. tryR (check_authority_id n get_active a)) required_active s2) (\<lambda>s3.
          Inr (used_available keys s3))))))"

text \<open>The loop of \<open>minimize_required_signatures\<close>: only the missing authorities are caught.\<close>

definition minimize_step :: "(public_key_type list \<Rightarrow> exn + unit) \<Rightarrow> public_key_type \<Rightarrow> public_key_type list \<Rightarrow>
   exn + public_key_type list" where
  "minimize_step verify k result =
     (case verify (remove1 k result) of
        Inr _ \<Rightarrow> Inr (remove1 k result)
      | Inl (Missing_auth _) \<Rightarrow> Inr (flat_insert k (remove1 k result))
      | Inl e \<Rightarrow> Inl e)"

definition minimize_required_signatures ::
  "fc_crypto \<Rightarrow> nat \<Rightarrow> authority_getter \<Rightarrow> authority_getter \<Rightarrow> authority_getter \<Rightarrow> public_key_type list \<Rightarrow>
   signed_transaction \<Rightarrow> exn + public_key_type list" where
  "minimize_required_signatures h n get_active get_owner get_posting keys trx =
     bindR (get_required_signatures h n get_active get_owner get_posting keys trx) (\<lambda>s.
     foldR (minimize_step (verify_authority n get_active get_owner get_posting [] [] [] (operations trx))) s s)"

subsection \<open>Verified transactions are backed by their signatures\<close>

lemma set_fold_flat_insert: "set (fold flat_insert xs acc) = set xs \<union> set acc"
  by (induction xs arbitrary: acc) auto

lemma fold_required:
  "fold operation_get_required_authorities ops (ra, rw, rp, rt) = (ra', rw', rp', rt') \<Longrightarrow>
   set ra' = (\<Union>p \<in> set ops. set (required_active_authorities p)) \<union> set ra \<and>
   set rw' = (\<Union>p \<in> set ops. set (required_owner_authorities p)) \<union> set rw \<and>
   set rp' = (\<Union>p \<in> set ops. set (required_posting_authorities p)) \<union> set rp \<and>
   set rt' = (\<Union>p \<in> set ops. set (required_other_authorities p)) \<union> set rt"
  by (induction ops arbitrary: ra rw rp rt)
    (auto simp: operation_get_required_authorities_def set_fold_flat_insert)

lemma get_required_authorities_sets:
  assumes "get_required_authorities ops = (ra, rw, rp, rt)"
  shows "set ra = (\<Union>p \<in> set ops. set (required_active_authorities p))"
    and "set rw = (\<Union>p \<in> set ops. set (required_owner_authorities p))"
    and "set rp = (\<Union>p \<in> set ops. set (required_posting_authorities p))"
    and "set rt = (\<Union>p \<in> set ops. set (required_other_authorities p))"
  using fold_required [OF assms [unfolded get_required_authorities_def]] by simp_all

text \<open>
  A check is sound for \<open>P\<close> when it keeps the soundness of the state and answers true only if
  \<open>P\<close> holds; \<open>||\<close> and the loops over the required accounts carry this on.
\<close>

definition sound_check ::
  "public_key_type set \<Rightarrow> authority_getter \<Rightarrow> account_name set \<Rightarrow> (sign_state \<Rightarrow> exn + bool \<times> sign_state) \<Rightarrow> bool \<Rightarrow> bool" where
  "sound_check K get appr f P \<longleftrightarrow> (\<forall>s ok s'. f s = Inr (ok, s') \<longrightarrow> sound_state K get appr s \<longrightarrow>
     sound_state K get appr s' \<and> (ok \<longrightarrow> P))"

lemma sound_orR: "sound_check K get appr f P \<Longrightarrow> sound_check K get appr g Q \<Longrightarrow> sound_check K get appr (orR f g) (P \<or> Q)"
  unfolding sound_check_def orR_def by (auto simp: res_simps split: if_splits) blast+

lemma sound_check_authority: "sound_check K get appr (check_authority n get auth) (satisfied K get appr auth)"
  unfolding sound_check_def by (blast dest: check_authority_sound)

lemma sound_check_got:
  "sound_check K get appr (check_got n get get' a) (\<exists>auth. get' a = Inr auth \<and> satisfied K get appr auth)"
  unfolding sound_check_def check_got_def by (auto simp: res_simps dest: check_authority_sound)

lemma sound_check_id: "sound_check K get appr (check_authority_id n get a) (account_ok K get appr a)"
  unfolding sound_check_def check_authority_id_def
proof (intro allI impI)
  fix s ok s'
  assume c: "(if a \<in> set (approved_by s) then Inr (True, s) else bindR (get a) (\<lambda>auth. check_authority n get auth s)) = Inr (ok, s')"
    and s: "sound_state K get appr s"
  show "sound_state K get appr s' \<and> (ok \<longrightarrow> account_ok K get appr a)"
  proof (cases "a \<in> set (approved_by s)")
    case True
    with c s show ?thesis unfolding sound_state_def by auto
  next
    case False
    with c obtain auth where "get a = Inr auth" "check_authority n get auth s = Inr (ok, s')"
      by (auto simp: res_simps)
    with check_authority_sound [OF this(2) s] show ?thesis by blast
  qed
qed

lemma sound_const: "sound_check K get appr (\<lambda>s. Inr (b, s)) b"
  by (simp add: sound_check_def)

lemma requireR_eq_Inr [res_simps]: "requireR k f s = Inr s' \<longleftrightarrow> f s = Inr (True, s')"
  by (auto simp: requireR_def bindR_eq_Inr split: if_splits)

lemma foldR_require_sound:
  assumes "\<And>x. sound_check K get appr (f x) (P x)"
  shows "foldR (\<lambda>x. requireR k (f x)) xs s = Inr s' \<Longrightarrow> sound_state K get appr s \<Longrightarrow>
    sound_state K get appr s' \<and> (\<forall>x \<in> set xs. P x)"
proof (induction xs arbitrary: s)
  case (Cons x xs)
  then obtain s1 where "f x s = Inr (True, s1)" and rest: "foldR (\<lambda>x. requireR k (f x)) xs s1 = Inr s'"
    by (auto simp: res_simps)
  then have "sound_state K get appr s1" and "P x" using assms Cons.prems(2) unfolding sound_check_def by blast+
  with Cons.IH [OF rest] show ?case by simp
qed auto

lemma sound_approve:
  "sound_state K get appr s \<Longrightarrow> set ids \<subseteq> appr \<Longrightarrow> sound_state K get appr (approve ids s)"
  by (auto simp: sound_state_def approve_def set_fold_flat_insert)

text \<open>What \<open>verify_authority\<close> promises of one operation, with the approvals given in advance.\<close>

definition operation_backed ::
  "public_key_type set \<Rightarrow> authority_getter \<Rightarrow> authority_getter \<Rightarrow> authority_getter \<Rightarrow> operation \<Rightarrow> bool" where
  "operation_backed K get_active get_owner get_posting p \<longleftrightarrow>
     (\<forall>a \<in> set (required_posting_authorities p). a = ''temp'' \<or>
        (\<exists>auth. auth \<in> {x. get_posting a = Inr x \<or> get_active a = Inr x \<or> get_owner a = Inr x} \<and>
                satisfied K get_posting {''temp''} auth)) \<and>
     (\<forall>a \<in> set (required_active_authorities p). a = ''temp'' \<or>
        (\<exists>auth. auth \<in> {x. get_active a = Inr x \<or> get_owner a = Inr x} \<and>
                satisfied K get_active {''temp''} auth)) \<and>
     (\<forall>a \<in> set (required_owner_authorities p).
        \<exists>auth. get_owner a = Inr auth \<and> satisfied K get_active {''temp''} auth) \<and>
     (\<forall>auth \<in> set (required_other_authorities p). satisfied K get_active {''temp''} auth)"

lemma verify_posting_sound:
  assumes "verify_posting n ga gw gp ids (approve [] (mk_sign_state sigs [])) = Inr u"
  shows "\<forall>a \<in> set ids. account_ok (set sigs) gp {''temp''} a \<or>
    (\<exists>auth. ga a = Inr auth \<and> satisfied (set sigs) gp {''temp''} auth) \<or>
    (\<exists>auth. gw a = Inr auth \<and> satisfied (set sigs) gp {''temp''} auth)"
proof -
  have s: "sound_state (set sigs) gp {''temp''} (approve [] (mk_sign_state sigs []))"
    using sound_mk_sign_state [of "{''temp''}" sigs "[]" gp] by (intro sound_approve) auto
  show ?thesis
    using assms unfolding verify_posting_def bindR_eq_Inr
    by (elim exE conjE)
      (rule conjunct2 [OF foldR_require_sound
        [OF sound_orR [OF sound_check_id sound_orR [OF sound_check_got sound_check_got]] _ s]])
qed

lemma verify_others_sound:
  assumes s0: "sound_state K ga {''temp''} s0"
    and "foldR (\<lambda>auth. requireR ''other'' (check_authority n ga auth)) rt s0 = Inr s1"
    and "foldR (\<lambda>a. requireR ''active'' (orR (check_authority_id n ga a) (check_got n ga gw a))) ra s1 = Inr s2"
    and "foldR (\<lambda>a. requireR ''owner'' (orR (\<lambda>s. Inr (a \<in> set [], s)) (check_got n ga gw a))) rw s2 = Inr s3"
  shows "\<forall>auth \<in> set rt. satisfied K ga {''temp''} auth"
    and "\<forall>a \<in> set ra. account_ok K ga {''temp''} a \<or> (\<exists>auth. gw a = Inr auth \<and> satisfied K ga {''temp''} auth)"
    and "\<forall>a \<in> set rw. \<exists>auth. gw a = Inr auth \<and> satisfied K ga {''temp''} auth"
proof -
  note f1 = foldR_require_sound [OF sound_check_authority assms(2) s0]
  note f2 = foldR_require_sound [OF sound_orR [OF sound_check_id sound_check_got] assms(3) conjunct1 [OF f1]]
  note f3 = foldR_require_sound [OF sound_orR [OF sound_const sound_check_got] assms(4) conjunct1 [OF f2]]
  from f1 f2 f3 show "\<forall>auth \<in> set rt. satisfied K ga {''temp''} auth"
    and "\<forall>a \<in> set ra. account_ok K ga {''temp''} a \<or> (\<exists>auth. gw a = Inr auth \<and> satisfied K ga {''temp''} auth)"
    and "\<forall>a \<in> set rw. \<exists>auth. gw a = Inr auth \<and> satisfied K ga {''temp''} auth"
    by simp_all
qed

lemma verify_authority_sound:
  assumes v: "verify_authority n ga gw gp [] [] [] ops sigs = Inr u" and p: "p \<in> set ops"
  shows "operation_backed (set sigs) ga gw gp p"
    and "required_posting_authorities q \<noteq> [] \<Longrightarrow> q \<in> set ops \<Longrightarrow>
      required_active_authorities p = [] \<and> required_owner_authorities p = [] \<and> required_other_authorities p = []"
proof -
  obtain ra rw rp rt where req: "get_required_authorities ops = (ra, rw, rp, rt)"
    by (cases "get_required_authorities ops")
  note sets = get_required_authorities_sets [OF req]
  have sub: "set (required_active_authorities p) \<subseteq> set ra" "set (required_owner_authorities p) \<subseteq> set rw"
    "set (required_posting_authorities p) \<subseteq> set rp" "set (required_other_authorities p) \<subseteq> set rt"
    using p by (auto simp: sets)
  have s: "sound_state (set sigs) ga {''temp''} (approve [] (approve [] (mk_sign_state sigs [])))"
    using sound_mk_sign_state [of "{''temp''}" sigs "[]" ga] by (intro sound_approve) auto
  have "operation_backed (set sigs) ga gw gp p \<and> (rp \<noteq> [] \<longrightarrow> ra = [] \<and> rw = [] \<and> rt = [])"
  proof (cases "rp = []")
    case True
    with v req obtain s1 s2 s3 where
      "foldR (\<lambda>auth. requireR ''other'' (check_authority n ga auth)) rt (approve [] (approve [] (mk_sign_state sigs []))) = Inr s1"
      "foldR (\<lambda>a. requireR ''active'' (orR (check_authority_id n ga a) (check_got n ga gw a))) ra s1 = Inr s2"
      "foldR (\<lambda>a. requireR ''owner'' (orR (\<lambda>s. Inr (a \<in> set [], s)) (check_got n ga gw a))) rw s2 = Inr s3"
      by (auto simp: verify_authority_def res_simps)
    note o = verify_others_sound [OF s this]
    have "required_posting_authorities p = []" using sub(3) True by simp
    moreover have "\<forall>a \<in> set (required_active_authorities p). a = ''temp'' \<or>
        (\<exists>auth. auth \<in> {x. ga a = Inr x \<or> gw a = Inr x} \<and> satisfied (set sigs) ga {''temp''} auth)"
    proof
      fix a assume "a \<in> set (required_active_authorities p)"
      with sub(1) o(2) have "account_ok (set sigs) ga {''temp''} a \<or>
        (\<exists>auth. gw a = Inr auth \<and> satisfied (set sigs) ga {''temp''} auth)" by blast
      then show "a = ''temp'' \<or>
        (\<exists>auth. auth \<in> {x. ga a = Inr x \<or> gw a = Inr x} \<and> satisfied (set sigs) ga {''temp''} auth)" by blast
    qed
    moreover have "\<forall>a \<in> set (required_owner_authorities p). \<exists>auth. gw a = Inr auth \<and> satisfied (set sigs) ga {''temp''} auth"
      using sub(2) o(3) by blast
    moreover have "\<forall>auth \<in> set (required_other_authorities p). satisfied (set sigs) ga {''temp''} auth"
      using sub(4) o(1) by blast
    ultimately show ?thesis using True by (simp add: operation_backed_def)
  next
    case False
    with v req have e: "ra = []" "rw = []" "rt = []"
      and vp: "verify_posting n ga gw gp rp (approve [] (mk_sign_state sigs [])) = Inr u"
      by (auto simp: verify_authority_def res_simps)
    from verify_posting_sound [OF vp] sub e show ?thesis
      unfolding operation_backed_def by auto
  qed
  note * = this
  from * show "operation_backed (set sigs) ga gw gp p" by simp
  show "required_posting_authorities q \<noteq> [] \<Longrightarrow> q \<in> set ops \<Longrightarrow>
      required_active_authorities p = [] \<and> required_owner_authorities p = [] \<and> required_other_authorities p = []"
  proof -
    assume "required_posting_authorities q \<noteq> []" and "q \<in> set ops"
    then have "set rp \<noteq> {}" unfolding sets(3) by (metis UN_iff empty_iff last_in_set)
    then have "set ra = {}" "set rw = {}" "set rt = {}" using * by auto
    with sub show ?thesis by simp
  qed
qed

text \<open>
  C4: authority of a transaction. When \<open>verify_authority\<close> accepts a signed transaction, its
  signatures recover to distinct keys, every account whose active, owner or posting
  authority an operation requires, and every explicit authority, is backed by those keys
  with enough weight (an active authority also by the owner's, a posting authority also by
  the other two), and a transaction with a posting operation requires nothing else.
\<close>

theorem verify_authority_backed:
  assumes "signed_verify_authority h n get_active get_owner get_posting trx = Inr u"
  shows "\<exists>keys. get_signature_keys h trx = Inr keys \<and>
    (\<forall>p \<in> set (operations trx). operation_backed (set keys) get_active get_owner get_posting p) \<and>
    ((\<exists>q \<in> set (operations trx). required_posting_authorities q \<noteq> []) \<longrightarrow>
     (\<forall>p \<in> set (operations trx). required_active_authorities p = [] \<and>
        required_owner_authorities p = [] \<and> required_other_authorities p = []))"
proof -
  obtain keys where k: "get_signature_keys h trx = Inr keys"
    and v: "verify_authority n get_active get_owner get_posting [] [] [] (operations trx) keys = Inr u"
    using assms by (auto simp: signed_verify_authority_def res_simps)
  show ?thesis
    by (rule exI [of _ keys], intro conjI ballI impI k)
      (use verify_authority_sound [OF v] in blast)+
qed

definition sample_crypto :: fc_crypto where
  "sample_crypto = \<lparr> pack_digest = \<lambda>_. ''digest'', pack_sig_digest = \<lambda>_. ''sig-digest'', recover_key = \<lambda>sig _. Inr sig \<rparr>"

definition key_authority :: "public_key_type \<Rightarrow> authority" where
  "key_authority k = \<lparr> weight_threshold = 1, account_auths = [], key_auths = [(k, 1)] \<rparr>"

definition sample_transfer :: transfer_operation where
  "sample_transfer = \<lparr> tr_from = ''alice'', tr_to = ''bob'', tr_amount = bmt 5, tr_memo = [] \<rparr>"

definition sample_trx :: signed_transaction where
  "sample_trx = \<lparr> ref_block_num = 0, ref_block_prefix = 0, expiration = 100,
     operations = [transfer_op sample_transfer], signatures = [''KA''] \<rparr>"

lemmas sample_trx_defs = sample_crypto_def sample_trx_def sample_transfer_def key_authority_def

lemmas sample_trx_evals = sample_trx_defs get_signature_keys_def
  get_required_authorities_def operation_get_required_authorities_def required_active_authorities_def
  required_owner_authorities_def required_posting_authorities_def required_other_authorities_def
  symbols_distinct flat_insert_def insort_insert_key_def approve_def mk_sign_state_def requireR_def orR_def
  check_authority_id_def check_authority_2 check_authority_body_def signed_by_def no_unused_signatures_def
  remove_unused_signatures_def

theorem verify_authority_backed_witness:
  "signed_verify_authority sample_crypto 2 (\<lambda>_. Inr (key_authority ''KA'')) (\<lambda>_. Inr (key_authority ''KO''))
     (\<lambda>_. Inr (key_authority ''KP'')) sample_trx = Inr () \<and>
   (\<exists>keys. get_signature_keys sample_crypto sample_trx = Inr keys \<and>
     (\<forall>p \<in> set (operations sample_trx). operation_backed (set keys) (\<lambda>_. Inr (key_authority ''KA''))
        (\<lambda>_. Inr (key_authority ''KO'')) (\<lambda>_. Inr (key_authority ''KP'')) p))"
proof -
  have v: "signed_verify_authority sample_crypto 2 (\<lambda>_. Inr (key_authority ''KA'')) (\<lambda>_. Inr (key_authority ''KO''))
     (\<lambda>_. Inr (key_authority ''KP'')) sample_trx = Inr ()"
    by (simp add: signed_verify_authority_def verify_authority_def sample_trx_evals)
  with verify_authority_backed [OF v] show ?thesis by blast
qed

subsection \<open>Minimal sets of signatures\<close>

lemma sorted_fold_flat_insert: "sorted acc \<Longrightarrow> distinct acc \<Longrightarrow> sorted (fold flat_insert xs acc) \<and> distinct (fold flat_insert xs acc)"
  by (induction xs arbitrary: acc)
    (simp_all add: flat_insert_def sorted_insort_insert insort_insert_key_def distinct_insort sorted_insort)

lemma get_required_signatures_set:
  assumes "get_required_signatures h n ga gw gp keys trx = Inr s"
  shows "sorted s \<and> distinct s"
proof -
  from assms have "\<exists>st. s = used_available keys st"
    by (auto simp: get_required_signatures_def res_simps split: prod.splits if_splits)
  then show ?thesis by (auto simp: used_available_def sorted_fold_flat_insert)
qed

lemma flat_insert_remove1: "sorted ks \<Longrightarrow> distinct ks \<Longrightarrow> k \<in> set ks \<Longrightarrow> flat_insert k (remove1 k ks) = ks"
  by (simp add: flat_insert_def insort_insert_key_def insort_remove1)

lemma minimize_step_keeps:
  assumes "verify ks = Inr ()" and "sorted ks" "distinct ks" and "minimize_step verify k ks = Inr ks'"
  shows "verify ks' = Inr () \<and> sorted ks' \<and> distinct ks' \<and> set ks' \<subseteq> set ks"
proof (cases "k \<in> set ks")
  case True
  have "sorted (remove1 k ks)" and "distinct (remove1 k ks)" using assms(2,3) by (simp_all add: sorted_remove1)
  moreover have "ks' = ks \<or> ks' = remove1 k ks \<and> verify ks' = Inr ()"
    using assms(4) flat_insert_remove1 [OF assms(2,3) True]
    by (auto simp: minimize_step_def split: sum.splits exn.splits)
  ultimately show ?thesis using assms(1-3) set_remove1_subset [of k ks] by (elim disjE conjE) simp_all
next
  case False
  with assms show ?thesis by (simp add: minimize_step_def remove1_idem)
qed

text \<open>
  The minimisation. When the signatures \<open>get_required_signatures\<close> computes
  satisfy \<open>verify_authority\<close>, so does the smaller set that
  \<open>minimize_required_signatures\<close> returns, and it takes no key that was not among them.
\<close>

theorem minimize_required_signatures_verifies:
  assumes m: "minimize_required_signatures h n get_active get_owner get_posting keys trx = Inr result"
    and r: "get_required_signatures h n get_active get_owner get_posting keys trx = Inr s"
    and v: "verify_authority n get_active get_owner get_posting [] [] [] (operations trx) s = Inr u"
  shows "verify_authority n get_active get_owner get_posting [] [] [] (operations trx) result = Inr () \<and>
    set result \<subseteq> set s"
proof -
  let ?v = "verify_authority n get_active get_owner get_posting [] [] [] (operations trx)"
  let ?I = "\<lambda>ks. ?v ks = Inr () \<and> sorted ks \<and> distinct ks \<and> set ks \<subseteq> set s"
  have step: "?I ks'" if "?I ks" and "minimize_step ?v k ks = Inr ks'" for k ks ks'
  proof -
    from that(1) have "?v ks = Inr ()" "sorted ks" "distinct ks" "set ks \<subseteq> set s" by simp_all
    with minimize_step_keeps [OF this(1-3) that(2)] show ?thesis by blast
  qed
  from m r have f: "foldR (minimize_step ?v) s s = Inr result"
    by (simp add: minimize_required_signatures_def)
  have "?I s" using v get_required_signatures_set [OF r] by simp
  from foldR_inv [where P = ?I, OF _ f this] have "?I result" using step by blast
  then show ?thesis by simp
qed

theorem minimize_required_signatures_verifies_witness:
  "\<exists>result. minimize_required_signatures sample_crypto 2 (\<lambda>_. Inr (key_authority ''KA''))
       (\<lambda>_. Inr (key_authority ''KO'')) (\<lambda>_. Inr (key_authority ''KP'')) [''KA'', ''KB''] (sample_trx\<lparr>signatures := []\<rparr>)
       = Inr result \<and>
     verify_authority 2 (\<lambda>_. Inr (key_authority ''KA'')) (\<lambda>_. Inr (key_authority ''KO''))
       (\<lambda>_. Inr (key_authority ''KP'')) [] [] [] (operations sample_trx) result = Inr () \<and> set result \<subseteq> {''KA''}"
proof -
  let ?g = "\<lambda>k. \<lambda>_. Inr (key_authority k)"
  let ?t = "sample_trx\<lparr>signatures := []\<rparr>"
  let ?r = "get_required_signatures sample_crypto 2 (?g ''KA'') (?g ''KO'') (?g ''KP'') [''KA'', ''KB''] ?t"
  let ?v = "verify_authority 2 (?g ''KA'') (?g ''KO'') (?g ''KP'') [] [] [] (operations ?t)"
  note ev = sample_trx_evals
  have r: "?r = Inr [''KA'']"
    by (simp add: get_required_signatures_def tryR_def used_available_def ev)
  have v: "?v [''KA''] = Inr ()" by (simp add: verify_authority_def ev)
  have t: "operations ?t = operations sample_trx" by simp
  have e: "?v [] = Inl (Missing_auth ''active'')" by (simp add: verify_authority_def check_got_def ev)
  have m: "minimize_required_signatures sample_crypto 2 (?g ''KA'') (?g ''KO'') (?g ''KP'') [''KA'', ''KB''] ?t = Inr [''KA'']"
    by (simp add: minimize_required_signatures_def r minimize_step_def e [unfolded t] flat_insert_def insort_insert_key_def)
  from minimize_required_signatures_verifies [OF m r v] m show ?thesis by (auto simp: sample_trx_def)
qed

end
