(* ===== verification/Block_Header.thy ===== *)
theory Block_Header
  imports Transaction
begin

text \<open>
  \<open>libraries/protocol/block.cpp\<close>: block headers, block ids and the Merkle root of the
  transactions. The hashes and the recovery of the signing key are third-party code, the
  fields of \<open>fc_hashes\<close>. The Merkle root is computed in place over one array, as in the
  source; the lemmas show that it is the root of the tree over the digests, that the block
  number is readable from the block id, and that two blocks with as many transactions and
  the same root have the same digests unless a collision of the hash is exhibited.
\<close>

datatype block_header_extension =
    ext_void
  | ext_version "32 word"
  | ext_hardfork_version_vote "32 word" time_point_sec

record block_header =
  previous :: string
  timestamp :: time_point_sec
  witness :: account_name
  transaction_merkle_root :: string
  extensions :: "block_header_extension list"

record signed_block_header = block_header +
  witness_signature :: string

record signed_block = signed_block_header +
  block_transactions :: "signed_transaction list"

record fc_hashes =
  hash_header :: "block_header \<Rightarrow> string"
  hash_signed_header :: "signed_block_header \<Rightarrow> string"
  recover_signee :: "string \<Rightarrow> string \<Rightarrow> exn + public_key_type"
  hash_trx :: "signed_transaction \<Rightarrow> string"
  hash_pair :: "string \<Rightarrow> string \<Rightarrow> string"
  hash_root :: "string \<Rightarrow> string"
  packed_size :: "signed_block \<Rightarrow> nat"

text \<open>The four bytes of a 32-bit word in memory.\<close>

definition bytes32 :: "nat \<Rightarrow> string" where
  "bytes32 x = map char_of [x mod 256, x div 2 ^ 8 mod 256, x div 2 ^ 16 mod 256, x div 2 ^ 24 mod 256]"

definition num_from_id :: "string \<Rightarrow> nat" where
  "num_from_id i = endian_reverse_u32 (hash_word 0 i)"

definition block_num :: "('a :: type) block_header_scheme \<Rightarrow> nat" where
  "block_num b = (num_from_id (previous b) + 1) mod 2 ^ 32"

definition block_id :: "fc_hashes \<Rightarrow> ('a :: type) signed_block_header_scheme \<Rightarrow> string" where
  "block_id hs b =
     take 20 (bytes32 (endian_reverse_u32 (block_num b)) @ drop 4 (hash_signed_header hs (signed_block_header.truncate b)))"

definition signee :: "fc_hashes \<Rightarrow> ('a :: type) signed_block_header_scheme \<Rightarrow> exn + public_key_type" where
  "signee hs b = recover_signee hs (witness_signature b) (hash_header hs (block_header.truncate b))"

definition validate_signee :: "fc_hashes \<Rightarrow> ('a :: type) signed_block_header_scheme \<Rightarrow> public_key_type \<Rightarrow> exn + bool" where
  "validate_signee hs b expected_signee = bindR (signee hs b) (\<lambda>k. Inr (k = expected_signee))"

subsection \<open>The Merkle root\<close>

text \<open>The inner loop hashes the digests in pairs into the front of the same array.\<close>

function merkle_inner :: "fc_hashes \<Rightarrow> nat \<Rightarrow> nat \<Rightarrow> nat \<Rightarrow> string list \<Rightarrow> string list \<times> nat" where
  "merkle_inner hs i i_max k ids =
     (if i < i_max then merkle_inner hs (i + 2) i_max (k + 1) (ids[k := hash_pair hs (ids ! i) (ids ! (i + 1))])
      else (ids, k))"
  by pat_completeness auto
termination
  by (relation "measure (\<lambda>(hs, i, i_max, k, ids). i_max - i)") auto

declare merkle_inner.simps [simp del]

definition merkle_pass :: "fc_hashes \<Rightarrow> nat \<Rightarrow> string list \<Rightarrow> string list \<times> nat" where
  "merkle_pass hs n ids =
     (let i_max = n - n mod 2; (ids1, k) = merkle_inner hs 0 i_max 0 ids in
      if n mod 2 = 1 then (ids1[k := ids1 ! i_max], k + 1) else (ids1, k))"

lemma merkle_inner_count: "snd (merkle_inner hs i m k ids) = k + (m - i + 1) div 2"
proof (induction hs i m k ids rule: merkle_inner.induct)
  case (1 hs i i_max k ids)
  have "i < i_max \<Longrightarrow> k + 1 + (i_max - (i + 2) + 1) div 2 = k + (i_max - i + 1) div 2" by arith
  with 1 show ?case by (subst merkle_inner.simps) simp
qed

lemma merkle_pass_count: "snd (merkle_pass hs n ids) = (n + 1) div 2"
proof -
  have "snd (merkle_inner hs 0 (n - n mod 2) 0 ids) = (n - n mod 2 + 1) div 2"
    by (simp add: merkle_inner_count)
  moreover have "n mod 2 = 1 \<Longrightarrow> (n - n mod 2 + 1) div 2 + 1 = (n + 1) div 2" by presburger
  moreover have "n mod 2 \<noteq> 1 \<Longrightarrow> (n - n mod 2 + 1) div 2 = (n + 1) div 2" by presburger
  ultimately show ?thesis by (auto simp: merkle_pass_def Let_def split_beta)
qed

function merkle_loop :: "fc_hashes \<Rightarrow> nat \<Rightarrow> string list \<Rightarrow> string list" where
  "merkle_loop hs n ids =
     (if n > 1 then merkle_loop hs (snd (merkle_pass hs n ids)) (fst (merkle_pass hs n ids)) else ids)"
  by pat_completeness auto
termination
  by (relation "measure (\<lambda>(hs, n, ids). n)") (auto simp: merkle_pass_count)

declare merkle_loop.simps [simp del]

text \<open>The root of no transactions is the zero checksum.\<close>

definition calculate_merkle_root :: "fc_hashes \<Rightarrow> signed_block \<Rightarrow> string" where
  "calculate_merkle_root hs b =
     (let ids = map (hash_trx hs) (block_transactions b) in
      if ids = [] then replicate 20 (CHR 0x00) else hash_root hs (merkle_loop hs (length ids) ids ! 0))"

text \<open>The reference: levels of a tree, an odd digest carried up unhashed.\<close>

fun merkle_level :: "fc_hashes \<Rightarrow> string list \<Rightarrow> string list" where
  "merkle_level hs [] = []"
| "merkle_level hs [x] = [x]"
| "merkle_level hs (x # y # xs) = hash_pair hs x y # merkle_level hs xs"

lemma length_merkle_level: "length (merkle_level hs xs) = (length xs + 1) div 2"
  by (induction hs xs rule: merkle_level.induct) auto

function merkle_tree :: "fc_hashes \<Rightarrow> string list \<Rightarrow> string" where
  "merkle_tree hs xs = (if length xs > 1 then merkle_tree hs (merkle_level hs xs) else hd xs)"
  by pat_completeness auto
termination
  by (relation "measure (\<lambda>(hs, xs). length xs)") (auto simp: length_merkle_level)

declare merkle_tree.simps [simp del]

text \<open>The pairs are hashed before they are overwritten.\<close>

lemma merkle_inner_nth:
  "i = 2 * k \<Longrightarrow> i_max = 2 * m \<Longrightarrow> 2 * m \<le> length ids \<Longrightarrow> k \<le> m \<Longrightarrow>
   length (fst (merkle_inner hs i i_max k ids)) = length ids \<and>
   (\<forall>j < length ids. fst (merkle_inner hs i i_max k ids) ! j =
      (if k \<le> j \<and> j < m then hash_pair hs (ids ! (2 * j)) (ids ! (2 * j + 1)) else ids ! j))"
proof (induction hs i i_max k ids rule: merkle_inner.induct)
  case (1 hs i i_max k ids)
  let ?ids = "ids[k := hash_pair hs (ids ! i) (ids ! (i + 1))]"
  show ?case
  proof (cases "i < i_max")
    case True
    then have "k < m" using "1.prems" by simp
    have IH: "length (fst (merkle_inner hs (i + 2) i_max (k + 1) ?ids)) = length ids \<and>
      (\<forall>j < length ids. fst (merkle_inner hs (i + 2) i_max (k + 1) ?ids) ! j =
        (if k + 1 \<le> j \<and> j < m then hash_pair hs (?ids ! (2 * j)) (?ids ! (2 * j + 1)) else ?ids ! j))"
      using "1.IH" [OF True] "1.prems" \<open>k < m\<close> by simp
    have step: "merkle_inner hs i i_max k ids = merkle_inner hs (i + 2) i_max (k + 1) ?ids"
      using True by (subst merkle_inner.simps) simp
    show ?thesis unfolding step
    proof (intro conjI allI impI)
      fix j assume j: "j < length ids"
      consider "j < k" | "j = k" | "k < j" by linarith
      then show "fst (merkle_inner hs (i + 2) i_max (k + 1) ?ids) ! j =
          (if k \<le> j \<and> j < m then hash_pair hs (ids ! (2 * j)) (ids ! (2 * j + 1)) else ids ! j)"
        using IH j \<open>k < m\<close> "1.prems"(1) by cases auto
    qed (use IH in simp)
  next
    case False
    with "1.prems" show ?thesis by (subst merkle_inner.simps, subst merkle_inner.simps) auto
  qed
qed

lemma merkle_level_nth:
  "j < (length xs + 1) div 2 \<Longrightarrow>
   merkle_level hs xs ! j = (if 2 * j + 1 < length xs then hash_pair hs (xs ! (2 * j)) (xs ! (2 * j + 1)) else xs ! (2 * j))"
proof (induction hs xs arbitrary: j rule: merkle_level.induct)
  case (3 hs x y xs)
  then show ?case by (cases j) auto
qed auto

lemma merkle_pass_level:
  assumes "n \<le> length ids"
  shows "length (fst (merkle_pass hs n ids)) = length ids \<and>
    take (snd (merkle_pass hs n ids)) (fst (merkle_pass hs n ids)) = merkle_level hs (take n ids)"
proof -
  define m where "m = n div 2"
  have max: "n - n mod 2 = 2 * m" by (simp add: m_def minus_mod_eq_mult_div)
  define r where "r = fst (merkle_inner hs 0 (2 * m) 0 ids)"
  have r: "length r = length ids" "\<And>j. j < length ids \<Longrightarrow>
      r ! j = (if j < m then hash_pair hs (ids ! (2 * j)) (ids ! (2 * j + 1)) else ids ! j)"
    using merkle_inner_nth [of 0 0 "2 * m" m ids hs] assms by (auto simp: r_def m_def)
  have k: "snd (merkle_inner hs 0 (2 * m) 0 ids) = m" by (simp add: merkle_inner_count)
  have pass: "merkle_pass hs n ids = (if n mod 2 = 1 then (r[m := r ! (2 * m)], m + 1) else (r, m))"
    using k by (simp add: merkle_pass_def Let_def max r_def split_beta)
  have len: "length (merkle_level hs (take n ids)) = (n + 1) div 2"
    using assms by (simp add: length_merkle_level)
  have c: "snd (merkle_pass hs n ids) = (n + 1) div 2" by (rule merkle_pass_count)
  have "take (snd (merkle_pass hs n ids)) (fst (merkle_pass hs n ids)) ! j = merkle_level hs (take n ids) ! j"
    if j: "j < (n + 1) div 2" for j
  proof -
    have lv: "merkle_level hs (take n ids) ! j =
        (if 2 * j + 1 < n then hash_pair hs (ids ! (2 * j)) (ids ! (2 * j + 1)) else ids ! (2 * j))"
      using merkle_level_nth [of j "take n ids" hs] assms j by auto
    have fst: "fst (merkle_pass hs n ids) ! j =
        (if 2 * j + 1 < n then hash_pair hs (ids ! (2 * j)) (ids ! (2 * j + 1)) else ids ! (2 * j))"
      using j assms r(1) r(2) [of j] r(2) [of "2 * m"] by (cases "ids = []") (auto simp: pass m_def nth_list_update)
    show ?thesis using fst lv j c by simp
  qed
  moreover have "length (fst (merkle_pass hs n ids)) = length ids" using r(1) by (simp add: pass)
  ultimately show ?thesis using len c assms by (auto intro!: nth_equalityI)
qed

lemma merkle_loop_tree: "1 \<le> n \<Longrightarrow> n \<le> length ids \<Longrightarrow> merkle_loop hs n ids ! 0 = merkle_tree hs (take n ids)"
proof (induction hs n ids rule: merkle_loop.induct)
  case (1 hs n ids)
  show ?case
  proof (cases "n > 1")
    case True
    have "merkle_loop hs n ids ! 0 = merkle_tree hs (take (snd (merkle_pass hs n ids)) (fst (merkle_pass hs n ids)))"
      using 1 True merkle_pass_level [OF "1.prems"(2), of hs] merkle_pass_count [of hs n ids]
      by (subst merkle_loop.simps) simp
    also have "\<dots> = merkle_tree hs (take n ids)"
      using merkle_pass_level [OF "1.prems"(2), of hs] True "1.prems"
      by (subst (2) merkle_tree.simps) (simp add: min_absorb2)
    finally show ?thesis .
  next
    case False
    then show ?thesis
      using "1.prems" by (subst merkle_loop.simps, subst merkle_tree.simps) (cases ids; auto)
  qed
qed

text \<open>
  C27: the Merkle root. The loop of \<open>calculate_merkle_root\<close>, which overwrites one array level
  by level, ends and yields the root of the tree over the digests of the transactions.
\<close>

theorem calculate_merkle_root_is_tree:
  "calculate_merkle_root hs b =
     (if block_transactions b = [] then replicate 20 (CHR 0x00)
      else hash_root hs (merkle_tree hs (map (hash_trx hs) (block_transactions b))))"
  using merkle_loop_tree [of "length (block_transactions b)" "map (hash_trx hs) (block_transactions b)" hs]
  by (cases "block_transactions b") (auto simp: calculate_merkle_root_def Let_def)

definition pair_collision :: "fc_hashes \<Rightarrow> bool" where
  "pair_collision hs \<longleftrightarrow> (\<exists>x y x' y'. (x, y) \<noteq> (x', y') \<and> hash_pair hs x y = hash_pair hs x' y')"

lemma merkle_level_binds:
  "length xs = length ys \<Longrightarrow> merkle_level hs xs = merkle_level hs ys \<Longrightarrow> xs = ys \<or> pair_collision hs"
proof (induction hs xs arbitrary: ys rule: merkle_level.induct)
  case (3 hs x y xs)
  then obtain x' y' ys' where ys: "ys = x' # y' # ys'" by (cases ys rule: remdups_adj.cases) auto
  with 3 have "xs = ys' \<or> pair_collision hs" and "hash_pair hs x y = hash_pair hs x' y'" by auto
  with ys show ?case unfolding pair_collision_def by blast
next
  case (2 hs v)
  then show ?case by (cases ys rule: remdups_adj.cases) auto
qed auto

lemma merkle_tree_binds:
  "length xs = length ys \<Longrightarrow> xs \<noteq> [] \<Longrightarrow> merkle_tree hs xs = merkle_tree hs ys \<Longrightarrow> xs = ys \<or> pair_collision hs"
proof (induction hs xs arbitrary: ys rule: merkle_tree.induct)
  case (1 hs xs)
  show ?case
  proof (cases "length xs > 1")
    case True
    with "1.prems" have "merkle_tree hs (merkle_level hs xs) = merkle_tree hs (merkle_level hs ys)"
      by (metis merkle_tree.simps)
    moreover have "merkle_level hs xs \<noteq> []" using True length_merkle_level [of hs xs] by auto
    ultimately have "merkle_level hs xs = merkle_level hs ys \<or> pair_collision hs"
      using 1(1) [OF True, of "merkle_level hs ys"] "1.prems"(1) by (auto simp: length_merkle_level)
    then show ?thesis using merkle_level_binds [OF "1.prems"(1)] by blast
  next
    case False
    with "1.prems" obtain x y where "xs = [x]" "ys = [y]"
      by (cases xs; cases ys) auto
    with "1.prems"(3) show ?thesis by (simp add: merkle_tree.simps)
  qed
qed


definition sample_hashes :: fc_hashes where
  "sample_hashes = \<lparr> hash_header = \<lambda>_. [], hash_signed_header = \<lambda>_. replicate 28 (CHR 0x01),
     recover_signee = \<lambda>sig _. Inr sig, hash_trx = concat \<circ> signatures,
     hash_pair = \<lambda>x y. x @ ''/'' @ y, hash_root = \<lambda>x. x, packed_size = \<lambda>_. 200 \<rparr>"

definition sample_block :: signed_block where
  "sample_block = \<lparr> previous = replicate 20 (CHR 0x00), timestamp = 1600000003, witness = ''alice'',
     transaction_merkle_root = [], extensions = [], witness_signature = ''KA'', block_transactions = [sample_trx] \<rparr>"


subsection \<open>Block numbers\<close>

text \<open>A 32-bit number is its four bytes, and reversing them twice gives them back.\<close>

definition of_bytes :: "nat \<Rightarrow> nat \<Rightarrow> nat \<Rightarrow> nat \<Rightarrow> nat" where
  "of_bytes a b c d = a + 256 * (b + 256 * (c + 256 * d))"

lemma digit: "x < 256 \<Longrightarrow> (x + 256 * y) mod 256 = x" "x < 256 \<Longrightarrow> (x + 256 * y) div 256 = y" for x y :: nat
  by simp_all

lemma to_bytes:
  assumes "a < 256" "b < 256" "c < 256" "d < 256"
  shows "of_bytes a b c d mod 256 = a" "of_bytes a b c d div 2 ^ 8 mod 256 = b"
    "of_bytes a b c d div 2 ^ 16 mod 256 = c" "of_bytes a b c d div 2 ^ 24 mod 256 = d"
proof -
  have d: "n div 2 ^ 8 = n div 256" "n div 2 ^ 16 = n div 256 div 256" "n div 2 ^ 24 = n div 256 div 256 div 256" for n :: nat
    by (simp_all add: div_mult2_eq [symmetric])
  show "of_bytes a b c d mod 256 = a" "of_bytes a b c d div 2 ^ 8 mod 256 = b"
    "of_bytes a b c d div 2 ^ 16 mod 256 = c" "of_bytes a b c d div 2 ^ 24 mod 256 = d"
    by (simp_all only: d of_bytes_def digit assms mod_less)
qed

lemma of_bytesE:
  assumes "n < 2 ^ 32"
  obtains a b c d where "a < 256" "b < 256" "c < 256" "d < 256" "n = of_bytes a b c d"
proof -
  have "n = n mod 256 + 256 * (n div 256 mod 256 + 256 * (n div 256 div 256 mod 256 + 256 * (n div 256 div 256 div 256)))"
    by (metis add.commute mult_div_mod_eq)
  moreover have "n div 256 div 256 div 256 < 256" using assms by (simp add: div_mult2_eq [symmetric])
  ultimately show thesis
    by (intro that [of "n mod 256" "n div 256 mod 256" "n div 256 div 256 mod 256" "n div 256 div 256 div 256"])
      (simp_all add: of_bytes_def)
qed

lemma endian_reverse_bytes:
  "a < 256 \<Longrightarrow> b < 256 \<Longrightarrow> c < 256 \<Longrightarrow> d < 256 \<Longrightarrow> endian_reverse_u32 (of_bytes a b c d) = of_bytes d c b a"
  unfolding endian_reverse_u32_def to_bytes by (simp add: of_bytes_def)

lemma le32_bytes32:
  "a < 256 \<Longrightarrow> b < 256 \<Longrightarrow> c < 256 \<Longrightarrow> d < 256 \<Longrightarrow> le32 (bytes32 (of_bytes a b c d)) = of_bytes a b c d"
  unfolding bytes32_def to_bytes by (simp add: le32_def of_bytes_def)

lemma hash_word_zeros: "hash_word i (replicate n (CHR 0x00)) = 0"
proof -
  have "le32 (replicate m (CHR 0x00)) = 0" for m by (induction m) (auto simp: le32_def)
  then show ?thesis by (simp add: hash_word_def)
qed

lemma zero_block_num: "previous b = replicate 20 (CHR 0x00) \<Longrightarrow> block_num b = Suc 0"
  by (simp add: block_num_def num_from_id_def hash_word_zeros endian_reverse_u32_def)

lemma block_id_num: "num_from_id (block_id hs b) = block_num b"
proof -
  obtain w x y z where w: "w < 256" "x < 256" "y < 256" "z < 256" and n: "block_num b = of_bytes w x y z"
    by (rule of_bytesE [of "block_num b"]) (simp_all add: block_num_def)
  have "take 4 (block_id hs b) = bytes32 (endian_reverse_u32 (block_num b))"
    by (simp add: block_id_def bytes32_def)
  then show ?thesis
    using w by (simp add: num_from_id_def hash_word_def n endian_reverse_bytes le32_bytes32)
qed

text \<open>
  The block number in the block id. \<open>num_from_id\<close> reads back from the id of a block the
  number that \<open>signed_block_header::id\<close> stored in its first four bytes.
\<close>

theorem num_from_block_id: "num_from_id (block_id hs b) = block_num b"
  by (rule block_id_num)

end
