(* ===== verification/Apply.thy ===== *)
theory Apply
  imports Escrow Transfers Market Content_Orders Tokens Accounts Comments Votes Block_Header
begin

text \<open>
  The application of operations and transactions: the remaining evaluators of
  \<open>bmchain_evaluator.cpp\<close> (custom operations and private messages), the registry of
  \<open>database::initialize_evaluators\<close> with \<open>apply_operation\<close>, and \<open>_apply_transaction\<close>.

  A node is what the process brings besides the database: the third-party code, the
  interpreters that plugins registered for custom operations, and whether it produces
  blocks. An interpreter is plugin code: it answers with the exception it threw, if any
  (and whether it was an \<open>fc::exception\<close>), and the database it left.

  The lemmas show that every operation and every transaction keeps the ledger balanced
  and the structure of the database (\<open>chain_inv\<close>), with the three exceptions found in the
  code spelled out as \<open>operation_sound\<close>; that an applied transaction was validated, signed,
  current and new; and that applying it again throws.
\<close>

record node =
  node_fc :: fc_lib
  node_crypto :: fc_crypto
  node_hashes :: fc_hashes
  node_interpreters :: "string \<Rightarrow> (operation \<Rightarrow> database \<Rightarrow> (bool \<times> exn) option \<times> database) option"
  node_producing :: bool

subsection \<open>Custom operations\<close>

definition run_interpreter :: "node \<Rightarrow> string \<Rightarrow> operation \<Rightarrow> database \<Rightarrow> exn + database" where
  "run_interpreter nd iid opn db =
     (case node_interpreters nd iid of
        None \<Rightarrow> Inr db
      | Some eval \<Rightarrow>
          (case eval opn db of
             (None, db1) \<Rightarrow> Inr db1
           | (Some (is_fc, e), db1) \<Rightarrow> if is_fc \<and> node_producing nd then Inl e else Inr db1))"

definition custom_evaluator :: "node \<Rightarrow> custom_operation \<Rightarrow> database \<Rightarrow> exn + database" where
  "custom_evaluator nd p db =
     (if cu_id p = 777 then run_interpreter nd ''private_message'' (custom_op p) db else Inr db)"

definition custom_json_evaluator :: "node \<Rightarrow> custom_json_operation \<Rightarrow> database \<Rightarrow> exn + database" where
  "custom_json_evaluator nd p db = run_interpreter nd (cj_id p) (custom_json_op p) db"

definition custom_binary_evaluator :: "node \<Rightarrow> custom_binary_operation \<Rightarrow> database \<Rightarrow> exn + database" where
  "custom_binary_evaluator nd p db = run_interpreter nd (cb_id p) (custom_binary_op p) db"

text \<open>The bodies of these two are empty.\<close>

definition feed_publish_evaluator :: "feed_publish_operation \<Rightarrow> database \<Rightarrow> exn + database" where
  "feed_publish_evaluator p db = Inr db"

definition convert_evaluator :: "convert_operation \<Rightarrow> database \<Rightarrow> exn + database" where
  "convert_evaluator p db = Inr db"

subsection \<open>Private messages\<close>

definition private_message_evaluator :: "fc_lib \<Rightarrow> private_message_operation \<Rightarrow> database \<Rightarrow> exn + database" where
  "private_message_evaluator fc p db =
     (case messages db of
        None \<Rightarrow> Inr db
      | Some t \<Rightarrow>
          bindR (assertR (pm_from p \<noteq> pm_to p) ''pm.from != pm.to'') (\<lambda>_.
          bindR (assertR (pm_from_memo_key p \<noteq> pm_to_memo_key p) ''pm.from_memo_key != pm.to_memo_key'') (\<lambda>_.
          bindR (assertR (pm_sent_time p \<noteq> 0) ''pm.sent_time != 0'') (\<lambda>_.
          bindR (assertR (length (pm_encrypted_message p) \<ge> 32) ''pm.encrypted_message.size() >= 32'') (\<lambda>_.
          bindR (emplace no_conflict (\<lambda>_.
              bindR (from_hex fc (pm_encrypted_message p) (pm_message_size p)) (\<lambda>bytes.
              Inr (default_message_object
                \<lparr> ms_from := pm_from p, ms_to := pm_to p, ms_from_memo_key := pm_from_memo_key p,
                  ms_to_memo_key := pm_to_memo_key p, ms_checksum := pm_checksum p,
                  ms_sent_time := pm_sent_time p, ms_receive_time := head_block_time db,
                  ms_encrypted_message :=
                    take (pm_message_size p) (bytes @ replicate (pm_message_size p) (CHR 0x00)) \<rparr>))) t) (\<lambda>(t', _).
          Inr (db\<lparr>messages := Some t'\<rparr>)))))))"

subsection \<open>Dispatch\<close>

text \<open>
  \<open>get_evaluator\<close> reads the slot of the registry for the operation. No evaluator is
  registered for \<open>prove_authority_operation\<close>, so that slot holds a null pointer.
\<close>

definition apply_operation :: "node \<Rightarrow> operation \<Rightarrow> database \<Rightarrow> exn + database" where
  "apply_operation nd opn =
     (let fc = node_fc nd in
      case opn of
        vote_op p \<Rightarrow> vote_evaluator fc p
      | comment_op p \<Rightarrow> comment_evaluator fc p
      | comment_options_op p \<Rightarrow> comment_options_evaluator p
      | delete_comment_op p \<Rightarrow> delete_comment_evaluator p
      | transfer_op p \<Rightarrow> transfer_evaluator fc p
      | transfer_to_vesting_op p \<Rightarrow> transfer_to_vesting_evaluator p
      | withdraw_savings_op p \<Rightarrow> withdraw_savings_evaluator fc p
      | set_withdraw_savings_route_op p \<Rightarrow> set_withdraw_savings_route_evaluator p
      | account_create_op p \<Rightarrow> account_create_evaluator fc p
      | account_update_op p \<Rightarrow> account_update_evaluator fc p
      | witness_update_op p \<Rightarrow> witness_update_evaluator p
      | account_witness_vote_op p \<Rightarrow> account_witness_vote_evaluator fc p
      | account_witness_proxy_op p \<Rightarrow> account_witness_proxy_evaluator fc p
      | custom_op p \<Rightarrow> custom_evaluator nd p
      | custom_binary_op p \<Rightarrow> custom_binary_evaluator nd p
      | custom_json_op p \<Rightarrow> custom_json_evaluator nd p
      | feed_publish_op p \<Rightarrow> feed_publish_evaluator p
      | convert_op p \<Rightarrow> convert_evaluator p
      | limit_order_create_op p \<Rightarrow> limit_order_create_evaluator fc p
      | limit_order_create2_op p \<Rightarrow> limit_order_create2_evaluator fc p
      | limit_order_cancel_op p \<Rightarrow> limit_order_cancel_evaluator fc p
      | challenge_authority_op p \<Rightarrow> challenge_authority_evaluator p
      | request_account_recovery_op p \<Rightarrow> request_account_recovery_evaluator p
      | recover_account_op p \<Rightarrow> recover_account_evaluator p
      | change_recovery_account_op p \<Rightarrow> change_recovery_account_evaluator p
      | escrow_transfer_op p \<Rightarrow> escrow_transfer_evaluator fc p
      | escrow_approve_op p \<Rightarrow> escrow_approve_evaluator fc p
      | escrow_dispute_op p \<Rightarrow> escrow_dispute_evaluator p
      | escrow_release_op p \<Rightarrow> escrow_release_evaluator fc p
      | transfer_to_savings_op p \<Rightarrow> transfer_to_savings_evaluator fc p
      | transfer_from_savings_op p \<Rightarrow> transfer_from_savings_evaluator p
      | cancel_transfer_from_savings_op p \<Rightarrow> cancel_transfer_from_savings_evaluator fc p
      | decline_voting_rights_op p \<Rightarrow> decline_voting_rights_evaluator p
      | reset_account_op p \<Rightarrow> reset_account_evaluator p
      | set_reset_account_op p \<Rightarrow> set_reset_account_evaluator p
      | claim_reward_balance_op p \<Rightarrow> claim_reward_balance_evaluator fc p
      | account_create_with_delegation_op p \<Rightarrow> account_create_with_delegation_evaluator fc p
      | delegate_vesting_shares_op p \<Rightarrow> delegate_vesting_shares_evaluator fc p
      | encrypted_content_op p \<Rightarrow> encrypted_content_evaluator fc p
      | content_order_create_op p \<Rightarrow> content_order_create_evaluator fc p
      | content_order_cancel_op p \<Rightarrow> content_order_cancel_evaluator fc p
      | content_order_cancel_by_author_op p \<Rightarrow> content_order_cancel_by_author_evaluator fc p
      | private_message_op p \<Rightarrow> private_message_evaluator fc p
      | custom_token_create_op p \<Rightarrow> custom_token_create_evaluator fc p
      | custom_token_transfer_op p \<Rightarrow> custom_token_transfer_evaluator fc p
      | custom_token_setup_emissions_op p \<Rightarrow> custom_token_setup_emissions_evaluator p
      | custom_token_set_setup_parameters_op p \<Rightarrow> custom_token_set_setup_parameters_evaluator p
      | prove_authority_op \<Rightarrow> (\<lambda>db. Inl (Logic_error ''null evaluator'')))"

subsection \<open>Transactions\<close>

text \<open>The flags of \<open>database::validation_steps\<close> that the application of transactions and blocks reads.\<close>

unbundle bit_operations_syntax

type_synonym skip_flags = "32 word"

definition skip_nothing :: skip_flags where "skip_nothing = 0"
definition skip_transaction_signatures :: skip_flags where "skip_transaction_signatures = push_bit 1 1"
definition skip_transaction_dupe_check :: skip_flags where "skip_transaction_dupe_check = push_bit 2 1"
definition skip_tapos_check :: skip_flags where "skip_tapos_check = push_bit 5 1"
definition skip_authority_check :: skip_flags where "skip_authority_check = push_bit 6 1"
definition skip_witness_signature :: skip_flags where "skip_witness_signature = push_bit 0 1"
definition skip_merkle_check :: skip_flags where "skip_merkle_check = push_bit 7 1"
definition skip_undo_history_check :: skip_flags where "skip_undo_history_check = push_bit 8 1"
definition skip_witness_schedule_check :: skip_flags where "skip_witness_schedule_check = push_bit 9 1"
definition skip_validate :: skip_flags where "skip_validate = push_bit 10 1"

definition skips :: "skip_flags \<Rightarrow> skip_flags \<Rightarrow> bool" where
  "skips skip m \<longleftrightarrow> (skip AND m) \<noteq> 0"

definition shared_db_merkle_blocks :: "nat list" where
  "shared_db_merkle_blocks = [3705111, 3705120, 3713940, 3714132, 3714567, 3714588, 4138790, 5435426]"

definition get_auth :: "(account_authority_object \<Rightarrow> authority) \<Rightarrow> database \<Rightarrow> authority_getter" where
  "get_auth sel db a =
     bindR (get_by (\<lambda>r. aa_account r = a) (account_authorities db)) (\<lambda>(_, r). Inr (sel r))"

definition check_signatures :: "node \<Rightarrow> signed_transaction \<Rightarrow> database \<Rightarrow> exn + unit" where
  "check_signatures nd trx db =
     (case signed_verify_authority (node_crypto nd) MAX_SIG_CHECK_DEPTH (get_auth aa_active db) (get_auth aa_owner db)
        (get_auth aa_posting db) trx of
        Inl (Missing_auth kind) \<Rightarrow>
          if kind = ''active'' \<and> head_block_num db + 1 \<in> set shared_db_merkle_blocks then Inr ()
          else Inl (Missing_auth kind)
      | r \<Rightarrow> r)"

definition check_tapos :: "signed_transaction \<Rightarrow> database \<Rightarrow> exn + unit" where
  "check_tapos trx db =
     bindR (get_id (block_summaries db) (ref_block_num trx)) (\<lambda>s.
     if ref_block_prefix trx = hash_word 1 (bs_block_id s) then Inr () else Inl Tapos_mismatch)"

definition check_expiration :: "signed_transaction \<Rightarrow> database \<Rightarrow> exn + unit" where
  "check_expiration trx db =
     (let now = head_block_time db in
      if \<not> expiration trx \<le> now + MAX_TIME_UNTIL_EXPIRATION then Inl Tx_expiration
      else if \<not> now < expiration trx then Inl Tx_expiration
      else Inr ())"

definition apply_transaction :: "node \<Rightarrow> skip_flags \<Rightarrow> signed_transaction \<Rightarrow> database \<Rightarrow> exn + database" where
  "apply_transaction nd skip trx db =
     (let trx_id = transaction_id (node_crypto nd) trx in
      bindR (if skips skip skip_validate then Inr () else transaction_validate (node_fc nd) trx) (\<lambda>_.
      bindR (assertR (skips skip skip_transaction_dupe_check \<or>
          find_by (\<lambda>t. tx_trx_id t = trx_id) (transactions db) = None) ''Duplicate transaction check failed'') (\<lambda>_.
      bindR (if skips skip (skip_transaction_signatures OR skip_authority_check) then Inr ()
             else check_signatures nd trx db) (\<lambda>_.
      bindR (if head_block_num db > 0
             then bindR (if skips skip skip_tapos_check then Inr () else check_tapos trx db) (\<lambda>_. check_expiration trx db)
             else Inr ()) (\<lambda>_.
      bindR (if skips skip skip_transaction_dupe_check then Inr db
             else bindR (create_transaction (\<lambda>_. Inr \<lparr> tx_trx_id = trx_id, tx_expiration = expiration trx \<rparr>) db)
                    (\<lambda>(db1, _). Inr db1)) (\<lambda>db1.
      foldR (apply_operation nd) (operations trx) db1))))))"

subsection \<open>Operations keep the ledger and the structure of the database\<close>

text \<open>What plugins promise: their interpreters write the containers of the plugin only.\<close>

definition interpreters_apart :: "node \<Rightarrow> bool" where
  "interpreters_apart nd \<longleftrightarrow>
     (\<forall>iid eval opn db e db'. node_interpreters nd iid = Some eval \<longrightarrow> eval opn db = (e, db') \<longrightarrow>
        keeps_gaps db db' \<and> quiet db db')"

text \<open>
  The operations that do not keep the ledger: an open content order given a new price, a
  token creation with a negative fee, and an order whose price is not in what it sells.
\<close>

definition operation_sound :: "operation \<Rightarrow> database \<Rightarrow> bool" where
  "operation_sound opn db \<longleftrightarrow>
     (case opn of
        content_order_create_op p \<Rightarrow> order_not_repriced p db
      | custom_token_create_op p \<Rightarrow> amount (tk_custom_token_creation_fee p) \<ge> 0
      | limit_order_create2_op p \<Rightarrow>
          symbol (lt_amount_to_sell p) = BMT_SYMBOL \<longrightarrow> symbol (base (lt_exchange_rate p)) = BMT_SYMBOL
      | _ \<Rightarrow> True)"

definition is_escrow_operation :: "operation \<Rightarrow> bool" where
  "is_escrow_operation opn \<longleftrightarrow>
     (case opn of escrow_transfer_op _ \<Rightarrow> True | escrow_approve_op _ \<Rightarrow> True | escrow_dispute_op _ \<Rightarrow> True
      | escrow_release_op _ \<Rightarrow> True | _ \<Rightarrow> False)"

text \<open>
  The structure the ledger relies on: rows in the order of their ids, well-formed escrows,
  one reward fund.
\<close>

definition chain_inv :: "database \<Rightarrow> bool" where
  "chain_inv db \<longleftrightarrow> db_sorted db \<and> escrows_ok (escrows db) \<and> length (fund_ids db) = 1"

lemma chain_inv_quiet: "quiet db db' \<Longrightarrow> chain_inv db \<Longrightarrow> chain_inv db'"
  by (auto simp: chain_inv_def quiet_defs)

lemma chain_inv_calm: "calm db db' \<Longrightarrow> escrows_ok (escrows db') \<Longrightarrow> chain_inv db \<Longrightarrow> chain_inv db'"
  by (auto simp: chain_inv_def quiet_defs)

lemma run_interpreter_apart:
  assumes "run_interpreter nd iid opn db = Inr db'" and "interpreters_apart nd"
  shows "keeps_gaps db db' \<and> quiet db db'"
  using assms unfolding interpreters_apart_def
  by (auto simp: run_interpreter_def split: option.splits prod.splits if_splits)

lemma custom_apart:
  assumes "interpreters_apart nd"
  shows "custom_evaluator nd p1 db = Inr db' \<Longrightarrow> keeps_gaps db db' \<and> quiet db db'"
    and "custom_json_evaluator nd p2 db = Inr db' \<Longrightarrow> keeps_gaps db db' \<and> quiet db db'"
    and "custom_binary_evaluator nd p3 db = Inr db' \<Longrightarrow> keeps_gaps db db' \<and> quiet db db'"
  using run_interpreter_apart [OF _ assms]
  by (auto simp: custom_evaluator_def custom_json_evaluator_def custom_binary_evaluator_def split: if_splits)

lemma private_message_apart:
  assumes "private_message_evaluator fc p db = Inr db'"
  shows "keeps_gaps db db' \<and> quiet db db'"
  using assms
  by (auto simp: private_message_evaluator_def res_simps keeps_gaps_def gap_defs quiet_defs db_sorted_def fund_ids_def
      split: option.splits)

lemmas no_effect_defs = transfer_to_vesting_evaluator_def transfer_from_savings_evaluator_def
  feed_publish_evaluator_def convert_evaluator_def challenge_authority_evaluator_def reset_account_evaluator_def
  set_reset_account_evaluator_def

lemma limit_order_quiet:
  "limit_order_create_evaluator fc p1 db = Inr db' \<Longrightarrow> db_sorted db \<Longrightarrow> quiet db db'"
  "limit_order_create2_evaluator fc p2 db = Inr db' \<Longrightarrow> db_sorted db \<Longrightarrow> quiet db db'"
  "limit_order_cancel_evaluator fc p3 db = Inr db' \<Longrightarrow> db_sorted db \<Longrightarrow> quiet db db'"
  by (auto simp: limit_order_create_evaluator_def limit_order_create2_evaluator_def limit_order_cancel_evaluator_def
      res_simps dest: limit_order_place_quiet cancel_order_quiet)

lemmas evaluator_quiets = transfer_quiet withdraw_savings_quiet set_withdraw_savings_route_quiet
  transfer_to_savings_quiet cancel_transfer_from_savings_quiet claim_reward_balance_quiet
  delegate_vesting_shares_quiet limit_order_quiet content_order_create_quiet content_order_cancel_quiet
  content_order_cancel_by_author_quiet token_quiets custom_token_create_quiet custom_token_transfer_quiet
  account_quiets recover_account_quiet account_update_quiet account_witness_vote_quiet
  account_witness_proxy_quiet account_create_quiet account_create_with_delegation_quiet delete_comment_quiet
  comment_options_quiet comment_quiet encrypted_content_quiet vote_quiet

lemma apply_operation_quiet:
  assumes "apply_operation nd opn db = Inr db'" and "db_sorted db" and "interpreters_apart nd"
    and "\<not> is_escrow_operation opn"
  shows "quiet db db'"
  using assms private_message_apart custom_apart [OF assms(3)]
  by (cases opn) (auto simp: apply_operation_def Let_def no_effect_defs is_escrow_operation_def dest: evaluator_quiets)

lemma apply_operation_calm:
  assumes "apply_operation nd opn db = Inr db'" and "db_sorted db" and "interpreters_apart nd"
  shows "calm db db'"
proof (cases "is_escrow_operation opn")
  case True
  with assms(1,2) show ?thesis
    by (cases opn) (auto simp: apply_operation_def Let_def is_escrow_operation_def
        dest: escrow_transfer_calm escrow_approve_calm escrow_dispute_calm escrow_release_calm)
next
  case False
  with assms show ?thesis by (blast intro: quiet_calm apply_operation_quiet)
qed

context fc_exact
begin

lemma limit_order_gaps:
  "limit_order_create2_evaluator fc p2 db = Inr db' \<Longrightarrow>
    (symbol (lt_amount_to_sell p2) = BMT_SYMBOL \<longrightarrow> symbol (base (lt_exchange_rate p2)) = BMT_SYMBOL) \<Longrightarrow> keeps_gaps db db'"
  "limit_order_cancel_evaluator fc p3 db = Inr db' \<Longrightarrow> keeps_gaps db db'"
  by (auto simp: limit_order_create2_evaluator_def limit_order_cancel_evaluator_def res_simps
      elim!: limit_order_place_gaps cancel_order_gaps)

lemmas evaluator_gaps = transfer_gaps withdraw_savings_gaps set_withdraw_savings_route_gaps
  transfer_to_savings_gaps cancel_transfer_from_savings_gaps claim_reward_balance_gaps
  delegate_vesting_shares_gaps limit_order_gaps limit_order_create_gaps content_order_create_gaps
  content_order_cancel_gaps content_order_cancel_by_author_gaps token_gaps custom_token_create_gaps
  account_gaps recover_account_gaps account_update_gaps account_witness_vote_gaps
  account_witness_proxy_gaps account_create_gaps account_create_with_delegation_gaps delete_comment_gaps
  comment_options_gaps comment_gaps encrypted_content_gaps vote_gaps escrow_transfer_gaps escrow_approve_gaps
  escrow_dispute_gaps

lemma validate_fees:
  "account_create_validate fc p1 = Inr () \<Longrightarrow> amount (ac_fee p1) \<ge> 0"
  "account_create_with_delegation_validate fc p2 = Inr () \<Longrightarrow> amount (ad_fee p2) \<ge> 0"
  "escrow_transfer_validate fc p3 = Inr () \<Longrightarrow> symbol (et_fee p3) = BMT_SYMBOL"
  by (auto simp: account_create_validate_def account_create_with_delegation_validate_def escrow_transfer_validate_def
      res_simps)

lemma apply_operation_gaps:
  assumes "apply_operation nd opn db = Inr db'" and "node_fc nd = fc" and "interpreters_apart nd"
    and "operation_validate fc opn = Inr ()" and "operation_sound opn db" and "chain_inv db"
  shows "keeps_gaps db db'"
proof -
  have inv: "db_sorted db" "escrows_ok (escrows db)" "length (fund_ids db) = 1"
    using assms(6) by (auto simp: chain_inv_def)
  note rules = evaluator_gaps private_message_apart custom_apart [OF assms(3)]
    custom_token_create_gaps [OF _ inv(3)] account_create_gaps [OF _ inv(3)]
  show ?thesis
    using assms(1) [unfolded apply_operation_def Let_def assms(2)] assms(4,5) inv(1,2)
    by (cases opn) (auto simp: no_effect_defs operation_sound_def operation_validate_def
        dest!: validate_fees dest: rules escrow_release_gaps_ok)
qed

lemma apply_operation_inv:
  assumes "apply_operation nd opn db = Inr db'" and "node_fc nd = fc" and "interpreters_apart nd"
    and "operation_validate fc opn = Inr ()" and "chain_inv db"
  shows "chain_inv db'"
proof (cases "is_escrow_operation opn")
  case True
  have inv: "db_sorted db" "escrows_ok (escrows db)" using assms(5) by (auto simp: chain_inv_def)
  have "escrows_ok (escrows db')"
    using True assms(1) [unfolded apply_operation_def Let_def assms(2)] assms(4) inv(2)
    by (cases opn) (auto simp: is_escrow_operation_def operation_validate_def
        dest: escrow_transfer_ok escrow_approve_ok escrow_dispute_ok escrow_release_gaps_ok)
  then show ?thesis
    using apply_operation_calm [OF assms(1) inv(1) assms(3)] assms(5) by (blast intro: chain_inv_calm)
next
  case False
  then show ?thesis
    using apply_operation_quiet [OF assms(1) _ assms(3)] assms(5) by (auto simp: chain_inv_def quiet_defs)
qed

end

subsection \<open>Sequences of steps\<close>

text \<open>
  The contract of anything that moves the chain forward: a step that succeeds from a state
  it is admissible in keeps the gaps and the structure. A loop over admissible steps does.
\<close>

fun run_admissible :: "('a \<Rightarrow> database \<Rightarrow> exn + database) \<Rightarrow> ('a \<Rightarrow> database \<Rightarrow> bool) \<Rightarrow> 'a list \<Rightarrow> database \<Rightarrow> bool" where
  "run_admissible step ok [] db = True"
| "run_admissible step ok (x # xs) db =
     (ok x db \<and> (case step x db of Inl _ \<Rightarrow> True | Inr db' \<Rightarrow> run_admissible step ok xs db'))"

locale ledger_machine =
  fixes step :: "'a \<Rightarrow> database \<Rightarrow> exn + database" and admissible :: "'a \<Rightarrow> database \<Rightarrow> bool"
  assumes step_gaps: "step x db = Inr db' \<Longrightarrow> admissible x db \<Longrightarrow> chain_inv db \<Longrightarrow> keeps_gaps db db'"
    and step_inv: "step x db = Inr db' \<Longrightarrow> admissible x db \<Longrightarrow> chain_inv db \<Longrightarrow> chain_inv db'"
begin

lemma run_keeps:
  "foldR step xs db = Inr db' \<Longrightarrow> run_admissible step admissible xs db \<Longrightarrow> chain_inv db \<Longrightarrow>
   keeps_gaps db db' \<and> chain_inv db'"
proof (induction xs arbitrary: db)
  case (Cons x xs)
  then obtain db1 where s: "step x db = Inr db1" and r: "foldR step xs db1 = Inr db'"
    by (auto simp: res_simps)
  with Cons.prems(2) have ok: "admissible x db" "run_admissible step admissible xs db1" by simp_all
  from step_gaps [OF s ok(1) Cons.prems(3)] Cons.IH [OF r ok(2) step_inv [OF s ok(1) Cons.prems(3)]]
  show ?case by (blast intro: keeps_gaps_trans)
qed simp

end

text \<open>The same contract as a relation between the states before and after.\<close>

definition orderly :: "database \<Rightarrow> database \<Rightarrow> bool" where
  "orderly db db' \<longleftrightarrow> (chain_inv db \<longrightarrow> keeps_gaps db db' \<and> chain_inv db')"

named_theorems orderlies "steps of a block that keep the ledger and the structure"

lemma orderly_refl [simp]: "orderly db db"
  by (simp add: orderly_def)

lemma orderly_trans: "orderly db1 db2 \<Longrightarrow> orderly db2 db3 \<Longrightarrow> orderly db1 db3"
  by (auto simp: orderly_def intro: keeps_gaps_trans)

lemma orderlyI: "keeps_gaps db db' \<Longrightarrow> quiet db db' \<Longrightarrow> orderly db db'"
  by (auto simp: orderly_def intro: chain_inv_quiet)

lemma foldR_orderly:
  "(\<And>x s s'. x \<in> set xs \<Longrightarrow> f x s = Inr s' \<Longrightarrow> orderly s s') \<Longrightarrow> foldR f xs db = Inr db' \<Longrightarrow> orderly db db'"
  by (erule foldR_frame [rotated 3]) (auto intro: orderly_trans)

text \<open>The containers that hold no BMT and no vesting shares.\<close>

lemma table_orderly [orderlies]:
  "modify_account_authority i m1 db = Inr db' \<Longrightarrow> orderly db db'"
  "remove_account_authority i db = Inr db' \<Longrightarrow> orderly db db'"
  "modify_witness i m2 db = Inr db' \<Longrightarrow> orderly db db'"
  "remove_witness i db = Inr db' \<Longrightarrow> orderly db db'"
  "modify_witness_vote i m3 db = Inr db' \<Longrightarrow> orderly db db'"
  "remove_witness_vote i db = Inr db' \<Longrightarrow> orderly db db'"
  "modify_comment i m4 db = Inr db' \<Longrightarrow> orderly db db'"
  "remove_comment i db = Inr db' \<Longrightarrow> orderly db db'"
  "modify_comment_vote i m5 db = Inr db' \<Longrightarrow> orderly db db'"
  "remove_comment_vote i db = Inr db' \<Longrightarrow> orderly db db'"
  "modify_withdraw_route i m6 db = Inr db' \<Longrightarrow> orderly db db'"
  "remove_withdraw_route i db = Inr db' \<Longrightarrow> orderly db db'"
  "modify_decline_request i m7 db = Inr db' \<Longrightarrow> orderly db db'"
  "remove_decline_request i db = Inr db' \<Longrightarrow> orderly db db'"
  "modify_recovery_request i m8 db = Inr db' \<Longrightarrow> orderly db db'"
  "remove_recovery_request i db = Inr db' \<Longrightarrow> orderly db db'"
  "modify_change_recovery i m9 db = Inr db' \<Longrightarrow> orderly db db'"
  "remove_change_recovery i db = Inr db' \<Longrightarrow> orderly db db'"
  "modify_owner_history i m10 db = Inr db' \<Longrightarrow> orderly db db'"
  "remove_owner_history i db = Inr db' \<Longrightarrow> orderly db db'"
  "modify_delegation i m11 db = Inr db' \<Longrightarrow> orderly db db'"
  "remove_delegation i db = Inr db' \<Longrightarrow> orderly db db'"
  "modify_delegation_expiration i m12 db = Inr db' \<Longrightarrow> orderly db db'"
  "remove_delegation_expiration i db = Inr db' \<Longrightarrow> orderly db db'"
  "modify_custom_token i m13 db = Inr db' \<Longrightarrow> orderly db db'"
  "remove_custom_token i db = Inr db' \<Longrightarrow> orderly db db'"
  "modify_account_balance i m14 db = Inr db' \<Longrightarrow> orderly db db'"
  "remove_account_balance i db = Inr db' \<Longrightarrow> orderly db db'"
  "modify_block_summary i m15 db = Inr db' \<Longrightarrow> orderly db db'"
  "remove_block_summary i db = Inr db' \<Longrightarrow> orderly db db'"
  by (rule orderlyI, (auto simp: keeps_gaps_def dest!: table_gaps)[1], (auto dest!: quiets)[1])+

lemma single_orderly [orderlies]:
  "modify_wso f db = Inr db' \<Longrightarrow> orderly db db'"
  "modify_hfo g db = Inr db' \<Longrightarrow> orderly db db'"
  by (rule orderlyI, (auto simp: keeps_gaps_def dest!: table_gaps)[1], (auto dest!: quiets)[1])+

text \<open>A node whose third-party code keeps what it documents.\<close>

locale exact_node =
  fixes nd :: node
  assumes node_exact: "fc_exact (node_fc nd)" and node_apart: "interpreters_apart nd"

sublocale exact_node \<subseteq> fc_exact "node_fc nd"
  by (rule node_exact)

sublocale exact_node \<subseteq> ops: ledger_machine "apply_operation nd"
    "\<lambda>opn db. operation_validate (node_fc nd) opn = Inr () \<and> operation_sound opn db"
  by unfold_locales
    (auto intro: apply_operation_gaps [OF _ refl node_apart] apply_operation_inv [OF _ refl node_apart])

subsection \<open>Transactions\<close>

lemma create_transaction_effect:
  "create_transaction con db = Inr (db', i) \<Longrightarrow> \<exists>t. db' = db\<lparr>transactions := t\<rparr>"
  by (auto simp: create_transaction_def res_simps)

lemma transactions_irrelevant [simp]:
  "chain_inv (db\<lparr>transactions := t\<rparr>) = chain_inv db" "db_sorted (db\<lparr>transactions := t\<rparr>) = db_sorted db"
  "keeps_gaps (db\<lparr>transactions := t\<rparr>) db' = keeps_gaps db db'"
  by (simp_all add: chain_inv_def db_sorted_def fund_ids_def keeps_gaps_def gap_defs)

definition transaction_sound :: "node \<Rightarrow> signed_transaction \<Rightarrow> database \<Rightarrow> bool" where
  "transaction_sound nd trx db \<longleftrightarrow>
     transaction_validate (node_fc nd) trx = Inr () \<and>
     (\<forall>t. run_admissible (apply_operation nd) operation_sound (operations trx) (db\<lparr>transactions := t\<rparr>))"

lemma run_admissible_conj:
  "(\<forall>x \<in> set xs. P x) \<Longrightarrow> run_admissible step ok xs db \<Longrightarrow> run_admissible step (\<lambda>x db. P x \<and> ok x db) xs db"
  by (induction xs arbitrary: db) (auto split: sum.splits)

text \<open>What a successful run has checked, and the state its operations start from.\<close>

lemma apply_transactionE:
  assumes "apply_transaction nd skip trx db = Inr db'"
  obtains t where "foldR (apply_operation nd) (operations trx) (db\<lparr>transactions := t\<rparr>) = Inr db'"
    and "skips skip skip_transaction_dupe_check \<Longrightarrow> t = transactions db"
    and "\<not> skips skip skip_transaction_dupe_check \<Longrightarrow>
      find_by (\<lambda>t. tx_trx_id t = transaction_id (node_crypto nd) trx) (transactions db) = None \<and>
      (\<exists>i. emplace transaction_conflict
        (\<lambda>_. Inr \<lparr> tx_trx_id = transaction_id (node_crypto nd) trx, tx_expiration = expiration trx \<rparr>) (transactions db)
        = Inr (t, i))"
    and "\<not> skips skip skip_validate \<Longrightarrow> transaction_validate (node_fc nd) trx = Inr ()"
    and "\<not> skips skip (skip_transaction_signatures OR skip_authority_check) \<Longrightarrow> check_signatures nd trx db = Inr ()"
    and "head_block_num db > 0 \<Longrightarrow> \<not> skips skip skip_tapos_check \<Longrightarrow> check_tapos trx db = Inr ()"
    and "head_block_num db > 0 \<Longrightarrow> check_expiration trx db = Inr ()"
proof -
  from assms obtain db1 where ops: "foldR (apply_operation nd) (operations trx) db1 = Inr db'"
    and rec: "(if skips skip skip_transaction_dupe_check then Inr db
      else bindR (create_transaction (\<lambda>_. Inr \<lparr> tx_trx_id = transaction_id (node_crypto nd) trx,
        tx_expiration = expiration trx \<rparr>) db) (\<lambda>(db1, _). Inr db1)) = Inr db1"
    and chk: "(if skips skip skip_validate then Inr () else transaction_validate (node_fc nd) trx) = Inr ()"
      "skips skip skip_transaction_dupe_check \<or>
        find_by (\<lambda>t. tx_trx_id t = transaction_id (node_crypto nd) trx) (transactions db) = None"
      "(if skips skip (skip_transaction_signatures OR skip_authority_check) then Inr () else check_signatures nd trx db) = Inr ()"
      "(if head_block_num db > 0
        then bindR (if skips skip skip_tapos_check then Inr () else check_tapos trx db) (\<lambda>_. check_expiration trx db)
        else Inr ()) = Inr ()"
    unfolding apply_transaction_def Let_def bindR_eq_Inr assertR_eq_Inr by auto
  show thesis
  proof (cases "skips skip skip_transaction_dupe_check")
    case True
    with rec have "db1 = db\<lparr>transactions := transactions db\<rparr>" by simp
    with ops chk True show thesis
      by (intro that [of "transactions db"]) (auto simp: res_simps split: if_splits)
  next
    case False
    with rec obtain t i where "emplace transaction_conflict
        (\<lambda>_. Inr \<lparr> tx_trx_id = transaction_id (node_crypto nd) trx, tx_expiration = expiration trx \<rparr>) (transactions db)
        = Inr (t, i)" and "db1 = db\<lparr>transactions := t\<rparr>"
      by (auto simp: create_transaction_def res_simps)
    with ops chk False show thesis
      by (intro that [of t]) (auto simp: res_simps split: if_splits)
  qed
qed

lemma apply_transaction_passed:
  assumes "apply_transaction nd skip trx db = Inr db'"
  shows "\<not> skips skip skip_transaction_dupe_check \<Longrightarrow>
      find_by (\<lambda>t. tx_trx_id t = transaction_id (node_crypto nd) trx) (transactions db) = None"
    and "\<not> skips skip skip_validate \<Longrightarrow> transaction_validate (node_fc nd) trx = Inr ()"
    and "\<not> skips skip (skip_transaction_signatures OR skip_authority_check) \<Longrightarrow> check_signatures nd trx db = Inr ()"
    and "head_block_num db > 0 \<Longrightarrow> \<not> skips skip skip_tapos_check \<Longrightarrow> check_tapos trx db = Inr ()"
    and "head_block_num db > 0 \<Longrightarrow> check_expiration trx db = Inr ()"
  by (rule apply_transactionE [OF assms], blast)+

context exact_node
begin

lemma apply_transaction_keeps:
  assumes "apply_transaction nd skip trx db = Inr db'" and "transaction_sound nd trx db" and "chain_inv db"
  shows "keeps_gaps db db' \<and> chain_inv db'"
proof -
  from assms(1) obtain t where r: "foldR (apply_operation nd) (operations trx) (db\<lparr>transactions := t\<rparr>) = Inr db'"
    by (rule apply_transactionE)
  have "\<forall>p \<in> set (operations trx). operation_validate (node_fc nd) p = Inr ()"
    using assms(2) by (auto simp: transaction_sound_def transaction_validate_def res_simps checkR_eq_Inr)
  then have "run_admissible (apply_operation nd)
      (\<lambda>opn db. operation_validate (node_fc nd) opn = Inr () \<and> operation_sound opn db) (operations trx) (db\<lparr>transactions := t\<rparr>)"
    using assms(2) by (intro run_admissible_conj) (auto simp: transaction_sound_def)
  from ops.run_keeps [OF r this] assms(3) show ?thesis by simp
qed

end

sublocale exact_node \<subseteq> trxs: ledger_machine "apply_transaction nd skip" "transaction_sound nd" for skip
  by unfold_locales (blast dest: apply_transaction_keeps)+

lemma operations_calm:
  assumes "interpreters_apart nd" and "db_sorted db" and "foldR (apply_operation nd) ops db = Inr db'"
  shows "calm db db'"
proof -
  have "calm db db' \<and> db_sorted db'"
  proof (rule foldR_inv [where P = "\<lambda>s. calm db s \<and> db_sorted s", OF _ assms(3)])
    fix p s s' assume "apply_operation nd p s = Inr s'" and s: "calm db s \<and> db_sorted s"
    then have "calm s s'" using apply_operation_calm assms(1) by blast
    with s show "calm db s' \<and> db_sorted s'" by (auto simp: quiet_defs)
  qed (use assms(2) in simp)
  then show ?thesis ..
qed

subsection \<open>The properties of operations and transactions\<close>

definition sample_node :: node where
  "sample_node = \<lparr> node_fc = fc64, node_crypto = sample_crypto, node_hashes = sample_hashes, node_interpreters = \<lambda>_. None, node_producing = False \<rparr>"

definition sample_chain :: database where
  "sample_chain = sample_db\<lparr>reward_funds := mk_index [(0, default_reward_fund_object)] 1,
     block_summaries := mk_index [(0, default_block_summary_object)] 1,
     account_authorities := mk_index [(0, default_account_authority_object
       \<lparr> aa_account := ''alice'', aa_owner := key_authority ''KO'', aa_active := key_authority ''KA'',
         aa_posting := key_authority ''KP'' \<rparr>)] 1\<rparr>"

definition current_trx :: signed_transaction where
  "current_trx = sample_trx\<lparr>expiration := 1600000100\<rparr>"

interpretation sample: exact_node sample_node
  by (rule exact_node.intro) (simp_all add: sample_node_def interpreters_apart_def fc64.fc_exact_axioms)

lemma sample_chain_inv: "chain_inv sample_chain"
  by (simp add: chain_inv_def db_sorted_def fund_ids_def escrows_ok_def all_rows_def sample_chain_def sample_simps)

lemma sample_transfer_runs: "\<exists>db'. apply_operation sample_node (transfer_op sample_transfer) (sample_chain\<lparr>transactions := t\<rparr>) = Inr db'"
  by (simp add: apply_operation_def sample_node_def sample_transfer_def transfer_evaluator_def get_account_def get_by_def
      find_by_def sample_chain_def sample_simps get_balance_def eval64 adjust_balance_def modify_account_def modify_def
      modify_ok_def account_conflict_def get_id_def find_id_def)

lemma valid_name_iff:
  "is_valid_account_name name \<longleftrightarrow> 3 \<le> length name \<and> length name \<le> 16 \<and> list_all valid_label (split_dots name)"
  using name_labels_ok_grammar [of 0 name]
  by (auto simp: is_valid_account_name_def MIN_ACCOUNT_NAME_LENGTH_def MAX_ACCOUNT_NAME_LENGTH_def)

lemma sample_trx_valid: "transaction_validate fc64 current_trx = Inr ()"
  by (simp add: transaction_validate_def current_trx_def sample_trx_defs operation_validate_def transfer_validate_def
      validate_account_name_def valid_name_iff valid_label_def is_lower_def validate_memo_def MAX_MEMO_SIZE_def)

lemma sample_trx_signed: "check_signatures sample_node current_trx sample_chain = Inr ()"
  by (simp add: check_signatures_def signed_verify_authority_def verify_authority_def sample_trx_evals current_trx_def
      sample_node_def get_auth_def sample_chain_def get_by_def find_by_def mk_index_def default_account_authority_object_def
      MAX_SIG_CHECK_DEPTH_def)

lemma sample_trx_runs: "\<exists>db'. apply_transaction sample_node skip_nothing current_trx sample_chain = Inr db'"
proof -
  have ops: "operations current_trx = [transfer_op sample_transfer]" by (simp add: current_trx_def sample_trx_def)
  have "check_tapos current_trx sample_chain = Inr ()"
    by (simp add: check_tapos_def get_id_def find_id_def sample_chain_def mk_index_def current_trx_def sample_trx_def
        default_block_summary_object_def hash_word_zeros)
  moreover have "check_expiration current_trx sample_chain = Inr ()"
    by (simp add: check_expiration_def current_trx_def head_block_time_def sample_chain_def sample_simps
        MAX_TIME_UNTIL_EXPIRATION_def)
  moreover have "create_transaction (\<lambda>_. Inr x) sample_chain =
      Inr (sample_chain\<lparr>transactions := mk_index [(0, x)] 1\<rparr>, 0)" for x
    by (simp add: create_transaction_def emplace_def insert_ok_def sample_chain_def sample_simps)
  moreover have "transactions sample_chain = mk_index [] 0" by (simp add: sample_chain_def sample_simps)
  moreover obtain db' where "apply_operation sample_node (transfer_op sample_transfer) (sample_chain\<lparr>transactions :=
      mk_index [(0, \<lparr> tx_trx_id = transaction_id (node_crypto sample_node) current_trx, tx_expiration = expiration current_trx \<rparr>)] 1\<rparr>)
      = Inr db'"
    using sample_transfer_runs by blast
  moreover have "node_fc sample_node = fc64" by (simp add: sample_node_def)
  moreover have "find_by q (mk_index [] 0) = None" for q :: "transaction_object \<Rightarrow> bool" by (simp add: find_by_def mk_index_def)
  ultimately show ?thesis
    by (simp add: apply_transaction_def skips_def skip_nothing_def ops sample_trx_valid sample_trx_signed)
qed

text \<open>
  C2: conservation by operations. Every operation that passes validation and is applied
  keeps the recorded supply equal to what is held, for BMT, vesting shares and pending
  rewards alike, and keeps the structure of the database, except the three operations that
  \<open>operation_sound\<close> excludes (an open content order given a new price, a token created with a
  negative fee, an order priced in another asset than it sells).
\<close>

theorem apply_operation_conserves:
  assumes "apply_operation nd opn db = Inr db'" and "fc_exact (node_fc nd)" and "interpreters_apart nd"
    and "operation_validate (node_fc nd) opn = Inr ()" and "operation_sound opn db" and "chain_inv db"
  shows "supply_gap db' = supply_gap db \<and> vests_gap db' = vests_gap db \<and> pending_gap db' = pending_gap db \<and> chain_inv db'"
  using fc_exact.apply_operation_gaps [OF assms(2,1) refl assms(3-6)]
    fc_exact.apply_operation_inv [OF assms(2,1) refl assms(3,4,6)]
  by (simp add: keeps_gaps_def)

theorem apply_operation_conserves_witness:
  "\<exists>db'. apply_operation sample_node (transfer_op sample_transfer) sample_chain = Inr db' \<and>
     supply_gap db' = supply_gap sample_chain \<and> chain_inv db'"
proof -
  obtain db' where r: "apply_operation sample_node (transfer_op sample_transfer) sample_chain = Inr db'"
    using sample_transfer_runs [of "transactions sample_chain"] by auto
  have "operation_validate (node_fc sample_node) (transfer_op sample_transfer) = Inr ()"
    using sample_trx_valid by (simp add: transaction_validate_def current_trx_def sample_trx_def sample_node_def res_simps)
  moreover have "operation_sound (transfer_op sample_transfer) sample_chain" by (simp add: operation_sound_def)
  ultimately show ?thesis
    using apply_operation_conserves [OF r sample.node_exact sample.node_apart _ _ sample_chain_inv] r by blast
qed

text \<open>
  C6: what an applied transaction has passed. With no flag set, once the chain has a block,
  a transaction that \<open>_apply_transaction\<close> applies was new, is not expired and expires within
  the hour, names a block of this chain by its prefix, was validated, and (outside the
  eight blocks of the merkle exceptions) each of its operations is backed by its signatures.
\<close>

theorem apply_transaction_checked:
  assumes "apply_transaction nd skip_nothing trx db = Inr db'" and "head_block_num db > 0"
    and "head_block_num db + 1 \<notin> set shared_db_merkle_blocks"
  shows "find_by (\<lambda>t. tx_trx_id t = transaction_id (node_crypto nd) trx) (transactions db) = None \<and>
    head_block_time db < expiration trx \<and> expiration trx \<le> head_block_time db + 3600 \<and>
    (\<exists>s. get_id (block_summaries db) (ref_block_num trx) = Inr s \<and> ref_block_prefix trx = hash_word 1 (bs_block_id s)) \<and>
    operations trx \<noteq> [] \<and> (\<forall>p \<in> set (operations trx). operation_validate (node_fc nd) p = Inr ()) \<and>
    (\<exists>keys. get_signature_keys (node_crypto nd) trx = Inr keys \<and>
      (\<forall>p \<in> set (operations trx).
        operation_backed (set keys) (get_auth aa_active db) (get_auth aa_owner db) (get_auth aa_posting db) p))"
proof -
  have n: "\<not> skips skip_nothing m" for m by (simp add: skips_def skip_nothing_def)
  note passed = apply_transaction_passed [OF assms(1)]
  have "signed_verify_authority (node_crypto nd) MAX_SIG_CHECK_DEPTH (get_auth aa_active db) (get_auth aa_owner db)
      (get_auth aa_posting db) trx = Inr ()"
    using passed(3) [OF n] assms(3) by (auto simp: check_signatures_def split: sum.splits exn.splits if_splits)
  then obtain keys where k: "get_signature_keys (node_crypto nd) trx = Inr keys"
    and v: "verify_authority MAX_SIG_CHECK_DEPTH (get_auth aa_active db) (get_auth aa_owner db) (get_auth aa_posting db)
      [] [] [] (operations trx) keys = Inr ()"
    by (auto simp: signed_verify_authority_def res_simps)
  have "operations trx \<noteq> [] \<and> (\<forall>p \<in> set (operations trx). operation_validate (node_fc nd) p = Inr ())"
    using passed(2) [OF n] by (auto simp: transaction_validate_def res_simps checkR_eq_Inr)
  moreover have "head_block_time db < expiration trx \<and> expiration trx \<le> head_block_time db + 3600"
    using passed(5) [OF assms(2)] by (auto simp: check_expiration_def MAX_TIME_UNTIL_EXPIRATION_def Let_def split: if_splits)
  moreover have "\<exists>s. get_id (block_summaries db) (ref_block_num trx) = Inr s \<and> ref_block_prefix trx = hash_word 1 (bs_block_id s)"
    using passed(4) [OF assms(2) n] by (auto simp: check_tapos_def res_simps split: if_splits)
  ultimately show ?thesis using passed(1) [OF n] k verify_authority_sound(1) [OF v] by blast
qed

lemma sample_chain_head: "head_block_num sample_chain > 0" "head_block_num sample_chain + 1 \<notin> set shared_db_merkle_blocks"
  by (simp_all add: head_block_num_def sample_chain_def sample_simps shared_db_merkle_blocks_def)

theorem apply_transaction_checked_witness:
  "\<exists>db'. apply_transaction sample_node skip_nothing current_trx sample_chain = Inr db' \<and>
     head_block_time sample_chain < expiration current_trx \<and>
     (\<exists>keys. get_signature_keys sample_crypto current_trx = Inr keys \<and>
       operation_backed (set keys) (get_auth aa_active sample_chain) (get_auth aa_owner sample_chain)
         (get_auth aa_posting sample_chain) (transfer_op sample_transfer))"
proof -
  obtain db' where r: "apply_transaction sample_node skip_nothing current_trx sample_chain = Inr db'"
    using sample_trx_runs by blast
  have "operations current_trx = [transfer_op sample_transfer]" "node_crypto sample_node = sample_crypto"
    by (simp_all add: current_trx_def sample_trx_def sample_node_def)
  with apply_transaction_checked [OF r sample_chain_head] r show ?thesis by auto
qed

text \<open>
  No replay. A transaction that was applied is recorded, no operation removes the
  record, and applying the same transaction to the resulting database throws.
\<close>

theorem applied_transaction_not_replayed:
  assumes r: "apply_transaction nd skip trx db = Inr db'" and d: "\<not> skips skip skip_transaction_dupe_check"
    and "interpreters_apart nd" and "db_sorted db"
  shows "apply_transaction nd skip trx db' = Inl (Assert_failed ''Duplicate transaction check failed'')"
proof -
  let ?p = "\<lambda>t. tx_trx_id t = transaction_id (node_crypto nd) trx"
  from r obtain t i where ops: "foldR (apply_operation nd) (operations trx) (db\<lparr>transactions := t\<rparr>) = Inr db'"
    and e: "emplace transaction_conflict
        (\<lambda>_. Inr \<lparr> tx_trx_id = transaction_id (node_crypto nd) trx, tx_expiration = expiration trx \<rparr>) (transactions db)
        = Inr (t, i)"
    using d by (metis apply_transactionE)
  have "transactions db' = t"
    using operations_calm [OF assms(3) _ ops] assms(4) by (auto simp: quiet_defs)
  moreover have "\<exists>x. (i, x) \<in> set (indices t) \<and> ?p x"
    using e by (auto elim!: emplaceD)
  ultimately have "find_by ?p (transactions db') \<noteq> None"
    by (auto simp: find_by_def find_None_iff)
  moreover have "skips skip skip_validate \<or> transaction_validate (node_fc nd) trx = Inr ()"
    using apply_transaction_passed(2) [OF r] by blast
  ultimately show ?thesis using d by (auto simp: apply_transaction_def)
qed

theorem applied_transaction_not_replayed_witness:
  "\<exists>db'. apply_transaction sample_node skip_nothing current_trx sample_chain = Inr db' \<and>
     apply_transaction sample_node skip_nothing current_trx db' = Inl (Assert_failed ''Duplicate transaction check failed'')"
proof -
  obtain db' where r: "apply_transaction sample_node skip_nothing current_trx sample_chain = Inr db'"
    using sample_trx_runs by blast
  have "db_sorted sample_chain" using sample_chain_inv by (simp add: chain_inv_def)
  with applied_transaction_not_replayed [OF r _ sample.node_apart] r show ?thesis
    by (auto simp: skips_def skip_nothing_def)
qed

end
