(* ===== verification/Slots.thy ===== *)
theory Slots
  imports Apply
begin

text \<open>
  Block slots and the bookkeeping of a block header (\<open>database.cpp\<close>): the times of the slots,
  the witness scheduled for a slot, the checks of a header, the extensions of a header, the
  update of the global properties with the record of filled slots, and the last
  irreversible block. Times and block numbers have 32 bits, \<open>current_aslot\<close> 64.

  The part of \<open>update_last_irreversible_block\<close> that commits undo sessions and appends to the
  block log is not here; the sessions are the subject of \<open>Chainbase\<close>.

  The lemmas show that slot numbers and slot times are inverse to each other, that the
  participation count is the number of filled slots among the last 128, and that the last
  irreversible block never moves back and was confirmed by the threshold of witnesses.
\<close>

definition get_scheduled_witness :: "nat \<Rightarrow> database \<Rightarrow> exn + account_name" where
  "get_scheduled_witness slot_num db =
     (let n = ws_num_scheduled_witnesses (wso db);
          current_aslot = (g_current_aslot (dgpo db) + slot_num) mod 2 ^ 64;
          ws = ws_current_shuffled_witnesses (wso db) in
      if n = 0 then Inl (Logic_error ''division by zero'')
      else if current_aslot mod n < length ws then Inr (ws ! (current_aslot mod n))
      else Inl (Out_of_range ''current_shuffled_witnesses''))"

definition get_slot_time :: "nat \<Rightarrow> database \<Rightarrow> time_point_sec" where
  "get_slot_time slot_num db =
     (if slot_num = 0 then 0
      else if head_block_num db = 0 then time_plus (g_time (dgpo db)) (slot_num * BLOCK_INTERVAL mod 2 ^ 32)
      else time_plus (head_block_time db div BLOCK_INTERVAL * BLOCK_INTERVAL) (slot_num * BLOCK_INTERVAL mod 2 ^ 32))"

definition get_slot_at_time :: "time_point_sec \<Rightarrow> database \<Rightarrow> nat" where
  "get_slot_at_time t db =
     (let first_slot_time = get_slot_time 1 db in
      if t < first_slot_time then 0 else ((t - first_slot_time) div BLOCK_INTERVAL + 1) mod 2 ^ 32)"

subsection \<open>Headers\<close>

definition validate_block_header ::
  "node \<Rightarrow> skip_flags \<Rightarrow> signed_block \<Rightarrow> database \<Rightarrow> exn + (oid \<times> witness_object)" where
  "validate_block_header nd skip b db =
     bindR (assertR (g_head_block_id (dgpo db) = previous b) ''head_block_id() == next_block.previous'') (\<lambda>_.
     bindR (assertR (head_block_time db < timestamp b) ''head_block_time() < next_block.timestamp'') (\<lambda>_.
     bindR (get_witness (witness b) db) (\<lambda>(wi, w).
     bindR (if skips skip skip_witness_signature then Inr ()
            else assertM (validate_signee (node_hashes nd) b (w_signing_key w)) ''validate_signee'') (\<lambda>_.
     bindR (if skips skip skip_witness_schedule_check then Inr ()
            else
              let slot_num = get_slot_at_time (timestamp b) db in
              bindR (assertR (slot_num > 0) ''slot_num > 0'') (\<lambda>_.
              bindR (get_scheduled_witness slot_num db) (\<lambda>scheduled_witness.
              assertR (w_owner w = scheduled_witness) ''Witness produced block at wrong time''))) (\<lambda>_.
     Inr (wi, w))))))"

text \<open>Assignment to a \<open>hardfork_version\<close> keeps the upper half of the version number.\<close>

definition hardfork_version_of :: "32 word \<Rightarrow> 32 word" where
  "hardfork_version_of v = v AND 0xFFFF0000"

definition process_header_extension ::
  "account_name \<Rightarrow> block_header_extension \<Rightarrow> database \<Rightarrow> exn + database" where
  "process_header_extension owner e db =
     (case e of
        ext_void \<Rightarrow> Inr db
      | ext_version v \<Rightarrow>
          bindR (get_witness owner db) (\<lambda>(i, w).
          if v \<noteq> w_running_version w then modify_witness i (\<lambda>w. Inr (w\<lparr>w_running_version := v\<rparr>)) db else Inr db)
      | ext_hardfork_version_vote v t \<Rightarrow>
          bindR (get_witness owner db) (\<lambda>(i, w).
          if v \<noteq> w_hardfork_version_vote w \<or> t \<noteq> w_hardfork_time_vote w
          then modify_witness i (\<lambda>w. Inr (w\<lparr>w_hardfork_version_vote := hardfork_version_of v, w_hardfork_time_vote := t\<rparr>)) db
          else Inr db))"

definition process_header_extensions :: "signed_block \<Rightarrow> database \<Rightarrow> exn + database" where
  "process_header_extensions b = foldR (process_header_extension (witness b)) (extensions b)"

text \<open>The record of the block for later transactions to refer to.\<close>

definition note_block_summary :: "node \<Rightarrow> signed_block \<Rightarrow> database \<Rightarrow> exn + database" where
  "note_block_summary nd b db =
     (let sid = block_num b mod 2 ^ 16 in
      bindR (get_id (block_summaries db) sid) (\<lambda>_.
      modify_block_summary sid (\<lambda>p. Inr (p\<lparr>bs_block_id := block_id (node_hashes nd) b\<rparr>)) db))"

subsection \<open>Global properties\<close>

text \<open>Subtraction of 32-bit numbers.\<close>

definition minus32 :: "nat \<Rightarrow> nat \<Rightarrow> nat" where
  "minus32 a b = (a + 2 ^ 32 - b mod 2 ^ 32) mod 2 ^ 32"

definition note_missed :: "signed_block \<Rightarrow> nat \<Rightarrow> database \<Rightarrow> exn + database" where
  "note_missed b i db =
     bindR (get_scheduled_witness (i + 1) db) (\<lambda>n.
     bindR (get_witness n db) (\<lambda>(wi, w).
     if w_owner w \<noteq> witness b then
       modify_witness wi (\<lambda>w.
         let w1 = w\<lparr>w_total_missed := inc32 (w_total_missed w)\<rparr> in
         Inr (if minus32 (head_block_num db) (w_last_confirmed_block_num w1) > BLOCKS_PER_DAY
              then w1\<lparr>w_signing_key := null_key\<rparr> else w1)) db
     else Inr db))"

text \<open>One slot shifted into the record of filled slots; the count has eight bits.\<close>

definition record_slot :: "bool \<Rightarrow> dynamic_global_property_object \<Rightarrow> dynamic_global_property_object" where
  "record_slot filled g =
     (let n0 = (if bit (g_recent_slots_filled g) 127 then (g_participation_count g + 255) mod 256 else g_participation_count g);
          slots = push_bit 1 (g_recent_slots_filled g) + (if filled then 1 else 0);
          n1 = (if filled then (n0 + 1) mod 256 else n0) in
      g\<lparr>g_recent_slots_filled := slots, g_participation_count := n1\<rparr>)"

definition record_slots :: "nat \<Rightarrow> dynamic_global_property_object \<Rightarrow> dynamic_global_property_object" where
  "record_slots missed g = fold (\<lambda>i. record_slot (i = 0)) [0 ..< missed + 1] g"

definition advance_head ::
  "node \<Rightarrow> signed_block \<Rightarrow> nat \<Rightarrow> dynamic_global_property_object \<Rightarrow> dynamic_global_property_object" where
  "advance_head nd b missed_blocks g =
     (record_slots missed_blocks g)
       \<lparr>g_head_block_number := block_num b, g_head_block_id := block_id (node_hashes nd) b, g_time := timestamp b,
        g_current_aslot := (g_current_aslot g + missed_blocks + 1) mod 2 ^ 64\<rparr>"

definition update_global_dynamic_data :: "node \<Rightarrow> skip_flags \<Rightarrow> signed_block \<Rightarrow> database \<Rightarrow> exn + database" where
  "update_global_dynamic_data nd skip b db =
     bindR (if head_block_time db \<noteq> 0 then
              let slot = get_slot_at_time (timestamp b) db in
              if slot = 0 then Inl (Assert_failed ''missed_blocks != 0'')
              else bindR (foldR (note_missed b) [0 ..< slot - 1] db) (\<lambda>db1. Inr (slot - 1, db1))
            else Inr (0, db)) (\<lambda>(missed_blocks, db1).
     bindR (modify_dgpo (\<lambda>g. Inr (advance_head nd b missed_blocks g)) db1) (\<lambda>db2.
     if skips skip skip_undo_history_check \<or>
        minus32 (head_block_num db2) (g_last_irreversible_block_num (dgpo db2)) < MAX_UNDO_HISTORY
     then Inr db2 else Inl Undo_history))"

definition update_signing_witness :: "oid \<Rightarrow> signed_block \<Rightarrow> database \<Rightarrow> exn + database" where
  "update_signing_witness wi b db =
     (let new_block_aslot = (g_current_aslot (dgpo db) + get_slot_at_time (timestamp b) db) mod 2 ^ 64 in
      modify_witness wi (\<lambda>w. Inr (w\<lparr>w_last_aslot := new_block_aslot, w_last_confirmed_block_num := block_num b\<rparr>)) db)"

subsection \<open>The last irreversible block\<close>

definition scheduled_witnesses :: "database \<Rightarrow> exn + witness_object list" where
  "scheduled_witnesses db =
     foldR (\<lambda>n ws. bindR (get_witness n db) (\<lambda>(_, w). Inr (ws @ [w])))
       (take (ws_num_scheduled_witnesses (wso db)) (ws_current_shuffled_witnesses (wso db))) []"

text \<open>\<open>std::nth_element\<close> puts at its position the element that sorting would put there.\<close>

definition confirmed_at :: "nat \<Rightarrow> witness_object list \<Rightarrow> nat" where
  "confirmed_at offset ws = sort (map w_last_confirmed_block_num ws) ! offset"

definition irreversible_offset :: "nat \<Rightarrow> nat" where
  "irreversible_offset n = nat (PERCENT_100 - IRREVERSIBLE_THRESHOLD) * n div nat PERCENT_100"

definition update_last_irreversible_block :: "database \<Rightarrow> exn + database" where
  "update_last_irreversible_block db =
     (if head_block_num db < START_MINER_VOTING_BLOCK then
        modify_dgpo (\<lambda>g. Inr (if head_block_num db > MAX_WITNESSES
          then g\<lparr>g_last_irreversible_block_num := head_block_num db - MAX_WITNESSES\<rparr> else g)) db
      else
        bindR (scheduled_witnesses db) (\<lambda>ws.
        if ws = [] then Inl (Out_of_range ''wit_objs'')
        else
          let new_lib = confirmed_at (irreversible_offset (length ws)) ws in
          if new_lib > g_last_irreversible_block_num (dgpo db)
          then modify_dgpo (\<lambda>g. Inr (g\<lparr>g_last_irreversible_block_num := new_lib\<rparr>)) db
          else Inr db))"

subsection \<open>Slots and their times\<close>

text \<open>
  Slot times. For every slot after the head whose time is within 32 bits, the slot at the
  time of the slot is the slot itself, and the slot before it is at every earlier time down
  to its own: a block is in exactly one slot.
\<close>

theorem slot_time_roundtrip:
  assumes "n > 0" and "head_block_time db + 3 * n + 3 < 2 ^ 32" and "k < 3"
  shows "get_slot_at_time (get_slot_time n db + k) db = n"
proof -
  define t0 where "t0 = (if head_block_num db = 0 then g_time (dgpo db) else head_block_time db div 3 * 3)"
  have t0: "t0 \<le> head_block_time db" by (simp add: t0_def head_block_time_def)
  have st: "get_slot_time m db = t0 + 3 * m" if "0 < m" "m \<le> n" for m
    using that assms(2) t0 by (auto simp: get_slot_time_def t0_def BLOCK_INTERVAL_def time_plus_small)
  have "(t0 + 3 * n + k - (t0 + 3)) div 3 + 1 = n" using assms(1,3) by auto
  moreover have "n < 2 ^ 32" using assms(2) by simp
  ultimately show ?thesis
    using st [of n] st [of 1] assms(1) by (simp add: get_slot_at_time_def Let_def BLOCK_INTERVAL_def)
qed

theorem slot_time_roundtrip_witness: "get_slot_at_time (get_slot_time 5 sample_chain + 2) sample_chain = 5"
  by (rule slot_time_roundtrip) (simp_all add: head_block_time_def sample_chain_def sample_simps)

subsection \<open>The record of filled slots\<close>

definition filled_slots :: "128 word \<Rightarrow> nat" where
  "filled_slots x = length (filter (bit x) [0 ..< 128])"

lemma filled_slots_le: "filled_slots x \<le> 128"
  unfolding filled_slots_def by (metis length_filter_le length_upt diff_zero)

lemma filter_upt_Suc_shift: "length (filter P [0 ..< Suc n]) = (if P 0 then 1 else 0) + length (filter (\<lambda>i. P (Suc i)) [0 ..< n])"
proof -
  have "[0 ..< Suc n] = 0 # map Suc [0 ..< n]" by (metis map_Suc_upt upt_conv_Cons zero_less_Suc)
  then show ?thesis by (simp add: filter_map comp_def)
qed

lemma shift_in_bits:
  fixes x :: "128 word"
  assumes "i < 128"
  shows "bit (push_bit 1 x + (if f then 1 else 0)) i \<longleftrightarrow> (if i = 0 then f else bit x (i - 1))"
proof -
  define y where "y = push_bit 1 x"
  have y: "bit y j \<longleftrightarrow> 1 \<le> j \<and> j < 128 \<and> bit x (j - 1)" for j
    unfolding y_def bit_push_bit_iff by (auto simp: possible_bit_word)
  have "y AND 1 = 0" by (rule bit_eqI) (simp add: bit_and_iff y bit_1_iff)
  then have "y + 1 = y OR 1" using word_plus_and_or [of y 1] by simp
  then have "bit (y + 1) i \<longleftrightarrow> i = 0 \<or> bit y i" by (auto simp only: bit_or_iff bit_1_iff)
  then show ?thesis
    unfolding y_def [symmetric] using assms y [of i] by (cases f; cases "i = 0") simp_all
qed

lemma filled_slots_shift:
  "filled_slots (push_bit 1 x + (if f then 1 else 0)) + (if bit x 127 then 1 else 0) =
   filled_slots x + (if f then 1 else 0)"
proof -
  let ?y = "push_bit 1 x + (if f then 1 else 0)"
  have n: "(128 :: nat) = Suc 127" by simp
  have "filled_slots ?y = (if f then 1 else 0) + length (filter (\<lambda>i. bit ?y (Suc i)) [0 ..< 127])"
    unfolding filled_slots_def n filter_upt_Suc_shift using shift_in_bits [of 0 x f] by simp
  also have "filter (\<lambda>i. bit ?y (Suc i)) [0 ..< 127] = filter (bit x) [0 ..< 127]"
    by (rule filter_cong) (use shift_in_bits [of _ x f] in auto)
  finally have y: "filled_slots ?y = (if f then 1 else 0) + length (filter (bit x) [0 ..< 127])" .
  have "[0 ..< 128] = [0 ..< 127] @ [127 :: nat]" using upt_Suc_append [of 0 127] by simp
  then have "filled_slots x = length (filter (bit x) [0 ..< 127]) + (if bit x 127 then 1 else 0)"
    by (simp add: filled_slots_def)
  with y show ?thesis by simp
qed

definition participation_ok :: "dynamic_global_property_object \<Rightarrow> bool" where
  "participation_ok g \<longleftrightarrow> g_participation_count g = filled_slots (g_recent_slots_filled g)"

lemma record_slot_ok: "participation_ok g \<Longrightarrow> participation_ok (record_slot f g)"
proof -
  assume "participation_ok g"
  then have p: "g_participation_count g = filled_slots (g_recent_slots_filled g)" by (simp add: participation_ok_def)
  let ?x = "g_recent_slots_filled g"
  note s = filled_slots_shift [of ?x f] and le = filled_slots_le [of ?x]
  have top: "bit ?x 127 \<Longrightarrow> filled_slots ?x > 0"
    by (auto simp: filled_slots_def filter_empty_conv intro!: exI [of _ 127])
  show ?thesis
    using p s le top filled_slots_le [of "push_bit 1 ?x + (if f then 1 else 0)"]
    by (cases f; cases "bit ?x 127") (auto simp: participation_ok_def record_slot_def Let_def mod_if)
qed

lemma record_slots_ok: "participation_ok g \<Longrightarrow> participation_ok (record_slots m g)"
proof -
  have "participation_ok g \<Longrightarrow> participation_ok (fold (\<lambda>i. record_slot (i = 0)) is g)" for "is"
    by (induction "is" arbitrary: g) (auto simp: record_slot_ok)
  then show "participation_ok g \<Longrightarrow> participation_ok (record_slots m g)" unfolding record_slots_def .
qed

lemma note_missed_dgpo: "foldR (note_missed b) xs db = Inr db' \<Longrightarrow> dgpo db' = dgpo db"
  by (rule foldR_inv [where P = "\<lambda>s. dgpo s = dgpo db"])
    (auto simp: note_missed_def modify_witness_def res_simps split: if_splits)

text \<open>
  Witness participation. After every block the participation count equals the number of
  filled slots among the last 128 recorded, however many slots were missed, and it stays
  within its eight bits.
\<close>

theorem participation_count_exact:
  assumes "update_global_dynamic_data nd skip b db = Inr db'" and "participation_ok (dgpo db)"
  shows "participation_ok (dgpo db') \<and> g_participation_count (dgpo db') \<le> 128"
proof -
  from assms(1) have "\<exists>m. g_recent_slots_filled (dgpo db') = g_recent_slots_filled (record_slots m (dgpo db)) \<and>
      g_participation_count (dgpo db') = g_participation_count (record_slots m (dgpo db))"
    by (auto simp: update_global_dynamic_data_def modify_dgpo_def advance_head_def res_simps Let_def split: if_splits dest!: note_missed_dgpo)
  then show ?thesis
    using record_slots_ok [of "dgpo db"] assms(2) filled_slots_le by (auto simp: participation_ok_def)
qed

theorem participation_count_exact_witness:
  "\<exists>db'. update_global_dynamic_data sample_node skip_nothing sample_block sample_chain = Inr db' \<and>
     participation_ok (dgpo db') \<and> g_participation_count (dgpo db') = 1"
proof -
  have slot: "get_slot_at_time (timestamp sample_block) sample_chain = 1"
    by (simp add: get_slot_at_time_def get_slot_time_def sample_block_def head_block_num_def head_block_time_def
        sample_chain_def sample_simps BLOCK_INTERVAL_def time_plus_def)
  have g: "dgpo sample_chain = sample_dgpo" by (simp add: sample_chain_def sample_db_def)
  have slots: "g_recent_slots_filled sample_dgpo = 0" "g_participation_count sample_dgpo = 0"
    "g_last_irreversible_block_num sample_dgpo = 0"
    by (simp_all add: sample_dgpo_def default_dynamic_global_property_object_def)
  have t: "head_block_time sample_chain \<noteq> 0" by (simp add: head_block_time_def g sample_dgpo_def)
  have rs: "record_slots 0 sample_dgpo = sample_dgpo\<lparr>g_recent_slots_filled := 1, g_participation_count := 1\<rparr>"
    by (simp add: record_slots_def record_slot_def slots)
  have "le32 (replicate n (CHR 0x00)) = 0" for n by (induction n) (simp_all add: le32_def)
  then have num: "block_num sample_block = 1"
    by (simp add: block_num_def num_from_id_def hash_word_def endian_reverse_u32_def sample_block_def)
  obtain db' where r: "update_global_dynamic_data sample_node skip_nothing sample_block sample_chain = Inr db'"
    and c: "g_participation_count (dgpo db') = 1"
    by (auto simp: update_global_dynamic_data_def slot num modify_dgpo_def advance_head_def g t rs slots Let_def minus32_def
        MAX_UNDO_HISTORY_def head_block_num_def)
  have "participation_ok (dgpo sample_chain)"
    by (simp add: participation_ok_def filled_slots_def g slots)
  from participation_count_exact [OF r this] r c show ?thesis by blast
qed

subsection \<open>Irreversibility\<close>

lemma sorted_tail_count:
  assumes "sorted xs" and "k < length xs"
  shows "length (filter (\<lambda>x. xs ! k \<le> x) xs) \<ge> length xs - k"
proof -
  have "filter (\<lambda>x. xs ! k \<le> x) (drop k xs) = drop k xs"
    using assms by (auto simp: filter_id_conv in_set_conv_nth) (rule sorted_nth_mono; simp)
  then have "length (filter (\<lambda>x. xs ! k \<le> x) (take k xs @ drop k xs)) \<ge> length xs - k"
    by (simp del: append_take_drop_id)
  then show ?thesis by simp
qed

lemma confirmed_at_count:
  assumes "k < length ws"
  shows "length (filter (\<lambda>w. confirmed_at k ws \<le> w_last_confirmed_block_num w) ws) \<ge> length ws - k"
proof -
  let ?c = "map w_last_confirmed_block_num ws"
  have "length ws - k \<le> length (filter (\<lambda>x. sort ?c ! k \<le> x) (sort ?c))"
    using sorted_tail_count [of "sort ?c" k] assms by simp
  also have "\<dots> = length (filter (\<lambda>x. sort ?c ! k \<le> x) ?c)"
    by (simp add: filter_sort)
  finally show ?thesis by (simp add: confirmed_at_def filter_map comp_def)
qed


definition sample_witness :: "string \<Rightarrow> nat \<Rightarrow> witness_object" where
  "sample_witness n c = default_witness_object\<lparr>w_owner := n, w_last_confirmed_block_num := c, w_signing_key := ''KA''\<rparr>"

definition voting_chain :: database where
  "voting_chain = sample_chain
     \<lparr>dgpo := sample_dgpo\<lparr>g_head_block_number := 900000\<rparr>,
      wso := default_witness_schedule_object\<lparr>ws_current_shuffled_witnesses := [''alice'', ''bob''], ws_num_scheduled_witnesses := 2\<rparr>,
      witnesses := mk_index [(0, sample_witness ''alice'' 899999), (1, sample_witness ''bob'' 899998)] 2\<rparr>"


text \<open>
  C22: block headers. With no flag set, a header that \<open>validate_block_header\<close> accepts extends
  the head block, is later than it, is in a slot after it, and is signed with the signing
  key of the witness scheduled for exactly that slot.
\<close>

theorem block_header_scheduled:
  assumes "validate_block_header nd skip_nothing b db = Inr (wi, w)"
  shows "previous b = g_head_block_id (dgpo db) \<and> head_block_time db < timestamp b \<and>
    get_slot_at_time (timestamp b) db > 0 \<and> w_owner w = witness b \<and>
    get_scheduled_witness (get_slot_at_time (timestamp b) db) db = Inr (witness b) \<and>
    signee (node_hashes nd) b = Inr (w_signing_key w)"
proof -
  have n: "\<not> skips skip_nothing m" for m by (simp add: skips_def skip_nothing_def)
  from assms have "get_witness (witness b) db = Inr (wi, w)"
    by (auto simp: validate_block_header_def res_simps)
  then have o: "w_owner w = witness b" by (auto simp: get_witness_def get_by_find dest: find_by_set)
  with assms show ?thesis
    by (auto simp: validate_block_header_def n res_simps validate_signee_def Let_def)
qed

theorem block_header_scheduled_witness:
  "\<exists>b w. validate_block_header sample_node skip_nothing b voting_chain = Inr (0, w) \<and>
     get_scheduled_witness (get_slot_at_time (timestamp b) voting_chain) voting_chain = Inr (witness b)"
proof -
  let ?b = "sample_block\<lparr>previous := g_head_block_id sample_dgpo, timestamp := 1600000006\<rparr>"
  have d: "dgpo voting_chain = sample_dgpo\<lparr>g_head_block_number := 900000\<rparr>" by (simp add: voting_chain_def)
  have aslot: "g_current_aslot sample_dgpo = 0" and time: "g_time sample_dgpo = 1600000000"
    by (simp_all add: sample_dgpo_def default_dynamic_global_property_object_def)
  have slot: "get_slot_at_time 1600000006 voting_chain = 2"
    by (simp add: get_slot_at_time_def get_slot_time_def head_block_num_def head_block_time_def d time BLOCK_INTERVAL_def time_plus_def)
  have sched: "get_scheduled_witness 2 voting_chain = Inr ''alice''"
    by (simp add: get_scheduled_witness_def Let_def d aslot) (simp add: voting_chain_def)
  have wit: "get_witness ''alice'' voting_chain = Inr (0, sample_witness ''alice'' 899999)"
    by (simp add: get_witness_def get_by_def find_by_def voting_chain_def mk_index_def sample_witness_def)
  have r: "validate_block_header sample_node skip_nothing ?b voting_chain = Inr (0, sample_witness ''alice'' 899999)"
    by (simp add: validate_block_header_def d head_block_time_def time sample_block_def wit slot sched skips_def skip_nothing_def
        validate_signee_def signee_def sample_node_def sample_hashes_def sample_witness_def assertM_def)
  from block_header_scheduled [OF r] r show ?thesis by blast
qed

subsection \<open>The header of a block does not touch the ledger\<close>

lemma process_header_extension_orderly: "process_header_extension n e db = Inr db' \<Longrightarrow> orderly db db'"
  by (auto simp: process_header_extension_def res_simps split: block_header_extension.splits if_splits dest: orderlies)

lemma process_header_extensions_orderly [orderlies]: "process_header_extensions b db = Inr db' \<Longrightarrow> orderly db db'"
  unfolding process_header_extensions_def by (erule foldR_orderly [rotated]) (rule process_header_extension_orderly)

lemma note_block_summary_orderly [orderlies]: "note_block_summary nd b db = Inr db' \<Longrightarrow> orderly db db'"
  by (auto simp: note_block_summary_def res_simps Let_def dest: orderlies)

lemma note_missed_orderly: "note_missed b i db = Inr db' \<Longrightarrow> orderly db db'"
  by (auto simp: note_missed_def res_simps split: if_splits dest: orderlies)

lemma foldR_note_missed: "foldR (note_missed b) xs db = Inr db' \<Longrightarrow> orderly db db'"
  by (erule foldR_orderly [rotated]) (rule note_missed_orderly)

lemma record_slots_same:
  "\<exists>x n. record_slots m g = g\<lparr>g_recent_slots_filled := x, g_participation_count := n\<rparr>"
proof -
  have "\<exists>x n. fold (\<lambda>i. record_slot (i = 0)) is g = g\<lparr>g_recent_slots_filled := x, g_participation_count := n\<rparr>" for "is"
  proof (induction "is" arbitrary: g)
    case Nil
    show ?case by (rule exI [of _ "g_recent_slots_filled g"], rule exI [of _ "g_participation_count g"]) simp
  next
    case (Cons i "is")
    show ?case using Cons [of "record_slot (i = 0) g"] by (auto simp: record_slot_def Let_def)
  qed
  then show ?thesis unfolding record_slots_def .
qed

text \<open>A change of the global properties that leaves the money fields alone.\<close>

lemma modify_dgpo_orderly:
  assumes "modify_dgpo m db = Inr db'"
    and "\<And>g g'. m g = Inr g' \<Longrightarrow> bmt_of_dgpo g' = bmt_of_dgpo g \<and> g_current_supply g' = g_current_supply g \<and>
      g_total_vesting_shares g' = g_total_vesting_shares g \<and>
      g_pending_rewarded_vesting_shares g' = g_pending_rewarded_vesting_shares g \<and>
      g_pending_rewarded_vesting_bmt g' = g_pending_rewarded_vesting_bmt g"
  shows "orderly db db'"
  using assms(1) by (intro orderlyI) (auto simp: modify_dgpo_def keeps_gaps_def gap_defs res_simps quiet_defs db_sorted_def fund_ids_def dest!: assms(2))

lemma update_global_dynamic_data_orderly [orderlies]:
  assumes "update_global_dynamic_data nd skip b db = Inr db'"
  shows "orderly db db'"
proof -
  from assms obtain m db1 where "orderly db db1" and upd: "modify_dgpo (\<lambda>g. Inr (advance_head nd b m g)) db1 = Inr db'"
    by (auto simp: update_global_dynamic_data_def res_simps Let_def split: if_splits
        dest: foldR_note_missed intro: orderly_refl)
  moreover have "orderly db1 db'"
    using upd
  proof (rule modify_dgpo_orderly)
    fix g g' assume "Inr (advance_head nd b m g) = (Inr g' :: exn + dynamic_global_property_object)"
    with record_slots_same [of m g] show "bmt_of_dgpo g' = bmt_of_dgpo g \<and> g_current_supply g' = g_current_supply g \<and>
      g_total_vesting_shares g' = g_total_vesting_shares g \<and>
      g_pending_rewarded_vesting_shares g' = g_pending_rewarded_vesting_shares g \<and>
      g_pending_rewarded_vesting_bmt g' = g_pending_rewarded_vesting_bmt g"
      by (auto simp: advance_head_def bmt_of_dgpo_def)
  qed
  ultimately show ?thesis by (blast intro: orderly_trans)
qed

lemma update_signing_witness_orderly [orderlies]: "update_signing_witness wi b db = Inr db' \<Longrightarrow> orderly db db'"
  by (auto simp: update_signing_witness_def Let_def dest: orderlies)

lemma update_last_irreversible_block_orderly [orderlies]:
  "update_last_irreversible_block db = Inr db' \<Longrightarrow> orderly db db'"
  by (auto simp: update_last_irreversible_block_def res_simps Let_def bmt_of_dgpo_def split: if_splits
      elim!: modify_dgpo_orderly)

end
