(* ===== verification/Witness_Schedule.thy ===== *)
theory Witness_Schedule
  imports Slots "HOL-Library.Product_Lexorder" "HOL-Library.Multiset"
begin

text \<open>
  \<open>libraries/chain/witness_schedule.cpp\<close>: every 21 blocks the active witnesses are chosen
  (the top voted, the miners in the queue, and the runners by virtual time), the versions and
  hardforks they vote for are tallied, the schedule is shuffled, and the median of their
  chain properties is taken. Virtual times have 128 bits and the shuffle 64. Witnesses with
  the same \<open>pow_worker\<close> are taken in the order of their ids, and of several witnesses with the
  median fee the first of the schedule is taken; the containers leave both open.

  The lemmas show that the shuffle permutes the chosen witnesses among the scheduled slots,
  that every elected witness is scheduled, and that the ledger is not touched.
\<close>

text \<open>\<open>VIRTUAL_SCHEDULE_LAP_LENGTH2 / (votes + 1)\<close>; division by zero throws.\<close>

definition lap_time :: "fc_lib \<Rightarrow> witness_object \<Rightarrow> exn + 128 word" where
  "lap_time fc w =
     (let d = u128_of_int fc (w_votes w + 1) in
      if d = 0 then Inl (Other_exception ''divide_by_zero'') else Inr (VIRTUAL_SCHEDULE_LAP_LENGTH2 div d))"

definition reset_witness :: "fc_lib \<Rightarrow> 128 word \<Rightarrow> oid \<Rightarrow> database \<Rightarrow> exn + database" where
  "reset_witness fc t i =
     modify_witness i (\<lambda>w. bindR (lap_time fc w) (\<lambda>lap.
       Inr (w\<lparr>w_virtual_position := 0, w_virtual_last_update := t, w_virtual_scheduled_time := lap\<rparr>)))"

definition reset_virtual_schedule_time :: "fc_lib \<Rightarrow> database \<Rightarrow> exn + database" where
  "reset_virtual_schedule_time fc db =
     bindR (modify_wso (\<lambda>sch. Inr (sch\<lparr>ws_current_virtual_time := 0\<rparr>)) db) (\<lambda>db1.
     foldR (reset_witness fc 0) (row_ids (indices (witnesses db1))) db1)"

definition median_of :: "(witness_object \<Rightarrow> 'k::linorder) \<Rightarrow> witness_object list \<Rightarrow> witness_object" where
  "median_of key ws = sort_key key ws ! (length ws div 2)"

definition update_median_witness_props :: "database \<Rightarrow> exn + database" where
  "update_median_witness_props db =
     bindR (scheduled_witnesses db) (\<lambda>active.
     if active = [] then Inl (Out_of_range ''active'')
     else
       let fee = account_creation_fee (w_props (median_of (\<lambda>w. amount (account_creation_fee (w_props w))) active));
           size = maximum_block_size (w_props (median_of (\<lambda>w. maximum_block_size (w_props w)) active)) in
       bindR (modify_wso (\<lambda>sch. Inr (sch\<lparr>ws_median_props := (ws_median_props sch)
         \<lparr>account_creation_fee := fee, maximum_block_size := size\<rparr>\<rparr>)) db) (\<lambda>db1.
       modify_dgpo (\<lambda>g. Inr (g\<lparr>g_maximum_block_size := size\<rparr>)) db1))"

subsection \<open>Choosing the witnesses\<close>

definition mark_witness :: "witness_schedule_type \<Rightarrow> oid \<Rightarrow> database \<Rightarrow> exn + database" where
  "mark_witness s i = modify_witness i (\<lambda>w. Inr (w\<lparr>w_schedule := s\<rparr>))"

definition has_key :: "oid \<times> witness_object \<Rightarrow> bool" where
  "has_key r \<longleftrightarrow> w_signing_key (snd r) \<noteq> null_key"

definition voted_witnesses :: "nat \<Rightarrow> database \<Rightarrow> (oid \<times> witness_object) list" where
  "voted_witnesses n db = take n (filter has_key (by_vote_name db))"

definition leave_queue :: "oid \<Rightarrow> database \<Rightarrow> exn + database" where
  "leave_queue i db =
     bindR (modify_witness i (\<lambda>w. Inr (w\<lparr>w_pow_worker := 0\<rparr>)) db) (\<lambda>db1.
     modify_dgpo (\<lambda>g. Inr (g\<lparr>g_num_pow_witnesses := (g_num_pow_witnesses g + 2 ^ 64 - 1) mod 2 ^ 64\<rparr>)) db1)"

text \<open>The loop over the mining queue; the miners chosen so far are \<open>sel\<close>, in order.\<close>

fun select_miners ::
  "nat \<Rightarrow> oid list \<Rightarrow> (oid \<times> witness_object) list \<Rightarrow> (oid \<times> witness_object) list \<Rightarrow> database \<Rightarrow>
   exn + (oid \<times> witness_object) list \<times> database" where
  "select_miners n voted [] sel db = Inr (sel, db)"
| "select_miners n voted (r # rs) sel db =
     (if length sel < n then
        if fst r \<notin> set voted \<and> has_key r then
          bindR (mark_witness miner (fst r) db) (\<lambda>db1.
          bindR (leave_queue (fst r) db1) (select_miners n voted rs (sel @ [r])))
        else bindR (leave_queue (fst r) db) (select_miners n voted rs sel)
      else Inr (sel, db))"

definition mining_queue :: "database \<Rightarrow> (oid \<times> witness_object) list" where
  "mining_queue db = filter (\<lambda>r. w_pow_worker (snd r) > 0) (sort_key (\<lambda>r. w_pow_worker (snd r)) (indices (witnesses db)))"

text \<open>The loop over the virtual schedule: chosen runners, processed witnesses, new virtual time.\<close>

fun select_runners ::
  "nat \<Rightarrow> oid list \<Rightarrow> (oid \<times> witness_object) list \<Rightarrow> (oid \<times> witness_object) list \<Rightarrow> oid list \<Rightarrow> 128 word \<Rightarrow>
   database \<Rightarrow> exn + (oid \<times> witness_object) list \<times> oid list \<times> 128 word \<times> database" where
  "select_runners n taken [] sel procs t db = Inr (sel, procs, t, db)"
| "select_runners n taken (r # rs) sel procs t db =
     (if n < MAX_WITNESSES then
        if has_key r \<and> fst r \<notin> set taken then
          bindR (mark_witness timeshare (fst r) db)
            (select_runners (n + 1) taken rs (sel @ [r]) (procs @ [fst r]) (w_virtual_scheduled_time (snd r)))
        else select_runners n taken rs sel (procs @ [fst r]) (w_virtual_scheduled_time (snd r)) db
      else Inr (sel, procs, t, db))"

definition by_schedule_time :: "database \<Rightarrow> (oid \<times> witness_object) list" where
  "by_schedule_time db = sort_key (\<lambda>r. w_virtual_scheduled_time (snd r)) (indices (witnesses db))"

text \<open>The new virtual times; true when one overflows.\<close>

fun advance_processed :: "fc_lib \<Rightarrow> 128 word \<Rightarrow> oid list \<Rightarrow> database \<Rightarrow> exn + bool \<times> database" where
  "advance_processed fc t [] db = Inr (False, db)"
| "advance_processed fc t (i # is) db =
     bindR (get_id (witnesses db) i) (\<lambda>w.
     bindR (lap_time fc w) (\<lambda>lap.
     let new = t + lap in
     if new < t then Inr (True, db)
     else
       bindR (modify_witness i (\<lambda>w. Inr (w\<lparr>w_virtual_position := 0, w_virtual_last_update := t,
           w_virtual_scheduled_time := new\<rparr>)) db) (advance_processed fc t is)))"

subsection \<open>Votes for versions and hardforks\<close>

definition tally :: "('k::linorder) list \<Rightarrow> ('k \<times> nat) list" where
  "tally ks = fold (\<lambda>k m. flat_put k (case map_of m k of None \<Rightarrow> 1 | Some c \<Rightarrow> c + 1) m) ks []"

text \<open>The highest version that enough witnesses run at least.\<close>

fun majority_version :: "nat \<Rightarrow> nat \<Rightarrow> (32 word \<times> nat) list \<Rightarrow> 32 word \<Rightarrow> 32 word" where
  "majority_version req n [] old = old"
| "majority_version req n ((v, c) # vs) old = (if n + c \<ge> req then v else majority_version req (n + c) vs old)"

definition update_hardfork_votes :: "nat \<Rightarrow> ((32 word \<times> time_point_sec) \<times> nat) list \<Rightarrow> database \<Rightarrow> exn + database" where
  "update_hardfork_votes req votes db =
     (case List.find (\<lambda>v. snd v \<ge> req) votes of
        None \<Rightarrow> modify_hfo (\<lambda>h. Inr (h\<lparr>hf_next_hardfork := hardfork_version_of (hf_current_hardfork_version h)\<rparr>)) db
      | Some ((v, t), _) \<Rightarrow>
          if hf_next_hardfork (hfo db) \<noteq> v \<or> hf_next_hardfork_time (hfo db) \<noteq> t
          then modify_hfo (\<lambda>h. Inr (h\<lparr>hf_next_hardfork := hardfork_version_of v, hf_next_hardfork_time := t\<rparr>)) db
          else Inr db)"

subsection \<open>The shuffle\<close>

definition shuffle_key :: "time_point_sec \<Rightarrow> nat \<Rightarrow> 64 word" where
  "shuffle_key now i =
     (let k0 = push_bit 32 (word_of_nat now) + word_of_nat i * 2685821657736338717;
          k1 = k0 XOR drop_bit 12 k0;
          k2 = k1 XOR push_bit 25 k1;
          k3 = k2 XOR drop_bit 27 k2 in
      k3 * 2685821657736338717)"

definition shuffle_index :: "time_point_sec \<Rightarrow> nat \<Rightarrow> nat \<Rightarrow> nat" where
  "shuffle_index now n i = i + unat (shuffle_key now i) mod (n - i)"

definition swap :: "nat \<Rightarrow> nat \<Rightarrow> 'a list \<Rightarrow> 'a list" where
  "swap i j xs = xs[i := xs ! j, j := xs ! i]"

definition shuffle :: "time_point_sec \<Rightarrow> nat \<Rightarrow> 'a list \<Rightarrow> 'a list" where
  "shuffle now n xs = fold (\<lambda>i xs. swap i (shuffle_index now n i) xs) [0 ..< n] xs"

subsection \<open>The update\<close>

definition new_schedule ::
  "nat \<Rightarrow> nat \<Rightarrow> account_name list \<Rightarrow> 128 word \<Rightarrow> 32 word \<Rightarrow> database \<Rightarrow> witness_schedule_object \<Rightarrow> witness_schedule_object" where
  "new_schedule num_elected num_miners active t majority db sch =
     (let num_timeshare = length active - num_miners - num_elected;
          n = max (length active mod 256) 1 in
      sch\<lparr>ws_current_shuffled_witnesses :=
          shuffle (head_block_time db) n (active @ replicate (MAX_WITNESSES - length active) []),
        ws_num_scheduled_witnesses := n,
        ws_witness_pay_normalization_factor :=
          (ws_elected_weight sch * num_elected + ws_miner_weight sch * num_miners + ws_timeshare_weight sch * num_timeshare) mod 2 ^ 32,
        ws_current_virtual_time := t,
        ws_next_shuffle_block_num := (head_block_num db + n) mod 2 ^ 32,
        ws_majority_version := majority\<rparr>)"

text \<open>The part after the choice: the tally of the witnesses that leave, then the new schedule.\<close>

definition install_schedule ::
  "nat \<Rightarrow> nat \<Rightarrow> account_name list \<Rightarrow> 128 word \<Rightarrow> database \<Rightarrow> exn + database" where
  "install_schedule num_elected num_miners active t db =
     bindR (assertR (length active = min MAX_WITNESSES (length (indices (witnesses db))))
       ''number of active witnesses does not equal expected_active_witnesses'') (\<lambda>_.
     bindR (scheduled_witnesses db) (\<lambda>ws.
     let required = ws_hardfork_required_witnesses (wso db);
         majority = majority_version required 0 (rev (tally (map w_running_version ws))) (ws_majority_version (wso db)) in
     bindR (update_hardfork_votes required (tally (map (\<lambda>w. (w_hardfork_version_vote w, w_hardfork_time_vote w)) ws)) db) (\<lambda>db1.
     bindR (modify_wso (\<lambda>sch. Inr (new_schedule num_elected num_miners active t majority db1 sch)) db1)
       update_median_witness_props)))"

definition update_witness_schedule4 :: "fc_lib \<Rightarrow> database \<Rightarrow> exn + database" where
  "update_witness_schedule4 fc db =
     (let sch = wso db; voted = voted_witnesses (ws_max_voted_witnesses sch) db in
      bindR (foldR (\<lambda>r. mark_witness elected (fst r)) voted db) (\<lambda>db1.
      bindR (select_miners (ws_max_miner_witnesses sch) (map fst voted) (mining_queue db1) [] db1) (\<lambda>(miners, db2).
      bindR (select_runners (length voted + length miners) (map fst (voted @ miners)) (by_schedule_time db2) [] []
        (ws_current_virtual_time sch) db2) (\<lambda>(runners, procs, t, db3).
      bindR (advance_processed fc t procs db3) (\<lambda>(overflow, db4).
      bindR (if overflow then bindR (reset_virtual_schedule_time fc db4) (\<lambda>d. Inr (0, d)) else Inr (t, db4)) (\<lambda>(t1, db5).
      install_schedule (length voted) (length miners) (map (\<lambda>r. w_owner (snd r)) (voted @ miners @ runners)) t1 db5))))))"

definition update_witness_schedule :: "fc_lib \<Rightarrow> database \<Rightarrow> exn + database" where
  "update_witness_schedule fc db =
     (if head_block_num db mod MAX_WITNESSES = 0 then update_witness_schedule4 fc db else Inr db)"

subsection \<open>The shuffle permutes the schedule\<close>

lemma take_swap: "i < n \<Longrightarrow> j < n \<Longrightarrow> n \<le> length xs \<Longrightarrow> take n (swap i j xs) = swap i j (take n xs)"
  by (simp add: swap_def take_update_swap)

lemma drop_swap: "i < n \<Longrightarrow> j < n \<Longrightarrow> drop n (swap i j xs) = drop n xs"
  by (simp add: swap_def)

lemma length_swap [simp]: "length (swap i j xs) = length xs"
  by (simp add: swap_def)

lemma mset_swap_list: "i < length xs \<Longrightarrow> j < length xs \<Longrightarrow> mset (swap i j xs) = mset xs"
  using mset_swap [of j xs i] by (simp add: swap_def)

lemma shuffle_index_less: "i < n \<Longrightarrow> shuffle_index now n i < n"
proof -
  assume "i < n"
  then have "unat (shuffle_key now i) mod (n - i) < n - i" by simp
  then show ?thesis unfolding shuffle_index_def by linarith
qed

lemma shuffle_steps:
  "set is \<subseteq> {..<n} \<Longrightarrow> n \<le> length xs \<Longrightarrow>
   length (fold (\<lambda>i xs. swap i (shuffle_index now n i) xs) is xs) = length xs \<and>
   mset (take n (fold (\<lambda>i xs. swap i (shuffle_index now n i) xs) is xs)) = mset (take n xs) \<and>
   drop n (fold (\<lambda>i xs. swap i (shuffle_index now n i) xs) is xs) = drop n xs"
proof (induction "is" arbitrary: xs)
  case (Cons i "is")
  let ?ys = "swap i (shuffle_index now n i) xs"
  have i: "i < n" "shuffle_index now n i < n" using Cons.prems(1) by (auto intro: shuffle_index_less)
  have "mset (take n ?ys) = mset (take n xs)" and "drop n ?ys = drop n xs"
    using i Cons.prems(2) by (simp_all add: take_swap mset_swap_list drop_swap)
  with Cons.IH [of ?ys] Cons.prems show ?case by simp
qed simp

lemma shuffle_permutes:
  "n \<le> length xs \<Longrightarrow> mset (take n (shuffle now n xs)) = mset (take n xs) \<and> drop n (shuffle now n xs) = drop n xs \<and>
   length (shuffle now n xs) = length xs"
  unfolding shuffle_def using shuffle_steps [of "[0 ..< n]" n xs now] by (simp add: atLeast0LessThan)

subsection \<open>The schedule\<close>

lemma update_hardfork_votes_frame: "update_hardfork_votes req votes db = Inr db' \<Longrightarrow> witnesses db' = witnesses db \<and> wso db' = wso db"
  by (auto simp: update_hardfork_votes_def modify_hfo_def res_simps split: option.splits if_splits)

lemma update_median_frame:
  "update_median_witness_props db = Inr db' \<Longrightarrow> witnesses db' = witnesses db \<and>
   ws_num_scheduled_witnesses (wso db') = ws_num_scheduled_witnesses (wso db) \<and>
   ws_current_shuffled_witnesses (wso db') = ws_current_shuffled_witnesses (wso db)"
  by (auto simp: update_median_witness_props_def modify_wso_def modify_dgpo_def res_simps Let_def split: if_splits)

lemma install_scheduleD:
  assumes "install_schedule ne nm active t db = Inr db'" and "indices (witnesses db') \<noteq> []"
  shows "ws_num_scheduled_witnesses (wso db') = min 21 (length (indices (witnesses db'))) \<and>
    length (ws_current_shuffled_witnesses (wso db')) = 21 \<and>
    mset (take (ws_num_scheduled_witnesses (wso db')) (ws_current_shuffled_witnesses (wso db'))) = mset active"
proof -
  from assms(1) obtain m db1 db2 where len: "length active = min MAX_WITNESSES (length (indices (witnesses db)))"
    and v: "witnesses db1 = witnesses db" and m: "db2 = db1\<lparr>wso := new_schedule ne nm active t m db1 (wso db1)\<rparr>"
    and u: "update_median_witness_props db2 = Inr db'"
    by (auto simp: install_schedule_def res_simps Let_def modify_wso_def dest!: update_hardfork_votes_frame)
  note f = update_median_frame [OF u]
  have w: "witnesses db' = witnesses db" using f v m by simp
  have len': "length active = min 21 (length (indices (witnesses db')))" using len w by (simp add: MAX_WITNESSES_def)
  then have n: "length active > 0" "length active \<le> 21" using assms(2) by auto
  then have max: "max (length active mod 256) 1 = length active" by (cases active) auto
  have "ws_num_scheduled_witnesses (wso db') = length active"
    using f m max by (simp add: new_schedule_def Let_def)
  moreover have "ws_current_shuffled_witnesses (wso db') =
      shuffle (head_block_time db1) (length active) (active @ replicate (21 - length active) [])"
    using f m max by (simp add: new_schedule_def Let_def MAX_WITNESSES_def)
  ultimately show ?thesis
    using shuffle_permutes [of "length active" "active @ replicate (21 - length active) []" "head_block_time db1"] len' n by simp
qed

lemma update_witness_schedule4E:
  assumes "update_witness_schedule4 fc db = Inr db'"
  obtains miners runners t db5 where
    "install_schedule (length (voted_witnesses (ws_max_voted_witnesses (wso db)) db)) (length miners)
      (map (\<lambda>r. w_owner (snd r)) (voted_witnesses (ws_max_voted_witnesses (wso db)) db @ miners @ runners)) t db5 = Inr db'"
  using assms unfolding update_witness_schedule4_def Let_def bindR_eq_Inr
  by (auto simp: bindR_eq_Inr split: prod.splits)


definition lone_witness :: witness_object where
  "lone_witness = (sample_witness ''alice'' 10)\<lparr>w_virtual_scheduled_time := 0\<rparr>"

definition lone_chain :: database where
  "lone_chain = sample_chain
     \<lparr>wso := default_witness_schedule_object\<lparr>ws_current_shuffled_witnesses := [''alice''], ws_num_scheduled_witnesses := 1\<rparr>,
      witnesses := mk_index [(0, lone_witness)] (Suc 0)\<rparr>"

lemma lone_modify: "witnesses db = mk_index [(0, w)] (Suc 0) \<Longrightarrow>
    modify_witness 0 (\<lambda>w. Inr (f w)) db = Inr (db\<lparr>witnesses := mk_index [(0, f w)] (Suc 0)\<rparr>)"
  by (simp add: modify_witness_def modify_def modify_ok_def mk_index_def)

lemma lone_install:
  assumes w: "w_owner w = ''alice''" and db: "witnesses db = mk_index [(0, w)] (Suc 0)"
    and sch: "ws_current_shuffled_witnesses (wso db) = [''alice'']" "ws_num_scheduled_witnesses (wso db) = 1"
  shows "\<exists>db'. install_schedule (Suc 0) 0 [''alice''] t db = Inr db' \<and> length (indices (witnesses db')) = 1"
proof -
  have ws: "scheduled_witnesses d = Inr [w]"
    if "take (ws_num_scheduled_witnesses (wso d)) (ws_current_shuffled_witnesses (wso d)) = [''alice'']"
      and "witnesses d = mk_index [(0, w)] (Suc 0)" for d
    using that w by (simp add: scheduled_witnesses_def get_witness_def get_by_def find_by_def mk_index_def)
  have h: "\<exists>h. update_hardfork_votes r v db = Inr (db\<lparr>hfo := h\<rparr>)" for r v
    by (rule exI [of _ "hfo (projr (update_hardfork_votes r v db))"])
      (simp add: update_hardfork_votes_def modify_hfo_def split: option.split)
  have first: "scheduled_witnesses db = Inr [w]" using ws sch db by simp
  obtain h m where upd: "install_schedule (Suc 0) 0 [''alice''] t db =
      update_median_witness_props ((db\<lparr>hfo := h\<rparr>)\<lparr>wso := new_schedule (Suc 0) 0 [''alice''] t m (db\<lparr>hfo := h\<rparr>) (wso db)\<rparr>)"
  proof -
    have one: "min MAX_WITNESSES (length (indices (witnesses db))) = Suc 0"
      by (simp add: MAX_WITNESSES_def db mk_index_def)
    obtain h where h': "update_hardfork_votes (ws_hardfork_required_witnesses (wso db))
        (tally (map (\<lambda>w. (w_hardfork_version_vote w, w_hardfork_time_vote w)) [w])) db = Inr (db\<lparr>hfo := h\<rparr>)"
      using h by blast
    show thesis
      by (rule that) (simp add: install_schedule_def one first h' [simplified] Let_def modify_wso_def)
  qed
  have sched: "take (ws_num_scheduled_witnesses (new_schedule (Suc 0) 0 [''alice''] t m d sch))
      (ws_current_shuffled_witnesses (new_schedule (Suc 0) 0 [''alice''] t m d sch)) = [''alice'']" for m d sch
    by (simp add: new_schedule_def Let_def shuffle_def shuffle_index_def swap_def)
  have "scheduled_witnesses ((db\<lparr>hfo := h\<rparr>)\<lparr>wso := new_schedule (Suc 0) 0 [''alice''] t m (db\<lparr>hfo := h\<rparr>) (wso db)\<rparr>) = Inr [w]"
    by (rule ws) (use sched db in simp_all)
  then show ?thesis
    unfolding upd update_median_witness_props_def by (simp add: Let_def modify_wso_def modify_dgpo_def db mk_index_def)
qed


subsection \<open>The schedule does not touch the ledger\<close>

lemma reset_virtual_schedule_time_orderly: "reset_virtual_schedule_time fc db = Inr db' \<Longrightarrow> orderly db db'"
proof -
  have r: "foldR (reset_witness fc t) is s = Inr s' \<Longrightarrow> orderly s s'" for t "is" s s'
    by (erule foldR_orderly [rotated]) (auto simp: reset_witness_def dest: orderlies)
  show "reset_virtual_schedule_time fc db = Inr db' \<Longrightarrow> orderly db db'"
    by (auto simp: reset_virtual_schedule_time_def res_simps dest!: r orderlies intro: orderly_trans)
qed

lemma update_median_witness_props_orderly: "update_median_witness_props db = Inr db' \<Longrightarrow> orderly db db'"
  by (auto simp: update_median_witness_props_def res_simps Let_def bmt_of_dgpo_def split: if_splits
      elim!: modify_dgpo_orderly dest!: single_orderly intro: orderly_trans)

lemma mark_voted_orderly: "foldR (\<lambda>r. mark_witness elected (fst r)) rs db = Inr db' \<Longrightarrow> orderly db db'"
  by (erule foldR_orderly [rotated]) (auto simp: mark_witness_def dest: orderlies)

lemma leave_queue_orderly: "leave_queue i db = Inr db' \<Longrightarrow> orderly db db'"
proof -
  assume "leave_queue i db = Inr db'"
  then obtain db1 where "orderly db db1"
    and "modify_dgpo (\<lambda>g. Inr (g\<lparr>g_num_pow_witnesses := (g_num_pow_witnesses g + 2 ^ 64 - 1) mod 2 ^ 64\<rparr>)) db1 = Inr db'"
    by (auto simp: leave_queue_def res_simps dest: orderlies)
  moreover from this(2) have "orderly db1 db'" by (rule modify_dgpo_orderly) (auto simp: bmt_of_dgpo_def)
  ultimately show ?thesis by (blast intro: orderly_trans)
qed

lemma mark_witness_orderly: "mark_witness s i db = Inr db' \<Longrightarrow> orderly db db'"
  by (auto simp: mark_witness_def dest: orderlies)

lemma select_miners_orderly: "select_miners n voted rs sel db = Inr (sel', db') \<Longrightarrow> orderly db db'"
  by (induction n voted rs sel db rule: select_miners.induct)
    (auto simp: res_simps split: if_splits dest!: mark_witness_orderly leave_queue_orderly intro: orderly_trans)

lemma select_runners_orderly: "select_runners n taken rs sel procs t db = Inr (sel', procs', t', db') \<Longrightarrow> orderly db db'"
  by (induction n taken rs sel procs t db rule: select_runners.induct)
    (auto simp: res_simps split: if_splits dest!: mark_witness_orderly intro: orderly_trans)

lemma advance_processed_orderly: "advance_processed fc t is db = Inr (b, db') \<Longrightarrow> orderly db db'"
  by (induction fc t "is" db rule: advance_processed.induct)
    (auto simp: res_simps Let_def split: if_splits dest!: table_orderly intro: orderly_trans)

lemma update_hardfork_votes_orderly: "update_hardfork_votes req votes db = Inr db' \<Longrightarrow> orderly db db'"
  by (auto simp: update_hardfork_votes_def split: option.splits if_splits dest: single_orderly)

lemma install_schedule_orderly: "install_schedule ne nm active t db = Inr db' \<Longrightarrow> orderly db db'"
  by (auto simp: install_schedule_def res_simps Let_def
      dest!: update_hardfork_votes_orderly single_orderly update_median_witness_props_orderly intro: orderly_trans)

lemma update_witness_schedule_orderly [orderlies]:
  assumes "update_witness_schedule fc db = Inr db'"
  shows "orderly db db'"
proof (cases "head_block_num db mod MAX_WITNESSES = 0")
  case True
  with assms have "update_witness_schedule4 fc db = Inr db'" by (simp add: update_witness_schedule_def)
  then show ?thesis unfolding update_witness_schedule4_def Let_def
    by (auto simp: res_simps split: if_splits
        dest!: mark_voted_orderly select_miners_orderly select_runners_orderly advance_processed_orderly
          reset_virtual_schedule_time_orderly install_schedule_orderly)
      (simp_all add: orderly_def keeps_gaps_def)
next
  case False
  with assms show ?thesis by (simp add: update_witness_schedule_def)
qed

end
