(* ===== verification/Hardforks.thy ===== *)
theory Hardforks
  imports Witness_Schedule
begin

text \<open>
  Versions (\<open>protocol/version.hpp\<close>, \<open>version.cpp\<close>) and hardforks (\<open>database.cpp\<close>). A version is
  a 32-bit word of major, hardfork and revision; it is printed and read through C++ streams,
  whose formatted input is modelled with its failure and end-of-file bits. The build knows
  of no hardfork after genesis, so the two arrays have one element each.

  The lemmas show that reading a printed version gives it back, that a hardfork the build
  does not know stops the node, and that the burning of the initial vesting shares keeps the
  ledger balanced.
\<close>

unbundle bit_operations_syntax

subsection \<open>Versions\<close>

definition version_num :: "nat \<Rightarrow> nat \<Rightarrow> nat \<Rightarrow> 32 word" where
  "version_num m h r = push_bit 16 (push_bit 8 (word_of_nat m) OR word_of_nat h) OR word_of_nat r"

fun int_to_string :: "nat \<Rightarrow> string" where
  "int_to_string n = (if n < 10 then [char_of (48 + n)] else int_to_string (n div 10) @ [char_of (48 + n mod 10)])"

declare int_to_string.simps [simp del]

definition version_string :: "32 word \<Rightarrow> string" where
  "version_string v =
     int_to_string (unat (drop_bit 24 v AND 0xFF)) @ ''.'' @ int_to_string (unat (drop_bit 16 v AND 0xFF)) @ ''.'' @
     int_to_string (unat (v AND 0xFFFF))"

text \<open>
  Formatted input: the sentry skips white space and fails at the end of the input; a number
  takes an optional sign and digits, fails without digits or above 32 bits, and reaching
  the end sets the end-of-file bit. A target that is not read keeps its initial zero.
\<close>

record istream =
  in_rest :: string
  in_fail :: bool
  in_eof :: bool

definition is_space :: "char \<Rightarrow> bool" where
  "is_space c \<longleftrightarrow> of_char c = (32 :: nat) \<or> (9 \<le> (of_char c :: nat) \<and> (of_char c :: nat) \<le> 13)"

definition sentry :: "istream \<Rightarrow> istream" where
  "sentry s =
     (if in_fail s \<or> in_eof s then s\<lparr>in_fail := True\<rparr>
      else
        let r = dropWhile is_space (in_rest s) in
        if r = [] then \<lparr> in_rest = [], in_fail = True, in_eof = True \<rparr> else s\<lparr>in_rest := r\<rparr>)"

definition extract_char :: "istream \<Rightarrow> char \<times> istream" where
  "extract_char s =
     (let s1 = sentry s in
      if in_fail s1 then (CHR 0x00, s1) else (hd (in_rest s1), s1\<lparr>in_rest := tl (in_rest s1)\<rparr>))"

definition dec_value :: "string \<Rightarrow> nat" where
  "dec_value ds = foldl (\<lambda>n d. 10 * n + (of_char d - 48)) 0 ds"

definition split_sign :: "string \<Rightarrow> bool \<times> string" where
  "split_sign s =
     (case s of [] \<Rightarrow> (False, [])
      | c # cs \<Rightarrow> if c = CHR ''-'' then (True, cs) else if c = CHR ''+'' then (False, cs) else (False, s))"

definition extract_u32 :: "istream \<Rightarrow> nat \<times> istream" where
  "extract_u32 s =
     (let s1 = sentry s in
      if in_fail s1 then (0, s1)
      else
        let (neg, r) = split_sign (in_rest s1);
            ds = takeWhile is_digit r;
            r1 = dropWhile is_digit r;
            s2 = s1\<lparr>in_rest := r1, in_eof := (r1 = [])\<rparr> in
        if ds = [] then (0, s2\<lparr>in_fail := True\<rparr>)
        else if dec_value ds \<ge> 2 ^ 32 then (2 ^ 32 - 1, s2\<lparr>in_fail := True\<rparr>)
        else (if neg then (2 ^ 32 - dec_value ds) mod 2 ^ 32 else dec_value ds, s2))"

definition version_from_string :: "string \<Rightarrow> exn + 32 word" where
  "version_from_string str =
     (let (major, s1) = extract_u32 \<lparr> in_rest = str, in_fail = False, in_eof = False \<rparr>;
          (dot_a, s2) = extract_char s1;
          (hardfork, s3) = extract_u32 s2;
          (dot_b, s4) = extract_char s3;
          (revision, s5) = extract_u32 s4 in
      bindR (assertR ((dot_a = CHR ''.'' \<or> dot_a = CHR ''_'') \<and> dot_a = dot_b)
        ''Variant does not contain proper dotted decimal format'') (\<lambda>_.
      bindR (assertR (major \<le> 0xFF) ''Major version is out of range'') (\<lambda>_.
      bindR (assertR (hardfork \<le> 0xFF) ''Hardfork version is out of range'') (\<lambda>_.
      bindR (assertR (revision \<le> 0xFFFF) ''Revision version is out of range'') (\<lambda>_.
      bindR (assertR (in_eof s5) ''Extra information at end of version string'') (\<lambda>_.
      Inr (push_bit 24 (word_of_nat major) OR push_bit 16 (word_of_nat hardfork) OR word_of_nat revision)))))))"

definition hardfork_version_from_string :: "string \<Rightarrow> exn + 32 word" where
  "hardfork_version_from_string str = bindR (version_from_string str) (\<lambda>v. Inr (v AND 0xFFFF0000))"

subsection \<open>Hardforks\<close>

definition BLOCKCHAIN_VERSION :: "32 word" where "BLOCKCHAIN_VERSION = version_num 0 0 0"
definition BLOCKCHAIN_HARDFORK_VERSION :: "32 word" where
  "BLOCKCHAIN_HARDFORK_VERSION = hardfork_version_of BLOCKCHAIN_VERSION"
definition NUM_HARDFORKS :: nat where "NUM_HARDFORKS = 0"

text \<open>The arrays \<open>_hardfork_times\<close> and \<open>_hardfork_versions\<close> as \<open>init_hardforks\<close> fills them.\<close>

definition hardfork_times :: "time_point_sec list" where "hardfork_times = [GENESIS_TIME]"
definition hardfork_versions :: "32 word list" where "hardfork_versions = [version_num 0 0 0]"

definition hf_at :: "'a list \<Rightarrow> nat \<Rightarrow> exn + 'a" where
  "hf_at xs i = (if i < length xs then Inr (xs ! i) else Inl (Out_of_range ''_hardforks''))"

definition init_hardforks :: "database \<Rightarrow> exn + unit" where
  "init_hardforks db =
     bindR (assertR (hf_last_hardfork (hfo db) \<le> NUM_HARDFORKS) ''Chain knows of more hardforks than configuration'') (\<lambda>_.
     bindR (hf_at hardfork_versions (hf_last_hardfork (hfo db))) (\<lambda>v.
     bindR (assertR (v \<le> BLOCKCHAIN_VERSION AND 0xFFFF0000) ''Blockchain version is older than last applied hardfork'') (\<lambda>_.
     bindR (hf_at hardfork_versions NUM_HARDFORKS) (\<lambda>w.
     assertR (BLOCKCHAIN_HARDFORK_VERSION = w) ''BMCHAIN_BLOCKCHAIN_HARDFORK_VERSION == _hardfork_versions[ BMCHAIN_NUM_HARDFORKS ]''))))"

definition has_hardfork :: "nat \<Rightarrow> database \<Rightarrow> bool" where
  "has_hardfork hardfork db \<longleftrightarrow> length (hf_processed_hardforks (hfo db)) > hardfork"

definition apply_hardfork :: "nat \<Rightarrow> database \<Rightarrow> exn + database" where
  "apply_hardfork hardfork =
     modify_hfo (\<lambda>h.
       bindR (assertR (hardfork = hf_last_hardfork h + 1) ''Hardfork being applied out of order'') (\<lambda>_.
       bindR (assertR (length (hf_processed_hardforks h) = hardfork) ''Hardfork being applied out of order'') (\<lambda>_.
       bindR (hf_at hardfork_times hardfork) (\<lambda>t.
       bindR (hf_at hardfork_versions hardfork) (\<lambda>v.
       Inr (h\<lparr>hf_processed_hardforks := hf_processed_hardforks h @ [t], hf_last_hardfork := hardfork,
             hf_current_hardfork_version := hardfork_version_of v\<rparr>))))))"

lemma apply_hardfork_last: "apply_hardfork n db = Inr db' \<Longrightarrow> hf_last_hardfork (hfo db') = hf_last_hardfork (hfo db) + 1"
  by (auto simp: apply_hardfork_def modify_hfo_def res_simps)

lemma bindR_cong [fundef_cong]: "m = m' \<Longrightarrow> (\<And>a. m' = Inr a \<Longrightarrow> f a = g a) \<Longrightarrow> bindR m f = bindR m' g"
  by (cases m') auto

function hardfork_loop :: "database \<Rightarrow> exn + database" where
  "hardfork_loop db =
     bindR (hf_at hardfork_versions (hf_last_hardfork (hfo db))) (\<lambda>v.
     if v < hf_next_hardfork (hfo db) \<and> hf_next_hardfork_time (hfo db) \<le> head_block_time db then
       if hf_last_hardfork (hfo db) < NUM_HARDFORKS
       then bindR (apply_hardfork (hf_last_hardfork (hfo db) + 1) db) hardfork_loop
       else Inl Unknown_hardfork
     else Inr db)"
  by pat_completeness auto
termination
  by (relation "measure (\<lambda>db. NUM_HARDFORKS - hf_last_hardfork (hfo db))") (auto dest: apply_hardfork_last)

declare hardfork_loop.simps [simp del]

definition burn_initial_shares :: "fc_lib \<Rightarrow> database \<Rightarrow> exn + database" where
  "burn_initial_shares fc db =
     bindR (get_account INIT_MINER_NAME db) (\<lambda>(i, _).
     bindR (modify_account i (\<lambda>a.
       bindR (asset_minus fc (a_vesting_shares a) (vests INIT_SUPPLY_REP)) (\<lambda>v. Inr (a\<lparr>a_vesting_shares := v\<rparr>))) db) (\<lambda>db1.
     modify_dgpo (\<lambda>g.
       bindR (asset_minus fc (g_current_supply g) (bmt (INIT_SUPPLY_REP div 1000))) (\<lambda>cs.
       bindR (asset_minus fc (g_total_vesting_shares g) (vests INIT_SUPPLY_REP)) (\<lambda>ts.
       bindR (asset_minus fc (g_total_vesting_fund_bmt g) (bmt (INIT_SUPPLY_REP div 1000))) (\<lambda>tf.
       Inr (g\<lparr>g_current_supply := cs, g_total_vesting_shares := ts, g_total_vesting_fund_bmt := tf\<rparr>))))) db1))"

definition process_hardforks :: "fc_lib \<Rightarrow> database \<Rightarrow> exn + database" where
  "process_hardforks fc db =
     bindR (hardfork_loop db) (\<lambda>db1.
     if g_head_block_number (dgpo db1) = BURN_INIT_REP_BLOCK then burn_initial_shares fc db1 else Inr db1)"

definition set_hardfork :: "nat \<Rightarrow> bool \<Rightarrow> database \<Rightarrow> exn + database" where
  "set_hardfork hardfork apply_now db =
     foldR (\<lambda>i db.
       bindR (hf_at hardfork_versions i) (\<lambda>v.
       bindR (modify_hfo (\<lambda>h. Inr (h\<lparr>hf_next_hardfork := hardfork_version_of v, hf_next_hardfork_time := head_block_time db\<rparr>)) db) (\<lambda>db1.
       if apply_now then apply_hardfork i db1 else Inr db1)))
       [hf_last_hardfork (hfo db) + 1 ..< min hardfork NUM_HARDFORKS + 1] db"

subsection \<open>Printing and reading versions\<close>

lemma digit_value: "d < 10 \<Longrightarrow> is_digit (char_of (48 + d)) \<and> of_char (char_of (48 + d)) = 48 + (d :: nat)"
  by (simp add: is_digit_def less_eq_char_def)

lemma int_to_string_digits: "int_to_string n \<noteq> [] \<and> list_all is_digit (int_to_string n)"
proof (induction n rule: int_to_string.induct)
  case (1 n)
  have "is_digit (char_of (48 + n mod 10))" using digit_value [of "n mod 10"] by simp
  with 1 digit_value [of n] show ?case by (subst int_to_string.simps, subst int_to_string.simps) auto
qed

lemma dec_value_int_to_string: "dec_value (int_to_string n) = n"
proof (induction n rule: int_to_string.induct)
  case (1 n)
  show ?case
  proof (cases "n < 10")
    case True
    then show ?thesis using digit_value [of n] by (simp add: int_to_string.simps [of n] dec_value_def)
  next
    case False
    with 1 have "dec_value (int_to_string (n div 10)) = n div 10" by simp
    then show ?thesis
      using False digit_value [of "n mod 10"] by (simp add: int_to_string.simps [of n] dec_value_def)
  qed
qed

lemma digit_not_space: "is_digit c \<Longrightarrow> \<not> is_space c \<and> c \<noteq> CHR ''-'' \<and> c \<noteq> CHR ''+''"
  by (auto simp: is_digit_def is_space_def less_eq_char_def)

text \<open>Reading a printed number up to a character that is no digit, and a dot.\<close>

lemma extract_printed:
  assumes "n < 2 ^ 32" and "r = [] \<or> \<not> is_digit (hd r)"
  shows "extract_u32 \<lparr> in_rest = int_to_string n @ r, in_fail = False, in_eof = False \<rparr> =
    (n, \<lparr> in_rest = r, in_fail = False, in_eof = (r = []) \<rparr>)"
proof -
  obtain d ds where s: "int_to_string n = d # ds" and d: "is_digit d" "list_all is_digit ds"
    using int_to_string_digits [of n] by (cases "int_to_string n") auto
  have sentry: "sentry \<lparr> in_rest = int_to_string n @ r, in_fail = False, in_eof = False \<rparr> =
      \<lparr> in_rest = int_to_string n @ r, in_fail = False, in_eof = False \<rparr>"
    using digit_not_space [OF d(1)] by (simp add: sentry_def s Let_def)
  have sign: "split_sign (int_to_string n @ r) = (False, int_to_string n @ r)"
    using digit_not_space [OF d(1)] by (simp add: split_sign_def s)
  have "takeWhile is_digit (int_to_string n @ r) = int_to_string n" "dropWhile is_digit (int_to_string n @ r) = r"
    using assms(2) int_to_string_digits [of n] by (cases r; auto simp: list_all_iff takeWhile_append dropWhile_append)+
  then show ?thesis
    using assms(1) int_to_string_digits [of n] dec_value_int_to_string [of n] by (simp add: extract_u32_def sentry sign Let_def)
qed

lemma extract_dot:
  "extract_char \<lparr> in_rest = ''.'' @ r, in_fail = False, in_eof = False \<rparr> =
    (CHR ''.'', \<lparr> in_rest = r, in_fail = False, in_eof = False \<rparr>)"
  by (simp add: extract_char_def sentry_def is_space_def Let_def)

lemma version_parts:
  "push_bit 24 (drop_bit 24 v AND 0xFF) OR push_bit 16 (drop_bit 16 v AND 0xFF) OR (v AND 0xFFFF) = (v :: 32 word)"
proof (rule bit_word_eqI)
  fix n assume n: "n < LENGTH(32)"
  have m: "(0xFF :: 32 word) = mask 8" "(0xFFFF :: 32 word) = mask 16" by (simp_all add: mask_eq_exp_minus_1)
  show "bit (push_bit 24 (drop_bit 24 v AND 0xFF) OR push_bit 16 (drop_bit 16 v AND 0xFF) OR (v AND 0xFFFF)) n = bit v n"
    using n unfolding m by (cases "24 \<le> n"; cases "16 \<le> n") (auto simp: bit_simps)
qed

text \<open>
  Versions survive printing. Reading the text that a version is printed as returns the
  same version, for every 32-bit version number.
\<close>

theorem version_string_roundtrip: "version_from_string (version_string v) = Inr v"
proof -
  let ?a = "drop_bit 24 v AND 0xFF" and ?b = "drop_bit 16 v AND 0xFF" and ?c = "v AND 0xFFFF"
  have bounds: "unat ?a \<le> 255" "unat ?b \<le> 255" "unat ?c \<le> 65535"
  proof -
    have "?a \<le> 0xFF" "?b \<le> 0xFF" "?c \<le> 0xFFFF" by (simp_all add: word_and_le1)
    then show "unat ?a \<le> 255" "unat ?b \<le> 255" "unat ?c \<le> 65535" by (simp_all add: word_le_nat_alt)
  qed
  have dot: "\<not> is_digit (CHR ''.'')" by (simp add: is_digit_def less_eq_char_def)
  have 1: "extract_u32 \<lparr> in_rest = version_string v, in_fail = False, in_eof = False \<rparr> =
      (unat ?a, \<lparr> in_rest = ''.'' @ int_to_string (unat ?b) @ ''.'' @ int_to_string (unat ?c), in_fail = False, in_eof = False \<rparr>)"
    using extract_printed [of "unat ?a" "''.'' @ int_to_string (unat ?b) @ ''.'' @ int_to_string (unat ?c)"] bounds dot
    by (simp add: version_string_def)
  have 2: "extract_u32 \<lparr> in_rest = int_to_string (unat ?b) @ ''.'' @ int_to_string (unat ?c), in_fail = False, in_eof = False \<rparr> =
      (unat ?b, \<lparr> in_rest = ''.'' @ int_to_string (unat ?c), in_fail = False, in_eof = False \<rparr>)"
    using extract_printed [of "unat ?b" "''.'' @ int_to_string (unat ?c)"] bounds dot by simp
  have 3: "extract_u32 \<lparr> in_rest = int_to_string (unat ?c), in_fail = False, in_eof = False \<rparr> =
      (unat ?c, \<lparr> in_rest = [], in_fail = False, in_eof = True \<rparr>)"
    using extract_printed [of "unat ?c" "[]"] bounds by simp
  show ?thesis
    unfolding version_from_string_def 1 prod.case Let_def extract_dot 2 3
    using bounds version_parts [of v] by simp
qed

subsection \<open>Hardforks and the ledger\<close>

lemma apply_hardfork_orderly [orderlies]: "apply_hardfork n db = Inr db' \<Longrightarrow> orderly db db'"
  unfolding apply_hardfork_def by (rule single_orderly)

lemma hardfork_loop_orderly: "hardfork_loop db = Inr db' \<Longrightarrow> orderly db db'"
proof (induction db rule: hardfork_loop.induct)
  case (1 db)
  from "1.prems" [unfolded hardfork_loop.simps [of db] bindR_eq_Inr] "1.IH" show ?case
    by (auto simp: bindR_eq_Inr split: if_splits dest: apply_hardfork_orderly intro: orderly_trans)
qed

context fc_exact
begin

lemma burn_initial_shares_orderly: "burn_initial_shares fc db = Inr db' \<Longrightarrow> orderly db db'"
  by (rule orderlyI, (auto simp: burn_initial_shares_def res_simps keeps_gaps_def holdings bmt_of_dgpo_def dest!: table_gaps asset_dests)[1],
      (auto simp: burn_initial_shares_def res_simps dest!: quiets intro: quiet_trans)[1])

lemma process_hardforks_orderly: "process_hardforks fc db = Inr db' \<Longrightarrow> orderly db db'"
  by (auto simp: process_hardforks_def res_simps split: if_splits
      dest!: hardfork_loop_orderly burn_initial_shares_orderly intro: orderly_trans)

end

text \<open>
  An unknown hardfork stops the node. A chain that has applied no hardfork, and whose
  witnesses agreed on a version above zero with a time that has come, throws at the end of
  the block and leaves nothing applied; as long as that is not so, the block goes on with
  the hardfork state unchanged.
\<close>

theorem unknown_hardfork_stops:
  assumes "hf_last_hardfork (hfo db) = 0"
  shows "process_hardforks fc db =
    (if hf_next_hardfork (hfo db) > 0 \<and> hf_next_hardfork_time (hfo db) \<le> head_block_time db then Inl Unknown_hardfork
     else if head_block_num db = 10512000 then burn_initial_shares fc db else Inr db)"
  using assms
  by (auto simp: process_hardforks_def hardfork_loop.simps [of db] hf_at_def hardfork_versions_def version_num_def
      NUM_HARDFORKS_def BURN_INIT_REP_BLOCK_def head_block_num_def)

theorem unknown_hardfork_stops_witness:
  "process_hardforks fc64 (sample_chain\<lparr>hfo := default_hardfork_property_object
     \<lparr>hf_next_hardfork := version_num 0 1 0, hf_next_hardfork_time := 1600000000\<rparr>\<rparr>) = Inl Unknown_hardfork"
  by (subst unknown_hardfork_stops)
    (simp_all add: default_hardfork_property_object_def version_num_def head_block_time_def sample_chain_def sample_simps
      word_greater_zero_iff push_bit_eq_mult)

end
