(* ===== verification/Loops.thy ===== *)
theory Loops
  imports Prelude
begin

text \<open>
  The loops of the block's maintenance restart at the first element of an ordered container
  until that element is not due any more. \<open>drain n nxt body\<close> is such a loop: \<open>nxt\<close> reads the
  element, \<open>body\<close> handles it, and \<open>n\<close> bounds the number of rounds. The locale \<open>draining\<close> is the
  contract between a loop and its bound: every round decreases a measure of the state. It
  gives that the bound is never met, that the loop satisfies the equation of the \<open>while\<close>
  statement without any bound, and that nothing is due when it ends.
\<close>

fun drain :: "nat \<Rightarrow> ('s \<Rightarrow> 'r option) \<Rightarrow> ('r \<Rightarrow> 's \<Rightarrow> exn + 's) \<Rightarrow> 's \<Rightarrow> exn + 's" where
  "drain n nxt body s =
     (case nxt s of
        None \<Rightarrow> Inr s
      | Some r \<Rightarrow>
          (case n of 0 \<Rightarrow> Inl (Logic_error ''loop bound'') | Suc k \<Rightarrow> bindR (body r s) (drain k nxt body)))"

declare drain.simps [simp del]

lemma drain_None [simp]: "nxt s = None \<Longrightarrow> drain n nxt body s = Inr s"
  by (simp add: drain.simps)

lemma drain_Some:
  "nxt s = Some r \<Longrightarrow> drain (Suc k) nxt body s = bindR (body r s) (drain k nxt body)"
  "nxt s = Some r \<Longrightarrow> drain 0 nxt body s = Inl (Logic_error ''loop bound'')"
  by (simp_all add: drain.simps)

text \<open>What holds of every loop that returns.\<close>

lemma drain_done: "drain n nxt body s = Inr s' \<Longrightarrow> nxt s' = None"
proof (induction n arbitrary: s)
  case 0
  then show ?case by (cases "nxt s") (auto simp: drain_Some)
next
  case (Suc n)
  then show ?case by (cases "nxt s") (auto simp: drain_Some bindR_eq_Inr)
qed

lemma drain_rel:
  assumes "\<And>s r s'. nxt s = Some r \<Longrightarrow> body r s = Inr s' \<Longrightarrow> R s s'" and "\<And>s. R s s"
    and "\<And>s t u. R s t \<Longrightarrow> R t u \<Longrightarrow> R s u" and "drain n nxt body s = Inr s'"
  shows "R s s'"
  using assms(4)
proof (induction n arbitrary: s)
  case 0
  then show ?case using assms(2) by (cases "nxt s") (auto simp: drain_Some)
next
  case (Suc n)
  then show ?case
    using assms(1-3) by (cases "nxt s") (auto simp: drain_Some bindR_eq_Inr intro: assms(2) dest: Suc.IH, blast)
qed

locale draining =
  fixes nxt :: "'s \<Rightarrow> 'r option" and body :: "'r \<Rightarrow> 's \<Rightarrow> exn + 's" and size :: "'s \<Rightarrow> nat"
    and inv :: "'s \<Rightarrow> bool"
  assumes round: "inv s \<Longrightarrow> nxt s = Some r \<Longrightarrow> body r s = Inr s' \<Longrightarrow> size s' < size s \<and> inv s'"
    and due_size: "inv s \<Longrightarrow> nxt s = Some r \<Longrightarrow> size s > 0"
begin

lemma drain_bound: "inv s \<Longrightarrow> size s \<le> n \<Longrightarrow> size s \<le> m \<Longrightarrow> drain n nxt body s = drain m nxt body s"
proof (induction n arbitrary: s m)
  case 0
  then have "nxt s = None" using due_size [of s] by (cases "nxt s") auto
  then show ?case by simp
next
  case (Suc n)
  show ?case
  proof (cases "nxt s")
    case None
    then show ?thesis by simp
  next
    case (Some r)
    with Suc.prems due_size [of s r] obtain k where m: "m = Suc k" by (cases m) auto
    show ?thesis
    proof (cases "body r s")
      case (Inl e)
      then show ?thesis using Some by (simp add: m drain_Some)
    next
      case (Inr s')
      then have "size s' \<le> n" "size s' \<le> k" "inv s'" using round [OF Suc.prems(1) Some Inr] Suc.prems m by auto
      then have "drain n nxt body s' = drain k nxt body s'" by (intro Suc.IH)
      with Inr Some show ?thesis by (simp add: m drain_Some)
    qed
  qed
qed

text \<open>The equation of the \<open>while\<close> statement.\<close>

lemma drain_unfold:
  assumes "inv s"
  shows "drain (size s) nxt body s =
    (case nxt s of None \<Rightarrow> Inr s | Some r \<Rightarrow> bindR (body r s) (\<lambda>s'. drain (size s') nxt body s'))"
proof (cases "nxt s")
  case (Some r)
  then obtain k where k: "size s = Suc k" using due_size [OF assms Some] by (cases "size s") auto
  have "bindR (body r s) (drain k nxt body) = bindR (body r s) (\<lambda>s'. drain (size s') nxt body s')"
  proof (cases "body r s")
    case (Inr s')
    then have "size s' \<le> k" "inv s'" using round [OF assms Some Inr] k by auto
    with drain_bound [of s' k "size s'"] Inr show ?thesis by simp
  qed simp
  then show ?thesis by (simp add: k Some drain_Some)
qed simp

text \<open>A loop that throws, throws what a round throws: it ends, and the bound is not met.\<close>

lemma drain_throws:
  "inv s \<Longrightarrow> size s \<le> n \<Longrightarrow> drain n nxt body s = Inl e \<Longrightarrow> \<exists>t r. nxt t = Some r \<and> body r t = Inl e"
proof (induction n arbitrary: s)
  case 0
  then show ?case using due_size [of s] by (cases "nxt s") auto
next
  case (Suc n)
  then show ?case
  proof (cases "nxt s")
    case (Some r)
    with Suc.prems(3) consider "body r s = Inl e" | s' where "body r s = Inr s'" "drain n nxt body s' = Inl e"
      by (auto simp: drain_Some bindR_eq_Inl)
    then show ?thesis
    proof cases
      case 2
      with round [OF Suc.prems(1) Some] Suc.prems(2) Suc.IH [of s'] show ?thesis by fastforce
    qed (use Some in blast)
  qed simp
qed

end

text \<open>The first element of an index in the order of a key, if it is due.\<close>

definition first_due :: "('v \<Rightarrow> 'k::linorder) \<Rightarrow> ('v \<Rightarrow> bool) \<Rightarrow> (oid \<times> 'v) list \<Rightarrow> (oid \<times> 'v) option" where
  "first_due key due rs =
     (case sort_key (\<lambda>r. key (snd r)) rs of [] \<Rightarrow> None | r # _ \<Rightarrow> if due (snd r) then Some r else None)"

lemma first_due_mem: "first_due key due rs = Some r \<Longrightarrow> r \<in> set rs \<and> due (snd r)"
proof -
  assume a: "first_due key due rs = Some r"
  then obtain rest where "sort_key (\<lambda>r. key (snd r)) rs = r # rest" and "due (snd r)"
    by (auto simp: first_due_def split: list.splits if_splits)
  moreover from this(1) have "r \<in> set rs" by (metis list.set_intros(1) set_sort)
  ultimately show ?thesis by simp
qed

lemma first_due_None:
  assumes "first_due key due rs = None" and "\<And>v w. due w \<Longrightarrow> key v \<le> key w \<Longrightarrow> due v"
  shows "\<forall>r \<in> set rs. \<not> due (snd r)"
proof (cases "sort_key (\<lambda>r. key (snd r)) rs")
  case Nil
  then have "set (sort_key (\<lambda>r. key (snd r)) rs) = {}" by simp
  then show ?thesis by simp
next
  case (Cons r rest)
  have s: "sorted (map (\<lambda>r. key (snd r)) (sort_key (\<lambda>r. key (snd r)) rs))" by simp
  have "\<forall>x \<in> set (r # rest). key (snd r) \<le> key (snd x)" using s unfolding Cons by auto
  moreover have "set (r # rest) = set rs" using Cons by (metis set_sort)
  moreover have "\<not> due (snd r)" using assms(1) Cons by (auto simp: first_due_def split: if_splits)
  ultimately show ?thesis using assms(2) by metis
qed

lemma length_del_row: "map_of rs i = Some v \<Longrightarrow> length (del_row i rs) < length rs"
  by (induction i rs rule: del_row.induct) (auto split: if_splits)

end
