(* ===== verification/Expiry.thy ===== *)
theory Expiry
  imports Hardforks Loops
begin

text \<open>
  The part of a block's maintenance that removes what has expired (\<open>database.cpp\<close>): records of
  transactions, limit orders, returned delegations, recovery requests, owner histories,
  changes of recovery accounts, escrows that were not ratified and requests to decline
  voting rights; and the clearing of the \<open>null\<close> account. Each loop restarts at the first
  element of an index until that is not due; its bound is the number of rows, and the
  interpretations of \<open>draining\<close> show that the bound is never met. Rows with equal keys in an
  index that allows them are taken in the order of their ids.

  The lemmas show that the loops end, what is left when they do, and that all of them keep
  the ledger balanced.
\<close>

definition due_transaction :: "database \<Rightarrow> (oid \<times> transaction_object) option" where
  "due_transaction db = first_due tx_expiration (\<lambda>t. head_block_time db > tx_expiration t) (indices (transactions db))"

definition clear_expired_transactions :: "database \<Rightarrow> exn + database" where
  "clear_expired_transactions db =
     drain (length (indices (transactions db))) due_transaction (\<lambda>r. remove_transaction (fst r)) db"

definition due_order :: "database \<Rightarrow> (oid \<times> limit_order_object) option" where
  "due_order db = first_due lo_expiration (\<lambda>lo. lo_expiration lo < head_block_time db) (indices (limit_orders db))"

definition clear_expired_orders :: "fc_lib \<Rightarrow> database \<Rightarrow> exn + database" where
  "clear_expired_orders fc db =
     drain (length (indices (limit_orders db))) due_order (\<lambda>r. cancel_order fc (fst r)) db"

definition due_delegation :: "database \<Rightarrow> (oid \<times> rep_delegation_expiration_object) option" where
  "due_delegation db =
     first_due ve_expiration (\<lambda>e. ve_expiration e < head_block_time db) (indices (delegation_expirations db))"

definition return_delegation :: "fc_lib \<Rightarrow> oid \<times> rep_delegation_expiration_object \<Rightarrow> database \<Rightarrow> exn + database" where
  "return_delegation fc r db =
     bindR (get_account (ve_delegator (snd r)) db) (\<lambda>(i, _).
     bindR (modify_account i (\<lambda>a.
       bindR (asset_minus fc (a_delegated_vesting_shares a) (ve_vesting_shares (snd r))) (\<lambda>d.
       Inr (a\<lparr>a_delegated_vesting_shares := d\<rparr>))) db) (\<lambda>db1.
     remove_delegation_expiration (fst r) db1))"

definition clear_expired_delegations :: "fc_lib \<Rightarrow> database \<Rightarrow> exn + database" where
  "clear_expired_delegations fc db =
     drain (length (indices (delegation_expirations db))) due_delegation (return_delegation fc) db"

subsection \<open>Account recovery\<close>

definition due_recovery :: "database \<Rightarrow> (oid \<times> account_recovery_request_object) option" where
  "due_recovery db = first_due rr_expires (\<lambda>r. rr_expires r \<le> head_block_time db) (indices (recovery_requests db))"

text \<open>The histories are read in the order of their ids.\<close>

definition due_history :: "database \<Rightarrow> (oid \<times> owner_authority_history_object) option" where
  "due_history db =
     (case indices (owner_histories db) of
        [] \<Rightarrow> None
      | r # _ \<Rightarrow>
          if time_plus (oh_last_valid_time (snd r)) OWNER_AUTH_RECOVERY_PERIOD < head_block_time db then Some r else None)"

definition due_change :: "database \<Rightarrow> (oid \<times> change_recovery_account_request_object) option" where
  "due_change db =
     first_due crr_effective_on (\<lambda>r. crr_effective_on r \<le> head_block_time db) (indices (change_recovery_requests db))"

definition change_recovery :: "oid \<times> change_recovery_account_request_object \<Rightarrow> database \<Rightarrow> exn + database" where
  "change_recovery r db =
     bindR (get_account (crr_account_to_recover (snd r)) db) (\<lambda>(i, _).
     bindR (modify_account i (\<lambda>a. Inr (a\<lparr>a_recovery_account := crr_recovery_account (snd r)\<rparr>)) db) (\<lambda>db1.
     remove_change_recovery (fst r) db1))"

definition account_recovery_processing :: "database \<Rightarrow> exn + database" where
  "account_recovery_processing db =
     bindR (drain (length (indices (recovery_requests db))) due_recovery (\<lambda>r. remove_recovery_request (fst r)) db) (\<lambda>db1.
     bindR (drain (length (indices (owner_histories db1))) due_history (\<lambda>r. remove_owner_history (fst r)) db1) (\<lambda>db2.
     drain (length (indices (change_recovery_requests db2))) due_change change_recovery db2))"

subsection \<open>Escrows and voting rights\<close>

text \<open>
  The iterator moves to the next escrow before the current one is removed, and nothing in
  the loop changes another escrow, so the loop visits the due escrows of the index.
\<close>

definition unratified_escrows :: "database \<Rightarrow> (oid \<times> escrow_object) list" where
  "unratified_escrows db =
     takeWhile (\<lambda>r. e_ratification_deadline (snd r) \<le> head_block_time db)
       (sort_key (\<lambda>r. e_ratification_deadline (snd r)) (filter (\<lambda>r. \<not> is_approved (snd r)) (indices (escrows db))))"

definition refund_escrow :: "fc_lib \<Rightarrow> oid \<times> escrow_object \<Rightarrow> database \<Rightarrow> exn + database" where
  "refund_escrow fc r db =
     bindR (get_account (e_from (snd r)) db) (\<lambda>(i, _).
     bindR (adjust_balance fc i (e_bmt_balance (snd r)) db) (\<lambda>db1.
     bindR (adjust_balance fc i (e_pending_fee (snd r)) db1) (\<lambda>db2.
     remove_escrow (fst r) db2)))"

definition expire_escrow_ratification :: "fc_lib \<Rightarrow> database \<Rightarrow> exn + database" where
  "expire_escrow_ratification fc db = foldR (refund_escrow fc) (unratified_escrows db) db"

definition due_decline :: "database \<Rightarrow> (oid \<times> decline_voting_rights_request_object) option" where
  "due_decline db =
     first_due (\<lambda>d. (dr_effective_date d, dr_account d)) (\<lambda>d. dr_effective_date d \<le> head_block_time db)
       (indices (decline_requests db))"

definition negated_votes :: "fc_lib \<Rightarrow> account_object \<Rightarrow> exn + int list" where
  "negated_votes fc a =
     foldR (\<lambda>v acc. bindR (safe_neg fc v) (\<lambda>n. Inr (acc @ [n]))) (amount (a_vesting_shares a) # a_proxied_vsf_votes a) []"

definition decline_voting :: "fc_lib \<Rightarrow> oid \<times> decline_voting_rights_request_object \<Rightarrow> database \<Rightarrow> exn + database" where
  "decline_voting fc r db =
     (let i = dr_account (snd r) in
      bindR (get_id (accounts db) i) (\<lambda>a.
      bindR (negated_votes fc a) (\<lambda>delta.
      bindR (adjust_proxied_witness_votes_array fc i delta db) (\<lambda>db1.
      bindR (clear_witness_votes i db1) (\<lambda>db2.
      bindR (modify_account i (\<lambda>a. Inr (a\<lparr>a_can_vote := False, a_proxy := PROXY_TO_SELF_ACCOUNT\<rparr>)) db2) (\<lambda>db3.
      remove_decline_request (fst r) db3))))))"

definition process_decline_voting_rights :: "fc_lib \<Rightarrow> database \<Rightarrow> exn + database" where
  "process_decline_voting_rights fc db =
     drain (length (indices (decline_requests db))) due_decline (decline_voting fc) db"

subsection \<open>The null account and the virtual supply\<close>

definition update_virtual_supply :: "database \<Rightarrow> exn + database" where
  "update_virtual_supply = modify_dgpo (\<lambda>g. Inr (g\<lparr>g_virtual_supply := g_current_supply g\<rparr>))"

text \<open>Each step adds what it clears to the total.\<close>

type_synonym null_state = "database \<times> asset"

definition null_balance :: "fc_lib \<Rightarrow> oid \<Rightarrow> null_state \<Rightarrow> exn + null_state" where
  "null_balance fc i = (\<lambda>(db, total).
     bindR (get_id (accounts db) i) (\<lambda>a.
     if amount (a_balance a) > 0 then
       bindR (asset_plus fc total (a_balance a)) (\<lambda>t.
       bindR (asset_neg fc (a_balance a)) (\<lambda>n. bindR (adjust_balance fc i n db) (\<lambda>db1. Inr (db1, t))))
     else Inr (db, total)))"

definition null_savings :: "fc_lib \<Rightarrow> oid \<Rightarrow> null_state \<Rightarrow> exn + null_state" where
  "null_savings fc i = (\<lambda>(db, total).
     bindR (get_id (accounts db) i) (\<lambda>a.
     if amount (a_savings_balance a) > 0 then
       bindR (asset_plus fc total (a_savings_balance a)) (\<lambda>t.
       bindR (asset_neg fc (a_savings_balance a)) (\<lambda>n. bindR (adjust_savings_balance fc i n db) (\<lambda>db1. Inr (db1, t))))
     else Inr (db, total)))"

definition null_vesting :: "fc_lib \<Rightarrow> oid \<Rightarrow> null_state \<Rightarrow> exn + null_state" where
  "null_vesting fc i = (\<lambda>(db, total).
     bindR (get_id (accounts db) i) (\<lambda>a.
     if amount (a_vesting_shares a) > 0 then
       bindR (get_vesting_share_price (dgpo db)) (\<lambda>pr.
       bindR (asset_times_price fc (a_vesting_shares a) pr) (\<lambda>converted_bmt.
       bindR (modify_dgpo (\<lambda>g.
         bindR (asset_minus fc (g_total_vesting_shares g) (a_vesting_shares a)) (\<lambda>ts.
         bindR (asset_minus fc (g_total_vesting_fund_bmt g) converted_bmt) (\<lambda>tf.
         Inr (g\<lparr>g_total_vesting_shares := ts, g_total_vesting_fund_bmt := tf\<rparr>)))) db) (\<lambda>db1.
       bindR (modify_account i (\<lambda>a. Inr (a\<lparr>a_vesting_shares := (a_vesting_shares a)\<lparr>amount := 0\<rparr>\<rparr>)) db1) (\<lambda>db2.
       bindR (asset_plus fc total converted_bmt) (\<lambda>t. Inr (db2, t))))))
     else Inr (db, total)))"

definition null_rewards :: "fc_lib \<Rightarrow> oid \<Rightarrow> null_state \<Rightarrow> exn + null_state" where
  "null_rewards fc i = (\<lambda>(db, total).
     bindR (get_id (accounts db) i) (\<lambda>a.
     if amount (a_reward_bmt_balance a) > 0 then
       bindR (asset_plus fc total (a_reward_bmt_balance a)) (\<lambda>t.
       bindR (asset_neg fc (a_reward_bmt_balance a)) (\<lambda>n. bindR (adjust_reward_balance fc i n db) (\<lambda>db1. Inr (db1, t))))
     else Inr (db, total)))"

definition null_reward_vesting :: "fc_lib \<Rightarrow> oid \<Rightarrow> null_state \<Rightarrow> exn + null_state" where
  "null_reward_vesting fc i = (\<lambda>(db, total).
     bindR (get_id (accounts db) i) (\<lambda>a.
     if amount (a_reward_vesting_balance a) > 0 then
       bindR (asset_plus fc total (a_reward_vesting_bmt a)) (\<lambda>t.
       bindR (modify_dgpo (\<lambda>g.
         bindR (asset_minus fc (g_pending_rewarded_vesting_shares g) (a_reward_vesting_balance a)) (\<lambda>ps.
         bindR (asset_minus fc (g_pending_rewarded_vesting_bmt g) (a_reward_vesting_bmt a)) (\<lambda>pb.
         Inr (g\<lparr>g_pending_rewarded_vesting_shares := ps, g_pending_rewarded_vesting_bmt := pb\<rparr>)))) db) (\<lambda>db1.
       bindR (modify_account i (\<lambda>a. Inr (a\<lparr>a_reward_vesting_bmt := (a_reward_vesting_bmt a)\<lparr>amount := 0\<rparr>,
           a_reward_vesting_balance := (a_reward_vesting_balance a)\<lparr>amount := 0\<rparr>\<rparr>)) db1) (\<lambda>db2.
       Inr (db2, t))))
     else Inr (db, total)))"

text \<open>Everything of the \<open>null\<close> account into one total, before the supply is reduced by it.\<close>

definition empty_null_account :: "fc_lib \<Rightarrow> database \<Rightarrow> exn + null_state" where
  "empty_null_account fc db =
     bindR (get_account NULL_ACCOUNT db) (\<lambda>(i, _).
     bindR (null_balance fc i (db, bmt 0)) (\<lambda>s1.
     bindR (null_savings fc i s1) (\<lambda>s2.
     bindR (null_vesting fc i s2) (\<lambda>s3.
     bindR (null_rewards fc i s3) (null_reward_vesting fc i)))))"

definition clear_null_account_balance :: "fc_lib \<Rightarrow> database \<Rightarrow> exn + database" where
  "clear_null_account_balance fc db =
     bindR (empty_null_account fc db) (\<lambda>(db1, total).
     if amount total > 0 then bindR (asset_neg fc total) (\<lambda>n. adjust_supply fc n False db1) else Inr db1)"

subsection \<open>The loops end\<close>

lemma removal_draining:
  assumes "\<And>s r. nxt s = Some r \<Longrightarrow> tbl s \<noteq> []"
    and "\<And>r s s'. body r s = Inr s' \<Longrightarrow> length (tbl s') < length (tbl s)"
  shows "draining nxt body (\<lambda>s. length (tbl s)) (\<lambda>_. True)"
  using assms by unfold_locales auto

lemma first_due_nonempty: "first_due key due rs = Some r \<Longrightarrow> rs \<noteq> []"
  by (auto dest: first_due_mem)

lemma remove_shrinks: "remove i g = Inr g' \<Longrightarrow> length (indices g') < length (indices g)"
  by (auto elim!: removeD dest: length_del_row)

lemma cancel_order_shrinks: "cancel_order fc i db = Inr db' \<Longrightarrow> length (indices (limit_orders db')) < length (indices (limit_orders db))"
  by (auto simp: cancel_order_def remove_limit_order_def res_simps dest!: frames remove_shrinks)

lemma adjust_proxied_witness_votes_array_at_decline:
  "adjust_proxied_witness_votes_array_at fc n i d db = Inr db' \<Longrightarrow> decline_requests db' = decline_requests db"
  by (induction n arbitrary: i db)
    (fastforce simp: res_simps Let_def split: if_splits dest: frames)+

lemma decline_voting_shrinks:
  assumes "decline_voting fc r db = Inr db'"
  shows "length (indices (decline_requests db')) < length (indices (decline_requests db))"
proof -
  have clear: "clear_witness_votes i s = Inr t \<Longrightarrow> decline_requests t = decline_requests s" for i s t
    by (auto simp: clear_witness_votes_def res_simps remove_witness_vote_def dest!: frames
        foldR_const [where m = decline_requests, rotated])
  from assms show ?thesis
    by (auto simp: decline_voting_def adjust_proxied_witness_votes_array_def Let_def res_simps remove_decline_request_def
        dest!: adjust_proxied_witness_votes_array_at_decline clear frames remove_shrinks)
qed

interpretation trx_expiry: draining due_transaction "\<lambda>r. remove_transaction (fst r)"
    "\<lambda>db. length (indices (transactions db))" "\<lambda>_. True"
  by (rule removal_draining)
    (auto simp: due_transaction_def remove_transaction_def res_simps dest: first_due_nonempty remove_shrinks)

interpretation order_expiry: draining due_order "\<lambda>r. cancel_order fc (fst r)"
    "\<lambda>db. length (indices (limit_orders db))" "\<lambda>_. True" for fc
  by (rule removal_draining) (auto simp: due_order_def dest: first_due_nonempty cancel_order_shrinks)

interpretation delegation_expiry: draining due_delegation "return_delegation fc"
    "\<lambda>db. length (indices (delegation_expirations db))" "\<lambda>_. True" for fc
  by (rule removal_draining)
    (auto simp: due_delegation_def return_delegation_def remove_delegation_expiration_def res_simps
      dest!: frames remove_shrinks dest: first_due_nonempty)

interpretation recovery_expiry: draining due_recovery "\<lambda>r. remove_recovery_request (fst r)"
    "\<lambda>db. length (indices (recovery_requests db))" "\<lambda>_. True"
  by (rule removal_draining)
    (auto simp: due_recovery_def remove_recovery_request_def res_simps dest: first_due_nonempty remove_shrinks)

interpretation history_expiry: draining due_history "\<lambda>r. remove_owner_history (fst r)"
    "\<lambda>db. length (indices (owner_histories db))" "\<lambda>_. True"
  by (rule removal_draining)
    (auto simp: due_history_def remove_owner_history_def res_simps split: list.splits dest: remove_shrinks)

interpretation change_expiry: draining due_change change_recovery
    "\<lambda>db. length (indices (change_recovery_requests db))" "\<lambda>_. True"
  by (rule removal_draining)
    (auto simp: due_change_def change_recovery_def remove_change_recovery_def res_simps
      dest!: frames remove_shrinks dest: first_due_nonempty)

interpretation decline_expiry: draining due_decline "decline_voting fc"
    "\<lambda>db. length (indices (decline_requests db))" "\<lambda>_. True" for fc
  by (rule removal_draining) (auto simp: due_decline_def dest: first_due_nonempty decline_voting_shrinks)

subsection \<open>Expired transactions\<close>

lemma del_row_filter:
  "rows_sorted rs \<Longrightarrow> map_of rs i = Some v \<Longrightarrow> \<not> P v \<Longrightarrow> filter (\<lambda>r. P (snd r)) (del_row i rs) = filter (\<lambda>r. P (snd r)) rs"
  by (induction i rs rule: del_row.induct) (auto split: if_splits)

lemma sorted_map_of: "rows_sorted rs \<Longrightarrow> r \<in> set rs \<Longrightarrow> map_of rs (fst r) = Some (snd r)"
  by (metis map_of_is_SomeI prod.collapse rows_sorted_distinct)

lemma remove_present:
  "map_of (indices g) i = Some v \<Longrightarrow> \<exists>g'. remove i g = Inr g' \<and> indices g' = del_row i (indices g)"
  by (simp add: remove_def)

lemma clear_expired_transactions_rows:
  "rows_sorted (indices (transactions db)) \<Longrightarrow> n = length (indices (transactions db)) \<Longrightarrow>
   \<exists>t. clear_expired_transactions db = Inr (db\<lparr>transactions := t\<rparr>) \<and> rows_sorted (indices t) \<and>
     indices t = filter (\<lambda>r. tx_expiration (snd r) \<ge> head_block_time db) (indices (transactions db))"
proof (induction n arbitrary: db rule: less_induct)
  case (less n)
  show ?case
  proof (cases "due_transaction db")
    case None
    then have "\<forall>r \<in> set (indices (transactions db)). \<not> tx_expiration (snd r) < head_block_time db"
      unfolding due_transaction_def by (rule first_due_None) auto
    then have "filter (\<lambda>r. tx_expiration (snd r) \<ge> head_block_time db) (indices (transactions db)) = indices (transactions db)"
      by (auto simp: filter_id_conv)
    then show ?thesis
      using None less.prems(1) by (simp add: clear_expired_transactions_def exI [of _ "transactions db"])
  next
    case (Some r)
    then have r: "r \<in> set (indices (transactions db))" "tx_expiration (snd r) < head_block_time db"
      by (auto simp: due_transaction_def dest: first_due_mem)
    then have row: "map_of (indices (transactions db)) (fst r) = Some (snd r)" by (intro sorted_map_of less.prems)
    obtain g where g: "remove (fst r) (transactions db) = Inr g" "indices g = del_row (fst r) (indices (transactions db))"
      using remove_present [OF row] by auto
    let ?db1 = "db\<lparr>transactions := g\<rparr>"
    have len: "length (indices (transactions ?db1)) < n" using g(1) less.prems(2) by (auto dest: remove_shrinks)
    have srt: "rows_sorted (indices (transactions ?db1))" using g(2) less.prems(1) by (simp add: rows_sorted_del_row)
    have "clear_expired_transactions db = clear_expired_transactions ?db1"
      unfolding clear_expired_transactions_def trx_expiry.drain_unfold [OF TrueI, of db]
      using Some g(1) by (simp add: remove_transaction_def)
    moreover note less.IH [OF len srt refl]
    moreover have "filter (\<lambda>r. tx_expiration (snd r) \<ge> head_block_time db) (indices g) =
        filter (\<lambda>r. tx_expiration (snd r) \<ge> head_block_time db) (indices (transactions db))"
      unfolding g(2) using less.prems(1) row r(2) by (intro del_row_filter) auto
    ultimately show ?thesis by (auto simp: head_block_time_def)
  qed
qed

text \<open>
  Expiry of transaction records. The clean-up of a block always returns, and what is
  left is exactly the records whose transaction has not expired at the head block: a record
  is kept as long as its transaction could still be applied.
\<close>

theorem clear_expired_transactions_exact:
  assumes "rows_sorted (indices (transactions db))"
  shows "\<exists>db'. clear_expired_transactions db = Inr db' \<and>
    indices (transactions db') = filter (\<lambda>r. tx_expiration (snd r) \<ge> head_block_time db) (indices (transactions db))"
  using clear_expired_transactions_rows [OF assms refl] by auto

theorem clear_expired_transactions_exact_witness:
  "\<exists>db'. clear_expired_transactions (sample_chain\<lparr>transactions := mk_index
       [(0, \<lparr> tx_trx_id = ''a'', tx_expiration = 1599999999 \<rparr>), (1, \<lparr> tx_trx_id = ''b'', tx_expiration = 1600000050 \<rparr>)] 2\<rparr>) = Inr db' \<and>
     indices (transactions db') = [(1, \<lparr> tx_trx_id = ''b'', tx_expiration = 1600000050 \<rparr>)]"
  using clear_expired_transactions_exact [of "sample_chain\<lparr>transactions := mk_index
       [(0, \<lparr> tx_trx_id = ''a'', tx_expiration = 1599999999 \<rparr>), (1, \<lparr> tx_trx_id = ''b'', tx_expiration = 1600000050 \<rparr>)] 2\<rparr>"]
  by (simp add: mk_index_def head_block_time_def sample_chain_def sample_simps)

subsection \<open>The ledger\<close>

lemma drain_orderly:
  "(\<And>r s s'. body r s = Inr s' \<Longrightarrow> orderly s s') \<Longrightarrow> drain n nxt body db = Inr db' \<Longrightarrow> orderly db db'"
  by (erule drain_rel [rotated 3]) (auto intro: orderly_trans)

lemma keeps_orderlyI: "keeps_gaps db db' \<Longrightarrow> (db_sorted db \<Longrightarrow> quiet db db') \<Longrightarrow> orderly db db'"
  by (auto simp: orderly_def chain_inv_def quiet_defs)

lemma clear_expired_transactions_orderly [orderlies]: "clear_expired_transactions db = Inr db' \<Longrightarrow> orderly db db'"
  unfolding clear_expired_transactions_def
  by (erule drain_orderly [rotated]) (auto simp: orderly_def remove_transaction_def res_simps keeps_gaps_def gap_defs)

lemma account_recovery_processing_orderly [orderlies]: "account_recovery_processing db = Inr db' \<Longrightarrow> orderly db db'"
proof -
  have c: "change_recovery r s = Inr s' \<Longrightarrow> orderly s s'" for r s s'
    by (rule orderlyI, (auto simp: change_recovery_def res_simps keeps_gaps_def holdings dest!: table_gaps)[1],
        (auto simp: change_recovery_def res_simps dest!: quiets intro: quiet_trans)[1])
  assume "account_recovery_processing db = Inr db'"
  then show ?thesis unfolding account_recovery_processing_def bindR_eq_Inr
    by (auto dest!: drain_orderly [rotated, where body = change_recovery, OF _ c]
        drain_orderly [rotated, where body = "\<lambda>r. remove_recovery_request (fst r)", OF _ table_orderly(16)]
        drain_orderly [rotated, where body = "\<lambda>r. remove_owner_history (fst r)", OF _ table_orderly(20)] intro: orderly_trans)
qed

lemma update_virtual_supply_orderly [orderlies]: "update_virtual_supply db = Inr db' \<Longrightarrow> orderly db db'"
  unfolding update_virtual_supply_def by (erule modify_dgpo_orderly) (auto simp: bmt_of_dgpo_def)

context fc_exact
begin

lemma clear_expired_orders_orderly: "clear_expired_orders fc db = Inr db' \<Longrightarrow> orderly db db'"
  unfolding clear_expired_orders_def
  by (erule drain_orderly [rotated]) (rule keeps_orderlyI, erule cancel_order_gaps, erule (1) cancel_order_quiet)

lemma clear_expired_delegations_orderly: "clear_expired_delegations fc db = Inr db' \<Longrightarrow> orderly db db'"
  unfolding clear_expired_delegations_def
  by (erule drain_orderly [rotated], rule orderlyI,
      (auto simp: return_delegation_def res_simps keeps_gaps_def holdings dest!: table_gaps)[1],
      (auto simp: return_delegation_def res_simps dest!: quiets intro: quiet_trans)[1])

lemma process_decline_voting_rights_orderly: "process_decline_voting_rights fc db = Inr db' \<Longrightarrow> orderly db db'"
  unfolding process_decline_voting_rights_def
  by (erule drain_orderly [rotated], rule orderlyI,
      (auto simp: decline_voting_def Let_def res_simps keeps_gaps_def holdings dest!: table_gaps)[1],
      (auto simp: decline_voting_def Let_def res_simps quiet_defs dest!: quiets)[1])

lemma refund_escrowD:
  assumes "refund_escrow fc r db = Inr db'" and "map_of (indices (escrows db)) (fst r) = Some (snd r)"
    and "rows_sorted (indices (escrows db))"
  shows "keeps_gaps db db' \<and> calm db db' \<and> rows_sorted (indices (escrows db')) \<and>
    map_of (indices (escrows db')) = (map_of (indices (escrows db)))(fst r := None)"
proof -
  from assms(1) obtain i a db1 db2 where "get_account (e_from (snd r)) db = Inr (i, a)"
    and b: "adjust_balance fc i (e_bmt_balance (snd r)) db = Inr db1" "adjust_balance fc i (e_pending_fee (snd r)) db1 = Inr db2"
    and rm: "remove_escrow (fst r) db2 = Inr db'"
    by (auto simp: refund_escrow_def res_simps)
  have "escrows db2 = escrows db" using adjust_balance_frame [OF b(1)] adjust_balance_frame [OF b(2)] by auto
  moreover have "calm db db'" using b rm by (auto simp: quiet_defs dest!: quiets)
  ultimately show ?thesis
    using escrow_reject_gaps [OF b rm assms(2)] remove_escrow_ok [OF rm] assms(3) by simp
qed

lemma refund_escrows:
  "foldR (refund_escrow fc) rs db = Inr db' \<Longrightarrow> distinct (map fst rs) \<Longrightarrow>
   \<forall>r \<in> set rs. map_of (indices (escrows db)) (fst r) = Some (snd r) \<Longrightarrow> rows_sorted (indices (escrows db)) \<Longrightarrow>
   keeps_gaps db db' \<and> calm db db' \<and> rows_sorted (indices (escrows db')) \<and>
   map_of (indices (escrows db')) = (map_of (indices (escrows db))) |` (- set (map fst rs))"
proof (induction rs arbitrary: db)
  case (Cons r rs)
  from Cons.prems(1) obtain db1 where 1: "refund_escrow fc r db = Inr db1" and 2: "foldR (refund_escrow fc) rs db1 = Inr db'"
    by (auto simp: bindR_eq_Inr)
  note d = refund_escrowD [OF 1 _ Cons.prems(4)]
  have "\<forall>r' \<in> set rs. map_of (indices (escrows db1)) (fst r') = Some (snd r')" using d Cons.prems by (force split: if_splits)
  with Cons.IH [OF 2] d Cons.prems show ?case
    by (auto simp: fun_eq_iff restrict_map_def intro: keeps_gaps_trans calm_trans)
qed (auto simp: restrict_map_def)

lemma takeWhile_sorted:
  fixes k :: "'a \<Rightarrow> 'k::linorder"
  shows "sorted (map k xs) \<Longrightarrow> takeWhile (\<lambda>x. k x \<le> t) xs = filter (\<lambda>x. k x \<le> t) xs"
  by (induction xs) (auto intro!: filter_False [symmetric] dest: order_trans)

lemma unratified_rows:
  assumes "rows_sorted (indices (escrows db))"
  shows "distinct (map fst (unratified_escrows db))"
    and "set (unratified_escrows db) =
      {r \<in> set (indices (escrows db)). \<not> is_approved (snd r) \<and> e_ratification_deadline (snd r) \<le> head_block_time db}"
proof -
  let ?k = "\<lambda>r :: oid \<times> escrow_object. e_ratification_deadline (snd r)" and ?due = "\<lambda>r :: oid \<times> escrow_object. e_ratification_deadline (snd r) \<le> head_block_time db"
  let ?rs = "sort_key ?k (filter (\<lambda>r. \<not> is_approved (snd r)) (indices (escrows db)))"
  have "distinct (map fst (filter (\<lambda>r. \<not> is_approved (snd r)) (indices (escrows db))))"
    using rows_sorted_distinct [OF assms] by (simp add: distinct_map_filter)
  then have "distinct (map fst ?rs)" by (simp add: distinct_map)
  then show "distinct (map fst (unratified_escrows db))"
    unfolding unratified_escrows_def by (metis distinct_take map_append distinct_append takeWhile_dropWhile_id)
  have "takeWhile ?due ?rs = filter ?due ?rs" by (rule takeWhile_sorted) simp
  then show "set (unratified_escrows db) =
      {r \<in> set (indices (escrows db)). \<not> is_approved (snd r) \<and> e_ratification_deadline (snd r) \<le> head_block_time db}"
    unfolding unratified_escrows_def by auto
qed

lemma expire_escrows:
  assumes "expire_escrow_ratification fc db = Inr db'" and "rows_sorted (indices (escrows db))"
  shows "keeps_gaps db db' \<and> calm db db' \<and> rows_sorted (indices (escrows db')) \<and>
    map_of (indices (escrows db')) = (map_of (indices (escrows db))) |` (- fst ` set (unratified_escrows db))"
proof -
  have "\<forall>r \<in> set (unratified_escrows db). map_of (indices (escrows db)) (fst r) = Some (snd r)"
    using unratified_rows(2) [OF assms(2)] sorted_map_of [OF assms(2)] by auto
  from refund_escrows [OF assms(1) [unfolded expire_escrow_ratification_def] unratified_rows(1) [OF assms(2)] this assms(2)]
  show ?thesis by simp
qed

lemma expire_escrow_ratification_orderly: "expire_escrow_ratification fc db = Inr db' \<Longrightarrow> orderly db db'"
  using expire_escrows [of db db']
  by (auto simp: orderly_def chain_inv_def escrows_ok_iff calm_def restrict_map_def split: if_splits)

lemma null_steps:
  "null_balance fc i (db, t) = Inr (db', t') \<Longrightarrow> supply_gap db' = supply_gap db + amount t' - amount t \<and>
     vests_gap db' = vests_gap db \<and> pending_gap db' = pending_gap db"
  "null_savings fc i (db, t) = Inr (db', t') \<Longrightarrow> supply_gap db' = supply_gap db + amount t' - amount t \<and>
     vests_gap db' = vests_gap db \<and> pending_gap db' = pending_gap db"
  "null_rewards fc i (db, t) = Inr (db', t') \<Longrightarrow> supply_gap db' = supply_gap db + amount t' - amount t \<and>
     vests_gap db' = vests_gap db \<and> pending_gap db' = pending_gap db"
  by (auto simp: null_balance_def null_savings_def null_rewards_def res_simps split: if_splits dest!: ledger_gaps asset_dests)

lemma modify_dgpo_effect: "modify_dgpo m db = Inr db' \<Longrightarrow> \<exists>g. m (dgpo db) = Inr g \<and> db' = db\<lparr>dgpo := g\<rparr>"
  by (auto simp: modify_dgpo_def res_simps)

lemma dgpo_update_gaps:
  "supply_gap (db\<lparr>dgpo := g\<rparr>) = supply_gap db + amount (g_current_supply g) - amount (g_current_supply (dgpo db)) +
     bmt_of_dgpo (dgpo db) - bmt_of_dgpo g"
  "vests_gap (db\<lparr>dgpo := g\<rparr>) = vests_gap db + amount (g_total_vesting_shares g) - amount (g_total_vesting_shares (dgpo db)) +
     amount (g_pending_rewarded_vesting_shares g) - amount (g_pending_rewarded_vesting_shares (dgpo db))"
  "pending_gap (db\<lparr>dgpo := g\<rparr>) = pending_gap db + amount (g_pending_rewarded_vesting_bmt g) -
     amount (g_pending_rewarded_vesting_bmt (dgpo db))"
  by (simp_all add: gap_defs)

lemma null_vesting_step:
  "null_vesting fc i (db, t) = Inr (db', t') \<Longrightarrow> supply_gap db' = supply_gap db + amount t' - amount t \<and>
     vests_gap db' = vests_gap db \<and> pending_gap db' = pending_gap db"
  "null_reward_vesting fc i (db, t) = Inr (db', t') \<Longrightarrow> supply_gap db' = supply_gap db + amount t' - amount t \<and>
     vests_gap db' = vests_gap db \<and> pending_gap db' = pending_gap db"
  unfolding null_vesting_def null_reward_vesting_def
  by (auto simp: res_simps holdings bmt_of_dgpo_def dgpo_update_gaps get_id_def find_id_def split: if_splits
      dest!: modify_dgpo_effect modify_account_gaps asset_dests)

lemma null_steps_quiet:
  "null_balance fc i (db, t) = Inr (db', t') \<Longrightarrow> quiet db db'"
  "null_savings fc i (db, t) = Inr (db', t') \<Longrightarrow> quiet db db'"
  "null_rewards fc i (db, t) = Inr (db', t') \<Longrightarrow> quiet db db'"
  "null_vesting fc i (db, t) = Inr (db', t') \<Longrightarrow> quiet db db'"
  "null_reward_vesting fc i (db, t) = Inr (db', t') \<Longrightarrow> quiet db db'"
  by (auto simp: null_balance_def null_savings_def null_rewards_def null_vesting_def null_reward_vesting_def res_simps
      split: if_splits dest!: quiets intro: quiet_trans)

lemma empty_null_account_gaps:
  "empty_null_account fc db = Inr (db', t) \<Longrightarrow> supply_gap db' = supply_gap db + amount t \<and>
     vests_gap db' = vests_gap db \<and> pending_gap db' = pending_gap db"
  by (auto simp: empty_null_account_def res_simps dest!: null_steps null_vesting_step)

lemma empty_null_account_quiet: "empty_null_account fc db = Inr (db', t) \<Longrightarrow> quiet db db'"
  by (auto simp: empty_null_account_def res_simps quiet_defs dest!: null_steps_quiet)

lemma clear_null_account_balance_orderly:
  assumes "clear_null_account_balance fc db = Inr db'"
    and "\<And>db1 t. empty_null_account fc db = Inr (db1, t) \<Longrightarrow> amount t \<ge> 0"
  shows "orderly db db'"
proof -
  from assms(1) obtain db1 t where e: "empty_null_account fc db = Inr (db1, t)"
    and r: "(if amount t > 0 then bindR (asset_neg fc t) (\<lambda>n. adjust_supply fc n False db1) else Inr db1) = Inr db'"
    by (auto simp: clear_null_account_balance_def res_simps)
  have "keeps_gaps db db'"
    using r empty_null_account_gaps [OF e] assms(2) [OF e]
    by (auto simp: keeps_gaps_def res_simps split: if_splits dest!: ledger_gaps asset_dests)
  moreover have "quiet db1 db'" using r by (auto simp: res_simps split: if_splits dest!: quiets)
  ultimately show ?thesis using empty_null_account_quiet [OF e] by (auto intro: orderlyI quiet_trans)
qed

end

text \<open>
  Escrows that are not ratified. When the maintenance of a block has run, every escrow
  whose deadline has passed without both approvals is gone, every other escrow is as it
  was, and the BMT of the removed ones is back with its senders: the ledger is balanced as
  before.
\<close>

theorem unratified_escrows_refunded:
  assumes "expire_escrow_ratification fc db = Inr db'" and "fc_exact fc" and "rows_sorted (indices (escrows db))"
  shows "keeps_gaps db db' \<and>
    (\<forall>i e. find_id (escrows db') i = Some e \<longleftrightarrow>
      find_id (escrows db) i = Some e \<and> (is_approved e \<or> e_ratification_deadline e > head_block_time db))"
proof -
  note eff = fc_exact.expire_escrows [OF assms(2,1,3)] and rows = fc_exact.unratified_rows(2) [OF assms(2,3)]
  have "i \<in> fst ` set (unratified_escrows db) \<longleftrightarrow> \<not> is_approved e \<and> e_ratification_deadline e \<le> head_block_time db"
    if "map_of (indices (escrows db)) i = Some e" for i e
  proof -
    have "(i, e') \<in> set (indices (escrows db)) \<longleftrightarrow> e' = e" for e'
      using that map_of_is_SomeI [OF rows_sorted_distinct [OF assms(3)], of i e'] by (auto dest: map_of_SomeD)
    then show ?thesis unfolding rows by force
  qed
  with eff show ?thesis by (simp add: find_id_def restrict_map_def) (metis not_le option.distinct(1))
qed

definition overdue_escrow :: escrow_object where
  "overdue_escrow = default_escrow_object\<lparr> e_from := ''alice'', e_to := ''bob'', e_agent := ''carol'',
     e_ratification_deadline := 1599999999, e_bmt_balance := bmt 40, e_pending_fee := bmt 2 \<rparr>"

theorem unratified_escrows_refunded_witness:
  "\<exists>db'. expire_escrow_ratification fc64 (sample_chain\<lparr>escrows := mk_index [(0, overdue_escrow)] 1\<rparr>) = Inr db' \<and>
     find_id (escrows db') 0 = None \<and> keeps_gaps (sample_chain\<lparr>escrows := mk_index [(0, overdue_escrow)] 1\<rparr>) db'"
proof -
  let ?db = "sample_chain\<lparr>escrows := mk_index [(0, overdue_escrow)] 1\<rparr>"
  have u: "unratified_escrows ?db = [(0, overdue_escrow)]"
    by (simp add: unratified_escrows_def mk_index_def overdue_escrow_def default_escrow_object_def is_approved_def
        head_block_time_def sample_chain_def sample_simps)
  have "\<exists>db'. expire_escrow_ratification fc64 ?db = Inr db'"
    unfolding expire_escrow_ratification_def u
    by (simp add: refund_escrow_def overdue_escrow_def default_escrow_object_def get_account_def get_by_def
        find_by_def sample_chain_def sample_simps eval64 adjust_balance_def modify_account_def modify_def
        modify_ok_def account_conflict_def remove_escrow_def remove_def)
  then obtain db' where r: "expire_escrow_ratification fc64 ?db = Inr db'" ..
  have "rows_sorted (indices (escrows ?db))" by (simp add: mk_index_def)
  note t = unratified_escrows_refunded [OF r fc64.fc_exact_axioms this]
  have "find_id (escrows db') 0 \<noteq> Some e" for e
    using t by (auto simp: find_id_def mk_index_def overdue_escrow_def default_escrow_object_def is_approved_def
        head_block_time_def sample_chain_def sample_simps)
  with r t show ?thesis by (cases "find_id (escrows db') 0") auto
qed

end
