(* ===== verification/Savings.thy ===== *)
theory Savings
  imports Complex_Main Expiry
begin

text \<open>
  Payments of a block's maintenance to savers and token holders (\<open>database.cpp\<close>):
  \<open>process_vesting_withdrawals\<close>, \<open>process_savings_reward\<close> and \<open>custom_tokens_emissions\<close>. The first and
  the last walk an index while they change the key of the element they stand on, so the
  iterator is part of the state: an id, or \<open>None\<close> at the end. The first steps to the next
  element before it changes the current one, the last after. Their bounds are sums over the
  rows of the time they are behind; the interpretations of \<open>draining\<close> show them sufficient, for
  the withdrawals always, for the emissions as long as time stamps do not pass 32 bits.

  \<open>process_savings_reward\<close> computes in \<open>double\<close>: a rational rounded to 53 significant bits,
  half to even. The magnitudes here are far from the limits of the exponent.
\<close>

subsection \<open>Withdrawals of savings\<close>

definition withdrawal_key :: "oid \<times> account_object \<Rightarrow> time_point_sec \<times> oid" where
  "withdrawal_key r = (a_next_savings_withdrawal (snd r), fst r)"

definition by_next_savings_withdrawal :: "database \<Rightarrow> (oid \<times> account_object) list" where
  "by_next_savings_withdrawal db = sort_key withdrawal_key (indices (accounts db))"

definition head_id :: "(oid \<times> 'v) list \<Rightarrow> oid option" where
  "head_id rs = (case rs of [] \<Rightarrow> None | r # _ \<Rightarrow> Some (fst r))"

definition after_account :: "oid \<times> account_object \<Rightarrow> database \<Rightarrow> oid option" where
  "after_account r db = head_id (filter (\<lambda>s. withdrawal_key r < withdrawal_key s) (by_next_savings_withdrawal db))"

definition amount_to_withdraw :: "fc_lib \<Rightarrow> account_object \<Rightarrow> exn + int" where
  "amount_to_withdraw fc a =
     bindR (safe_sub fc (a_to_withdraw a) (a_withdrawn a)) (\<lambda>rest.
     if rest < amount (a_savings_withdraw_rate a)
     then bindR (safe_mod fc (a_to_withdraw a) (amount (a_savings_withdraw_rate a))) (\<lambda>m.
          Inr (min (amount (a_savings_balance a)) m))
     else Inr (min (amount (a_savings_balance a)) (amount (a_savings_withdraw_rate a))))"

text \<open>The routes after that to account 0, in the order of \<open>by_withdraw_route\<close>.\<close>

definition routes_of :: "oid \<Rightarrow> database \<Rightarrow> withdraw_rep_route_object list" where
  "routes_of i db =
     sort_key wr_to_account (filter (\<lambda>w. wr_from_account w = i \<and> wr_to_account w > 0) (map snd (indices (withdraw_routes db))))"

definition route_deposit :: "fc_lib \<Rightarrow> int \<Rightarrow> nat \<Rightarrow> exn + int" where
  "route_deposit fc to_withdraw percent =
     bindR (u128_to_u64 fc (u128_of_int fc to_withdraw * word_of_nat percent div word_of_int PERCENT_100)) (\<lambda>d.
     Inr (safe_of_u64 fc d))"

definition take_deposit :: "fc_lib \<Rightarrow> int \<Rightarrow> account_object \<Rightarrow> exn + account_object" where
  "take_deposit fc d a =
     bindR (safe_sub fc (amount (a_savings_balance a)) d) (\<lambda>b.
     bindR (safe_add fc (a_withdrawn a) d) (\<lambda>w.
     let a1 = a\<lparr>a_savings_balance := (a_savings_balance a)\<lparr>amount := b\<rparr>, a_withdrawn := w\<rparr> in
     Inr (if w \<ge> a_to_withdraw a \<or> b = 0
          then a1\<lparr>a_savings_withdraw_rate := (a_savings_withdraw_rate a)\<lparr>amount := 0\<rparr>, a_next_savings_withdrawal := time_max\<rparr>
          else a1\<lparr>a_next_savings_withdrawal := time_plus (a_next_savings_withdrawal a) SAVINGS_WITHDRAW_INTERVAL_SECONDS\<rparr>)))"

definition withdraw_route :: "fc_lib \<Rightarrow> oid \<Rightarrow> int \<Rightarrow> withdraw_rep_route_object \<Rightarrow> database \<Rightarrow> exn + database" where
  "withdraw_route fc i to_withdraw route db =
     (if wr_auto_vest route then Inr db
      else
        bindR (get_id (accounts db) (wr_to_account route)) (\<lambda>_.
        bindR (route_deposit fc to_withdraw (wr_percent route)) (\<lambda>d.
        if d > 0 then
          bindR (modify_account (wr_to_account route) (\<lambda>a.
            bindR (asset_plus fc (a_balance a) (bmt d)) (\<lambda>b. Inr (a\<lparr>a_balance := b\<rparr>))) db)
            (modify_account i (take_deposit fc d))
        else Inr db)))"

definition withdraw_from :: "fc_lib \<Rightarrow> oid \<times> account_object \<Rightarrow> database \<Rightarrow> exn + database" where
  "withdraw_from fc r db =
     bindR (amount_to_withdraw fc (snd r)) (\<lambda>w. foldR (withdraw_route fc (fst r) w) (routes_of (fst r) db) db)"

type_synonym cursor = "database \<times> oid option"

definition due_withdrawal :: "cursor \<Rightarrow> (oid \<times> account_object) option" where
  "due_withdrawal = (\<lambda>(db, cur).
     case cur of
       None \<Rightarrow> None
     | Some i \<Rightarrow>
         (case find_id (accounts db) i of
            None \<Rightarrow> None
          | Some a \<Rightarrow> if a_next_savings_withdrawal a \<le> head_block_time db then Some (i, a) else None))"

definition withdrawal_round :: "fc_lib \<Rightarrow> oid \<times> account_object \<Rightarrow> cursor \<Rightarrow> exn + cursor" where
  "withdrawal_round fc r = (\<lambda>(db, cur). bindR (withdraw_from fc r db) (\<lambda>db1. Inr (db1, after_account r db)))"

text \<open>How far the accounts at and after the iterator are behind.\<close>

definition next_withdrawal :: "database \<Rightarrow> oid \<Rightarrow> time_point_sec" where
  "next_withdrawal db i = (case find_id (accounts db) i of None \<Rightarrow> 0 | Some a \<Rightarrow> a_next_savings_withdrawal a)"

definition withdrawals_behind :: "cursor \<Rightarrow> nat" where
  "withdrawals_behind = (\<lambda>(db, cur).
     case cur of
       None \<Rightarrow> 0
     | Some i \<Rightarrow>
         sum_list (map (\<lambda>j. head_block_time db + 1 - next_withdrawal db j)
           (filter (\<lambda>j. (next_withdrawal db i, i) \<le> (next_withdrawal db j, j)) (row_ids (indices (accounts db))))))"

definition process_vesting_withdrawals :: "fc_lib \<Rightarrow> database \<Rightarrow> exn + database" where
  "process_vesting_withdrawals fc db =
     (let start = (db, head_id (by_next_savings_withdrawal db)) in
      bindR (drain (withdrawals_behind start) due_withdrawal (withdrawal_round fc) start) (\<lambda>(db1, _). Inr db1))"

subsection \<open>Rewards on savings\<close>

definition round_half_even :: "rat \<Rightarrow> int" where
  "round_half_even x =
     (let f = \<lfloor>x\<rfloor>; d = x - of_int f in if d < 1 / 2 then f else if d > 1 / 2 then f + 1 else if even f then f else f + 1)"

definition double_exponent :: "rat \<Rightarrow> int" where
  "double_exponent x =
     (let (p, q) = quotient_of \<bar>x\<bar>;
          e = int (msb64 (nat p)) - int (msb64 (nat q)) in
      (if 2 powi e \<le> \<bar>x\<bar> then e else e - 1) - 52)"

definition to_double :: "rat \<Rightarrow> rat" where
  "to_double x =
     (if x = 0 then 0
      else let e = double_exponent x in of_int (round_half_even (x / 2 powi e)) * 2 powi e)"

definition double_to_int :: "rat \<Rightarrow> int" where
  "double_to_int x = (if x \<ge> 0 then \<lfloor>x\<rfloor> else \<lceil>x\<rceil>)"

definition savings_delta :: "dynamic_global_property_object \<Rightarrow> rat" where
  "savings_delta g =
     to_double (to_double (to_double (of_int (amount (g_current_supply g) - amount (g_last_current_supply g))) *
       to_double (of_int SAVINGS_EMISSION_RATE)) / 100)"

definition saving_reward :: "rat \<Rightarrow> int \<Rightarrow> int \<Rightarrow> int" where
  "saving_reward delta balance savings =
     double_to_int (to_double (to_double (delta * to_double (of_int balance)) / to_double (of_int savings)))"

definition reward_saver :: "fc_lib \<Rightarrow> rat \<Rightarrow> int \<Rightarrow> oid \<times> account_object \<Rightarrow> database \<times> asset \<Rightarrow> exn + database \<times> asset" where
  "reward_saver fc delta all r = (\<lambda>(db, rewards).
     if amount (a_savings_balance (snd r)) > 0 then
       let reward = bmt (saving_reward delta (amount (a_savings_balance (snd r))) all) in
       bindR (adjust_savings_balance fc (fst r) reward db) (\<lambda>db1.
       bindR (asset_plus fc rewards reward) (\<lambda>t. Inr (db1, t)))
     else Inr (db, rewards))"

definition process_savings_reward :: "fc_lib \<Rightarrow> database \<Rightarrow> exn + database" where
  "process_savings_reward fc db =
     (let delta = savings_delta (dgpo db); accs = by_name_order (indices (accounts db)) in
      if g_head_block_number (dgpo db) mod SAVINGS_REWARD_INTERVAL_BLOCKS \<noteq> 0 \<or> delta = 0 then Inr db
      else
        bindR (sum_assets fc (\<lambda>a. Inr (a_savings_balance a)) accs (bmt 0)) (\<lambda>total.
        if amount total \<le> 0 then Inr db
        else
          bindR (foldR (reward_saver fc delta (amount total)) accs (db, bmt 0)) (\<lambda>(db1, rewards).
          modify_dgpo (\<lambda>g.
            bindR (asset_plus fc (g_current_supply g) rewards) (\<lambda>cs.
            bindR (asset_plus fc (g_virtual_supply g) rewards) (\<lambda>vs.
            Inr (g\<lparr>g_current_supply := cs, g_virtual_supply := vs, g_last_current_supply := cs\<rparr>)))) db1)))"

subsection \<open>Emission of custom tokens\<close>

text \<open>The index runs from the latest schedule time to the earliest.\<close>

definition schedule_key :: "oid \<times> custom_token_object \<Rightarrow> time_point_sec \<times> oid" where
  "schedule_key r = (ct_schedule_time (snd r), fst r)"

definition tokens_by_schedule_time :: "database \<Rightarrow> (oid \<times> custom_token_object) list" where
  "tokens_by_schedule_time db = rev (sort_key schedule_key (indices (custom_tokens db)))"

definition emission_interval :: "custom_token_object \<Rightarrow> nat" where
  "emission_interval t = ct_interval_seconds t * ct_interval_count t mod 2 ^ 32"

definition new_tokens :: "fc_lib \<Rightarrow> custom_token_object \<Rightarrow> exn + int" where
  "new_tokens fc t =
     bindR (safe_mul fc (amount (ct_current_supply t)) (safe_of_u64 fc (ct_inflation_rate t))) (\<lambda>p.
     safe_div fc p (100 * 365 * 24 * 60 * 20))"

definition emit_tokens :: "fc_lib \<Rightarrow> int \<Rightarrow> custom_token_object \<Rightarrow> exn + custom_token_object" where
  "emit_tokens fc n t =
     bindR (asset_plus fc (ct_current_supply t) (asset_of n (symbol (ct_current_supply t)))) (\<lambda>cs.
     bindR (asset_plus fc (ct_reward_fund t) (asset_of n (symbol cs))) (\<lambda>rf.
     Inr (t\<lparr>ct_schedule_time := time_plus (ct_schedule_time t) (emission_interval t), ct_current_supply := cs,
           ct_reward_fund := rf\<rparr>)))"

definition after_token :: "oid \<Rightarrow> database \<Rightarrow> oid option" where
  "after_token i db =
     (case find_id (custom_tokens db) i of
        None \<Rightarrow> None
      | Some t \<Rightarrow> head_id (filter (\<lambda>s. schedule_key s < schedule_key (i, t)) (tokens_by_schedule_time db)))"

definition due_token :: "cursor \<Rightarrow> (oid \<times> custom_token_object) option" where
  "due_token = (\<lambda>(db, cur).
     case cur of
       None \<Rightarrow> None
     | Some i \<Rightarrow>
         (case find_id (custom_tokens db) i of
            None \<Rightarrow> None
          | Some t \<Rightarrow> if ct_schedule_time t \<le> head_block_time db then Some (i, t) else None))"

definition emission_round :: "fc_lib \<Rightarrow> oid \<times> custom_token_object \<Rightarrow> cursor \<Rightarrow> exn + cursor" where
  "emission_round fc r = (\<lambda>(db, cur).
     bindR (new_tokens fc (snd r)) (\<lambda>n.
     bindR (modify_custom_token (fst r) (emit_tokens fc n) db) (\<lambda>db1. Inr (db1, after_token (fst r) db1))))"

definition token_time :: "database \<Rightarrow> oid \<Rightarrow> time_point_sec" where
  "token_time db i = (case find_id (custom_tokens db) i of None \<Rightarrow> 0 | Some t \<Rightarrow> ct_schedule_time t)"

definition emissions_behind :: "cursor \<Rightarrow> nat" where
  "emissions_behind = (\<lambda>(db, cur).
     let ids = row_ids (indices (custom_tokens db)) in
     sum_list (map (\<lambda>j. head_block_time db + 1 - token_time db j) ids) * (length ids + 1) +
     (case cur of None \<Rightarrow> 0
      | Some i \<Rightarrow> length (filter (\<lambda>j. (token_time db j, j) \<le> (token_time db i, i)) ids)))"

definition custom_tokens_emissions :: "fc_lib \<Rightarrow> database \<Rightarrow> exn + database" where
  "custom_tokens_emissions fc db =
     (if g_head_block_number (dgpo db) \<le> FIRST_PAYOUT_BLOCK then Inr db
      else
        let start = (db, head_id (tokens_by_schedule_time db)) in
        bindR (drain (emissions_behind start) due_token (emission_round fc) start) (\<lambda>(db1, _). Inr db1))"

subsection \<open>The ledger\<close>

lemma cursor_drain_orderly:
  assumes "\<And>r c c'. body r c = Inr c' \<Longrightarrow> orderly (fst c) (fst c')" and "drain n nxt body c = Inr c'"
  shows "orderly (fst c) (fst c')"
  using assms(2) by (rule drain_rel [where R = "\<lambda>c c'. orderly (fst c) (fst c')", rotated 3])
    (auto intro: assms(1) orderly_trans)

lemma custom_tokens_emissions_orderly [orderlies]: "custom_tokens_emissions fc db = Inr db' \<Longrightarrow> orderly db db'"
proof -
  have r: "emission_round fc r c = Inr c' \<Longrightarrow> orderly (fst c) (fst c')" for r c c'
    by (auto simp: emission_round_def res_simps split: prod.splits dest: orderlies)
  show "custom_tokens_emissions fc db = Inr db' \<Longrightarrow> orderly db db'"
    by (auto simp: custom_tokens_emissions_def Let_def res_simps split: if_splits
        dest!: cursor_drain_orderly [where body = "emission_round fc", rotated, OF _ r])
qed

context fc_exact
begin

lemma withdraw_route_orderly: "withdraw_route fc i w route db = Inr db' \<Longrightarrow> orderly db db'"
  by (rule orderlyI,
      (auto simp: withdraw_route_def take_deposit_def Let_def res_simps keeps_gaps_def holdings split: if_splits
        dest!: table_gaps asset_dests safe_dests)[1],
      (auto simp: withdraw_route_def res_simps split: if_splits dest!: quiets intro: quiet_trans)[1])

lemma withdraw_from_orderly: "withdraw_from fc r db = Inr db' \<Longrightarrow> orderly db db'"
  by (auto simp: withdraw_from_def res_simps dest!: foldR_orderly [rotated] intro: withdraw_route_orderly)

lemma process_vesting_withdrawals_orderly: "process_vesting_withdrawals fc db = Inr db' \<Longrightarrow> orderly db db'"
proof -
  have r: "withdrawal_round fc r c = Inr c' \<Longrightarrow> orderly (fst c) (fst c')" for r c c'
    by (auto simp: withdrawal_round_def res_simps split: prod.splits dest: withdraw_from_orderly)
  show "process_vesting_withdrawals fc db = Inr db' \<Longrightarrow> orderly db db'"
    by (auto simp: process_vesting_withdrawals_def Let_def res_simps
        dest!: cursor_drain_orderly [where body = "withdrawal_round fc", rotated, OF _ r])
qed

lemma reward_savers_effect:
  assumes "foldR (reward_saver fc delta n) rs (db, t) = Inr (db', t')"
  shows "supply_gap db' = supply_gap db - (amount t' - amount t) \<and> vests_gap db' = vests_gap db \<and>
    pending_gap db' = pending_gap db \<and> quiet db db'"
proof -
  let ?R = "\<lambda>(db, t) (db', t'). supply_gap db' = supply_gap db - (amount t' - amount t) \<and> vests_gap db' = vests_gap db \<and>
    pending_gap db' = pending_gap db"
  have "?R (db, t) (db', t')"
    using assms by (rule foldR_frame [where R = ?R, rotated 3])
      (auto simp: reward_saver_def Let_def res_simps split: if_splits dest!: ledger_gaps asset_dests)
  moreover have "quiet (fst (db, t)) (fst (db', t'))"
    using assms by (rule foldR_frame [where R = "\<lambda>s s'. quiet (fst s) (fst s')", rotated 3])
      (auto simp: reward_saver_def Let_def res_simps split: if_splits prod.splits dest!: quiets intro: quiet_trans)
  ultimately show ?thesis by simp
qed

lemma process_savings_reward_orderly: "process_savings_reward fc db = Inr db' \<Longrightarrow> orderly db db'"
proof -
  assume "process_savings_reward fc db = Inr db'"
  then consider "db' = db"
    | n rs db1 t where "foldR (reward_saver fc (savings_delta (dgpo db)) n) rs (db, bmt 0) = Inr (db1, t)"
      "modify_dgpo (\<lambda>g.
            bindR (asset_plus fc (g_current_supply g) t) (\<lambda>cs.
            bindR (asset_plus fc (g_virtual_supply g) t) (\<lambda>vs.
            Inr (g\<lparr>g_current_supply := cs, g_virtual_supply := vs, g_last_current_supply := cs\<rparr>)))) db1 = Inr db'"
    by (auto simp: process_savings_reward_def Let_def res_simps split: if_splits)
  then show ?thesis
  proof cases
    case 2
    note e = reward_savers_effect [OF 2(1)]
    have "keeps_gaps db db'" using 2(2) e
      by (auto simp: keeps_gaps_def res_simps bmt_of_dgpo_def dest!: table_gaps asset_dests)
    moreover have "quiet db1 db'" using 2(2) by (auto dest!: quiets)
    ultimately show ?thesis using e by (auto intro: orderlyI quiet_trans)
  qed simp
qed

end

subsection \<open>The walks end\<close>

lemma head_of_sorted:
  assumes "head_id (filter P (sort_key k rs)) = Some c"
  obtains v where "(c, v) \<in> set rs" "P (c, v)" "\<And>s. s \<in> set rs \<Longrightarrow> P s \<Longrightarrow> k (c, v) \<le> k s"
proof -
  from assms obtain v rest where f: "filter P (sort_key k rs) = (c, v) # rest"
    by (auto simp: head_id_def split: list.splits)
  then have "(c, v) \<in> set (filter P (sort_key k rs))" by simp
  moreover have "sorted (map k (filter P (sort_key k rs)))" by (simp add: filter_sort)
  moreover have "set (filter P (sort_key k rs)) = {s \<in> set rs. P s}" by auto
  ultimately have "(c, v) \<in> {s \<in> set rs. P s}" "\<forall>s \<in> {s \<in> set rs. P s}. k (c, v) \<le> k s" using f by auto
  then show thesis by (intro that [of v]) auto
qed

lemma behind_decreases:
  fixes k k' :: "nat \<Rightarrow> 'k::linorder" and w w' :: "nat \<Rightarrow> nat"
  assumes "distinct ids" and "i \<in> set ids" and "w i > 0" and same: "\<And>j. j \<noteq> i \<Longrightarrow> k' j = k j \<and> w' j = w j"
    and inj: "\<And>j. k j = k i \<Longrightarrow> j = i" and later: "k i < k' i \<Longrightarrow> w' i < w i"
    and c: "k i < k c" and least: "\<And>j. j \<in> set ids \<Longrightarrow> k i < k j \<Longrightarrow> k c \<le> k j"
  shows "sum_list (map w' (filter (\<lambda>j. k' c \<le> k' j) ids)) < sum_list (map w (filter (\<lambda>j. k i \<le> k j) ids))"
proof -
  let ?A' = "{j \<in> set ids. k' c \<le> k' j}" and ?B = "{j \<in> set ids. k i < k j}"
  have ci: "k' c = k c" using c same [of c] by (cases "c = i") auto
  have A: "{j \<in> set ids. k i \<le> k j} = insert i ?B" using assms(2) inj by (auto simp: le_less)
  have A': "?A' - {i} = ?B"
  proof (intro set_eqI iffI)
    fix j assume "j \<in> ?A' - {i}"
    then show "j \<in> ?B" using ci c same [of j] by auto
  next
    fix j assume j: "j \<in> ?B"
    then have "j \<noteq> i" by auto
    with j show "j \<in> ?A' - {i}" using ci least same [of j] by auto
  qed
  have "sum w' ?A' = sum w' (?A' - {i}) + (if i \<in> ?A' then w' i else 0)"
    using sum.remove [of ?A' i w'] by auto
  also have "sum w' (?A' - {i}) = sum w ?B" unfolding A' using same by (intro sum.cong) (auto, metis less_irrefl)
  also have "(if i \<in> ?A' then w' i else 0) < w i"
    using assms(3) later ci c by auto
  then have "sum w ?B + (if i \<in> ?A' then w' i else 0) < sum w (insert i ?B)" by simp
  finally show ?thesis
    using assms(1) A by (simp add: sum_list_distinct_conv_sum_set)
qed

text \<open>A payment moves only the next date of the account it is made from.\<close>

definition same_dates :: "oid \<Rightarrow> database \<Rightarrow> database \<Rightarrow> bool" where
  "same_dates i db db' \<longleftrightarrow> row_ids (indices (accounts db')) = row_ids (indices (accounts db)) \<and> dgpo db' = dgpo db \<and>
     (\<forall>j. j \<noteq> i \<longrightarrow> next_withdrawal db' j = next_withdrawal db j)"

lemma same_dates_modify:
  assumes "modify_account k m db = Inr db'"
    and "k = i \<or> (\<forall>a a'. m a = Inr a' \<longrightarrow> a_next_savings_withdrawal a' = a_next_savings_withdrawal a)"
  shows "same_dates i db db'"
  using assms
  by (auto simp: same_dates_def modify_account_def res_simps next_withdrawal_def find_id_def map_of_upd_row elim!: modifyD)

lemma same_dates_refl [simp]: "same_dates i db db"
  by (simp add: same_dates_def)

lemma same_dates_trans: "same_dates i db1 db2 \<Longrightarrow> same_dates i db2 db3 \<Longrightarrow> same_dates i db1 db3"
  by (auto simp: same_dates_def)

lemma withdraw_route_dates: "withdraw_route fc i w route s = Inr s' \<Longrightarrow> same_dates i s s'"
proof -
  assume r: "withdraw_route fc i w route s = Inr s'"
  then consider "s' = s" | d s1 where "modify_account (wr_to_account route) (\<lambda>a.
      bindR (asset_plus fc (a_balance a) (bmt d)) (\<lambda>b. Inr (a\<lparr>a_balance := b\<rparr>))) s = Inr s1"
      "modify_account i (take_deposit fc d) s1 = Inr s'"
    by (auto simp: withdraw_route_def res_simps split: if_splits)
  then show ?thesis
  proof cases
    case 2
    have "same_dates i s s1" by (rule same_dates_modify [OF 2(1)]) (auto simp: res_simps)
    moreover have "same_dates i s1 s'" by (rule same_dates_modify [OF 2(2)]) simp
    ultimately show ?thesis by (rule same_dates_trans)
  qed simp
qed

lemma withdraw_from_dates: "withdraw_from fc r db = Inr db' \<Longrightarrow> same_dates (fst r) db db'"
proof -
  assume "withdraw_from fc r db = Inr db'"
  then obtain w where "foldR (withdraw_route fc (fst r) w) (routes_of (fst r) db) db = Inr db'"
    by (auto simp: withdraw_from_def res_simps)
  then show ?thesis
    by (rule foldR_frame [where R = "same_dates (fst r)", rotated 3])
      (auto intro: same_dates_trans withdraw_route_dates)
qed

definition withdrawal_cursor_ok :: "cursor \<Rightarrow> bool" where
  "withdrawal_cursor_ok = (\<lambda>(db, cur). rows_sorted (indices (accounts db)) \<and>
     (\<forall>i. cur = Some i \<longrightarrow> i \<in> set (row_ids (indices (accounts db)))))"

lemma withdrawal_key_row:
  "rows_sorted (indices (accounts db)) \<Longrightarrow> (j, v) \<in> set (indices (accounts db)) \<Longrightarrow> withdrawal_key (j, v) = (next_withdrawal db j, j)"
  by (auto simp: withdrawal_key_def next_withdrawal_def find_id_def dest!: sorted_map_of)

lemma after_accountD:
  assumes "after_account (i, a) db = Some c" and "rows_sorted (indices (accounts db))" and "find_id (accounts db) i = Some a"
  shows "c \<in> set (row_ids (indices (accounts db))) \<and> (next_withdrawal db i, i) < (next_withdrawal db c, c) \<and>
    (\<forall>j \<in> set (row_ids (indices (accounts db))). (next_withdrawal db i, i) < (next_withdrawal db j, j) \<longrightarrow>
      (next_withdrawal db c, c) \<le> (next_withdrawal db j, j))"
proof -
  have i: "withdrawal_key (i, a) = (next_withdrawal db i, i)" using assms(3) by (simp add: withdrawal_key_def next_withdrawal_def)
  from assms(1) obtain v where v: "(c, v) \<in> set (indices (accounts db))" "withdrawal_key (i, a) < withdrawal_key (c, v)"
    and least: "\<And>s. s \<in> set (indices (accounts db)) \<Longrightarrow> withdrawal_key (i, a) < withdrawal_key s \<Longrightarrow> withdrawal_key (c, v) \<le> withdrawal_key s"
    unfolding after_account_def by_next_savings_withdrawal_def by (elim head_of_sorted) blast
  note key = withdrawal_key_row [OF assms(2)]
  have "(next_withdrawal db c, c) \<le> (next_withdrawal db j, j)"
    if "j \<in> set (row_ids (indices (accounts db)))" "(next_withdrawal db i, i) < (next_withdrawal db j, j)" for j
  proof -
    from that(1) obtain u where u: "(j, u) \<in> set (indices (accounts db))" by auto
    from least [OF u] that(2) show ?thesis unfolding key [OF u] key [OF v(1)] i by blast
  qed
  moreover have "c \<in> set (row_ids (indices (accounts db)))" using v(1) by (metis fst_conv in_set_zipE zip_map_fst_snd)
  ultimately show ?thesis using v(2) unfolding key [OF v(1)] i by blast
qed

lemma due_withdrawalD:
  "due_withdrawal (db, cur) = Some r \<Longrightarrow> cur = Some (fst r) \<and> find_id (accounts db) (fst r) = Some (snd r) \<and>
   next_withdrawal db (fst r) \<le> head_block_time db"
  by (auto simp: due_withdrawal_def next_withdrawal_def split: option.splits if_splits)

lemma withdrawals_behind_pos:
  "withdrawal_cursor_ok (db, cur) \<Longrightarrow> due_withdrawal (db, cur) = Some r \<Longrightarrow> withdrawals_behind (db, cur) > 0"
proof -
  assume ok: "withdrawal_cursor_ok (db, cur)" and due: "due_withdrawal (db, cur) = Some r"
  note d = due_withdrawalD [OF due]
  let ?i = "fst r" and ?w = "\<lambda>j. head_block_time db + 1 - next_withdrawal db j"
  have "?i \<in> set (row_ids (indices (accounts db)))" using ok d by (simp add: withdrawal_cursor_ok_def)
  then have "?i \<in> set (filter (\<lambda>j. (next_withdrawal db ?i, ?i) \<le> (next_withdrawal db j, j)) (row_ids (indices (accounts db))))"
    by simp
  then have "?w ?i \<in> set (map ?w (filter (\<lambda>j. (next_withdrawal db ?i, ?i) \<le> (next_withdrawal db j, j)) (row_ids (indices (accounts db)))))"
    unfolding set_map by (rule imageI)
  note le = member_le_sum_list [OF this]
  have "0 < ?w ?i" using d by simp
  also note le
  finally show ?thesis using d by (simp add: withdrawals_behind_def)
qed

interpretation withdrawal_walk: draining due_withdrawal "withdrawal_round fc" withdrawals_behind withdrawal_cursor_ok for fc
proof
  fix c r c' assume ok: "withdrawal_cursor_ok c" and due: "due_withdrawal c = Some r" and run: "withdrawal_round fc r c = Inr c'"
  obtain db cur where c: "c = (db, cur)" by (cases c)
  obtain i a where r: "r = (i, a)" by (cases r)
  note d = due_withdrawalD [OF due [unfolded c]]
  from run obtain db1 where f: "withdraw_from fc r db = Inr db1" and c': "c' = (db1, after_account r db)"
    by (auto simp: withdrawal_round_def c res_simps)
  note same = withdraw_from_dates [OF f, unfolded r fst_conv same_dates_def]
  have srt: "rows_sorted (indices (accounts db))" using ok by (simp add: c withdrawal_cursor_ok_def)
  show "withdrawals_behind c' < withdrawals_behind c \<and> withdrawal_cursor_ok c'"
  proof (cases "after_account r db")
    case None
    then show ?thesis
      using withdrawals_behind_pos [OF ok [unfolded c] due [unfolded c]] c c' same srt
      by (simp add: withdrawals_behind_def withdrawal_cursor_ok_def)
  next
    case (Some n)
    note nx = after_accountD [OF Some [unfolded r] srt d [unfolded r fst_conv snd_conv, THEN conjunct2, THEN conjunct1]]
    have "sum_list (map (\<lambda>j. head_block_time db + 1 - next_withdrawal db1 j)
        (filter (\<lambda>j. (next_withdrawal db1 n, n) \<le> (next_withdrawal db1 j, j)) (row_ids (indices (accounts db))))) <
      sum_list (map (\<lambda>j. head_block_time db + 1 - next_withdrawal db j)
        (filter (\<lambda>j. (next_withdrawal db i, i) \<le> (next_withdrawal db j, j)) (row_ids (indices (accounts db)))))"
    proof (rule behind_decreases)
      show "distinct (row_ids (indices (accounts db)))" by (rule rows_sorted_distinct [OF srt])
      show "i \<in> set (row_ids (indices (accounts db)))" using ok d r by (simp add: c withdrawal_cursor_ok_def)
    qed (use nx same d r in auto)
    moreover have "n \<in> set (row_ids (indices (accounts db1)))" using nx same by metis
    ultimately show ?thesis
      using Some c c' same srt d r by (simp add: withdrawals_behind_def withdrawal_cursor_ok_def head_block_time_def del: set_map)
  qed
next
  fix c r assume "withdrawal_cursor_ok c" "due_withdrawal c = Some r"
  then show "withdrawals_behind c > 0" using withdrawals_behind_pos by (cases c) auto
qed

definition emission_cursor_ok :: "cursor \<Rightarrow> bool" where
  "emission_cursor_ok = (\<lambda>(db, cur). rows_sorted (indices (custom_tokens db)) \<and>
     (\<forall>i. cur = Some i \<longrightarrow> i \<in> set (row_ids (indices (custom_tokens db)))) \<and>
     (\<forall>r \<in> set (indices (custom_tokens db)). head_block_time db + emission_interval (snd r) < 2 ^ 32))"

lemma filter_shorter:
  "x \<in> set xs \<Longrightarrow> Q x \<Longrightarrow> \<not> P x \<Longrightarrow> (\<And>y. P y \<Longrightarrow> Q y) \<Longrightarrow> length (filter P xs) < length (filter Q xs)"
proof -
  assume x: "x \<in> set xs" "Q x" "\<not> P x" and "\<And>y. P y \<Longrightarrow> Q y"
  then have "filter P xs = filter P (filter Q xs)" by (auto intro: filter_cong)
  with x length_filter_less [of x "filter Q xs" P] show ?thesis by simp
qed

lemma sum_list_one_less:
  fixes w w' :: "'a \<Rightarrow> nat"
  assumes "distinct xs" and "i \<in> set xs" and "w' i < w i" and "\<And>j. j \<noteq> i \<Longrightarrow> w' j = w j"
  shows "sum_list (map w' xs) < sum_list (map w xs)"
proof -
  have "sum w' (set xs - {i}) = sum w (set xs - {i})" using assms(4) by (intro sum.cong) auto
  then show ?thesis
    using assms(1-3) sum.remove [of "set xs" i w] sum.remove [of "set xs" i w'] by (simp add: sum_list_distinct_conv_sum_set)
qed

lemma after_tokenD:
  assumes "after_token i db = Some c" and "rows_sorted (indices (custom_tokens db))"
  shows "c \<in> set (row_ids (indices (custom_tokens db))) \<and> (token_time db c, c) < (token_time db i, i)"
proof -
  from assms(1) obtain t where t: "find_id (custom_tokens db) i = Some t"
    and h: "head_id (filter (\<lambda>s. schedule_key s < schedule_key (i, t)) (tokens_by_schedule_time db)) = Some c"
    by (auto simp: after_token_def split: option.splits)
  from h have "c \<in> fst ` set (filter (\<lambda>s. schedule_key s < schedule_key (i, t)) (tokens_by_schedule_time db))"
    by (auto simp: head_id_def split: list.splits) (metis fst_conv image_eqI list.set_intros(1) set_filter)
  then obtain u where u: "(c, u) \<in> set (indices (custom_tokens db))" "schedule_key (c, u) < schedule_key (i, t)"
    by (auto simp: tokens_by_schedule_time_def)
  from sorted_map_of [OF assms(2) u(1)] have "token_time db c = ct_schedule_time u" by (simp add: token_time_def find_id_def)
  with u t show ?thesis by (force simp: schedule_key_def token_time_def)
qed

lemma due_tokenD:
  "due_token (db, cur) = Some r \<Longrightarrow> cur = Some (fst r) \<and> find_id (custom_tokens db) (fst r) = Some (snd r) \<and>
   ct_schedule_time (snd r) \<le> head_block_time db"
  by (auto simp: due_token_def split: option.splits if_splits)

lemma emissions_behind_pos: "emission_cursor_ok (db, Some i) \<Longrightarrow> emissions_behind (db, Some i) > 0"
  by (auto simp: emissions_behind_def emission_cursor_ok_def Let_def filter_empty_conv intro!: bexI [of _ i])

lemma emission_roundD:
  assumes "emission_round fc r (db, cur) = Inr c'" and "find_id (custom_tokens db) (fst r) = Some (snd r)"
    and "rows_sorted (indices (custom_tokens db))"
  obtains db1 where "c' = (db1, after_token (fst r) db1)" "dgpo db1 = dgpo db"
    "row_ids (indices (custom_tokens db1)) = row_ids (indices (custom_tokens db))"
    "token_time db1 (fst r) = time_plus (ct_schedule_time (snd r)) (emission_interval (snd r))"
    "\<And>j. j \<noteq> fst r \<Longrightarrow> token_time db1 j = token_time db j"
    "emission_interval ` snd ` set (indices (custom_tokens db1)) \<subseteq> emission_interval ` snd ` set (indices (custom_tokens db))"
proof -
  from assms(1) obtain n db1 where m: "modify_custom_token (fst r) (emit_tokens fc n) db = Inr db1" and c': "c' = (db1, after_token (fst r) db1)"
    by (auto simp: emission_round_def res_simps)
  from m obtain t t' g where row: "map_of (indices (custom_tokens db)) (fst r) = Some t" and e: "emit_tokens fc n t = Inr t'"
    and db1: "db1 = db\<lparr>custom_tokens := g\<rparr>" and g: "indices g = upd_row (fst r) t' (indices (custom_tokens db))"
    by (auto simp: modify_custom_token_def res_simps elim!: modifyD)
  have t: "t = snd r" using row assms(2) by (simp add: find_id_def)
  have t': "ct_schedule_time t' = time_plus (ct_schedule_time t) (emission_interval t)" "emission_interval t' = emission_interval t"
    using e by (auto simp: emit_tokens_def res_simps emission_interval_def)
  have mem: "r \<in> set (indices (custom_tokens db))" using row t by (metis map_of_SomeD prod.collapse)
  have "emission_interval (snd x) \<in> emission_interval ` snd ` set (indices (custom_tokens db))" if "x \<in> set (indices g)" for x
  proof (cases "x = (fst r, t')")
    case True
    with mem t t'(2) show ?thesis by auto
  next
    case False
    with that set_upd_row_subset [of "fst r" t' "indices (custom_tokens db)"] g have "x \<in> set (indices (custom_tokens db))" by auto
    then show ?thesis by blast
  qed
  then have sub: "emission_interval ` snd ` set (indices g) \<subseteq> emission_interval ` snd ` set (indices (custom_tokens db))" by blast
  have "token_time db1 j = (if j = fst r then ct_schedule_time t' else token_time db j)" for j
    using row by (simp add: token_time_def find_id_def db1 g map_of_upd_row_Some)
  with db1 g t t'(1) sub show thesis by (intro that [OF c']) simp_all
qed

lemma emissions_decrease:
  fixes tm tm' :: "nat \<Rightarrow> nat" and ids :: "nat list"
  assumes "distinct ids" and i: "i \<in> set ids" and due: "tm i \<le> now" and d: "tm' i = tm i + d"
    and same: "\<And>j. j \<noteq> i \<Longrightarrow> tm' j = tm j" and nxt: "\<And>n. nxt = Some n \<Longrightarrow> (tm' n, n) < (tm' i, i)"
  shows "sum_list (map (\<lambda>j. now + 1 - tm' j) ids) * (length ids + 1) +
      (case nxt of None \<Rightarrow> 0 | Some n \<Rightarrow> length (filter (\<lambda>j. (tm' j, j) \<le> (tm' n, n)) ids)) <
    sum_list (map (\<lambda>j. now + 1 - tm j) ids) * (length ids + 1) + length (filter (\<lambda>j. (tm j, j) \<le> (tm i, i)) ids)"
    (is "?s' * _ + ?cnt' < ?s * _ + ?cnt")
proof (cases "d = 0")
  case True
  then have eq: "tm' j = tm j" for j using d same by (cases "j = i") auto
  have "?cnt' < ?cnt"
  proof (cases nxt)
    case None
    then show ?thesis using i by (auto simp: filter_empty_conv intro!: bexI [of _ i])
  next
    case (Some n)
    have "(tm n, n) < (tm i, i)" using nxt [OF Some] eq by simp
    then have "length (filter (\<lambda>j. (tm j, j) \<le> (tm n, n)) ids) < ?cnt"
      by (intro filter_shorter [OF i]) (auto simp: not_le dest: order.strict_trans1 simp del: less_eq_prod_simp less_prod_simp)
    with Some eq show ?thesis by simp
  qed
  then show ?thesis by (simp add: eq)
next
  case False
  have "?s' < ?s"
    by (rule sum_list_one_less [OF assms(1) i]) (use False due d same in auto)
  moreover have "?cnt' \<le> length ids" by (auto split: option.splits simp: le_trans [OF length_filter_le])
  ultimately have "?s' * (length ids + 1) + ?cnt' < ?s * (length ids + 1)"
    using mult_le_mono1 [of "Suc ?s'" ?s "length ids + 1"] by simp
  then show ?thesis by linarith
qed

interpretation emission_walk: draining due_token "emission_round fc" emissions_behind emission_cursor_ok for fc
proof
  fix c r c' assume ok: "emission_cursor_ok c" and due: "due_token c = Some r" and run: "emission_round fc r c = Inr c'"
  obtain db cur where c: "c = (db, cur)" by (cases c)
  let ?i = "fst r" and ?ids = "row_ids (indices (custom_tokens db))"
  note d = due_tokenD [OF due [unfolded c]]
  have ok': "rows_sorted (indices (custom_tokens db))" "?i \<in> set ?ids" using ok c d by (auto simp: emission_cursor_ok_def)
  obtain db1 where r: "c' = (db1, after_token ?i db1)" "dgpo db1 = dgpo db" "row_ids (indices (custom_tokens db1)) = ?ids"
    "token_time db1 ?i = time_plus (ct_schedule_time (snd r)) (emission_interval (snd r))"
    "\<And>j. j \<noteq> ?i \<Longrightarrow> token_time db1 j = token_time db j"
    "emission_interval ` snd ` set (indices (custom_tokens db1)) \<subseteq> emission_interval ` snd ` set (indices (custom_tokens db))"
    by (rule emission_roundD [OF run [unfolded c] _ ok'(1)]) (use d in simp, rule that)
  have "r \<in> set (indices (custom_tokens db))" using d by (metis find_id_def map_of_SomeD prod.collapse)
  then have small: "head_block_time db + emission_interval (snd r) < 2 ^ 32" using ok c by (auto simp: emission_cursor_ok_def)
  have ti: "token_time db ?i \<le> head_block_time db" "token_time db1 ?i = token_time db ?i + emission_interval (snd r)"
    using d small r(4) by (auto simp: token_time_def time_plus_small)
  have srt: "rows_sorted (indices (custom_tokens db1))" using r(3) ok'(1) by simp
  have next_ok: "after_token ?i db1 = Some n \<Longrightarrow> n \<in> set (row_ids (indices (custom_tokens db1))) \<and>
      (token_time db1 n, n) < (token_time db1 ?i, ?i)" for n
    by (rule after_tokenD [OF _ srt])
  have "emissions_behind c' < emissions_behind c"
    unfolding emissions_behind_def c r(1) prod.case Let_def r(3) conjunct1 [OF d] option.case
    unfolding head_block_time_def r(2)
    by (rule emissions_decrease [where d = "emission_interval (snd r)"])
      (use rows_sorted_distinct [OF ok'(1)] ok'(2) ti r(5) next_ok in \<open>simp_all only: head_block_time_def not_False_eq_True\<close>)
  moreover have "head_block_time db1 + emission_interval (snd x) < 2 ^ 32" if "x \<in> set (indices (custom_tokens db1))" for x
  proof -
    have "emission_interval (snd x) \<in> emission_interval ` snd ` set (indices (custom_tokens db))" using that r(6) by blast
    then obtain y where "y \<in> set (indices (custom_tokens db))" "emission_interval (snd x) = emission_interval (snd y)" by blast
    with ok c r(2) show ?thesis by (auto simp: emission_cursor_ok_def head_block_time_def)
  qed
  ultimately show "emissions_behind c' < emissions_behind c \<and> emission_cursor_ok c'"
    using srt r(1) next_ok by (auto simp: emission_cursor_ok_def simp del: set_map)
next
  fix c r assume ok: "emission_cursor_ok c" and due: "due_token c = Some r"
  obtain db cur where c: "c = (db, cur)" by (cases c)
  with due_tokenD [of db cur r] due ok emissions_behind_pos [of db "fst r"] show "emissions_behind c > 0" by auto
qed

subsection \<open>The properties of the walks\<close>

lemma head_id_mem: "head_id rs = Some i \<Longrightarrow> i \<in> fst ` set rs"
  by (auto simp: head_id_def split: list.splits)

lemma sorted_last_max:
  fixes k :: "'a \<Rightarrow> 'k::linorder"
  shows "sorted (map k xs) \<Longrightarrow> x \<in> set xs \<Longrightarrow> k x \<le> k (last xs)"
  by (induction xs) auto

lemma withdrawals_start_ok:
  "rows_sorted (indices (accounts db)) \<Longrightarrow> withdrawal_cursor_ok (db, head_id (by_next_savings_withdrawal db))"
  by (auto simp: withdrawal_cursor_ok_def by_next_savings_withdrawal_def dest!: head_id_mem)

lemma emissions_start_ok:
  "rows_sorted (indices (custom_tokens db)) \<Longrightarrow>
   \<forall>r \<in> set (indices (custom_tokens db)). head_block_time db + emission_interval (snd r) < 2 ^ 32 \<Longrightarrow>
   emission_cursor_ok (db, head_id (tokens_by_schedule_time db))"
  by (auto simp: emission_cursor_ok_def tokens_by_schedule_time_def dest!: head_id_mem)

text \<open>
  The withdrawals of savings end. \<open>process_vesting_withdrawals\<close> walks an index whose keys
  it moves ahead of itself, and may come back to an account several times; it always ends:
  it returns, or a payment throws.
\<close>

theorem process_vesting_withdrawals_ends:
  assumes "rows_sorted (indices (accounts db))"
  shows "(\<exists>db'. process_vesting_withdrawals fc db = Inr db') \<or>
    (\<exists>e r c. process_vesting_withdrawals fc db = Inl e \<and> due_withdrawal c = Some r \<and> withdraw_from fc r (fst c) = Inl e)"
proof -
  let ?c = "(db, head_id (by_next_savings_withdrawal db))"
  show ?thesis
  proof (cases "drain (withdrawals_behind ?c) due_withdrawal (withdrawal_round fc) ?c")
    case (Inl e)
    from withdrawal_walk.drain_throws [OF withdrawals_start_ok [OF assms] order_refl Inl]
    have "\<exists>r c. due_withdrawal c = Some r \<and> withdraw_from fc r (fst c) = Inl e"
      by (auto simp: withdrawal_round_def bindR_eq_Inl)
    with Inl show ?thesis by (auto simp: process_vesting_withdrawals_def)
  qed (auto simp: process_vesting_withdrawals_def split: prod.splits)
qed

theorem process_vesting_withdrawals_ends_witness:
  "(\<exists>db'. process_vesting_withdrawals fc64 sample_chain = Inr db') \<or>
    (\<exists>e r c. process_vesting_withdrawals fc64 sample_chain = Inl e \<and> due_withdrawal c = Some r \<and>
      withdraw_from fc64 r (fst c) = Inl e)"
  by (rule process_vesting_withdrawals_ends) (simp add: sample_chain_def sample_simps)

text \<open>
  The emissions of custom tokens end, as long as no schedule time passes 32 bits: the
  loop returns, or an emission throws.
\<close>

theorem custom_tokens_emissions_ends:
  assumes "rows_sorted (indices (custom_tokens db))"
    and "\<forall>r \<in> set (indices (custom_tokens db)). head_block_time db + emission_interval (snd r) < 2 ^ 32"
  shows "(\<exists>db'. custom_tokens_emissions fc db = Inr db') \<or>
    (\<exists>e r c. custom_tokens_emissions fc db = Inl e \<and> due_token c = Some r \<and> emission_round fc r c = Inl e)"
proof -
  let ?c = "(db, head_id (tokens_by_schedule_time db))"
  show ?thesis
  proof (cases "drain (emissions_behind ?c) due_token (emission_round fc) ?c")
    case (Inl e)
    from emission_walk.drain_throws [OF emissions_start_ok [OF assms] order_refl Inl] Inl show ?thesis
      by (auto simp: custom_tokens_emissions_def Let_def)
  qed (auto simp: custom_tokens_emissions_def Let_def split: prod.splits)
qed

definition sample_token :: "time_point_sec \<Rightarrow> custom_token_object" where
  "sample_token t = default_custom_token_object\<lparr>ct_control_account := ''alice'', ct_schedule_time := t,
     ct_inflation_rate := 5, ct_interval_seconds := 60, ct_interval_count := 1\<rparr>"

definition token_chain :: database where
  "token_chain = sample_chain\<lparr>custom_tokens := mk_index [(0, sample_token 1599990000), (1, sample_token 1600003600)] 2,
     dgpo := (dgpo sample_chain)\<lparr>g_head_block_number := 300000\<rparr>\<rparr>"

lemma token_chain_simps:
  "indices (custom_tokens token_chain) = [(0, sample_token 1599990000), (1, sample_token 1600003600)]"
  "head_block_time token_chain = 1600000000" "head_block_num token_chain = 300000"
  by (simp_all add: token_chain_def mk_index_def head_block_time_def head_block_num_def sample_chain_def sample_simps)

theorem custom_tokens_emissions_ends_witness:
  "(\<exists>db'. custom_tokens_emissions fc64 token_chain = Inr db') \<or>
    (\<exists>e r c. custom_tokens_emissions fc64 token_chain = Inl e \<and> due_token c = Some r \<and> emission_round fc64 r c = Inl e)"
  by (rule custom_tokens_emissions_ends) (auto simp: token_chain_simps emission_interval_def sample_token_def)

text \<open>
  C33: one token in the future stops all emissions. The index of the tokens starts with the
  latest schedule time, and the loop stops at the first token that is not due; so as long as
  any token is scheduled after the head block, no token is emitted, however long it is due.
\<close>

theorem future_token_blocks_emissions:
  assumes "r \<in> set (indices (custom_tokens db))" and "ct_schedule_time (snd r) > head_block_time db"
    and "rows_sorted (indices (custom_tokens db))"
  shows "custom_tokens_emissions fc db = Inr db"
proof -
  let ?rs = "sort_key schedule_key (indices (custom_tokens db))"
  have ne: "?rs \<noteq> []" using assms(1) by (metis empty_iff list.set(1) set_sort)
  then obtain i t where l: "last ?rs = (i, t)" by (cases "last ?rs")
  have mem: "(i, t) \<in> set (indices (custom_tokens db))" using ne l by (metis last_in_set set_sort)
  have "\<forall>x \<in> set ?rs. schedule_key x \<le> schedule_key (last ?rs)"
    using sorted_last_max [OF sorted_sort_key [of schedule_key "indices (custom_tokens db)"]] by (intro ballI)
  then have "schedule_key r \<le> schedule_key (i, t)" using assms(1) l by simp
  then have "ct_schedule_time t > head_block_time db" using assms(2) by (auto simp: schedule_key_def)
  moreover have "find_id (custom_tokens db) i = Some t" using sorted_map_of [OF assms(3) mem] by (simp add: find_id_def)
  moreover have "head_id (tokens_by_schedule_time db) = Some i"
    using ne l by (cases ?rs rule: rev_cases) (auto simp: tokens_by_schedule_time_def head_id_def)
  ultimately have "due_token (db, head_id (tokens_by_schedule_time db)) = None" by (simp add: due_token_def)
  then show ?thesis by (simp add: custom_tokens_emissions_def Let_def)
qed

theorem future_token_blocks_emissions_witness:
  "(0, sample_token 1599990000) \<in> set (indices (custom_tokens token_chain)) \<and>
   ct_schedule_time (sample_token 1599990000) < head_block_time token_chain \<and>
   custom_tokens_emissions fc64 token_chain = Inr token_chain"
  using future_token_blocks_emissions [of "(1, sample_token 1600003600)" token_chain fc64]
  by (simp add: token_chain_simps sample_token_def)

end
