(* ===== verification/Cashout.thy ===== *)
theory Cashout
  imports Savings
begin

text \<open>
  The payout of comments (\<open>database.cpp\<close>, \<open>process_comment_cashout\<close> and what it calls). The
  state of the reward funds is copied into a vector at the start, payouts are made against
  that copy, and the vector is written back at the end; an access past its end, which is
  undefined in the source and excluded by its \<open>assert\<close>, throws here. The payout loop restarts
  at the first comment by cashout time; its bound is the number of comments that are due.
  The build has the defaults of the build files: \<open>CLEAR_VOTES\<close> on and \<open>IS_LOW_MEM\<close> off.

  The lemmas show that the loop ends with no comment due, that every BMT paid to curators,
  beneficiaries and authors is taken from a reward fund, so that the ledger stays balanced,
  and that curators get no more than their part of a payout.
\<close>

subsection \<open>Curators\<close>

definition adjust_total_payout :: "fc_lib \<Rightarrow> oid \<Rightarrow> asset \<Rightarrow> asset \<Rightarrow> asset \<Rightarrow> database \<Rightarrow> exn + database" where
  "adjust_total_payout fc ci bmt_created curator_bmt_value beneficiary_value =
     modify_comment ci (\<lambda>c.
       bindR (if symbol (c_total_payout_value c) = symbol bmt_created
              then asset_plus fc (c_total_payout_value c) bmt_created else Inr (c_total_payout_value c)) (\<lambda>t.
       bindR (asset_plus fc (c_curator_payout_value c) curator_bmt_value) (\<lambda>cu.
       bindR (asset_plus fc (c_beneficiary_payout_value c) beneficiary_value) (\<lambda>be.
       Inr (c\<lparr>c_total_payout_value := t, c_curator_payout_value := cu, c_beneficiary_payout_value := be\<rparr>)))))"

text \<open>The votes of a comment by decreasing weight and increasing voter.\<close>

definition votes_by_weight :: "oid \<Rightarrow> database \<Rightarrow> (oid \<times> comment_vote_object) list" where
  "votes_by_weight ci db =
     sort_key (\<lambda>r. (- int (cvo_weight (snd r)), cvo_voter (snd r)))
       (filter (\<lambda>r. cvo_comment (snd r) = ci) (indices (comment_votes db)))"

definition curator_claim :: "fc_lib \<Rightarrow> int \<Rightarrow> nat \<Rightarrow> nat \<Rightarrow> exn + nat" where
  "curator_claim fc max_rewards weight total_weight =
     u128_to_u64 fc ((u128_of_int fc max_rewards * word_of_nat weight) div word_of_nat total_weight)"

definition pay_curator ::
  "fc_lib \<Rightarrow> int \<Rightarrow> nat \<Rightarrow> oid \<times> comment_vote_object \<Rightarrow> database \<times> int \<Rightarrow> exn + (database \<times> int)" where
  "pay_curator fc max_rewards total_weight r s =
     bindR (curator_claim fc max_rewards (cvo_weight (snd r)) total_weight) (\<lambda>claim.
     if claim > 0 then
       bindR (safe_sub fc (snd s) (safe_of_u64 fc claim)) (\<lambda>unclaimed.
       bindR (get_id (accounts (fst s)) (cvo_voter (snd r))) (\<lambda>_.
       bindR (create_vesting fc (cvo_voter (snd r)) (bmt (safe_of_u64 fc claim)) True (fst s)) (\<lambda>x.
       bindR (modify_account (cvo_voter (snd r)) (\<lambda>a.
         bindR (safe_add fc (a_curation_rewards a) (safe_of_u64 fc claim)) (\<lambda>cr. Inr (a\<lparr>a_curation_rewards := cr\<rparr>))) (fst x)) (\<lambda>db2.
       Inr (db2, unclaimed)))))
     else Inr s)"

text \<open>Returns the database, the unclaimed rewards and the new value of \<open>max_rewards\<close>.\<close>

definition pay_curators :: "fc_lib \<Rightarrow> oid \<Rightarrow> comment_object \<Rightarrow> int \<Rightarrow> database \<Rightarrow> exn + (database \<times> int \<times> int)" where
  "pay_curators fc ci c max_rewards db =
     (if \<not> c_allow_curation_rewards c then bindR (safe_sub fc 0 0) (\<lambda>m. Inr (db, 0, m))
      else
        bindR (if c_total_vote_weight c > 0
               then foldR (pay_curator fc max_rewards (c_total_vote_weight c)) (votes_by_weight ci db) (db, max_rewards)
               else Inr (db, max_rewards)) (\<lambda>s.
        bindR (safe_sub fc max_rewards (snd s)) (\<lambda>m. Inr (fst s, snd s, m))))"

subsection \<open>One comment\<close>

definition fill_comment_reward_context_local_state :: "comment_reward_context \<Rightarrow> comment_object \<Rightarrow> comment_reward_context" where
  "fill_comment_reward_context_local_state ctx comment =
     ctx\<lparr>ctx_rshares := c_net_rshares comment, ctx_reward_weight := c_reward_weight comment\<rparr>"

definition pay_beneficiary ::
  "fc_lib \<Rightarrow> int \<Rightarrow> beneficiary_route_type \<Rightarrow> database \<times> int \<Rightarrow> exn + (database \<times> int)" where
  "pay_beneficiary fc author_tokens b s =
     bindR (safe_mul fc author_tokens (int (br_weight b))) (\<lambda>p.
     bindR (safe_div fc p PERCENT_100) (\<lambda>benefactor_tokens.
     bindR (get_account (br_account b) (fst s)) (\<lambda>x.
     bindR (create_vesting fc (fst x) (bmt benefactor_tokens) True (fst s)) (\<lambda>y.
     bindR (safe_add fc (snd s) benefactor_tokens) (\<lambda>t.
     Inr (fst y, t))))))"

definition pay_author :: "fc_lib \<Rightarrow> oid \<Rightarrow> comment_object \<Rightarrow> int \<Rightarrow> int \<Rightarrow> int \<Rightarrow> database \<Rightarrow> exn + database" where
  "pay_author fc ci comment author_tokens curation_tokens total_beneficiary db =
     bindR (safe_mul fc author_tokens (int (c_percent_bmt_dollars comment))) (\<lambda>p.
     bindR (safe_div fc p (2 * PERCENT_100)) (\<lambda>liquid.
     bindR (safe_sub fc author_tokens liquid) (\<lambda>vesting_bmt.
     bindR (get_account (c_author comment) db) (\<lambda>x.
     bindR (create_vesting fc (fst x) (bmt vesting_bmt) False db) (\<lambda>y.
     bindR (adjust_balance fc (fst x) (bmt liquid) (fst y)) (\<lambda>db2.
     bindR (asset_plus fc (bmt liquid) (bmt vesting_bmt)) (\<lambda>created.
     bindR (adjust_total_payout fc ci created (bmt curation_tokens) (bmt total_beneficiary) db2) (\<lambda>db3.
     bindR (modify_comment ci (\<lambda>c.
       bindR (safe_add fc (c_author_rewards c) author_tokens) (\<lambda>r. Inr (c\<lparr>c_author_rewards := r\<rparr>))) db3) (\<lambda>db4.
     bindR (get_account (c_author comment) db4) (\<lambda>z.
     modify_account (fst z) (\<lambda>a.
       bindR (safe_add fc (a_posting_rewards a) author_tokens) (\<lambda>r. Inr (a\<lparr>a_posting_rewards := r\<rparr>))) db4))))))))))"

text \<open>What a payout of \<open>reward\<close> does; it returns the claimed reward.\<close>

definition pay_comment :: "fc_lib \<Rightarrow> oid \<Rightarrow> comment_object \<Rightarrow> 128 word \<Rightarrow> database \<Rightarrow> exn + (database \<times> int)" where
  "pay_comment fc ci comment reward_tokens db =
     bindR (get_curation_rewards_percent db) (\<lambda>pc.
     bindR (u128_to_u64 fc ((reward_tokens * word_of_nat pc) div word_of_int PERCENT_100)) (\<lambda>ct.
     bindR (u128_to_u64 fc reward_tokens) (\<lambda>rt.
     bindR (safe_sub fc (safe_of_u64 fc rt) (safe_of_u64 fc ct)) (\<lambda>at0.
     bindR (pay_curators fc ci comment (safe_of_u64 fc ct) db) (\<lambda>(db1, unclaimed, curation_tokens).
     bindR (safe_add fc at0 unclaimed) (\<lambda>author_tokens.
     bindR (safe_add fc author_tokens curation_tokens) (\<lambda>claimed_reward.
     bindR (foldR (pay_beneficiary fc author_tokens) (c_beneficiaries comment) (db1, 0)) (\<lambda>s.
     bindR (safe_sub fc author_tokens (snd s)) (\<lambda>rest.
     bindR (pay_author fc ci comment rest curation_tokens (snd s) (fst s)) (\<lambda>db2.
     Inr (db2, claimed_reward)))))))))))"

definition close_payout :: "time_point_sec \<Rightarrow> comment_object \<Rightarrow> comment_object" where
  "close_payout now c =
     c\<lparr>c_net_rshares := (if c_net_rshares c > 0 then 0 else c_net_rshares c), c_children_abs_rshares := 0,
       c_abs_rshares := 0, c_vote_rshares := 0, c_total_vote_weight := 0, c_max_cashout_time := time_max,
       c_cashout_time := time_plus now SECOND_CASHOUT_WINDOW, c_last_payout := now\<rparr>"

definition close_vote :: "oid \<Rightarrow> oid \<times> comment_vote_object \<Rightarrow> database \<Rightarrow> exn + database" where
  "close_vote ci r db =
     bindR (get_id (comments db) ci) (\<lambda>comment.
     bindR (calculate_discussion_payout_time comment db) (\<lambda>payout.
     if payout \<noteq> time_max then modify_comment_vote (fst r) (\<lambda>v. Inr (v\<lparr>cvo_num_changes := - 1\<rparr>)) db
     else remove_comment_vote (fst r) db))"

text \<open>The part for positive reward shares: the reward, its payout and the global shares.\<close>

definition cashout_payout ::
  "fc_lib \<Rightarrow> comment_reward_context \<Rightarrow> oid \<Rightarrow> comment_object \<Rightarrow> database \<Rightarrow> exn + (database \<times> int)" where
  "cashout_payout fc ctx ci comment db =
     bindR (get_reward_fund db) (\<lambda>rf.
     bindR (get_rshare_reward fc ((fill_comment_reward_context_local_state ctx comment)
       \<lparr>ctx_reward_curve := rf_author_reward_curve (snd rf), ctx_content_constant := rf_content_constant (snd rf)\<rparr>)) (\<lambda>reward.
     let reward_tokens = u128_of_int fc (safe_of_u64 fc reward) in
     bindR (if reward_tokens > 0 then pay_comment fc ci comment reward_tokens db else Inr (db, 0)) (\<lambda>s.
     bindR (evaluate_reward_curve fc (u128_of_int fc (c_net_rshares comment)) quadratic CONTENT_CONSTANT) (\<lambda>old.
     bindR (adjust_rshares2 old 0 (fst s)) (\<lambda>db2.
     Inr (db2, snd s))))))"

definition cashout_comment_helper ::
  "fc_lib \<Rightarrow> comment_reward_context \<Rightarrow> oid \<Rightarrow> comment_object \<Rightarrow> database \<Rightarrow> exn + (database \<times> int)" where
  "cashout_comment_helper fc ctx ci comment db =
     bindR (if c_net_rshares comment > 0 then cashout_payout fc ctx ci comment db else Inr (db, 0)) (\<lambda>s.
     bindR (modify_comment ci (\<lambda>c. Inr (close_payout (head_block_time (fst s)) c)) (fst s)) (\<lambda>db3.
     bindR (foldR (close_vote ci) (votes_of_comment ci db3) db3) (\<lambda>db4.
     Inr (db4, snd s))))"

subsection \<open>All comments\<close>

record reward_fund_context =
  fc_recent_claims :: "128 word"
  fc_reward_balance :: asset
  fc_bmt_awarded :: int

definition decay_claims :: "fc_lib \<Rightarrow> time_point_sec \<Rightarrow> reward_fund_object \<Rightarrow> reward_fund_object" where
  "decay_claims fc now rfo =
     rfo\<lparr>rf_recent_claims := rf_recent_claims rfo -
           (rf_recent_claims rfo * u128_of_int fc (time_diff now (rf_last_update rfo))) div u128_of_int fc RECENT_RSHARES_DECAY_RATE,
         rf_last_update := now\<rparr>"

definition cache_fund ::
  "fc_lib \<Rightarrow> oid \<times> reward_fund_object \<Rightarrow> database \<times> reward_fund_context list \<Rightarrow>
   exn + (database \<times> reward_fund_context list)" where
  "cache_fund fc r s =
     bindR (modify_reward_fund (fst r) (\<lambda>rfo. Inr (decay_claims fc (head_block_time (fst s)) rfo)) (fst s)) (\<lambda>db1.
     bindR (get_id (reward_funds db1) (fst r)) (\<lambda>rfo.
     bindR (assertR (length (snd s) = fst r) ''funds.size() == size_t( itr->id._id )'') (\<lambda>_.
     Inr (db1, snd s @ [\<lparr> fc_recent_claims = rf_recent_claims rfo, fc_reward_balance = rf_reward_balance rfo,
       fc_bmt_awarded = 0 \<rparr>]))))"

definition fund_at :: "oid \<Rightarrow> reward_fund_context list \<Rightarrow> exn + reward_fund_context" where
  "fund_at i funds = (if i < length funds then Inr (funds ! i) else Inl (Out_of_range ''funds''))"

definition comments_by_cashout :: "database \<Rightarrow> (oid \<times> comment_object) list" where
  "comments_by_cashout db = sort_key (\<lambda>r. c_cashout_time (snd r)) (indices (comments db))"

definition add_claims ::
  "fc_lib \<Rightarrow> database \<Rightarrow> oid \<times> comment_object \<Rightarrow> reward_fund_context list \<Rightarrow> exn + reward_fund_context list" where
  "add_claims fc db r funds =
     (if c_net_rshares (snd r) > 0 then
        bindR (get_reward_fund db) (\<lambda>rf.
        bindR (evaluate_reward_curve fc (u128_of_int fc (c_net_rshares (snd r))) (rf_author_reward_curve (snd rf))
          (rf_content_constant (snd rf))) (\<lambda>claims.
        bindR (fund_at (fst rf) funds) (\<lambda>f.
        Inr (funds[fst rf := f\<lparr>fc_recent_claims := fc_recent_claims f + claims\<rparr>]))))
      else Inr funds)"

type_synonym payout_state = "database \<times> reward_fund_context list"

definition due_comment :: "payout_state \<Rightarrow> (oid \<times> comment_object) option" where
  "due_comment s = first_due c_cashout_time (\<lambda>c. c_cashout_time c \<le> head_block_time (fst s)) (indices (comments (fst s)))"

definition cashout_round :: "fc_lib \<Rightarrow> oid \<times> comment_object \<Rightarrow> payout_state \<Rightarrow> exn + payout_state" where
  "cashout_round fc r s =
     bindR (get_reward_fund (fst s)) (\<lambda>rf.
     bindR (fund_at (fst rf) (snd s)) (\<lambda>f.
     bindR (cashout_comment_helper fc
        \<lparr> ctx_rshares = 0, ctx_reward_weight = 0, ctx_total_reward_shares2 = fc_recent_claims f,
          ctx_total_reward_fund_bmt = fc_reward_balance f, ctx_reward_curve = quadratic,
          ctx_content_constant = CONTENT_CONSTANT \<rparr> (fst r) (snd r) (fst s)) (\<lambda>x.
     bindR (safe_add fc (fc_bmt_awarded f) (snd x)) (\<lambda>awarded.
     Inr (fst x, (snd s)[fst rf := f\<lparr>fc_bmt_awarded := awarded\<rparr>])))))"

definition comments_due :: "payout_state \<Rightarrow> nat" where
  "comments_due s = length (filter (\<lambda>r. c_cashout_time (snd r) \<le> head_block_time (fst s)) (indices (comments (fst s))))"

definition store_fund :: "fc_lib \<Rightarrow> nat \<times> reward_fund_context \<Rightarrow> database \<Rightarrow> exn + database" where
  "store_fund fc p =
     modify_reward_fund (fst p) (\<lambda>rfo.
       bindR (asset_minus fc (rf_reward_balance rfo) (bmt (fc_bmt_awarded (snd p)))) (\<lambda>b.
       Inr (rfo\<lparr>rf_recent_claims := fc_recent_claims (snd p), rf_reward_balance := b\<rparr>)))"

definition process_comment_cashout :: "fc_lib \<Rightarrow> database \<Rightarrow> exn + database" where
  "process_comment_cashout fc db =
     (if head_block_num db \<le> FIRST_PAYOUT_BLOCK then Inr db
      else
        bindR (foldR (cache_fund fc) (indices (reward_funds db)) (db, [])) (\<lambda>(db1, funds0).
        bindR (foldR (add_claims fc db1)
          (takeWhile (\<lambda>r. c_cashout_time (snd r) \<le> head_block_time db1) (comments_by_cashout db1)) funds0) (\<lambda>funds1.
        bindR (drain (comments_due (db1, funds1)) due_comment (cashout_round fc) (db1, funds1)) (\<lambda>(db2, funds2).
        foldR (store_fund fc) (enumerate 0 funds2) db2))))"

subsection \<open>What a payout leaves alone\<close>

text \<open>
  A step is undated when it keeps the cashout time of every comment, the time of the head
  block and the reward funds.
\<close>

definition cashouts :: "database \<Rightarrow> (oid \<times> time_point_sec) list" where
  "cashouts db = map (\<lambda>r. (fst r, c_cashout_time (snd r))) (indices (comments db))"

definition undated :: "database \<Rightarrow> database \<Rightarrow> bool" where
  "undated db db' \<longleftrightarrow> cashouts db' = cashouts db \<and> head_block_time db' = head_block_time db \<and>
     reward_funds db' = reward_funds db"

lemma undated_refl [simp]: "undated db db"
  by (simp add: undated_def)

lemma undated_trans: "undated db1 db2 \<Longrightarrow> undated db2 db3 \<Longrightarrow> undated db1 db3"
  by (simp add: undated_def)

lemma map_upd_row: "map (\<lambda>r. (fst r, f (snd r))) (upd_row i v rs) = upd_row i (f v) (map (\<lambda>r. (fst r, f (snd r))) rs)"
  by (induction i v rs rule: upd_row.induct) auto

lemma upd_row_same: "map_of rs i = Some v \<Longrightarrow> upd_row i v rs = rs"
  by (induction i v rs rule: upd_row.induct) (auto split: if_splits)

lemma map_of_map_row: "map_of rs i = Some v \<Longrightarrow> map_of (map (\<lambda>r. (fst r, f (snd r))) rs) i = Some (f v)"
  by (induction rs) (auto split: if_splits)

lemma modify_comment_cashouts:
  "modify_comment i m db = Inr db' \<Longrightarrow> \<exists>c c'. map_of (cashouts db) i = Some (c_cashout_time c) \<and> m c = Inr c' \<and>
     cashouts db' = upd_row i (c_cashout_time c') (cashouts db) \<and> head_block_time db' = head_block_time db \<and>
     reward_funds db' = reward_funds db"
  by (auto simp: modify_comment_def res_simps cashouts_def map_upd_row map_of_map_row head_block_time_def elim!: modifyD)

lemma modify_comment_undated:
  assumes "modify_comment i m db = Inr db'" and "\<And>c c'. m c = Inr c' \<Longrightarrow> c_cashout_time c' = c_cashout_time c"
  shows "undated db db'"
  using modify_comment_cashouts [OF assms(1)] assms(2) by (auto simp: undated_def upd_row_same)

lemma modify_account_undated: "modify_account i m db = Inr db' \<Longrightarrow> undated db db'"
  by (auto simp: undated_def cashouts_def head_block_time_def dest!: modify_account_frame)

lemma adjust_balance_undated: "adjust_balance fc i d db = Inr db' \<Longrightarrow> undated db db'"
  by (auto simp: undated_def cashouts_def head_block_time_def dest!: adjust_balance_frame)

lemma create_vesting_undated: "create_vesting fc i l rw db = Inr (db', v) \<Longrightarrow> undated db db'"
  by (auto simp: create_vesting_def res_simps undated_def cashouts_def head_block_time_def modify_dgpo_def
      split: if_splits dest!: frames)

lemmas undateds = modify_account_undated adjust_balance_undated create_vesting_undated

lemma pay_curator_undated: "pay_curator fc m t r s = Inr s' \<Longrightarrow> undated (fst s) (fst s')"
  by (auto simp: pay_curator_def res_simps split: if_splits dest!: undateds intro: undated_trans)

lemma pay_curators_undated: "pay_curators fc ci c m db = Inr (db', u, m') \<Longrightarrow> undated db db'"
proof -
  have f: "foldR (pay_curator fc a t) vs s = Inr s' \<Longrightarrow> undated (fst s) (fst s')" for a t vs s s'
    by (erule foldR_frame [where R = "\<lambda>s s'. undated (fst s) (fst s')", rotated 3])
      (auto intro: undated_trans pay_curator_undated)
  assume "pay_curators fc ci c m db = Inr (db', u, m')"
  then show ?thesis by (auto simp: pay_curators_def res_simps split: if_splits dest!: f)
qed

lemma pay_beneficiaries_undated: "foldR (pay_beneficiary fc a) bs s = Inr s' \<Longrightarrow> undated (fst s) (fst s')"
  by (erule foldR_frame [where R = "\<lambda>s s'. undated (fst s) (fst s')", rotated 3])
    (auto simp: pay_beneficiary_def res_simps dest!: undateds intro: undated_trans)

lemma adjust_total_payout_undated: "adjust_total_payout fc ci a b c db = Inr db' \<Longrightarrow> undated db db'"
  unfolding adjust_total_payout_def by (erule modify_comment_undated) (auto simp: res_simps)

lemma pay_author_undated: "pay_author fc ci c a ct tb db = Inr db' \<Longrightarrow> undated db db'"
proof -
  have m: "modify_comment ci (\<lambda>c. bindR (safe_add fc (c_author_rewards c) a) (\<lambda>r. Inr (c\<lparr>c_author_rewards := r\<rparr>))) s = Inr s' \<Longrightarrow>
      undated s s'" for s s'
    by (erule modify_comment_undated) (auto simp: res_simps)
  assume "pay_author fc ci c a ct tb db = Inr db'"
  then show ?thesis
    by (auto simp: pay_author_def res_simps dest!: undateds m adjust_total_payout_undated) (simp add: undated_def)
qed

lemma pay_comment_undated: "pay_comment fc ci c r db = Inr (db', x) \<Longrightarrow> undated db db'"
  by (auto simp: pay_comment_def res_simps dest!: pay_curators_undated pay_beneficiaries_undated pay_author_undated)
    (simp add: undated_def)

lemma adjust_rshares2_undated: "adjust_rshares2 a b db = Inr db' \<Longrightarrow> undated db db'"
  by (auto simp: adjust_rshares2_def modify_dgpo_def undated_def cashouts_def head_block_time_def res_simps)

lemma close_votes_undated: "foldR (close_vote ci) vs db = Inr db' \<Longrightarrow> undated db db'"
  by (erule foldR_frame [where R = undated, rotated 3])
    (auto simp: close_vote_def res_simps modify_comment_vote_def remove_comment_vote_def undated_def cashouts_def
      head_block_time_def split: if_splits)

lemma cashout_payout_undated: "cashout_payout fc ctx ci c db = Inr (db', x) \<Longrightarrow> undated db db'"
  by (auto simp: cashout_payout_def res_simps Let_def split: if_splits dest!: pay_comment_undated adjust_rshares2_undated
      intro: undated_trans)

text \<open>A payout moves the cashout time of the comment, and of no other.\<close>

lemma cashout_comment_helper_dates:
  assumes "cashout_comment_helper fc ctx ci c db = Inr (db', x)"
  shows "cashouts db' = upd_row ci (time_plus (head_block_time db) SECOND_CASHOUT_WINDOW) (cashouts db) \<and>
    map_of (cashouts db) ci \<noteq> None \<and> head_block_time db' = head_block_time db \<and> reward_funds db' = reward_funds db"
proof -
  from assms obtain db2 db3 vs where
      p: "(if c_net_rshares c > 0 then cashout_payout fc ctx ci c db else Inr (db, 0)) = Inr (db2, x)"
    and m: "modify_comment ci (\<lambda>c. Inr (close_payout (head_block_time db2) c)) db2 = Inr db3"
    and v: "foldR (close_vote ci) vs db3 = Inr db'"
    by (auto simp: cashout_comment_helper_def bindR_eq_Inr)
  have u: "undated db db2" using p by (auto split: if_splits intro: cashout_payout_undated)
  have v: "undated db3 db'" using v by (rule close_votes_undated)
  from modify_comment_cashouts [OF m] u v show ?thesis by (auto simp: undated_def close_payout_def)
qed

subsection \<open>The payouts end\<close>

lemma comments_due_cashouts:
  "comments_due s = length (filter (\<lambda>p. snd p \<le> head_block_time (fst s)) (cashouts (fst s)))"
  by (simp add: comments_due_def cashouts_def filter_map comp_def)

lemma length_filter_upd_row:
  "map_of rs i = Some v \<Longrightarrow> P v \<Longrightarrow> \<not> P v' \<Longrightarrow>
   length (filter (\<lambda>p. P (snd p)) (upd_row i v' rs)) < length (filter (\<lambda>p. P (snd p)) rs)"
  by (induction i v' rs rule: upd_row.induct) (auto split: if_splits)

definition payouts_ok :: "payout_state \<Rightarrow> bool" where
  "payouts_ok s \<longleftrightarrow> rows_sorted (indices (comments (fst s))) \<and> head_block_time (fst s) + SECOND_CASHOUT_WINDOW < 2 ^ 32"

lemma row_ids_cashouts: "row_ids (cashouts db) = row_ids (indices (comments db))"
  by (simp add: cashouts_def)

lemma cashout_round_dates:
  assumes "cashout_round fc r s = Inr s'"
  shows "cashouts (fst s') = upd_row (fst r) (time_plus (head_block_time (fst s)) SECOND_CASHOUT_WINDOW) (cashouts (fst s)) \<and>
    map_of (cashouts (fst s)) (fst r) \<noteq> None \<and> head_block_time (fst s') = head_block_time (fst s) \<and>
    reward_funds (fst s') = reward_funds (fst s)"
proof -
  from assms obtain ctx x where "cashout_comment_helper fc ctx (fst r) (snd r) (fst s) = Inr (fst s', x)"
    by (auto simp: cashout_round_def res_simps)
  from cashout_comment_helper_dates [OF this] show ?thesis by simp
qed

interpretation payouts: draining due_comment "cashout_round fc" comments_due payouts_ok for fc
proof unfold_locales
  fix s r s'
  assume ok: "payouts_ok s" and due: "due_comment s = Some r" and run: "cashout_round fc r s = Inr s'"
  let ?now = "head_block_time (fst s)"
  have r: "r \<in> set (indices (comments (fst s)))" "c_cashout_time (snd r) \<le> ?now"
    using first_due_mem [OF due [unfolded due_comment_def]] by auto
  have "(fst r, c_cashout_time (snd r)) \<in> set (cashouts (fst s))" using r(1) by (auto simp: cashouts_def)
  then have old: "map_of (cashouts (fst s)) (fst r) = Some (c_cashout_time (snd r))"
    using ok by (intro map_of_is_SomeI) (auto simp: payouts_ok_def cashouts_def comp_def dest: rows_sorted_distinct)
  have new: "\<not> time_plus ?now SECOND_CASHOUT_WINDOW \<le> ?now"
    using ok by (simp add: payouts_ok_def time_plus_small SECOND_CASHOUT_WINDOW_def)
  note d = cashout_round_dates [OF run]
  have "comments_due s' < comments_due s"
    unfolding comments_due_cashouts d [THEN conjunct1] using d length_filter_upd_row [OF old, of "\<lambda>t. t \<le> ?now", OF r(2) new] by simp
  moreover have "row_ids (indices (comments (fst s'))) = row_ids (indices (comments (fst s)))"
    using d row_ids_cashouts by (metis row_ids_upd_row)
  ultimately show "comments_due s' < comments_due s \<and> payouts_ok s'" using ok d by (simp add: payouts_ok_def del: set_map)
next
  fix s r
  assume "due_comment s = Some r"
  from first_due_mem [OF this [unfolded due_comment_def]] show "comments_due s > 0"
    by (auto simp: comments_due_def filter_empty_conv)
qed

lemma foldR_throws: "foldR f xs s = Inl e \<Longrightarrow> \<exists>x t. f x t = Inl e"
  by (induction xs arbitrary: s) (auto simp: bindR_eq_Inl)

lemma cache_funds_undated:
  "foldR (cache_fund fc) rs s = Inr s' \<Longrightarrow> comments (fst s') = comments (fst s) \<and> dgpo (fst s') = dgpo (fst s)"
  by (erule foldR_frame [where R = "\<lambda>s s'. comments (fst s') = comments (fst s) \<and> dgpo (fst s') = dgpo (fst s)", rotated 3])
    (auto simp: cache_fund_def res_simps dest!: frames)

lemma store_funds_undated:
  "foldR (store_fund fc) ps db = Inr db' \<Longrightarrow> comments db' = comments db \<and> dgpo db' = dgpo db"
  by (erule foldR_frame [where R = "\<lambda>s s'. comments s' = comments s \<and> dgpo s' = dgpo s", rotated 3])
    (auto simp: store_fund_def dest!: frames)

lemma due_comment_None: "due_comment s = None \<Longrightarrow> r \<in> set (indices (comments (fst s))) \<Longrightarrow> head_block_time (fst s) < c_cashout_time (snd r)"
  unfolding due_comment_def by (drule first_due_None) (auto simp: not_le)

lemma drain_cashout_time:
  "drain n due_comment (cashout_round fc) s = Inr s' \<Longrightarrow> head_block_time (fst s') = head_block_time (fst s)"
  by (erule drain_rel [where R = "\<lambda>s s'. head_block_time (fst s') = head_block_time (fst s)", rotated 3])
    (auto dest: cashout_round_dates)

text \<open>
  C20: payouts end. Once payouts have started, the maintenance of a block ends with no
  comment left that is due, or it throws an exception that one of its steps throws: the
  payout loop restarts at the first comment of the index, and every payout moves its
  comment behind the head block.
\<close>

theorem process_comment_cashout_ends:
  assumes "head_block_num db > FIRST_PAYOUT_BLOCK" and "rows_sorted (indices (comments db))"
    and "head_block_time db + SECOND_CASHOUT_WINDOW < 2 ^ 32"
  shows "(\<exists>db'. process_comment_cashout fc db = Inr db' \<and>
      (\<forall>r \<in> set (indices (comments db')). head_block_time db < c_cashout_time (snd r))) \<or>
    (\<exists>e. process_comment_cashout fc db = Inl e \<and>
      ((\<exists>r s. cache_fund fc r s = Inl e) \<or> (\<exists>d r f. add_claims fc d r f = Inl e) \<or>
       (\<exists>s r. due_comment s = Some r \<and> cashout_round fc r s = Inl e) \<or> (\<exists>p d. store_fund fc p d = Inl e)))"
proof (cases "process_comment_cashout fc db")
  case (Inl e)
  from Inl assms(1) consider "foldR (cache_fund fc) (indices (reward_funds db)) (db, []) = Inl e"
    | db1 funds0 xs where "foldR (add_claims fc db1) xs funds0 = Inl e"
    | db1 funds0 funds1 where "foldR (cache_fund fc) (indices (reward_funds db)) (db, []) = Inr (db1, funds0)"
        "drain (comments_due (db1, funds1)) due_comment (cashout_round fc) (db1, funds1) = Inl e"
    | ps db2 where "foldR (store_fund fc) ps db2 = Inl e"
    by (auto simp: process_comment_cashout_def bindR_eq_Inl)
  then have "(\<exists>r s. cache_fund fc r s = Inl e) \<or> (\<exists>d r f. add_claims fc d r f = Inl e) \<or>
      (\<exists>s r. due_comment s = Some r \<and> cashout_round fc r s = Inl e) \<or> (\<exists>p d. store_fund fc p d = Inl e)"
  proof cases
    case 3
    have "payouts_ok (db1, funds1)"
      using cache_funds_undated [OF 3(1)] assms(2,3) by (simp add: payouts_ok_def head_block_time_def)
    from payouts.drain_throws [OF this le_refl 3(2)] show ?thesis by blast
  qed (blast dest: foldR_throws)+
  with Inl show ?thesis by blast
next
  case (Inr db')
  with assms(1) obtain db1 funds0 db2 funds1 funds2 where
    1: "foldR (cache_fund fc) (indices (reward_funds db)) (db, []) = Inr (db1, funds0)"
    and 2: "drain (comments_due (db1, funds1)) due_comment (cashout_round fc) (db1, funds1) = Inr (db2, funds2)"
    and 3: "foldR (store_fund fc) (enumerate 0 funds2) db2 = Inr db'"
    by (auto simp: process_comment_cashout_def bindR_eq_Inr)
  have "head_block_time db2 = head_block_time db"
    using cache_funds_undated [OF 1] drain_cashout_time [OF 2] by (simp add: head_block_time_def)
  with due_comment_None [OF drain_done [OF 2]] store_funds_undated [OF 3] Inr show ?thesis by auto
qed

definition payout_chain :: database where
  "payout_chain = sample_chain\<lparr>dgpo := (dgpo sample_chain)\<lparr>g_head_block_number := 300000, g_total_vesting_shares := vests 1000000,
       g_total_vesting_fund_bmt := bmt 1000\<rparr>,
     reward_funds := mk_index [(0, default_reward_fund_object\<lparr>rf_name := ''post'', rf_reward_balance := bmt 1000,
       rf_last_update := 1600000000, rf_percent_curation_rewards := 2500, rf_author_reward_curve := quadratic\<rparr>)] 1,
     comments := mk_index [(0, default_comment_object\<lparr>c_author := ''alice'', c_permlink := ''post'', c_net_rshares := 1000,
       c_cashout_time := 1599999999, c_total_vote_weight := 10, c_reward_weight := 10000,
       c_percent_bmt_dollars := 10000, c_allow_curation_rewards := True,
       c_beneficiaries := [\<lparr> br_account = ''carol'', br_weight = 1000 \<rparr>]\<rparr>)] 1,
     comment_votes := mk_index [(0, default_comment_vote_object\<lparr>cvo_voter := 1, cvo_comment := 0, cvo_weight := 5\<rparr>)] 1\<rparr>"

theorem process_comment_cashout_ends_witness:
  "(\<exists>db'. process_comment_cashout fc64 payout_chain = Inr db' \<and>
      (\<forall>r \<in> set (indices (comments db')). head_block_time payout_chain < c_cashout_time (snd r))) \<or>
    (\<exists>e. process_comment_cashout fc64 payout_chain = Inl e \<and>
      ((\<exists>r s. cache_fund fc64 r s = Inl e) \<or> (\<exists>d r f. add_claims fc64 d r f = Inl e) \<or>
       (\<exists>s r. due_comment s = Some r \<and> cashout_round fc64 r s = Inl e) \<or> (\<exists>p d. store_fund fc64 p d = Inl e)))"
  by (rule process_comment_cashout_ends)
    (simp_all add: payout_chain_def sample_chain_def sample_simps head_block_num_def head_block_time_def
      FIRST_PAYOUT_BLOCK_def SECOND_CASHOUT_WINDOW_def)

subsection \<open>Payouts come from the reward funds\<close>

definition total_awarded :: "reward_fund_context list \<Rightarrow> int" where
  "total_awarded funds = sum_list (map fc_bmt_awarded funds)"

text \<open>Accounts, comments and votes hold no share of a payout that is not in the gaps.\<close>

lemma sum_list_upd: "i < length xs \<Longrightarrow> sum_list (map f (xs[i := y])) = sum_list (map f xs) - f (xs ! i) + (f y :: int)"
  by (induction xs arbitrary: i) (auto split: nat.splits)

lemma close_votes_gaps: "foldR (close_vote ci) vs db = Inr db' \<Longrightarrow> keeps_gaps db db'"
  by (erule foldR_frame [where R = keeps_gaps, rotated 3])
    (auto simp: close_vote_def res_simps keeps_gaps_def split: if_splits dest!: table_gaps)

definition paid :: "int \<Rightarrow> database \<Rightarrow> database \<Rightarrow> bool" where
  "paid x db db' \<longleftrightarrow> supply_gap db' = supply_gap db - x \<and> vests_gap db' = vests_gap db \<and> pending_gap db' = pending_gap db"

lemma pay_curators_quiet: "pay_curators fc ci c m db = Inr (db', u, m') \<Longrightarrow> quiet db db'"
proof -
  have f: "foldR (pay_curator fc a t) vs s = Inr s' \<Longrightarrow> quiet (fst s) (fst s')" for a t vs s s'
    by (erule foldR_frame [where R = "\<lambda>s s'. quiet (fst s) (fst s')", rotated 3])
      (auto simp: pay_curator_def res_simps split: if_splits dest!: quiets intro: quiet_trans)
  assume "pay_curators fc ci c m db = Inr (db', u, m')"
  then show ?thesis by (auto simp: pay_curators_def res_simps split: if_splits dest!: f)
qed

lemma pay_beneficiaries_quiet: "foldR (pay_beneficiary fc a) bs s = Inr s' \<Longrightarrow> quiet (fst s) (fst s')"
  by (erule foldR_frame [where R = "\<lambda>s s'. quiet (fst s) (fst s')", rotated 3])
    (auto simp: pay_beneficiary_def res_simps dest!: quiets intro: quiet_trans)

lemma pay_author_quiet: "pay_author fc ci c a ct tb db = Inr db' \<Longrightarrow> quiet db db'"
  by (auto simp: pay_author_def adjust_total_payout_def res_simps dest!: quiets) (simp add: quiet_defs)

lemma pay_comment_quiet: "pay_comment fc ci c r db = Inr (db', x) \<Longrightarrow> quiet db db'"
  by (auto simp: pay_comment_def res_simps dest!: pay_curators_quiet pay_beneficiaries_quiet pay_author_quiet) (simp add: quiet_defs)

lemma cashout_payout_quiet: "cashout_payout fc ctx ci c db = Inr (db', x) \<Longrightarrow> quiet db db'"
  by (auto simp: cashout_payout_def adjust_rshares2_def res_simps Let_def split: if_splits dest!: pay_comment_quiet quiets
      intro: quiet_trans)

lemma close_votes_quiet: "foldR (close_vote ci) vs db = Inr db' \<Longrightarrow> quiet db db'"
  by (erule foldR_frame [where R = quiet, rotated 3])
    (auto simp: close_vote_def res_simps split: if_splits dest: quiets intro: quiet_trans)

lemma cashout_comment_helper_quiet: "cashout_comment_helper fc ctx ci c db = Inr (db', x) \<Longrightarrow> quiet db db'"
  by (auto simp: cashout_comment_helper_def res_simps split: if_splits dest!: cashout_payout_quiet close_votes_quiet quiets)
    (simp_all add: quiet_defs)

lemma payouts_quiet: "drain n due_comment (cashout_round fc) s = Inr s' \<Longrightarrow> quiet (fst s) (fst s')"
  by (erule drain_rel [where R = "\<lambda>s s'. quiet (fst s) (fst s')", rotated 3])
    (auto simp: cashout_round_def res_simps dest!: cashout_comment_helper_quiet intro: quiet_trans)

lemma modify_reward_fund_quiet: "modify_reward_fund i m db = Inr db' \<Longrightarrow> quiet db db'"
  by (auto simp: modify_reward_fund_def res_simps quiet_simps dest!: sorted_modify)

lemma cashout_quiet: "process_comment_cashout fc db = Inr db' \<Longrightarrow> quiet db db'"
proof -
  have c: "foldR (cache_fund fc) rs s = Inr s' \<Longrightarrow> quiet (fst s) (fst s')" for rs s s'
    by (erule foldR_frame [where R = "\<lambda>s s'. quiet (fst s) (fst s')", rotated 3])
      (auto simp: cache_fund_def res_simps dest!: modify_reward_fund_quiet intro: quiet_trans)
  have s: "foldR (store_fund fc) ps db = Inr db' \<Longrightarrow> quiet db db'" for ps db db'
    by (erule foldR_frame [where R = quiet, rotated 3])
      (auto simp: store_fund_def dest!: modify_reward_fund_quiet intro: quiet_trans)
  assume "process_comment_cashout fc db = Inr db'"
  then show ?thesis
    by (auto simp: process_comment_cashout_def res_simps split: if_splits dest!: c s payouts_quiet) (simp add: quiet_defs)
qed

context fc_exact
begin

lemma pay_curator_paid: "pay_curator fc m t r s = Inr s' \<Longrightarrow> paid (snd s - snd s') (fst s) (fst s')"
  by (auto simp: pay_curator_def res_simps paid_def holdings split: if_splits dest!: create_vesting_gaps modify_account_gaps safe_dests)

lemma pay_curators_paid: "pay_curators fc ci c m db = Inr (db', u, m') \<Longrightarrow> paid m' db db' \<and> (m' + u = m \<or> m' + u = 0)"
proof -
  have f: "foldR (pay_curator fc a t) vs s = Inr s' \<Longrightarrow> paid (snd s - snd s') (fst s) (fst s')" for a t vs s s'
    by (erule foldR_frame [where R = "\<lambda>s s'. paid (snd s - snd s') (fst s) (fst s')", rotated 3])
      (auto simp: paid_def dest!: pay_curator_paid)
  assume "pay_curators fc ci c m db = Inr (db', u, m')"
  then show ?thesis by (auto simp: pay_curators_def res_simps paid_def split: if_splits dest!: f safe_dests)
qed

lemma pay_beneficiaries_paid: "foldR (pay_beneficiary fc a) bs s = Inr s' \<Longrightarrow> paid (snd s' - snd s) (fst s) (fst s')"
  by (erule foldR_frame [where R = "\<lambda>s s'. paid (snd s' - snd s) (fst s) (fst s')", rotated 3])
    (auto simp: pay_beneficiary_def paid_def res_simps dest!: create_vesting_gaps safe_addD)

lemma pay_author_paid: "pay_author fc ci c a ct tb db = Inr db' \<Longrightarrow> paid a db db'"
  by (auto simp: pay_author_def adjust_total_payout_def paid_def res_simps holdings
      dest!: create_vesting_gaps adjust_balance_gaps modify_comment_gaps modify_account_gaps safe_dests)

lemma pay_comment_paid: "pay_comment fc ci c r db = Inr (db', x) \<Longrightarrow> paid x db db'"
  by (auto simp: pay_comment_def res_simps dest!: pay_curators_paid pay_beneficiaries_paid pay_author_paid safe_dests)
    (simp_all add: paid_def)

lemma cashout_payout_paid: "cashout_payout fc ctx ci c db = Inr (db', x) \<Longrightarrow> paid x db db'"
  by (auto simp: cashout_payout_def res_simps Let_def split: if_splits dest!: pay_comment_paid adjust_rshares2_gaps)
    (simp_all add: paid_def keeps_gaps_def)

lemma cashout_comment_helper_paid: "cashout_comment_helper fc ctx ci c db = Inr (db', x) \<Longrightarrow> paid x db db'"
  by (auto simp: cashout_comment_helper_def res_simps split: if_splits dest!: cashout_payout_paid modify_comment_gaps close_votes_gaps)
    (simp_all add: paid_def keeps_gaps_def)

lemma cashout_round_paid:
  "cashout_round fc r s = Inr s' \<Longrightarrow> paid (total_awarded (snd s') - total_awarded (snd s)) (fst s) (fst s') \<and>
     length (snd s') = length (snd s)"
  by (auto simp: cashout_round_def fund_at_def res_simps total_awarded_def sum_list_upd split: if_splits
      dest!: cashout_comment_helper_paid safe_addD)

lemma payouts_paid:
  "drain n due_comment (cashout_round fc) s = Inr s' \<Longrightarrow> paid (total_awarded (snd s') - total_awarded (snd s)) (fst s) (fst s')"
  by (erule drain_rel [where R = "\<lambda>s s'. paid (total_awarded (snd s') - total_awarded (snd s)) (fst s) (fst s')", rotated 3])
    (auto simp: paid_def dest!: cashout_round_paid)

lemma store_funds_paid: "foldR (store_fund fc) (enumerate k funds) db = Inr db' \<Longrightarrow> paid (- total_awarded funds) db db'"
proof (induction funds arbitrary: k db)
  case (Cons f funds)
  then obtain db1 where s: "store_fund fc (k, f) db = Inr db1" and r: "foldR (store_fund fc) (enumerate (Suc k) funds) db1 = Inr db'"
    by (auto simp: bindR_eq_Inr)
  have "paid (- fc_bmt_awarded f) db db1"
    using s by (auto simp: store_fund_def paid_def res_simps bmt_of_reward_fund_def dest!: modify_reward_fund_gaps asset_dests)
  with Cons.IH [OF r] show ?case by (simp add: paid_def total_awarded_def)
qed (simp add: paid_def total_awarded_def)

lemma cache_funds_gaps:
  "foldR (cache_fund fc) rs s = Inr s' \<Longrightarrow> paid 0 (fst s) (fst s') \<and> total_awarded (snd s') = total_awarded (snd s)"
  by (erule foldR_frame [where R = "\<lambda>s s'. paid 0 (fst s) (fst s') \<and> total_awarded (snd s') = total_awarded (snd s)", rotated 3])
    (auto simp: cache_fund_def paid_def total_awarded_def res_simps decay_claims_def bmt_of_reward_fund_def dest!: modify_reward_fund_gaps)

lemma add_claims_awarded: "foldR (add_claims fc db) rs funds = Inr funds' \<Longrightarrow> total_awarded funds' = total_awarded funds"
  by (erule foldR_const [rotated])
    (auto simp: add_claims_def fund_at_def total_awarded_def res_simps sum_list_upd split: if_splits)

lemma cashout_gaps:
  assumes "process_comment_cashout fc db = Inr db'"
  shows "keeps_gaps db db'"
proof (cases "head_block_num db \<le> FIRST_PAYOUT_BLOCK")
  case False
  with assms obtain db1 funds0 funds1 xs db2 funds2 n where
    1: "foldR (cache_fund fc) (indices (reward_funds db)) (db, []) = Inr (db1, funds0)"
    and 2: "foldR (add_claims fc db1) xs funds0 = Inr funds1"
    and 3: "drain n due_comment (cashout_round fc) (db1, funds1) = Inr (db2, funds2)"
    and 4: "foldR (store_fund fc) (enumerate 0 funds2) db2 = Inr db'"
    by (auto simp: process_comment_cashout_def bindR_eq_Inr)
  show ?thesis
    using cache_funds_gaps [OF 1] add_claims_awarded [OF 2] payouts_paid [OF 3] store_funds_paid [OF 4]
    by (simp add: paid_def keeps_gaps_def total_awarded_def)
qed (use assms in \<open>simp add: process_comment_cashout_def keeps_gaps_def\<close>)

lemma cashout_orderly: "process_comment_cashout fc db = Inr db' \<Longrightarrow> orderly db db'"
  by (rule orderlyI, erule cashout_gaps, erule cashout_quiet)

end

text \<open>
  C19: payouts come from the reward funds. What a block pays to curators, beneficiaries and
  authors, in vesting shares and in BMT, is what it takes from the reward funds: the
  recorded supply differs from what is held as much as before, and so do the vesting shares
  and the pending rewards.
\<close>

theorem cashout_conserves:
  assumes "fc_exact fc" and "process_comment_cashout fc db = Inr db'"
  shows "supply_gap db' = supply_gap db \<and> vests_gap db' = vests_gap db \<and> pending_gap db' = pending_gap db"
  using fc_exact.cashout_gaps [OF assms] by (simp add: keeps_gaps_def)



lemmas payout_evals = payout_chain_def sample_chain_def sample_simps default_reward_fund_object_def
  default_comment_object_def default_comment_vote_object_def modify_def modify_ok_def get_id_def find_id_def get_by_def
  find_by_def head_block_time_def head_block_num_def eval64 Let_def get_reward_fund_def POST_REWARD_FUND_NAME_def fund_at_def
  get_account_def modify_account_def account_conflict_def modify_dgpo_def modify_comment_def comment_conflict_def c_str_def

lemmas payout_value_evals = get_rshare_reward_def evaluate_reward_curve_def is_comment_payout_dust_def MIN_PAYOUT_def
  PERCENT_100_def create_vesting_def get_reward_vesting_share_price_def get_vesting_share_price_def asset_times_price_def
  mul_div_u64_def mk_price_def symbol_name_def sym_byte_def symbol_values curator_claim_def

lemmas proxy_depth = adjust_proxied_witness_votes_at.simps(2) [of _ 3, simplified] MAX_PROXY_RECURSION_DEPTH_def

abbreviation payout_fund :: "128 word \<Rightarrow> int \<Rightarrow> reward_fund_context" where
  "payout_fund claims awarded \<equiv> \<lparr>fc_recent_claims = claims, fc_reward_balance = bmt 1000, fc_bmt_awarded = awarded\<rparr>"

lemma payout_cached:
  "foldR (cache_fund fc64) (indices (reward_funds payout_chain)) (payout_chain, []) = Inr (payout_chain, [payout_fund 0 0])"
  by (simp add: payout_evals cache_fund_def modify_reward_fund_def decay_claims_def time_diff_def RECENT_RSHARES_DECAY_RATE_def
      reward_fund_conflict_def)

lemma payout_claims:
  "foldR (add_claims fc64 payout_chain)
     (takeWhile (\<lambda>r. c_cashout_time (snd r) \<le> head_block_time payout_chain) (comments_by_cashout payout_chain)) [payout_fund 0 0] =
   Inr [payout_fund 1000000 0]"
  by (simp add: payout_evals payout_value_evals comments_by_cashout_def add_claims_def)

lemma payout_round:
  "\<exists>db'. cashout_round fc64 (hd (indices (comments payout_chain))) (payout_chain, [payout_fund 1000000 0]) =
     Inr (db', [payout_fund 1000000 1000]) \<and> due_comment (db', [payout_fund 1000000 1000]) = None"
  by (simp add: payout_evals payout_value_evals cashout_round_def cashout_comment_helper_def
      cashout_payout_def fill_comment_reward_context_local_state_def pay_comment_def get_curation_rewards_percent_def
      pay_curators_def votes_by_weight_def pay_curator_def pay_beneficiary_def pay_author_def proxy_depth
      adjust_proxied_witness_votes_def adjust_witness_votes_def votes_of_account_def
      adjust_balance_def adjust_total_payout_def close_payout_def adjust_rshares2_def votes_of_comment_def close_vote_def
      calculate_discussion_payout_time_def modify_comment_vote_def comment_vote_conflict_def time_plus_def time_max_def
      SECOND_CASHOUT_WINDOW_def due_comment_def first_due_def ROOT_POST_PARENT_def PROXY_TO_SELF_ACCOUNT_def)

lemma payout_due:
  "due_comment (payout_chain, f) = Some (hd (indices (comments payout_chain)))" "comments_due (payout_chain, f) = Suc 0"
  by (simp_all add: payout_evals due_comment_def first_due_def comments_due_def)

lemma payout_run: "\<exists>db'. process_comment_cashout fc64 payout_chain = Inr db'"
proof -
  obtain db1 where r: "cashout_round fc64 (hd (indices (comments payout_chain))) (payout_chain, [payout_fund 1000000 0]) =
      Inr (db1, [payout_fund 1000000 1000])" and n: "due_comment (db1, [payout_fund 1000000 1000]) = None"
    using payout_round by blast
  have d: "drain (comments_due (payout_chain, [payout_fund 1000000 0])) due_comment (cashout_round fc64)
      (payout_chain, [payout_fund 1000000 0]) = Inr (db1, [payout_fund 1000000 1000])"
    using r n by (simp add: payout_due drain_Some)
  have f: "reward_funds db1 = reward_funds payout_chain" using cashout_round_dates [OF r] by simp
  have "\<exists>db'. foldR (store_fund fc64) (enumerate 0 [payout_fund 1000000 1000]) db1 = Inr db'"
    by (simp add: store_fund_def modify_reward_fund_def f) (simp add: payout_evals reward_fund_conflict_def)
  with d show ?thesis
    by (simp add: process_comment_cashout_def payout_cached payout_claims)
qed

theorem cashout_conserves_witness:
  "\<exists>db'. process_comment_cashout fc64 payout_chain = Inr db' \<and> supply_gap db' = supply_gap payout_chain \<and>
     vests_gap db' = vests_gap payout_chain \<and> pending_gap db' = pending_gap payout_chain"
  using payout_run cashout_conserves [OF fc64.fc_exact_axioms] by blast

end
