(* ===== verification/Steady.thy ===== *)
theory Steady
  imports Cashout
begin

text \<open>
  The maintenance of a block neither moves the head of the chain nor touches the records of
  transactions, apart from the two functions whose task it is. A step is steady when it
  keeps them; \<open>steadies\<close> collects the steps that are.
\<close>

definition steady :: "database \<Rightarrow> database \<Rightarrow> bool" where
  "steady db db' \<longleftrightarrow> transactions db' = transactions db \<and> g_time (dgpo db') = g_time (dgpo db) \<and>
     g_head_block_number (dgpo db') = g_head_block_number (dgpo db) \<and> g_head_block_id (dgpo db') = g_head_block_id (dgpo db)"

named_theorems steadies "steps that keep the head of the chain and the records of transactions"

lemma steady_refl [simp]: "steady db db"
  by (simp add: steady_def)

lemma steady_trans: "steady db1 db2 \<Longrightarrow> steady db2 db3 \<Longrightarrow> steady db1 db3"
  by (simp add: steady_def)

lemma foldR_steady:
  "(\<And>x s s'. f x s = Inr s' \<Longrightarrow> steady (g s) (g s')) \<Longrightarrow> foldR f xs s = Inr s' \<Longrightarrow> steady (g s) (g s')"
  by (erule foldR_frame [where R = "\<lambda>s s'. steady (g s) (g s')", rotated 3]) (auto intro: steady_trans)

lemma drain_steady:
  "(\<And>r s s'. body r s = Inr s' \<Longrightarrow> steady (g s) (g s')) \<Longrightarrow> drain n nxt body s = Inr s' \<Longrightarrow> steady (g s) (g s')"
  by (erule drain_rel [where R = "\<lambda>s s'. steady (g s) (g s')", rotated 3]) (auto intro: steady_trans)

lemma modify_dgpo_steady:
  assumes "modify_dgpo m db = Inr db'" and "\<And>g g'. m g = Inr g' \<Longrightarrow> g_time g' = g_time g \<and>
    g_head_block_number g' = g_head_block_number g \<and> g_head_block_id g' = g_head_block_id g"
  shows "steady db db'"
  using assms(1) by (auto simp: modify_dgpo_def steady_def res_simps dest!: assms(2))

lemma table_steady [steadies]:
  "modify_account i m1 db = Inr db' \<Longrightarrow> steady db db'"
  "modify_witness i m2 db = Inr db' \<Longrightarrow> steady db db'"
  "remove_witness_vote i db = Inr db' \<Longrightarrow> steady db db'"
  "modify_comment i m4 db = Inr db' \<Longrightarrow> steady db db'"
  "modify_comment_vote i m5 db = Inr db' \<Longrightarrow> steady db db'"
  "remove_comment_vote i db = Inr db' \<Longrightarrow> steady db db'"
  "remove_limit_order i db = Inr db' \<Longrightarrow> steady db db'"
  "remove_escrow i db = Inr db' \<Longrightarrow> steady db db'"
  "remove_decline_request i db = Inr db' \<Longrightarrow> steady db db'"
  "remove_recovery_request i db = Inr db' \<Longrightarrow> steady db db'"
  "remove_change_recovery i db = Inr db' \<Longrightarrow> steady db db'"
  "remove_owner_history i db = Inr db' \<Longrightarrow> steady db db'"
  "modify_reward_fund i m6 db = Inr db' \<Longrightarrow> steady db db'"
  "remove_delegation_expiration i db = Inr db' \<Longrightarrow> steady db db'"
  "modify_custom_token i m7 db = Inr db' \<Longrightarrow> steady db db'"
  "modify_block_summary i m8 db = Inr db' \<Longrightarrow> steady db db'"
  "modify_wso m9 db = Inr db' \<Longrightarrow> steady db db'"
  "modify_hfo m10 db = Inr db' \<Longrightarrow> steady db db'"
  by (auto simp: steady_def res_simps modify_account_def modify_witness_def remove_witness_vote_def modify_comment_def
      modify_comment_vote_def remove_comment_vote_def remove_limit_order_def remove_escrow_def remove_decline_request_def
      remove_recovery_request_def remove_change_recovery_def remove_owner_history_def modify_reward_fund_def
      remove_delegation_expiration_def modify_custom_token_def modify_block_summary_def modify_wso_def modify_hfo_def)

subsection \<open>The ledger\<close>

lemma adjust_steady [steadies]:
  "adjust_balance fc i d db = Inr db' \<Longrightarrow> steady db db'"
  "adjust_savings_balance fc i d db = Inr db' \<Longrightarrow> steady db db'"
  "adjust_reward_balance fc i d db = Inr db' \<Longrightarrow> steady db db'"
  by (auto simp: adjust_balance_def adjust_savings_balance_def adjust_reward_balance_def dest: steadies)

lemma adjust_supply_steady [steadies]: "adjust_supply fc d v db = Inr db' \<Longrightarrow> steady db db'"
  by (auto simp: adjust_supply_def Let_def res_simps split: if_splits elim!: modify_dgpo_steady)

lemma adjust_witness_votes_steady [steadies]: "adjust_witness_votes fc i d db = Inr db' \<Longrightarrow> steady db db'"
  by (auto simp: steady_def dest!: adjust_witness_votes_frame)

lemma adjust_proxied_steady [steadies]:
  "adjust_proxied_witness_votes fc i d db = Inr db' \<Longrightarrow> steady db db'"
  "adjust_proxied_witness_votes_array fc i ds db = Inr db' \<Longrightarrow> steady db db'"
proof -
  show "adjust_proxied_witness_votes fc i d db = Inr db' \<Longrightarrow> steady db db'"
    by (auto simp: steady_def dest!: frames)
  have "adjust_proxied_witness_votes_array_at fc n i ds db = Inr db' \<Longrightarrow> steady db db'" for n
  proof (induction n arbitrary: i db)
    case (Suc n)
    then show ?case by (auto simp: res_simps Let_def split: if_splits dest!: steadies Suc.IH intro: steady_trans)
  qed (auto simp: res_simps split: if_splits dest!: steadies)
  then show "adjust_proxied_witness_votes_array fc i ds db = Inr db' \<Longrightarrow> steady db db'"
    by (auto simp: adjust_proxied_witness_votes_array_def)
qed

lemma clear_witness_votes_steady [steadies]: "clear_witness_votes i db = Inr db' \<Longrightarrow> steady db db'"
proof -
  have v: "foldR (\<lambda>r. remove_witness_vote (fst r)) rs s = Inr s' \<Longrightarrow> steady s s'" for rs s s'
    by (erule foldR_steady [where g = "\<lambda>x. x", rotated]) (rule steadies)
  assume "clear_witness_votes i db = Inr db'"
  then show ?thesis
    by (auto simp: clear_witness_votes_def res_simps dest!: steadies v intro: steady_trans)
qed

lemma create_vesting_steady [steadies]: "create_vesting fc i l rw db = Inr (db', v) \<Longrightarrow> steady db db'"
  by (auto simp: create_vesting_def res_simps steady_def modify_dgpo_def split: if_splits dest!: frames)

subsection \<open>The header and the schedule\<close>

lemma process_header_extensions_steady [steadies]: "process_header_extensions b db = Inr db' \<Longrightarrow> steady db db'"
  unfolding process_header_extensions_def
  by (erule foldR_steady [where g = "\<lambda>x. x", rotated])
    (auto simp: process_header_extension_def res_simps split: block_header_extension.splits if_splits dest: steadies)

lemma update_signing_witness_steady [steadies]: "update_signing_witness wi b db = Inr db' \<Longrightarrow> steady db db'"
  by (auto simp: update_signing_witness_def Let_def dest: steadies)

lemma update_last_irreversible_block_steady [steadies]: "update_last_irreversible_block db = Inr db' \<Longrightarrow> steady db db'"
  by (auto simp: update_last_irreversible_block_def res_simps Let_def split: if_splits elim!: modify_dgpo_steady)

lemma note_block_summary_steady [steadies]: "note_block_summary nd b db = Inr db' \<Longrightarrow> steady db db'"
  by (auto simp: note_block_summary_def res_simps Let_def dest: steadies)

lemma note_missed_steady: "foldR (note_missed b) xs db = Inr db' \<Longrightarrow> steady db db'"
  by (erule foldR_steady [where g = "\<lambda>x. x", rotated]) (auto simp: note_missed_def res_simps split: if_splits dest: steadies)

lemma reset_virtual_schedule_time_steady: "reset_virtual_schedule_time fc db = Inr db' \<Longrightarrow> steady db db'"
proof -
  have r: "foldR (reset_witness fc t) is s = Inr s' \<Longrightarrow> steady s s'" for t "is" s s'
    by (erule foldR_steady [where g = "\<lambda>x. x", rotated]) (auto simp: reset_witness_def dest: steadies)
  show "reset_virtual_schedule_time fc db = Inr db' \<Longrightarrow> steady db db'"
    by (auto simp: reset_virtual_schedule_time_def res_simps dest!: r steadies intro: steady_trans)
qed

lemma update_median_witness_props_steady: "update_median_witness_props db = Inr db' \<Longrightarrow> steady db db'"
  by (auto simp: update_median_witness_props_def res_simps Let_def split: if_splits
      elim!: modify_dgpo_steady dest!: steadies intro: steady_trans)

lemma mark_witness_steady: "mark_witness s i db = Inr db' \<Longrightarrow> steady db db'"
  by (auto simp: mark_witness_def dest: steadies)

lemma mark_voted_steady: "foldR (\<lambda>r. mark_witness elected (fst r)) rs db = Inr db' \<Longrightarrow> steady db db'"
  by (erule foldR_steady [where g = "\<lambda>x. x", rotated]) (rule mark_witness_steady)

lemma leave_queue_steady: "leave_queue i db = Inr db' \<Longrightarrow> steady db db'"
  by (auto simp: leave_queue_def res_simps steady_def modify_dgpo_def modify_witness_def)

lemma select_miners_steady: "select_miners n voted rs sel db = Inr (sel', db') \<Longrightarrow> steady db db'"
  by (induction n voted rs sel db rule: select_miners.induct)
    (auto simp: res_simps split: if_splits dest!: mark_witness_steady leave_queue_steady intro: steady_trans)

lemma select_runners_steady: "select_runners n taken rs sel procs t db = Inr (sel', procs', t', db') \<Longrightarrow> steady db db'"
  by (induction n taken rs sel procs t db rule: select_runners.induct)
    (auto simp: res_simps split: if_splits dest!: mark_witness_steady intro: steady_trans)

lemma advance_processed_steady: "advance_processed fc t is db = Inr (b, db') \<Longrightarrow> steady db db'"
  by (induction fc t "is" db rule: advance_processed.induct)
    (auto simp: res_simps Let_def split: if_splits dest!: steadies intro: steady_trans)

lemma update_hardfork_votes_steady: "update_hardfork_votes req votes db = Inr db' \<Longrightarrow> steady db db'"
  by (auto simp: update_hardfork_votes_def split: option.splits if_splits dest: steadies)

lemma install_schedule_steady: "install_schedule ne nm active t db = Inr db' \<Longrightarrow> steady db db'"
  by (auto simp: install_schedule_def res_simps Let_def
      dest!: update_hardfork_votes_steady steadies update_median_witness_props_steady intro: steady_trans)

lemma update_witness_schedule_steady [steadies]: "update_witness_schedule fc db = Inr db' \<Longrightarrow> steady db db'"
  unfolding update_witness_schedule_def update_witness_schedule4_def Let_def
  by (auto simp: res_simps split: if_splits
      dest!: mark_voted_steady select_miners_steady select_runners_steady advance_processed_steady
        reset_virtual_schedule_time_steady install_schedule_steady)
    (simp_all add: steady_def)

subsection \<open>Expiry and payments\<close>

lemma clear_expired_orders_steady [steadies]: "clear_expired_orders fc db = Inr db' \<Longrightarrow> steady db db'"
  unfolding clear_expired_orders_def
  by (erule drain_steady [where g = "\<lambda>x. x", rotated])
    (auto simp: cancel_order_def res_simps dest!: steadies intro: steady_trans)

lemma clear_expired_delegations_steady [steadies]: "clear_expired_delegations fc db = Inr db' \<Longrightarrow> steady db db'"
  unfolding clear_expired_delegations_def
  by (erule drain_steady [where g = "\<lambda>x. x", rotated])
    (auto simp: return_delegation_def res_simps dest!: steadies intro: steady_trans)

lemma account_recovery_processing_steady [steadies]: "account_recovery_processing db = Inr db' \<Longrightarrow> steady db db'"
proof -
  have "drain n due_recovery (\<lambda>r. remove_recovery_request (fst r)) s = Inr s' \<Longrightarrow> steady s s'"
    and "drain n due_history (\<lambda>r. remove_owner_history (fst r)) s = Inr s' \<Longrightarrow> steady s s'"
    and "drain n due_change change_recovery s = Inr s' \<Longrightarrow> steady s s'" for n s s'
    by (erule drain_steady [where g = "\<lambda>x. x", rotated],
        auto simp: change_recovery_def res_simps dest!: steadies intro: steady_trans)+
  then show "account_recovery_processing db = Inr db' \<Longrightarrow> steady db db'"
    unfolding account_recovery_processing_def bindR_eq_Inr by (blast intro: steady_trans)
qed

lemma expire_escrow_ratification_steady [steadies]: "expire_escrow_ratification fc db = Inr db' \<Longrightarrow> steady db db'"
  unfolding expire_escrow_ratification_def
  by (erule foldR_steady [where g = "\<lambda>x. x", rotated])
    (auto simp: refund_escrow_def res_simps dest!: steadies, simp add: steady_def)

lemma process_decline_voting_rights_steady [steadies]: "process_decline_voting_rights fc db = Inr db' \<Longrightarrow> steady db db'"
  unfolding process_decline_voting_rights_def
  by (erule drain_steady [where g = "\<lambda>x. x", rotated])
    (auto simp: decline_voting_def Let_def res_simps dest!: steadies, simp add: steady_def)

lemma update_virtual_supply_steady [steadies]: "update_virtual_supply db = Inr db' \<Longrightarrow> steady db db'"
  unfolding update_virtual_supply_def by (erule modify_dgpo_steady) auto

lemma null_steady:
  "null_balance fc i s = Inr s' \<Longrightarrow> steady (fst s) (fst s')"
  "null_savings fc i s = Inr s' \<Longrightarrow> steady (fst s) (fst s')"
  "null_rewards fc i s = Inr s' \<Longrightarrow> steady (fst s) (fst s')"
  "null_vesting fc i s = Inr s' \<Longrightarrow> steady (fst s) (fst s')"
  "null_reward_vesting fc i s = Inr s' \<Longrightarrow> steady (fst s) (fst s')"
  by (cases s; auto simp: null_balance_def null_savings_def null_rewards_def res_simps split: if_splits dest!: steadies)
    (cases s; auto simp: null_balance_def null_savings_def null_rewards_def null_vesting_def null_reward_vesting_def
      res_simps steady_def modify_dgpo_def modify_account_def split: if_splits dest!: frames)+

lemma clear_null_account_balance_steady [steadies]: "clear_null_account_balance fc db = Inr db' \<Longrightarrow> steady db db'"
  by (auto simp: clear_null_account_balance_def empty_null_account_def res_simps split: if_splits dest!: null_steady steadies)
    (simp_all add: steady_def)

lemma process_vesting_withdrawals_steady [steadies]: "process_vesting_withdrawals fc db = Inr db' \<Longrightarrow> steady db db'"
proof -
  have w: "withdraw_from fc r s = Inr s' \<Longrightarrow> steady s s'" for r s s'
    unfolding withdraw_from_def bindR_eq_Inr
    by (elim exE conjE, erule foldR_steady [where g = "\<lambda>x. x", rotated])
      (auto simp: withdraw_route_def res_simps split: if_splits dest!: steadies intro: steady_trans)
  have d: "drain n due_withdrawal (withdrawal_round fc) s = Inr s' \<Longrightarrow> steady (fst s) (fst s')" for n s s'
    by (erule drain_steady [where g = fst, rotated]) (auto simp: withdrawal_round_def res_simps split: prod.splits dest!: w)
  show "process_vesting_withdrawals fc db = Inr db' \<Longrightarrow> steady db db'"
    by (auto simp: process_vesting_withdrawals_def Let_def res_simps dest!: d)
qed

lemma custom_tokens_emissions_steady [steadies]: "custom_tokens_emissions fc db = Inr db' \<Longrightarrow> steady db db'"
proof -
  have d: "drain n due_token (emission_round fc) s = Inr s' \<Longrightarrow> steady (fst s) (fst s')" for n s s'
    by (erule drain_steady [where g = fst, rotated]) (auto simp: emission_round_def res_simps split: prod.splits dest!: steadies)
  show "custom_tokens_emissions fc db = Inr db' \<Longrightarrow> steady db db'"
    by (auto simp: custom_tokens_emissions_def Let_def res_simps split: if_splits dest!: d)
qed

lemma process_savings_reward_steady [steadies]: "process_savings_reward fc db = Inr db' \<Longrightarrow> steady db db'"
proof -
  have f: "foldR (reward_saver fc d a) rs s = Inr s' \<Longrightarrow> steady (fst s) (fst s')" for d a rs s s'
    by (erule foldR_steady [where g = fst, rotated])
      (auto simp: reward_saver_def res_simps Let_def split: if_splits prod.splits dest!: steadies)
  show "process_savings_reward fc db = Inr db' \<Longrightarrow> steady db db'"
    by (auto simp: process_savings_reward_def Let_def res_simps split: if_splits dest!: f)
      (auto simp: steady_def modify_dgpo_def res_simps)
qed

lemma process_hardforks_steady [steadies]: "process_hardforks fc db = Inr db' \<Longrightarrow> steady db db'"
proof -
  have a: "apply_hardfork n s = Inr s' \<Longrightarrow> steady s s'" for n s s'
    by (auto simp: apply_hardfork_def dest: steadies)
  have l: "hardfork_loop s = Inr s' \<Longrightarrow> steady s s'" for s s'
  proof (induction s rule: hardfork_loop.induct)
    case (1 s)
    from "1.prems" [unfolded hardfork_loop.simps [of s] bindR_eq_Inr] "1.IH" show ?case
      by (auto simp: bindR_eq_Inr split: if_splits dest: a intro: steady_trans)
  qed
  show "process_hardforks fc db = Inr db' \<Longrightarrow> steady db db'"
    by (auto simp: process_hardforks_def burn_initial_shares_def res_simps split: if_splits dest!: l)
      (auto simp: steady_def modify_dgpo_def modify_account_def res_simps)
qed

subsection \<open>Payouts\<close>

lemma pay_curators_steady [steadies]: "pay_curators fc ci c m db = Inr (db', u, m') \<Longrightarrow> steady db db'"
proof -
  have f: "foldR (pay_curator fc a t) vs s = Inr s' \<Longrightarrow> steady (fst s) (fst s')" for a t vs s s'
    by (erule foldR_steady [where g = fst, rotated])
      (auto simp: pay_curator_def res_simps split: if_splits dest!: steadies intro: steady_trans)
  show "pay_curators fc ci c m db = Inr (db', u, m') \<Longrightarrow> steady db db'"
    by (auto simp: pay_curators_def res_simps split: if_splits dest!: f)
qed

lemma pay_comment_steady [steadies]: "pay_comment fc ci c r db = Inr (db', x) \<Longrightarrow> steady db db'"
proof -
  have b: "foldR (pay_beneficiary fc a) bs s = Inr s' \<Longrightarrow> steady (fst s) (fst s')" for a bs s s'
    by (erule foldR_steady [where g = fst, rotated]) (auto simp: pay_beneficiary_def res_simps dest!: steadies intro: steady_trans)
  have a: "pay_author fc ci c a ct tb s = Inr s' \<Longrightarrow> steady s s'" for a ct tb s s'
    by (auto simp: pay_author_def adjust_total_payout_def res_simps dest!: steadies) (simp add: steady_def)
  show "pay_comment fc ci c r db = Inr (db', x) \<Longrightarrow> steady db db'"
    by (auto simp: pay_comment_def res_simps dest!: pay_curators_steady b a) (simp add: steady_def)
qed

lemma cashout_comment_helper_steady [steadies]: "cashout_comment_helper fc ctx ci c db = Inr (db', x) \<Longrightarrow> steady db db'"
proof -
  have p: "cashout_payout fc ctx ci c s = Inr (s', y) \<Longrightarrow> steady s s'" for s s' y
    by (auto simp: cashout_payout_def adjust_rshares2_def res_simps Let_def split: if_splits dest!: pay_comment_steady)
      (auto simp: steady_def modify_dgpo_def)
  have v: "foldR (close_vote ci) vs s = Inr s' \<Longrightarrow> steady s s'" for vs s s'
    by (erule foldR_steady [where g = "\<lambda>x. x", rotated]) (auto simp: close_vote_def res_simps split: if_splits dest: steadies)
  show "cashout_comment_helper fc ctx ci c db = Inr (db', x) \<Longrightarrow> steady db db'"
    by (auto simp: cashout_comment_helper_def res_simps split: if_splits dest!: p v steadies) (simp_all add: steady_def)
qed

lemma process_comment_cashout_steady [steadies]: "process_comment_cashout fc db = Inr db' \<Longrightarrow> steady db db'"
proof -
  have c: "foldR (cache_fund fc) rs s = Inr s' \<Longrightarrow> steady (fst s) (fst s')" for rs s s'
    by (erule foldR_steady [where g = fst, rotated]) (auto simp: cache_fund_def res_simps dest!: steadies)
  have d: "drain n due_comment (cashout_round fc) s = Inr s' \<Longrightarrow> steady (fst s) (fst s')" for n s s'
    by (erule drain_steady [where g = fst, rotated]) (auto simp: cashout_round_def res_simps dest!: steadies)
  have s: "foldR (store_fund fc) ps s = Inr s' \<Longrightarrow> steady s s'" for ps s s'
    by (erule foldR_steady [where g = "\<lambda>x. x", rotated]) (auto simp: store_fund_def dest!: steadies)
  show "process_comment_cashout fc db = Inr db' \<Longrightarrow> steady db db'"
    by (auto simp: process_comment_cashout_def res_simps split: if_splits dest!: c d s) (simp add: steady_def)
qed

end
