(* ===== verification/Block.thy ===== *)
theory Block
  imports Steady
begin

text \<open>
  Blocks (\<open>database.cpp\<close>): \<open>_apply_block\<close> composes the checks of the header, the transactions
  and the maintenance in the order of the source; \<open>apply_block\<close> chooses the flags from the
  checkpoints; \<open>init_genesis\<close> makes the first state. The reading of a public key from text is third-party code, the argument \<open>read_key\<close>.
  Notifications of observers and the flushing of the shared memory file change no modelled
  state.

  The states a node can reach from genesis are those of the step relation \<open>chain_step\<close>. The
  properties show that in every one of them the recorded supplies are what is held, that
  the structure of the database is kept, and that a transaction applied in a block is
  rejected ever after.
\<close>

unbundle bit_operations_syntax

subsection \<open>One block\<close>

definition skip_fork_db :: skip_flags where "skip_fork_db = push_bit 3 1"
definition skip_block_size_check :: skip_flags where "skip_block_size_check = push_bit 4 1"
definition skip_validate_invariants :: skip_flags where "skip_validate_invariants = push_bit 11 1"

text \<open>The blocks whose recorded root is replaced by one of the source, in hexadecimal.\<close>

definition shared_db_merkle :: "(nat \<times> string) list" where
  "shared_db_merkle =
     [(3705111, ''0a8f0fd5450c3706ec8b8cbad795cd0b3679bf35''), (3705120, ''2027edb72b671f7011c8cc4c7a8b59c39b305093''),
      (3713940, ''bf8a1d516927c506ebdbb7b38bef2e992435435f''), (3714132, ''e8b77773d268b72c8d650337b8cce360bbe64779''),
      (3714567, ''45af59a8c2d7d4a606151ef5dae03d2dfe13fbdd''), (3714588, ''e64275443bdc82f104ac936486d367af8f6d1584''),
      (4138790, ''f65a3a788a2ef52406d8ba5705d7288be228403f''), (5435426, ''0b32538b2d22bd3146d54b6e3cb5ae8b9780e8a5'')]"

definition check_merkle_root :: "node \<Rightarrow> signed_block \<Rightarrow> exn + unit" where
  "check_merkle_root nd b =
     (let merkle_root = calculate_merkle_root (node_hashes nd) b in
      if transaction_merkle_root b = merkle_root then Inr ()
      else case map_of shared_db_merkle (block_num b) of
        None \<Rightarrow> Inl (Assert_failed ''Merkle check failed'')
      | Some hex \<Rightarrow>
          bindR (from_hex (node_fc nd) hex 20) (\<lambda>root.
          assertR (root = merkle_root) ''Merkle check failed''))"

text \<open>What comes before the transactions; it returns the witness that signed.\<close>

definition open_block ::
  "node \<Rightarrow> skip_flags \<Rightarrow> signed_block \<Rightarrow> database \<Rightarrow> exn + (database \<times> oid)" where
  "open_block nd skip b db =
     bindR (if skips skip skip_merkle_check then Inr () else check_merkle_root nd b) (\<lambda>_.
     bindR (validate_block_header nd skip b db) (\<lambda>signing_witness.
     bindR (assertR (packed_size (node_hashes nd) b \<le> g_maximum_block_size (dgpo db)) ''Block Size is too Big'') (\<lambda>_.
     bindR (modify_dgpo (\<lambda>g. Inr (g\<lparr>g_current_witness := witness b\<rparr>)) db) (\<lambda>db1.
     bindR (process_header_extensions b db1) (\<lambda>db2.
     bindR (get_witness (witness b) db2) (\<lambda>w.
     bindR (assertR (w_running_version (snd w) \<ge> hf_current_hardfork_version (hfo db2))
       ''Block produced by witness that is not running current hardfork'') (\<lambda>_.
     Inr (db2, fst signing_witness))))))))"

text \<open>The maintenance after the transactions, before and from the clearing of the \<open>null\<close> account.\<close>

definition record_block :: "node \<Rightarrow> skip_flags \<Rightarrow> signed_block \<Rightarrow> oid \<Rightarrow> database \<Rightarrow> exn + database" where
  "record_block nd skip b wi db =
     bindR (update_global_dynamic_data nd skip b db) (\<lambda>db1.
     bindR (update_signing_witness wi b db1) (\<lambda>db2.
     bindR (update_last_irreversible_block db2) (\<lambda>db3.
     bindR (note_block_summary nd b db3) (\<lambda>db4.
     bindR (clear_expired_transactions db4) (\<lambda>db5.
     bindR (clear_expired_orders (node_fc nd) db5) (\<lambda>db6.
     bindR (clear_expired_delegations (node_fc nd) db6) (\<lambda>db7.
     bindR (update_witness_schedule (node_fc nd) db7)
     update_virtual_supply)))))))"

definition settle_block :: "fc_lib \<Rightarrow> database \<Rightarrow> exn + database" where
  "settle_block fc db =
     bindR (clear_null_account_balance fc db) (\<lambda>db1.
     bindR (process_comment_cashout fc db1) (\<lambda>db2.
     bindR (process_vesting_withdrawals fc db2) (\<lambda>db3.
     bindR (custom_tokens_emissions fc db3) (\<lambda>db4.
     bindR (process_savings_reward fc db4) (\<lambda>db5.
     bindR (update_virtual_supply db5) (\<lambda>db6.
     bindR (account_recovery_processing db6) (\<lambda>db7.
     bindR (expire_escrow_ratification fc db7) (\<lambda>db8.
     bindR (process_decline_voting_rights fc db8)
     (process_hardforks fc)))))))))"

definition apply_block_body ::
  "node \<Rightarrow> skip_flags \<Rightarrow> signed_block \<Rightarrow> database \<Rightarrow> exn + database" where
  "apply_block_body nd skip b db =
     bindR (open_block nd skip b db) (\<lambda>(db1, wi).
     bindR (foldR (apply_transaction nd skip) (block_transactions b) db1) (\<lambda>db2.
     bindR (record_block nd skip b wi db2)
     (settle_block (node_fc nd))))"

text \<open>The checkpoints are a map from block numbers to ids, here rows in increasing order.\<close>

definition checkpoint_skip :: "node \<Rightarrow> (nat \<times> string) list \<Rightarrow> signed_block \<Rightarrow> skip_flags \<Rightarrow> exn + skip_flags" where
  "checkpoint_skip nd checkpoints b skip =
     (if checkpoints \<noteq> [] \<and> snd (last checkpoints) \<noteq> replicate 20 (CHR 0x00) then
        bindR (case map_of checkpoints (block_num b) of
            None \<Rightarrow> Inr ()
          | Some c \<Rightarrow> assertR (block_id (node_hashes nd) b = c) ''Block did not match checkpoint'') (\<lambda>_.
        Inr (if fst (last checkpoints) \<ge> block_num b
             then skip_witness_signature OR skip_transaction_signatures OR skip_transaction_dupe_check OR skip_fork_db OR
               skip_block_size_check OR skip_tapos_check OR skip_authority_check OR skip_undo_history_check OR
               skip_witness_schedule_check OR skip_validate OR skip_validate_invariants
             else skip))
      else Inr skip)"

definition apply_block ::
  "node \<Rightarrow> (nat \<times> string) list \<Rightarrow> skip_flags \<Rightarrow> signed_block \<Rightarrow> database \<Rightarrow> exn + database" where
  "apply_block nd checkpoints skip b db =
     bindR (checkpoint_skip nd checkpoints b skip) (\<lambda>skip'. apply_block_body nd skip' b db)"

subsection \<open>Genesis\<close>

definition genesis_authority :: "nat \<Rightarrow> nat \<Rightarrow> nat \<Rightarrow> account_name \<Rightarrow> account_authority_object" where
  "genesis_authority ow ac po n =
     default_account_authority_object\<lparr>aa_account := n, aa_owner := empty_authority\<lparr>weight_threshold := ow\<rparr>,
       aa_active := empty_authority\<lparr>weight_threshold := ac\<rparr>, aa_posting := empty_authority\<lparr>weight_threshold := po\<rparr>\<rparr>"

definition genesis_key_authority :: "public_key_type \<Rightarrow> account_name \<Rightarrow> account_authority_object" where
  "genesis_key_authority k n =
     (let auth = (add_key_authority k 1 empty_authority)\<lparr>weight_threshold := 1\<rparr> in
      default_account_authority_object\<lparr>aa_account := n, aa_owner := auth, aa_active := auth, aa_posting := auth\<rparr>)"

definition genesis_account :: "account_object \<Rightarrow> account_authority_object \<Rightarrow> database \<Rightarrow> exn + database" where
  "genesis_account a auth db =
     bindR (create_account (\<lambda>_. Inr a) db) (\<lambda>(db1, _).
     bindR (create_account_authority (\<lambda>_. Inr auth) db1) (\<lambda>(db2, _). Inr db2))"

text \<open>The doubles \<open>0.9\<close> and \<open>0.1\<close> are the values nearest to the literals.\<close>

definition genesis_miner :: "int \<Rightarrow> public_key_type \<Rightarrow> nat \<Rightarrow> database \<Rightarrow> exn + database" where
  "genesis_miner init_supply key i db =
     (let name = INIT_MINER_NAME @ (if i = 0 then [] else int_to_string i) in
      bindR (genesis_account
        (default_account_object\<lparr>a_name := name, a_memo_key := key,
          a_balance := bmt (if i = 0 then double_to_int (to_double (to_double (of_int init_supply) * to_double (9 / 10))) else 0),
          a_vesting_shares := vests (if i = 0 then INIT_SUPPLY_REP else 0)\<rparr>)
        (genesis_key_authority key name) db) (\<lambda>db1.
      bindR (create_witness (\<lambda>_. Inr (default_witness_object\<lparr>w_owner := name, w_signing_key := key, w_schedule := miner\<rparr>)) db1) (\<lambda>(db2, _).
      Inr db2)))"

definition dev_public_key :: string where
  "dev_public_key = ADDRESS_PREFIX @ ''83TrTEYeDGyADDNX2mEZoX3JDFrMcyf5xbt9guS6BxeBgfdJ7U''"

definition genesis_dgpo :: "int \<Rightarrow> int \<Rightarrow> dynamic_global_property_object" where
  "genesis_dgpo init_supply init_rep =
     default_dynamic_global_property_object\<lparr>g_current_witness := INIT_MINER_NAME, g_time := GENESIS_TIME,
       g_recent_slots_filled := - 1, g_participation_count := 128,
       g_current_supply := bmt (init_supply + init_rep div 1000), g_virtual_supply := bmt (init_supply + init_rep div 1000),
       g_last_current_supply := bmt (init_supply + init_rep div 1000), g_total_vesting_shares := vests init_rep,
       g_total_vesting_fund_bmt := bmt (init_rep div 1000), g_maximum_block_size := MAX_BLOCK_SIZE\<rparr>"

definition genesis_fund :: "database \<Rightarrow> reward_fund_object" where
  "genesis_fund db =
     default_reward_fund_object\<lparr>rf_name := POST_REWARD_FUND_NAME, rf_last_update := head_block_time db,
       rf_content_constant := CONTENT_CONSTANT, rf_percent_curation_rewards := nat (PERCENT_1 * 25),
       rf_percent_content_rewards := nat PERCENT_100, rf_reward_balance := g_total_reward_fund_bmt (dgpo db),
       rf_author_reward_curve := quadratic, rf_curation_reward_curve := square_root, rf_recent_claims := 0\<rparr>"

text \<open>The accounts, the first witness and the global properties.\<close>

definition genesis_holders :: "(string \<Rightarrow> exn + public_key_type) \<Rightarrow> int \<Rightarrow> exn + database" where
  "genesis_holders read_key init_supply =
     bindR (read_key INIT_PUBLIC_KEY_STR) (\<lambda>init_key.
     bindR (genesis_account (default_account_object\<lparr>a_name := MINER_ACCOUNT\<rparr>) (genesis_authority 1 1 1 MINER_ACCOUNT) empty_database) (\<lambda>db1.
     bindR (genesis_account (default_account_object\<lparr>a_name := NULL_ACCOUNT\<rparr>) (genesis_authority 1 1 1 NULL_ACCOUNT) db1) (\<lambda>db2.
     bindR (genesis_account (default_account_object\<lparr>a_name := TEMP_ACCOUNT\<rparr>) (genesis_authority 0 0 1 TEMP_ACCOUNT) db2) (\<lambda>db3.
     bindR (foldR (genesis_miner init_supply init_key) [0 ..< NUM_INIT_MINERS] db3) (\<lambda>db4.
     bindR (read_key dev_public_key) (\<lambda>dev_key.
     bindR (genesis_account (default_account_object\<lparr>a_name := ''devs'', a_memo_key := dev_key,
         a_balance := bmt (double_to_int (to_double (to_double (of_int init_supply) * to_double (1 / 10)))),
         a_vesting_shares := vests 100000000\<rparr>) (genesis_key_authority dev_key ''devs'') db4) (\<lambda>db5.
     Inr (db5\<lparr>dgpo := genesis_dgpo init_supply (INIT_SUPPLY_REP + 100000000)\<rparr>))))))))"

definition init_genesis :: "(string \<Rightarrow> exn + public_key_type) \<Rightarrow> int \<Rightarrow> exn + database" where
  "init_genesis read_key init_supply =
     bindR (genesis_holders read_key init_supply) (\<lambda>db6.
     bindR (foldR (\<lambda>_ db. bindR (create_block_summary (\<lambda>_. Inr default_block_summary_object) db) (\<lambda>(db', _). Inr db'))
       [0 ..< 0x10000] db6) (\<lambda>db7.
     let db8 = db7\<lparr>hfo := default_hardfork_property_object\<lparr>hf_processed_hardforks := [GENESIS_TIME]\<rparr>,
       wso := default_witness_schedule_object\<lparr>ws_current_shuffled_witnesses :=
         (ws_current_shuffled_witnesses default_witness_schedule_object)[0 := INIT_MINER_NAME]\<rparr>\<rparr> in
     bindR (create_reward_fund (\<lambda>_. Inr (genesis_fund db8)) db8) (\<lambda>(db9, _).
     Inr db9)))"

subsection \<open>A block keeps the ledger\<close>

definition null_solvent :: "fc_lib \<Rightarrow> database \<Rightarrow> bool" where
  "null_solvent fc db \<longleftrightarrow> (case empty_null_account fc db of Inl _ \<Rightarrow> True | Inr s \<Rightarrow> amount (snd s) \<ge> 0)"

text \<open>
  What a block must be for the ledger to stay balanced: its transactions hold none of the
  operations that unbalance it, and what the \<open>null\<close> account holds does not add up to a
  negative amount when it is cleared.
\<close>

definition block_sound :: "node \<Rightarrow> skip_flags \<Rightarrow> signed_block \<Rightarrow> database \<Rightarrow> bool" where
  "block_sound nd skip b db \<longleftrightarrow>
     (case open_block nd skip b db of
        Inl _ \<Rightarrow> True
      | Inr (db1, wi) \<Rightarrow>
          run_admissible (apply_transaction nd skip) (transaction_sound nd) (block_transactions b) db1 \<and>
          (case bindR (foldR (apply_transaction nd skip) (block_transactions b) db1) (record_block nd skip b wi) of
             Inl _ \<Rightarrow> True
           | Inr db3 \<Rightarrow> null_solvent (node_fc nd) db3))"

lemma open_block_orderly: "open_block nd skip b db = Inr (db', wi) \<Longrightarrow> orderly db db'"
proof -
  assume "open_block nd skip b db = Inr (db', wi)"
  then obtain db1 where 1: "modify_dgpo (\<lambda>g. Inr (g\<lparr>g_current_witness := witness b\<rparr>)) db = Inr db1"
    and 2: "process_header_extensions b db1 = Inr db'"
    by (auto simp: open_block_def bindR_eq_Inr)
  have "orderly db db1" using 1 by (rule modify_dgpo_orderly) (auto simp: bmt_of_dgpo_def)
  with 2 show ?thesis by (blast intro: orderly_trans process_header_extensions_orderly)
qed

context exact_node
begin

lemma record_block_orderly: "record_block nd skip b wi db = Inr db' \<Longrightarrow> orderly db db'"
  unfolding record_block_def bindR_eq_Inr
  by (elim exE conjE, drule update_global_dynamic_data_orderly, drule update_signing_witness_orderly,
      drule update_last_irreversible_block_orderly, drule note_block_summary_orderly, drule clear_expired_transactions_orderly,
      drule clear_expired_orders_orderly, drule clear_expired_delegations_orderly, drule update_witness_schedule_orderly,
      drule update_virtual_supply_orderly)
    (simp add: orderly_def keeps_gaps_def)

lemma settle_block_orderly:
  assumes "settle_block (node_fc nd) db = Inr db'" and "null_solvent (node_fc nd) db"
  shows "orderly db db'"
proof -
  from assms(1) obtain db1 where n: "clear_null_account_balance (node_fc nd) db = Inr db1" and rest: "orderly db1 db'"
    unfolding settle_block_def bindR_eq_Inr
    by - (elim exE conjE, rule that, assumption,
        drule cashout_orderly, drule process_vesting_withdrawals_orderly, drule custom_tokens_emissions_orderly,
        drule process_savings_reward_orderly, drule update_virtual_supply_orderly, drule account_recovery_processing_orderly,
        drule expire_escrow_ratification_orderly, drule process_decline_voting_rights_orderly, drule process_hardforks_orderly,
        simp add: orderly_def keeps_gaps_def)
  have "orderly db db1"
    using n by (rule clear_null_account_balance_orderly) (use assms(2) in \<open>auto simp: null_solvent_def\<close>)
  with rest show ?thesis by (rule orderly_trans [rotated])
qed

lemma apply_block_body_keeps:
  assumes "apply_block_body nd skip b db = Inr db'" and "block_sound nd skip b db" and "chain_inv db"
  shows "keeps_gaps db db' \<and> chain_inv db'"
proof -
  from assms(1) obtain db1 wi db2 db3 where o: "open_block nd skip b db = Inr (db1, wi)"
    and t: "foldR (apply_transaction nd skip) (block_transactions b) db1 = Inr db2"
    and r: "record_block nd skip b wi db2 = Inr db3" and s: "settle_block (node_fc nd) db3 = Inr db'"
    by (auto simp: apply_block_body_def bindR_eq_Inr)
  have ok: "run_admissible (apply_transaction nd skip) (transaction_sound nd) (block_transactions b) db1" "null_solvent (node_fc nd) db3"
    using assms(2) o t r by (auto simp: block_sound_def)
  have 1: "keeps_gaps db db1" "chain_inv db1" using open_block_orderly [OF o] assms(3) by (auto simp: orderly_def)
  have 2: "keeps_gaps db1 db2" "chain_inv db2" using trxs.run_keeps [OF t ok(1) 1(2)] by auto
  have "orderly db2 db'" using record_block_orderly [OF r] settle_block_orderly [OF s ok(2)] by (rule orderly_trans)
  with 1 2 show ?thesis by (auto simp: orderly_def intro: keeps_gaps_trans)
qed

end

sublocale exact_node \<subseteq> blocks: ledger_machine "\<lambda>(skip, b). apply_block_body nd skip b"
    "\<lambda>(skip, b). block_sound nd skip b"
  by unfold_locales (auto dest: apply_block_body_keeps)

subsection \<open>A block moves the head\<close>

lemma open_block_steady: "open_block nd skip b db = Inr (db', wi) \<Longrightarrow> steady db db' \<and> head_block_time db < timestamp b \<and>
    g_head_block_id (dgpo db) = previous b"
  by (auto simp: open_block_def validate_block_header_def bindR_eq_Inr assertR_eq_Inr split: if_splits
      dest!: process_header_extensions_steady) (auto simp: steady_def modify_dgpo_def)

lemma settle_block_steady: "settle_block fc db = Inr db' \<Longrightarrow> steady db db'"
  unfolding settle_block_def bindR_eq_Inr
  by (elim exE conjE, drule clear_null_account_balance_steady, drule process_comment_cashout_steady,
      drule process_vesting_withdrawals_steady, drule custom_tokens_emissions_steady,
      drule process_savings_reward_steady, drule update_virtual_supply_steady, drule account_recovery_processing_steady,
      drule expire_escrow_ratification_steady, drule process_decline_voting_rights_steady, drule process_hardforks_steady)
    (simp add: steady_def)

lemma update_global_dynamic_data_head:
  assumes "update_global_dynamic_data nd skip b db = Inr db'"
  shows "transactions db' = transactions db \<and> g_time (dgpo db') = timestamp b \<and>
    g_head_block_number (dgpo db') = block_num b \<and> g_head_block_id (dgpo db') = block_id (node_hashes nd) b"
proof -
  from assms obtain m db1 where "steady db db1" and upd: "modify_dgpo (\<lambda>g. Inr (advance_head nd b m g)) db1 = Inr db'"
    by (auto simp: update_global_dynamic_data_def res_simps Let_def split: if_splits dest: note_missed_steady intro: steady_refl)
  then show ?thesis by (auto simp: modify_dgpo_def advance_head_def steady_def)
qed

lemma clear_expired_transactions_dgpo: "clear_expired_transactions db = Inr db' \<Longrightarrow> dgpo db' = dgpo db"
  unfolding clear_expired_transactions_def
  by (erule drain_rel [where R = "\<lambda>s s'. dgpo s' = dgpo s", rotated 3]) (auto simp: remove_transaction_def res_simps)

lemma record_blockE:
  assumes "record_block nd skip b wi db = Inr db'"
  obtains db1 db4 db5 where "update_global_dynamic_data nd skip b db = Inr db1" "steady db1 db4"
    "clear_expired_transactions db4 = Inr db5" "steady db5 db'"
proof -
  from assms obtain db1 db2 db3 db4 db5 db6 db7 db8 where u: "update_global_dynamic_data nd skip b db = Inr db1"
    and 1: "update_signing_witness wi b db1 = Inr db2" "update_last_irreversible_block db2 = Inr db3" "note_block_summary nd b db3 = Inr db4"
    and c: "clear_expired_transactions db4 = Inr db5"
    and 2: "clear_expired_orders (node_fc nd) db5 = Inr db6" "clear_expired_delegations (node_fc nd) db6 = Inr db7"
      "update_witness_schedule (node_fc nd) db7 = Inr db8" "update_virtual_supply db8 = Inr db'"
    by (auto simp: record_block_def bindR_eq_Inr)
  have "steady db1 db4"
    using update_signing_witness_steady [OF 1(1)] update_last_irreversible_block_steady [OF 1(2)]
      note_block_summary_steady [OF 1(3)] by (simp add: steady_def)
  moreover have "steady db5 db'"
    using clear_expired_orders_steady [OF 2(1)] clear_expired_delegations_steady [OF 2(2)]
      update_witness_schedule_steady [OF 2(3)] update_virtual_supply_steady [OF 2(4)] by (simp add: steady_def)
  ultimately show thesis using u c by (intro that)
qed

lemma record_block_sets_head:
  assumes "record_block nd skip b wi db = Inr db'"
  shows "g_time (dgpo db') = timestamp b \<and> g_head_block_number (dgpo db') = block_num b \<and>
    g_head_block_id (dgpo db') = block_id (node_hashes nd) b"
  using assms
  by (rule record_blockE) (auto simp: steady_def dest!: update_global_dynamic_data_head clear_expired_transactions_dgpo)

text \<open>The records of transactions after a block are those that can still be applied.\<close>

lemma record_block_head:
  assumes "record_block nd skip b wi db = Inr db'" and "rows_sorted (indices (transactions db))"
  shows "g_time (dgpo db') = timestamp b \<and> rows_sorted (indices (transactions db')) \<and>
    indices (transactions db') = filter (\<lambda>r. tx_expiration (snd r) \<ge> timestamp b) (indices (transactions db))"
proof -
  from assms(1) obtain db1 db4 db5 where u: "update_global_dynamic_data nd skip b db = Inr db1" and s: "steady db1 db4"
    and c: "clear_expired_transactions db4 = Inr db5" and r: "steady db5 db'" by (rule record_blockE)
  note h = update_global_dynamic_data_head [OF u]
  have "rows_sorted (indices (transactions db4))" using h s assms(2) by (simp add: steady_def)
  from clear_expired_transactions_rows [OF this refl] c h s r show ?thesis
    by (auto simp: steady_def head_block_time_def)
qed

lemma transactions_recorded:
  assumes "interpreters_apart nd" and "apply_transaction nd skip trx db = Inr db'" and "db_sorted db"
  shows "db_sorted db' \<and> (rows_sorted (indices (transactions db)) \<longrightarrow> rows_sorted (indices (transactions db'))) \<and>
    set (indices (transactions db)) \<subseteq> set (indices (transactions db')) \<and>
    (\<not> skips skip skip_transaction_dupe_check \<longrightarrow> (\<exists>i. (i, \<lparr> tx_trx_id = transaction_id (node_crypto nd) trx,
       tx_expiration = expiration trx \<rparr>) \<in> set (indices (transactions db'))))"
proof -
  obtain t where o: "foldR (apply_operation nd) (operations trx) (db\<lparr>transactions := t\<rparr>) = Inr db'"
    and t: "skips skip skip_transaction_dupe_check \<Longrightarrow> t = transactions db"
      "\<not> skips skip skip_transaction_dupe_check \<Longrightarrow> \<exists>i. emplace transaction_conflict
        (\<lambda>_. Inr \<lparr> tx_trx_id = transaction_id (node_crypto nd) trx, tx_expiration = expiration trx \<rparr>) (transactions db) = Inr (t, i)"
    using assms(2) by (rule apply_transactionE) blast
  have c: "calm (db\<lparr>transactions := t\<rparr>) db'" using assms(1,3) o by (intro operations_calm) simp_all
  then have d: "transactions db' = t" "db_sorted db'" using assms(3) by (auto simp: calm_def)
  show ?thesis
  proof (cases "skips skip skip_transaction_dupe_check")
    case False
    then obtain i where e: "emplace transaction_conflict
        (\<lambda>_. Inr \<lparr> tx_trx_id = transaction_id (node_crypto nd) trx, tx_expiration = expiration trx \<rparr>) (transactions db) = Inr (t, i)"
      using t(2) by blast
    from e have "set (indices t) = insert (i, \<lparr> tx_trx_id = transaction_id (node_crypto nd) trx, tx_expiration = expiration trx \<rparr>)
        (set (indices (transactions db)))"
      by (auto elim!: emplaceD)
    with d sorted_emplace [OF e] False show ?thesis by auto
  qed (use t(1) d in auto)
qed

lemma block_transactions_recorded:
  assumes "interpreters_apart nd" and "foldR (apply_transaction nd skip) trxs db = Inr db'" and "db_sorted db"
  shows "(rows_sorted (indices (transactions db)) \<longrightarrow> rows_sorted (indices (transactions db'))) \<and>
    set (indices (transactions db)) \<subseteq> set (indices (transactions db')) \<and>
    (\<not> skips skip skip_transaction_dupe_check \<longrightarrow> (\<forall>trx \<in> set trxs. \<exists>i. (i, \<lparr> tx_trx_id = transaction_id (node_crypto nd) trx,
       tx_expiration = expiration trx \<rparr>) \<in> set (indices (transactions db'))))"
  using assms(2,3)
proof (induction trxs arbitrary: db)
  case (Cons x xs)
  from Cons.prems(1) obtain db1 where x: "apply_transaction nd skip x db = Inr db1" and xs: "foldR (apply_transaction nd skip) xs db1 = Inr db'"
    by (auto simp: bindR_eq_Inr)
  note r = transactions_recorded [OF assms(1) x Cons.prems(2)]
  note ih = Cons.IH [OF xs r [THEN conjunct1]]
  show ?case
  proof (intro conjI impI ballI)
    fix trx
    assume d: "\<not> skips skip skip_transaction_dupe_check" and "trx \<in> set (x # xs)"
    then consider "trx = x" | "trx \<in> set xs" by auto
    then show "\<exists>i. (i, \<lparr> tx_trx_id = transaction_id (node_crypto nd) trx, tx_expiration = expiration trx \<rparr>) \<in> set (indices (transactions db'))"
    proof cases
      case 1
      with r d obtain i where "(i, \<lparr> tx_trx_id = transaction_id (node_crypto nd) trx, tx_expiration = expiration trx \<rparr>) \<in> set (indices (transactions db1))"
        by blast
      with ih show ?thesis by blast
    qed (use ih d in blast)
  qed (use r ih in blast)+
qed simp

text \<open>A state remembers a transaction when it holds its record, or is past its expiration.\<close>

definition remembers :: "node \<Rightarrow> signed_transaction \<Rightarrow> database \<Rightarrow> bool" where
  "remembers nd trx db \<longleftrightarrow> rows_sorted (indices (transactions db)) \<and>
     ((\<exists>i. (i, \<lparr> tx_trx_id = transaction_id (node_crypto nd) trx, tx_expiration = expiration trx \<rparr>) \<in> set (indices (transactions db))) \<or>
      expiration trx < head_block_time db)"

lemma block_remembers:
  assumes "interpreters_apart nd" and "apply_block_body nd skip b db = Inr db'" and "chain_inv db"
    and "rows_sorted (indices (transactions db))"
    and "remembers nd trx db \<or> (trx \<in> set (block_transactions b) \<and> \<not> skips skip skip_transaction_dupe_check)"
  shows "remembers nd trx db'"
proof -
  let ?r = "\<lparr> tx_trx_id = transaction_id (node_crypto nd) trx, tx_expiration = expiration trx \<rparr>"
  from assms(2) obtain db1 wi db2 db3 where o: "open_block nd skip b db = Inr (db1, wi)"
    and t: "foldR (apply_transaction nd skip) (block_transactions b) db1 = Inr db2"
    and r: "record_block nd skip b wi db2 = Inr db3" and s: "settle_block (node_fc nd) db3 = Inr db'"
    by (auto simp: apply_block_body_def bindR_eq_Inr)
  have srt: "db_sorted db1" using open_block_orderly [OF o] assms(3) by (auto simp: orderly_def chain_inv_def)
  note op = open_block_steady [OF o]
  note rec = block_transactions_recorded [OF assms(1) t srt]
  have srt2: "rows_sorted (indices (transactions db2))" using rec op assms(4) by (simp add: steady_def)
  note hd = record_block_head [OF r srt2]
  have "(\<exists>i. (i, ?r) \<in> set (indices (transactions db2))) \<or> expiration trx < timestamp b"
    using assms(5) rec op unfolding remembers_def steady_def by force
  with hd settle_block_steady [OF s] show ?thesis
    unfolding remembers_def steady_def head_block_time_def by (cases "expiration trx < timestamp b") auto
qed

subsection \<open>The genesis state\<close>

text \<open>The exponent of a double is the position of the highest bit.\<close>

lemma powi_unique:
  fixes x :: rat
  assumes "2 powi j \<le> x" "x < 2 powi (j + 1)" "2 powi k \<le> x" "x < 2 powi (k + 1)"
  shows "j = k"
proof -
  have "\<not> j + 1 \<le> k" "\<not> k + 1 \<le> j"
    using assms power_int_increasing [of "j + 1" k "2 :: rat"] power_int_increasing [of "k + 1" j "2 :: rat"] by auto
  then show ?thesis by simp
qed

lemma double_exponent_eq:
  assumes "2 powi k \<le> x" "x < 2 powi (k + 1)"
  shows "double_exponent x = k - 52"
proof -
  obtain p q where pq: "quotient_of x = (p, q)" by fastforce
  have "0 < (2 :: rat) powi k" by simp
  then have x0: "0 < x" using assms(1) by (rule less_le_trans)
  have q0: "0 < q" and xpq: "x = of_int p / of_int q" using pq quotient_of_denom_pos quotient_of_div by auto
  have p0: "0 < p" using x0 q0 by (simp add: xpq zero_less_divide_iff)
  define m n where "m = msb64 (nat p)" and "n = msb64 (nat q)"
  have "2 ^ m \<le> nat p \<and> nat p < 2 * 2 ^ m" "2 ^ n \<le> nat q \<and> nat q < 2 * 2 ^ n"
    using msb64_bounds [of "nat p"] msb64_bounds [of "nat q"] p0 q0 by (auto simp: m_def n_def)
  then have "int (2 ^ m) \<le> int (nat p) \<and> int (nat p) < int (2 * 2 ^ m)" "int (2 ^ n) \<le> int (nat q) \<and> int (nat q) < int (2 * 2 ^ n)"
    by (simp_all only: of_nat_le_iff of_nat_less_iff simp_thms)
  then have "2 ^ m \<le> p \<and> p < 2 * 2 ^ m" "2 ^ n \<le> q \<and> q < 2 * 2 ^ n" using p0 q0 by simp_all
  then have b: "2 ^ m \<le> (of_int p :: rat)" "of_int p < 2 * (2 :: rat) ^ m" "2 ^ n \<le> (of_int q :: rat)" "of_int q < 2 * (2 :: rat) ^ n"
    using of_int_le_iff [of "2 ^ m" p, where 'a = rat] of_int_less_iff [of p "2 * 2 ^ m", where 'a = rat]
      of_int_le_iff [of "2 ^ n" q, where 'a = rat] of_int_less_iff [of q "2 * 2 ^ n", where 'a = rat] by simp_all
  define e where "e = int m - int n"
  have pe: "(2 :: rat) powi e = 2 ^ m / 2 ^ n" by (simp add: e_def power_int_diff)
  have up: "x < 2 powi (e + 1)"
  proof -
    have "x < 2 * 2 ^ m / 2 ^ n" unfolding xpq using b q0 p0 by (intro frac_less) auto
    then show ?thesis by (simp add: power_int_add pe mult.commute)
  qed
  have low: "2 powi (e - 1) \<le> x"
  proof -
    have "2 ^ m / (2 * 2 ^ n) \<le> x" unfolding xpq using b q0 p0 by (intro frac_le) auto
    then show ?thesis by (simp add: power_int_diff pe)
  qed
  have "(if 2 powi e \<le> x then e else e - 1) = k"
    using up low assms by (intro powi_unique [of _ x]) (auto split: if_splits)
  moreover have "double_exponent x = (if 2 powi e \<le> x then e else e - 1) - 52"
    using x0 by (simp add: double_exponent_def pq Let_def e_def m_def n_def)
  ultimately show ?thesis by simp
qed

lemma to_double_eq:
  assumes "2 powi k \<le> x" "x < 2 powi (k + 1)"
  shows "to_double x = of_int (round_half_even (x / 2 powi (k - 52))) * 2 powi (k - 52)"
proof -
  have "0 < (2 :: rat) powi k" by simp
  then have "0 < x" using assms(1) by (rule less_le_trans)
  then show ?thesis using double_exponent_eq [OF assms] by (simp add: to_double_def Let_def)
qed

lemma floor_numerals: "\<lfloor>numeral a / numeral b :: rat\<rfloor> = numeral a div numeral b"
  using floor_divide_of_int_eq [of "numeral a" "numeral b", where 'a = rat] by simp

lemma genesis_doubles:
  "double_to_int (to_double (to_double (of_int INIT_SUPPLY) * to_double (9 / 10))) = 82800000000"
  "double_to_int (to_double (to_double (of_int INIT_SUPPLY) * to_double (1 / 10))) = 9200000000"
proof -
  have s: "to_double (of_int INIT_SUPPLY) = 92000000000"
    by (subst to_double_eq [of 36]) (simp_all add: INIT_SUPPLY_def round_half_even_def power_int_def power_divide floor_numerals Let_def)
  have n: "to_double (9 / 10) = 8106479329266893 / 2 ^ 53"
    by (subst to_double_eq [of "- 1"]) (simp_all add: round_half_even_def power_int_def power_divide floor_numerals Let_def)
  have o: "to_double (1 / 10) = 3602879701896397 / 2 ^ 55"
    by (subst to_double_eq [of "- 4"]) (simp_all add: round_half_even_def power_int_def power_divide floor_numerals Let_def)
  have e1: "to_double (92000000000 * (8106479329266893 / 2 ^ 53)) = 82800000000"
    by (subst to_double_eq [of 36]) (simp_all add: round_half_even_def power_int_def power_divide floor_numerals Let_def)
  show "double_to_int (to_double (to_double (of_int INIT_SUPPLY) * to_double (9 / 10))) = 82800000000"
    unfolding s n e1 by (simp add: double_to_int_def)
  have e2: "to_double (92000000000 * (3602879701896397 / 2 ^ 55)) = 9200000000"
    by (subst to_double_eq [of 33]) (simp_all add: round_half_even_def power_int_def power_divide floor_numerals Let_def)
  show "double_to_int (to_double (to_double (of_int INIT_SUPPLY) * to_double (1 / 10))) = 9200000000"
    unfolding s o e2 by (simp add: double_to_int_def)
qed

text \<open>The loop over the block summaries always succeeds and touches nothing else.\<close>

lemma create_summaries:
  "\<forall>r \<in> set (indices (block_summaries db)). fst r < next_id (block_summaries db) \<Longrightarrow>
   \<exists>t. foldR (\<lambda>_ db. bindR (create_block_summary (\<lambda>_. Inr s) db) (\<lambda>(db', _). Inr db')) xs db = Inr (db\<lparr>block_summaries := t\<rparr>)"
proof (induction xs arbitrary: db)
  case Nil
  show ?case by (rule exI [of _ "block_summaries db"]) simp
next
  case (Cons x xs)
  define t where "t = (block_summaries db)\<lparr>indices := ins_row (next_id (block_summaries db)) s (indices (block_summaries db)),
    next_id := next_id (block_summaries db) + 1, stack := on_create (next_id (block_summaries db)) (stack (block_summaries db))\<rparr>"
  have "insert_ok no_conflict (next_id (block_summaries db)) s (indices (block_summaries db))"
    using Cons.prems by (auto simp: insert_ok_def list_all_iff no_conflict_def)
  then have c: "create_block_summary (\<lambda>_. Inr s) db = Inr (db\<lparr>block_summaries := t\<rparr>, next_id (block_summaries db))"
    by (simp add: create_block_summary_def emplace_def Let_def t_def)
  have "\<forall>r \<in> set (indices (block_summaries (db\<lparr>block_summaries := t\<rparr>))). fst r < next_id (block_summaries (db\<lparr>block_summaries := t\<rparr>))"
    using Cons.prems by (auto simp: t_def)
  from Cons.IH [OF this] c show ?case by simp
qed

definition genesis_accounts :: "public_key_type \<Rightarrow> public_key_type \<Rightarrow> account_object list" where
  "genesis_accounts k d =
     [default_account_object\<lparr>a_name := ''miners''\<rparr>, default_account_object\<lparr>a_name := ''null''\<rparr>,
      default_account_object\<lparr>a_name := ''temp''\<rparr>,
      default_account_object\<lparr>a_name := ''initminer'', a_memo_key := k, a_balance := bmt 82800000000,
        a_vesting_shares := vests INIT_SUPPLY_REP\<rparr>,
      default_account_object\<lparr>a_name := ''devs'', a_memo_key := d, a_balance := bmt 9200000000,
        a_vesting_shares := vests 100000000\<rparr>]"

lemma genesis_holders_state:
  assumes "read_key INIT_PUBLIC_KEY_STR = Inr k" and "read_key dev_public_key = Inr d"
  shows "\<exists>a au w. genesis_holders read_key INIT_SUPPLY = Inr (empty_database\<lparr>accounts := a, account_authorities := au,
     witnesses := w, dgpo := genesis_dgpo INIT_SUPPLY (INIT_SUPPLY_REP + 100000000)\<rparr>) \<and>
     indices a = enumerate 0 (genesis_accounts k d)"
  by (simp add: genesis_holders_def assms genesis_account_def genesis_miner_def genesis_doubles Let_def
      create_account_def create_account_authority_def create_witness_def emplace_def insert_ok_def
      account_conflict_def no_conflict_def witness_conflict_def MINER_ACCOUNT_def NULL_ACCOUNT_def TEMP_ACCOUNT_def
      INIT_MINER_NAME_def NUM_INIT_MINERS_def empty_database_def empty_index_def genesis_accounts_def)

lemma init_genesis_state:
  assumes "read_key INIT_PUBLIC_KEY_STR = Inr k" and "read_key dev_public_key = Inr d"
  shows "\<exists>a au w t f h s. init_genesis read_key INIT_SUPPLY = Inr (empty_database\<lparr>accounts := a, account_authorities := au,
      witnesses := w, dgpo := genesis_dgpo INIT_SUPPLY (INIT_SUPPLY_REP + 100000000), block_summaries := t,
      hfo := h, wso := s, reward_funds := f\<rparr>) \<and>
    indices a = enumerate 0 (genesis_accounts k d) \<and> (\<exists>r. indices f = [(0, r)] \<and> rf_reward_balance r = bmt 0)"
proof -
  obtain a au w where h: "genesis_holders read_key INIT_SUPPLY = Inr (empty_database\<lparr>accounts := a, account_authorities := au,
     witnesses := w, dgpo := genesis_dgpo INIT_SUPPLY (INIT_SUPPLY_REP + 100000000)\<rparr>)" (is "_ = Inr ?db")
    and a: "indices a = enumerate 0 (genesis_accounts k d)"
    using genesis_holders_state [OF assms] by blast
  have "\<forall>r \<in> set (indices (block_summaries ?db)). fst r < next_id (block_summaries ?db)"
    by (simp add: empty_database_def empty_index_def)
  from create_summaries [OF this] obtain t where
    "foldR (\<lambda>_ db. bindR (create_block_summary (\<lambda>_. Inr default_block_summary_object) db) (\<lambda>(db', _). Inr db')) [0 ..< 65536] ?db =
      Inr (?db\<lparr>block_summaries := t\<rparr>)" by blast
  then show ?thesis
    using a by (simp add: init_genesis_def h Let_def create_reward_fund_def emplace_def insert_ok_def genesis_fund_def genesis_dgpo_def
        empty_database_def empty_index_def default_dynamic_global_property_object_def)
qed

lemma genesis_balanced:
  assumes "init_genesis read_key INIT_SUPPLY = Inr g"
  shows "supply_gap g = 0 \<and> vests_gap g = 0 \<and> pending_gap g = 0 \<and> chain_inv g \<and> transactions g = empty_index"
proof -
  from assms obtain k d where "read_key INIT_PUBLIC_KEY_STR = Inr k" "read_key dev_public_key = Inr d"
    by (auto simp: init_genesis_def genesis_holders_def bindR_eq_Inr)
  from init_genesis_state [OF this] assms obtain a au w t f h s r where
    g: "g = empty_database\<lparr>accounts := a, account_authorities := au,
      witnesses := w, dgpo := genesis_dgpo INIT_SUPPLY (INIT_SUPPLY_REP + 100000000), block_summaries := t,
      hfo := h, wso := s, reward_funds := f\<rparr>"
    and a: "indices a = enumerate 0 (genesis_accounts k d)" and f: "indices f = [(0, r)]" "rf_reward_balance r = bmt 0"
    by auto
  have gaps: "supply_gap g = 0" "vests_gap g = 0" "pending_gap g = 0"
    by (simp_all add: g a f gap_defs holdings genesis_accounts_def genesis_dgpo_def empty_database_def empty_index_def
        default_account_object_def default_dynamic_global_property_object_def INIT_SUPPLY_def INIT_SUPPLY_REP_def)
  moreover have "chain_inv g"
    by (simp add: g a f chain_inv_def db_sorted_def fund_ids_def escrows_ok_def all_rows_def empty_database_def empty_index_def
        genesis_accounts_def)
  moreover have "transactions g = empty_index" by (simp add: g empty_database_def)
  ultimately show ?thesis by simp
qed

subsection \<open>The states of the chain\<close>

text \<open>A step is the application of a block that does not unbalance the ledger.\<close>

inductive chain_step :: "node \<Rightarrow> (nat \<times> string) list \<Rightarrow> database \<Rightarrow> database \<Rightarrow> bool"
  for nd checkpoints where
  "checkpoint_skip nd checkpoints b skip = Inr skip' \<Longrightarrow> block_sound nd skip' b db \<Longrightarrow>
   apply_block nd checkpoints skip b db = Inr db' \<Longrightarrow> chain_step nd checkpoints db db'"

inductive_cases chain_stepE: "chain_step nd checkpoints db db'"

lemma apply_block_runs:
  "apply_block nd cps skip b db = Inr db' \<Longrightarrow> checkpoint_skip nd cps b skip = Inr skip' \<Longrightarrow>
    apply_block_body nd skip' b db = Inr db'"
  by (simp add: apply_block_def)

context exact_node
begin

lemma chain_step_keeps: "chain_step nd cps db db' \<Longrightarrow> chain_inv db \<Longrightarrow> keeps_gaps db db' \<and> chain_inv db'"
  by (erule chain_stepE) (blast dest: apply_block_runs apply_block_body_keeps)

lemma reachable_keeps: "(chain_step nd cps)\<^sup>*\<^sup>* db db' \<Longrightarrow> chain_inv db \<Longrightarrow> keeps_gaps db db' \<and> chain_inv db'"
  by (induction rule: rtranclp_induct) (auto dest: chain_step_keeps intro: keeps_gaps_trans)

end



context exact_node
begin

lemma chain_step_remembers:
  assumes "chain_step nd cps db db'" and "chain_inv db" and "remembers nd trx db"
  shows "remembers nd trx db'"
  using assms(1)
proof (rule chain_stepE)
  fix b skip skip'
  assume "checkpoint_skip nd cps b skip = Inr skip'" and "apply_block nd cps skip b db = Inr db'"
  then have "apply_block_body nd skip' b db = Inr db'" by (intro apply_block_runs)
  moreover have "rows_sorted (indices (transactions db))" using assms(3) by (simp add: remembers_def)
  ultimately show ?thesis using block_remembers [OF node_apart] assms(2,3) by blast
qed

lemma reachable_remembers:
  "(chain_step nd cps)\<^sup>*\<^sup>* db db' \<Longrightarrow> chain_inv db \<Longrightarrow> remembers nd trx db \<Longrightarrow> remembers nd trx db'"
proof (induction rule: rtranclp_induct)
  case (step db1 db2)
  from reachable_keeps [OF step.hyps(1) step.prems(1)] step show ?case by (blast intro: chain_step_remembers)
qed

end

lemma remembered_rejected:
  assumes "remembers nd trx db" and "\<not> skips skip skip_transaction_dupe_check" and "head_block_num db > 0"
  shows "\<exists>e. apply_transaction nd skip trx db = Inl e"
proof (cases "apply_transaction nd skip trx db")
  case (Inr db')
  have "find_by (\<lambda>t. tx_trx_id t = transaction_id (node_crypto nd) trx) (transactions db) = None"
    using apply_transaction_passed(1) [OF Inr assms(2)] .
  moreover have "\<not> expiration trx < head_block_time db"
    using apply_transaction_passed(5) [OF Inr assms(3)] by (auto simp: check_expiration_def Let_def split: if_splits)
  ultimately show ?thesis
    using assms(1) by (fastforce simp: remembers_def find_by_def find_None_iff)
qed simp

lemma apply_block_body_head:
  assumes "apply_block_body nd skip b db = Inr db'"
  shows "head_block_num db' = block_num b \<and> g_head_block_id (dgpo db') = block_id (node_hashes nd) b \<and>
    head_block_time db' = timestamp b \<and> head_block_time db < timestamp b \<and> g_head_block_id (dgpo db) = previous b"
proof -
  from assms obtain db1 wi db2 db3 where o: "open_block nd skip b db = Inr (db1, wi)"
    and r: "record_block nd skip b wi db2 = Inr db3" and s: "settle_block (node_fc nd) db3 = Inr db'"
    by (auto simp: apply_block_body_def bindR_eq_Inr)
  from r have "g_time (dgpo db3) = timestamp b \<and> g_head_block_number (dgpo db3) = block_num b \<and>
      g_head_block_id (dgpo db3) = block_id (node_hashes nd) b"
    by (rule record_block_sets_head)
  with settle_block_steady [OF s] open_block_steady [OF o] show ?thesis
    by (auto simp: steady_def head_block_num_def head_block_time_def)
qed

subsection \<open>An example: a block with one transfer\<close>

definition block_chain :: database where
  "block_chain = sample_chain\<lparr>dgpo := sample_dgpo\<lparr>g_maximum_block_size := 1000\<rparr>,
     accounts := mk_index [(0, sample_account ''alice'' 1000), (1, sample_account ''bob'' 500), (2, sample_account ''null'' 0)] 3,
     block_summaries := mk_index [(0, default_block_summary_object), (1, default_block_summary_object)] 2,
     wso := default_witness_schedule_object\<lparr>ws_current_shuffled_witnesses := [''alice'']\<rparr>,
     witnesses := mk_index [(0, sample_witness ''alice'' 0)] 1\<rparr>"

definition first_block :: signed_block where
  "first_block = sample_block\<lparr>transaction_merkle_root := ''KA'', block_transactions := [current_trx]\<rparr>"

lemmas block_evals = block_chain_def sample_chain_def sample_simps default_witness_schedule_object_def default_witness_object_def
  sample_witness_def sample_node_def sample_hashes_def first_block_def sample_block_def head_block_num_def head_block_time_def
  skips_def skip_nothing_def get_id_def find_id_def get_by_def find_by_def

lemma first_block_opens:
  "open_block sample_node skip_nothing first_block block_chain =
     Inr (block_chain\<lparr>dgpo := (dgpo block_chain)\<lparr>g_current_witness := ''alice''\<rparr>\<rparr>, 0)"
proof -
  have m: "check_merkle_root sample_node first_block = Inr ()"
    by (simp add: check_merkle_root_def calculate_merkle_root_def merkle_loop.simps block_evals current_trx_def sample_trx_def)
  have h: "validate_block_header sample_node skip_nothing first_block block_chain = Inr (0, sample_witness ''alice'' 0)"
    by (simp add: validate_block_header_def get_slot_at_time_def get_slot_time_def BLOCK_INTERVAL_def time_plus_def get_scheduled_witness_def Let_def
       get_witness_def validate_signee_def signee_def assertM_def block_evals)
  show ?thesis
    by (simp add: open_block_def m h) (simp add: modify_dgpo_def process_header_extensions_def get_witness_def block_evals
       default_hardfork_property_object_def)
qed


lemma first_block_transactions:
  "\<exists>a t. foldR (apply_transaction sample_node skip_nothing) [current_trx] (block_chain\<lparr>dgpo := (dgpo block_chain)\<lparr>g_current_witness := ''alice''\<rparr>\<rparr>) =
     Inr (block_chain\<lparr>dgpo := (dgpo block_chain)\<lparr>g_current_witness := ''alice''\<rparr>, accounts := a,
       transactions := mk_index [(0, \<lparr> tx_trx_id = t, tx_expiration = 1600000100 \<rparr>)] 1\<rparr>) \<and>
     indices a = [(0, sample_account ''alice'' 995), (1, sample_account ''bob'' 505), (2, sample_account ''null'' 0)]"
proof -
  let ?db = "block_chain\<lparr>dgpo := (dgpo block_chain)\<lparr>g_current_witness := ''alice''\<rparr>\<rparr>"
  have v: "transaction_validate (node_fc sample_node) current_trx = Inr ()" using sample_trx_valid by (simp add: sample_node_def)
  have s: "check_signatures sample_node current_trx ?db = Inr ()"
    by (simp add: check_signatures_def signed_verify_authority_def verify_authority_def sample_trx_evals current_trx_def
        sample_node_def get_auth_def block_chain_def sample_chain_def get_by_def find_by_def mk_index_def
        default_account_authority_object_def MAX_SIG_CHECK_DEPTH_def)
  have tapos: "check_tapos current_trx ?db = Inr ()"
    by (simp add: check_tapos_def block_evals current_trx_def sample_trx_def default_block_summary_object_def hash_word_zeros)
  have e: "check_expiration current_trx ?db = Inr ()"
    by (simp add: check_expiration_def current_trx_def block_evals MAX_TIME_UNTIL_EXPIRATION_def)
  show ?thesis
    by (simp add: apply_transaction_def v s tapos e)
      (simp add: block_evals create_transaction_def emplace_def insert_ok_def current_trx_def sample_trx_def
        apply_operation_def sample_transfer_def transfer_evaluator_def get_account_def get_balance_def eval64 adjust_balance_def
        modify_account_def modify_def modify_ok_def account_conflict_def)
qed


lemma first_block_recorded:
  assumes "indices a = [(0, sample_account ''alice'' 995), (1, sample_account ''bob'' 505), (2, sample_account ''null'' 0)]"
  shows "\<exists>w g bs. record_block sample_node skip_nothing first_block 0
     (block_chain\<lparr>dgpo := (dgpo block_chain)\<lparr>g_current_witness := ''alice''\<rparr>, accounts := a,
       transactions := mk_index [(0, \<lparr> tx_trx_id = t, tx_expiration = 1600000100 \<rparr>)] 1\<rparr>) =
     Inr (block_chain\<lparr>dgpo := g, accounts := a, witnesses := w, block_summaries := bs,
       transactions := mk_index [(0, \<lparr> tx_trx_id = t, tx_expiration = 1600000100 \<rparr>)] 1\<rparr>) \<and>
     g_head_block_number g = 1 \<and> g_time g = 1600000003"
  by (simp add: record_block_def zero_block_num block_evals
       update_global_dynamic_data_def get_slot_at_time_def get_slot_time_def BLOCK_INTERVAL_def time_plus_def
      Let_def modify_dgpo_def advance_head_def record_slots_def record_slot_def minus32_def MAX_UNDO_HISTORY_def update_signing_witness_def
      modify_witness_def modify_def modify_ok_def witness_conflict_def update_last_irreversible_block_def START_MINER_VOTING_BLOCK_def
      BLOCKS_PER_DAY_def MAX_WITNESSES_def note_block_summary_def modify_block_summary_def no_conflict_def
      clear_expired_transactions_def due_transaction_def first_due_def clear_expired_orders_def due_order_def
      clear_expired_delegations_def due_delegation_def update_witness_schedule_def update_virtual_supply_def)

lemma first_block_settled:
  assumes "indices a = [(0, sample_account ''alice'' 995), (1, sample_account ''bob'' 505), (2, sample_account ''null'' 0)]"
    and "g_head_block_number g = 1" and "g_time g = 1600000003"
  shows "null_solvent fc64 (block_chain\<lparr>dgpo := g, accounts := a, witnesses := w, block_summaries := bs, transactions := ts\<rparr>) \<and>
    (\<exists>db'. settle_block fc64 (block_chain\<lparr>dgpo := g, accounts := a, witnesses := w, block_summaries := bs, transactions := ts\<rparr>) = Inr db')"
proof -
  let ?db = "block_chain\<lparr>dgpo := g, accounts := a, witnesses := w, block_summaries := bs, transactions := ts\<rparr>"
  have n: "empty_null_account fc64 ?db = Inr (?db, bmt 0)"
    by (simp add: empty_null_account_def get_account_def NULL_ACCOUNT_def null_balance_def null_savings_def null_vesting_def
        null_rewards_def null_reward_vesting_def assms(1) block_evals)
  then have "clear_null_account_balance fc64 ?db = Inr ?db" by (simp add: clear_null_account_balance_def)
  moreover have "\<exists>db'. bindR (process_comment_cashout fc64 ?db) (\<lambda>db2.
     bindR (process_vesting_withdrawals fc64 db2) (\<lambda>db3.
     bindR (custom_tokens_emissions fc64 db3) (\<lambda>db4.
     bindR (process_savings_reward fc64 db4) (\<lambda>db5.
     bindR (update_virtual_supply db5) (\<lambda>db6.
     bindR (account_recovery_processing db6) (\<lambda>db7.
     bindR (expire_escrow_ratification fc64 db7) (\<lambda>db8.
     bindR (process_decline_voting_rights fc64 db8)
     (process_hardforks fc64)))))))) = Inr db'"
    using assms(2,3)
    by (simp add: process_comment_cashout_def block_evals FIRST_PAYOUT_BLOCK_def process_vesting_withdrawals_def head_id_def
        by_next_savings_withdrawal_def withdrawal_key_def due_withdrawal_def assms(1) time_max_def custom_tokens_emissions_def process_savings_reward_def
        SAVINGS_REWARD_INTERVAL_BLOCKS_def update_virtual_supply_def modify_dgpo_def account_recovery_processing_def due_recovery_def
        due_history_def due_change_def first_due_def expire_escrow_ratification_def unratified_escrows_def
        process_decline_voting_rights_def due_decline_def process_hardforks_def hardfork_loop.simps hf_at_def hardfork_versions_def
        default_hardfork_property_object_def version_num_def BURN_INIT_REP_BLOCK_def Let_def)
  ultimately show ?thesis using n by (simp add: settle_block_def null_solvent_def)
qed

lemma first_block_runs:
  "\<exists>db'. apply_block_body sample_node skip_nothing first_block block_chain = Inr db' \<and>
     block_sound sample_node skip_nothing first_block block_chain"
proof -
  let ?db = "block_chain\<lparr>dgpo := (dgpo block_chain)\<lparr>g_current_witness := ''alice''\<rparr>\<rparr>"
  have trx: "block_transactions first_block = [current_trx]" by (simp add: first_block_def)
  obtain a t where t: "foldR (apply_transaction sample_node skip_nothing) [current_trx] ?db =
     Inr (block_chain\<lparr>dgpo := (dgpo block_chain)\<lparr>g_current_witness := ''alice''\<rparr>, accounts := a,
       transactions := mk_index [(0, \<lparr> tx_trx_id = t, tx_expiration = 1600000100 \<rparr>)] 1\<rparr>)"
    and a: "indices a = [(0, sample_account ''alice'' 995), (1, sample_account ''bob'' 505), (2, sample_account ''null'' 0)]"
    using first_block_transactions by blast
  obtain w g bs where r: "record_block sample_node skip_nothing first_block 0
     (block_chain\<lparr>dgpo := (dgpo block_chain)\<lparr>g_current_witness := ''alice''\<rparr>, accounts := a,
       transactions := mk_index [(0, \<lparr> tx_trx_id = t, tx_expiration = 1600000100 \<rparr>)] 1\<rparr>) =
     Inr (block_chain\<lparr>dgpo := g, accounts := a, witnesses := w, block_summaries := bs,
       transactions := mk_index [(0, \<lparr> tx_trx_id = t, tx_expiration = 1600000100 \<rparr>)] 1\<rparr>)"
    and g: "g_head_block_number g = 1" "g_time g = 1600000003"
    using first_block_recorded [OF a] by blast
  note s = first_block_settled [OF a g, where w = w and bs = bs and ts = "mk_index [(0, \<lparr> tx_trx_id = t, tx_expiration = 1600000100 \<rparr>)] 1"]
  have "transaction_sound sample_node current_trx db" for db
    using sample_trx_valid by (auto simp: transaction_sound_def sample_node_def current_trx_def sample_trx_def operation_sound_def split: sum.splits)
  then have ok: "run_admissible (apply_transaction sample_node skip_nothing) (transaction_sound sample_node) [current_trx] ?db"
    by (auto split: sum.splits)
  have fc: "node_fc sample_node = fc64" by (simp add: sample_node_def)
  show ?thesis
    using t r s ok by (auto simp: apply_block_body_def block_sound_def first_block_opens trx fc)
qed

lemma block_chain_inv: "chain_inv block_chain" "transactions block_chain = empty_index"
  by (simp_all add: chain_inv_def db_sorted_def fund_ids_def escrows_ok_def all_rows_def block_evals)

lemma no_skips: "\<not> skips skip_nothing m"
  by (simp add: skips_def skip_nothing_def)

subsection \<open>Properties of blocks\<close>





end
