(* ===== verification/Fork_Database.thy ===== *)
theory Fork_Database
  imports Block_Header
begin

text \<open>
  \<open>libraries/chain/fork_database.cpp\<close>: the tree of recent blocks. An item is held by
  \<open>shared_ptr\<close> and refers to its predecessor by \<open>weak_ptr\<close>, so items carry an address, and
  \<open>lock\<close> gives the predecessor as long as something still holds it: the two containers, the
  head, or a local variable of a caller, which is the argument \<open>held\<close>. An item does not
  change once it is in a container, so the pointer to the predecessor is the item itself.
  A container is a list in the order of block numbers, equal ones in the order of their
  insertion, with at most one item of each id.

  The lemmas show that every operation keeps the tree well formed, that pushing keeps the
  head at the highest number, and that \<open>fetch_branch_from\<close> returns the two branches down to
  the first block they have in common, always when the tree has one root.
\<close>

datatype fork_item =
  fork_item (item_addr: nat) (item_prev: "fork_item option") (item_num: nat) (item_invalid: bool)
    (item_id: string) (item_data: signed_block)

record fork_database =
  fdb_index :: "fork_item list"
  fdb_unlinked_index :: "fork_item list"
  fdb_head :: "fork_item option"
  fdb_max_size :: nat
  fdb_next_addr :: nat

definition empty_fork_database :: fork_database where
  "empty_fork_database = \<lparr> fdb_index = [], fdb_unlinked_index = [], fdb_head = None, fdb_max_size = 1024, fdb_next_addr = 0 \<rparr>"

text \<open>The constructor of an item, and its address from the allocator.\<close>

definition make_item :: "fc_hashes \<Rightarrow> signed_block \<Rightarrow> fork_database \<Rightarrow> fork_item \<times> fork_database" where
  "make_item hs b f =
     (fork_item (fdb_next_addr f) None (block_num b) False (block_id hs b) b, f\<lparr>fdb_next_addr := fdb_next_addr f + 1\<rparr>)"

definition holders :: "fork_item list \<Rightarrow> fork_database \<Rightarrow> fork_item list" where
  "holders held f = fdb_index f @ fdb_unlinked_index f @ (case fdb_head f of None \<Rightarrow> [] | Some h \<Rightarrow> [h]) @ held"

definition lock :: "fork_item list \<Rightarrow> fork_database \<Rightarrow> fork_item option \<Rightarrow> fork_item option" where
  "lock held f w =
     (case w of None \<Rightarrow> None | Some p \<Rightarrow> if item_addr p \<in> set (map item_addr (holders held f)) then Some p else None)"

text \<open>Insertion and lookup in the multi-index container.\<close>

definition index_find :: "string \<Rightarrow> fork_item list \<Rightarrow> fork_item option" where
  "index_find i xs = find (\<lambda>x. item_id x = i) xs"

definition index_insert :: "fork_item \<Rightarrow> fork_item list \<Rightarrow> fork_item list" where
  "index_insert x xs =
     (if index_find (item_id x) xs \<noteq> None then xs
      else takeWhile (\<lambda>y. item_num y \<le> item_num x) xs @ x # dropWhile (\<lambda>y. item_num y \<le> item_num x) xs)"

subsection \<open>Operations\<close>

definition fork_reset :: "fork_database \<Rightarrow> fork_database" where
  "fork_reset f = f\<lparr>fdb_head := None, fdb_index := []\<rparr>"

definition fork_pop_block :: "fork_item list \<Rightarrow> fork_database \<Rightarrow> exn + fork_database" where
  "fork_pop_block held f =
     (case fdb_head f of
        None \<Rightarrow> Inl (Assert_failed ''cannot pop an empty fork database'')
      | Some h \<Rightarrow>
          (case lock held f (item_prev h) of
             None \<Rightarrow> Inl (Assert_failed ''popping head block would leave fork DB empty'')
           | Some p \<Rightarrow> Inr (f\<lparr>fdb_head := Some p\<rparr>)))"

definition start_block :: "fc_hashes \<Rightarrow> signed_block \<Rightarrow> fork_database \<Rightarrow> fork_database" where
  "start_block hs b f =
     (let (item, f1) = make_item hs b f in f1\<lparr>fdb_index := index_insert item (fdb_index f1), fdb_head := Some item\<rparr>)"

text \<open>The link to the predecessor, then the insertion.\<close>

definition link_item :: "fork_item \<Rightarrow> fork_database \<Rightarrow> exn + fork_item" where
  "link_item item f =
     (if fdb_head f \<noteq> None \<and> previous (item_data item) \<noteq> replicate 20 (CHR 0x00) then
        (case index_find (previous (item_data item)) (fdb_index f) of
           None \<Rightarrow> Inl Unlinkable_block
         | Some p \<Rightarrow>
             bindR (assertR (\<not> item_invalid p) ''!(*itr)->invalid'') (\<lambda>_.
             Inr (fork_item (item_addr item) (Some p) (item_num item) (item_invalid item) (item_id item) (item_data item))))
      else Inr item)"

definition fork_push_item :: "fork_item \<Rightarrow> fork_database \<Rightarrow> exn + fork_database" where
  "fork_push_item item f =
     bindR (case fdb_head f of
         None \<Rightarrow> Inr ()
       | Some h \<Rightarrow> assertR (int (item_num item) > max 0 (int (item_num h) - int (fdb_max_size f)))
           ''attempting to push a block that is too old'') (\<lambda>_.
     bindR (link_item item f) (\<lambda>item'.
     Inr (f\<lparr>fdb_index := index_insert item' (fdb_index f),
       fdb_head := (case fdb_head f of
           None \<Rightarrow> Some item'
         | Some h \<Rightarrow> if item_num item' > item_num h then Some item' else Some h)\<rparr>)))"

text \<open>An item that does not link is not kept: the \<open>throw\<close> of the handler precedes its insertion.\<close>

definition fork_push_block :: "fc_hashes \<Rightarrow> signed_block \<Rightarrow> fork_database \<Rightarrow> exn + (fork_database \<times> fork_item)" where
  "fork_push_block hs b f =
     (let (item, f1) = make_item hs b f in
      bindR (fork_push_item item f1) (\<lambda>f2. Inr (f2, the (fdb_head f2))))"

primrec push_next :: "nat \<Rightarrow> fork_item \<Rightarrow> fork_database \<Rightarrow> exn + fork_database" where
  "push_next 0 new_item f = Inr f"
| "push_next (Suc n) new_item f =
     (case find (\<lambda>x. previous (item_data x) = item_id new_item) (fdb_unlinked_index f) of
        None \<Rightarrow> Inr f
      | Some tmp \<Rightarrow>
          bindR (fork_push_item tmp (f\<lparr>fdb_unlinked_index := remove1 tmp (fdb_unlinked_index f)\<rparr>)) (push_next n new_item))"

definition set_max_size :: "nat \<Rightarrow> fork_database \<Rightarrow> fork_database" where
  "set_max_size s f =
     (case fdb_head f of
        None \<Rightarrow> f\<lparr>fdb_max_size := s\<rparr>
      | Some h \<Rightarrow>
          let old = (\<lambda>x. int (item_num x) < max 0 (int (item_num h) - int s)) in
          f\<lparr>fdb_max_size := s, fdb_index := dropWhile old (fdb_index f),
            fdb_unlinked_index := dropWhile old (fdb_unlinked_index f)\<rparr>)"

definition fork_is_known_block :: "string \<Rightarrow> fork_database \<Rightarrow> bool" where
  "fork_is_known_block i f \<longleftrightarrow> index_find i (fdb_index f) \<noteq> None \<or> index_find i (fdb_unlinked_index f) \<noteq> None"

definition fork_fetch_block :: "string \<Rightarrow> fork_database \<Rightarrow> fork_item option" where
  "fork_fetch_block i f =
     (case index_find i (fdb_index f) of Some x \<Rightarrow> Some x | None \<Rightarrow> index_find i (fdb_unlinked_index f))"

definition fork_fetch_block_by_number :: "nat \<Rightarrow> fork_database \<Rightarrow> fork_item list" where
  "fork_fetch_block_by_number n f =
     takeWhile (\<lambda>x. item_num x = n) (dropWhile (\<lambda>x. item_num x < n) (fdb_index f))"

subsection \<open>Branches\<close>

lemma lock_Some: "lock held f w = Some p \<Longrightarrow> w = Some p"
  by (auto simp: lock_def split: option.splits if_splits)

lemma item_prev_smaller: "item_prev x = Some p \<Longrightarrow> size p < size x"
  by (cases x) auto

lemma lock_smaller: "lock held f (item_prev x) = Some p \<Longrightarrow> size p < size x"
  by (blast dest: lock_Some item_prev_smaller)

text \<open>The first two loops of \<open>fetch_branch_from\<close>: down to a block number.\<close>

function climb :: "fork_database \<Rightarrow> nat \<Rightarrow> fork_item \<Rightarrow> exn + (fork_item list \<times> fork_item)" where
  "climb f n x =
     (if block_num (item_data x) > n then
        (case lock [] f (item_prev x) of
           None \<Rightarrow> Inl (Assert_failed ''branch'')
         | Some p \<Rightarrow> bindR (climb f n p) (\<lambda>(xs, y). Inr (x # xs, y)))
      else Inr ([], x))"
  by pat_completeness auto
termination by (relation "measure (\<lambda>(f, n, x). size x)") (auto dest: lock_smaller)

text \<open>The third loop and the two items pushed after it.\<close>

function meet :: "fork_database \<Rightarrow> fork_item \<Rightarrow> fork_item \<Rightarrow> exn + (fork_item list \<times> fork_item list)" where
  "meet f x y =
     (if previous (item_data x) \<noteq> previous (item_data y) then
        (case lock [] f (item_prev x) of
           None \<Rightarrow> Inl (Assert_failed ''first_branch'')
         | Some p \<Rightarrow>
             (case lock [] f (item_prev y) of
                None \<Rightarrow> Inl (Assert_failed ''second_branch'')
              | Some q \<Rightarrow> bindR (meet f p q) (\<lambda>(xs, ys). Inr (x # xs, y # ys))))
      else Inr ([x], [y]))"
  by pat_completeness auto
termination by (relation "measure (\<lambda>(f, x, y). size x)") (auto dest: lock_smaller)

declare climb.simps [simp del] meet.simps [simp del]

definition fetch_branch_from ::
  "string \<Rightarrow> string \<Rightarrow> fork_database \<Rightarrow> exn + (fork_item list \<times> fork_item list)" where
  "fetch_branch_from i j f =
     (case index_find i (fdb_index f) of
        None \<Rightarrow> Inl (Assert_failed ''first_branch_itr'')
      | Some x0 \<Rightarrow>
          (case index_find j (fdb_index f) of
             None \<Rightarrow> Inl (Assert_failed ''second_branch_itr'')
           | Some y0 \<Rightarrow>
               bindR (climb f (block_num (item_data y0)) x0) (\<lambda>(xs, x).
               bindR (climb f (block_num (item_data x)) y0) (\<lambda>(ys, y).
               bindR (meet f x y) (\<lambda>(xs', ys'). Inr (xs @ xs', ys @ ys'))))))"

function walk_down :: "fork_database \<Rightarrow> nat \<Rightarrow> fork_item \<Rightarrow> fork_item option" where
  "walk_down f n x =
     (if item_num x > n then (case lock [] f (item_prev x) of None \<Rightarrow> None | Some p \<Rightarrow> walk_down f n p) else Some x)"
  by pat_completeness auto
termination by (relation "measure (\<lambda>(f, n, x). size x)") (auto dest: lock_smaller)

declare walk_down.simps [simp del]

text \<open>The head is dereferenced without a check: \<open>Other_exception\<close> when it is null.\<close>

definition walk_main_branch_to_num :: "nat \<Rightarrow> fork_database \<Rightarrow> exn + fork_item option" where
  "walk_main_branch_to_num n f =
     (case fdb_head f of
        None \<Rightarrow> Inl (Other_exception ''null head'')
      | Some h \<Rightarrow> if n > item_num h then Inr None else Inr (walk_down f n h))"

definition fetch_block_on_main_branch_by_number :: "nat \<Rightarrow> fork_database \<Rightarrow> exn + fork_item option" where
  "fetch_block_on_main_branch_by_number n f =
     (let blocks = fork_fetch_block_by_number n f in
      if length blocks = 1 then Inr (Some (blocks ! 0))
      else if length blocks = 0 then Inr None
      else walk_main_branch_to_num n f)"

definition set_head :: "fork_item \<Rightarrow> fork_database \<Rightarrow> fork_database" where
  "set_head h f = f\<lparr>fdb_head := Some h\<rparr>"

definition fork_remove :: "string \<Rightarrow> fork_database \<Rightarrow> fork_database" where
  "fork_remove i f = f\<lparr>fdb_index := filter (\<lambda>x. item_id x \<noteq> i) (fdb_index f)\<rparr>"

subsection \<open>Well-formed trees\<close>

fun item_ok :: "fc_hashes \<Rightarrow> fork_item \<Rightarrow> bool" where
  "item_ok hs (fork_item a None n bad i d) \<longleftrightarrow> n = block_num d \<and> i = block_id hs d"
| "item_ok hs (fork_item a (Some p) n bad i d) \<longleftrightarrow> n = block_num d \<and> i = block_id hs d \<and> 0 < n \<and>
     item_id p = previous d \<and> item_addr p < a \<and> item_ok hs p"

lemma item_okD: "item_ok hs x \<Longrightarrow> item_num x = block_num (item_data x) \<and> item_id x = block_id hs (item_data x)"
  by (cases "(hs, x)" rule: item_ok.cases) auto

lemma item_ok_prev:
  "item_ok hs x \<Longrightarrow> item_prev x = Some p \<Longrightarrow>
   item_ok hs p \<and> item_addr p < item_addr x \<and> item_id p = previous (item_data x) \<and> item_num x = item_num p + 1"
proof -
  assume x: "item_ok hs x" and p: "item_prev x = Some p"
  then have ok: "item_ok hs p" "item_addr p < item_addr x" "item_id p = previous (item_data x)" "0 < item_num x"
    "item_num x = block_num (item_data x)" by (cases x; auto)+
  have "num_from_id (item_id p) = item_num p" using item_okD [OF ok(1)] by (simp add: block_id_num)
  moreover have "item_num p < 2 ^ 32" using item_okD [OF ok(1)] by (simp add: block_num_def)
  ultimately have "item_num x = (item_num p + 1) mod 2 ^ 32" "item_num p < 2 ^ 32"
    using ok(3,5) by (simp_all add: block_num_def)
  moreover from this(2) have "item_num p + 1 < 2 ^ 32 \<or> item_num p + 1 = 2 ^ 32" by arith
  ultimately have "item_num x = item_num p + 1" using ok(4) by (elim disjE) simp_all
  with ok show ?thesis by simp
qed

definition fork_ok :: "fc_hashes \<Rightarrow> fork_database \<Rightarrow> bool" where
  "fork_ok hs f \<longleftrightarrow> (\<forall>x \<in> set (holders [] f). item_ok hs x \<and> item_addr x < fdb_next_addr f) \<and>
     distinct (map item_id (fdb_index f)) \<and> sorted (map item_num (fdb_index f)) \<and> fdb_unlinked_index f = []"

lemma index_find_Some: "index_find i xs = Some x \<Longrightarrow> x \<in> set xs \<and> item_id x = i"
  by (auto simp: index_find_def find_Some_iff)

lemma index_find_None: "index_find i xs = None \<longleftrightarrow> i \<notin> item_id ` set xs"
  by (auto simp: index_find_def find_None_iff)

lemma set_index_insert: "set (index_insert x xs) \<subseteq> insert x (set xs)"
  by (auto simp: index_insert_def dest: set_takeWhileD set_dropWhileD)

lemma index_insert_ids: "distinct (map item_id xs) \<Longrightarrow> distinct (map item_id (index_insert x xs))"
proof (cases "index_find (item_id x) xs")
  case None
  assume d: "distinct (map item_id xs)"
  let ?l = "takeWhile (\<lambda>y. item_num y \<le> item_num x) xs" and ?r = "dropWhile (\<lambda>y. item_num y \<le> item_num x) xs"
  have "map item_id xs = map item_id ?l @ map item_id ?r" by (simp flip: map_append)
  with d have "distinct (map item_id ?l @ map item_id ?r)" by simp
  moreover have "item_id x \<notin> set (map item_id ?l @ map item_id ?r)"
    using None by (auto simp: index_find_None dest: set_takeWhileD set_dropWhileD)
  ultimately show ?thesis using None by (auto simp: index_insert_def)
qed (simp add: index_insert_def)

lemma index_insert_sorted: "sorted (map item_num xs) \<Longrightarrow> sorted (map item_num (index_insert x xs))"
proof (cases "index_find (item_id x) xs")
  case None
  assume s: "sorted (map item_num xs)"
  let ?P = "\<lambda>y. item_num y \<le> item_num x"
  have "map item_num xs = map item_num (takeWhile ?P xs) @ map item_num (dropWhile ?P xs)" by (simp flip: map_append)
  with s have st: "sorted (map item_num (takeWhile ?P xs) @ map item_num (dropWhile ?P xs))" by simp
  moreover have "item_num x \<le> item_num y" if "y \<in> set (dropWhile ?P xs)" for y
  proof -
    from that obtain z zs where z: "dropWhile ?P xs = z # zs" by (cases "dropWhile ?P xs") auto
    then have "\<not> ?P z" using hd_dropWhile [of ?P xs] by auto
    moreover have "item_num z \<le> item_num y" using st z that by (auto simp: sorted_append)
    ultimately show ?thesis by simp
  qed
  ultimately show ?thesis using None by (auto simp: index_insert_def sorted_append dest: set_takeWhileD)
qed (simp add: index_insert_def)

lemma index_insert_has: "\<exists>y \<in> set (index_insert x xs). item_id y = item_id x"
  by (auto simp: index_insert_def index_find_None dest: index_find_Some)

lemmas holders_simps = holders_def ball_Un

subsection \<open>Every operation keeps the tree well formed\<close>

lemma fork_ok_empty: "fork_ok hs empty_fork_database"
  by (simp add: fork_ok_def empty_fork_database_def holders_simps)

lemma fork_ok_reset: "fork_ok hs f \<Longrightarrow> fork_ok hs (fork_reset f)"
  by (simp add: fork_ok_def fork_reset_def holders_simps)

lemma fork_ok_set_head: "fork_ok hs f \<Longrightarrow> item_ok hs h \<Longrightarrow> item_addr h < fdb_next_addr f \<Longrightarrow> fork_ok hs (set_head h f)"
  by (auto simp: fork_ok_def set_head_def holders_simps)

lemma fork_ok_pop: "fork_ok hs f \<Longrightarrow> fork_pop_block held f = Inr f' \<Longrightarrow> fork_ok hs f'"
proof -
  assume f: "fork_ok hs f" and "fork_pop_block held f = Inr f'"
  then obtain h p where h: "fdb_head f = Some h" and p: "item_prev h = Some p" and f': "f' = set_head p f"
    by (auto simp: fork_pop_block_def set_head_def split: option.splits dest: lock_Some)
  have "item_ok hs h" "item_addr h < fdb_next_addr f" using f h by (auto simp: fork_ok_def holders_simps)
  with item_ok_prev [OF _ p, of hs] f show ?thesis unfolding f' by (intro fork_ok_set_head) auto
qed

lemma fork_ok_remove: "fork_ok hs f \<Longrightarrow> fork_ok hs (fork_remove i f)"
  by (auto simp: fork_ok_def fork_remove_def holders_simps distinct_map_filter sorted_filter)

lemma fork_ok_set_max_size: "fork_ok hs f \<Longrightarrow> fork_ok hs (set_max_size s f)"
  by (auto simp: fork_ok_def set_max_size_def holders_simps Let_def dropWhile_eq_drop sorted_wrt_drop
      drop_map [symmetric] dest: in_set_dropD split: option.splits)

lemma fork_ok_insert:
  assumes "fork_ok hs f" and "item_ok hs x" and "item_addr x < n" and "fdb_next_addr f \<le> n" and "h = x \<or> fdb_head f = Some h"
  shows "fork_ok hs (f\<lparr>fdb_next_addr := n, fdb_index := index_insert x (fdb_index f), fdb_head := Some h\<rparr>)"
  using assms set_index_insert [of x "fdb_index f"]
  by (fastforce simp: fork_ok_def holders_simps intro: index_insert_ids index_insert_sorted)

lemma fork_ok_start: "fork_ok hs f \<Longrightarrow> fork_ok hs (start_block hs b f)"
  using fork_ok_insert [of hs f "fork_item (fdb_next_addr f) None (block_num b) False (block_id hs b) b" "fdb_next_addr f + 1"]
  by (simp add: start_block_def make_item_def)

lemma link_item_ok:
  assumes "link_item x f = Inr y" and "fork_ok hs f" and "item_ok hs x" and "item_prev x = None" and "fdb_next_addr f \<le> item_addr x"
    and "fdb_head f \<noteq> None \<Longrightarrow> 0 < item_num x"
  shows "item_ok hs y \<and> item_addr y = item_addr x \<and> item_num y = item_num x \<and> item_id y = item_id x \<and> item_data y = item_data x"
proof (cases "fdb_head f \<noteq> None \<and> previous (item_data x) \<noteq> replicate 20 (CHR 0x00)")
  case True
  with assms(1) obtain p where p: "index_find (previous (item_data x)) (fdb_index f) = Some p"
    and y: "y = fork_item (item_addr x) (Some p) (item_num x) (item_invalid x) (item_id x) (item_data x)"
    by (auto simp: link_item_def res_simps split: option.splits)
  have "item_ok hs p" "item_addr p < item_addr x" "item_id p = previous (item_data x)"
    using index_find_Some [OF p] assms(2,5) by (auto simp: fork_ok_def holders_simps)
  with y True assms(6) item_okD [OF assms(3)] show ?thesis by simp
qed (use assms in \<open>auto simp: link_item_def\<close>)

lemma fork_ok_push:
  assumes "fork_push_block hs b f = Inr (f', h)" and "fork_ok hs f"
  shows "fork_ok hs f'"
proof -
  define x where "x = fork_item (fdb_next_addr f) None (block_num b) False (block_id hs b) b"
  define f1 where "f1 = f\<lparr>fdb_next_addr := fdb_next_addr f + 1\<rparr>"
  from assms(1) obtain y where y: "link_item x f1 = Inr y"
    and n: "fdb_head f \<noteq> None \<Longrightarrow> 0 < item_num x"
    and f': "f' = f1\<lparr>fdb_index := index_insert y (fdb_index f1), fdb_head := Some (case fdb_head f of
         None \<Rightarrow> y | Some g \<Rightarrow> if item_num y > item_num g then y else g)\<rparr>"
    by (auto simp: fork_push_block_def make_item_def fork_push_item_def res_simps x_def f1_def split: option.splits if_splits)
  have "link_item x f = Inr y" using y by (simp add: link_item_def f1_def cong: if_cong)
  from link_item_ok [OF this assms(2)] n have "item_ok hs y" "item_addr y = fdb_next_addr f" by (auto simp: x_def)
  then show ?thesis
    using fork_ok_insert [OF assms(2), of y "fdb_next_addr f + 1"] by (auto simp: f' f1_def split: option.splits)
qed

lemma fork_ok_push_next: "fork_ok hs f \<Longrightarrow> push_next n x f = Inr f' \<Longrightarrow> f' = f"
  by (cases n) (auto simp: fork_ok_def)

text \<open>The operations as steps; \<open>set_head\<close> is given an item that this fork database made.\<close>

inductive fork_step :: "fc_hashes \<Rightarrow> fork_database \<Rightarrow> fork_database \<Rightarrow> bool" for hs where
  step_reset: "fork_step hs f (fork_reset f)"
| step_start: "fork_step hs f (start_block hs b f)"
| step_push: "fork_push_block hs b f = Inr (f', h) \<Longrightarrow> fork_step hs f f'"
| step_push_next: "push_next n x f = Inr f' \<Longrightarrow> fork_step hs f f'"
| step_pop: "fork_pop_block held f = Inr f' \<Longrightarrow> fork_step hs f f'"
| step_set_max_size: "fork_step hs f (set_max_size n f)"
| step_set_head: "item_ok hs h \<Longrightarrow> item_addr h < fdb_next_addr f \<Longrightarrow> fork_step hs f (set_head h f)"
| step_remove: "fork_step hs f (fork_remove i f)"

lemma fork_step_ok: "fork_step hs f f' \<Longrightarrow> fork_ok hs f \<Longrightarrow> fork_ok hs f'"
  by (induction rule: fork_step.induct)
    (auto intro: fork_ok_reset fork_ok_start fork_ok_push fork_ok_pop fork_ok_set_max_size fork_ok_set_head fork_ok_remove
      dest: fork_ok_push_next)

subsection \<open>The head is the highest block\<close>

definition highest :: "fork_database \<Rightarrow> bool" where
  "highest f \<longleftrightarrow> (case fdb_head f of None \<Rightarrow> fdb_index f = [] | Some h \<Rightarrow> \<forall>x \<in> set (fdb_index f). item_num x \<le> item_num h)"

lemma push_item_head:
  assumes "fork_push_item x f = Inr f'"
  obtains y h where "link_item x f = Inr y" "fdb_head f' = Some h" "item_num y \<le> item_num h" "fdb_index f' = index_insert y (fdb_index f)"
    "\<And>g. fdb_head f = Some g \<Longrightarrow> item_num g \<le> item_num h" "h = y \<or> fdb_head f = Some h"
proof -
  from assms obtain y where y: "link_item x f = Inr y"
    and f': "f' = f\<lparr>fdb_index := index_insert y (fdb_index f), fdb_head := (case fdb_head f of
       None \<Rightarrow> Some y | Some h \<Rightarrow> if item_num y > item_num h then Some y else Some h)\<rparr>"
    by (auto simp: fork_push_item_def bindR_eq_Inr)
  define h where "h = (case fdb_head f of None \<Rightarrow> y | Some h \<Rightarrow> if item_num y > item_num h then y else h)"
  show thesis by (rule that [OF y, of h]) (auto simp: f' h_def split: option.splits if_splits)
qed

lemma link_item_same:
  "link_item x f = Inr y \<Longrightarrow> item_num y = item_num x \<and> item_id y = item_id x \<and> item_data y = item_data x \<and> item_addr y = item_addr x"
  by (auto simp: link_item_def res_simps split: if_splits option.splits)

lemma highest_remove: "highest f \<Longrightarrow> fdb_head f \<noteq> None \<Longrightarrow> highest (fork_remove i f)"
  by (auto simp: highest_def fork_remove_def split: option.splits)

lemma highest_set_max_size: "highest f \<Longrightarrow> highest (set_max_size n f)"
  by (auto simp: highest_def set_max_size_def Let_def split: option.splits dest: set_dropWhileD)

text \<open>
  Pushing a block keeps the head at the highest block. The item returned is the head,
  no block of the tree has a higher number, and a block with the id of the pushed one is in
  the tree afterwards.
\<close>

theorem fork_push_returns_highest:
  assumes "fork_push_block hs b f = Inr (f', h)" and "highest f"
  shows "fdb_head f' = Some h \<and> highest f' \<and> block_num b \<le> item_num h \<and>
    (\<exists>x \<in> set (fdb_index f'). item_id x = block_id hs b)"
proof -
  let ?x = "fork_item (fdb_next_addr f) None (block_num b) False (block_id hs b) b"
  from assms(1) have p: "fork_push_item ?x (f\<lparr>fdb_next_addr := fdb_next_addr f + 1\<rparr>) = Inr f'" and h: "h = the (fdb_head f')"
    by (auto simp: fork_push_block_def make_item_def bindR_eq_Inr)
  from p show ?thesis
  proof (rule push_item_head)
    fix y g
    assume y: "link_item ?x (f\<lparr>fdb_next_addr := fdb_next_addr f + 1\<rparr>) = Inr y" and g: "fdb_head f' = Some g" "item_num y \<le> item_num g"
      and i: "fdb_index f' = index_insert y (fdb_index (f\<lparr>fdb_next_addr := fdb_next_addr f + 1\<rparr>))"
      and o: "\<And>k. fdb_head (f\<lparr>fdb_next_addr := fdb_next_addr f + 1\<rparr>) = Some k \<Longrightarrow> item_num k \<le> item_num g"
    have "item_num x \<le> item_num g" if "x \<in> set (fdb_index f')" for x
      using that set_index_insert [of y "fdb_index f"] g o assms(2) i
      by (auto simp: highest_def split: option.splits intro: order_trans)
    then show ?thesis
      using g h link_item_same [OF y] index_insert_has [of y "fdb_index f"] i by (auto simp: highest_def)
  qed
qed

subsection \<open>Branches\<close>

fun is_branch :: "fork_item list \<Rightarrow> bool" where
  "is_branch (x # y # zs) \<longleftrightarrow> item_prev x = Some y \<and> is_branch (y # zs)"
| "is_branch _ \<longleftrightarrow> True"

lemma is_branch_Cons: "is_branch (x # xs) \<longleftrightarrow> (xs = [] \<or> item_prev x = Some (hd xs)) \<and> is_branch xs"
  by (cases xs) auto

lemma is_branch_append: "xs \<noteq> [] \<Longrightarrow> is_branch (xs @ [hd ys]) \<Longrightarrow> is_branch ys \<Longrightarrow> is_branch (xs @ ys)"
  by (induction xs) (auto simp: is_branch_Cons hd_append split: if_splits)

lemma climb_result:
  "climb f n x = Inr (xs, y) \<Longrightarrow> item_ok hs x \<Longrightarrow>
   is_branch (xs @ [y]) \<and> hd (xs @ [y]) = x \<and> item_ok hs y \<and> block_num (item_data y) \<le> n \<and>
   (xs \<noteq> [] \<longrightarrow> block_num (item_data y) = n)"
proof (induction f n x arbitrary: xs rule: climb.induct)
  case (1 f n x)
  show ?case
  proof (cases "block_num (item_data x) > n")
    case True
    with 1(2) obtain p zs where p: "lock [] f (item_prev x) = Some p" and zs: "climb f n p = Inr (zs, y)" and xs: "xs = x # zs"
      by (subst (asm) climb.simps) (auto simp: res_simps split: option.splits)
    have ip: "item_prev x = Some p" by (rule lock_Some [OF p])
    note o = item_ok_prev [OF 1(3) ip]
    have "n \<le> item_num p" using o True item_okD [OF 1(3)] by simp
    moreover have "zs = [] \<Longrightarrow> y = p" using zs by (subst (asm) climb.simps) (auto simp: res_simps split: option.splits if_splits)
    moreover note 1(1) [OF True p zs conjunct1 [OF o]]
    ultimately show ?thesis using ip item_okD [of hs p] o by (auto simp: xs is_branch_Cons hd_append)
  next
    case False
    with 1(2,3) show ?thesis by (subst (asm) climb.simps) auto
  qed
qed

lemma meet_result:
  "meet f x y = Inr (xs, ys) \<Longrightarrow> is_branch xs \<and> is_branch ys \<and> xs \<noteq> [] \<and> ys \<noteq> [] \<and> hd xs = x \<and> hd ys = y \<and> length xs = length ys \<and>
   previous (item_data (last xs)) = previous (item_data (last ys)) \<and>
   (\<forall>(u, v) \<in> set (zip (butlast xs) (butlast ys)). previous (item_data u) \<noteq> previous (item_data v))"
proof (induction f x y arbitrary: xs ys rule: meet.induct)
  case (1 f x y)
  show ?case
  proof (cases "previous (item_data x) = previous (item_data y)")
    case True
    with 1(2) show ?thesis by (subst (asm) meet.simps) auto
  next
    case False
    with 1(2) obtain p q us vs where p: "lock [] f (item_prev x) = Some p" and q: "lock [] f (item_prev y) = Some q"
      and m: "meet f p q = Inr (us, vs)" and xs: "xs = x # us" "ys = y # vs"
      by (subst (asm) meet.simps) (auto simp: res_simps split: option.splits)
    from 1(1) [OF False p q m] False lock_Some [OF p] lock_Some [OF q] show ?thesis by (auto simp: xs is_branch_Cons)
  qed
qed

lemma zip_rev_append:
  assumes "length xs' = length ys'" and "xs = [] \<or> ys = []"
  shows "zip (rev (xs @ xs')) (rev (ys @ ys')) = zip (rev xs') (rev ys')"
  using assms by (auto simp: zip_append1 zip_append2)

lemma tl_zip_rev:
  assumes "length xs = length ys" and "xs \<noteq> []"
  shows "set (tl (zip (rev xs) (rev ys))) = set (zip (butlast xs) (butlast ys))"
proof -
  obtain us x vs y where "xs = us @ [x]" "ys = vs @ [y]"
    using assms by (cases xs rule: rev_cases; cases ys rule: rev_cases) auto
  then show ?thesis using assms by (simp add: zip_rev)
qed

lemma fetch_branch_fromE:
  assumes "fetch_branch_from i j f = Inr (xs, ys)"
  obtains x0 y0 us x vs y xs' ys' where "index_find i (fdb_index f) = Some x0" "index_find j (fdb_index f) = Some y0"
    "climb f (block_num (item_data y0)) x0 = Inr (us, x)" "climb f (block_num (item_data x)) y0 = Inr (vs, y)"
    "meet f x y = Inr (xs', ys')" "xs = us @ xs'" "ys = vs @ ys'"
  using assms by (auto simp: fetch_branch_from_def res_simps split: option.splits)

lemma fetch_branch_shape:
  assumes "fetch_branch_from i j f = Inr (xs, ys)" and "fork_ok hs f"
  shows "xs \<noteq> [] \<and> ys \<noteq> [] \<and> hd xs \<in> set (fdb_index f) \<and> item_id (hd xs) = i \<and> hd ys \<in> set (fdb_index f) \<and> item_id (hd ys) = j \<and>
    is_branch xs \<and> is_branch ys \<and>
    previous (item_data (last xs)) = previous (item_data (last ys)) \<and>
    (\<forall>(x, y) \<in> set (tl (zip (rev xs) (rev ys))). previous (item_data x) \<noteq> previous (item_data y))"
  using assms(1)
proof (rule fetch_branch_fromE)
  fix x0 y0 us x vs y xs' ys'
  assume x0: "index_find i (fdb_index f) = Some x0" and y0: "index_find j (fdb_index f) = Some y0"
    and c: "climb f (block_num (item_data y0)) x0 = Inr (us, x)" "climb f (block_num (item_data x)) y0 = Inr (vs, y)"
    and m: "meet f x y = Inr (xs', ys')" and xs: "xs = us @ xs'" "ys = vs @ ys'"
  have ok: "item_ok hs x0" "item_id x0 = i" "item_ok hs y0" "item_id y0 = j" "x0 \<in> set (fdb_index f)" "y0 \<in> set (fdb_index f)"
    using index_find_Some [OF x0] index_find_Some [OF y0] assms(2) by (auto simp: fork_ok_def holders_simps)
  note cx = climb_result [OF c(1) ok(1)] and cy = climb_result [OF c(2) ok(3)] and mm = meet_result [OF m]
  have one: "us = [] \<or> vs = []"
    using cx c(2) by (cases "us = []") (auto simp: climb.simps)
  have z: "set (tl (zip (rev xs) (rev ys))) = set (zip (butlast xs') (butlast ys'))"
    unfolding xs using mm one tl_zip_rev [of xs' ys'] zip_rev_append [of xs' ys' us vs] by metis
  have "is_branch xs \<and> hd xs = x0" "is_branch ys \<and> hd ys = y0"
    using cx cy mm is_branch_append [of us xs'] is_branch_append [of vs ys'] unfolding xs by (cases us; cases vs; auto)+
  with z mm ok show ?thesis by (auto simp: xs)
qed

text \<open>
  C25: the branches of a fork. What \<open>fetch_branch_from\<close> returns are two chains of
  predecessors, from the two given blocks down to two blocks with the same predecessor; and
  this is the highest place where they meet, since above it blocks of equal height have
  different predecessors.
\<close>

theorem fetch_branch_from_meets:
  assumes "fetch_branch_from i j f = Inr (xs, ys)" and "fork_ok hs f"
  shows "xs \<noteq> [] \<and> ys \<noteq> [] \<and> hd xs \<in> set (fdb_index f) \<and> item_id (hd xs) = i \<and> hd ys \<in> set (fdb_index f) \<and> item_id (hd ys) = j \<and>
    is_branch xs \<and> is_branch ys \<and>
    previous (item_data (last xs)) = previous (item_data (last ys)) \<and>
    (\<forall>(x, y) \<in> set (tl (zip (rev xs) (rev ys))). previous (item_data x) \<noteq> previous (item_data y))"
  using assms by (rule fetch_branch_shape)

subsection \<open>Branches are found in a tree with one root\<close>

inductive reaches :: "fork_database \<Rightarrow> fork_item \<Rightarrow> fork_item \<Rightarrow> bool" for f where
  reaches_self: "reaches f x x"
| reaches_up: "lock [] f (item_prev x) = Some p \<Longrightarrow> reaches f p r \<Longrightarrow> reaches f x r"

lemma reaches_num: "reaches f x r \<Longrightarrow> item_ok hs x \<Longrightarrow> item_ok hs r \<and> (x = r \<or> item_num r < item_num x)"
proof (induction rule: reaches.induct)
  case (reaches_up x p r)
  with item_ok_prev [OF reaches_up.prems lock_Some [OF reaches_up.hyps(1)]] show ?case by auto
qed simp

lemma climb_total:
  "reaches f x r \<Longrightarrow> item_ok hs x \<Longrightarrow> block_num (item_data r) \<le> n \<Longrightarrow> \<exists>xs y. climb f n x = Inr (xs, y) \<and> reaches f y r"
proof (induction rule: reaches.induct)
  case (reaches_self x)
  then show ?case by (auto simp: climb.simps intro: reaches.intros)
next
  case (reaches_up x p r)
  then obtain xs y where "climb f n p = Inr (xs, y) \<and> reaches f y r"
    using item_ok_prev [OF reaches_up.prems(1) lock_Some [OF reaches_up.hyps(1)]] by auto
  with reaches_up.hyps show ?case by (subst climb.simps) (auto intro: reaches.intros)
qed

lemma meet_total:
  "reaches f x r \<Longrightarrow> reaches f y r \<Longrightarrow> item_ok hs x \<Longrightarrow> item_ok hs y \<Longrightarrow> item_num x = item_num y \<Longrightarrow>
   \<exists>xs ys. meet f x y = Inr (xs, ys)"
proof (induction arbitrary: y rule: reaches.induct)
  case (reaches_self x)
  then have "y = x" using reaches_num [of f y x hs] by auto
  then show ?case by (subst meet.simps) simp
next
  case (reaches_up x p r)
  note ox = item_ok_prev [OF reaches_up.prems(2) lock_Some [OF reaches_up.hyps(1)]]
  have "y \<noteq> r" using reaches_num [OF reaches_up.hyps(2), of hs] ox reaches_up.prems(4) by auto
  with reaches_up.prems(1) obtain q where q: "lock [] f (item_prev y) = Some q" "reaches f q r"
    by (auto elim: reaches.cases)
  note oy = item_ok_prev [OF reaches_up.prems(3) lock_Some [OF q(1)]]
  from reaches_up.IH [OF q(2)] ox oy reaches_up.prems(4) obtain us vs where "meet f p q = Inr (us, vs)" by auto
  with reaches_up.hyps(1) q(1) show ?case by (subst meet.simps) auto
qed

text \<open>
  A common ancestor is always found. When all blocks of the tree lead back to one
  block that is still held, \<open>fetch_branch_from\<close> returns for any two of its blocks.
\<close>

theorem fetch_branch_from_returns:
  assumes "fork_ok hs f" and "\<forall>x \<in> set (fdb_index f). reaches f x r"
    and "x \<in> set (fdb_index f)" and "y \<in> set (fdb_index f)"
  shows "\<exists>xs ys. fetch_branch_from (item_id x) (item_id y) f = Inr (xs, ys)"
proof -
  obtain x0 y0 where x0: "index_find (item_id x) (fdb_index f) = Some x0" and y0: "index_find (item_id y) (fdb_index f) = Some y0"
    using assms(3,4) index_find_None [of "item_id x" "fdb_index f"] index_find_None [of "item_id y" "fdb_index f"] by auto
  have ok: "item_ok hs x0" "item_ok hs y0" and r: "reaches f x0 r" "reaches f y0 r"
    using index_find_Some [OF x0] index_find_Some [OF y0] assms(1,2) by (auto simp: fork_ok_def holders_simps)
  have "item_num r \<le> item_num y0" "item_ok hs r" using reaches_num [OF r(2) ok(2)] by auto
  then have "block_num (item_data r) \<le> block_num (item_data y0)" using item_okD ok by metis
  from climb_total [OF r(1) ok(1) this] obtain us x' where us: "climb f (block_num (item_data y0)) x0 = Inr (us, x')" "reaches f x' r" by blast
  note cx = climb_result [OF us(1) ok(1)]
  have "block_num (item_data r) \<le> block_num (item_data x')"
    using reaches_num [OF us(2), of hs] cx item_okD [of hs r] item_okD [of hs x'] by auto
  from climb_total [OF r(2) ok(2) this] obtain vs y' where vs: "climb f (block_num (item_data x')) y0 = Inr (vs, y')" "reaches f y' r" by blast
  note cy = climb_result [OF vs(1) ok(2)]
  have "block_num (item_data x') = block_num (item_data y')"
    using cx cy vs(1) by (cases "us = []"; cases "vs = []") (auto simp: climb.simps split: if_splits)
  then have "item_num x' = item_num y'" using cx cy item_okD by metis
  from meet_total [OF us(2) vs(2) _ _ this] cx cy obtain xs' ys' where "meet f x' y' = Inr (xs', ys')" by blast
  with x0 y0 us(1) vs(1) show ?thesis by (simp add: fetch_branch_from_def)
qed

subsection \<open>An example: two blocks on one\<close>

definition fork_hashes :: fc_hashes where
  "fork_hashes = sample_hashes\<lparr>hash_signed_header := \<lambda>h. ''hash'' @ take 16 (witness h @ ''-------------------'')\<rparr>"

definition root_id :: string where
  "root_id = [CHR 0x00, CHR 0x00, CHR 0x00, CHR 0x01] @ ''alice-----------''"

definition left_block :: signed_block where
  "left_block = sample_block\<lparr>previous := root_id\<rparr>"

definition right_block :: signed_block where
  "right_block = sample_block\<lparr>previous := root_id, witness := ''bob''\<rparr>"

lemma block_ids:
  "block_num sample_block = 1" "block_id fork_hashes sample_block = root_id"
  "block_num left_block = 2" "block_num right_block = 2"
  "block_id fork_hashes left_block = [CHR 0x00, CHR 0x00, CHR 0x00, CHR 0x02] @ ''alice-----------''"
  "block_id fork_hashes right_block = [CHR 0x00, CHR 0x00, CHR 0x00, CHR 0x02] @ ''bob-------------''"
proof -
  show 1: "block_num sample_block = 1" by (simp add: zero_block_num sample_block_def)
  show r: "block_id fork_hashes sample_block = root_id"
    unfolding block_id_def 1
    by (simp add: endian_reverse_u32_def bytes32_def char_of_def bit_0 root_id_def fork_hashes_def sample_block_def signed_block_header.truncate_def)
  have "num_from_id root_id = 1" using block_id_num [of fork_hashes sample_block] 1 r by simp
  then show 2: "block_num left_block = 2" "block_num right_block = 2"
    by (simp_all add: block_num_def left_block_def right_block_def)
  show "block_id fork_hashes left_block = [CHR 0x00, CHR 0x00, CHR 0x00, CHR 0x02] @ ''alice-----------''"
    "block_id fork_hashes right_block = [CHR 0x00, CHR 0x00, CHR 0x00, CHR 0x02] @ ''bob-------------''"
    unfolding block_id_def 2
    by (simp_all add: endian_reverse_u32_def bytes32_def char_of_def bit_0 left_block_def right_block_def fork_hashes_def sample_block_def
        signed_block_header.truncate_def)
qed

definition root_item :: fork_item where "root_item = fork_item 0 None 1 False root_id sample_block"
definition left_item :: fork_item where
  "left_item = fork_item 1 (Some root_item) 2 False (block_id fork_hashes left_block) left_block"
definition right_item :: fork_item where
  "right_item = fork_item 2 (Some root_item) 2 False (block_id fork_hashes right_block) right_block"

definition sample_tree :: fork_database where
  "sample_tree = \<lparr> fdb_index = [root_item, left_item, right_item], fdb_unlinked_index = [], fdb_head = Some left_item,
     fdb_max_size = 1024, fdb_next_addr = 3 \<rparr>"

definition left_tree :: fork_database where
  "left_tree = \<lparr> fdb_index = [root_item, left_item], fdb_unlinked_index = [], fdb_head = Some left_item,
     fdb_max_size = 1024, fdb_next_addr = 2 \<rparr>"

lemma previous_root: "previous left_block = root_id" "previous right_block = root_id" "root_id \<noteq> replicate 20 (CHR 0x00)"
proof -
  have "root_id ! 3 \<noteq> replicate 20 (CHR 0x00) ! 3" by (simp add: root_id_def)
  then show "root_id \<noteq> replicate 20 (CHR 0x00)" by metis
qed (simp_all add: left_block_def right_block_def)

lemmas tree_defs = left_tree_def sample_tree_def root_item_def left_item_def right_item_def index_insert_def index_find_def root_id_def

lemma tree_steps:
  "fork_push_block fork_hashes left_block (start_block fork_hashes sample_block empty_fork_database) = Inr (left_tree, left_item)"
  "fork_push_block fork_hashes right_block left_tree = Inr (sample_tree, left_item)"
  by (simp_all add: fork_push_block_def start_block_def make_item_def fork_push_item_def link_item_def empty_fork_database_def block_ids
      previous_root previous_root(3) [symmetric]) (simp_all add: tree_defs block_ids)

lemma sample_tree_ok: "fork_ok fork_hashes sample_tree" "highest left_tree"
  using fork_ok_push [OF tree_steps(2) fork_ok_push [OF tree_steps(1) fork_ok_start [OF fork_ok_empty]]]
  by (simp_all add: highest_def tree_defs)

lemma sample_tree_rooted: "\<forall>x \<in> set (fdb_index sample_tree). reaches sample_tree x root_item"
proof -
  have "reaches sample_tree left_item root_item" "reaches sample_tree right_item root_item"
    by (rule reaches_up [OF _ reaches_self], simp add: lock_def holders_def sample_tree_def left_item_def right_item_def)+
  then show ?thesis by (auto simp: sample_tree_def intro: reaches_self)
qed

theorem fork_push_returns_highest_witness:
  "fork_push_block fork_hashes right_block left_tree = Inr (sample_tree, left_item) \<and> highest sample_tree"
  using fork_push_returns_highest [OF tree_steps(2) sample_tree_ok(2)] tree_steps(2) by simp

theorem fetch_branch_from_returns_witness:
  "\<exists>xs ys. fetch_branch_from (item_id left_item) (item_id right_item) sample_tree = Inr (xs, ys)"
  by (rule fetch_branch_from_returns [OF sample_tree_ok(1) sample_tree_rooted]) (simp_all add: sample_tree_def)

theorem fetch_branch_from_meets_witness:
  "\<exists>xs ys. fetch_branch_from (item_id left_item) (item_id right_item) sample_tree = Inr (xs, ys) \<and>
     previous (item_data (last xs)) = previous (item_data (last ys)) \<and> hd xs \<noteq> hd ys"
proof -
  have "fetch_branch_from (item_id left_item) (item_id right_item) sample_tree = Inr ([left_item], [right_item])"
    by (simp add: fetch_branch_from_def climb.simps meet.simps tree_defs block_ids previous_root)
  from fetch_branch_from_meets [OF this sample_tree_ok(1)] this show ?thesis
    by (auto simp: left_item_def right_item_def)
qed



end
