(* ===== verification/Push_Block.thy ===== *)
theory Push_Block
  imports Block Fork_Database
begin

text \<open>
  The node around the chain (\<open>database.cpp\<close>, \<open>db_with.hpp\<close>): pushing and popping blocks,
  switching between forks and the queue of pending transactions. The state holds the
  database, its undo sessions, the fork database, the block log and the queues.

  An undo session of all containers together is a saved database with its revision and mark, the
  newest first: \<open>Chainbase\<close> shows for one container that \<open>undo\<close> returns to the saved contents
  and \<open>squash\<close> merges two sessions. A function that throws leaves the state it had reached,
  so a step returns the state beside its result. When the application of a block or a
  transaction throws, the database holds some of its changes until a session is undone;
  \<open>cs_torn\<close> marks that. The block log is the list of its blocks, not their encoding in files.
  Every exception that leaves \<open>apply_block\<close> or \<open>_apply_transaction\<close> passed
  \<open>FC_CAPTURE_AND_RETHROW\<close>, which turns it into an \<open>fc::exception\<close>, so that the handlers here
  catch all of them.
\<close>

unbundle bit_operations_syntax

record chain_state =
  cs_db :: database
  cs_undo :: "(int \<times> database \<times> bool) list"
  cs_revision :: int
  cs_torn :: bool
  cs_fork :: fork_database
  cs_log :: "signed_block list"
  cs_pending_tx :: "signed_transaction list"
  cs_pending_session :: bool
  cs_popped_tx :: "signed_transaction list"

type_synonym 'a chain_run = "chain_state \<times> (exn + 'a)"

definition andThen :: "'a chain_run \<Rightarrow> ('a \<Rightarrow> chain_state \<Rightarrow> 'b chain_run) \<Rightarrow> 'b chain_run" where
  "andThen r k = (case r of (s, Inl e) \<Rightarrow> (s, Inl e) | (s, Inr a) \<Rightarrow> k a s)"

lemma andThen_simps [simp]: "andThen (s, Inl e) k = (s, Inl e)" "andThen (s, Inr a) k = k a s"
  by (simp_all add: andThen_def)

fun forC :: "('a \<Rightarrow> chain_state \<Rightarrow> unit chain_run) \<Rightarrow> 'a list \<Rightarrow> chain_state \<Rightarrow> unit chain_run" where
  "forC f [] s = (s, Inr ())"
| "forC f (x # xs) s = andThen (f x s) (\<lambda>_. forC f xs)"

definition tear :: "chain_state \<Rightarrow> chain_state" where "tear s = s\<lparr>cs_torn := True\<rparr>"

subsection \<open>Undo sessions\<close>

definition start_session :: "chain_state \<Rightarrow> chain_state" where
  "start_session s = s\<lparr>cs_undo := (cs_revision s + 1, cs_db s, cs_torn s) # cs_undo s, cs_revision := cs_revision s + 1\<rparr>"

definition undo_session :: "chain_state \<Rightarrow> chain_state" where
  "undo_session s =
     (case cs_undo s of
        [] \<Rightarrow> s
      | (_, db, torn) # u \<Rightarrow> s\<lparr>cs_db := db, cs_undo := u, cs_revision := cs_revision s - 1, cs_torn := torn\<rparr>)"

definition squash_session :: "chain_state \<Rightarrow> chain_state" where
  "squash_session s =
     (case cs_undo s of
        [] \<Rightarrow> s
      | [_] \<Rightarrow> s\<lparr>cs_undo := []\<rparr>
      | _ # u \<Rightarrow> s\<lparr>cs_undo := u, cs_revision := cs_revision s - 1\<rparr>)"

definition commit_sessions :: "int \<Rightarrow> chain_state \<Rightarrow> chain_state" where
  "commit_sessions revision s = s\<lparr>cs_undo := rev (dropWhile (\<lambda>(r, _). r \<le> revision) (rev (cs_undo s)))\<rparr>"

subsection \<open>The block log\<close>

definition log_append :: "signed_block \<Rightarrow> signed_block list \<Rightarrow> exn + signed_block list" where
  "log_append b blocks =
     bindR (assertR (int (length blocks) = (int (block_num b) - 1) mod 2 ^ 32) ''Append to index file occuring at wrong position.'') (\<lambda>_.
     Inr (blocks @ [b]))"

definition read_block_by_num :: "nat \<Rightarrow> signed_block list \<Rightarrow> exn + signed_block option" where
  "read_block_by_num n blocks =
     (if blocks = [] \<or> n > block_num (last blocks) \<or> n = 0 then Inr None
      else if n \<le> length blocks then
        bindR (assertR (block_num (blocks ! (n - 1)) = n) ''Wrong block was read from block log.'') (\<lambda>_.
        Inr (Some (blocks ! (n - 1))))
      else Inl (Other_exception ''read past the end of the index''))"

definition fetch_block_by_id :: "fc_hashes \<Rightarrow> string \<Rightarrow> chain_state \<Rightarrow> exn + signed_block option" where
  "fetch_block_by_id hs i s =
     (case fork_fetch_block i (cs_fork s) of
        Some x \<Rightarrow> Inr (Some (item_data x))
      | None \<Rightarrow>
          bindR (read_block_by_num (num_from_id i) (cs_log s)) (\<lambda>tmp.
          case tmp of
            Some b \<Rightarrow> Inr (if block_id hs b = i then Some b else None)
          | None \<Rightarrow> Inr None))"

subsection \<open>A block in the node\<close>

text \<open>
  \<open>_apply_block\<close> up to and after the point where \<open>update_last_irreversible_block\<close> leaves the
  database: there it commits sessions, writes the block log and trims the fork database.
\<close>

definition block_start :: "node \<Rightarrow> skip_flags \<Rightarrow> signed_block \<Rightarrow> database \<Rightarrow> exn + database" where
  "block_start nd skip b db =
     bindR (open_block nd skip b db) (\<lambda>(db1, wi).
     bindR (foldR (apply_transaction nd skip) (block_transactions b) db1) (\<lambda>db2.
     bindR (update_global_dynamic_data nd skip b db2) (\<lambda>db3.
     bindR (update_signing_witness wi b db3) update_last_irreversible_block)))"

definition block_finish :: "node \<Rightarrow> signed_block \<Rightarrow> database \<Rightarrow> exn + database" where
  "block_finish nd b db =
     bindR (note_block_summary nd b db) (\<lambda>db4.
     bindR (clear_expired_transactions db4) (\<lambda>db5.
     bindR (clear_expired_orders (node_fc nd) db5) (\<lambda>db6.
     bindR (clear_expired_delegations (node_fc nd) db6) (\<lambda>db7.
     bindR (update_witness_schedule (node_fc nd) db7) (\<lambda>db8.
     bindR (update_virtual_supply db8)
     (settle_block (node_fc nd)))))))"

definition skip_block_log :: skip_flags where "skip_block_log = push_bit 13 1"

definition log_block :: "nat \<Rightarrow> chain_state \<Rightarrow> unit chain_run" where
  "log_block n s =
     (case fetch_block_on_main_branch_by_number n (cs_fork s) of
        Inl e \<Rightarrow> (s, Inl e)
      | Inr None \<Rightarrow> (s, Inl (Assert_failed ''Current fork in the fork database does not contain the last_irreversible_block''))
      | Inr (Some x) \<Rightarrow>
          (case log_append (item_data x) (cs_log s) of
             Inl e \<Rightarrow> (s, Inl e)
           | Inr blocks \<Rightarrow> (s\<lparr>cs_log := blocks\<rparr>, Inr ())))"

definition keep_irreversible :: "skip_flags \<Rightarrow> chain_state \<Rightarrow> unit chain_run" where
  "keep_irreversible skip s =
     (let lib = g_last_irreversible_block_num (dgpo (cs_db s));
          log_head_num = (if cs_log s = [] then 0 else block_num (last (cs_log s)));
          s1 = commit_sessions (int lib) s in
      andThen (if skips skip skip_block_log then (s1, Inr ()) else forC log_block [log_head_num + 1 ..< lib + 1] s1) (\<lambda>_ s2.
      (s2\<lparr>cs_fork := set_max_size (nat ((int (g_head_block_number (dgpo (cs_db s2))) - int lib + 1) mod 2 ^ 32)) (cs_fork s2)\<rparr>, Inr ())))"

definition run_block :: "node \<Rightarrow> (nat \<times> string) list \<Rightarrow> skip_flags \<Rightarrow> signed_block \<Rightarrow> chain_state \<Rightarrow> unit chain_run" where
  "run_block nd checkpoints skip b s =
     (case checkpoint_skip nd checkpoints b skip of
        Inl e \<Rightarrow> (s, Inl e)
      | Inr skip' \<Rightarrow>
          (case block_start nd skip' b (cs_db s) of
             Inl e \<Rightarrow> (tear s, Inl e)
           | Inr db1 \<Rightarrow>
               (case keep_irreversible skip' (s\<lparr>cs_db := db1\<rparr>) of
                  (s1, Inl e) \<Rightarrow> (tear s1, Inl e)
                | (s1, Inr _) \<Rightarrow>
                    (case block_finish nd b db1 of
                       Inl e \<Rightarrow> (tear s1, Inl e)
                     | Inr db2 \<Rightarrow> (s1\<lparr>cs_db := db2\<rparr>, Inr ())))))"

text \<open>A block in a session of its own, which is pushed when it applies and undone when not.\<close>

definition push_on_head :: "node \<Rightarrow> (nat \<times> string) list \<Rightarrow> skip_flags \<Rightarrow> signed_block \<Rightarrow> chain_state \<Rightarrow> unit chain_run" where
  "push_on_head nd checkpoints skip b s =
     (case run_block nd checkpoints skip b (start_session s) of
        (s1, Inl e) \<Rightarrow> (undo_session s1, Inl e)
      | (s1, Inr _) \<Rightarrow> (s1, Inr ()))"

subsection \<open>Popping\<close>

definition reset_pending_session :: "chain_state \<Rightarrow> chain_state" where
  "reset_pending_session s = (if cs_pending_session s then (undo_session s)\<lparr>cs_pending_session := False\<rparr> else s)"

definition clear_pending :: "chain_state \<Rightarrow> chain_state" where
  "clear_pending s = reset_pending_session (s\<lparr>cs_pending_tx := []\<rparr>)"

definition pop_block :: "fc_hashes \<Rightarrow> fork_item list \<Rightarrow> chain_state \<Rightarrow> unit chain_run" where
  "pop_block hs held s =
     (let s1 = reset_pending_session s in
      case fetch_block_by_id hs (g_head_block_id (dgpo (cs_db s1))) s1 of
        Inl e \<Rightarrow> (s1, Inl e)
      | Inr None \<Rightarrow> (s1, Inl Pop_empty_chain)
      | Inr (Some b) \<Rightarrow>
          (case fork_pop_block held (cs_fork s1) of
             Inl e \<Rightarrow> (s1, Inl e)
           | Inr f \<Rightarrow>
               let s2 = undo_session (s1\<lparr>cs_fork := f\<rparr>) in
               (s2\<lparr>cs_popped_tx := block_transactions b @ cs_popped_tx s2\<rparr>, Inr ())))"

text \<open>Each pop moves the head of the fork database to its predecessor, so the loop ends.\<close>

lemma session_frames [simp]:
  "cs_fork (undo_session s) = cs_fork s" "cs_fork (start_session s) = cs_fork s" "cs_fork (squash_session s) = cs_fork s"
  "cs_fork (reset_pending_session s) = cs_fork s" "cs_fork (tear s) = cs_fork s"
  by (simp_all add: undo_session_def start_session_def squash_session_def reset_pending_session_def tear_def split: list.splits prod.splits)

lemma pop_block_head:
  "pop_block hs held s = (s', Inr ()) \<Longrightarrow>
   \<exists>h p. fdb_head (cs_fork s) = Some h \<and> item_prev h = Some p \<and> cs_fork s' = (cs_fork s)\<lparr>fdb_head := Some p\<rparr>"
  by (auto simp: pop_block_def fork_pop_block_def Let_def split: sum.splits option.splits dest: lock_Some)

function pop_until :: "fc_hashes \<Rightarrow> fork_item list \<Rightarrow> string \<Rightarrow> chain_state \<Rightarrow> unit chain_run" where
  "pop_until hs held target s =
     (if g_head_block_id (dgpo (cs_db s)) = target then (s, Inr ())
      else (case pop_block hs held s of (s1, Inl e) \<Rightarrow> (s1, Inl e) | (s1, Inr _) \<Rightarrow> pop_until hs held target s1))"
  by pat_completeness auto
termination
  by (relation "measure (\<lambda>(hs, held, t, s). size (the (fdb_head (cs_fork s))))")
    (auto dest!: pop_block_head [OF sym] intro: item_prev_smaller)

declare pop_until.simps [simp del]

subsection \<open>Pushing a block\<close>

text \<open>The blocks of a branch, oldest first; on an exception the items that were not applied are returned.\<close>

fun push_branch ::
  "node \<Rightarrow> (nat \<times> string) list \<Rightarrow> skip_flags \<Rightarrow> fork_item list \<Rightarrow> chain_state \<Rightarrow> chain_state \<times> (exn \<times> fork_item list) option" where
  "push_branch nd checkpoints skip [] s = (s, None)"
| "push_branch nd checkpoints skip (x # xs) s =
     (case push_on_head nd checkpoints skip (item_data x) s of
        (s1, Inl e) \<Rightarrow> (s1, Some (e, x # xs))
      | (s1, Inr _) \<Rightarrow> push_branch nd checkpoints skip xs s1)"

definition switch_fork ::
  "node \<Rightarrow> (nat \<times> string) list \<Rightarrow> skip_flags \<Rightarrow> fork_item list \<Rightarrow> fork_item list \<Rightarrow> chain_state \<Rightarrow> bool chain_run" where
  "switch_fork nd checkpoints skip first second s =
     (let hs = node_hashes nd; held = first @ second; target = previous (item_data (last second)) in
      andThen (pop_until hs held target s) (\<lambda>_ s1.
      case push_branch nd checkpoints skip (rev first) s1 of
        (s2, None) \<Rightarrow> (s2, Inr True)
      | (s2, Some (e, rest)) \<Rightarrow>
          let f = set_head (hd second) (fold (\<lambda>x. fork_remove (block_id hs (item_data x))) rest (cs_fork s2)) in
          andThen (pop_until hs held target (s2\<lparr>cs_fork := f\<rparr>)) (\<lambda>_ s3.
          andThen (forC (\<lambda>x. push_on_head nd checkpoints skip (item_data x)) (rev second) s3) (\<lambda>_ s4.
          (s4, Inl e)))))"

definition push_new_block :: "node \<Rightarrow> (nat \<times> string) list \<Rightarrow> skip_flags \<Rightarrow> signed_block \<Rightarrow> chain_state \<Rightarrow> bool chain_run" where
  "push_new_block nd checkpoints skip b s =
     (case push_on_head nd checkpoints skip b s of
        (s1, Inl e) \<Rightarrow> (s1\<lparr>cs_fork := fork_remove (block_id (node_hashes nd) b) (cs_fork s1)\<rparr>, Inl e)
      | (s1, Inr _) \<Rightarrow> (s1, Inr False))"

definition push_block_body :: "node \<Rightarrow> (nat \<times> string) list \<Rightarrow> skip_flags \<Rightarrow> signed_block \<Rightarrow> chain_state \<Rightarrow> bool chain_run" where
  "push_block_body nd checkpoints skip b s =
     (if skips skip skip_fork_db then push_new_block nd checkpoints skip b s
      else case fork_push_block (node_hashes nd) b (cs_fork s) of
        Inl e \<Rightarrow> (s, Inl e)
      | Inr (f, new_head) \<Rightarrow>
          let s1 = s\<lparr>cs_fork := f\<rparr>; head_id = g_head_block_id (dgpo (cs_db s)) in
          if previous (item_data new_head) \<noteq> head_id then
            if block_num (item_data new_head) > head_block_num (cs_db s) then
              (case fetch_branch_from (block_id (node_hashes nd) (item_data new_head)) head_id f of
                 Inl e \<Rightarrow> (s1, Inl e)
               | Inr (first, second) \<Rightarrow> switch_fork nd checkpoints skip first second s1)
            else (s1, Inr False)
          else push_new_block nd checkpoints skip b s1)"

subsection \<open>Pending transactions\<close>

definition is_known_transaction :: "string \<Rightarrow> database \<Rightarrow> bool" where
  "is_known_transaction i db \<longleftrightarrow> find_by (\<lambda>t. tx_trx_id t = i) (transactions db) \<noteq> None"

definition push_pending :: "node \<Rightarrow> skip_flags \<Rightarrow> signed_transaction \<Rightarrow> chain_state \<Rightarrow> unit chain_run" where
  "push_pending nd skip trx s =
     (let s1 = (if cs_pending_session s then s else (start_session s)\<lparr>cs_pending_session := True\<rparr>); s2 = start_session s1 in
      case apply_transaction nd skip trx (cs_db s2) of
        Inl e \<Rightarrow> (undo_session (tear s2), Inl e)
      | Inr db \<Rightarrow> (squash_session (s2\<lparr>cs_db := db, cs_pending_tx := cs_pending_tx s2 @ [trx]\<rparr>), Inr ()))"

text \<open>\<open>pack_size\<close> is the size of a packed transaction, computed by the library \<open>fc\<close>.\<close>

definition push_transaction ::
  "(signed_transaction \<Rightarrow> nat) \<Rightarrow> node \<Rightarrow> skip_flags \<Rightarrow> signed_transaction \<Rightarrow> chain_state \<Rightarrow> unit chain_run" where
  "push_transaction pack_size nd skip trx s =
     (if pack_size trx \<le> nat ((int (g_maximum_block_size (dgpo (cs_db s))) - 256) mod 2 ^ 32)
      then push_pending (nd\<lparr>node_producing := True\<rparr>) skip trx s
      else (s, Inl (Assert_failed ''fc::raw::pack_size(trx) <= (maximum_block_size - 256)'')))"

text \<open>A queue is applied again; a transaction that is known or throws is dropped.\<close>

fun restore_pending :: "node \<Rightarrow> skip_flags \<Rightarrow> signed_transaction list \<Rightarrow> chain_state \<Rightarrow> chain_state" where
  "restore_pending nd skip [] s = s"
| "restore_pending nd skip (trx # trxs) s =
     restore_pending nd skip trxs
       (if is_known_transaction (transaction_id (node_crypto nd) trx) (cs_db s) then s else fst (push_pending nd skip trx s))"

definition push_block :: "node \<Rightarrow> (nat \<times> string) list \<Rightarrow> skip_flags \<Rightarrow> signed_block \<Rightarrow> chain_state \<Rightarrow> bool chain_run" where
  "push_block nd checkpoints skip b s =
     (case push_block_body nd checkpoints skip b (clear_pending s) of
        (s1, r) \<Rightarrow>
          let s2 = (restore_pending nd skip (cs_popped_tx s1) s1)\<lparr>cs_popped_tx := []\<rparr> in
          (restore_pending nd skip (cs_pending_tx s) s2, r))"

subsection \<open>What a step leaves alone\<close>

lemma apply_block_split: "apply_block_body nd skip b db = bindR (block_start nd skip b db) (block_finish nd b)"
  by (cases "open_block nd skip b db")
    (auto simp: apply_block_body_def block_start_def block_finish_def [abs_def] record_block_def bindR_assoc)

lemma log_block_frame: "log_block n s = (s', r) \<Longrightarrow> \<exists>l. s' = s\<lparr>cs_log := l\<rparr>"
proof -
  assume "log_block n s = (s', r)"
  then have "s' = s\<lparr>cs_log := cs_log s'\<rparr>" by (auto simp: log_block_def split: sum.splits option.splits)
  then show ?thesis by blast
qed

lemma log_blocks_frame: "forC log_block ns s = (s', r) \<Longrightarrow> \<exists>l. s' = s\<lparr>cs_log := l\<rparr>"
proof (induction ns arbitrary: s)
  case Nil
  then have "s' = s\<lparr>cs_log := cs_log s\<rparr>" by simp
  then show ?case by blast
next
  case (Cons n ns)
  obtain s1 r1 where 1: "log_block n s = (s1, r1)" by fastforce
  obtain l where s1: "s1 = s\<lparr>cs_log := l\<rparr>" using log_block_frame [OF 1] by blast
  from Cons.prems 1 show ?case by (cases r1) (auto simp: s1 dest!: Cons.IH)
qed

lemma set_max_size_head [simp]: "fdb_head (set_max_size n f) = fdb_head f"
  by (simp add: set_max_size_def Let_def split: option.splits)

lemma keep_irreversible_frame:
  assumes "keep_irreversible skip s = (s', r)"
  shows "\<exists>l f. s' = (commit_sessions (int (g_last_irreversible_block_num (dgpo (cs_db s)))) s)\<lparr>cs_log := l, cs_fork := f\<rparr> \<and>
    fdb_head f = fdb_head (cs_fork s)"
proof -
  let ?s1 = "commit_sessions (int (g_last_irreversible_block_num (dgpo (cs_db s)))) s"
  define lg where "lg = (if cs_log s = [] then 0 else block_num (last (cs_log s)))"
  obtain s2 r2 where 2: "(if skips skip skip_block_log then (?s1, Inr ()) else
      forC log_block [lg + 1 ..< g_last_irreversible_block_num (dgpo (cs_db s)) + 1] ?s1) = (s2, r2)" by fastforce
  have "\<exists>l. s2 = ?s1\<lparr>cs_log := l\<rparr>"
  proof (cases "skips skip skip_block_log")
    case True
    with 2 have "s2 = ?s1\<lparr>cs_log := cs_log ?s1\<rparr>" by simp
    then show ?thesis by blast
  qed (use 2 log_blocks_frame in auto)
  then obtain l where l: "s2 = ?s1\<lparr>cs_log := l\<rparr>" ..
  have "(s', r) = andThen (s2, r2) (\<lambda>_ s2. (s2\<lparr>cs_fork := set_max_size (nat ((int (g_head_block_number (dgpo (cs_db s2))) -
      int (g_last_irreversible_block_num (dgpo (cs_db s))) + 1) mod 2 ^ 32)) (cs_fork s2)\<rparr>, Inr ()))"
    using assms 2 unfolding keep_irreversible_def Let_def lg_def [symmetric] by simp
  then have "s' = ?s1\<lparr>cs_log := l, cs_fork := cs_fork s'\<rparr> \<and> fdb_head (cs_fork s') = fdb_head (cs_fork s)"
    by (cases r2) (auto simp: l commit_sessions_def)
  then show ?thesis by blast
qed

lemma run_blockE:
  assumes "run_block nd cps skip b s = (s', r)"
  obtains (unmatched) e where "checkpoint_skip nd cps b skip = Inl e" "s' = s" "r = Inl e"
  | (start) e where "s' = tear s" "r = Inl e"
  | (torn) skip' db1 l f e where "checkpoint_skip nd cps b skip = Inr skip'" "block_start nd skip' b (cs_db s) = Inr db1"
      "s' = tear ((commit_sessions (int (g_last_irreversible_block_num (dgpo db1))) (s\<lparr>cs_db := db1\<rparr>))\<lparr>cs_log := l, cs_fork := f\<rparr>)"
      "fdb_head f = fdb_head (cs_fork s)" "r = Inl e"
  | (applied) skip' db1 db2 l f where "checkpoint_skip nd cps b skip = Inr skip'" "block_start nd skip' b (cs_db s) = Inr db1"
      "apply_block nd cps skip b (cs_db s) = Inr db2"
      "s' = (commit_sessions (int (g_last_irreversible_block_num (dgpo db1))) (s\<lparr>cs_db := db1\<rparr>))\<lparr>cs_log := l, cs_fork := f, cs_db := db2\<rparr>"
      "fdb_head f = fdb_head (cs_fork s)" "r = Inr ()"
proof -
  consider e where "checkpoint_skip nd cps b skip = Inl e" | skip' where "checkpoint_skip nd cps b skip = Inr skip'"
    by (cases "checkpoint_skip nd cps b skip") auto
  then show thesis
  proof cases
    case 1
    then show thesis using assms unmatched by (simp add: run_block_def)
  next
    case (2 skip')
    show thesis
    proof (cases "block_start nd skip' b (cs_db s)")
      case (Inl e)
      then show thesis using assms 2 start [of e] by (simp add: run_block_def)
    next
      case (Inr db1)
      obtain s1 r1 where k: "keep_irreversible skip' (s\<lparr>cs_db := db1\<rparr>) = (s1, r1)" by fastforce
      from keep_irreversible_frame [OF k] obtain l f where s1:
          "s1 = (commit_sessions (int (g_last_irreversible_block_num (dgpo db1))) (s\<lparr>cs_db := db1\<rparr>))\<lparr>cs_log := l, cs_fork := f\<rparr>"
        and f: "fdb_head f = fdb_head (cs_fork s)" by auto
      show thesis
      proof (cases "r1 = Inr () \<and> (\<exists>db2. block_finish nd b db1 = Inr db2)")
        case True
        then obtain db2 where db2: "block_finish nd b db1 = Inr db2" by blast
        have "apply_block nd cps skip b (cs_db s) = Inr db2" by (simp add: apply_block_def 2 apply_block_split Inr db2)
        then show thesis using assms 2 Inr k s1 f db2 True by (intro applied [where l = l and f = f]) (auto simp: run_block_def)
      next
        case False
        then obtain e where "r = Inl e" "s' = tear s1"
          using assms 2 Inr k by (auto simp: run_block_def split: sum.splits)
        then show thesis using 2 Inr f by (intro torn [where l = l and f = f]) (auto simp: s1)
      qed
    qed
  qed
qed

subsection \<open>Every database of the node is the result of whole applications\<close>

text \<open>
  A property of databases that applied blocks and transactions keep holds of everything the
  node keeps: its database and what its sessions would restore, as far as they are not torn.
\<close>

locale applied_property =
  fixes nd :: node and checkpoints :: "(nat \<times> string) list" and P :: "database \<Rightarrow> bool"
  assumes block_keeps: "apply_block nd checkpoints skip b db = Inr db' \<Longrightarrow> P db \<Longrightarrow> P db'"
    and trx_keeps: "apply_transaction (nd\<lparr>node_producing := pr\<rparr>) skip trx db = Inr db' \<Longrightarrow> P db \<Longrightarrow> P db'"
begin

definition holds :: "chain_state \<Rightarrow> bool" where
  "holds s \<longleftrightarrow> (\<not> cs_torn s \<longrightarrow> P (cs_db s)) \<and> (\<forall>(r, d, t) \<in> set (cs_undo s). \<not> t \<longrightarrow> P d)"

lemma holds_sessions:
  "holds s \<Longrightarrow> holds (start_session s)" "holds s \<Longrightarrow> holds (undo_session s)" "holds s \<Longrightarrow> holds (squash_session s)"
  "holds s \<Longrightarrow> holds (tear s)" "holds s \<Longrightarrow> holds (reset_pending_session s)" "holds s \<Longrightarrow> holds (clear_pending s)"
  by (auto simp: holds_def start_session_def undo_session_def squash_session_def tear_def reset_pending_session_def clear_pending_def
      split: list.splits)

lemma holds_frame [simp]:
  "holds (s\<lparr>cs_fork := f\<rparr>) = holds s" "holds (s\<lparr>cs_popped_tx := q\<rparr>) = holds s" "holds (s\<lparr>cs_pending_session := v\<rparr>) = holds s"
  by (simp_all add: holds_def)

lemma committed_subset: "set (cs_undo (commit_sessions n s)) \<subseteq> set (cs_undo s)"
  by (auto simp: commit_sessions_def dest: set_dropWhileD)

lemma run_block_holds: "run_block nd checkpoints skip b s = (s', r) \<Longrightarrow> holds s \<Longrightarrow> holds s'"
proof (erule run_blockE)
  fix skip' db1 l f e
  assume "holds s" and "s' = tear ((commit_sessions (int (g_last_irreversible_block_num (dgpo db1))) (s\<lparr>cs_db := db1\<rparr>))\<lparr>cs_log := l, cs_fork := f\<rparr>)"
  then show "holds s'" using committed_subset [of "int (g_last_irreversible_block_num (dgpo db1))" "s\<lparr>cs_db := db1\<rparr>"]
    by (auto simp: holds_def tear_def)
next
  fix skip' db1 db2 l f
  assume "holds s" and a: "apply_block nd checkpoints skip b (cs_db s) = Inr db2"
    and s': "s' = (commit_sessions (int (g_last_irreversible_block_num (dgpo db1))) (s\<lparr>cs_db := db1\<rparr>))\<lparr>cs_log := l, cs_fork := f, cs_db := db2\<rparr>"
  then show "holds s'" using committed_subset [of "int (g_last_irreversible_block_num (dgpo db1))" "s\<lparr>cs_db := db1\<rparr>"] block_keeps [OF a]
    by (auto simp: holds_def commit_sessions_def)
qed (auto intro: holds_sessions)

lemma push_on_head_holds: "push_on_head nd checkpoints skip b s = (s', r) \<Longrightarrow> holds s \<Longrightarrow> holds s'"
  by (auto simp: push_on_head_def split: prod.splits sum.splits intro: holds_sessions dest!: run_block_holds)

lemma pop_block_holds: "pop_block hs held s = (s', r) \<Longrightarrow> holds s \<Longrightarrow> holds s'"
  by (auto simp: pop_block_def Let_def holds_sessions split: sum.splits option.splits)

lemma pop_until_holds: "pop_until hs held t s = (s', r) \<Longrightarrow> holds s \<Longrightarrow> holds s'"
proof (induction hs held t s rule: pop_until.induct)
  case (1 hs held t s)
  obtain s1 r1 where p: "pop_block hs held s = (s1, r1)" by fastforce
  have "holds s1" using p 1(3) by (rule pop_block_holds)
  with 1 p show ?case by (cases r1) (auto simp: pop_until.simps [of hs held t s] split: if_splits)
qed

lemma push_branch_holds: "push_branch nd checkpoints skip xs s = (s', r) \<Longrightarrow> holds s \<Longrightarrow> holds s'"
  by (induction xs arbitrary: s) (auto split: prod.splits sum.splits dest: push_on_head_holds)

lemma forC_holds:
  "forC f xs s = (s', r) \<Longrightarrow> holds s \<Longrightarrow> (\<And>x s s' r. f x s = (s', r) \<Longrightarrow> holds s \<Longrightarrow> holds s') \<Longrightarrow> holds s'"
  by (induction xs arbitrary: s) (auto simp: andThen_def split: prod.splits sum.splits)

lemma switch_fork_holds: "switch_fork nd checkpoints skip xs ys s = (s', r) \<Longrightarrow> holds s \<Longrightarrow> holds s'"
proof -
  assume sw: "switch_fork nd checkpoints skip xs ys s = (s', r)" and h: "holds s"
  let ?t = "previous (item_data (last ys))"
  obtain s1 r1 where 1: "pop_until (node_hashes nd) (xs @ ys) ?t s = (s1, r1)" by fastforce
  obtain s2 r2 where 2: "push_branch nd checkpoints skip (rev xs) s1 = (s2, r2)" by fastforce
  have h2: "holds s1" "holds s2" using pop_until_holds [OF 1 h] push_branch_holds [OF 2] by auto
  show ?thesis
  proof (cases r2)
    case (Some er)
    define f where "f = set_head (hd ys) (fold (\<lambda>x. fork_remove (block_id (node_hashes nd) (item_data x))) (snd er) (cs_fork s2))"
    obtain s3 r3 where 3: "pop_until (node_hashes nd) (xs @ ys) ?t (s2\<lparr>cs_fork := f\<rparr>) = (s3, r3)" by fastforce
    obtain s4 r4 where 4: "forC (\<lambda>x. push_on_head nd checkpoints skip (item_data x)) (rev ys) s3 = (s4, r4)" by fastforce
    have "holds s3" using pop_until_holds [OF 3] h2 by (simp add: holds_def)
    moreover have "holds s4" using forC_holds [OF 4 calculation] push_on_head_holds by blast
    ultimately show ?thesis using sw h2 1 2 3 4 Some
      by (cases r1; cases r3; cases r4) (auto simp: switch_fork_def Let_def f_def split: prod.splits)
  qed (use sw h2 1 2 in \<open>cases r1; auto simp: switch_fork_def Let_def\<close>)
qed

lemma push_new_block_holds: "push_new_block nd checkpoints skip b s = (s', r) \<Longrightarrow> holds s \<Longrightarrow> holds s'"
proof -
  assume p: "push_new_block nd checkpoints skip b s = (s', r)" and h: "holds s"
  obtain s1 r1 where 1: "push_on_head nd checkpoints skip b s = (s1, r1)" by fastforce
  from push_on_head_holds [OF 1 h] p 1 show ?thesis by (cases r1) (auto simp: push_new_block_def holds_def)
qed

lemma push_block_body_holds: "push_block_body nd checkpoints skip b s = (s', r) \<Longrightarrow> holds s \<Longrightarrow> holds s'"
  by (auto simp: push_block_body_def Let_def split: if_splits sum.splits dest!: push_new_block_holds switch_fork_holds)

lemma push_pending_holds: "push_pending (nd\<lparr>node_producing := pr\<rparr>) skip trx s = (s', r) \<Longrightarrow> holds s \<Longrightarrow> holds s'"
proof -
  assume p: "push_pending (nd\<lparr>node_producing := pr\<rparr>) skip trx s = (s', r)" and h: "holds s"
  define s2 where "s2 = start_session (if cs_pending_session s then s else (start_session s)\<lparr>cs_pending_session := True\<rparr>)"
  have h2: "holds s2" using h holds_sessions(1) [of s] unfolding s2_def by (intro holds_sessions) (auto simp: holds_def)
  show ?thesis
  proof (cases "apply_transaction (nd\<lparr>node_producing := pr\<rparr>) skip trx (cs_db s2)")
    case (Inl e)
    with p have "s' = undo_session (tear s2)" by (simp add: push_pending_def Let_def s2_def)
    with h2 show ?thesis by (simp add: holds_sessions)
  next
    case (Inr db)
    with p have s': "s' = squash_session (s2\<lparr>cs_db := db, cs_pending_tx := cs_pending_tx s2 @ [trx]\<rparr>)" by (simp add: push_pending_def Let_def s2_def)
    show ?thesis unfolding s' using h2 trx_keeps [OF Inr] by (intro holds_sessions) (auto simp: holds_def)
  qed
qed

lemma restore_pending_holds: "holds s \<Longrightarrow> holds (restore_pending nd skip trxs s)"
proof (induction trxs arbitrary: s)
  case (Cons trx trxs)
  obtain s1 r1 where 1: "push_pending nd skip trx s = (s1, r1)" by fastforce
  have "nd = nd\<lparr>node_producing := node_producing nd\<rparr>" by simp
  with 1 have "push_pending (nd\<lparr>node_producing := node_producing nd\<rparr>) skip trx s = (s1, r1)" by simp
  from push_pending_holds [OF this Cons.prems] Cons 1 show ?case by simp
qed simp

lemma push_block_holds: "push_block nd checkpoints skip b s = (s', r) \<Longrightarrow> holds s \<Longrightarrow> holds s'"
proof -
  assume p: "push_block nd checkpoints skip b s = (s', r)" and h: "holds s"
  obtain s1 r1 where 1: "push_block_body nd checkpoints skip b (clear_pending s) = (s1, r1)" by fastforce
  have "holds s1" using push_block_body_holds [OF 1] h by (simp add: holds_sessions)
  then have "holds ((restore_pending nd skip (cs_popped_tx s1) s1)\<lparr>cs_popped_tx := []\<rparr>)"
    using restore_pending_holds [of s1] by (simp add: holds_def)
  then show ?thesis using p 1 by (auto simp: push_block_def Let_def intro: restore_pending_holds)
qed

lemma push_transaction_holds: "push_transaction pack_size nd skip trx s = (s', r) \<Longrightarrow> holds s \<Longrightarrow> holds s'"
  by (auto simp: push_transaction_def split: if_splits dest: push_pending_holds)

end

inductive applied_from :: "node \<Rightarrow> (nat \<times> string) list \<Rightarrow> database \<Rightarrow> database \<Rightarrow> bool" for nd checkpoints g where
  applied_base: "applied_from nd checkpoints g g"
| applied_block: "applied_from nd checkpoints g db \<Longrightarrow> apply_block nd checkpoints skip b db = Inr db' \<Longrightarrow> applied_from nd checkpoints g db'"
| applied_trx: "applied_from nd checkpoints g db \<Longrightarrow> apply_transaction (nd\<lparr>node_producing := pr\<rparr>) skip trx db = Inr db' \<Longrightarrow>
    applied_from nd checkpoints g db'"

interpretation whole: applied_property nd checkpoints "applied_from nd checkpoints g" for nd checkpoints g
  by unfold_locales (blast intro: applied_from.intros)+

text \<open>What the node is asked to do, whether it succeeds or throws.\<close>

inductive node_step :: "(signed_transaction \<Rightarrow> nat) \<Rightarrow> node \<Rightarrow> (nat \<times> string) list \<Rightarrow> chain_state \<Rightarrow> chain_state \<Rightarrow> bool"
  for pack_size nd checkpoints where
  node_push_block: "push_block nd checkpoints skip b s = (s', r) \<Longrightarrow> node_step pack_size nd checkpoints s s'"
| node_push_transaction: "push_transaction pack_size nd skip trx s = (s', r) \<Longrightarrow> node_step pack_size nd checkpoints s s'"
| node_pop_block: "pop_block (node_hashes nd) [] s = (s', r) \<Longrightarrow> node_step pack_size nd checkpoints s s'"
| node_clear_pending: "node_step pack_size nd checkpoints s (clear_pending s)"

lemma node_step_holds:
  "node_step pack_size nd checkpoints s s' \<Longrightarrow> whole.holds nd checkpoints g s \<Longrightarrow> whole.holds nd checkpoints g s'"
  by (induction rule: node_step.induct)
    (auto intro: whole.push_block_holds whole.push_transaction_holds whole.pop_block_holds whole.holds_sessions)


subsection \<open>A block that fails\<close>

lemma commit_keeps_top:
  "n < r \<Longrightarrow> rev (dropWhile (\<lambda>(r, _). r \<le> n) (rev ((r, x) # u))) = (r, x) # rev (dropWhile (\<lambda>(r, _). r \<le> n) (rev u))"
  for n r :: int
  by (simp add: dropWhile_append)

lemma committed_prefix: "\<exists>v. u = rev (dropWhile P (rev u)) @ v"
  by (metis rev_append rev_rev_ident takeWhile_dropWhile_id)

lemma failed_block_undone:
  assumes "push_on_head nd cps skip b s = (s', Inl e)"
    and "\<And>skip' db1. checkpoint_skip nd cps b skip = Inr skip' \<Longrightarrow> block_start nd skip' b (cs_db s) = Inr db1 \<Longrightarrow>
      int (g_last_irreversible_block_num (dgpo db1)) \<le> cs_revision s"
  shows "cs_db s' = cs_db s \<and> cs_torn s' = cs_torn s \<and> cs_revision s' = cs_revision s \<and>
    fdb_head (cs_fork s') = fdb_head (cs_fork s) \<and> (\<exists>v. cs_undo s = cs_undo s' @ v)"
proof -
  obtain s1 r where 1: "run_block nd cps skip b (start_session s) = (s1, r)" by fastforce
  with assms(1) have r: "r = Inl e" "s' = undo_session s1" by (auto simp: push_on_head_def split: sum.splits)
  from 1 show ?thesis
  proof (cases rule: run_blockE)
    case (torn skip' db1 l f e)
    then have "int (g_last_irreversible_block_num (dgpo db1)) < cs_revision s + 1"
      using assms(2) [of skip' db1] by (simp add: start_session_def)
    with torn show ?thesis unfolding r(2)
      by (auto simp: undo_session_def tear_def commit_sessions_def start_session_def commit_keeps_top committed_prefix simp del: rev.simps)
  qed (use r in \<open>auto simp: undo_session_def start_session_def tear_def\<close>)
qed


subsection \<open>Switching forks\<close>

lemma block_start_head:
  "block_start nd skip b db = Inr db' \<Longrightarrow> g_head_block_id (dgpo db') = block_id (node_hashes nd) b"
  unfolding block_start_def bindR_eq_Inr
  by (elim exE conjE) (auto simp: bindR_eq_Inr steady_def dest!: update_global_dynamic_data_head update_signing_witness_steady
      update_last_irreversible_block_steady)

lemma apply_block_head: "apply_block nd cps skip b db = Inr db' \<Longrightarrow>
   g_head_block_id (dgpo db') = block_id (node_hashes nd) b \<and> head_block_num db' = block_num b"
  by (auto simp: apply_block_def bindR_eq_Inr dest!: apply_block_body_head)

lemma push_on_head_applied:
  assumes "push_on_head nd cps skip b s = (s', Inr ())"
  shows "apply_block nd cps skip b (cs_db s) = Inr (cs_db s') \<and> cs_torn s' = cs_torn s \<and>
    cs_pending_session s' = cs_pending_session s \<and> cs_popped_tx s' = cs_popped_tx s \<and> fdb_head (cs_fork s') = fdb_head (cs_fork s) \<and>
    (\<exists>n. cs_undo s' = rev (dropWhile (\<lambda>(r, _). r \<le> n) (rev ((cs_revision s + 1, cs_db s, cs_torn s) # cs_undo s))))"
proof -
  from assms have "run_block nd cps skip b (start_session s) = (s', Inr ())"
    by (auto simp: push_on_head_def split: prod.splits sum.splits)
  then show ?thesis
    by (cases rule: run_blockE) (auto simp: start_session_def commit_sessions_def simp del: rev.simps)
qed

lemma push_branch_head: "push_branch nd cps skip xs s = (s', None) \<Longrightarrow> fdb_head (cs_fork s') = fdb_head (cs_fork s) \<and>
    (xs \<noteq> [] \<longrightarrow> head_block_num (cs_db s') = block_num (item_data (last xs)))"
proof (induction xs arbitrary: s)
  case (Cons x xs)
  from Cons.prems obtain s1 where 1: "push_on_head nd cps skip (item_data x) s = (s1, Inr ())"
    and 2: "push_branch nd cps skip xs s1 = (s', None)" by (auto split: prod.splits sum.splits)
  show ?case
  proof (cases xs)
    case Nil
    with 1 2 push_on_head_applied [OF 1] show ?thesis by (auto dest: apply_block_head)
  qed (use Cons.IH [OF 2] push_on_head_applied [OF 1] in simp)
qed simp

lemma pop_until_head:
  "pop_until hs' held t s = (s', Inr ()) \<Longrightarrow> fdb_head (cs_fork s) = Some h \<Longrightarrow> item_ok hs h \<Longrightarrow>
   \<exists>g. fdb_head (cs_fork s') = Some g \<and> item_ok hs g \<and> item_num g \<le> item_num h \<and>
     (g_head_block_id (dgpo (cs_db s)) \<noteq> t \<longrightarrow> item_num g < item_num h)"
proof (induction hs' held t s arbitrary: h rule: pop_until.induct)
  case (1 hs' held t s)
  show ?case
  proof (cases "g_head_block_id (dgpo (cs_db s)) = t")
    case False
    with 1(2) obtain s1 where p: "pop_block hs' held s = (s1, Inr ())" and u: "pop_until hs' held t s1 = (s', Inr ())"
      by (auto simp: pop_until.simps [of hs' held t s] split: prod.splits sum.splits)
    from pop_block_head [OF p] 1(3) obtain g where g: "item_prev h = Some g" "fdb_head (cs_fork s1) = Some g" by auto
    note o = item_ok_prev [OF 1(4) g(1)]
    from 1(1) [OF False p [symmetric] refl u g(2) conjunct1 [OF o]] o show ?thesis by auto
  qed (use 1 in \<open>auto simp: pop_until.simps [of hs' held t s]\<close>)
qed

lemma switch_fork_success:
  assumes "switch_fork nd cps skip xs ys s = (s', Inr True)" and "fdb_head (cs_fork s) = Some h" and "item_ok hs h"
    and "xs \<noteq> []" and "g_head_block_id (dgpo (cs_db s)) \<noteq> previous (item_data (last ys))"
  shows "(\<exists>g. fdb_head (cs_fork s') = Some g \<and> item_num g < item_num h) \<and> head_block_num (cs_db s') = block_num (item_data (hd xs))"
proof -
  from assms(1) obtain s1 where 1: "pop_until (node_hashes nd) (xs @ ys) (previous (item_data (last ys))) s = (s1, Inr ())"
    and 2: "push_branch nd cps skip (rev xs) s1 = (s', None)"
    by (auto simp: switch_fork_def Let_def andThen_def split: prod.splits sum.splits option.splits)
  from pop_until_head [OF 1 assms(2,3)] push_branch_head [OF 2] assms(4,5) show ?thesis by (auto simp: last_rev)
qed

lemma branch_nums: "is_branch ys \<Longrightarrow> ys \<noteq> [] \<Longrightarrow> item_ok hs (hd ys) \<Longrightarrow> item_ok hs (last ys) \<and> item_num (last ys) \<le> item_num (hd ys)"
proof (induction ys)
  case (Cons y ys)
  show ?case
  proof (cases ys)
    case (Cons z zs)
    with Cons.prems have "item_prev y = Some z" by simp
    from item_ok_prev [OF _ this, of hs] Cons.IH Cons.prems Cons show ?thesis by auto
  qed (use Cons in auto)
qed simp

text \<open>
  The fork database forgets the head after a switch. When a pushed block makes the node
  switch forks successfully, the head of the fork database is lower than the new head of
  the chain: \<open>pop_block\<close> moves it down once for every block of the old branch, and nothing
  moves it up again.
\<close>

theorem switch_leaves_fork_head_behind:
  assumes "push_block_body nd checkpoints skip b s = (s', Inr True)" and "fork_ok (node_hashes nd) (cs_fork s)"
    and "num_from_id (g_head_block_id (dgpo (cs_db s))) + 1 < 2 ^ 32"
  shows "\<exists>g. fdb_head (cs_fork s') = Some g \<and> item_num g < head_block_num (cs_db s')"
proof -
  let ?hs = "node_hashes nd" and ?i = "g_head_block_id (dgpo (cs_db s))"
  from assms(1) obtain f h xs ys where p: "fork_push_block ?hs b (cs_fork s) = Inr (f, h)"
    and x: "fetch_branch_from (block_id ?hs (item_data h)) ?i f = Inr (xs, ys)"
    and sw: "switch_fork nd checkpoints skip xs ys (s\<lparr>cs_fork := f\<rparr>) = (s', Inr True)"
    by (auto simp: push_block_body_def push_new_block_def Let_def split: if_splits sum.splits prod.splits)
  have ok: "fork_ok ?hs f" using p assms(2) by (rule fork_ok_push)
  have head: "fdb_head f = Some h"
    using p by (auto simp: fork_push_block_def make_item_def bindR_eq_Inr elim!: push_item_head)
  have oh: "item_ok ?hs h" using ok head by (auto simp: fork_ok_def holders_simps)
  note sh = fetch_branch_shape [OF x ok]
  have hx: "item_ok ?hs (hd xs)" "item_ok ?hs (hd ys)" using sh ok by (auto simp: fork_ok_def holders_simps)
  have n: "item_num (hd xs) = item_num h" using sh hx oh item_okD block_id_num by metis
  have "?i \<noteq> previous (item_data (last ys))"
  proof
    assume eq: "?i = previous (item_data (last ys))"
    have "item_num (hd ys) = num_from_id ?i" using sh hx item_okD [of ?hs "hd ys"] block_id_num by metis
    moreover have "item_num (last ys) = num_from_id ?i + 1"
      using branch_nums [of ys ?hs] sh hx item_okD [of ?hs "last ys"] assms(3) eq by (simp add: block_num_def)
    ultimately show False using branch_nums [of ys ?hs] sh hx by simp
  qed
  from switch_fork_success [OF sw _ oh] this sh head n item_okD [OF hx(1)] show ?thesis by auto
qed

subsection \<open>A switch that fails\<close>

text \<open>
  The state is at the fork point, or above it with sessions that lead back to it: every
  session of \<open>w\<close> restores another head, the next one, if it was not committed, the fork point.
\<close>

definition above_fork :: "string \<Rightarrow> database \<Rightarrow> bool \<Rightarrow> chain_state \<Rightarrow> bool" where
  "above_fork t d m s \<longleftrightarrow> \<not> cs_pending_session s \<and>
     (cs_db s = d \<and> cs_torn s = m \<or>
      g_head_block_id (dgpo (cs_db s)) \<noteq> t \<and>
      (\<exists>w u. cs_undo s = w @ u \<and> (\<forall>x \<in> set w. g_head_block_id (dgpo (fst (snd x))) \<noteq> t) \<and>
        (u = [] \<or> (\<exists>r v. u = (r, d, m) # v))))"

lemma prefix_of_sessions:
  assumes "w @ u = v @ z" and "u = [] \<or> (\<exists>r y. u = (r, d, m) # y)" and "\<forall>x \<in> set w. Q x"
  shows "\<exists>w' u'. v = w' @ u' \<and> (\<forall>x \<in> set w'. Q x) \<and> (u' = [] \<or> (\<exists>r y. u' = (r, d, m) # y))"
proof -
  from assms(1) consider k where "v = w @ k" "u = k @ z" | k where "w = v @ k" by (auto simp: append_eq_append_conv2)
  then show ?thesis
  proof cases
    case (1 k)
    with assms(2) have "k = [] \<or> (\<exists>r y. k = (r, d, m) # y)" by (cases k) auto
    with 1 assms(3) show ?thesis by blast
  next
    case (2 k)
    then have "v = v @ [] \<and> (\<forall>x \<in> set v. Q x)" using assms(3) by simp
    then show ?thesis by blast
  qed
qed

lemma above_fork_push:
  assumes "above_fork t d m s" and "cs_undo s' @ z = (r, cs_db s, cs_torn s) # cs_undo s" and "\<not> cs_pending_session s'"
    and "g_head_block_id (dgpo (cs_db s')) \<noteq> t"
  shows "above_fork t d m s'"
proof -
  let ?Q = "\<lambda>x. g_head_block_id (dgpo (fst (snd x))) \<noteq> t"
  have "\<exists>w u. cs_undo s' @ z = w @ u \<and> (\<forall>x \<in> set w. ?Q x) \<and> (u = [] \<or> (\<exists>r v. u = (r, d, m) # v))"
  proof (cases "cs_db s = d \<and> cs_torn s = m")
    case True
    then have "cs_undo s' @ z = [] @ (r, d, m) # cs_undo s" using assms(2) by simp
    then show ?thesis by fastforce
  next
    case False
    with assms(1) obtain w u where w: "cs_undo s = w @ u" "\<forall>x \<in> set w. ?Q x" "u = [] \<or> (\<exists>r v. u = (r, d, m) # v)" "?Q (r, cs_db s, cs_torn s)"
      by (auto simp: above_fork_def)
    then have "cs_undo s' @ z = ((r, cs_db s, cs_torn s) # w) @ u \<and> (\<forall>x \<in> set ((r, cs_db s, cs_torn s) # w). ?Q x)" using assms(2) by simp
    with w(3) show ?thesis by blast
  qed
  then obtain w u where "w @ u = cs_undo s' @ z" "u = [] \<or> (\<exists>r v. u = (r, d, m) # v)" "\<forall>x \<in> set w. ?Q x" by metis
  from prefix_of_sessions [OF this] assms(3,4) show ?thesis by (simp add: above_fork_def)
qed

lemma above_fork_prefix:
  assumes "above_fork t d m s" and "cs_db s' = cs_db s" and "cs_torn s' = cs_torn s" and "\<not> cs_pending_session s'"
    and "cs_undo s = cs_undo s' @ z"
  shows "above_fork t d m s'"
proof (cases "cs_db s = d \<and> cs_torn s = m")
  case False
  with assms(1) obtain w u where h: "g_head_block_id (dgpo (cs_db s)) \<noteq> t"
    and w: "w @ u = cs_undo s' @ z" "u = [] \<or> (\<exists>r v. u = (r, d, m) # v)" "\<forall>x \<in> set w. g_head_block_id (dgpo (fst (snd x))) \<noteq> t"
    using assms(5) unfolding above_fork_def by metis
  from prefix_of_sessions [OF w] h assms show ?thesis by (simp add: above_fork_def)
qed (use assms in \<open>simp add: above_fork_def\<close>)

lemma above_fork_undo:
  assumes "above_fork t d m s" and "g_head_block_id (dgpo (cs_db s)) \<noteq> t" and "g_head_block_id (dgpo d) = t"
  shows "above_fork t d m (undo_session s)"
proof -
  from assms obtain w u where w: "cs_undo s = w @ u" "\<forall>x \<in> set w. g_head_block_id (dgpo (fst (snd x))) \<noteq> t"
    and u: "u = [] \<or> (\<exists>r v. u = (r, d, m) # v)" and p: "\<not> cs_pending_session s" by (auto simp: above_fork_def)
  show ?thesis
  proof (cases w)
    case Nil
    from u show ?thesis
    proof (elim disjE exE)
      assume "u = []"
      with Nil w have "undo_session s = s" by (simp add: undo_session_def)
      with assms(1) show ?thesis by simp
    next
      fix r v
      assume "u = (r, d, m) # v"
      with Nil w have "cs_db (undo_session s) = d \<and> cs_torn (undo_session s) = m \<and> \<not> cs_pending_session (undo_session s)"
        using p by (simp add: undo_session_def)
      then show ?thesis by (simp add: above_fork_def)
    qed
  next
    case (Cons x w')
    then have "cs_undo (undo_session s) = w' @ u \<and> cs_db (undo_session s) = fst (snd x) \<and> \<not> cs_pending_session (undo_session s)"
      using p w(1) by (cases x) (simp add: undo_session_def)
    with w(2) u Cons show ?thesis unfolding above_fork_def by simp blast
  qed
qed

lemma above_fork_frame [simp]:
  "above_fork t d m (s\<lparr>cs_fork := f\<rparr>) = above_fork t d m s" "above_fork t d m (s\<lparr>cs_popped_tx := q\<rparr>) = above_fork t d m s"
  by (simp_all add: above_fork_def)

lemma pop_block_above_fork:
  assumes "pop_block hs held s = (s', Inr ())" and "above_fork t d m s" and "g_head_block_id (dgpo (cs_db s)) \<noteq> t"
    and "g_head_block_id (dgpo d) = t"
  shows "above_fork t d m s'"
proof -
  have "reset_pending_session s = s" using assms(2) by (simp add: reset_pending_session_def above_fork_def)
  with assms(1) obtain f q where "s' = (undo_session (s\<lparr>cs_fork := f\<rparr>))\<lparr>cs_popped_tx := q\<rparr>"
    by (auto simp: pop_block_def Let_def split: sum.splits option.splits)
  with assms show ?thesis by (simp add: above_fork_undo)
qed

lemma pop_until_returns:
  "pop_until hs held t s = (s', Inr ()) \<Longrightarrow> above_fork t d m s \<Longrightarrow> g_head_block_id (dgpo d) = t \<Longrightarrow>
   cs_db s' = d \<and> cs_torn s' = m \<and> \<not> cs_pending_session s'"
proof (induction hs held t s rule: pop_until.induct)
  case (1 hs held t s)
  show ?case
  proof (cases "g_head_block_id (dgpo (cs_db s)) = t")
    case False
    with 1(2) obtain s1 where p: "pop_block hs held s = (s1, Inr ())" and u: "pop_until hs held t s1 = (s', Inr ())"
      by (auto simp: pop_until.simps [of hs held t s] split: prod.splits sum.splits)
    from 1(1) [OF False p [symmetric] refl u pop_block_above_fork [OF p 1(3) False 1(4)] 1(4)] show ?thesis .
  qed (use 1 in \<open>auto simp: pop_until.simps [of hs held t s] above_fork_def\<close>)
qed

lemma push_on_head_above_fork:
  assumes "push_on_head nd cps skip b s = (s', r)" and "above_fork t d m s" and "block_id (node_hashes nd) b \<noteq> t"
  shows "above_fork t d m s'"
proof -
  have np: "\<not> cs_pending_session s" using assms(2) by (simp add: above_fork_def)
  obtain s1 r1 where 1: "run_block nd cps skip b (start_session s) = (s1, r1)" by fastforce
  let ?c = "\<lambda>n. rev (dropWhile (\<lambda>(r, _). r \<le> n) (rev ((cs_revision s + 1, cs_db s, cs_torn s) # cs_undo s)))"
  from 1 show ?thesis
  proof (cases rule: run_blockE)
    case (torn skip' db1 l f e)
    then have s': "s' = undo_session s1" using assms(1) 1 by (simp add: push_on_head_def)
    let ?n = "int (g_last_irreversible_block_num (dgpo db1))"
    have u: "cs_undo s1 = ?c ?n" and d: "cs_db s1 = db1" "\<not> cs_pending_session s1"
      using torn np by (simp_all add: tear_def commit_sessions_def start_session_def)
    show ?thesis
    proof (cases "cs_undo s1")
      case Nil
      then have "s' = s1" by (simp add: s' undo_session_def)
      then show ?thesis
        using above_fork_push [OF assms(2), of s1 "(cs_revision s + 1, cs_db s, cs_torn s) # cs_undo s"] Nil d block_start_head [OF torn(2)] assms(3)
        by simp
    next
      case (Cons x v)
      then have "x = (cs_revision s + 1, cs_db s, cs_torn s)" "\<exists>z. cs_undo s = v @ z"
        using committed_prefix [of "(cs_revision s + 1, cs_db s, cs_torn s) # cs_undo s" "\<lambda>(r, _). r \<le> ?n"] unfolding u by auto
      then obtain z where "cs_undo s = v @ z" and "cs_db s' = cs_db s \<and> cs_torn s' = cs_torn s \<and> cs_undo s' = v \<and> \<not> cs_pending_session s'"
        using Cons d by (auto simp: s' undo_session_def)
      then show ?thesis using assms(2) by (intro above_fork_prefix [of t d m s s' z]) auto
    qed
  next
    case (applied skip' db1 db2 l f)
    then have s': "s' = s1" using assms(1) 1 by (simp add: push_on_head_def)
    have u: "cs_undo s' = ?c (int (g_last_irreversible_block_num (dgpo db1)))" "cs_db s' = db2" "\<not> cs_pending_session s'"
      using applied np by (simp_all add: s' commit_sessions_def start_session_def)
    obtain z where "(cs_revision s + 1, cs_db s, cs_torn s) # cs_undo s = cs_undo s' @ z"
      using committed_prefix [of "(cs_revision s + 1, cs_db s, cs_torn s) # cs_undo s"] unfolding u by blast
    from above_fork_push [OF assms(2) this [symmetric]] u apply_block_head [OF applied(3)] assms(3) show ?thesis by simp
  qed (use assms 1 in \<open>auto simp: push_on_head_def undo_session_def start_session_def tear_def above_fork_def\<close>)
qed

lemma push_branch_above_fork:
  "push_branch nd cps skip xs s = (s', r) \<Longrightarrow> above_fork t d m s \<Longrightarrow> \<forall>x \<in> set xs. block_id (node_hashes nd) (item_data x) \<noteq> t \<Longrightarrow>
   above_fork t d m s'"
  by (induction xs arbitrary: s) (auto split: prod.splits sum.splits dest: push_on_head_above_fork)

lemma pushed_blocks_apply:
  "forC (\<lambda>x. push_on_head nd cps skip (item_data x)) xs s = (s', Inr ()) \<Longrightarrow>
   foldR (\<lambda>x. apply_block nd cps skip (item_data x)) xs (cs_db s) = Inr (cs_db s') \<and> cs_torn s' = cs_torn s"
proof (induction xs arbitrary: s)
  case (Cons x xs)
  from Cons.prems obtain s1 where 1: "push_on_head nd cps skip (item_data x) s = (s1, Inr ())"
    and 2: "forC (\<lambda>x. push_on_head nd cps skip (item_data x)) xs s1 = (s', Inr ())"
    by (auto simp: andThen_def split: prod.splits sum.splits)
  from Cons.IH [OF 2] push_on_head_applied [OF 1] show ?case by simp
qed simp


subsection \<open>An example: the node around one block\<close>

definition fresh_node :: chain_state where
  "fresh_node = \<lparr> cs_db = block_chain, cs_undo = [], cs_revision = 0, cs_torn = False, cs_fork = empty_fork_database, cs_log = [],
     cs_pending_tx = [], cs_pending_session = False, cs_popped_tx = [] \<rparr>"

lemma first_block_starts:
  "\<exists>db1. block_start sample_node skip_nothing first_block block_chain = Inr db1 \<and> g_last_irreversible_block_num (dgpo db1) = 0"
proof -
  obtain a t where t: "foldR (apply_transaction sample_node skip_nothing) [current_trx] (block_chain\<lparr>dgpo := (dgpo block_chain)\<lparr>g_current_witness := ''alice''\<rparr>\<rparr>) =
     Inr (block_chain\<lparr>dgpo := (dgpo block_chain)\<lparr>g_current_witness := ''alice''\<rparr>, accounts := a,
       transactions := mk_index [(0, \<lparr> tx_trx_id = t, tx_expiration = 1600000100 \<rparr>)] 1\<rparr>)"
    using first_block_transactions by blast
  have trx: "block_transactions first_block = [current_trx]" by (simp add: first_block_def)
  show ?thesis
    unfolding block_start_def first_block_opens trx bindR_Inr case_prod_conv t
    by (simp add: zero_block_num block_evals update_global_dynamic_data_def get_slot_at_time_def get_slot_time_def BLOCK_INTERVAL_def
        time_plus_def Let_def modify_dgpo_def advance_head_def record_slots_def record_slot_def minus32_def MAX_UNDO_HISTORY_def
        update_signing_witness_def modify_witness_def modify_def modify_ok_def witness_conflict_def update_last_irreversible_block_def
        START_MINER_VOTING_BLOCK_def BLOCKS_PER_DAY_def MAX_WITNESSES_def default_dynamic_global_property_object_def)
qed

lemma first_block_pushes:
  assumes "cs_db s = block_chain" and "cs_log s = []"
  shows "\<exists>s'. push_on_head sample_node [] skip_nothing first_block s = (s', Inr ())"
proof -
  obtain db1 where db1: "block_start sample_node skip_nothing first_block block_chain = Inr db1" "g_last_irreversible_block_num (dgpo db1) = 0"
    using first_block_starts by blast
  obtain db2 where "block_finish sample_node first_block db1 = Inr db2"
    using first_block_runs db1 by (auto simp: apply_block_split)
  with db1 assms show ?thesis
    by (simp add: push_on_head_def run_block_def checkpoint_skip_def start_session_def keep_irreversible_def Let_def commit_sessions_def no_skips)
qed

lemma block_chain_head: "g_head_block_id (dgpo block_chain) = replicate 20 (CHR 0x00)" "previous first_block = replicate 20 (CHR 0x00)"
  by (simp_all add: block_chain_def sample_dgpo_def default_dynamic_global_property_object_def first_block_def sample_block_def)

lemma first_block_body:
  assumes "cs_db s = block_chain" and "cs_log s = []" and "cs_fork s = empty_fork_database"
  shows "\<exists>s1 f. push_block_body sample_node [] skip_nothing first_block s = (s1, Inr False) \<and>
    push_on_head sample_node [] skip_nothing first_block (s\<lparr>cs_fork := f\<rparr>) = (s1, Inr ())"
proof -
  define x where "x = fork_item 0 None (block_num first_block) False (block_id (node_hashes sample_node) first_block) first_block"
  define f where "f = empty_fork_database\<lparr>fdb_next_addr := 1, fdb_index := [x], fdb_head := Some x\<rparr>"
  have f: "fork_push_block (node_hashes sample_node) first_block empty_fork_database = Inr (f, x)"
    by (simp add: fork_push_block_def make_item_def fork_push_item_def link_item_def f_def x_def empty_fork_database_def index_insert_def index_find_def)
  obtain s1 where 1: "push_on_head sample_node [] skip_nothing first_block (s\<lparr>cs_fork := f\<rparr>) = (s1, Inr ())"
    using first_block_pushes [of "s\<lparr>cs_fork := f\<rparr>"] assms by auto
  have "push_block_body sample_node [] skip_nothing first_block s = (s1, Inr False)"
    using f 1 assms by (simp add: push_block_body_def no_skips Let_def push_new_block_def block_chain_head x_def)
  with 1 show ?thesis by blast
qed


definition bad_block :: signed_block where
  "bad_block = first_block\<lparr>transaction_merkle_root := ''X''\<rparr>"

lemma bad_block_fails: "block_start sample_node skip_nothing bad_block db = Inl (Assert_failed ''Merkle check failed'')"
proof -
  have "block_num bad_block = 1" by (simp add: bad_block_def zero_block_num block_chain_head)
  moreover have "calculate_merkle_root (node_hashes sample_node) bad_block = ''KA''"
    by (simp add: calculate_merkle_root_def merkle_loop.simps block_evals bad_block_def current_trx_def sample_trx_def)
  ultimately have "check_merkle_root sample_node bad_block = Inl (Assert_failed ''Merkle check failed'')"
    by (simp add: check_merkle_root_def shared_db_merkle_def bad_block_def)
  then show ?thesis by (simp add: block_start_def open_block_def no_skips)
qed

lemma bad_block_pushes: "push_on_head sample_node [] skip_nothing bad_block s = (s, Inl (Assert_failed ''Merkle check failed''))"
  by (cases s) (simp add: push_on_head_def run_block_def checkpoint_skip_def bad_block_fails tear_def start_session_def undo_session_def)


text \<open>The node after \<open>first_block\<close>, with \<open>bad_block\<close> beside it as the other branch.\<close>

definition base_item :: fork_item where "base_item = fork_item 0 None 0 False [] sample_block"
definition good_item :: fork_item where
  "good_item = fork_item 1 (Some base_item) 1 False (block_id sample_hashes first_block) first_block"
definition bad_item :: fork_item where
  "bad_item = fork_item 2 (Some base_item) 1 False (block_id sample_hashes bad_block) bad_block"

definition forked_node :: "database \<Rightarrow> chain_state" where
  "forked_node db = fresh_node\<lparr>cs_db := db, cs_undo := [(1, block_chain, False)], cs_revision := 1,
     cs_fork := \<lparr> fdb_index = [base_item, good_item], fdb_unlinked_index = [], fdb_head = Some good_item, fdb_max_size = 1024, fdb_next_addr = 3 \<rparr>\<rparr>"

lemma ids_not_zero: "block_id sample_hashes first_block \<noteq> replicate 20 (CHR 0x00)" "block_id sample_hashes bad_block \<noteq> replicate 20 (CHR 0x00)"
proof -
  have "block_num first_block = 1" "block_num bad_block = 1"
    by (simp_all add: bad_block_def zero_block_num block_chain_head)
  then have "num_from_id (block_id sample_hashes first_block) = 1" "num_from_id (block_id sample_hashes bad_block) = 1"
    by (simp_all add: block_id_num)
  moreover have "num_from_id (replicate 20 (CHR 0x00)) = 0" by (simp add: num_from_id_def hash_word_zeros endian_reverse_u32_def)
  ultimately show "block_id sample_hashes first_block \<noteq> replicate 20 (CHR 0x00)" "block_id sample_hashes bad_block \<noteq> replicate 20 (CHR 0x00)"
    by (metis zero_neq_one)+
qed


end
