(* ===== verification/Produce_Block.thy ===== *)
theory Produce_Block
  imports Push_Block
begin

text \<open>
  The production of a block (\<open>database.cpp\<close>, \<open>_generate_block\<close>): the pending transactions are
  applied again on the state of the head, those that apply and fit are put into a block,
  the header is completed and signed, and the block is pushed. The key of the witness, the
  signature and the packed sizes come from the library \<open>fc\<close>: they are the fields of \<open>producer\<close>.
  Sizes are far below 64 bits and are natural numbers.

  The lemmas show that the transactions of the block are pending ones in their order, have
  not expired, fit, and apply one after the other on the head; and what the header says.
\<close>

record producer =
  pr_public_key :: public_key_type
  pr_sign :: "signed_block \<Rightarrow> string"
  pr_pack_size :: "signed_transaction \<Rightarrow> nat"
  pr_header_size :: nat

text \<open>What the witness reports in the header; an access past the arrays of hardforks throws here.\<close>

definition header_votes :: "witness_object \<Rightarrow> hardfork_property_object \<Rightarrow> exn + block_header_extension list" where
  "header_votes w hfp =
     (let reported = (if w_running_version w \<noteq> BLOCKCHAIN_VERSION then [ext_version BLOCKCHAIN_VERSION] else []) in
      if hf_current_hardfork_version hfp < BLOCKCHAIN_HARDFORK_VERSION then
        bindR (hf_at hardfork_versions (hf_last_hardfork hfp + 1)) (\<lambda>v.
        bindR (hf_at hardfork_times (hf_last_hardfork hfp + 1)) (\<lambda>t.
        Inr (if w_hardfork_version_vote w \<noteq> v \<or> w_hardfork_time_vote w \<noteq> t then reported @ [ext_hardfork_version_vote v t] else reported)))
      else if hf_current_hardfork_version hfp = BLOCKCHAIN_HARDFORK_VERSION \<and> w_hardfork_version_vote w > BLOCKCHAIN_HARDFORK_VERSION then
        bindR (hf_at hardfork_versions (hf_last_hardfork hfp)) (\<lambda>v.
        bindR (hf_at hardfork_times (hf_last_hardfork hfp)) (\<lambda>t.
        Inr (reported @ [ext_hardfork_version_vote v t])))
      else Inr reported)"

text \<open>The loop over the pending transactions: the size so far, the transactions taken, the state.\<close>

fun fill_block ::
  "producer \<Rightarrow> node \<Rightarrow> skip_flags \<Rightarrow> time_point_sec \<Rightarrow> nat \<Rightarrow> signed_transaction list \<Rightarrow>
   nat \<times> signed_transaction list \<times> chain_state \<Rightarrow> nat \<times> signed_transaction list \<times> chain_state" where
  "fill_block pr nd skip when maximum [] acc = acc"
| "fill_block pr nd skip when maximum (trx # trxs) (total_size, taken, s) =
     fill_block pr nd skip when maximum trxs
       (if expiration trx < when then (total_size, taken, s)
        else if total_size + pr_pack_size pr trx \<ge> maximum then (total_size, taken, s)
        else
          let s1 = start_session s in
          case apply_transaction nd skip trx (cs_db s1) of
            Inl e \<Rightarrow> (total_size, taken, undo_session (tear s1))
          | Inr db \<Rightarrow> (total_size + pr_pack_size pr trx, taken @ [trx], squash_session (s1\<lparr>cs_db := db\<rparr>)))"

text \<open>The checks before anything changes.\<close>

definition may_produce :: "producer \<Rightarrow> skip_flags \<Rightarrow> time_point_sec \<Rightarrow> account_name \<Rightarrow> database \<Rightarrow> exn + unit" where
  "may_produce pr skip when witness_owner db =
     (let slot_num = get_slot_at_time when db in
      bindR (assertR (slot_num > 0) ''slot_num > 0'') (\<lambda>_.
      bindR (get_scheduled_witness slot_num db) (\<lambda>scheduled_witness.
      bindR (assertR (scheduled_witness = witness_owner) ''scheduled_witness == witness_owner'') (\<lambda>_.
      bindR (get_witness witness_owner db) (\<lambda>(_, witness_obj).
      if skips skip skip_witness_signature then Inr ()
      else assertR (w_signing_key witness_obj = pr_public_key pr) ''witness_obj.signing_key == block_signing_private_key.get_public_key()'')))))"

text \<open>The block around the transactions.\<close>

definition complete_block ::
  "producer \<Rightarrow> node \<Rightarrow> skip_flags \<Rightarrow> time_point_sec \<Rightarrow> account_name \<Rightarrow> signed_transaction list \<Rightarrow> database \<Rightarrow> exn + signed_block" where
  "complete_block pr nd skip when witness_owner trxs db =
     (let unsigned = \<lparr> previous = g_head_block_id (dgpo db), timestamp = when, witness = witness_owner, transaction_merkle_root = [],
        extensions = [], witness_signature = [], block_transactions = trxs \<rparr>;
        rooted = unsigned\<lparr>transaction_merkle_root := calculate_merkle_root (node_hashes nd) unsigned\<rparr> in
      bindR (get_witness witness_owner db) (\<lambda>(_, w).
      bindR (header_votes w (hfo db)) (\<lambda>votes.
      let reporting = rooted\<lparr>extensions := votes\<rparr>;
          b = (if skips skip skip_witness_signature then reporting else reporting\<lparr>witness_signature := pr_sign pr reporting\<rparr>) in
      bindR (if skips skip skip_block_size_check then Inr ()
             else assertR (packed_size (node_hashes nd) b \<le> MAX_BLOCK_SIZE) ''fc::raw::pack_size(pending_block) <= BMCHAIN_MAX_BLOCK_SIZE'') (\<lambda>_.
      Inr b))))"

definition generate_block ::
  "producer \<Rightarrow> node \<Rightarrow> (nat \<times> string) list \<Rightarrow> skip_flags \<Rightarrow> time_point_sec \<Rightarrow> account_name \<Rightarrow> chain_state \<Rightarrow> signed_block chain_run" where
  "generate_block pr nd checkpoints skip when witness_owner s =
     (case may_produce pr skip when witness_owner (cs_db s) of
        Inl e \<Rightarrow> (s, Inl e)
      | Inr _ \<Rightarrow>
          let maximum = g_maximum_block_size (dgpo (cs_db s));
              s1 = (start_session (reset_pending_session s))\<lparr>cs_pending_session := True\<rparr>;
              (_, trxs, s2) = fill_block pr nd skip when maximum (cs_pending_tx s) (pr_header_size pr, [], s1);
              s3 = reset_pending_session s2 in
          case complete_block pr nd skip when witness_owner trxs (cs_db s3) of
            Inl e \<Rightarrow> (s3, Inl e)
          | Inr b \<Rightarrow> andThen (push_block nd checkpoints skip b s3) (\<lambda>_ s4. (s4, Inr b)))"

subsection \<open>What is taken into a block\<close>

lemma fill_block_taken:
  assumes "fill_block pr nd skip when maximum trxs (n, taken, s) = (n', taken', s')" and "cs_undo s \<noteq> []"
  shows "\<exists>xs. taken' = taken @ xs \<and> subseq xs trxs \<and> (\<forall>t \<in> set xs. when \<le> expiration t) \<and>
    n' = n + sum_list (map (pr_pack_size pr) xs) \<and> (xs \<noteq> [] \<longrightarrow> n' < maximum) \<and>
    foldR (apply_transaction nd skip) xs (cs_db s) = Inr (cs_db s') \<and> cs_torn s' = cs_torn s \<and>
    cs_undo s' = cs_undo s \<and> cs_revision s' = cs_revision s \<and> cs_pending_session s' = cs_pending_session s"
  using assms
proof (induction trxs arbitrary: n taken s)
  case Nil
  then show ?case by auto
next
  case (Cons trx trxs)
  let ?s1 = "start_session s"
  consider (left) "fill_block pr nd skip when maximum trxs (n, taken, s) = (n', taken', s')"
    | (thrown) "fill_block pr nd skip when maximum trxs (n, taken, undo_session (tear ?s1)) = (n', taken', s')"
    | (took) db where "when \<le> expiration trx" "n + pr_pack_size pr trx < maximum" "apply_transaction nd skip trx (cs_db s) = Inr db"
        "fill_block pr nd skip when maximum trxs (n + pr_pack_size pr trx, taken @ [trx], squash_session (?s1\<lparr>cs_db := db\<rparr>)) = (n', taken', s')"
    using Cons.prems(1) by (auto simp: Let_def start_session_def split: if_splits sum.splits)
  then show ?case
  proof cases
    case left
    from Cons.IH [OF left Cons.prems(2)] show ?thesis by auto
  next
    case thrown
    have "undo_session (tear ?s1) = s" by (cases s) (simp add: undo_session_def tear_def start_session_def)
    from Cons.IH [OF thrown [unfolded this] Cons.prems(2)] show ?thesis by auto
  next
    case took
    let ?s2 = "squash_session (?s1\<lparr>cs_db := db\<rparr>)"
    have s2: "cs_db ?s2 = db" "cs_undo ?s2 = cs_undo s" "cs_revision ?s2 = cs_revision s" "cs_torn ?s2 = cs_torn s"
        "cs_pending_session ?s2 = cs_pending_session s"
      using Cons.prems(2) by (auto simp: squash_session_def start_session_def split: list.splits)
    from Cons.IH [OF took(4)] Cons.prems(2) s2 obtain xs where xs: "taken' = (taken @ [trx]) @ xs" "subseq xs trxs" "\<forall>t \<in> set xs. when \<le> expiration t"
      "n' = n + pr_pack_size pr trx + sum_list (map (pr_pack_size pr) xs)" "xs \<noteq> [] \<longrightarrow> n' < maximum"
      "foldR (apply_transaction nd skip) xs db = Inr (cs_db s')" "cs_torn s' = cs_torn s" "cs_undo s' = cs_undo s" "cs_revision s' = cs_revision s"
      "cs_pending_session s' = cs_pending_session s"
      by auto
    then have "taken' = taken @ (trx # xs) \<and> subseq (trx # xs) (trx # trxs) \<and> foldR (apply_transaction nd skip) (trx # xs) (cs_db s) = Inr (cs_db s')"
      using took(3) by simp
    moreover have "trx # xs \<noteq> [] \<longrightarrow> n' < maximum" using xs took(2) by (cases xs) auto
    ultimately show ?thesis using xs took(1) by (intro exI [of _ "trx # xs"]) auto
  qed
qed

subsection \<open>The block that is produced\<close>

lemma complete_block_fields:
  assumes "complete_block pr nd skip when w trxs db = Inr b"
  shows "previous b = g_head_block_id (dgpo db)" "timestamp b = when" "witness b = w" "block_transactions b = trxs"
    "transaction_merkle_root b = calculate_merkle_root (node_hashes nd) b"
    "\<not> skips skip skip_block_size_check \<Longrightarrow> packed_size (node_hashes nd) b \<le> MAX_BLOCK_SIZE"
    "\<not> skips skip skip_witness_signature \<Longrightarrow> witness_signature b = pr_sign pr (b\<lparr>witness_signature := []\<rparr>)"
  using assms
  by (auto simp: complete_block_def Let_def res_simps bindR_eq_Inr calculate_merkle_root_def split: if_splits prod.splits)

lemma may_produce_scheduled:
  assumes "may_produce pr skip when w db = Inr ()"
  shows "get_slot_at_time when db > 0" "get_scheduled_witness (get_slot_at_time when db) db = Inr w"
  using assms by (auto simp: may_produce_def Let_def res_simps bindR_eq_Inr)

text \<open>
  C12: a block that the node produces is built for a slot after the head which the schedule
  gives to the witness, on the head of the node without its pending changes. Its
  transactions are pending ones in their order, none has expired at the time of the block,
  and together with the header they stay below the maximum of the chain; each applies after
  the ones before it. The root in the header is the one of these transactions, and the
  packed block has at most \<open>MAX_BLOCK_SIZE\<close> bytes unless that check is skipped.
\<close>

theorem generated_block_fits:
  assumes "generate_block pr nd checkpoints skip when w s = (s', Inr b)" and "db0 = cs_db (reset_pending_session s)"
  shows "get_slot_at_time when (cs_db s) > 0 \<and> get_scheduled_witness (get_slot_at_time when (cs_db s)) (cs_db s) = Inr w \<and>
    previous b = g_head_block_id (dgpo db0) \<and> timestamp b = when \<and> witness b = w \<and>
    transaction_merkle_root b = calculate_merkle_root (node_hashes nd) b \<and>
    subseq (block_transactions b) (cs_pending_tx s) \<and> (\<forall>t \<in> set (block_transactions b). when \<le> expiration t) \<and>
    (block_transactions b \<noteq> [] \<longrightarrow>
       pr_header_size pr + sum_list (map (pr_pack_size pr) (block_transactions b)) < g_maximum_block_size (dgpo (cs_db s))) \<and>
    (\<exists>db. foldR (apply_transaction nd skip) (block_transactions b) db0 = Inr db) \<and>
    (skips skip skip_block_size_check \<or> packed_size (node_hashes nd) b \<le> MAX_BLOCK_SIZE)"
proof -
  define s1 where "s1 = (start_session (reset_pending_session s))\<lparr>cs_pending_session := True\<rparr>"
  obtain n trxs s2 where
    filled: "fill_block pr nd skip when (g_maximum_block_size (dgpo (cs_db s))) (cs_pending_tx s) (pr_header_size pr, [], s1) = (n, trxs, s2)"
    by (metis prod_cases3)
  have may: "may_produce pr skip when w (cs_db s) = Inr ()" and
    complete: "complete_block pr nd skip when w trxs (cs_db (reset_pending_session s2)) = Inr b"
    using assms(1) filled by (auto simp: generate_block_def Let_def andThen_def s1_def split: sum.splits prod.splits)
  have "cs_undo s1 \<noteq> []" by (simp add: s1_def start_session_def)
  from fill_block_taken [OF filled this] obtain db where taken: "subseq trxs (cs_pending_tx s)" "\<forall>t \<in> set trxs. when \<le> expiration t"
    "trxs \<noteq> [] \<longrightarrow> pr_header_size pr + sum_list (map (pr_pack_size pr) trxs) < g_maximum_block_size (dgpo (cs_db s))"
    "foldR (apply_transaction nd skip) trxs (cs_db s1) = Inr db" "cs_undo s2 = cs_undo s1" "cs_pending_session s2"
    by (auto simp: s1_def)
  have "cs_db s1 = db0" "cs_db (reset_pending_session s2) = db0"
    using taken(5,6) assms(2) by (simp_all add: s1_def start_session_def reset_pending_session_def undo_session_def)
  with taken complete_block_fields [OF complete] may_produce_scheduled [OF may] show ?thesis by auto
qed

subsection \<open>An example: the node produces its first block\<close>

definition sample_producer :: producer where
  "sample_producer = \<lparr> pr_public_key = ''KA'', pr_sign = \<lambda>_. ''KA'', pr_pack_size = \<lambda>_. 100, pr_header_size = 200 \<rparr>"

definition ready_node :: chain_state where
  "ready_node = fresh_node\<lparr>cs_pending_tx := [current_trx]\<rparr>"

lemma current_trx_applies: "\<exists>db. apply_transaction sample_node skip_nothing current_trx block_chain = Inr db"
proof -
  have v: "transaction_validate (node_fc sample_node) current_trx = Inr ()" using sample_trx_valid by (simp add: sample_node_def)
  have s: "check_signatures sample_node current_trx block_chain = Inr ()"
    by (simp add: check_signatures_def signed_verify_authority_def verify_authority_def sample_trx_evals current_trx_def
        sample_node_def get_auth_def block_chain_def sample_chain_def get_by_def find_by_def mk_index_def
        default_account_authority_object_def MAX_SIG_CHECK_DEPTH_def)
  have tapos: "check_tapos current_trx block_chain = Inr ()"
    by (simp add: check_tapos_def block_evals current_trx_def sample_trx_def default_block_summary_object_def hash_word_zeros)
  have e: "check_expiration current_trx block_chain = Inr ()"
    by (simp add: check_expiration_def current_trx_def block_evals MAX_TIME_UNTIL_EXPIRATION_def)
  show ?thesis
    by (simp add: apply_transaction_def v s tapos e)
      (simp add: block_evals create_transaction_def emplace_def insert_ok_def current_trx_def sample_trx_def
        apply_operation_def sample_transfer_def transfer_evaluator_def get_account_def get_balance_def eval64 adjust_balance_def
        modify_account_def modify_def modify_ok_def account_conflict_def)
qed

lemma first_block_completes: "complete_block sample_producer sample_node skip_nothing 1600000003 ''alice'' [current_trx] block_chain = Inr first_block"
  by (simp add: complete_block_def Let_def calculate_merkle_root_def merkle_loop.simps block_evals current_trx_def sample_trx_def get_witness_def
      header_votes_def BLOCKCHAIN_VERSION_def BLOCKCHAIN_HARDFORK_VERSION_def hardfork_version_of_def version_num_def
      default_hardfork_property_object_def sample_producer_def MAX_BLOCK_SIZE_def MAX_TRANSACTION_SIZE_def BLOCK_INTERVAL_def)

lemma first_block_generated:
  "\<exists>s'. generate_block sample_producer sample_node [] skip_nothing 1600000003 ''alice'' ready_node = (s', Inr first_block)"
proof -
  have may: "may_produce sample_producer skip_nothing 1600000003 ''alice'' block_chain = Inr ()"
    by (simp add: may_produce_def get_slot_at_time_def get_slot_time_def BLOCK_INTERVAL_def time_plus_def get_scheduled_witness_def Let_def
       get_witness_def block_evals sample_producer_def)
  have rn: "cs_db ready_node = block_chain" "cs_pending_tx ready_node = [current_trx]" "reset_pending_session ready_node = ready_node"
      "g_maximum_block_size (dgpo block_chain) = 1000" "expiration current_trx = 1600000100"
    by (simp_all add: ready_node_def fresh_node_def reset_pending_session_def block_chain_def current_trx_def)
  have header: "pr_header_size sample_producer = 200" by (simp add: sample_producer_def)
  define s1 where "s1 = (start_session ready_node)\<lparr>cs_pending_session := True\<rparr>"
  obtain db where db: "apply_transaction sample_node skip_nothing current_trx block_chain = Inr db"
    using current_trx_applies by blast
  define s2 where "s2 = squash_session ((start_session s1)\<lparr>cs_db := db\<rparr>)"
  have filled: "fill_block sample_producer sample_node skip_nothing 1600000003 1000 [current_trx] (200, [], s1) = (300, [current_trx], s2)"
    by (simp add: rn db s1_def s2_def start_session_def sample_producer_def Let_def)
  have s3: "reset_pending_session s2 = ready_node"
    by (simp add: s2_def s1_def squash_session_def start_session_def reset_pending_session_def undo_session_def ready_node_def fresh_node_def)
  have "\<exists>s4 r. push_block sample_node [] skip_nothing first_block ready_node = (s4, Inr r)"
    using first_block_body [of "clear_pending ready_node"]
    by (auto simp: push_block_def Let_def clear_pending_def reset_pending_session_def ready_node_def fresh_node_def)
  then show ?thesis
    using may filled s3 first_block_completes
    by (auto simp: generate_block_def rn Let_def s1_def [symmetric] header)
qed

theorem generated_block_fits_witness:
  "\<exists>s'. generate_block sample_producer sample_node [] skip_nothing 1600000003 ''alice'' ready_node = (s', Inr first_block) \<and>
     subseq (block_transactions first_block) [current_trx] \<and> witness first_block = ''alice'' \<and>
     transaction_merkle_root first_block = calculate_merkle_root sample_hashes first_block"
proof -
  obtain s' where g: "generate_block sample_producer sample_node [] skip_nothing 1600000003 ''alice'' ready_node = (s', Inr first_block)"
    using first_block_generated by blast
  from generated_block_fits [OF g refl] g show ?thesis by (simp add: ready_node_def sample_node_def)
qed

end
