(* ===== verification/Follow.thy ===== *)
theory Follow
  imports Apply "HOL-Library.Product_Lexorder" "HOL-Library.Multiset"
begin

text \<open>
  The plugin for followers, feeds and reputation (\<open>libraries/plugins/follow\<close>) and the
  interpreter of custom operations it uses (\<open>generic_custom_operation_interpreter.hpp\<close>). The
  containers of the plugin are a record of their own; the plugin reads the chain and
  never writes it. \<open>reblogs\<close> of a feed entry has no initial value in the source: \<open>None\<close> is
  the indeterminate value. Reading past the end of an index is an exception here.

  Shown: the counts of followers are exact, a feed stays within its window, and a vote
  that never counted can still lower a reputation.
\<close>

unbundle bit_operations_syntax

subsection \<open>Objects\<close>

record follow_object =
  fl_follower :: account_name
  fl_following :: account_name
  fl_what :: "16 word"

record feed_object =
  fd_account :: account_name
  fd_reblogged_by :: "account_name list"
  fd_first_reblogged_by :: account_name
  fd_first_reblogged_on :: time_point_sec
  fd_comment :: oid
  fd_reblogs :: "32 word option"
  fd_account_feed_id :: "32 word"

record blog_object =
  bl_account :: account_name
  bl_comment :: oid
  bl_reblogged_on :: time_point_sec
  bl_blog_feed_id :: "32 word"

record blog_author_stats_object =
  ba_blogger :: account_name
  ba_guest :: account_name
  ba_count :: "32 word"

record reputation_object =
  rp_account :: account_name
  rp_reputation :: int

record follow_count_object =
  fn_account :: account_name
  fn_follower_count :: "32 word"
  fn_following_count :: "32 word"

record follow_db =
  follows :: "follow_object generic_index"
  feeds :: "feed_object generic_index"
  blogs :: "blog_object generic_index"
  blog_stats :: "blog_author_stats_object generic_index"
  reputations :: "reputation_object generic_index"
  follow_counts :: "follow_count_object generic_index"

record follow_plugin =
  max_feed_size :: "32 word"
  start_feeds :: time_point_sec

definition follow_conflict :: "follow_object \<Rightarrow> follow_object \<Rightarrow> bool" where
  "follow_conflict v w \<longleftrightarrow> fl_follower v = fl_follower w \<and> fl_following v = fl_following w"

definition feed_conflict :: "feed_object \<Rightarrow> feed_object \<Rightarrow> bool" where
  "feed_conflict v w \<longleftrightarrow> fd_account v = fd_account w \<and> (fd_account_feed_id v = fd_account_feed_id w \<or> fd_comment v = fd_comment w)"

definition blog_conflict :: "blog_object \<Rightarrow> blog_object \<Rightarrow> bool" where
  "blog_conflict v w \<longleftrightarrow> bl_account v = bl_account w \<and> (bl_blog_feed_id v = bl_blog_feed_id w \<or> bl_comment v = bl_comment w)"

definition blog_stats_conflict :: "blog_author_stats_object \<Rightarrow> blog_author_stats_object \<Rightarrow> bool" where
  "blog_stats_conflict v w \<longleftrightarrow> ba_blogger v = ba_blogger w \<and> ba_guest v = ba_guest w \<and> ba_count v = ba_count w"

definition reputation_conflict :: "reputation_object \<Rightarrow> reputation_object \<Rightarrow> bool" where
  "reputation_conflict v w \<longleftrightarrow> rp_account v = rp_account w"

definition follow_count_conflict :: "follow_count_object \<Rightarrow> follow_count_object \<Rightarrow> bool" where
  "follow_count_conflict v w \<longleftrightarrow> fn_account v = fn_account w"

subsection \<open>Operations of the plugin\<close>

record follow_operation =
  fo_follower :: account_name
  fo_following :: account_name
  fo_what :: "string list"

record reblog_operation =
  re_account :: account_name
  re_author :: account_name
  re_permlink :: string

datatype follow_plugin_operation = follow_op follow_operation | reblog_op reblog_operation

definition follow_operation_validate :: "follow_plugin_operation \<Rightarrow> exn + unit" where
  "follow_operation_validate opn =
     (case opn of
        follow_op p \<Rightarrow> assertR (fo_follower p \<noteq> fo_following p) ''You cannot follow yourself''
      | reblog_op p \<Rightarrow> assertR (re_account p \<noteq> re_author p) ''You cannot reblog your own content'')"

definition follow_required_posting :: "follow_plugin_operation \<Rightarrow> account_name" where
  "follow_required_posting opn = (case opn of follow_op p \<Rightarrow> fo_follower p | reblog_op p \<Rightarrow> re_account p)"

subsection \<open>Following\<close>

definition blog_bit :: "16 word" where "blog_bit = push_bit 1 1"
definition ignore_bit :: "16 word" where "ignore_bit = push_bit 2 1"

definition what_bits :: "string list \<Rightarrow> 16 word" where
  "what_bits targets =
     fold (\<lambda>target what. if target = ''blog'' then what OR blog_bit else if target = ''ignore'' then what OR ignore_bit else what) targets 0"

definition follows_blog :: "follow_object \<Rightarrow> bool" where
  "follows_blog v \<longleftrightarrow> fl_what v AND blog_bit \<noteq> 0"

text \<open>One of the two records of an account: \<open>upd\<close> is the new value of the count that changes.\<close>

definition note_following :: "bool \<Rightarrow> bool \<Rightarrow> 32 word \<Rightarrow> 32 word" where
  "note_following was_followed is_following n = n - (if was_followed then 1 else 0) + (if is_following then 1 else 0)"

definition count_following :: "account_name \<Rightarrow> bool \<Rightarrow> bool \<Rightarrow> follow_db \<Rightarrow> exn + follow_db" where
  "count_following a was_followed is_following s =
     (case find_by (\<lambda>c. fn_account c = a) (follow_counts s) of
        None \<Rightarrow>
          bindR (emplace follow_count_conflict (\<lambda>_. Inr \<lparr> fn_account = a, fn_follower_count = 0, fn_following_count = (if is_following then 1 else 0) \<rparr>)
            (follow_counts s)) (\<lambda>(g, _). Inr (s\<lparr>follow_counts := g\<rparr>))
      | Some (i, _) \<Rightarrow>
          bindR (modify follow_count_conflict i (\<lambda>c. Inr (c\<lparr>fn_following_count := note_following was_followed is_following (fn_following_count c)\<rparr>))
            (follow_counts s)) (\<lambda>g. Inr (s\<lparr>follow_counts := g\<rparr>)))"

definition count_follower :: "account_name \<Rightarrow> bool \<Rightarrow> bool \<Rightarrow> follow_db \<Rightarrow> exn + follow_db" where
  "count_follower a was_followed is_following s =
     (case find_by (\<lambda>c. fn_account c = a) (follow_counts s) of
        None \<Rightarrow>
          bindR (emplace follow_count_conflict (\<lambda>_. Inr \<lparr> fn_account = a, fn_follower_count = (if is_following then 1 else 0), fn_following_count = 0 \<rparr>)
            (follow_counts s)) (\<lambda>(g, _). Inr (s\<lparr>follow_counts := g\<rparr>))
      | Some (i, _) \<Rightarrow>
          bindR (modify follow_count_conflict i (\<lambda>c. Inr (c\<lparr>fn_follower_count := note_following was_followed is_following (fn_follower_count c)\<rparr>))
            (follow_counts s)) (\<lambda>g. Inr (s\<lparr>follow_counts := g\<rparr>)))"

definition store_follow :: "follow_operation \<Rightarrow> 16 word \<Rightarrow> follow_db \<Rightarrow> exn + (bool \<times> follow_db)" where
  "store_follow p what s =
     (case find_by (\<lambda>v. fl_follower v = fo_follower p \<and> fl_following v = fo_following p) (follows s) of
        None \<Rightarrow>
          bindR (emplace follow_conflict (\<lambda>_. Inr \<lparr> fl_follower = fo_follower p, fl_following = fo_following p, fl_what = what \<rparr>) (follows s)) (\<lambda>(g, _).
          Inr (False, s\<lparr>follows := g\<rparr>))
      | Some (i, v) \<Rightarrow>
          bindR (modify follow_conflict i (\<lambda>v. Inr (v\<lparr>fl_what := what\<rparr>)) (follows s)) (\<lambda>g.
          Inr (follows_blog v, s\<lparr>follows := g\<rparr>)))"

definition follow_evaluator :: "follow_operation \<Rightarrow> follow_db \<Rightarrow> exn + follow_db" where
  "follow_evaluator p s =
     (let what = what_bits (fo_what p); is_following = (''blog'' \<in> set (fo_what p)) in
      bindR (if what AND ignore_bit \<noteq> 0
             then assertR (what AND blog_bit = 0) ''Cannot follow blog and ignore author at the same time'' else Inr ()) (\<lambda>_.
      bindR (store_follow p what s) (\<lambda>(was_followed, s1).
      bindR (count_following (fo_follower p) was_followed is_following s1)
      (count_follower (fo_following p) was_followed is_following))))"

subsection \<open>Feeds and blogs\<close>

text \<open>
  \<open>lower_bound\<close> on \<open>by_old_feed\<close> and \<open>by_old_blog\<close>: the row with the least account from \<open>a\<close> on
  and the least number; \<open>trim\<close> removes the oldest entries that are too far behind.
\<close>

definition lower_bound_old :: "('v \<Rightarrow> account_name) \<Rightarrow> ('v \<Rightarrow> 32 word) \<Rightarrow> account_name \<Rightarrow> 'v generic_index \<Rightarrow> (oid \<times> 'v) option" where
  "lower_bound_old acct num a g =
     (case sort_key (\<lambda>r. (acct (snd r), num (snd r))) (filter (\<lambda>r. a \<le> acct (snd r)) (indices g)) of [] \<Rightarrow> None | r # _ \<Rightarrow> Some r)"

lemma lower_bound_old_row:
  assumes "lower_bound_old acct num a g = Some r"
  shows "r \<in> set (indices g)" and "\<And>x. x \<in> set (indices g) \<Longrightarrow> a \<le> acct (snd x) \<Longrightarrow> (acct (snd r), num (snd r)) \<le> (acct (snd x), num (snd x))"
proof -
  let ?k = "\<lambda>r. (acct (snd r), num (snd r))" and ?rs = "filter (\<lambda>r. a \<le> acct (snd r)) (indices g)"
  obtain rest where s: "sort_key ?k ?rs = r # rest" using assms by (auto simp: lower_bound_old_def split: list.splits)
  have "set (sort_key ?k ?rs) = set ?rs" by (rule set_sort)
  then have set: "set ?rs = insert r (set rest)" unfolding s by simp
  then show "r \<in> set (indices g)" by auto
  have "sorted (map ?k (sort_key ?k ?rs))" by simp
  then have "\<forall>x \<in> set rest. ?k r \<le> ?k x" unfolding s by simp
  then show "?k r \<le> ?k x" if "x \<in> set (indices g)" "a \<le> acct (snd x)" for x using set that by auto
qed

lemma lower_bound_old_from: "lower_bound_old acct num a g = Some (i, v) \<Longrightarrow> a \<le> acct v"
proof -
  let ?k = "\<lambda>r. (acct (snd r), num (snd r))" and ?rs = "filter (\<lambda>r. a \<le> acct (snd r)) (indices g)"
  assume "lower_bound_old acct num a g = Some (i, v)"
  then obtain rest where s: "sort_key ?k ?rs = (i, v) # rest" by (auto simp: lower_bound_old_def split: list.splits)
  have "(i, v) \<in> set (sort_key ?k ?rs)" by (simp add: s)
  then show ?thesis unfolding set_sort by simp
qed

lemma del_row_shrinks: "(i, v) \<in> set rs \<Longrightarrow> length (del_row i rs) < length rs"
  by (induction rs) (auto split: if_splits)

lemma remove_oldest_shrinks:
  assumes "lower_bound_old acct num a g = Some (i, v)" and "remove i g = Inr g'"
  shows "length (indices g') < length (indices g)"
  using del_row_shrinks [OF lower_bound_old_row(1) [OF assms(1)]] assms(2) by (auto simp: remove_def res_simps)

function trim ::
  "('v \<Rightarrow> account_name) \<Rightarrow> ('v \<Rightarrow> 32 word) \<Rightarrow> 32 word \<Rightarrow> 32 word \<Rightarrow> account_name \<Rightarrow> 'v generic_index \<Rightarrow> exn + 'v generic_index" where
  "trim acct num maximum next_number a g =
     (case lower_bound_old acct num a g of
        None \<Rightarrow> Inl (Other_exception ''end of index'')
      | Some (i, v) \<Rightarrow>
          if acct v = a \<and> next_number - num v > maximum
          then (case remove i g of Inl e \<Rightarrow> Inl e | Inr g' \<Rightarrow> trim acct num maximum next_number a g')
          else Inr g)"
  by pat_completeness auto
termination
  by (relation "measure (\<lambda>(acct, num, m, n, a, g). length (indices g))")
    (auto intro: remove_oldest_shrinks)

declare trim.simps [simp del]

text \<open>The number after the greatest one an account has in an index, which is first in \<open>by_feed\<close> and \<open>by_blog\<close>.\<close>

definition next_number :: "('v \<Rightarrow> account_name) \<Rightarrow> ('v \<Rightarrow> 32 word) \<Rightarrow> account_name \<Rightarrow> 'v generic_index \<Rightarrow> 32 word" where
  "next_number acct num a g =
     (case filter (\<lambda>r. acct (snd r) = a) (indices g) of [] \<Rightarrow> 0 | rs \<Rightarrow> Max (set (map (num \<circ> snd) rs)) + 1)"

definition followers_of :: "account_name \<Rightarrow> follow_db \<Rightarrow> follow_object list" where
  "followers_of a s = sort_key fl_follower (filter (\<lambda>v. fl_following v = a) (map snd (indices (follows s))))"

definition trim_feed :: "follow_plugin \<Rightarrow> 32 word \<Rightarrow> account_name \<Rightarrow> follow_db \<Rightarrow> exn + follow_db" where
  "trim_feed pl number a s = bindR (trim fd_account fd_account_feed_id (max_feed_size pl) number a (feeds s)) (\<lambda>g. Inr (s\<lparr>feeds := g\<rparr>))"

definition feed_reblog :: "follow_plugin \<Rightarrow> account_name \<Rightarrow> oid \<Rightarrow> time_point_sec \<Rightarrow> follow_object \<Rightarrow> follow_db \<Rightarrow> exn + follow_db" where
  "feed_reblog pl account c now itr s =
     (if follows_blog itr then
        let follower = fl_follower itr; number = next_number fd_account fd_account_feed_id follower (feeds s) in
        bindR (case find_by (\<lambda>f. fd_comment f = c \<and> fd_account f = follower) (feeds s) of
            None \<Rightarrow> bindR (emplace feed_conflict (\<lambda>_. Inr \<lparr> fd_account = follower, fd_reblogged_by = [account], fd_first_reblogged_by = account,
                fd_first_reblogged_on = now, fd_comment = c, fd_reblogs = Some 1, fd_account_feed_id = number \<rparr>) (feeds s)) (\<lambda>(g, _). Inr g)
          | Some (i, _) \<Rightarrow> modify feed_conflict i (\<lambda>f. Inr (f\<lparr>fd_reblogged_by := fd_reblogged_by f @ [account],
              fd_reblogs := map_option (\<lambda>n. n + 1) (fd_reblogs f)\<rparr>)) (feeds s)) (\<lambda>g.
        trim_feed pl number follower (s\<lparr>feeds := g\<rparr>))
      else Inr s)"

definition feed_post :: "follow_plugin \<Rightarrow> oid \<Rightarrow> follow_object \<Rightarrow> follow_db \<Rightarrow> exn + follow_db" where
  "feed_post pl c itr s =
     (if follows_blog itr then
        let follower = fl_follower itr; number = next_number fd_account fd_account_feed_id follower (feeds s) in
        if find_by (\<lambda>f. fd_comment f = c \<and> fd_account f = follower) (feeds s) = None then
          bindR (emplace feed_conflict (\<lambda>_. Inr \<lparr> fd_account = follower, fd_reblogged_by = [], fd_first_reblogged_by = [],
            fd_first_reblogged_on = 0, fd_comment = c, fd_reblogs = None, fd_account_feed_id = number \<rparr>) (feeds s)) (\<lambda>(g, _).
          trim_feed pl number follower (s\<lparr>feeds := g\<rparr>))
        else Inr s
      else Inr s)"

definition note_guest :: "account_name \<Rightarrow> account_name \<Rightarrow> follow_db \<Rightarrow> exn + follow_db" where
  "note_guest blogger guest s =
     (case sort_key (\<lambda>r. - uint (ba_count (snd r))) (filter (\<lambda>r. ba_blogger (snd r) = blogger \<and> ba_guest (snd r) = guest) (indices (blog_stats s))) of
        (i, _) # _ \<Rightarrow> bindR (modify blog_stats_conflict i (\<lambda>v. Inr (v\<lparr>ba_count := ba_count v + 1\<rparr>)) (blog_stats s)) (\<lambda>g. Inr (s\<lparr>blog_stats := g\<rparr>))
      | [] \<Rightarrow> bindR (emplace blog_stats_conflict (\<lambda>_. Inr \<lparr> ba_blogger = blogger, ba_guest = guest, ba_count = 1 \<rparr>) (blog_stats s)) (\<lambda>(g, _).
          Inr (s\<lparr>blog_stats := g\<rparr>)))"

definition reblog_evaluator :: "follow_plugin \<Rightarrow> reblog_operation \<Rightarrow> database \<Rightarrow> follow_db \<Rightarrow> exn + follow_db" where
  "reblog_evaluator pl p db s =
     bindR (get_comment (re_author p) (re_permlink p) db) (\<lambda>(ci, c).
     bindR (assertR (c_parent_author c = []) ''Only top level posts can be reblogged'') (\<lambda>_.
     let next_blog_id = next_number bl_account bl_blog_feed_id (re_account p) (blogs s) in
     bindR (assertR (find_by (\<lambda>b. bl_comment b = ci \<and> bl_account b = re_account p) (blogs s) = None) ''Account has already reblogged this post'') (\<lambda>_.
     bindR (emplace blog_conflict (\<lambda>_. Inr \<lparr> bl_account = re_account p, bl_comment = ci, bl_reblogged_on = head_block_time db,
       bl_blog_feed_id = next_blog_id \<rparr>) (blogs s)) (\<lambda>(g, _).
     bindR (note_guest (re_account p) (c_author c) (s\<lparr>blogs := g\<rparr>)) (\<lambda>s1.
     if head_block_time db \<ge> start_feeds pl
     then foldR (feed_reblog pl (re_account p) ci (head_block_time db)) (followers_of (re_account p) s1) s1
     else Inr s1)))))"

subsection \<open>The interpreter of custom operations\<close>

text \<open>
  \<open>apply_operations\<close>, for the operations of one plugin: \<open>posting\<close> is the account whose posting authority
  an operation requires. An exception undoes the session of the plugin.
\<close>

definition apply_operations ::
  "('o \<Rightarrow> exn + unit) \<Rightarrow> ('o \<Rightarrow> account_name) \<Rightarrow> ('o \<Rightarrow> 's \<Rightarrow> exn + 's) \<Rightarrow> 'o list \<Rightarrow> operation \<Rightarrow> 's \<Rightarrow> exn + 's" where
  "apply_operations validate posting evaluator custom_operations outer_o s =
     (case operation_get_required_authorities outer_o ([], [], [], []) of
        (outer_active, outer_owner, outer_posting, outer_other) \<Rightarrow>
          bindR (checkR validate custom_operations) (\<lambda>_.
          let inner_posting = fold (\<lambda>inner_o. flat_insert (posting inner_o)) custom_operations [] in
          bindR (assertR ([] = outer_owner) ''inner_owner == outer_owner'') (\<lambda>_.
          bindR (assertR (inner_posting = outer_posting) ''inner_posting == outer_posting'') (\<lambda>_.
          bindR (assertR ([] = outer_other) ''inner_other == outer_other'') (\<lambda>_.
          foldR evaluator custom_operations s)))))"

text \<open>The decoding of custom operations is that of the library \<open>fc\<close>.\<close>

record 'o custom_codec =
  json_is_list :: "string \<Rightarrow> exn + bool"
  json_list :: "string \<Rightarrow> exn + 'o list"
  json_one :: "string \<Rightarrow> exn + 'o"
  unpack_list :: "string \<Rightarrow> exn + 'o list"
  unpack_one :: "string \<Rightarrow> exn + 'o"

definition json_operations :: "'o custom_codec \<Rightarrow> string \<Rightarrow> exn + 'o list" where
  "json_operations cc j =
     bindR (json_is_list cc j) (\<lambda>is_list. if is_list then json_list cc j else bindR (json_one cc j) (\<lambda>opn. Inr [opn]))"

definition binary_operations :: "'o custom_codec \<Rightarrow> string \<Rightarrow> exn + 'o list" where
  "binary_operations cc d = (case unpack_list cc d of Inr ops \<Rightarrow> Inr ops | Inl _ \<Rightarrow> bindR (unpack_one cc d) (\<lambda>opn. Inr [opn]))"

definition follow_plugin_evaluator :: "follow_plugin \<Rightarrow> database \<Rightarrow> follow_plugin_operation \<Rightarrow> follow_db \<Rightarrow> exn + follow_db" where
  "follow_plugin_evaluator pl db opn s = (case opn of follow_op p \<Rightarrow> follow_evaluator p s | reblog_op p \<Rightarrow> reblog_evaluator pl p db s)"

definition follow_operations :: "follow_plugin \<Rightarrow> follow_plugin_operation list \<Rightarrow> operation \<Rightarrow> database \<Rightarrow> follow_db \<Rightarrow> exn + follow_db" where
  "follow_operations pl ops outer_o db =
     apply_operations follow_operation_validate follow_required_posting (follow_plugin_evaluator pl db) ops outer_o"

definition follow_apply_json :: "follow_plugin \<Rightarrow> follow_plugin_operation custom_codec \<Rightarrow> custom_json_operation \<Rightarrow> database \<Rightarrow> follow_db \<Rightarrow> exn + follow_db" where
  "follow_apply_json pl cc p db s =
     bindR (json_operations cc (cj_json p)) (\<lambda>ops. follow_operations pl ops (custom_json_op p) db s)"

definition follow_apply_binary :: "follow_plugin \<Rightarrow> follow_plugin_operation custom_codec \<Rightarrow> custom_binary_operation \<Rightarrow> database \<Rightarrow> follow_db \<Rightarrow> exn + follow_db" where
  "follow_apply_binary pl cc p db s =
     bindR (binary_operations cc (cb_data p)) (\<lambda>ops. follow_operations pl ops (custom_binary_op p) db s)"

subsection \<open>Before and after an operation\<close>

definition find_comment_vote :: "oid \<Rightarrow> oid \<Rightarrow> database \<Rightarrow> comment_vote_object option" where
  "find_comment_vote c voter db = map_option snd (find_by (\<lambda>v. cvo_comment v = c \<and> cvo_voter v = voter) (comment_votes db))"

definition find_reputation :: "account_name \<Rightarrow> follow_db \<Rightarrow> (oid \<times> reputation_object) option" where
  "find_reputation a s = find_by (\<lambda>r. rp_account r = a) (reputations s)"

definition modify_reputation :: "oid \<Rightarrow> (int \<Rightarrow> exn + int) \<Rightarrow> follow_db \<Rightarrow> exn + follow_db" where
  "modify_reputation i f s =
     bindR (modify reputation_conflict i (\<lambda>r. bindR (f (rp_reputation r)) (\<lambda>n. Inr (r\<lparr>rp_reputation := n\<rparr>))) (reputations s)) (\<lambda>g.
     Inr (s\<lparr>reputations := g\<rparr>))"

text \<open>The contribution of a vote to a reputation, a shift of a signed number.\<close>

definition vote_reputation :: "comment_vote_object \<Rightarrow> int" where
  "vote_reputation cv = cvo_rshares cv div 64"

definition take_back_vote :: "fc_lib \<Rightarrow> vote_operation \<Rightarrow> database \<Rightarrow> follow_db \<Rightarrow> exn + follow_db" where
  "take_back_vote fc p db s =
     bindR (get_comment (vo_author p) (vo_permlink p) db) (\<lambda>(ci, c).
     bindR (calculate_discussion_payout_time c db) (\<lambda>payout.
     if payout = time_max then Inr s else
     bindR (get_account (vo_voter p) db) (\<lambda>(vi, _).
     case find_comment_vote ci vi db of
       None \<Rightarrow> Inr s
     | Some cv \<Rightarrow>
         (case find_reputation (vo_author p) s of
            None \<Rightarrow> Inr s
          | Some (i, _) \<Rightarrow> modify_reputation i (\<lambda>n. safe_sub fc n (vote_reputation cv)) s))))"

definition count_vote :: "fc_lib \<Rightarrow> vote_operation \<Rightarrow> database \<Rightarrow> follow_db \<Rightarrow> exn + follow_db" where
  "count_vote fc p db s =
     bindR (get_comment (vo_author p) (vo_permlink p) db) (\<lambda>(ci, c).
     bindR (calculate_discussion_payout_time c db) (\<lambda>payout.
     if payout = time_max then Inr s else
     bindR (get_account (vo_voter p) db) (\<lambda>(vi, _).
     let voter_rep = map_option (rp_reputation \<circ> snd) (find_reputation (vo_voter p) s) in
     if (\<exists>n \<in> set_option voter_rep. n < 0) then Inr s else
     bindR (of_optionR (Other_exception ''end of index'') (find_comment_vote ci vi db)) (\<lambda>cv.
     case find_reputation (vo_author p) s of
       None \<Rightarrow>
         if cvo_rshares cv < 0 \<and> \<not> (\<exists>n \<in> set_option voter_rep. n > 0) then Inr s
         else bindR (emplace reputation_conflict (\<lambda>_. Inr \<lparr> rp_account = vo_author p, rp_reputation = vote_reputation cv \<rparr>) (reputations s)) (\<lambda>(g, _).
           Inr (s\<lparr>reputations := g\<rparr>))
     | Some (i, r) \<Rightarrow>
         if cvo_rshares cv < 0 \<and> \<not> (\<exists>n \<in> set_option voter_rep. n > rp_reputation r) then Inr s
         else modify_reputation i (\<lambda>n. safe_add fc n (vote_reputation cv)) s))))"

definition forget_comment :: "delete_comment_operation \<Rightarrow> database \<Rightarrow> follow_db \<Rightarrow> exn + follow_db" where
  "forget_comment p db s =
     (case find_comment (dc_author p) (dc_permlink p) db of
        None \<Rightarrow> Inr s
      | Some (ci, c) \<Rightarrow>
          if c_parent_author c \<noteq> [] then Inr s
          else
            bindR (foldR remove (map fst (sort_key (\<lambda>r. fd_account (snd r)) (filter (\<lambda>r. fd_comment (snd r) = ci) (indices (feeds s))))) (feeds s)) (\<lambda>fg.
            bindR (foldR remove (map fst (sort_key (\<lambda>r. bl_account (snd r)) (filter (\<lambda>r. bl_comment (snd r) = ci) (indices (blogs s))))) (blogs s)) (\<lambda>bg.
            Inr (s\<lparr>feeds := fg, blogs := bg\<rparr>))))"

definition blog_post :: "follow_plugin \<Rightarrow> account_name \<Rightarrow> oid \<Rightarrow> follow_db \<Rightarrow> exn + follow_db" where
  "blog_post pl author ci s =
     (let number = next_number bl_account bl_blog_feed_id author (blogs s) in
      if find_by (\<lambda>b. bl_comment b = ci \<and> bl_account b = author) (blogs s) = None then
        bindR (emplace blog_conflict (\<lambda>_. Inr \<lparr> bl_account = author, bl_comment = ci, bl_reblogged_on = 0, bl_blog_feed_id = number \<rparr>) (blogs s)) (\<lambda>(g, _).
        bindR (trim bl_account bl_blog_feed_id (max_feed_size pl) number author g) (\<lambda>g'.
        Inr (s\<lparr>blogs := g'\<rparr>)))
      else Inr s)"

text \<open>The handlers of \<open>comment_operation\<close> and \<open>encrypted_content_operation\<close> have the same text.\<close>

definition new_post :: "follow_plugin \<Rightarrow> comment_operation \<Rightarrow> database \<Rightarrow> follow_db \<Rightarrow> exn + follow_db" where
  "new_post pl p db s =
     (if cm_parent_author p \<noteq> [] then Inr s
      else
        bindR (get_comment (cm_author p) (cm_permlink p) db) (\<lambda>(ci, c).
        if c_created c \<noteq> head_block_time db then Inr s
        else
          bindR (if head_block_time db \<ge> start_feeds pl then foldR (feed_post pl ci) (followers_of (cm_author p) s) s else Inr s)
          (blog_post pl (cm_author p) ci)))"

definition new_encrypted_post :: "follow_plugin \<Rightarrow> encrypted_content_operation \<Rightarrow> database \<Rightarrow> follow_db \<Rightarrow> exn + follow_db" where
  "new_encrypted_post pl p = new_post pl (en_comment p)"

text \<open>\<open>legacy\<close> reads and prints the old form of a follow operation, which has no tag.\<close>

definition legacy_follow ::
  "follow_plugin \<Rightarrow> follow_plugin_operation custom_codec \<Rightarrow> (string \<Rightarrow> (follow_operation \<times> string) option) \<Rightarrow>
   custom_json_operation \<Rightarrow> database \<Rightarrow> follow_db \<Rightarrow> exn + follow_db" where
  "legacy_follow pl cc legacy p db s =
     (if cj_id p = ''follow'' then
        case legacy (cj_json p) of
          None \<Rightarrow> Inr s
        | Some (_, json) \<Rightarrow> follow_apply_json pl cc (p\<lparr>cj_json := json\<rparr>) db s
      else Inr s)"

definition swallow_assert :: "bool \<Rightarrow> follow_db \<Rightarrow> exn + follow_db \<Rightarrow> exn + follow_db" where
  "swallow_assert producing s r =
     (case r of Inl (Assert_failed m) \<Rightarrow> if producing then Inl (Assert_failed m) else Inr s | _ \<Rightarrow> r)"

definition follow_pre_operation :: "fc_lib \<Rightarrow> bool \<Rightarrow> operation \<Rightarrow> database \<Rightarrow> follow_db \<Rightarrow> exn + follow_db" where
  "follow_pre_operation fc producing opn db s =
     swallow_assert producing s
       (case opn of
          vote_op p \<Rightarrow> (case take_back_vote fc p db s of Inl _ \<Rightarrow> Inr s | Inr s' \<Rightarrow> Inr s')
        | delete_comment_op p \<Rightarrow> forget_comment p db s
        | _ \<Rightarrow> Inr s)"

definition follow_post_operation ::
  "follow_plugin \<Rightarrow> follow_plugin_operation custom_codec \<Rightarrow> (string \<Rightarrow> (follow_operation \<times> string) option) \<Rightarrow> fc_lib \<Rightarrow> bool \<Rightarrow>
   operation \<Rightarrow> database \<Rightarrow> follow_db \<Rightarrow> exn + follow_db" where
  "follow_post_operation pl cc legacy fc producing opn db s =
     swallow_assert producing s
       (case opn of
          custom_json_op p \<Rightarrow> legacy_follow pl cc legacy p db s
        | comment_op p \<Rightarrow> new_post pl p db s
        | encrypted_content_op p \<Rightarrow> new_encrypted_post pl p db s
        | vote_op p \<Rightarrow> count_vote fc p db s
        | _ \<Rightarrow> Inr s)"

subsection \<open>Containers with one unique key\<close>

definition good_index :: "('v \<Rightarrow> 'v \<Rightarrow> bool) \<Rightarrow> 'v generic_index \<Rightarrow> bool" where
  "good_index cf g \<longleftrightarrow> wf_index g \<and> unique_rows cf (indices g)"

definition lookup :: "('v \<Rightarrow> 'k) \<Rightarrow> 'k \<Rightarrow> 'v generic_index \<Rightarrow> 'v option" where
  "lookup key k g = map_option snd (find_by (\<lambda>v. key v = k) g)"

lemma good_index_emplace: "symp cf \<Longrightarrow> good_index cf g \<Longrightarrow> emplace cf con g = Inr (g', i) \<Longrightarrow> good_index cf g'"
proof -
  assume *: "symp cf" "good_index cf g" "emplace cf con g = Inr (g', i)"
  then obtain v where "insert_ok cf i v (indices g)" "indices g' = ins_row i v (indices g)" by (elim emplaceD) simp
  with * show ?thesis using wf_index_emplace [OF _ *(3)] unique_rows_ins_row [OF *(1)] by (simp add: good_index_def)
qed

lemma good_index_remove: "good_index cf g \<Longrightarrow> remove i g = Inr g' \<Longrightarrow> good_index cf g'"
proof -
  assume *: "good_index cf g" "remove i g = Inr g'"
  then have "indices g' = del_row i (indices g)" by (auto elim: removeD)
  with * wf_index_remove [OF _ *(2)] show ?thesis
    unfolding good_index_def using unique_rows_subset [OF _ set_del_row_subset] by auto
qed

lemma good_index_modify:
  assumes "symp cf" and "good_index cf g" and "modify cf i m g = Inr g'"
  shows "good_index cf g'"
proof -
  from assms(3) obtain v v' where v': "modify_ok cf i v' (indices g)"
    "g' = g\<lparr>indices := upd_row i v' (indices g), stack := on_modify i v (stack g)\<rparr>" by (elim modifyD)
  have d: "distinct (row_ids (indices g))" and u: "unique_rows cf (indices g)"
    using assms(2) rows_sorted_distinct by (auto simp: good_index_def wf_index_def)
  have "\<not> cf x y" if "(j, x) \<in> set (upd_row i v' (indices g))" "(k, y) \<in> set (upd_row i v' (indices g))" "j \<noteq> k" for j x k y
  proof -
    have "(j, x) = (i, v') \<or> (j, x) \<in> set (indices g) \<and> j \<noteq> i" "(k, y) = (i, v') \<or> (k, y) \<in> set (indices g) \<and> k \<noteq> i"
      using that(1,2) set_upd_row [OF d] by fastforce+
    then show ?thesis
      using that(3) v'(1) unique_rowsD [OF u] assms(1) by (fastforce simp: modify_ok_def list_all_iff dest: sympD)
  qed
  then show ?thesis using assms v' by (auto simp: good_index_def wf_index_modify unique_rows_def)
qed

lemma found_row: "find_by p g = Some (i, v) \<Longrightarrow> (i, v) \<in> set (indices g) \<and> p v"
  unfolding find_by_def by (metis find_Some_iff nth_mem snd_conv)

lemma found_map_of: "wf_index g \<Longrightarrow> find_by p g = Some (i, v) \<Longrightarrow> map_of (indices g) i = Some v"
  using found_row [of p g i v] map_of_row_iff [of "indices g" i v] unfolding wf_index_def by blast

lemma modify_row_iff:
  assumes "wf_index g" and "modify cf i m g = Inr g'" and "map_of (indices g) i = Some v" and "m v = Inr v'"
  shows "(j, x) \<in> set (indices g') \<longleftrightarrow> (if j = i then x = v' else (j, x) \<in> set (indices g))"
proof -
  have up: "indices g' = upd_row i v' (indices g)" using assms(2-4) by (auto elim: modifyD)
  have "(j, x) \<in> set (indices g') \<longleftrightarrow> map_of (indices g') j = Some x" "(j, x) \<in> set (indices g) \<longleftrightarrow> map_of (indices g) j = Some x"
    using wf_index_modify [OF assms(1,2)] assms(1) unfolding wf_index_def by (simp_all add: map_of_row_iff)
  then show ?thesis using assms(3) map_of_Some_row_id [OF assms(3)] by (auto simp: up map_of_upd_row)
qed

locale unique_key =
  fixes cf :: "'v \<Rightarrow> 'v \<Rightarrow> bool" and key :: "'v \<Rightarrow> 'k"
  assumes cf_key: "cf v w \<longleftrightarrow> key v = key w"
begin

lemma cf_symp: "symp cf"
  by (simp add: symp_def cf_key)

lemma lookup_iff:
  assumes "good_index cf g"
  shows "lookup key k g = Some v \<longleftrightarrow> (\<exists>i. (i, v) \<in> set (indices g) \<and> key v = k)"
proof
  assume "lookup key k g = Some v"
  then show "\<exists>i. (i, v) \<in> set (indices g) \<and> key v = k" by (auto simp: lookup_def dest: found_row)
next
  assume "\<exists>i. (i, v) \<in> set (indices g) \<and> key v = k"
  then obtain i where i: "(i, v) \<in> set (indices g)" "key v = k" by blast
  then have "find_by (\<lambda>v. key v = k) g \<noteq> None" unfolding find_by_def find_None_iff by force
  then obtain j w where j: "find_by (\<lambda>v. key v = k) g = Some (j, w)" by auto
  then have w: "(j, w) \<in> set (indices g)" "key w = k" by (auto dest: found_row)
  with i assms have ij: "i = j" unfolding good_index_def unique_rows_def cf_key by fastforce
  have "rows_sorted (indices g)" using assms by (simp add: good_index_def wf_index_def)
  then have "map_of (indices g) i = Some v" "map_of (indices g) j = Some w" using i w by (simp_all add: map_of_row_iff)
  with ij have "v = w" by simp
  with j show "lookup key k g = Some v" by (simp add: lookup_def)
qed

lemma lookup_emplace:
  assumes "good_index cf g" and "emplace cf con g = Inr (g', i)" and "con i = Inr v"
  shows "good_index cf g'" and "lookup key k g' = (if k = key v then Some v else lookup key k g)"
proof -
  show g': "good_index cf g'" using good_index_emplace [OF cf_symp assms(1,2)] .
  have rows: "set (indices g') = insert (i, v) (set (indices g))" using assms(2,3) by (auto elim: emplaceD)
  have fresh: "\<forall>(j, w) \<in> set (indices g). key w \<noteq> key v"
    using assms(2,3) by (elim emplaceD) (auto simp: insert_ok_def list_all_iff cf_key)
  have "lookup key k g' = Some x \<longleftrightarrow> (if k = key v then Some v else lookup key k g) = Some x" for x
    unfolding lookup_iff [OF g'] rows using lookup_iff [OF assms(1), of k x] fresh by auto
  then show "lookup key k g' = (if k = key v then Some v else lookup key k g)" by (metis option.exhaust)
qed

lemma lookup_modify:
  assumes "good_index cf g" and "find_by (\<lambda>v. key v = k0) g = Some (i, v)" and "modify cf i m g = Inr g'" and "m v = Inr v'" and "key v' = k0"
  shows "good_index cf g'" and "lookup key k g' = (if k = k0 then Some v' else lookup key k g)"
proof -
  show g': "good_index cf g'" using good_index_modify [OF cf_symp assms(1,3)] .
  have wf: "wf_index g" "distinct (row_ids (indices g))"
    using assms(1) rows_sorted_distinct by (auto simp: good_index_def wf_index_def)
  have m: "map_of (indices g) i = Some v" and kv: "key v = k0" using found_map_of [OF wf(1) assms(2)] found_row [OF assms(2)] by auto
  note row = modify_row_iff [OF wf(1) assms(3) m assms(4)]
  have alone: "\<forall>(j, w) \<in> set (indices g). key w = k0 \<longrightarrow> j = i"
    using assms(1) kv found_row [OF assms(2)] unfolding good_index_def unique_rows_def cf_key by fastforce
  have row_i: "x = v" if "(i, x) \<in> set (indices g)" for x
    using that m wf(1) by (simp add: wf_index_def map_of_row_iff [symmetric])
  have iv: "(i, v) \<in> set (indices g)" using found_row [OF assms(2)] by simp
  have "lookup key k g' = Some x \<longleftrightarrow> (if k = k0 then Some v' else lookup key k g) = Some x" for x
  proof (cases "k = k0")
    case True
    have "(\<exists>j. (if j = i then x = v' else (j, x) \<in> set (indices g)) \<and> key x = k) \<longleftrightarrow> x = v'"
    proof
      assume "\<exists>j. (if j = i then x = v' else (j, x) \<in> set (indices g)) \<and> key x = k"
      then obtain j where j: "if j = i then x = v' else (j, x) \<in> set (indices g)" "key x = k" by blast
      then have "j = i" using alone True by (cases "j = i") auto
      with j(1) show "x = v'" by simp
    next
      assume "x = v'"
      then have "(if i = i then x = v' else (i, x) \<in> set (indices g)) \<and> key x = k" using assms(5) True by simp
      then show "\<exists>j. (if j = i then x = v' else (j, x) \<in> set (indices g)) \<and> key x = k" by blast
    qed
    with True show ?thesis unfolding lookup_iff [OF g'] row by auto
  next
    case False
    have "(\<exists>j. (if j = i then x = v' else (j, x) \<in> set (indices g)) \<and> key x = k) \<longleftrightarrow> (\<exists>j. (j, x) \<in> set (indices g) \<and> key x = k)"
      using row_i kv assms(5) False by (intro ex_cong1) auto
    with False show ?thesis unfolding lookup_iff [OF g'] row by (simp add: lookup_iff [OF assms(1)])
  qed
  then show "lookup key k g' = (if k = k0 then Some v' else lookup key k g)" by (metis option.exhaust)
qed

end

interpretation counts: unique_key follow_count_conflict fn_account
  by unfold_locales (simp add: follow_count_conflict_def)

interpretation reps: unique_key reputation_conflict rp_account
  by unfold_locales (simp add: reputation_conflict_def)

interpretation pairs: unique_key follow_conflict "\<lambda>v. (fl_follower v, fl_following v)"
  by unfold_locales (auto simp: follow_conflict_def)

subsection \<open>The counts of followers\<close>

definition following_total :: "account_name \<Rightarrow> follow_db \<Rightarrow> int" where
  "following_total a s = row_sum (\<lambda>v. of_bool (fl_follower v = a \<and> follows_blog v)) (indices (follows s))"

definition follower_total :: "account_name \<Rightarrow> follow_db \<Rightarrow> int" where
  "follower_total a s = row_sum (\<lambda>v. of_bool (fl_following v = a \<and> follows_blog v)) (indices (follows s))"

definition count_matches :: "follow_count_object option \<Rightarrow> int \<Rightarrow> int \<Rightarrow> bool" where
  "count_matches l n m \<longleftrightarrow>
     (case l of None \<Rightarrow> n = 0 \<and> m = 0 | Some c \<Rightarrow> fn_following_count c = of_int n \<and> fn_follower_count c = of_int m)"

definition counts_exact :: "follow_db \<Rightarrow> bool" where
  "counts_exact s \<longleftrightarrow> good_index follow_conflict (follows s) \<and> good_index follow_count_conflict (follow_counts s) \<and>
     (\<forall>a. count_matches (lookup fn_account a (follow_counts s)) (following_total a s) (follower_total a s))"

lemma what_bits_blog: "(what_bits targets AND blog_bit \<noteq> 0) \<longleftrightarrow> ''blog'' \<in> set targets"
proof -
  have bits: "blog_bit \<noteq> 0" "ignore_bit AND blog_bit = 0" by (simp_all add: blog_bit_def ignore_bit_def)
  have or: "(w OR x) AND blog_bit = 0 \<longleftrightarrow> w AND blog_bit = 0 \<and> x AND blog_bit = 0" for w x :: "16 word"
    by (simp add: bit.conj_disj_distrib2 or_eq_0_iff)
  have "(fold (\<lambda>target what. if target = ''blog'' then what OR blog_bit else if target = ''ignore'' then what OR ignore_bit else what) targets w
      AND blog_bit \<noteq> 0) \<longleftrightarrow> w AND blog_bit \<noteq> 0 \<or> ''blog'' \<in> set targets" for w
  proof (induction targets arbitrary: w)
    case (Cons t ts)
    show ?case by (cases "t = ''blog''"; cases "t = ''ignore''") (simp_all add: Cons.IH or bits)
  qed simp
  from this [of 0] show ?thesis by (simp add: what_bits_def)
qed

lemma row_sum_nonneg: "\<forall>v. g v \<ge> 0 \<Longrightarrow> row_sum g rs \<ge> 0"
  by (induction rs) auto

lemma row_sum_member: "\<forall>v. g v \<ge> 0 \<Longrightarrow> (i, v) \<in> set rs \<Longrightarrow> g v \<le> row_sum g rs"
proof (induction rs)
  case (Cons r rs)
  have "row_sum g rs \<ge> 0" "g (snd r) \<ge> 0" using Cons.prems(1) row_sum_nonneg by auto
  with Cons show ?case by (cases "r = (i, v)") (auto simp: add_increasing)
qed simp

lemma store_follow_totals:
  assumes "store_follow p what s = Inr (was, s1)" and "good_index follow_conflict (follows s)"
  shows "good_index follow_conflict (follows s1)" and "follow_counts s1 = follow_counts s"
    and "following_total a s1 = following_total a s - of_bool (a = fo_follower p \<and> was) + of_bool (a = fo_follower p \<and> what AND blog_bit \<noteq> 0)"
    and "follower_total a s1 = follower_total a s - of_bool (a = fo_following p \<and> was) + of_bool (a = fo_following p \<and> what AND blog_bit \<noteq> 0)"
    and "was \<Longrightarrow> following_total (fo_follower p) s > 0 \<and> follower_total (fo_following p) s > 0"
proof -
  let ?P = "\<lambda>v. fl_follower v = fo_follower p \<and> fl_following v = fo_following p"
  have wf: "wf_index (follows s)" using assms(2) by (simp add: good_index_def)
  have "good_index follow_conflict (follows s1) \<and> follow_counts s1 = follow_counts s \<and>
    row_sum f (indices (follows s1)) = row_sum f (indices (follows s)) -
      (if was then f \<lparr> fl_follower = fo_follower p, fl_following = fo_following p, fl_what = blog_bit \<rparr> else 0) +
      f \<lparr> fl_follower = fo_follower p, fl_following = fo_following p, fl_what = what \<rparr>"
    if f: "\<And>v w. fl_follower v = fl_follower w \<Longrightarrow> fl_following v = fl_following w \<Longrightarrow> follows_blog v = follows_blog w \<Longrightarrow> f v = f w"
      "\<And>v. \<not> follows_blog v \<Longrightarrow> f v = 0" for f
  proof (cases "find_by ?P (follows s)")
    case None
    with assms(1) obtain g i where e: "emplace follow_conflict (\<lambda>_. Inr \<lparr> fl_follower = fo_follower p, fl_following = fo_following p, fl_what = what \<rparr>) (follows s) = Inr (g, i)"
      and s1: "s1 = s\<lparr>follows := g\<rparr>" "\<not> was" by (auto simp: store_follow_def res_simps)
    from e have "indices g = ins_row i \<lparr> fl_follower = fo_follower p, fl_following = fo_following p, fl_what = what \<rparr> (indices (follows s))"
      by (auto elim: emplaceD)
    with s1 good_index_emplace [OF pairs.cf_symp assms(2) e] show ?thesis by (simp add: row_sum_ins_row)
  next
    case (Some iv)
    then obtain i v where iv: "find_by ?P (follows s) = Some (i, v)" by (cases iv) auto
    with assms(1) obtain g where e: "modify follow_conflict i (\<lambda>v. Inr (v\<lparr>fl_what := what\<rparr>)) (follows s) = Inr g"
      and s1: "s1 = s\<lparr>follows := g\<rparr>" "was = follows_blog v" by (auto simp: store_follow_def res_simps)
    have m: "map_of (indices (follows s)) i = Some v" using found_map_of [OF wf iv] .
    from e m have up: "indices g = upd_row i (v\<lparr>fl_what := what\<rparr>) (indices (follows s))" by (auto elim: modifyD)
    have v: "v\<lparr>fl_what := what\<rparr> = \<lparr> fl_follower = fo_follower p, fl_following = fo_following p, fl_what = what \<rparr>"
      using found_row [OF iv] by (cases v) simp
    have "f v = (if was then f \<lparr> fl_follower = fo_follower p, fl_following = fo_following p, fl_what = blog_bit \<rparr> else 0)"
    proof (cases was)
      case True
      have "f v = f \<lparr> fl_follower = fo_follower p, fl_following = fo_following p, fl_what = blog_bit \<rparr>"
        by (rule f(1)) (use found_row [OF iv] s1(2) True in \<open>simp_all add: follows_blog_def blog_bit_def\<close>)
      with True show ?thesis by simp
    qed (use f(2) s1(2) in simp)
    with s1 good_index_modify [OF pairs.cf_symp assms(2) e] show ?thesis by (simp add: up row_sum_upd_row [OF m] v)
  qed
  note sums = this
  show "good_index follow_conflict (follows s1)" "follow_counts s1 = follow_counts s" using sums [of "\<lambda>_. 0"] by auto
  have "blog_bit AND blog_bit \<noteq> 0" by (simp add: blog_bit_def)
  then show "following_total a s1 = following_total a s - of_bool (a = fo_follower p \<and> was) + of_bool (a = fo_follower p \<and> what AND blog_bit \<noteq> 0)"
    and "follower_total a s1 = follower_total a s - of_bool (a = fo_following p \<and> was) + of_bool (a = fo_following p \<and> what AND blog_bit \<noteq> 0)"
    using sums [of "\<lambda>v. of_bool (fl_follower v = a \<and> follows_blog v)"] sums [of "\<lambda>v. of_bool (fl_following v = a \<and> follows_blog v)"]
    by (auto simp: following_total_def follower_total_def follows_blog_def)
  show "following_total (fo_follower p) s > 0 \<and> follower_total (fo_following p) s > 0" if w: was
  proof -
    obtain i v where v: "find_by ?P (follows s) = Some (i, v)" "follows_blog v"
      using assms(1) w by (auto simp: store_follow_def res_simps split: option.splits)
    have "(1::int) \<le> following_total (fo_follower p) s" "(1::int) \<le> follower_total (fo_following p) s"
      using row_sum_member [of "\<lambda>v. of_bool (fl_follower v = fo_follower p \<and> follows_blog v)" i v "indices (follows s)"]
        row_sum_member [of "\<lambda>v. of_bool (fl_following v = fo_following p \<and> follows_blog v)" i v "indices (follows s)"] found_row [OF v(1)] v(2)
      by (simp_all add: following_total_def follower_total_def)
    then show ?thesis by simp
  qed
qed

text \<open>Both records are changed in the same way: the record of \<open>a\<close> is created or updated.\<close>

lemma counted_lookup:
  assumes "(case find_by (\<lambda>c. fn_account c = a) (follow_counts s) of
      None \<Rightarrow> bindR (emplace follow_count_conflict (\<lambda>_. Inr new) (follow_counts s)) (\<lambda>(g, _). Inr (s\<lparr>follow_counts := g\<rparr>))
    | Some (i, _) \<Rightarrow> bindR (modify follow_count_conflict i (\<lambda>c. Inr (upd c)) (follow_counts s)) (\<lambda>g. Inr (s\<lparr>follow_counts := g\<rparr>))) = Inr s'"
    and "good_index follow_count_conflict (follow_counts s)" and "fn_account new = a" and "\<And>c. fn_account (upd c) = fn_account c"
  shows "good_index follow_count_conflict (follow_counts s')" and "follows s' = follows s"
    and "lookup fn_account b (follow_counts s') =
      (if b = a then Some (case lookup fn_account a (follow_counts s) of None \<Rightarrow> new | Some c \<Rightarrow> upd c) else lookup fn_account b (follow_counts s))"
proof -
  have "good_index follow_count_conflict (follow_counts s') \<and> follows s' = follows s \<and> lookup fn_account b (follow_counts s') =
      (if b = a then Some (case lookup fn_account a (follow_counts s) of None \<Rightarrow> new | Some c \<Rightarrow> upd c) else lookup fn_account b (follow_counts s))"
  proof (cases "find_by (\<lambda>c. fn_account c = a) (follow_counts s)")
    case None
    with assms(1) obtain g i where e: "emplace follow_count_conflict (\<lambda>_. Inr new) (follow_counts s) = Inr (g, i)" "s' = s\<lparr>follow_counts := g\<rparr>"
      by (auto simp: res_simps)
    have "lookup fn_account a (follow_counts s) = None" using None by (simp add: lookup_def)
    with e counts.lookup_emplace [OF assms(2) e(1) refl] assms(3) show ?thesis by simp
  next
    case (Some iv)
    then obtain i v where iv: "find_by (\<lambda>c. fn_account c = a) (follow_counts s) = Some (i, v)" by (cases iv) auto
    with assms(1) obtain g where e: "modify follow_count_conflict i (\<lambda>c. Inr (upd c)) (follow_counts s) = Inr g" "s' = s\<lparr>follow_counts := g\<rparr>"
      by (auto simp: res_simps)
    have a: "fn_account (upd v) = a" using assms(4) found_row [OF iv] by simp
    have "lookup fn_account a (follow_counts s) = Some v" using iv by (simp add: lookup_def)
    with e counts.lookup_modify [OF assms(2) iv e(1) refl a] show ?thesis by simp
  qed
  then show "good_index follow_count_conflict (follow_counts s')" "follows s' = follows s"
    "lookup fn_account b (follow_counts s') =
      (if b = a then Some (case lookup fn_account a (follow_counts s) of None \<Rightarrow> new | Some c \<Rightarrow> upd c) else lookup fn_account b (follow_counts s))"
    by simp_all
qed

lemma following_counted:
  assumes "count_matches l n m" and "was \<Longrightarrow> l \<noteq> None"
  shows "count_matches (Some (case l of None \<Rightarrow> \<lparr> fn_account = a, fn_follower_count = 0, fn_following_count = (if now then 1 else 0) \<rparr>
      | Some c \<Rightarrow> c\<lparr>fn_following_count := note_following was now (fn_following_count c)\<rparr>)) (n - of_bool was + of_bool now) m"
  using assms by (cases l) (auto simp: count_matches_def note_following_def)

lemma follower_counted:
  assumes "count_matches l n m" and "was \<Longrightarrow> l \<noteq> None"
  shows "count_matches (Some (case l of None \<Rightarrow> \<lparr> fn_account = a, fn_follower_count = (if now then 1 else 0), fn_following_count = 0 \<rparr>
      | Some c \<Rightarrow> c\<lparr>fn_follower_count := note_following was now (fn_follower_count c)\<rparr>)) n (m - of_bool was + of_bool now)"
  using assms by (cases l) (auto simp: count_matches_def note_following_def)

text \<open>
  C37: the counts of followers stay exact. For every account the stored numbers of followed
  and following accounts are the numbers of rows with the bit for blogs, taken modulo
  \<open>2^32\<close>, and an account without a record has none; a follow operation that succeeds keeps
  this, whether it starts, repeats, changes or ends following or ignoring.
\<close>

theorem follow_counts_stay_exact:
  assumes "counts_exact s" and "follow_evaluator p s = Inr s'"
  shows "counts_exact s'"
proof -
  let ?what = "what_bits (fo_what p)" and ?now = "''blog'' \<in> set (fo_what p)"
  from assms(2) obtain was s1 s2 where 1: "store_follow p ?what s = Inr (was, s1)"
    and 2: "count_following (fo_follower p) was ?now s1 = Inr s2" and 3: "count_follower (fo_following p) was ?now s2 = Inr s'"
    by (auto simp: follow_evaluator_def Let_def res_simps split: prod.splits)
  have good: "good_index follow_conflict (follows s)" "good_index follow_count_conflict (follow_counts s)"
    using assms(1) by (simp_all add: counts_exact_def)
  note t = store_follow_totals [OF 1 good(1)]
  have g1: "good_index follow_count_conflict (follow_counts s1)" using good(2) t(2) by simp
  have c2: "good_index follow_count_conflict (follow_counts s2)" "follows s2 = follows s1"
    "lookup fn_account b (follow_counts s2) = (if b = fo_follower p then Some (case lookup fn_account (fo_follower p) (follow_counts s1) of
         None \<Rightarrow> \<lparr> fn_account = fo_follower p, fn_follower_count = 0, fn_following_count = (if ?now then 1 else 0) \<rparr>
       | Some c \<Rightarrow> c\<lparr>fn_following_count := note_following was ?now (fn_following_count c)\<rparr>) else lookup fn_account b (follow_counts s1))" for b
    by (rule counted_lookup [OF 2 [unfolded count_following_def] g1]; simp)+
  have c3: "good_index follow_count_conflict (follow_counts s')" "follows s' = follows s2"
    "lookup fn_account b (follow_counts s') = (if b = fo_following p then Some (case lookup fn_account (fo_following p) (follow_counts s2) of
         None \<Rightarrow> \<lparr> fn_account = fo_following p, fn_follower_count = (if ?now then 1 else 0), fn_following_count = 0 \<rparr>
       | Some c \<Rightarrow> c\<lparr>fn_follower_count := note_following was ?now (fn_follower_count c)\<rparr>) else lookup fn_account b (follow_counts s2))" for b
    by (rule counted_lookup [OF 3 [unfolded count_follower_def] c2(1)]; simp)+
  have totals: "following_total a s' = following_total a s - of_bool (a = fo_follower p \<and> was) + of_bool (a = fo_follower p \<and> ?now)"
    "follower_total a s' = follower_total a s - of_bool (a = fo_following p \<and> was) + of_bool (a = fo_following p \<and> ?now)" for a
    using t(3) [of a] t(4) [of a] c2(2) c3(2) by (simp_all add: following_total_def follower_total_def what_bits_blog)
  have "count_matches (lookup fn_account a (follow_counts s')) (following_total a s') (follower_total a s')" for a
  proof -
    let ?l1 = "lookup fn_account a (follow_counts s)" and ?l2 = "lookup fn_account a (follow_counts s2)"
    have inv: "count_matches ?l1 (following_total a s) (follower_total a s)" using assms(1) by (simp add: counts_exact_def)
    have seen: "?l1 \<noteq> None" if "was" "a = fo_follower p \<or> a = fo_following p"
      using inv t(5) that by (cases ?l1) (auto simp: count_matches_def)
    have 2: "count_matches ?l2 (following_total a s') (follower_total a s)"
    proof (cases "a = fo_follower p")
      case True
      then have "following_total a s' = following_total a s - of_bool was + of_bool ?now" by (simp add: totals)
      then show ?thesis using following_counted [OF inv, of was a ?now] seen True by (simp only: c2(3) t(2) if_True simp_thms)
    qed (use inv in \<open>simp add: c2(3) t(2) totals\<close>)
    show ?thesis
    proof (cases "a = fo_following p")
      case True
      have "?l2 \<noteq> None" if was using seen [OF that] True by (simp add: c2(3) t(2))
      moreover have "follower_total a s' = follower_total a s - of_bool was + of_bool ?now" using True by (simp add: totals)
      ultimately show ?thesis using follower_counted [OF 2, of was a ?now] True by (simp only: c3(3) if_True simp_thms)
    qed (use 2 in \<open>simp add: c3(3) totals(2)\<close>)
  qed
  then show ?thesis using t(1) c2 c3 by (simp add: counts_exact_def)
qed

subsection \<open>The window of a feed\<close>

lemma remove_rows: "remove i g = Inr g' \<Longrightarrow> set (indices g') \<subseteq> set (indices g)"
  by (erule removeD) (simp add: set_del_row_subset)

lemma trim_subset: "trim acct num m n a g = Inr g' \<Longrightarrow> set (indices g') \<subseteq> set (indices g)"
proof (induction acct num m n a g rule: trim.induct)
  case (1 acct num m n a g)
  from "1.prems" consider "g' = g"
    | i v g1 where "lower_bound_old acct num a g = Some (i, v)" "acct v = a \<and> n - num v > m" "remove i g = Inr g1" "trim acct num m n a g1 = Inr g'"
    by (subst (asm) trim.simps) (auto split: option.splits prod.splits if_splits sum.splits)
  then show ?case
  proof cases
    case 2
    have "set (indices g1) \<subseteq> set (indices g)" using 2(3) remove_rows by blast
    with "1.IH" [OF 2(1) refl 2(2,3,4)] show ?thesis by blast
  qed simp
qed

lemma trim_good: "trim acct num m n a g = Inr g' \<Longrightarrow> good_index cf g \<Longrightarrow> good_index cf g'"
proof (induction acct num m n a g rule: trim.induct)
  case (1 acct num m n a g)
  from "1.prems"(1) consider "g' = g"
    | i v g1 where "lower_bound_old acct num a g = Some (i, v)" "acct v = a \<and> n - num v > m" "remove i g = Inr g1" "trim acct num m n a g1 = Inr g'"
    by (subst (asm) trim.simps) (auto split: option.splits prod.splits if_splits sum.splits)
  then show ?case
  proof cases
    case 2
    from "1.IH" [OF 2(1) refl 2(2,3,4)] good_index_remove [OF "1.prems"(2) 2(3)] show ?thesis by blast
  qed (use "1.prems" in simp)
qed

lemma word_diff_mono:
  fixes n x y :: "'a::len word"
  assumes "x \<le> y" and "y \<le> n"
  shows "n - y \<le> n - x"
proof -
  have u: "unat x \<le> unat y" "unat y \<le> unat n" using assms by (simp_all add: word_le_nat_alt)
  then have "unat (n - y) = unat n - unat y" "unat (n - x) = unat n - unat x" using assms order.trans by (auto intro!: unat_sub)
  with u show ?thesis by (simp add: word_le_nat_alt)
qed

lemma trim_window:
  assumes "trim acct num m n a g = Inr g'" and "\<forall>(i, v) \<in> set (indices g). acct v = a \<longrightarrow> num v \<le> n"
  shows "\<forall>(i, v) \<in> set (indices g'). acct v = a \<longrightarrow> num v \<le> n \<and> n - num v \<le> m"
  using assms
proof (induction acct num m n a g rule: trim.induct)
  case (1 acct num m n a g)
  from "1.prems"(1) consider i v where "g' = g" "lower_bound_old acct num a g = Some (i, v)" "\<not> (acct v = a \<and> n - num v > m)"
    | i v g1 where "lower_bound_old acct num a g = Some (i, v)" "acct v = a \<and> n - num v > m" "remove i g = Inr g1" "trim acct num m n a g1 = Inr g'"
    by (subst (asm) trim.simps) (auto split: option.splits prod.splits if_splits sum.splits)
  then show ?case
  proof cases
    case 1
    have "num w \<le> n \<and> n - num w \<le> m" if w: "(j, w) \<in> set (indices g)" "acct w = a" for j w
    proof -
      have "(acct v, num v) \<le> (a, num w)" using lower_bound_old_row(2) [OF 1(2) w(1)] w(2) by simp
      moreover have "a \<le> acct v" using lower_bound_old_from [OF 1(2)] .
      ultimately have v: "acct v = a" "num v \<le> num w" by auto
      moreover have "num w \<le> n" using "1.prems"(2) w by auto
      ultimately have "n - num w \<le> n - num v" using word_diff_mono by blast
      with 1(3) v \<open>num w \<le> n\<close> show ?thesis by simp
    qed
    with 1(1) show ?thesis by auto
  next
    case 2
    have "set (indices g1) \<subseteq> set (indices g)" using 2(3) remove_rows by blast
    with "1.prems"(2) have "\<forall>(i, v) \<in> set (indices g1). acct v = a \<longrightarrow> num v \<le> n" by blast
    with "1.IH" [OF 2(1) refl 2(2,3,4)] show ?thesis by blast
  qed
qed

lemma remove_row_iff:
  assumes "wf_index g" and "remove i g = Inr g'"
  shows "(j, x) \<in> set (indices g') \<longleftrightarrow> j \<noteq> i \<and> (j, x) \<in> set (indices g)"
proof -
  have "rows_sorted (indices g)" "rows_sorted (indices g')" using assms wf_index_remove by (auto simp: wf_index_def)
  moreover have "indices g' = del_row i (indices g)" using assms(2) by (auto elim: removeD)
  ultimately show ?thesis by (simp add: map_of_row_iff [symmetric] map_of_del_row)
qed

lemma trim_others:
  assumes "trim acct num m n a g = Inr g'" and "wf_index g"
  shows "\<forall>(i, v) \<in> set (indices g). acct v \<noteq> a \<longrightarrow> (i, v) \<in> set (indices g')"
  using assms
proof (induction acct num m n a g rule: trim.induct)
  case (1 acct num m n a g)
  from "1.prems"(1) consider "g' = g"
    | i v g1 where "lower_bound_old acct num a g = Some (i, v)" "acct v = a \<and> n - num v > m" "remove i g = Inr g1" "trim acct num m n a g1 = Inr g'"
    by (subst (asm) trim.simps) (auto split: option.splits prod.splits if_splits sum.splits)
  then show ?case
  proof cases
    case 2
    have iv: "(i, v) \<in> set (indices g)" using lower_bound_old_row(1) [OF 2(1)] .
    have "(j, x) \<in> set (indices g1)" if "(j, x) \<in> set (indices g)" "acct x \<noteq> a" for j x
    proof -
      have "j \<noteq> i" using that iv 2(2) "1.prems"(2) by (auto simp: wf_index_def map_of_row_iff [symmetric])
      with that show ?thesis using remove_row_iff [OF "1.prems"(2) 2(3)] by simp
    qed
    with "1.IH" [OF 2(1) refl 2(2,3,4) wf_index_remove [OF "1.prems"(2) 2(3)]] show ?thesis by blast
  qed auto
qed

lemma window_card:
  assumes "wf_index g" and "\<forall>(i, v) \<in> set (indices g). acct v = a \<longrightarrow> n - num v \<le> m"
    and "\<And>i v j w. (i, v) \<in> set (indices g) \<Longrightarrow> (j, w) \<in> set (indices g) \<Longrightarrow> acct v = a \<Longrightarrow> acct w = a \<Longrightarrow> num v = num w \<Longrightarrow> i = j"
  shows "card {r \<in> set (indices g). acct (snd r) = a} \<le> unat m + 1"
proof -
  let ?R = "{r \<in> set (indices g). acct (snd r) = a}" and ?f = "\<lambda>r. unat (n - num (snd r))"
  have "inj_on ?f ?R"
  proof (rule inj_onI)
    fix x y assume x: "x \<in> ?R" and y: "y \<in> ?R" and eq: "?f x = ?f y"
    obtain i v j w where xy: "x = (i, v)" "y = (j, w)" by fastforce
    from eq have "n - num v = n - num w" by (simp add: xy word_unat_eq_iff)
    then have "num v = num w" by simp
    with x y have ij: "i = j" by (intro assms(3) [of i v j w]) (simp_all add: xy)
    have "map_of (indices g) i = Some v" "map_of (indices g) j = Some w" using x y assms(1) by (simp_all add: xy wf_index_def map_of_row_iff)
    with ij show "x = y" by (simp add: xy)
  qed
  moreover have "?f ` ?R \<subseteq> {..unat m}" using assms(2) by (auto simp: word_le_nat_alt)
  ultimately have "card ?R \<le> card {..unat m}" using card_inj_on_le by blast
  then show ?thesis by simp
qed

lemma next_number_above:
  assumes "(i, v) \<in> set (indices g)" and "acct v = a" and "\<forall>(j, w) \<in> set (indices g). acct w = a \<longrightarrow> num w \<noteq> -1"
  shows "num v < next_number acct num a g"
proof -
  let ?rs = "filter (\<lambda>r. acct (snd r) = a) (indices g)"
  have in_rs: "(i, v) \<in> set ?rs" using assms(1,2) by simp
  define top where "top = Max (set (map (num \<circ> snd) ?rs))"
  have le: "num v \<le> top" unfolding top_def using in_rs by (intro Max_ge) force+
  have "top \<in> set (map (num \<circ> snd) ?rs)" unfolding top_def using in_rs by (intro Max_in) auto
  then have "top \<noteq> -1" using assms(3) by auto
  then have "1 + top \<noteq> 0" by (metis add.commute add_eq_0_iff)
  then have "unat (1 + top) = Suc (unat top)" by (rule unatSuc)
  then have "top < top + 1" by (simp add: word_less_nat_alt add.commute)
  moreover have "next_number acct num a g = top + 1"
    using in_rs by (cases ?rs) (auto simp: next_number_def top_def)
  ultimately show ?thesis using le by simp
qed

definition feed_rows :: "account_name \<Rightarrow> follow_db \<Rightarrow> (oid \<times> feed_object) set" where
  "feed_rows a s = {r \<in> set (indices (feeds s)). fd_account (snd r) = a}"

definition feeds_bounded :: "follow_plugin \<Rightarrow> follow_db \<Rightarrow> bool" where
  "feeds_bounded pl s \<longleftrightarrow> good_index feed_conflict (feeds s) \<and> (\<forall>a. card (feed_rows a s) \<le> unat (max_feed_size pl) + 1)"

text \<open>The numbers of a feed are not yet used up; after \<open>2^32\<close> entries they wrap around.\<close>

definition numbers_left :: "account_name \<Rightarrow> follow_db \<Rightarrow> bool" where
  "numbers_left a s \<longleftrightarrow> (\<forall>r \<in> feed_rows a s. fd_account_feed_id (snd r) \<noteq> -1)"

lemma feed_symp: "symp feed_conflict"
  by (auto simp: symp_def feed_conflict_def)

lemma feed_trimmed:
  assumes "trim_feed pl n a (s\<lparr>feeds := g\<rparr>) = Inr s'" and "good_index feed_conflict g"
    and "\<forall>(i, f) \<in> set (indices g). fd_account f = a \<longrightarrow> fd_account_feed_id f \<le> n"
    and "\<forall>i f. fd_account f \<noteq> a \<longrightarrow> (i, f) \<in> set (indices g) \<longleftrightarrow> (i, f) \<in> set (indices (feeds s))"
    and "feeds_bounded pl s"
  shows "feeds_bounded pl s' \<and> follows s' = follows s \<and> (\<forall>b. b \<noteq> a \<longrightarrow> feed_rows b s' = feed_rows b s)"
proof -
  obtain g' where t: "trim fd_account fd_account_feed_id (max_feed_size pl) n a g = Inr g'" and s': "s' = s\<lparr>feeds := g'\<rparr>"
    using assms(1) by (auto simp: trim_feed_def res_simps)
  have good: "good_index feed_conflict g'" using trim_good [OF t assms(2)] .
  have wf: "wf_index g" "wf_index g'" using assms(2) good by (simp_all add: good_index_def)
  have others: "feed_rows b s' = feed_rows b s" if "b \<noteq> a" for b
    using trim_others [OF t wf(1)] trim_subset [OF t] assms(4) that by (fastforce simp: feed_rows_def s')
  have "\<forall>(i, f) \<in> set (indices g'). fd_account f = a \<longrightarrow> n - fd_account_feed_id f \<le> max_feed_size pl"
    using trim_window [OF t assms(3)] by auto
  moreover have "i = j" if "(i, v) \<in> set (indices g')" "(j, w) \<in> set (indices g')" "fd_account v = a" "fd_account w = a"
    "fd_account_feed_id v = fd_account_feed_id w" for i v j w
    using good that unfolding good_index_def unique_rows_def feed_conflict_def by fastforce
  ultimately have "card {r \<in> set (indices g'). fd_account (snd r) = a} \<le> unat (max_feed_size pl) + 1"
    by (rule window_card [OF wf(2)])
  then have "card (feed_rows a s') \<le> unat (max_feed_size pl) + 1" by (simp add: feed_rows_def s')
  then have "card (feed_rows b s') \<le> unat (max_feed_size pl) + 1" for b
    using others assms(5) by (cases "b = a") (simp_all add: feeds_bounded_def)
  with good others show ?thesis by (simp add: feeds_bounded_def s')
qed

lemma feed_below:
  assumes "(i, f) \<in> set (indices (feeds s))" and "fd_account f = a" and "numbers_left a s"
  shows "fd_account_feed_id f \<le> next_number fd_account fd_account_feed_id a (feeds s)"
proof -
  have "\<forall>(j, w) \<in> set (indices (feeds s)). fd_account w = a \<longrightarrow> fd_account_feed_id w \<noteq> -1"
    using assms(3) by (auto simp: numbers_left_def feed_rows_def)
  from next_number_above [where num = fd_account_feed_id and acct = fd_account, OF assms(1,2) this] show ?thesis by simp
qed

lemma feed_emplaced:
  assumes "emplace feed_conflict (\<lambda>_. Inr f) (feeds s) = Inr (g, i)" and "feeds_bounded pl s" and "numbers_left (fd_account f) s"
    and "fd_account_feed_id f = next_number fd_account fd_account_feed_id (fd_account f) (feeds s)"
    and "trim_feed pl (fd_account_feed_id f) (fd_account f) (s\<lparr>feeds := g\<rparr>) = Inr s'"
  shows "feeds_bounded pl s' \<and> follows s' = follows s \<and> (\<forall>b. b \<noteq> fd_account f \<longrightarrow> feed_rows b s' = feed_rows b s)"
proof (rule feed_trimmed [OF assms(5) _ _ _ assms(2)])
  have rows: "set (indices g) = insert (i, f) (set (indices (feeds s)))" using assms(1) by (auto elim: emplaceD)
  show "good_index feed_conflict g" using good_index_emplace [OF feed_symp _ assms(1)] assms(2) by (simp add: feeds_bounded_def)
  have "fd_account_feed_id h \<le> fd_account_feed_id f" if "(j, h) \<in> set (indices (feeds s))" "fd_account h = fd_account f" for j h
    using feed_below [OF that assms(3)] assms(4) by simp
  then show "\<forall>(j, h) \<in> set (indices g). fd_account h = fd_account f \<longrightarrow> fd_account_feed_id h \<le> fd_account_feed_id f" using rows by auto
  show "\<forall>j h. fd_account h \<noteq> fd_account f \<longrightarrow> (j, h) \<in> set (indices g) \<longleftrightarrow> (j, h) \<in> set (indices (feeds s))" using rows by auto
qed

lemma feed_post_bounded:
  assumes "feed_post pl c v s = Inr s'" and "feeds_bounded pl s" and "numbers_left (fl_follower v) s"
  shows "feeds_bounded pl s' \<and> follows s' = follows s \<and> (\<forall>b. b \<noteq> fl_follower v \<longrightarrow> feed_rows b s' = feed_rows b s)"
proof -
  let ?f = "\<lparr> fd_account = fl_follower v, fd_reblogged_by = [], fd_first_reblogged_by = [], fd_first_reblogged_on = 0, fd_comment = c,
    fd_reblogs = None, fd_account_feed_id = next_number fd_account fd_account_feed_id (fl_follower v) (feeds s) \<rparr>"
  from assms(1) consider "s' = s"
    | g i where "emplace feed_conflict (\<lambda>_. Inr ?f) (feeds s) = Inr (g, i)" "trim_feed pl (fd_account_feed_id ?f) (fd_account ?f) (s\<lparr>feeds := g\<rparr>) = Inr s'"
    by (auto simp: feed_post_def Let_def res_simps split: if_splits)
  then show ?thesis
  proof cases
    case 2
    from feed_emplaced [OF 2(1) assms(2) _ _ 2(2)] assms(3) show ?thesis by simp
  qed (use assms in simp)
qed

lemma feed_reblog_bounded:
  assumes "feed_reblog pl account c now v s = Inr s'" and "feeds_bounded pl s" and "numbers_left (fl_follower v) s"
  shows "feeds_bounded pl s' \<and> follows s' = follows s \<and> (\<forall>b. b \<noteq> fl_follower v \<longrightarrow> feed_rows b s' = feed_rows b s)"
proof -
  let ?n = "next_number fd_account fd_account_feed_id (fl_follower v) (feeds s)"
  let ?f = "\<lparr> fd_account = fl_follower v, fd_reblogged_by = [account], fd_first_reblogged_by = account, fd_first_reblogged_on = now, fd_comment = c,
    fd_reblogs = Some 1, fd_account_feed_id = ?n \<rparr>"
  let ?m = "\<lambda>f. Inr (f\<lparr>fd_reblogged_by := fd_reblogged_by f @ [account], fd_reblogs := map_option (\<lambda>n. n + 1) (fd_reblogs f)\<rparr>)"
  from assms(1) consider (none) "s' = s"
    | (new) g i where "emplace feed_conflict (\<lambda>_. Inr ?f) (feeds s) = Inr (g, i)" "trim_feed pl (fd_account_feed_id ?f) (fd_account ?f) (s\<lparr>feeds := g\<rparr>) = Inr s'"
    | (again) i h g where "find_by (\<lambda>f. fd_comment f = c \<and> fd_account f = fl_follower v) (feeds s) = Some (i, h)" "modify feed_conflict i ?m (feeds s) = Inr g"
        "trim_feed pl ?n (fl_follower v) (s\<lparr>feeds := g\<rparr>) = Inr s'"
    by (auto simp: feed_reblog_def Let_def res_simps split: if_splits option.splits)
  then show ?thesis
  proof cases
    case new
    from feed_emplaced [OF new(1) assms(2) _ _ new(2)] assms(3) show ?thesis by simp
  next
    case again
    have good: "good_index feed_conflict (feeds s)" "wf_index (feeds s)" using assms(2) by (simp_all add: feeds_bounded_def good_index_def)
    have m: "map_of (indices (feeds s)) i = Some h" and h: "(i, h) \<in> set (indices (feeds s))" "fd_account h = fl_follower v"
      using found_map_of [OF good(2) again(1)] found_row [OF again(1)] by auto
    note row = modify_row_iff [OF good(2) again(2) m refl]
    have below: "fd_account_feed_id f \<le> ?n" if "(j, f) \<in> set (indices (feeds s))" "fd_account f = fl_follower v" for j f
      using feed_below [OF that assms(3)] .
    show ?thesis
    proof (rule feed_trimmed [OF again(3) good_index_modify [OF feed_symp good(1) again(2)] _ _ assms(2)])
      show "\<forall>(j, f) \<in> set (indices g). fd_account f = fl_follower v \<longrightarrow> fd_account_feed_id f \<le> ?n"
        using below h by (auto simp: row split: if_splits)
      have "f = h" if "(i, f) \<in> set (indices (feeds s))" for f
        using that m good(2) by (simp add: wf_index_def map_of_row_iff [symmetric])
      then have "(j, f) \<in> set (indices g) \<longleftrightarrow> (j, f) \<in> set (indices (feeds s))" if "fd_account f \<noteq> fl_follower v" for j f
        using that h(2) unfolding row by (cases "j = i") auto
      then show "\<forall>j f. fd_account f \<noteq> fl_follower v \<longrightarrow> (j, f) \<in> set (indices g) \<longleftrightarrow> (j, f) \<in> set (indices (feeds s))" by blast
    qed
  qed (use assms in simp)
qed

text \<open>A walk over the followers of an account meets each of them once.\<close>

lemma followers_distinct:
  assumes "good_index follow_conflict (follows s)"
  shows "distinct (map fl_follower (followers_of a s))"
proof -
  let ?P = "\<lambda>v. fl_following v = a"
  have d: "distinct (row_ids (indices (follows s)))" using assms rows_sorted_distinct by (auto simp: good_index_def wf_index_def)
  have u: "unique_rows follow_conflict (indices (follows s))" using assms by (simp add: good_index_def)
  have "distinct (map fl_follower (filter ?P (map snd rs)))" if "distinct (row_ids rs)" "unique_rows follow_conflict rs" for rs
    using that
  proof (induction rs)
    case (Cons r rs)
    have "unique_rows follow_conflict rs" using Cons.prems(2) by (auto simp: unique_rows_def)
    then have IH: "distinct (map fl_follower (filter ?P (map snd rs)))" using Cons by simp
    have "fl_follower (snd r) \<noteq> fl_follower w" if "(j, w) \<in> set rs" "?P w" "?P (snd r)" for j w
    proof -
      have "j \<in> fst ` set rs" using that(1) by (force intro: rev_image_eqI)
      then have "fst r \<noteq> j" using Cons.prems(1) by auto
      then have "\<not> follow_conflict (snd r) w" using Cons.prems(2) that(1) by (cases r) (auto dest: unique_rowsD)
      with that show ?thesis by (auto simp: follow_conflict_def)
    qed
    with IH show ?case by force
  qed simp
  from this [OF d u] have "distinct (sort_key id (map fl_follower (filter ?P (map snd (indices (follows s))))))" by simp
  moreover have "mset (map fl_follower (followers_of a s)) = mset (map fl_follower (filter ?P (map snd (indices (follows s)))))"
    by (simp only: followers_of_def mset_map mset_sort)
  ultimately show ?thesis by (metis distinct_sort mset_eq_imp_distinct_iff)
qed

lemma feeds_walk:
  assumes "\<And>v s s'. step v s = Inr s' \<Longrightarrow> feeds_bounded pl s \<Longrightarrow> numbers_left (fl_follower v) s \<Longrightarrow>
      feeds_bounded pl s' \<and> follows s' = follows s \<and> (\<forall>b. b \<noteq> fl_follower v \<longrightarrow> feed_rows b s' = feed_rows b s)"
    and "foldR step vs s = Inr s'" and "feeds_bounded pl s" and "distinct (map fl_follower vs)" and "\<forall>v \<in> set vs. numbers_left (fl_follower v) s"
  shows "feeds_bounded pl s' \<and> follows s' = follows s"
  using assms(2-5)
proof (induction vs arbitrary: s)
  case (Cons v vs)
  from Cons.prems(1) obtain s1 where 1: "step v s = Inr s1" and 2: "foldR step vs s1 = Inr s'" by (auto simp: res_simps)
  from assms(1) [OF 1 Cons.prems(2)] Cons.prems(4)
  have s1: "feeds_bounded pl s1" "follows s1 = follows s" "\<forall>b. b \<noteq> fl_follower v \<longrightarrow> feed_rows b s1 = feed_rows b s" by simp_all
  have "numbers_left (fl_follower w) s1" if "w \<in> set vs" for w
  proof -
    have "fl_follower w \<noteq> fl_follower v" using Cons.prems(3) that by (metis distinct.simps(2) image_eqI list.set_map list.simps(9))
    then show ?thesis using s1(3) Cons.prems(4) that by (simp add: numbers_left_def)
  qed
  with Cons.IH [OF 2 s1(1)] Cons.prems(3) s1(2) show ?case by simp
qed simp

lemma note_guest_frame: "note_guest b c s = Inr s' \<Longrightarrow> feeds s' = feeds s \<and> follows s' = follows s"
  by (auto simp: note_guest_def res_simps split: list.splits)

lemma blog_post_frame: "blog_post pl a c s = Inr s' \<Longrightarrow> feeds s' = feeds s"
  by (auto simp: blog_post_def Let_def res_simps split: if_splits)

lemma removed_rows: "foldR remove is g = Inr g' \<Longrightarrow> good_index cf g \<Longrightarrow> good_index cf g' \<and> set (indices g') \<subseteq> set (indices g)"
proof (induction "is" arbitrary: g)
  case (Cons i ids)
  then obtain g1 where 1: "remove i g = Inr g1" "foldR remove ids g1 = Inr g'" by (auto simp: res_simps)
  from Cons.IH [OF 1(2) good_index_remove [OF Cons.prems(2) 1(1)]] remove_rows [OF 1(1)] show ?case by blast
qed simp

lemma forget_comment_bounded:
  assumes "forget_comment p db s = Inr s'" and "feeds_bounded pl s"
  shows "feeds_bounded pl s'"
proof -
  have "feeds s' = feeds s \<or> (\<exists>ids. foldR remove ids (feeds s) = Inr (feeds s'))"
    using assms(1) by (auto simp: forget_comment_def res_simps split: option.splits if_splits)
  moreover have "good_index feed_conflict (feeds s)" using assms(2) by (simp add: feeds_bounded_def)
  ultimately have "good_index feed_conflict (feeds s') \<and> set (indices (feeds s')) \<subseteq> set (indices (feeds s))"
    using removed_rows by (metis order.refl)
  moreover from this have "feed_rows a s' \<subseteq> feed_rows a s" "finite (feed_rows a s)" for a by (auto simp: feed_rows_def)
  ultimately show ?thesis using assms(2) unfolding feeds_bounded_def by (meson card_mono order.trans)
qed

lemma new_post_bounded:
  assumes "new_post pl p db s = Inr s'" and "feeds_bounded pl s" and "good_index follow_conflict (follows s)" and "\<forall>a. numbers_left a s"
  shows "feeds_bounded pl s'"
proof -
  from assms(1) consider "s' = s" | ci s1 where "s1 = s \<or> foldR (feed_post pl ci) (followers_of (cm_author p) s) s = Inr s1" "blog_post pl (cm_author p) ci s1 = Inr s'"
    by (auto simp: new_post_def res_simps split: if_splits prod.splits)
  then show ?thesis
  proof cases
    case 2
    have "feeds_bounded pl s1"
    proof (rule disjE [OF 2(1)])
      assume walk: "foldR (feed_post pl ci) (followers_of (cm_author p) s) s = Inr s1"
      have "feeds_bounded pl s1 \<and> follows s1 = follows s"
        by (rule feeds_walk [OF _ walk assms(2) followers_distinct [OF assms(3)]]) (rule feed_post_bounded, use assms(4) in simp_all)
      then show ?thesis by simp
    qed (use assms(2) in simp)
    with blog_post_frame [OF 2(2)] show ?thesis by (simp add: feeds_bounded_def feed_rows_def)
  qed (use assms(2) in simp)
qed

lemma reblog_bounded:
  assumes "reblog_evaluator pl p db s = Inr s'" and "feeds_bounded pl s" and "good_index follow_conflict (follows s)" and "\<forall>a. numbers_left a s"
  shows "feeds_bounded pl s'"
proof -
  from assms(1) obtain ci c where "get_comment (re_author p) (re_permlink p) db = Inr (ci, c)"
    by (auto simp: reblog_evaluator_def res_simps)
  with assms(1) obtain g s1 where 1: "note_guest (re_account p) (c_author c) (s\<lparr>blogs := g\<rparr>) = Inr s1"
    and 2: "s' = s1 \<or> foldR (feed_reblog pl (re_account p) ci (head_block_time db)) (followers_of (re_account p) s1) s1 = Inr s'"
    by (auto simp: reblog_evaluator_def Let_def res_simps split: if_splits)
  have f: "feeds s1 = feeds s" "follows s1 = follows s" using note_guest_frame [OF 1] by simp_all
  then have s1: "feeds_bounded pl s1" "good_index follow_conflict (follows s1)" "\<forall>a. numbers_left a s1"
    using assms(2-4) by (simp_all add: feeds_bounded_def numbers_left_def feed_rows_def)
  show ?thesis
  proof (rule disjE [OF 2])
    assume walk: "foldR (feed_reblog pl (re_account p) ci (head_block_time db)) (followers_of (re_account p) s1) s1 = Inr s'"
    have "feeds_bounded pl s' \<and> follows s' = follows s1"
      by (rule feeds_walk [OF _ walk s1(1) followers_distinct [OF s1(2)]]) (rule feed_reblog_bounded, use s1(3) in simp_all)
    then show ?thesis by simp
  qed (use s1(1) in simp)
qed


subsection \<open>Reputation\<close>

text \<open>
  A vote that never counted can lower a reputation. A voter with a negative reputation does
  not affect others: counting the vote changes nothing. But when such a voter votes again,
  the step before the operation takes the old vote off the reputation of the author, and
  the step after it adds nothing.
\<close>

theorem uncounted_vote_taken_back:
  assumes "get_comment (vo_author p) (vo_permlink p) db = Inr (ci, c)" and "calculate_discussion_payout_time c db = Inr t" and "t \<noteq> time_max"
    and "get_account (vo_voter p) db = Inr (vi, a)" and "find_comment_vote ci vi db = Some cv"
    and "find_reputation (vo_author p) s = Some (i, r)" and "safe_sub fc (rp_reputation r) (vote_reputation cv) = Inr n"
    and "find_reputation (vo_voter p) s = Some (j, rv)" and "rp_reputation rv < 0" and "vo_voter p \<noteq> vo_author p"
    and "good_index reputation_conflict (reputations s)"
    and "get_comment (vo_author p) (vo_permlink p) db' = Inr (ci, c')" and "calculate_discussion_payout_time c' db' = Inr t'"
    and "get_account (vo_voter p) db' = Inr (vi, a')"
  shows "\<exists>s1. follow_pre_operation fc producing (vote_op p) db s = Inr s1 \<and>
    follow_post_operation pl cc legacy fc producing (vote_op p) db' s1 = Inr s1 \<and>
    lookup rp_account (vo_author p) (reputations s1) = Some (r\<lparr>rp_reputation := n\<rparr>)"
proof -
  let ?m = "\<lambda>r. bindR (safe_sub fc (rp_reputation r) (vote_reputation cv)) (\<lambda>n. Inr (r\<lparr>rp_reputation := n\<rparr>))"
  have find: "find_by (\<lambda>r. rp_account r = vo_author p) (reputations s) = Some (i, r)" using assms(6) by (simp add: find_reputation_def)
  have wf: "wf_index (reputations s)" and u: "unique_rows reputation_conflict (indices (reputations s))"
    using assms(11) by (simp_all add: good_index_def)
  have m: "map_of (indices (reputations s)) i = Some r" using found_map_of [OF wf find] .
  have r: "?m r = Inr (r\<lparr>rp_reputation := n\<rparr>)" "rp_account (r\<lparr>rp_reputation := n\<rparr>) = vo_author p"
    using assms(7) found_row [OF find] by simp_all
  have "keeps_keys reputation_conflict r (r\<lparr>rp_reputation := n\<rparr>)" by (simp add: keeps_keys_def reputation_conflict_def)
  then have "modify_ok reputation_conflict i (r\<lparr>rp_reputation := n\<rparr>) (indices (reputations s))"
    using unique_rows_upd_row [OF u _ m] wf by (simp add: wf_index_def)
  then obtain g where g: "modify reputation_conflict i ?m (reputations s) = Inr g" using m r(1) by (simp add: modify_def)
  let ?s1 = "s\<lparr>reputations := g\<rparr>"
  have "take_back_vote fc p db s = Inr ?s1"
    using assms(1-6) g by (simp add: take_back_vote_def modify_reputation_def)
  then have pre: "follow_pre_operation fc producing (vote_op p) db s = Inr ?s1" by (simp add: follow_pre_operation_def swallow_assert_def)
  note look = reps.lookup_modify(2) [OF assms(11) find g r]
  have "lookup rp_account (vo_voter p) g = Some rv"
    using look [of "vo_voter p"] assms(8,10) by (simp add: lookup_def find_reputation_def)
  then obtain k where "find_reputation (vo_voter p) ?s1 = Some (k, rv)"
    by (auto simp: lookup_def find_reputation_def)
  then have "count_vote fc p db' ?s1 = Inr ?s1" using assms(9,12-14) by (simp add: count_vote_def Let_def)
  then have "follow_post_operation pl cc legacy fc producing (vote_op p) db' ?s1 = Inr ?s1"
    by (simp add: follow_post_operation_def swallow_assert_def)
  with pre look [of "vo_author p"] show ?thesis by auto
qed

subsection \<open>An example: bob posts, alice follows\<close>

definition empty_follow_db :: follow_db where
  "empty_follow_db = \<lparr> follows = empty_index, feeds = empty_index, blogs = empty_index, blog_stats = empty_index,
     reputations = empty_index, follow_counts = empty_index \<rparr>"

lemma empty_good: "good_index cf empty_index"
  by (simp add: good_index_def wf_index_def unique_rows_def empty_index_def)

theorem follow_counts_stay_exact_witness:
  "\<exists>s'. follow_evaluator \<lparr> fo_follower = ''alice'', fo_following = ''bob'', fo_what = [''blog''] \<rparr> empty_follow_db = Inr s' \<and>
     length (indices (follow_counts s')) = 2 \<and> counts_exact s'"
proof -
  have e: "counts_exact empty_follow_db"
    by (simp add: counts_exact_def empty_good empty_follow_db_def count_matches_def lookup_def find_by_def following_total_def follower_total_def)
      (simp add: empty_index_def)
  obtain s' where r: "follow_evaluator \<lparr> fo_follower = ''alice'', fo_following = ''bob'', fo_what = [''blog''] \<rparr> empty_follow_db = Inr s'"
    "length (indices (follow_counts s')) = 2"
    by (simp add: follow_evaluator_def what_bits_def blog_bit_def ignore_bit_def store_follow_def count_following_def count_follower_def
        empty_follow_db_def empty_index_def find_by_def emplace_def insert_ok_def follow_count_conflict_def)
  from follow_counts_stay_exact [OF e r(1)] r show ?thesis by blast
qed

definition followed_post :: comment_operation where
  "followed_post = \<lparr> cm_parent_author = [], cm_parent_permlink = ''cat'', cm_author = ''bob'', cm_permlink = ''p'', cm_title = [], cm_body = ''b'', cm_json_metadata = [] \<rparr>"

definition post_chain :: database where
  "post_chain = sample_chain\<lparr>comments := mk_index [(0, default_comment_object\<lparr>c_author := ''bob'', c_permlink := ''p'', c_created := head_block_time sample_chain,
     c_cashout_time := 5000\<rparr>)] 1, comment_votes := mk_index [(0, default_comment_vote_object\<lparr>cvo_voter := 0, cvo_comment := 0, cvo_rshares := 640\<rparr>)] 1\<rparr>"

definition followed_db :: follow_db where
  "followed_db = empty_follow_db\<lparr>follows := mk_index [(0, \<lparr> fl_follower = ''alice'', fl_following = ''bob'', fl_what = 2 \<rparr>)] 1,
     reputations := mk_index [(0, \<lparr> rp_account = ''bob'', rp_reputation = 100 \<rparr>), (1, \<lparr> rp_account = ''alice'', rp_reputation = -5 \<rparr>)] 2\<rparr>"

lemma post_chain_comment:
  "get_comment ''bob'' ''p'' post_chain = Inr (0, default_comment_object\<lparr>c_author := ''bob'', c_permlink := ''p'', c_created := head_block_time post_chain,
     c_cashout_time := 5000\<rparr>)"
  by (simp add: post_chain_def get_comment_def get_by_def find_by_def comment_key_def mk_index_def head_block_time_def default_comment_object_def)


definition no_codec :: "'o custom_codec" where
  "no_codec = \<lparr> json_is_list = \<lambda>_. Inr True, json_list = \<lambda>_. Inr [], json_one = \<lambda>_. Inl (Other_exception ''json''),
     unpack_list = \<lambda>_. Inr [], unpack_one = \<lambda>_. Inl (Other_exception ''unpack'') \<rparr>"

definition alice_votes :: vote_operation where
  "alice_votes = \<lparr> vo_voter = ''alice'', vo_author = ''bob'', vo_permlink = ''p'', vo_weight = 100, vo_comment_bmchain = [] \<rparr>"

theorem uncounted_vote_taken_back_witness:
  "\<exists>s1. follow_pre_operation fc64 False (vote_op alice_votes) post_chain followed_db = Inr s1 \<and>
     lookup rp_account ''bob'' (reputations s1) = Some \<lparr> rp_account = ''bob'', rp_reputation = 90 \<rparr>"
proof -
  let ?c = "default_comment_object\<lparr>c_author := ''bob'', c_permlink := ''p'', c_created := head_block_time post_chain, c_cashout_time := 5000\<rparr>"
  let ?cv = "default_comment_vote_object\<lparr>cvo_voter := 0, cvo_comment := 0, cvo_rshares := 640\<rparr>"
  have c: "get_comment (vo_author alice_votes) (vo_permlink alice_votes) post_chain = Inr (0, ?c)"
    by (simp add: alice_votes_def post_chain_comment)
  have t: "calculate_discussion_payout_time ?c post_chain = Inr 5000"
    by (simp add: calculate_discussion_payout_time_def ROOT_POST_PARENT_def default_comment_object_def)
  obtain a where a: "get_account (vo_voter alice_votes) post_chain = Inr (0, a)"
    by (simp add: alice_votes_def post_chain_def sample_chain_def sample_simps get_account_def get_by_def find_by_def)
  have v: "find_comment_vote 0 0 post_chain = Some ?cv"
    by (simp add: find_comment_vote_def post_chain_def find_by_def mk_index_def default_comment_vote_object_def)
  have rs: "find_reputation (vo_author alice_votes) followed_db = Some (0, \<lparr> rp_account = ''bob'', rp_reputation = 100 \<rparr>)"
    "find_reputation (vo_voter alice_votes) followed_db = Some (1, \<lparr> rp_account = ''alice'', rp_reputation = -5 \<rparr>)"
    by (simp_all add: find_reputation_def followed_db_def find_by_def mk_index_def alice_votes_def)
  have n: "safe_sub fc64 (rp_reputation \<lparr> rp_account = ''bob'', rp_reputation = 100 \<rparr>) (vote_reputation ?cv) = Inr 90"
    by (simp add: vote_reputation_def eval64)
  have g: "good_index reputation_conflict (reputations followed_db)"
    by (simp add: good_index_def wf_index_def unique_rows_def followed_db_def mk_index_def reputation_conflict_def)
  have "vo_voter alice_votes \<noteq> vo_author alice_votes" "(5000::nat) \<noteq> time_max" "rp_reputation \<lparr> rp_account = ''alice'', rp_reputation = -5 \<rparr> < 0"
    by (simp_all add: alice_votes_def time_max_def)
  from uncounted_vote_taken_back [OF c t this(2) a v rs(1) n rs(2) this(3,1) g c t a, of False "\<lparr> max_feed_size = 500, start_feeds = 0 \<rparr>" no_codec "\<lambda>_. None"]
  show ?thesis by (auto simp: alice_votes_def)
qed

end
