(* ===== verification/History.thy ===== *)
theory History
  imports Follow
begin

text \<open>
  The accounts an operation concerns (\<open>libraries/app/impacted.cpp\<close>) and the plugin that keeps a
  history of operations for every account (\<open>libraries/plugins/account_history\<close>,
  \<open>history_object.hpp\<close>). The names of types and the packing of operations come from the
  library \<open>fc\<close> and are arguments.

  Shown: an operation that was validated concerns every account whose authority it
  requires; the ranges of tracked accounts are searched correctly when they do not
  intersect; and the history of an account is numbered without gaps.
\<close>

subsection \<open>Virtual operations\<close>

datatype virtual_operation =
    author_reward account_name string asset asset
  | curation_reward account_name asset account_name string
  | comment_reward account_name string asset
  | liquidity_reward account_name asset
  | interest account_name asset
  | fill_convert_request account_name nat asset asset
  | fill_rep_withdraw account_name account_name asset asset
  | shutdown_witness account_name
  | fill_order account_name nat asset account_name nat asset
  | fill_transfer_from_savings account_name account_name asset nat string
  | hardfork nat
  | comment_payout_update account_name string
  | return_vesting_delegation account_name asset
  | comment_benefactor_reward account_name account_name string asset
  | producer_reward account_name asset

datatype any_operation = applied operation | virtual virtual_operation

subsection \<open>Impacted accounts\<close>

definition operation_impacts :: "operation \<Rightarrow> account_name list" where
  "operation_impacts opn =
     (case opn of
        account_create_op p \<Rightarrow> [ac_new_account_name p, ac_creator p]
      | account_create_with_delegation_op p \<Rightarrow> [ad_new_account_name p, ad_creator p]
      | comment_op p \<Rightarrow> cm_author p # (if cm_parent_author p \<noteq> [] then [cm_parent_author p] else [])
      | challenge_authority_op p \<Rightarrow> [ch_challenger p, ch_challenged p]
      | vote_op p \<Rightarrow> [vo_voter p, vo_author p]
      | transfer_op p \<Rightarrow> [tr_from p, tr_to p]
      | escrow_transfer_op p \<Rightarrow> [et_from p, et_to p, et_agent p]
      | escrow_approve_op p \<Rightarrow> [ea_from p, ea_to p, ea_agent p]
      | escrow_dispute_op p \<Rightarrow> [ed_from p, ed_to p, ed_agent p]
      | escrow_release_op p \<Rightarrow> [er_from p, er_to p, er_agent p]
      | transfer_to_vesting_op p \<Rightarrow> tv_from p # (if tv_to p \<noteq> [] \<and> tv_to p \<noteq> tv_from p then [tv_to p] else [])
      | set_withdraw_savings_route_op p \<Rightarrow> [sr_from_account p, sr_to_account p]
      | account_witness_vote_op p \<Rightarrow> [av_account p, av_witness p]
      | account_witness_proxy_op p \<Rightarrow> [ap_account p, ap_proxy p]
      | feed_publish_op p \<Rightarrow> [fp_publisher p]
      | request_account_recovery_op p \<Rightarrow> [rq_account_to_recover p, rq_recovery_account p]
      | recover_account_op p \<Rightarrow> [rc_account_to_recover p]
      | change_recovery_account_op p \<Rightarrow> [cg_account_to_recover p]
      | transfer_to_savings_op p \<Rightarrow> [ts_from p, ts_to p]
      | transfer_from_savings_op p \<Rightarrow> [tf_from p, tf_to p]
      | delegate_vesting_shares_op p \<Rightarrow> [de_delegator p, de_delegatee p]
      | private_message_op p \<Rightarrow> [pm_from p, pm_to p]
      | encrypted_content_op p \<Rightarrow> [cm_author (en_comment p)]
      | content_order_create_op p \<Rightarrow> [oc_owner p]
      | content_order_cancel_op p \<Rightarrow> [ox_owner p]
      | content_order_cancel_by_author_op p \<Rightarrow> [oa_author p]
      | _ \<Rightarrow> required_posting_authorities opn @ required_active_authorities opn @ required_owner_authorities opn)"

definition virtual_impacts :: "virtual_operation \<Rightarrow> account_name list" where
  "virtual_impacts v =
     (case v of
        author_reward author _ _ _ \<Rightarrow> [author]
      | curation_reward curator _ _ _ \<Rightarrow> [curator]
      | liquidity_reward owner _ \<Rightarrow> [owner]
      | interest owner _ \<Rightarrow> [owner]
      | fill_convert_request owner _ _ _ \<Rightarrow> [owner]
      | fill_rep_withdraw from_account to_account _ _ \<Rightarrow> [from_account, to_account]
      | shutdown_witness owner \<Rightarrow> [owner]
      | fill_order current_owner _ _ open_owner _ _ \<Rightarrow> [current_owner, open_owner]
      | fill_transfer_from_savings from_account to_account _ _ _ \<Rightarrow> [from_account, to_account]
      | return_vesting_delegation account _ \<Rightarrow> [account]
      | comment_benefactor_reward benefactor author _ _ \<Rightarrow> [benefactor, author]
      | producer_reward owner _ \<Rightarrow> [owner]
      | _ \<Rightarrow> [])"

definition operation_get_impacted_accounts :: "any_operation \<Rightarrow> account_name list \<Rightarrow> account_name list" where
  "operation_get_impacted_accounts opn result =
     fold flat_insert (case opn of applied p \<Rightarrow> operation_impacts p | virtual v \<Rightarrow> virtual_impacts v) result"

definition transaction_get_impacted_accounts :: "signed_transaction \<Rightarrow> account_name list \<Rightarrow> account_name list" where
  "transaction_get_impacted_accounts trx result = fold (\<lambda>opn. operation_get_impacted_accounts (applied opn)) (operations trx) result"

subsection \<open>Tracked accounts\<close>

text \<open>
  The map of ranges in the order of its keys, the lower ends. \<open>lower_bound_range\<close> is the position of
  \<open>lower_bound\<close>, the length for the end; the search then steps back, unless the range starts
  at the account.
\<close>

definition lower_bound_range :: "(account_name \<times> account_name) list \<Rightarrow> account_name \<Rightarrow> nat" where
  "lower_bound_range ranges item = length (takeWhile (\<lambda>r. fst r < item) ranges)"

definition is_tracked :: "(account_name \<times> account_name) list \<Rightarrow> account_name \<Rightarrow> bool" where
  "is_tracked ranges item \<longleftrightarrow>
     (let i = lower_bound_range ranges item;
          itr = (if i \<noteq> 0 \<and> (i < length ranges \<and> fst (ranges ! i) \<noteq> item \<or> i = length ranges) then i - 1 else i) in
      ranges = [] \<or> itr < length ranges \<and> fst (ranges ! itr) \<le> item \<and> item \<le> snd (ranges ! itr))"

subsection \<open>The history\<close>

record operation_notification =
  no_trx_id :: string
  no_block :: nat
  no_trx_in_block :: nat
  no_op_in_trx :: nat
  no_virtual_op :: nat
  no_op :: any_operation

record operation_object =
  oo_trx_id :: string
  oo_block :: nat
  oo_trx_in_block :: nat
  oo_op_in_trx :: nat
  oo_virtual_op :: nat
  oo_timestamp :: time_point_sec
  oo_serialized_op :: string

record account_history_object =
  ah_account :: account_name
  ah_sequence :: "32 word"
  ah_op :: oid

definition account_history_conflict :: "account_history_object \<Rightarrow> account_history_object \<Rightarrow> bool" where
  "account_history_conflict v w \<longleftrightarrow> ah_account v = ah_account w \<and> ah_sequence v = ah_sequence w"

record history_db =
  history_operations :: "operation_object generic_index"
  account_histories :: "account_history_object generic_index"

record account_history_plugin =
  tracked_accounts :: "(account_name \<times> account_name) list"
  filter_content :: bool
  blacklist :: bool
  op_list :: "string list"

text \<open>The object of the operation is created for the first account only; later accounts refer to it.\<close>

definition record_operation ::
  "(any_operation \<Rightarrow> string) \<Rightarrow> time_point_sec \<Rightarrow> operation_notification \<Rightarrow> oid option \<Rightarrow> history_db \<Rightarrow> exn + (oid \<times> history_db)" where
  "record_operation pack now note new_obj h =
     (case new_obj of
        Some i \<Rightarrow> Inr (i, h)
      | None \<Rightarrow>
          bindR (emplace no_conflict (\<lambda>_. Inr \<lparr> oo_trx_id = no_trx_id note, oo_block = no_block note, oo_trx_in_block = no_trx_in_block note,
            oo_op_in_trx = no_op_in_trx note, oo_virtual_op = no_virtual_op note, oo_timestamp = now, oo_serialized_op = pack (no_op note) \<rparr>)
            (history_operations h)) (\<lambda>(g, i). Inr (i, h\<lparr>history_operations := g\<rparr>)))"

definition operation_visitor ::
  "(any_operation \<Rightarrow> string) \<Rightarrow> time_point_sec \<Rightarrow> operation_notification \<Rightarrow> account_name \<Rightarrow> oid option \<times> history_db \<Rightarrow> exn + (oid option \<times> history_db)" where
  "operation_visitor pack now note item st =
     bindR (record_operation pack now note (fst st) (snd st)) (\<lambda>(i, h).
     let sequence = next_number ah_account ah_sequence item (account_histories h) in
     bindR (emplace account_history_conflict (\<lambda>_. Inr \<lparr> ah_account = item, ah_sequence = sequence, ah_op = i \<rparr>) (account_histories h)) (\<lambda>(g, _).
     Inr (Some i, h\<lparr>account_histories := g\<rparr>)))"

definition passes_filter :: "account_history_plugin \<Rightarrow> (any_operation \<Rightarrow> string) \<Rightarrow> any_operation \<Rightarrow> bool" where
  "passes_filter pl typename opn \<longleftrightarrow> \<not> filter_content pl \<or> (if typename opn \<in> set (op_list pl) then \<not> blacklist pl else blacklist pl)"

definition on_operation ::
  "account_history_plugin \<Rightarrow> (any_operation \<Rightarrow> string) \<Rightarrow> (any_operation \<Rightarrow> string) \<Rightarrow> time_point_sec \<Rightarrow> operation_notification \<Rightarrow> history_db \<Rightarrow> exn + history_db" where
  "on_operation pl typename pack now note h =
     bindR (foldR (\<lambda>item st. if is_tracked (tracked_accounts pl) item \<and> passes_filter pl typename (no_op note)
                             then operation_visitor pack now note item st else Inr st)
              (operation_get_impacted_accounts (no_op note) []) (None, h)) (\<lambda>st.
     Inr (snd st))"

subsection \<open>Properties\<close>

lemma set_flat_inserts: "set (fold flat_insert xs acc) = set xs \<union> set acc"
  by (induction xs arbitrary: acc) (auto simp: flat_insert_def set_insort_insert)

lemma impacted_set: "set (operation_get_impacted_accounts (applied opn) []) = set (operation_impacts opn)"
  by (simp add: operation_get_impacted_accounts_def set_flat_inserts)

text \<open>
  The history misses no signer. Every account whose posting, active or owner authority an
  operation requires is among the accounts the operation concerns, if the operation was
  validated; the validation is needed for escrows, where the signer is named by a field of
  its own.
\<close>

theorem impacted_covers_signers:
  assumes "operation_validate fc opn = Inr ()"
    and "a \<in> set (required_posting_authorities opn) \<union> set (required_active_authorities opn) \<union> set (required_owner_authorities opn)"
  shows "a \<in> set (operation_get_impacted_accounts (applied opn) [])"
  unfolding impacted_set using assms
  by (cases opn) (auto simp: operation_impacts_def required_posting_authorities_def required_active_authorities_def required_owner_authorities_def
      operation_validate_def escrow_approve_validate_def escrow_dispute_validate_def escrow_release_validate_def res_simps split: if_splits)

text \<open>
  The search for the range of an account is right. When the ranges are sorted and do not
  intersect, an account is tracked exactly if some range contains it, or there are no ranges.
\<close>

theorem is_tracked_iff:
  assumes "\<forall>i j. i < j \<longrightarrow> j < length ranges \<longrightarrow> snd (ranges ! i) < fst (ranges ! j)" and "\<forall>r \<in> set ranges. fst r \<le> snd r"
  shows "is_tracked ranges item \<longleftrightarrow> ranges = [] \<or> (\<exists>r \<in> set ranges. fst r \<le> item \<and> item \<le> snd r)"
proof -
  define i where "i = lower_bound_range ranges item"
  have below: "fst (ranges ! j) < item" if "j < i" for j
    using that nth_mem [of j "takeWhile (\<lambda>r. fst r < item) ranges"] set_takeWhileD [of _ "\<lambda>r. fst r < item" ranges]
    unfolding i_def lower_bound_range_def by (metis takeWhile_nth)
  have len: "i \<le> length ranges" unfolding i_def lower_bound_range_def by (rule length_takeWhile_le)
  have at: "\<not> fst (ranges ! i) < item" if "i < length ranges"
    using that nth_length_takeWhile [of "\<lambda>r. fst r < item" ranges] unfolding i_def lower_bound_range_def by simp
  define k where "k = (if i \<noteq> 0 \<and> (i < length ranges \<and> fst (ranges ! i) \<noteq> item \<or> i = length ranges) then i - 1 else i)"
  have only: "j = k" if j: "j < length ranges" "fst (ranges ! j) \<le> item" "item \<le> snd (ranges ! j)" for j
  proof -
    have "j \<le> i"
    proof (rule ccontr)
      assume "\<not> j \<le> i"
      then have "snd (ranges ! i) < fst (ranges ! j)" "i < length ranges" using assms(1) j(1) by auto
      then have "fst (ranges ! i) < item" using assms(2) j(2) by (meson le_less_trans less_le_trans nth_mem)
      with at \<open>i < length ranges\<close> show False by simp
    qed
    moreover have "j = i \<longleftrightarrow> i < length ranges \<and> fst (ranges ! i) = item"
    proof
      assume "j = i"
      then show "i < length ranges \<and> fst (ranges ! i) = item" using j at by auto
    next
      assume start: "i < length ranges \<and> fst (ranges ! i) = item"
      show "j = i"
      proof (rule ccontr)
        assume "j \<noteq> i"
        then have "snd (ranges ! j) < item" using assms(1) start \<open>j \<le> i\<close> by (metis le_neq_implies_less)
        with j(3) show False by simp
      qed
    qed
    moreover have "\<not> j + 1 < i"
    proof
      assume "j + 1 < i"
      then have "snd (ranges ! j) < fst (ranges ! (i - 1))" "fst (ranges ! (i - 1)) < item"
        using assms(1) [rule_format, of j "i - 1"] below [of "i - 1"] len by simp_all
      with j(3) show False by simp
    qed
    ultimately show ?thesis unfolding k_def using len by auto
  qed
  have "is_tracked ranges item \<longleftrightarrow> ranges = [] \<or> k < length ranges \<and> fst (ranges ! k) \<le> item \<and> item \<le> snd (ranges ! k)"
    by (simp add: is_tracked_def Let_def k_def i_def)
  also have "\<dots> \<longleftrightarrow> ranges = [] \<or> (\<exists>r \<in> set ranges. fst r \<le> item \<and> item \<le> snd r)"
  proof -
    have "\<exists>r \<in> set ranges. fst r \<le> item \<and> item \<le> snd r" if "k < length ranges" "fst (ranges ! k) \<le> item" "item \<le> snd (ranges ! k)"
      using that nth_mem by blast
    moreover have "k < length ranges \<and> fst (ranges ! k) \<le> item \<and> item \<le> snd (ranges ! k)" if "r \<in> set ranges" "fst r \<le> item" "item \<le> snd r" for r
      using that only by (metis in_set_conv_nth)
    ultimately show ?thesis by blast
  qed
  finally show ?thesis .
qed

subsection \<open>The numbers of a history\<close>

definition history_rows :: "account_name \<Rightarrow> history_db \<Rightarrow> (oid \<times> account_history_object) set" where
  "history_rows a h = {r \<in> set (indices (account_histories h)). ah_account (snd r) = a}"

definition history_ok :: "history_db \<Rightarrow> bool" where
  "history_ok h \<longleftrightarrow> good_index account_history_conflict (account_histories h) \<and> wf_index (history_operations h) \<and>
     (\<forall>r \<in> set (indices (account_histories h)). map_of (indices (history_operations h)) (ah_op (snd r)) \<noteq> None) \<and>
     (\<forall>a. (\<lambda>r. unat (ah_sequence (snd r))) ` history_rows a h = {..<card (history_rows a h)})"

lemma history_symp: "symp account_history_conflict"
  by (auto simp: symp_def account_history_conflict_def)

lemma history_finite [simp]: "finite (history_rows a h)"
  by (simp add: history_rows_def)

text \<open>The next number of an account is the number of its entries, unless all numbers are used.\<close>

lemma next_sequence:
  assumes "(\<lambda>r. unat (ah_sequence (snd r))) ` history_rows a h = {..<card (history_rows a h)}"
  shows "next_number ah_account ah_sequence a (account_histories h) = of_nat (card (history_rows a h))" and "card (history_rows a h) \<le> 2 ^ 32"
proof -
  let ?R = "history_rows a h" and ?rs = "filter (\<lambda>r. ah_account (snd r) = a) (indices (account_histories h))"
  have R: "set ?rs = ?R" by (auto simp: history_rows_def)
  have seqs: "unat (ah_sequence (snd r)) < card ?R" if "r \<in> ?R" for r using assms that by blast
  show "card ?R \<le> 2 ^ 32"
  proof (cases "card ?R")
    case (Suc n)
    then have "n \<in> (\<lambda>r. unat (ah_sequence (snd r))) ` ?R" using assms by simp
    then obtain r :: "oid \<times> account_history_object" where "n = unat (ah_sequence (snd r))" by (elim imageE)
    then have "n < 2 ^ 32" using unsigned_less [of "ah_sequence (snd r)"] by simp
    with Suc show ?thesis by simp
  qed simp
  show "next_number ah_account ah_sequence a (account_histories h) = of_nat (card ?R)"
  proof (cases "?rs = []")
    case True
    then have "?R = {}" using R by simp
    with True show ?thesis by (simp add: next_number_def)
  next
    case False
    define top where "top = Max (set (map (ah_sequence \<circ> snd) ?rs))"
    have "?R \<noteq> {}" using False R by (metis set_empty)
    then obtain n where n: "card ?R = Suc n" by (metis card_gt_0_iff gr0_implies_Suc history_finite)
    then have "n \<in> (\<lambda>r. unat (ah_sequence (snd r))) ` ?R" using assms by simp
    then obtain r where r: "r \<in> ?R" "unat (ah_sequence (snd r)) = n" by (elim imageE) simp
    have "ah_sequence (snd r) \<in> set (map (ah_sequence \<circ> snd) ?rs)" using r(1) R by force
    then have "ah_sequence (snd r) \<le> top" unfolding top_def by (intro Max_ge) simp_all
    moreover have "top \<le> ah_sequence (snd r)"
    proof -
      have "top \<in> set (map (ah_sequence \<circ> snd) ?rs)" unfolding top_def using False by (intro Max_in) (simp, metis map_is_Nil_conv set_empty)
      then obtain q where "q \<in> set ?rs" "top = ah_sequence (snd q)" by auto
      moreover from this have "q \<in> ?R" using R by blast
      ultimately have "unat top < Suc n" using seqs [of q] n by simp
      then show ?thesis using r(2) by (simp add: word_le_nat_alt)
    qed
    ultimately have "top = of_nat n" using r(2) by (auto dest: order.antisym)
    moreover have "next_number ah_account ah_sequence a (account_histories h) = top + 1"
      using False by (cases ?rs) (auto simp: next_number_def top_def)
    ultimately show ?thesis by (simp add: n)
  qed
qed

lemma record_operation_kept:
  assumes "record_operation pack now note new h = Inr (i, h1)" and "history_ok h" and "\<forall>j. new = Some j \<longrightarrow> map_of (indices (history_operations h)) j \<noteq> None"
  shows "history_ok h1 \<and> account_histories h1 = account_histories h \<and> map_of (indices (history_operations h1)) i \<noteq> None"
proof (cases new)
  case None
  then obtain v g where e: "emplace no_conflict (\<lambda>_. Inr v) (history_operations h) = Inr (g, i)" "h1 = h\<lparr>history_operations := g\<rparr>"
    using assms(1) by (auto simp: record_operation_def res_simps)
  have wf: "wf_index (history_operations h)" using assms(2) by (simp add: history_ok_def)
  have fresh: "map_of (indices (history_operations h)) i = None" using e(1) wf_index_fresh [OF wf] by (auto elim: emplaceD)
  have "indices g = ins_row i v (indices (history_operations h))" using e(1) by (auto elim: emplaceD)
  then have "map_of (indices g) = (map_of (indices (history_operations h)))(i \<mapsto> v)" using map_of_ins_row [OF fresh] by simp
  with e(2) assms(2) wf_index_emplace [OF wf e(1)] show ?thesis by (auto simp: history_ok_def history_rows_def)
qed (use assms in \<open>auto simp: record_operation_def\<close>)

lemma operation_visitor_kept:
  assumes "operation_visitor pack now note item (new, h) = Inr (new', h')" and "history_ok h"
    and "\<forall>j. new = Some j \<longrightarrow> map_of (indices (history_operations h)) j \<noteq> None"
  shows "history_ok h'" and "\<forall>j. new' = Some j \<longrightarrow> map_of (indices (history_operations h')) j \<noteq> None"
    and "card (history_rows a h') = card (history_rows a h) + of_bool (a = item)"
proof -
  obtain i h1 g k where 1: "record_operation pack now note new h = Inr (i, h1)"
    and 2: "emplace account_history_conflict (\<lambda>_. Inr \<lparr> ah_account = item, ah_sequence = next_number ah_account ah_sequence item (account_histories h1),
        ah_op = i \<rparr>) (account_histories h1) = Inr (g, k)" and h': "new' = Some i" "h' = h1\<lparr>account_histories := g\<rparr>"
    using assms(1) by (auto simp: operation_visitor_def Let_def res_simps)
  have h1: "history_ok h1" "account_histories h1 = account_histories h" "map_of (indices (history_operations h1)) i \<noteq> None"
    using record_operation_kept [OF 1 assms(2,3)] by auto
  have good: "good_index account_history_conflict (account_histories h1)" "wf_index (account_histories h1)"
    using h1(1) by (simp_all add: history_ok_def good_index_def)
  let ?n = "card (history_rows item h1)" and ?R = "history_rows item h1"
  have seq: "(\<lambda>r. unat (ah_sequence (snd r))) ` history_rows b h1 = {..<card (history_rows b h1)}" for b
    using h1(1) by (simp add: history_ok_def)
  let ?v = "\<lparr> ah_account = item, ah_sequence = of_nat ?n, ah_op = i \<rparr>"
  have e: "emplace account_history_conflict (\<lambda>_. Inr ?v) (account_histories h1) = Inr (g, k)" using 2 next_sequence [OF seq] by simp
  have rows: "set (indices g) = insert (k, ?v) (set (indices (account_histories h1)))" "insert_ok account_history_conflict k ?v (indices (account_histories h1))"
    using e by (auto elim: emplaceD)
  have new: "(k, ?v) \<notin> ?R" using rows(2) by (auto simp: history_rows_def insert_ok_def list_all_iff)
  have small: "?n < 2 ^ 32"
  proof (rule ccontr)
    assume "\<not> ?n < 2 ^ 32"
    then have n: "?n = 2 ^ 32" using next_sequence(2) [OF seq] by (simp add: order.antisym)
    then have "0 \<in> (\<lambda>r. unat (ah_sequence (snd r))) ` ?R" using seq [of item] by simp
    then obtain j w where "(j, w) \<in> ?R" "ah_sequence w = 0" by (auto simp: unat_eq_0)
    then have "account_history_conflict ?v w" "(j, w) \<in> set (indices (account_histories h1))"
      using n by (auto simp: account_history_conflict_def history_rows_def)
    with rows(2) show False by (auto simp: insert_ok_def list_all_iff)
  qed
  have same: "history_rows b h' = (if b = item then insert (k, ?v) (history_rows b h1) else history_rows b h1)" for b
    using rows(1) by (auto simp: history_rows_def h')
  have cards: "card (history_rows b h') = card (history_rows b h1) + of_bool (b = item)" for b
    using new by (simp add: same)
  have "unat (of_nat ?n :: 32 word) = ?n" using small by (simp add: unat_of_nat)
  then have "(\<lambda>r. unat (ah_sequence (snd r))) ` history_rows b h' = {..<card (history_rows b h')}" for b
    using seq [of b] seq [of item] cards [of b] new by (cases "b = item") (simp_all add: same lessThan_Suc)
  moreover have "good_index account_history_conflict g" using good_index_emplace [OF history_symp good(1) e] .
  ultimately show "history_ok h'" using h1 rows(1) by (auto simp: history_ok_def h')
  show "\<forall>j. new' = Some j \<longrightarrow> map_of (indices (history_operations h')) j \<noteq> None" using h1(3) by (simp add: h')
  have "history_rows a h1 = history_rows a h" using h1(2) by (simp add: history_rows_def)
  then show "card (history_rows a h') = card (history_rows a h) + of_bool (a = item)" using cards [of a] by simp
qed

lemma impacted_distinct: "distinct acc \<Longrightarrow> distinct (operation_get_impacted_accounts opn acc)"
proof -
  have "distinct acc \<Longrightarrow> distinct (fold flat_insert xs acc)" for xs :: "account_name list" and acc
    by (induction xs arbitrary: acc) (auto simp: flat_insert_def distinct_insort_insert)
  then show "distinct acc \<Longrightarrow> distinct (operation_get_impacted_accounts opn acc)" by (simp add: operation_get_impacted_accounts_def)
qed

lemma history_walk:
  assumes "foldR (\<lambda>item st. if P item then operation_visitor pack now note item st else Inr st) items (new, h) = Inr (new', h')"
    and "history_ok h" and "\<forall>j. new = Some j \<longrightarrow> map_of (indices (history_operations h)) j \<noteq> None" and "distinct items"
  shows "history_ok h' \<and> (\<forall>a. card (history_rows a h') = card (history_rows a h) + of_bool (a \<in> set items \<and> P a))"
  using assms
proof (induction items arbitrary: new h)
  case (Cons item items)
  show ?case
  proof (cases "P item")
    case True
    with Cons.prems(1) obtain new1 h1 where 1: "operation_visitor pack now note item (new, h) = Inr (new1, h1)"
      and 2: "foldR (\<lambda>item st. if P item then operation_visitor pack now note item st else Inr st) items (new1, h1) = Inr (new', h')"
      by (auto simp: res_simps)
    note k = operation_visitor_kept [OF 1 Cons.prems(2,3)]
    have IH: "history_ok h' \<and> (\<forall>a. card (history_rows a h') = card (history_rows a h1) + of_bool (a \<in> set items \<and> P a))"
      using Cons.IH [OF 2 k(1,2)] Cons.prems(4) by simp
    have "card (history_rows a h') = card (history_rows a h) + of_bool (a \<in> set (item # items) \<and> P a)" for a
      using IH k(3) [of a] True Cons.prems(4) by (cases "a = item") auto
    with IH show ?thesis by blast
  next
    case False
    then have "foldR (\<lambda>item st. if P item then operation_visitor pack now note item st else Inr st) items (new, h) = Inr (new', h')"
      using Cons.prems(1) by simp
    from Cons.IH [OF this Cons.prems(2,3)] Cons.prems(4) False show ?thesis by auto
  qed
qed simp

text \<open>
  C39: the history of an account has no gaps. Its entries are numbered from zero without gaps
  and refer to stored operations; an operation adds exactly one entry to the history of
  every account it concerns that is tracked and not filtered, and none to the others. When all 32-bit
  numbers of an account are used the plugin throws instead of starting again.
\<close>

theorem history_numbered:
  assumes "history_ok h" and "on_operation pl typename pack now note h = Inr h'"
  shows "history_ok h' \<and> (\<forall>a. card (history_rows a h') = card (history_rows a h) +
    of_bool (a \<in> set (operation_get_impacted_accounts (no_op note) []) \<and> is_tracked (tracked_accounts pl) a \<and> passes_filter pl typename (no_op note)))"
proof -
  obtain new' where walk: "foldR (\<lambda>item st. if is_tracked (tracked_accounts pl) item \<and> passes_filter pl typename (no_op note)
      then operation_visitor pack now note item st else Inr st) (operation_get_impacted_accounts (no_op note) []) (None, h) = Inr (new', h')"
    using assms(2) by (auto simp: on_operation_def res_simps)
  from history_walk [OF walk assms(1)] impacted_distinct show ?thesis by simp
qed

subsection \<open>An example: a transfer\<close>

theorem impacted_covers_signers_witness:
  "operation_validate fc64 (transfer_op sample_transfer) = Inr () \<and>
   ''alice'' \<in> set (operation_get_impacted_accounts (applied (transfer_op sample_transfer)) [])"
proof -
  have v: "operation_validate fc64 (transfer_op sample_transfer) = Inr ()"
    using sample_trx_valid by (simp add: transaction_validate_def current_trx_def sample_trx_def res_simps checkR_eq_Inr)
  have "''alice'' \<in> set (required_posting_authorities (transfer_op sample_transfer)) \<union> set (required_active_authorities (transfer_op sample_transfer)) \<union>
     set (required_owner_authorities (transfer_op sample_transfer))"
    by (simp add: required_posting_authorities_def required_active_authorities_def required_owner_authorities_def sample_transfer_def)
  from impacted_covers_signers [OF v this] v show ?thesis by blast
qed

theorem is_tracked_iff_witness:
  "is_tracked [(''a'', ''c''), (''g'', ''i'')] ''bob'' \<and> \<not> is_tracked [(''a'', ''c''), (''g'', ''i'')] ''dan''"
proof -
  have "\<forall>i j. i < j \<longrightarrow> j < length [(''a'', ''c''), (''g'', ''i'')] \<longrightarrow> snd ([(''a'', ''c''), (''g'', ''i'')] ! i) < fst ([(''a'', ''c''), (''g'', ''i'')] ! j)"
    by (auto simp: less_Suc_eq nth_Cons' less_char_def)
  from is_tracked_iff [OF this] show ?thesis by (simp add: less_eq_char_def less_char_def)
qed

definition transfer_note :: operation_notification where
  "transfer_note = \<lparr> no_trx_id = ''T'', no_block = 1, no_trx_in_block = 0, no_op_in_trx = 0, no_virtual_op = 0, no_op = applied (transfer_op sample_transfer) \<rparr>"

definition empty_history :: history_db where
  "empty_history = \<lparr> history_operations = empty_index, account_histories = empty_index \<rparr>"

definition whole_history :: account_history_plugin where
  "whole_history = \<lparr> tracked_accounts = [], filter_content = False, blacklist = False, op_list = [] \<rparr>"

theorem history_numbered_witness:
  "\<exists>h'. on_operation whole_history (\<lambda>_. ''op'') (\<lambda>_. ''bytes'') 5 transfer_note empty_history = Inr h' \<and> history_ok h' \<and>
     card (history_rows ''alice'' h') = 1 \<and> card (history_rows ''carol'' h') = 0"
proof -
  have ok: "history_ok empty_history"
    by (simp add: history_ok_def empty_history_def empty_good history_rows_def) (simp add: empty_index_def wf_index_def)
  have items: "operation_get_impacted_accounts (no_op transfer_note) [] = [''alice'', ''bob'']"
    by (simp add: operation_get_impacted_accounts_def transfer_note_def operation_impacts_def sample_transfer_def flat_insert_def insort_insert_key_def
        less_eq_char_def less_char_def)
  obtain h' where r: "on_operation whole_history (\<lambda>_. ''op'') (\<lambda>_. ''bytes'') 5 transfer_note empty_history = Inr h'"
    by (simp add: on_operation_def items is_tracked_def passes_filter_def whole_history_def operation_visitor_def record_operation_def
        empty_history_def empty_index_def emplace_def insert_ok_def next_number_def account_history_conflict_def Let_def)
  have "history_rows a empty_history = {}" for a by (simp add: history_rows_def empty_history_def empty_index_def)
  then have "history_ok h'" "card (history_rows a h') = of_bool (a = ''alice'' \<or> a = ''bob'')" for a
    using history_numbered [OF ok r] by (simp_all add: items is_tracked_def passes_filter_def whole_history_def)
  from this(1) this(2) [of "''alice''"] this(2) [of "''carol''"] r show ?thesis by simp
qed

end
