(* ===== verification/Asset_Text.thy ===== *)
theory Asset_Text
  imports Hardforks
begin

text \<open>
  Assets as text (\<open>asset.cpp\<close>, \<open>to_string\<close> and \<open>from_string\<close>). The printing and reading of
  integers and the trimming of strings come from the library \<open>fc\<close>; they are the fields of
  \<open>fc_text\<close>, and the locale \<open>decimal_text\<close> states what they do for numbers that are not
  negative. Arithmetic on \<open>amount.value\<close> is that of plain 64-bit integers.
\<close>

record fc_text =
  text_trim :: "string \<Rightarrow> string"
  text_of_int :: "int \<Rightarrow> string"
  int_of_text :: "string \<Rightarrow> exn + int"

definition i64 :: "int \<Rightarrow> int" where "i64 x = (x + 2 ^ 63) mod 2 ^ 64 - 2 ^ 63"

definition asset_to_string :: "fc_text \<Rightarrow> asset \<Rightarrow> exn + string" where
  "asset_to_string tx a =
     bindR (precision (symbol a)) (\<lambda>prec.
     let result = text_of_int tx (amount a sdiv prec);
         result' = (if prec > 1 then result @ ''.'' @ tl (text_of_int tx (prec + amount a smod prec)) else result) in
     bindR (symbol_name (symbol a)) (\<lambda>name.
     Inr (result' @ '' '' @ map char_of name)))"

definition position :: "char \<Rightarrow> string \<Rightarrow> nat option" where
  "position c s = (let n = length (takeWhile (\<lambda>d. d \<noteq> c) s) in if n < length s then Some n else None)"

text \<open>The bytes of a name from byte 1 of a symbol on.\<close>

definition name_value :: "string \<Rightarrow> nat" where
  "name_value name = foldr (\<lambda>c n. of_char c + 256 * n) name 0"

definition with_name :: "string \<Rightarrow> nat \<Rightarrow> exn + nat" where
  "with_name name s =
     (if length name > 0
      then bindR (assertR (length name \<le> 6) ''symbol_size <= 6'') (\<lambda>_. Inr (s + 256 * name_value name))
      else Inr s)"

definition asset_from_string :: "fc_text \<Rightarrow> string \<Rightarrow> exn + asset" where
  "asset_from_string tx text =
     (let s = text_trim tx text in
      bindR (of_optionR (Assert_failed ''space_pos != std::string::npos'') (position (CHR '' '') s)) (\<lambda>space_pos.
      bindR (case position (CHR ''.'') s of
          Some dot_pos \<Rightarrow>
            bindR (assertR (space_pos > dot_pos) ''space_pos > dot_pos'') (\<lambda>_.
            let intpart = take dot_pos s; fractpart = ''1'' @ take (space_pos - dot_pos - 1) (drop (dot_pos + 1) s) in
            bindR (set_decimals ((length fractpart - 1) mod 256) 0) (\<lambda>sy.
            bindR (int_of_text tx intpart) (\<lambda>i.
            bindR (precision sy) (\<lambda>prec.
            bindR (int_of_text tx fractpart) (\<lambda>f.
            Inr (i64 (i64 (i64 (i * prec) + f) - prec), sy))))))
        | None \<Rightarrow>
            bindR (int_of_text tx (take space_pos s)) (\<lambda>i.
            bindR (set_decimals 0 0) (\<lambda>sy. Inr (i, sy)))) (\<lambda>(value, sy).
      bindR (with_name (drop (space_pos + 1) s) sy) (\<lambda>sy'.
      Inr (asset_of value sy')))))"

subsection \<open>What the library promises\<close>

locale decimal_text =
  fixes tx :: fc_text
  assumes text_of_int_decimal: "0 \<le> n \<Longrightarrow> text_of_int tx n = int_to_string (nat n)"
    and int_of_text_decimal: "m < 2 ^ 63 \<Longrightarrow> int_of_text tx (int_to_string m) = Inr (int m)"
    and text_trim_same: "s \<noteq> [] \<Longrightarrow> \<not> is_space (hd s) \<Longrightarrow> \<not> is_space (last s) \<Longrightarrow> text_trim tx s = s"

definition text64 :: fc_text where
  "text64 = \<lparr> text_trim = \<lambda>s. rev (dropWhile is_space (rev (dropWhile is_space s))),
     text_of_int = \<lambda>n. if n < 0 then CHR ''-'' # int_to_string (nat (- n)) else int_to_string (nat n),
     int_of_text = \<lambda>s. if s \<noteq> [] \<and> list_all is_digit s \<and> dec_value s < 2 ^ 63 then Inr (int (dec_value s))
       else Inl (Other_exception ''bad_lexical_cast'') \<rparr>"

interpretation text64: decimal_text text64
proof
  show "text_trim text64 s = s" if "s \<noteq> []" "\<not> is_space (hd s)" "\<not> is_space (last s)" for s
  proof -
    have "dropWhile is_space s = s" using that by (cases s) auto
    moreover have "dropWhile is_space (rev s) = rev s" using that by (cases "rev s") (auto simp: hd_rev [symmetric])
    ultimately show ?thesis by (simp add: text64_def)
  qed
qed (use int_to_string_digits dec_value_int_to_string in \<open>simp_all add: text64_def\<close>)

subsection \<open>Printing and reading\<close>

lemma int_to_string_leading_one:
  "f < 10 ^ d \<Longrightarrow> \<exists>ds. int_to_string (10 ^ d + f) = CHR ''1'' # ds \<and> length ds = d \<and> list_all is_digit ds"
proof (induction d arbitrary: f)
  case 0
  then show ?case by (simp add: int_to_string.simps char_of_def bit_0)
next
  case (Suc d)
  have "f div 10 < 10 ^ d" using Suc.prems by (simp add: less_mult_imp_div_less mult.commute)
  then obtain ds where ds: "int_to_string (10 ^ d + f div 10) = CHR ''1'' # ds" "length ds = d" "list_all is_digit ds" using Suc.IH by blast
  have "(10 ^ Suc d + f) div 10 = 10 ^ d + f div 10" "(10 ^ Suc d + f) mod 10 = f mod 10" by simp_all
  moreover have "(1::nat) \<le> 10 ^ d" by simp
  then have "\<not> 10 ^ Suc d + f < 10" unfolding power_Suc by linarith
  ultimately have "int_to_string (10 ^ Suc d + f) = (CHR ''1'' # ds) @ [char_of (48 + f mod 10)]"
    using ds(1) by (subst int_to_string.simps) simp
  then show ?case using ds digit_value [of "f mod 10"] by simp
qed

lemma position_append: "c \<notin> set xs \<Longrightarrow> position c (xs @ c # ys) = Some (length xs)"
  by (simp add: position_def takeWhile_append takeWhile_eq_all_conv [THEN iffD2] Let_def)

lemma position_none: "c \<notin> set s \<Longrightarrow> position c s = None"
proof -
  assume "c \<notin> set s"
  then have same: "takeWhile (\<lambda>d. d \<noteq> c) s = s" by (auto simp: takeWhile_eq_all_conv)
  show ?thesis unfolding position_def Let_def same by simp
qed

text \<open>A symbol made of decimals and a name.\<close>

lemma name_bytes:
  assumes "\<forall>c \<in> set cs. c < 256"
  shows "foldr (\<lambda>c n. c + 256 * n) cs 0 div 256 ^ k mod 256 = (if k < length cs then cs ! k else (0::nat))"
  using assms
proof (induction cs arbitrary: k)
  case (Cons c cs)
  show ?case
  proof (cases k)
    case (Suc j)
    have "(c + 256 * foldr (\<lambda>c n. c + 256 * n) cs 0) div 256 ^ Suc j = foldr (\<lambda>c n. c + 256 * n) cs 0 div 256 ^ j"
      using Cons.prems by (simp add: div_mult2_eq)
    with Suc Cons.IH [of j] Cons.prems show ?thesis by simp
  qed (use Cons.prems in simp)
qed simp

lemma symbol_parts:
  assumes "d < 15" and "length cs \<le> 6" and "\<forall>c \<in> set cs. 0 < c \<and> c < 256"
  shows "precision (sym d cs) = Inr (10 ^ d)" and "symbol_name (sym d cs) = Inr cs"
proof -
  have "sym_byte (sym d cs) 0 = d" using assms(1) by (simp add: sym_byte_def sym_def)
  with assms(1) show "precision (sym d cs) = Inr (10 ^ d)" by (simp add: precision_def decimals_def)
  have byte: "sym_byte (sym d cs) (Suc k) = (if k < length cs then cs ! k else 0)" for k
  proof -
    have "sym d cs div 256 = foldr (\<lambda>c n. c + 256 * n) cs 0" using assms(1) by (simp add: sym_def)
    then have "sym d cs div 256 ^ Suc k = foldr (\<lambda>c n. c + 256 * n) cs 0 div 256 ^ k" by (simp add: div_mult2_eq)
    then show ?thesis using name_bytes [of cs k] assms(3) by (simp add: sym_byte_def)
  qed
  have "map (sym_byte (sym d cs)) [1, 2, 3, 4, 5, 6, 7] = map (\<lambda>k. sym_byte (sym d cs) (Suc k)) [0..<7]"
    by (simp add: upt_rec numeral_eq_Suc)
  also have "\<dots> = cs @ replicate (7 - length cs) 0"
    using assms(2) by (intro nth_equalityI) (simp_all add: byte nth_append)
  also have "\<dots> = cs @ 0 # replicate (6 - length cs) 0"
    using assms(2) by (simp add: Suc_diff_le flip: replicate_Suc)
  finally have "map (sym_byte (sym d cs)) [1, 2, 3, 4, 5, 6, 7] = cs @ 0 # replicate (6 - length cs) 0" .
  moreover have "sym_byte (sym d cs) 7 = 0" using byte [of 6] assms(2) by simp
  ultimately show "symbol_name (sym d cs) = Inr cs"
    using assms(3) by (simp add: symbol_name_def takeWhile_append takeWhile_eq_all_conv [THEN iffD2])
qed

definition name_char :: "char \<Rightarrow> bool" where
  "name_char c \<longleftrightarrow> c \<noteq> CHR 0x00 \<and> \<not> is_space c \<and> c \<noteq> CHR ''.''"

lemma i64_same: "- (2 ^ 63) \<le> x \<Longrightarrow> x < 2 ^ 63 \<Longrightarrow> i64 x = x"
  by (simp add: i64_def)

lemma i64_diff: "i64 (i64 a - b) = i64 (a - b)"
proof -
  have "(((a + 2 ^ 63) mod 2 ^ 64 - 2 ^ 63) - b + 2 ^ 63) mod 2 ^ 64 = ((a + 2 ^ 63) mod 2 ^ 64 - b) mod (2 ^ 64 :: int)" by simp
  also have "\<dots> = (a - b + 2 ^ 63) mod 2 ^ 64" unfolding mod_diff_left_eq by (simp add: algebra_simps)
  finally show ?thesis by (simp add: i64_def)
qed

lemma sym_name_value: "sym d (map of_char name) = d + 256 * name_value name"
  by (simp add: sym_def name_value_def foldr_map comp_def)

context decimal_text
begin

lemma printed:
  assumes "0 \<le> n" and "d < 15" and "length name \<le> 6" and "\<forall>c \<in> set name. name_char c"
  shows "\<exists>ds. length ds = d \<and> list_all is_digit ds \<and> CHR ''1'' # ds = int_to_string (10 ^ d + nat n mod 10 ^ d) \<and>
    asset_to_string tx (asset_of n (sym d (map of_char name))) =
      Inr (int_to_string (nat n div 10 ^ d) @ (if d = 0 then [] else CHR ''.'' # ds) @ CHR '' '' # name)"
proof -
  let ?cs = "map of_char name :: nat list"
  have "c = CHR 0x00" if "of_char c = (0::nat)" for c
  proof -
    have "c = char_of (of_char c :: nat)" by simp
    with that show ?thesis by (simp add: char_of_def)
  qed
  then have "\<forall>c \<in> set ?cs. 0 < c \<and> c < 256"
    using assms(4) by (fastforce simp: name_char_def intro: gr0I)
  then have parts: "precision (sym d ?cs) = Inr (10 ^ d)" "symbol_name (sym d ?cs) = Inr ?cs" using symbol_parts assms(2,3) by simp_all
  have "n sdiv 10 ^ d = int (nat n div 10 ^ d)" "n smod 10 ^ d = int (nat n mod 10 ^ d)"
    using assms(1) by (cases "n = 0"; simp add: signed_divide_int_def signed_modulo_int_def zdiv_int zmod_int sgn_if)+
  then have "text_of_int tx (n sdiv 10 ^ d) = int_to_string (nat n div 10 ^ d)"
    "text_of_int tx (10 ^ d + n smod 10 ^ d) = int_to_string (10 ^ d + nat n mod 10 ^ d)"
    by (simp_all add: text_of_int_decimal nat_add_distrib nat_power_eq)
  moreover obtain ds where ds: "int_to_string (10 ^ d + nat n mod 10 ^ d) = CHR ''1'' # ds" "length ds = d" "list_all is_digit ds"
    using int_to_string_leading_one [of "nat n mod 10 ^ d" d] by auto
  moreover have "map char_of ?cs = name" by (simp add: comp_def)
  moreover have "(1::int) < 10 ^ d \<longleftrightarrow> d \<noteq> 0" using one_less_power [of "10::int" d] by (cases "d = 0") simp_all
  ultimately show ?thesis
    using parts text_of_int_decimal [OF assms(1)] by (intro exI [of _ ds]) (simp add: asset_to_string_def Let_def)
qed

lemma read_back:
  assumes "int n < 2 ^ 63" and "d < 15" and "name \<noteq> []" and "length name \<le> 6" and "\<forall>c \<in> set name. name_char c"
    and "length ds = d" and "list_all is_digit ds" and "CHR ''1'' # ds = int_to_string (10 ^ d + n mod 10 ^ d)"
  shows "asset_from_string tx (int_to_string (n div 10 ^ d) @ (if d = 0 then [] else CHR ''.'' # ds) @ CHR '' '' # name) =
    Inr (asset_of (int n) (sym d (map of_char name)))"
proof -
  let ?q = "int_to_string (n div 10 ^ d)" and ?name = "CHR '' '' # name"
  let ?s = "?q @ (if d = 0 then [] else CHR ''.'' # ds) @ ?name"
  have q: "?q \<noteq> []" "list_all is_digit ?q" using int_to_string_digits [of "n div 10 ^ d"] by auto
  have "is_digit (hd ?q)" using q by (cases ?q) auto
  then have "\<not> is_space (hd ?s)" using digit_not_space q(1) by (simp add: hd_append)
  moreover have "\<not> is_space (last ?s)" using assms(3,5) by (simp add: name_char_def)
  ultimately have trim: "text_trim tx ?s = ?s" using q(1) by (intro text_trim_same) simp_all
  have marks: "\<not> is_digit (CHR '' '')" "\<not> is_digit (CHR ''.'')" by (simp_all add: is_digit_def less_eq_char_def)
  have no: "CHR '' '' \<notin> set ?q" "CHR ''.'' \<notin> set ?q" "CHR '' '' \<notin> set ds" "CHR ''.'' \<notin> set ds" "CHR ''.'' \<notin> set name"
    using q(2) assms(5,7) marks unfolding list_all_iff name_char_def by blast+
  have small: "n div 10 ^ d < 2 ^ 63" using assms(1) by (simp add: le_less_trans [OF div_le_dividend])
  have i: "int_of_text tx ?q = Inr (int (n div 10 ^ d))" using int_of_text_decimal small .
  have name: "with_name name d = Inr (sym d (map of_char name))" using assms(3,4) by (simp add: with_name_def sym_name_value)
  show ?thesis
  proof (cases "d = 0")
    case True
    have "position (CHR '' '') (?q @ ?name) = Some (length ?q)" using position_append no(1) .
    moreover have "position (CHR ''.'') (?q @ ?name) = None" by (rule position_none) (use no in simp)
    ultimately show ?thesis
      using trim i name True by (simp add: asset_from_string_def Let_def set_decimals_def sym_byte_def)
  next
    case False
    have s: "?s = (?q @ CHR ''.'' # ds) @ CHR '' '' # name" "?s = ?q @ CHR ''.'' # ds @ CHR '' '' # name" using False by simp_all
    have sp: "position (CHR '' '') ?s = Some (length ?q + 1 + d)"
      using position_append [of "CHR '' ''" "?q @ CHR ''.'' # ds" name] no assms(6) False by simp
    have dp: "position (CHR ''.'') ?s = Some (length ?q)" using position_append no(2) s(2) by simp
    have "10 ^ d + n mod 10 ^ d < 2 ^ 63"
    proof -
      have "(10::nat) ^ d \<le> 10 ^ 14" using assms(2) by (intro power_increasing) simp_all
      moreover have "n mod 10 ^ d < 10 ^ d" by simp
      ultimately have "10 ^ d + n mod 10 ^ d < 10 ^ 14 + 10 ^ 14" by linarith
      then show ?thesis by simp
    qed
    then have f: "int_of_text tx (CHR ''1'' # ds) = Inr (int (10 ^ d + n mod 10 ^ d))" unfolding assms(8) by (rule int_of_text_decimal)
    have prec: "precision d = Inr (10 ^ d)" using assms(2) by (simp add: precision_def decimals_def sym_byte_def)
    have "int (n div 10 ^ d * 10 ^ d + n mod 10 ^ d) = int n" by (simp only: div_mult_mod_eq)
    then have whole: "int (n div 10 ^ d) * 10 ^ d + int (n mod 10 ^ d) = int n"
      by (simp only: of_nat_add of_nat_mult of_nat_power of_nat_numeral)
    have "i64 (int (n div 10 ^ d) * 10 ^ d) = int (n div 10 ^ d) * 10 ^ d"
    proof (rule i64_same)
      have "0 \<le> int (n div 10 ^ d) * 10 ^ d" "0 \<le> int (n mod 10 ^ d)" by simp_all
      then show "- (2 ^ 63) \<le> int (n div 10 ^ d) * 10 ^ d" "int (n div 10 ^ d) * 10 ^ d < 2 ^ 63" using whole assms(1) by linarith+
    qed
    then have "i64 (i64 (i64 (int (n div 10 ^ d) * 10 ^ d) + int (10 ^ d + n mod 10 ^ d)) - 10 ^ d) = int n"
      using whole assms(1) unfolding i64_diff by (simp add: i64_same algebra_simps)
    then have val: "i64 (i64 (i64 (int (n div 10 ^ d) * 10 ^ d) + (10 ^ d + int (n mod 10 ^ d))) - 10 ^ d) = int n" by simp
    have cut: "take d (drop (Suc (length ?q)) ?s) = ds" "drop (Suc (Suc (length ?q + d))) ?s = name" "take (length ?q) ?s = ?q"
      "min (length ?s - Suc (length ?q)) d = d"
      using assms(6) False by simp_all
    have "asset_from_string tx s = Inr (asset_of (int n) (sym d (map of_char name)))" if "s = ?s" for s
      using trim i name sp dp f prec val cut assms(2,6) unfolding that [symmetric]
      by (simp add: asset_from_string_def Let_def set_decimals_def sym_byte_def)
    then show ?thesis by simp
  qed
qed

end

text \<open>
  C32: amounts survive printing. For an amount that is not negative, fewer than 15 decimals and a
  name of one to six characters without spaces and dots, reading the printed asset returns
  the same amount and symbol. The sum that is formed on the way may exceed 64 bits; it wraps
  around and back.
\<close>

theorem asset_string_roundtrip:
  assumes "decimal_text tx" and "0 \<le> n" and "n < 2 ^ 63" and "d < 15" and "name \<noteq> []" and "length name \<le> 6" and "\<forall>c \<in> set name. name_char c"
  shows "\<exists>text. asset_to_string tx (asset_of n (sym d (map of_char name))) = Inr text \<and>
    asset_from_string tx text = Inr (asset_of n (sym d (map of_char name)))"
proof -
  obtain ds where ds: "length ds = d" "list_all is_digit ds" "CHR ''1'' # ds = int_to_string (10 ^ d + nat n mod 10 ^ d)"
    and p: "asset_to_string tx (asset_of n (sym d (map of_char name))) =
      Inr (int_to_string (nat n div 10 ^ d) @ (if d = 0 then [] else CHR ''.'' # ds) @ CHR '' '' # name)"
    using decimal_text.printed [OF assms(1,2,4,6,7)] by blast
  have "int (nat n) < 2 ^ 63" using assms(2,3) by simp
  from decimal_text.read_back [OF assms(1) this assms(4-7) ds] p assms(2) show ?thesis by simp
qed

theorem asset_string_roundtrip_witness:
  "\<exists>text. asset_to_string text64 (bmt 12345) = Inr text \<and> asset_from_string text64 text = Inr (bmt 12345)"
proof -
  have b: "BMT_SYMBOL = sym 3 (map of_char ''BMT'')" by (simp add: BMT_SYMBOL_def)
  have "\<forall>c \<in> set ''BMT''. name_char c" by (simp add: name_char_def is_space_def)
  from asset_string_roundtrip [OF text64.decimal_text_axioms _ _ _ _ _ this, of 12345 3] show ?thesis by (simp add: b)
qed

text \<open>A negative amount loses its sign and is printed with too few digits.\<close>

lemma negative_amount_misprinted: "asset_to_string text64 (bmt (- 5)) = Inr ''0.95 BMT''"
proof -
  have b: "BMT_SYMBOL = sym 3 (map of_char ''BMT'')" by (simp add: BMT_SYMBOL_def)
  have "precision BMT_SYMBOL = Inr 1000" "symbol_name BMT_SYMBOL = Inr (map of_char ''BMT'')"
    unfolding b using symbol_parts [of 3 "map of_char ''BMT''"] by simp_all
  then show ?thesis
    by (simp add: asset_to_string_def Let_def text64_def signed_divide_int_def signed_modulo_int_def int_to_string.simps char_of_def bit_0)
qed

end
