(* ===== verification/Block_Log.thy ===== *)
theory Block_Log
  imports Push_Block
begin

text \<open>
  \<open>libraries/chain/block_log.cpp\<close> with the bytes of its two files. The main file holds each
  block followed by its position, eight bytes in the order of the machine; the index file
  holds the positions alone. A file is opened either to append or to read, and the
  functions \<open>check_*\<close> reopen it in the mode that is needed, so a stream has a mode and a
  position; writing in the reading mode and reading in the other fail. Streams throw on
  failure, as the constructor asks for; on an exception the state is not given. Packing and
  unpacking a block is code of the library \<open>fc\<close>, the fields of \<open>codec\<close>; the locale
  \<open>block_codec\<close> states that a packed block is read back and where it ends. The widths of
  positions are those of the source.

  The properties show that the two files implement the list of blocks that the rest of the
  development uses for the log, that opening repairs an index that is missing or of another
  length, and that this fails for a log of one block.
\<close>

record codec =
  pack :: "signed_block \<Rightarrow> string"
  unpack :: "string \<Rightarrow> exn + (signed_block \<times> nat)"

locale block_codec =
  fixes c :: codec and packable :: "signed_block \<Rightarrow> bool"
  assumes unpack_pack: "packable b \<Longrightarrow> unpack c (pack c b @ rest) = Inr (b, length (pack c b))"

subsection \<open>Numbers in memory\<close>

fun le_bytes :: "nat \<Rightarrow> nat \<Rightarrow> string" where
  "le_bytes 0 n = []"
| "le_bytes (Suc k) n = char_of (n mod 256) # le_bytes k (n div 256)"

fun le_value :: "string \<Rightarrow> nat" where
  "le_value [] = 0"
| "le_value (x # xs) = of_char x + 256 * le_value xs"

lemma length_le_bytes [simp]: "length (le_bytes k n) = k"
  by (induction k arbitrary: n) auto

lemma le_bytes_Nil_iff [simp]: "le_bytes k n = [] \<longleftrightarrow> k = 0"
  by (cases k) auto

lemma le_value_le_bytes: "le_value (le_bytes k n) = n mod 256 ^ k"
proof (induction k arbitrary: n)
  case (Suc k)
  have "n mod 256 + 256 * (n div 256 mod 256 ^ k) = n mod (256 * 256 ^ k)"
    by (simp add: mod_mult2_eq)
  with Suc show ?case by simp
qed simp

lemma le_value_u64: "n < 2 ^ 64 \<Longrightarrow> le_value (le_bytes 8 n) = n"
  by (simp add: le_value_le_bytes)

subsection \<open>Streams\<close>

record fstream =
  fs_bytes :: string
  fs_pos :: nat
  fs_write :: bool

definition open_append :: "string \<Rightarrow> fstream" where
  "open_append bytes = \<lparr> fs_bytes = bytes, fs_pos = length bytes, fs_write = True \<rparr>"

definition check_read :: "fstream \<Rightarrow> fstream" where
  "check_read s = (if fs_write s then s\<lparr>fs_pos := 0, fs_write := False\<rparr> else s)"

definition check_write :: "fstream \<Rightarrow> fstream" where
  "check_write s = (if \<not> fs_write s then open_append (fs_bytes s) else s)"

definition stream_failure :: exn where
  "stream_failure = Other_exception ''basic_ios::clear''"

definition seekg_end :: "nat \<Rightarrow> fstream \<Rightarrow> exn + fstream" where
  "seekg_end k s =
     (if k \<le> length (fs_bytes s) then Inr (s\<lparr>fs_pos := length (fs_bytes s) - k\<rparr>) else Inl stream_failure)"

definition read_u64 :: "fstream \<Rightarrow> exn + (nat \<times> fstream)" where
  "read_u64 s =
     (if \<not> fs_write s \<and> fs_pos s + 8 \<le> length (fs_bytes s)
      then Inr (le_value (take 8 (drop (fs_pos s) (fs_bytes s))), s\<lparr>fs_pos := fs_pos s + 8\<rparr>)
      else Inl stream_failure)"

definition unpack_block :: "codec \<Rightarrow> fstream \<Rightarrow> exn + (signed_block \<times> fstream)" where
  "unpack_block c s =
     (if fs_write s then Inl stream_failure
      else bindR (unpack c (drop (fs_pos s) (fs_bytes s))) (\<lambda>(b, n).
        if fs_pos s + n \<le> length (fs_bytes s) then Inr (b, s\<lparr>fs_pos := fs_pos s + n\<rparr>) else Inl stream_failure))"

definition stream_write :: "string \<Rightarrow> fstream \<Rightarrow> exn + fstream" where
  "stream_write d s = (if fs_write s then Inr (open_append (fs_bytes s @ d)) else Inl stream_failure)"

subsection \<open>The log\<close>

record block_log =
  bl_head :: "signed_block option"
  bl_head_id :: string
  bl_block :: fstream
  bl_index :: fstream

definition npos :: nat where "npos = 2 ^ 64 - 1"

definition block_log_append :: "codec \<Rightarrow> fc_hashes \<Rightarrow> signed_block \<Rightarrow> block_log \<Rightarrow> exn + (block_log \<times> nat)" where
  "block_log_append c hs b l =
     (let bs = check_write (bl_block l); is = check_write (bl_index l);
          pos = fs_pos bs mod 2 ^ 64; index_pos = fs_pos is mod 2 ^ 64 in
      bindR (assertR (int index_pos = 8 * ((int (block_num b) - 1) mod 2 ^ 32)) ''Append to index file occuring at wrong position.'') (\<lambda>_.
      bindR (stream_write (pack c b) bs) (\<lambda>bs1.
      bindR (stream_write (le_bytes 8 pos) bs1) (\<lambda>bs2.
      bindR (stream_write (le_bytes 8 pos) is) (\<lambda>is1.
      Inr (l\<lparr>bl_block := bs2, bl_index := is1, bl_head := Some b, bl_head_id := block_id hs b\<rparr>, pos))))))"

definition read_block :: "codec \<Rightarrow> nat \<Rightarrow> block_log \<Rightarrow> exn + (block_log \<times> signed_block \<times> nat)" where
  "read_block c pos l =
     bindR (unpack_block c ((check_read (bl_block l))\<lparr>fs_pos := pos\<rparr>)) (\<lambda>(b, s).
     Inr (l\<lparr>bl_block := s\<rparr>, b, (fs_pos s + 8) mod 2 ^ 64))"

definition get_block_pos :: "nat \<Rightarrow> block_log \<Rightarrow> exn + (block_log \<times> nat)" where
  "get_block_pos n l =
     (let s = check_read (bl_index l) in
      if \<not> (bl_head l \<noteq> None \<and> n \<le> num_from_id (bl_head_id l) \<and> n > 0) then Inr (l\<lparr>bl_index := s\<rparr>, npos)
      else
        bindR (read_u64 (s\<lparr>fs_pos := 8 * (n - 1)\<rparr>)) (\<lambda>(pos, s1).
        Inr (l\<lparr>bl_index := s1\<rparr>, pos)))"

definition log_read_block_by_num :: "codec \<Rightarrow> nat \<Rightarrow> block_log \<Rightarrow> exn + (block_log \<times> signed_block option)" where
  "log_read_block_by_num c n l =
     bindR (get_block_pos n l) (\<lambda>(l1, pos).
     if pos \<noteq> npos then
       bindR (read_block c pos l1) (\<lambda>(l2, b, _).
       bindR (assertR (block_num b = n) ''Wrong block was read from block log.'') (\<lambda>_.
       Inr (l2, Some b)))
     else Inr (l1, None))"

definition read_head :: "codec \<Rightarrow> block_log \<Rightarrow> exn + (block_log \<times> signed_block)" where
  "read_head c l =
     bindR (seekg_end 8 (check_read (bl_block l))) (\<lambda>s.
     bindR (read_u64 s) (\<lambda>(pos, s1).
     bindR (read_block c pos (l\<lparr>bl_block := s1\<rparr>)) (\<lambda>(l1, b, _).
     Inr (l1, b))))"

text \<open>Each turn of the loop reads eight bytes at least, so it ends at the end of the file at the latest.\<close>

lemma read_u64_moves: "read_u64 s = Inr (v, s') \<Longrightarrow> fs_bytes s' = fs_bytes s \<and> fs_pos s' = fs_pos s + 8 \<and> fs_pos s' \<le> length (fs_bytes s)"
  by (auto simp: read_u64_def split: if_splits)

lemma unpack_block_moves: "unpack_block c s = Inr (b, s') \<Longrightarrow> fs_bytes s' = fs_bytes s \<and> fs_pos s \<le> fs_pos s'"
  by (auto simp: unpack_block_def res_simps split: if_splits)

function index_loop :: "codec \<Rightarrow> nat \<Rightarrow> nat \<Rightarrow> fstream \<Rightarrow> fstream \<Rightarrow> exn + (fstream \<times> fstream)" where
  "index_loop c end_pos pos bs is =
     (if pos < end_pos then
        (case unpack_block c bs of
           Inl e \<Rightarrow> Inl e
         | Inr (tmp, bs1) \<Rightarrow>
             (case read_u64 bs1 of
                Inl e \<Rightarrow> Inl e
              | Inr (pos1, bs2) \<Rightarrow>
                  (case stream_write (le_bytes 8 pos1) is of
                     Inl e \<Rightarrow> Inl e
                   | Inr is1 \<Rightarrow> index_loop c end_pos pos1 bs2 is1)))
      else Inr (bs, is))"
  by pat_completeness auto
termination
  by (relation "measure (\<lambda>(c, e, p, bs, is). length (fs_bytes bs) - fs_pos bs)")
    (auto dest!: read_u64_moves unpack_block_moves)

declare index_loop.simps [simp del]

definition construct_index :: "codec \<Rightarrow> block_log \<Rightarrow> exn + block_log" where
  "construct_index c l =
     (let is = open_append [] in
      bindR (seekg_end 8 (check_read (bl_block l))) (\<lambda>s.
      bindR (read_u64 s) (\<lambda>(end_pos, s1).
      bindR (index_loop c end_pos 0 (s1\<lparr>fs_pos := 0\<rparr>) is) (\<lambda>(s2, is1).
      Inr (l\<lparr>bl_block := s2, bl_index := is1\<rparr>)))))"

text \<open>Opening takes the contents of the two files, empty when a file is new.\<close>

definition block_log_open :: "codec \<Rightarrow> fc_hashes \<Rightarrow> string \<Rightarrow> string \<Rightarrow> block_log \<Rightarrow> exn + block_log" where
  "block_log_open c hs block_bytes index_bytes l =
     (let l1 = l\<lparr>bl_block := open_append block_bytes, bl_index := open_append index_bytes\<rparr> in
      if block_bytes \<noteq> [] then
        bindR (read_head c l1) (\<lambda>(l2, b).
        let l3 = l2\<lparr>bl_head := Some b, bl_head_id := block_id hs b\<rparr> in
        if index_bytes \<noteq> [] then
          bindR (seekg_end 8 (check_read (bl_block l3))) (\<lambda>s.
          bindR (read_u64 s) (\<lambda>(block_pos, s1).
          bindR (seekg_end 8 (check_read (bl_index l3))) (\<lambda>i.
          bindR (read_u64 i) (\<lambda>(index_pos, i1).
          let l4 = l3\<lparr>bl_block := s1, bl_index := i1\<rparr> in
          if block_pos < index_pos then construct_index c l4
          else if block_pos > index_pos then construct_index c l4
          else Inr l4))))
        else construct_index c l3)
      else if index_bytes \<noteq> [] then Inr (l1\<lparr>bl_index := open_append []\<rparr>)
      else Inr l1)"

definition block_log_close :: "block_log" where
  "block_log_close =
     \<lparr> bl_head = None, bl_head_id = replicate 20 (CHR 0x00), bl_block = open_append [], bl_index = open_append [] \<rparr>"

subsection \<open>The bytes of a list of blocks\<close>

fun log_bytes :: "codec \<Rightarrow> nat \<Rightarrow> signed_block list \<Rightarrow> string" where
  "log_bytes c p [] = []"
| "log_bytes c p (b # bs) = pack c b @ le_bytes 8 p @ log_bytes c (p + length (pack c b) + 8) bs"

fun positions :: "codec \<Rightarrow> nat \<Rightarrow> signed_block list \<Rightarrow> nat list" where
  "positions c p [] = []"
| "positions c p (b # bs) = p # positions c (p + length (pack c b) + 8) bs"

definition position_bytes :: "nat list \<Rightarrow> string" where
  "position_bytes ps = concat (map (le_bytes 8) ps)"

lemma position_bytes_simps [simp]:
  "position_bytes [] = []" "position_bytes (p # ps) = le_bytes 8 p @ position_bytes ps"
  "position_bytes (ps @ qs) = position_bytes ps @ position_bytes qs"
  by (simp_all add: position_bytes_def)

lemma length_positions [simp]: "length (positions c p bs) = length bs"
  by (induction c p bs rule: positions.induct) auto

lemma length_position_bytes [simp]: "length (position_bytes ps) = 8 * length ps"
  by (induction ps) auto

lemma log_bytes_snoc: "log_bytes c p (bs @ [b]) = log_bytes c p bs @ pack c b @ le_bytes 8 (p + length (log_bytes c p bs))"
  by (induction c p bs rule: log_bytes.induct) (auto simp: add.assoc)

lemma positions_snoc: "positions c p (bs @ [b]) = positions c p bs @ [p + length (log_bytes c p bs)]"
  by (induction c p bs rule: log_bytes.induct) (auto simp: add.assoc)

lemma position_at: "i < length ps \<Longrightarrow> take 8 (drop (8 * i) (position_bytes ps)) = le_bytes 8 (ps ! i)"
proof (induction ps arbitrary: i)
  case (Cons p ps)
  then show ?case by (cases i) auto
qed simp

lemma drop_append_sum: "drop (length xs + n) (xs @ ys) = drop n ys"
  by simp

text \<open>At the position of a block stands the block, then its position, then the next block.\<close>

lemma block_at:
  "i < length bs \<Longrightarrow> \<exists>rest. drop (positions c p bs ! i - p) (log_bytes c p bs) =
     pack c (bs ! i) @ le_bytes 8 (positions c p bs ! i) @ rest \<and> p \<le> positions c p bs ! i \<and>
     positions c p bs ! i + length (pack c (bs ! i)) + 8 + length rest = p + length (log_bytes c p bs) \<and>
     (Suc i < length bs \<longrightarrow> positions c p bs ! Suc i = positions c p bs ! i + length (pack c (bs ! i)) + 8)"
proof (induction c p bs arbitrary: i rule: log_bytes.induct)
  case (2 c p b bs)
  show ?case
  proof (cases i)
    case 0
    then show ?thesis by (cases bs) auto
  next
    case (Suc j)
    let ?q = "p + length (pack c b) + 8"
    from Suc 2(2) have "j < length bs" by simp
    from 2(1) [OF this] obtain rest where r: "drop (positions c ?q bs ! j - ?q) (log_bytes c ?q bs) =
        pack c (bs ! j) @ le_bytes 8 (positions c ?q bs ! j) @ rest" "?q \<le> positions c ?q bs ! j"
        "positions c ?q bs ! j + length (pack c (bs ! j)) + 8 + length rest = ?q + length (log_bytes c ?q bs)"
        "Suc j < length bs \<longrightarrow> positions c ?q bs ! Suc j = positions c ?q bs ! j + length (pack c (bs ! j)) + 8" by blast
    define x where "x = positions c ?q bs ! j"
    have "x - p = length (pack c b @ le_bytes 8 p) + (x - ?q)" using r(2) by (simp add: x_def)
    then have "drop (x - p) (log_bytes c p (b # bs)) = drop (x - ?q) (log_bytes c ?q bs)"
      by (simp only: log_bytes.simps append_assoc [symmetric] drop_append_sum)
    moreover have "p + length (log_bytes c p (b # bs)) = ?q + length (log_bytes c ?q bs)" by simp
    moreover have "positions c p (b # bs) ! Suc n = positions c ?q bs ! n" for n by simp
    moreover have "p \<le> x" using r(2) by (simp add: x_def)
    ultimately show ?thesis using r(1,3,4) by (intro exI [of _ rest]) (simp only: Suc x_def nth_Cons_Suc list.size, simp)
  qed
qed simp

lemma log_bytes_Nil_iff [simp]: "log_bytes c p bs = [] \<longleftrightarrow> bs = []"
  by (cases bs) auto

lemma last_position_from: "bs \<noteq> [] \<Longrightarrow> p \<le> last (positions c p bs)"
proof (induction c p bs rule: positions.induct)
  case (2 c p b bs)
  then show ?case by (cases bs) auto
qed simp

lemma positions_upto: "8 * length bs \<le> length (log_bytes c p bs)"
  by (induction c p bs rule: log_bytes.induct) auto

lemma position_below: "i < length bs \<Longrightarrow> positions c 0 bs ! i + length (pack c (bs ! i)) + 8 \<le> length (log_bytes c 0 bs)"
  using block_at [of i bs c 0] by auto

subsection \<open>The files of a log\<close>

definition stream_holds :: "string \<Rightarrow> fstream \<Rightarrow> bool" where
  "stream_holds bytes s \<longleftrightarrow> fs_bytes s = bytes \<and> (fs_write s \<longrightarrow> fs_pos s = length bytes)"

definition log_holds :: "codec \<Rightarrow> fc_hashes \<Rightarrow> signed_block list \<Rightarrow> block_log \<Rightarrow> bool" where
  "log_holds c hs bs l \<longleftrightarrow>
     stream_holds (log_bytes c 0 bs) (bl_block l) \<and> stream_holds (position_bytes (positions c 0 bs)) (bl_index l) \<and>
     bl_head l = (if bs = [] then None else Some (last bs)) \<and> (bs \<noteq> [] \<longrightarrow> bl_head_id l = block_id hs (last bs)) \<and>
     length (log_bytes c 0 bs) < 2 ^ 64"

lemma check_read_simps [simp]: "fs_bytes (check_read s) = fs_bytes s" "\<not> fs_write (check_read s)"
  by (simp_all add: check_read_def)

lemma check_write_holds: "stream_holds bytes s \<Longrightarrow> check_write s = open_append bytes"
  by (cases s) (auto simp: stream_holds_def check_write_def open_append_def)

lemma stream_holds_simps [simp]: "stream_holds bytes (open_append bytes')  \<longleftrightarrow> bytes' = bytes"
  "\<not> fs_write s \<Longrightarrow> stream_holds bytes s \<longleftrightarrow> fs_bytes s = bytes"
  by (auto simp: stream_holds_def open_append_def)

lemma write_append [simp]: "stream_write d (open_append bytes) = Inr (open_append (bytes @ d))"
  by (simp add: stream_write_def open_append_def)

lemma read_position:
  assumes "\<not> fs_write s" and "drop (fs_pos s) (fs_bytes s) = le_bytes 8 p @ rest" and "p < 2 ^ 64"
  shows "read_u64 s = Inr (p, s\<lparr>fs_pos := fs_pos s + 8\<rparr>)"
proof -
  have "length (fs_bytes s) - fs_pos s = 8 + length rest" using arg_cong [OF assms(2), of length] by simp
  then have "fs_pos s + 8 \<le> length (fs_bytes s)" by simp
  with assms show ?thesis by (simp add: read_u64_def le_value_u64)
qed

lemma read_position_index:
  assumes "\<not> fs_write s" and "fs_bytes s = position_bytes ps" and "fs_pos s = 8 * i" and "\<forall>p \<in> set ps. p < 2 ^ 64"
  shows "read_u64 s = (if i < length ps then Inr (ps ! i, s\<lparr>fs_pos := 8 * i + 8\<rparr>) else Inl stream_failure)"
  using assms by (auto simp: read_u64_def position_at le_value_u64)

lemma positions_small:
  assumes "length (log_bytes c 0 bs) < 2 ^ 64" and "i < length bs"
  shows "positions c 0 bs ! i < 2 ^ 64 - 8"
  using position_below [OF assms(2), of c] assms(1) by linarith

lemma positions_all_small:
  assumes "length (log_bytes c 0 bs) < 2 ^ 64"
  shows "\<forall>p \<in> set (positions c 0 bs). p < 2 ^ 64"
proof
  fix p
  assume "p \<in> set (positions c 0 bs)"
  then obtain i where "i < length bs" "p = positions c 0 bs ! i" by (auto simp: in_set_conv_nth)
  then show "p < 2 ^ 64" using positions_small [OF assms, of i] by linarith
qed

text \<open>The position of the head at the end of the file.\<close>

lemma last_position:
  assumes "bs \<noteq> []"
  shows "drop (length (log_bytes c 0 bs) - 8) (log_bytes c 0 bs) = le_bytes 8 (last (positions c 0 bs)) \<and> 8 \<le> length (log_bytes c 0 bs)"
proof -
  obtain xs b where bs: "bs = xs @ [b]" using assms by (cases bs rule: rev_cases) auto
  have "length (log_bytes c 0 bs) - 8 = length (log_bytes c 0 xs @ pack c b)" by (simp add: bs log_bytes_snoc)
  then show ?thesis by (simp add: bs log_bytes_snoc positions_snoc flip: append_assoc)
qed

lemma read_last_position:
  assumes "bs \<noteq> []" and "fs_bytes s = log_bytes c 0 bs" and "\<not> fs_write s" and "length (log_bytes c 0 bs) < 2 ^ 64"
  shows "bindR (seekg_end 8 s) read_u64 = Inr (last (positions c 0 bs), s\<lparr>fs_pos := length (fs_bytes s)\<rparr>)"
proof -
  let ?s = "s\<lparr>fs_pos := length (fs_bytes s) - 8\<rparr>"
  note l = last_position [OF assms(1), of c]
  have "last (positions c 0 bs) \<in> set (positions c 0 bs)" using assms(1) by (cases bs) auto
  then have p: "last (positions c 0 bs) < 2 ^ 64" using positions_all_small [OF assms(4)] by blast
  have "read_u64 ?s = Inr (last (positions c 0 bs), ?s\<lparr>fs_pos := fs_pos ?s + 8\<rparr>)"
    by (rule read_position [where rest = "[]"]) (use assms l p in auto)
  then show ?thesis using l assms(2) by (simp add: seekg_end_def)
qed

context block_codec
begin

lemma unpack_at:
  assumes "\<not> fs_write s" and "drop (fs_pos s) (fs_bytes s) = pack c b @ rest" and "packable b" and "fs_pos s \<le> length (fs_bytes s)"
  shows "unpack_block c s = Inr (b, s\<lparr>fs_pos := fs_pos s + length (pack c b)\<rparr>)"
proof -
  have "length (fs_bytes s) = fs_pos s + length (pack c b) + length rest"
    using assms(2,4) by (metis add.assoc append_take_drop_id length_append length_take min.absorb2)
  with assms show ?thesis by (simp add: unpack_block_def unpack_pack)
qed

lemma read_block_at:
  assumes "stream_holds (log_bytes c 0 bs) (bl_block l)" and "length (log_bytes c 0 bs) < 2 ^ 64"
    and "i < length bs" and "packable (bs ! i)"
  shows "\<exists>s. read_block c (positions c 0 bs ! i) l = Inr (l\<lparr>bl_block := s\<rparr>, bs ! i, positions c 0 bs ! i + length (pack c (bs ! i)) + 8) \<and>
    stream_holds (log_bytes c 0 bs) s \<and> \<not> fs_write s"
proof -
  let ?p = "positions c 0 bs ! i" and ?n = "length (pack c (bs ! i))"
  let ?s = "(check_read (bl_block l))\<lparr>fs_pos := ?p\<rparr>"
  obtain rest where r: "drop ?p (log_bytes c 0 bs) = pack c (bs ! i) @ le_bytes 8 ?p @ rest" using block_at [OF assms(3), of c 0] by auto
  have b: "fs_bytes (bl_block l) = log_bytes c 0 bs" using assms(1) by (simp add: stream_holds_def)
  note le = position_below [OF assms(3), of c]
  have "unpack_block c ?s = Inr (bs ! i, ?s\<lparr>fs_pos := fs_pos ?s + ?n\<rparr>)"
    by (rule unpack_at [where rest = "le_bytes 8 ?p @ rest"]) (use assms r b le in auto)
  then show ?thesis using assms(2) b le by (auto simp: read_block_def intro!: exI [of _ "?s\<lparr>fs_pos := ?p + ?n\<rparr>"])
qed

lemma read_head_last:
  assumes "stream_holds (log_bytes c 0 bs) (bl_block l)" and "length (log_bytes c 0 bs) < 2 ^ 64"
    and "bs \<noteq> []" and "packable (last bs)"
  shows "\<exists>s. read_head c l = Inr (l\<lparr>bl_block := s\<rparr>, last bs) \<and> fs_bytes s = log_bytes c 0 bs \<and> \<not> fs_write s"
proof -
  let ?s = "(check_read (bl_block l))\<lparr>fs_pos := length (log_bytes c 0 bs)\<rparr>"
  have b: "fs_bytes (bl_block l) = log_bytes c 0 bs" using assms(1) by (simp add: stream_holds_def)
  have r: "bindR (seekg_end 8 (check_read (bl_block l))) read_u64 = Inr (last (positions c 0 bs), ?s)"
    using read_last_position [of bs "check_read (bl_block l)" c] assms b by simp
  have i: "length bs - 1 < length bs" using assms(3) by simp
  have l: "last bs = bs ! (length bs - 1)" "last (positions c 0 bs) = positions c 0 bs ! (length bs - 1)"
    using assms(3) by (auto simp: last_conv_nth simp del: One_nat_def) (metis last_conv_nth length_0_conv length_positions)
  have "stream_holds (log_bytes c 0 bs) (bl_block (l\<lparr>bl_block := ?s\<rparr>))" by (simp add: b)
  from read_block_at [OF this assms(2) i] assms(4) obtain s where
    "read_block c (last (positions c 0 bs)) (l\<lparr>bl_block := ?s\<rparr>) =
       Inr (l\<lparr>bl_block := s\<rparr>, last bs, last (positions c 0 bs) + length (pack c (last bs)) + 8)"
    "fs_bytes s = log_bytes c 0 bs" "\<not> fs_write s" unfolding l by (auto simp: stream_holds_def)
  moreover have "read_head c l = bindR (bindR (seekg_end 8 (check_read (bl_block l))) read_u64) (\<lambda>(pos, s1).
      bindR (read_block c pos (l\<lparr>bl_block := s1\<rparr>)) (\<lambda>(l1, b, _). Inr (l1, b)))"
    by (simp add: read_head_def bindR_assoc)
  ultimately show ?thesis by (intro exI [of _ s]) (simp add: r)
qed

lemma read_by_num:
  assumes "log_holds c hs bs l" and "\<forall>b \<in> set bs. packable b"
  shows "case read_block_by_num n bs of
      Inl e \<Rightarrow> \<exists>e'. log_read_block_by_num c n l = Inl e'
    | Inr r \<Rightarrow> \<exists>l'. log_read_block_by_num c n l = Inr (l', r) \<and> log_holds c hs bs l'"
proof (cases "bs = [] \<or> n > block_num (last bs) \<or> n = 0")
  case True
  then have "get_block_pos n l = Inr (l\<lparr>bl_index := check_read (bl_index l)\<rparr>, npos)"
    using assms(1) by (auto simp: get_block_pos_def log_holds_def block_id_num)
  moreover have "log_holds c hs bs (l\<lparr>bl_index := check_read (bl_index l)\<rparr>)"
    using assms(1) by (simp add: log_holds_def) (simp add: stream_holds_def)
  ultimately show ?thesis using True by (auto simp: read_block_by_num_def log_read_block_by_num_def)
next
  case False
  let ?s = "check_read (bl_index l)"
  from assms(1) have h: "fs_bytes (bl_index l) = position_bytes (positions c 0 bs)" "length (log_bytes c 0 bs) < 2 ^ 64"
    "stream_holds (log_bytes c 0 bs) (bl_block l)" by (auto simp: log_holds_def stream_holds_def)
  have "read_u64 (?s\<lparr>fs_pos := 8 * (n - 1)\<rparr>) =
      (if n - 1 < length (positions c 0 bs) then Inr (positions c 0 bs ! (n - 1), ?s\<lparr>fs_pos := 8 * (n - 1), fs_pos := 8 * (n - 1) + 8\<rparr>)
       else Inl stream_failure)"
    by (rule read_position_index) (use h positions_all_small [OF h(2)] in auto)
  then have g: "get_block_pos n l = (if n - 1 < length bs
      then Inr (l\<lparr>bl_index := ?s\<lparr>fs_pos := 8 * (n - 1) + 8\<rparr>\<rparr>, positions c 0 bs ! (n - 1)) else Inl stream_failure)"
    using False assms(1) by (auto simp: get_block_pos_def log_holds_def block_id_num)
  show ?thesis
  proof (cases "n \<le> length bs")
    case True
    define l1 where "l1 = l\<lparr>bl_index := ?s\<lparr>fs_pos := 8 * (n - 1) + 8\<rparr>\<rparr>"
    have i: "n - 1 < length bs" using False True by auto
    have np: "positions c 0 bs ! (n - 1) \<noteq> npos" using positions_small [OF h(2) i] by (simp add: npos_def)
    have "stream_holds (log_bytes c 0 bs) (bl_block l1)" using h(3) by (simp add: l1_def)
    from read_block_at [OF this h(2) i] assms(2) i obtain s where
      r: "read_block c (positions c 0 bs ! (n - 1)) l1 =
         Inr (l1\<lparr>bl_block := s\<rparr>, bs ! (n - 1), positions c 0 bs ! (n - 1) + length (pack c (bs ! (n - 1))) + 8)"
      and s: "stream_holds (log_bytes c 0 bs) s" by auto
    have "log_holds c hs bs (l1\<lparr>bl_block := s\<rparr>)"
      using assms(1) s h(1) by (simp add: log_holds_def l1_def)
    then show ?thesis
      using r np True i False by (auto simp: log_read_block_by_num_def g read_block_by_num_def assertR_def simp del: One_nat_def simp flip: l1_def)
  next
    case nle: False
    then have "\<not> n - 1 < length bs" by simp
    then show ?thesis using False nle by (simp add: log_read_block_by_num_def g read_block_by_num_def)
  qed
qed

lemma index_loop_rebuilds:
  assumes "drop (fs_pos s) (fs_bytes s) = log_bytes c (fs_pos s) bs" and "\<not> fs_write s" and "fs_pos s \<le> length (fs_bytes s)"
    and "length (fs_bytes s) < 2 ^ 64" and "bs \<noteq> []" and "pos < last (positions c (fs_pos s) bs)" and "\<forall>b \<in> set bs. packable b"
  shows "\<exists>s'. index_loop c (last (positions c (fs_pos s) bs)) pos s (open_append idx) =
      Inr (s', open_append (idx @ position_bytes (positions c (fs_pos s) bs))) \<and> fs_bytes s' = fs_bytes s \<and> \<not> fs_write s'"
  using assms
proof (induction bs arbitrary: s pos idx)
  case (Cons b bs)
  let ?p = "fs_pos s" and ?n = "length (pack c b)"
  let ?s1 = "s\<lparr>fs_pos := ?p + ?n\<rparr>" and ?s2 = "s\<lparr>fs_pos := ?p + ?n + 8\<rparr>"
  have d: "drop ?p (fs_bytes s) = pack c b @ le_bytes 8 ?p @ log_bytes c (?p + ?n + 8) bs" using Cons.prems(1) by simp
  have len: "length (fs_bytes s) = ?p + ?n + 8 + length (log_bytes c (?p + ?n + 8) bs)"
    using arg_cong [OF d, of length] Cons.prems(3) by simp
  have d1: "drop (?p + ?n) (fs_bytes s) = le_bytes 8 ?p @ log_bytes c (?p + ?n + 8) bs"
    and d2: "drop (?p + ?n + 8) (fs_bytes s) = log_bytes c (?p + ?n + 8) bs"
    using arg_cong [OF d, of "drop ?n"] arg_cong [OF d, of "drop (?n + 8)"] by (simp_all add: add.commute add.left_commute)
  have u: "unpack_block c s = Inr (b, ?s1)"
    by (rule unpack_at [OF Cons.prems(2) d]) (use Cons.prems in auto)
  have "read_u64 ?s1 = Inr (?p, ?s1\<lparr>fs_pos := fs_pos ?s1 + 8\<rparr>)"
    by (rule read_position [where rest = "log_bytes c (?p + ?n + 8) bs"]) (use Cons.prems d1 len in auto)
  then have r: "read_u64 ?s1 = Inr (?p, ?s2)" by simp
  have step: "index_loop c e pos s (open_append idx) = index_loop c e ?p ?s2 (open_append (idx @ le_bytes 8 ?p))" if "pos < e" for e
    using that by (subst index_loop.simps) (simp add: u r)
  show ?case
  proof (cases "bs = []")
    case True
    have "index_loop c ?p ?p ?s2 is = Inr (?s2, is)" for "is" by (subst index_loop.simps) simp
    then show ?thesis using True step [of ?p] Cons.prems(2,6) by auto
  next
    case False
    define e where "e = last (positions c (?p + ?n + 8) bs)"
    have ne: "positions c (?p + ?n + 8) bs \<noteq> []" using False by (cases bs) auto
    have pe: "?p < e" using last_position_from [OF False, of "?p + ?n + 8" c] by (simp add: e_def)
    from Cons.IH [of ?s2 ?p "idx @ le_bytes 8 ?p"] d2 Cons.prems len False pe
    obtain s' where "index_loop c e ?p ?s2 (open_append (idx @ le_bytes 8 ?p)) =
      Inr (s', open_append (idx @ le_bytes 8 ?p @ position_bytes (positions c (?p + ?n + 8) bs)))" "fs_bytes s' = fs_bytes s" "\<not> fs_write s'"
      by (auto simp: e_def)
    then show ?thesis using step [of e] Cons.prems(6) ne by (auto simp: e_def)
  qed
qed simp

lemma construct_index_rebuilds:
  assumes "fs_bytes (bl_block l) = log_bytes c 0 bs" and "length (log_bytes c 0 bs) < 2 ^ 64"
    and "length bs \<ge> 2" and "\<forall>b \<in> set bs. packable b"
  shows "\<exists>s. construct_index c l = Inr (l\<lparr>bl_block := s, bl_index := open_append (position_bytes (positions c 0 bs))\<rparr>) \<and>
    fs_bytes s = log_bytes c 0 bs \<and> \<not> fs_write s"
proof -
  let ?s = "(check_read (bl_block l))\<lparr>fs_pos := 0\<rparr>"
  have ne: "bs \<noteq> []" using assms(3) by auto
  have r: "bindR (seekg_end 8 (check_read (bl_block l))) read_u64 =
      Inr (last (positions c 0 bs), (check_read (bl_block l))\<lparr>fs_pos := length (log_bytes c 0 bs)\<rparr>)"
    using read_last_position [of bs "check_read (bl_block l)" c] assms ne by simp
  obtain x y zs where bs: "bs = x # y # zs" using assms(3) by (metis One_nat_def Suc_1 Suc_le_length_iff)
  have "length (pack c x) + 8 \<le> last (positions c (length (pack c x) + 8) (y # zs))" by (rule last_position_from) simp
  then have "0 < last (positions c 0 bs)" by (simp add: bs)
  then obtain s where "index_loop c (last (positions c 0 bs)) 0 ?s (open_append []) =
      Inr (s, open_append (position_bytes (positions c 0 bs)))" "fs_bytes s = log_bytes c 0 bs" "\<not> fs_write s"
    using index_loop_rebuilds [of ?s bs 0 "[]"] assms ne by auto
  moreover have "construct_index c l = bindR (bindR (seekg_end 8 (check_read (bl_block l))) read_u64) (\<lambda>(end_pos, s1).
      bindR (index_loop c end_pos 0 (s1\<lparr>fs_pos := 0\<rparr>) (open_append [])) (\<lambda>(s2, is1). Inr (l\<lparr>bl_block := s2, bl_index := is1\<rparr>)))"
    by (simp add: construct_index_def bindR_assoc Let_def)
  ultimately show ?thesis by (intro exI [of _ s]) (simp add: r)
qed

lemma append_refines:
  assumes "log_holds c hs bs l" and "length (log_bytes c 0 (bs @ [b])) < 2 ^ 64"
  shows "case log_append b bs of
      Inl e \<Rightarrow> block_log_append c hs b l = Inl e
    | Inr bs' \<Rightarrow> \<exists>l'. block_log_append c hs b l = Inr (l', length (log_bytes c 0 bs)) \<and> log_holds c hs bs' l'"
proof -
  let ?f = "log_bytes c 0 bs" and ?i = "position_bytes (positions c 0 bs)"
  have s: "check_write (bl_block l) = open_append ?f" "check_write (bl_index l) = open_append ?i"
    using assms(1) by (auto simp: log_holds_def check_write_holds)
  have "8 * length bs \<le> length ?f" by (rule positions_upto)
  moreover have f: "length ?f < 2 ^ 64" using assms(1) by (simp add: log_holds_def)
  ultimately have "fs_pos (open_append ?i) mod 2 ^ 64 = 8 * length bs" by (simp add: open_append_def)
  then have a: "int (fs_pos (open_append ?i) mod 2 ^ 64) = 8 * ((int (block_num b) - 1) mod 2 ^ 32) \<longleftrightarrow>
      int (length bs) = (int (block_num b) - 1) mod 2 ^ 32" by (simp add: int_ops)
  have "fs_pos (open_append ?f) mod 2 ^ 64 = length ?f" using f by (simp add: open_append_def)
  with a assms s show ?thesis
    by (simp add: block_log_append_def log_append_def Let_def assertR_def log_holds_def log_bytes_snoc positions_snoc)
qed

lemma open_repairs:
  assumes "length (log_bytes c 0 bs) < 2 ^ 64" and "length bs \<ge> 2" and "\<forall>b \<in> set bs. packable b"
    and "idx = [] \<or> idx = position_bytes (positions c 0 bs) \<or>
      8 \<le> length idx \<and> le_value (drop (length idx - 8) idx) \<noteq> last (positions c 0 bs)"
  shows "\<exists>l'. block_log_open c hs (log_bytes c 0 bs) idx l = Inr l' \<and> log_holds c hs bs l'"
proof -
  let ?l1 = "l\<lparr>bl_block := open_append (log_bytes c 0 bs), bl_index := open_append idx\<rparr>"
  have ne: "bs \<noteq> []" using assms(2) by auto
  obtain s where h: "read_head c ?l1 = Inr (?l1\<lparr>bl_block := s\<rparr>, last bs)" "fs_bytes s = log_bytes c 0 bs" "\<not> fs_write s"
    using read_head_last [of bs ?l1] assms ne by auto
  define l3 where "l3 = ?l1\<lparr>bl_block := s, bl_head := Some (last bs), bl_head_id := block_id hs (last bs)\<rparr>"
  have rebuilt: "\<exists>l'. construct_index c x = Inr l' \<and> log_holds c hs bs l'"
    if "fs_bytes (bl_block x) = log_bytes c 0 bs" "bl_head x = Some (last bs)" "bl_head_id x = block_id hs (last bs)" for x
    using construct_index_rebuilds [OF that(1) assms(1-3)] that assms(1) ne by (auto simp: log_holds_def)
  show ?thesis
  proof (cases "idx = []")
    case True
    with h ne rebuilt [of l3] show ?thesis by (simp add: block_log_open_def Let_def l3_def)
  next
    case False
    let ?t = "s\<lparr>fs_pos := length (log_bytes c 0 bs)\<rparr>" and ?i = "(check_read (open_append idx))\<lparr>fs_pos := length idx\<rparr>"
    have "8 \<le> length idx" using False assms(2,4) by auto
    then have i: "bindR (seekg_end 8 (check_read (open_append idx))) read_u64 = Inr (le_value (drop (length idx - 8) idx), ?i)"
      by (simp add: seekg_end_def read_u64_def open_append_def)
    have b: "bindR (seekg_end 8 (check_read s)) read_u64 = Inr (last (positions c 0 bs), ?t)"
      using read_last_position [of bs s c] h ne assms by (simp add: check_read_def)
    define l4 where "l4 = l3\<lparr>bl_block := ?t, bl_index := ?i\<rparr>"
    have o: "block_log_open c hs (log_bytes c 0 bs) idx l =
        (if le_value (drop (length idx - 8) idx) \<noteq> last (positions c 0 bs) then construct_index c l4 else Inr l4)"
      using h ne False bindR_eq_Inr [THEN iffD1, OF i] bindR_eq_Inr [THEN iffD1, OF b]
      by (auto simp: block_log_open_def Let_def l4_def l3_def)
    show ?thesis
    proof (cases "le_value (drop (length idx - 8) idx) = last (positions c 0 bs)")
      case True
      with assms(4) False have "idx = position_bytes (positions c 0 bs)" by auto
      with h ne assms(1) have "log_holds c hs bs l4" by (simp add: log_holds_def l4_def l3_def) (simp add: open_append_def)
      with True o show ?thesis by simp
    next
      case False
      with o rebuilt [of l4] h show ?thesis by (simp add: l4_def l3_def)
    qed
  qed
qed

text \<open>With one block the position of the head is where the loop starts, and it does nothing.\<close>

lemma open_one_block:
  assumes "packable b" and "length (log_bytes c 0 [b]) < 2 ^ 64"
  shows "\<exists>l'. block_log_open c hs (log_bytes c 0 [b]) [] l = Inr l' \<and> stream_holds [] (bl_index l') \<and>
    bl_head l' = Some b \<and> bl_head_id l' = block_id hs b"
proof -
  let ?l1 = "l\<lparr>bl_block := open_append (log_bytes c 0 [b]), bl_index := open_append []\<rparr>"
  obtain s where h: "read_head c ?l1 = Inr (?l1\<lparr>bl_block := s\<rparr>, b)" "fs_bytes s = log_bytes c 0 [b]" "\<not> fs_write s"
    using read_head_last [of "[b]" ?l1] assms by auto
  have b: "bindR (seekg_end 8 (check_read s)) read_u64 = Inr (0, s\<lparr>fs_pos := length (log_bytes c 0 [b])\<rparr>)"
    using read_last_position [of "[b]" s c] h assms(2) by (simp add: check_read_def)
  from h bindR_eq_Inr [THEN iffD1, OF b] show ?thesis
    by (auto simp: block_log_open_def construct_index_def Let_def index_loop.simps)
qed

end

subsection \<open>An example\<close>

text \<open>A codec that writes the number of a block, for two blocks that differ in it.\<close>

definition num_codec :: codec where
  "num_codec =
     \<lparr> pack = \<lambda>b. [char_of (block_num b)],
       unpack = \<lambda>s. case s of [] \<Rightarrow> Inl stream_failure | x # _ \<Rightarrow> Inr (if x = CHR 0x01 then sample_block else left_block, 1) \<rparr>"

interpretation num_codec: block_codec num_codec "\<lambda>b. b \<in> {sample_block, left_block}"
  by unfold_locales (auto simp: num_codec_def block_ids char_of_def bit_0)

definition first_log :: block_log where
  "first_log = \<lparr> bl_head = Some sample_block, bl_head_id = root_id,
     bl_block = open_append (log_bytes num_codec 0 [sample_block]), bl_index = open_append (le_bytes 8 0) \<rparr>"

lemma first_log_holds: "log_holds num_codec fork_hashes [sample_block] first_log"
  by (simp add: log_holds_def first_log_def block_ids num_codec_def)

lemma short_logs:
  "length (log_bytes num_codec 0 [sample_block]) < 2 ^ 64" "length (log_bytes num_codec 0 [sample_block, left_block]) < 2 ^ 64"
  by (simp_all add: num_codec_def)

subsection \<open>Properties of the block log\<close>

text \<open>
  C15: the two files implement the list of blocks. While the files hold a list of blocks, appending
  a block throws exactly when the list rejects it, and otherwise the files hold the longer
  list; reading by number gives the block that the list has there, nothing when it has none,
  and throws when the list does; and the files still hold the list.
\<close>

theorem block_log_implements_list:
  assumes "block_codec c packable" and "\<forall>x \<in> set bs. packable x" and "log_holds c hs bs l"
    and "length (log_bytes c 0 (bs @ [b])) < 2 ^ 64"
  shows "(case log_append b bs of
        Inl e \<Rightarrow> block_log_append c hs b l = Inl e
      | Inr bs' \<Rightarrow> \<exists>l' pos. block_log_append c hs b l = Inr (l', pos) \<and> log_holds c hs bs' l') \<and>
    (case read_block_by_num n bs of
        Inl e \<Rightarrow> \<exists>e'. log_read_block_by_num c n l = Inl e'
      | Inr r \<Rightarrow> \<exists>l'. log_read_block_by_num c n l = Inr (l', r) \<and> log_holds c hs bs l')"
  using block_codec.append_refines [OF assms(1,3,4)] block_codec.read_by_num [OF assms(1,3,2), of n]
  by (auto split: sum.splits)

theorem block_log_implements_list_witness:
  "(\<exists>l' pos. block_log_append num_codec fork_hashes left_block first_log = Inr (l', pos) \<and>
     log_holds num_codec fork_hashes [sample_block, left_block] l') \<and>
   (\<exists>l'. log_read_block_by_num num_codec 1 first_log = Inr (l', Some sample_block))"
  using block_log_implements_list [OF num_codec.block_codec_axioms _ first_log_holds, of left_block 1] short_logs
  by (auto simp: log_append_def read_block_by_num_def block_ids assertR_def)

text \<open>
  C16: opening repairs the index. When the main file holds two blocks or more, the log opens and the
  two files hold those blocks, if the index file was missing, was right, or ended in a
  position other than that of the last block.
\<close>

theorem opening_repairs_index:
  assumes "block_codec c packable" and "\<forall>x \<in> set bs. packable x" and "length bs \<ge> 2" and "length (log_bytes c 0 bs) < 2 ^ 64"
    and "index = [] \<or> index = position_bytes (positions c 0 bs) \<or>
      8 \<le> length index \<and> le_value (drop (length index - 8) index) \<noteq> last (positions c 0 bs)"
  shows "\<exists>l'. block_log_open c hs (log_bytes c 0 bs) index l = Inr l' \<and> log_holds c hs bs l'"
  using block_codec.open_repairs [OF assms(1,4,3,2,5)] .

theorem opening_repairs_index_witness:
  "\<exists>l'. block_log_open num_codec fork_hashes (log_bytes num_codec 0 [sample_block, left_block]) (le_bytes 8 0) block_log_close = Inr l' \<and>
     log_holds num_codec fork_hashes [sample_block, left_block] l'"
proof (rule opening_repairs_index [OF num_codec.block_codec_axioms _ _ short_logs(2)])
  have "last (positions num_codec 0 [sample_block, left_block]) = 9" by (simp add: num_codec_def)
  then show "le_bytes 8 0 = [] \<or> le_bytes 8 0 = position_bytes (positions num_codec 0 [sample_block, left_block]) \<or>
      8 \<le> length (le_bytes 8 0) \<and>
      le_value (drop (length (le_bytes 8 0) - 8) (le_bytes 8 0)) \<noteq> last (positions num_codec 0 [sample_block, left_block])"
    by (simp add: le_value_u64)
qed simp_all

text \<open>
  C17: a log of one block loses its index. When the index file is missing and the main file holds one
  block, the log opens with an empty index: the loop that rebuilds it ends before its first
  turn, because the block is at position 0. Then the block cannot be read by its number, and
  the next block cannot be appended.
\<close>

theorem one_block_index_lost:
  assumes "block_codec c packable" and "packable b" and "length (log_bytes c 0 [b]) < 2 ^ 64"
    and "block_num b = 1" and "block_num next = 2"
  shows "\<exists>l'. block_log_open c hs (log_bytes c 0 [b]) [] l = Inr l' \<and> bl_head l' = Some b \<and>
    log_read_block_by_num c 1 l' = Inl stream_failure \<and>
    block_log_append c hs next l' = Inl (Assert_failed ''Append to index file occuring at wrong position.'')"
proof -
  obtain l' where o: "block_log_open c hs (log_bytes c 0 [b]) [] l = Inr l'" and i: "stream_holds [] (bl_index l')"
    and h: "bl_head l' = Some b" "bl_head_id l' = block_id hs b"
    using block_codec.open_one_block [OF assms(1-3)] by blast
  have "read_u64 ((check_read (bl_index l'))\<lparr>fs_pos := 0\<rparr>) = Inl stream_failure"
    using i by (simp add: read_u64_def stream_holds_def)
  then have "log_read_block_by_num c 1 l' = Inl stream_failure"
    using h assms(4) by (simp add: log_read_block_by_num_def get_block_pos_def block_id_num)
  moreover have "block_log_append c hs next l' = Inl (Assert_failed ''Append to index file occuring at wrong position.'')"
    using check_write_holds [OF i] assms(5) by (simp add: block_log_append_def Let_def assertR_def open_append_def)
  ultimately show ?thesis using o h by blast
qed

theorem one_block_index_lost_witness:
  "\<exists>l'. block_log_open num_codec fork_hashes (log_bytes num_codec 0 [sample_block]) [] block_log_close = Inr l' \<and>
     bl_head l' = Some sample_block \<and> log_read_block_by_num num_codec 1 l' = Inl stream_failure \<and>
     block_log_append num_codec fork_hashes left_block l' = Inl (Assert_failed ''Append to index file occuring at wrong position.'')"
  by (rule one_block_index_lost [OF num_codec.block_codec_axioms _ short_logs(1)]) (simp_all add: block_ids)

end
