(* ===== verification/Replay.thy ===== *)
theory Replay
  imports Block_Log
begin

text \<open>
  Opening, closing and replaying the database (\<open>database.cpp\<close>: \<open>open\<close>, \<open>reindex\<close>, \<open>wipe\<close>,
  \<open>close\<close>), the queries for blocks by number or on a fork, the checkpoints, and the trial
  application of a transaction. The memory mapped file is given by what it holds: nothing,
  or the database, its undo sessions and its revision as the node left them. The log is the
  list of its blocks, which \<open>Block_Log\<close> implements by files; opening it does not change the
  list. Reading past the last block throws. The progress messages of the replay are left
  out. The opening of the schema and of the indices has no state here.
\<close>

unbundle bit_operations_syntax

subsection \<open>Checkpoints\<close>

text \<open>A \<open>flat_map\<close> as rows in increasing order of the keys.\<close>

fun checkpoint_put :: "nat \<times> string \<Rightarrow> (nat \<times> string) list \<Rightarrow> (nat \<times> string) list" where
  "checkpoint_put (n, i) [] = [(n, i)]"
| "checkpoint_put (n, i) ((m, j) # cps) =
     (if n < m then (n, i) # (m, j) # cps
      else if n = m then (n, i) # cps
      else (m, j) # checkpoint_put (n, i) cps)"

definition add_checkpoints :: "(nat \<times> string) list \<Rightarrow> (nat \<times> string) list \<Rightarrow> (nat \<times> string) list" where
  "add_checkpoints checkpts cps = fold checkpoint_put checkpts cps"

definition before_last_checkpoint :: "(nat \<times> string) list \<Rightarrow> database \<Rightarrow> bool" where
  "before_last_checkpoint cps db \<longleftrightarrow> cps \<noteq> [] \<and> fst (last cps) \<ge> head_block_num db"

subsection \<open>Blocks by number and on a fork\<close>

definition find_block_id_for_num :: "fc_hashes \<Rightarrow> nat \<Rightarrow> chain_state \<Rightarrow> exn + string" where
  "find_block_id_for_num hs n s =
     (let none = replicate 20 (CHR 0x00) in
      if n = 0 then Inr none
      else
        (let from_log =
           bindR (read_block_by_num n (cs_log s)) (\<lambda>b.
           case b of
             Some b \<Rightarrow> Inr (block_id hs b)
           | None \<Rightarrow>
               bindR (fetch_block_on_main_branch_by_number n (cs_fork s)) (\<lambda>fitem.
               case fitem of Some x \<Rightarrow> Inr (item_id x) | None \<Rightarrow> Inr none)) in
         case find_id (block_summaries (cs_db s)) (n mod 2 ^ 16) of
           Some bs \<Rightarrow> if num_from_id (bs_block_id bs) = n then Inr (bs_block_id bs) else from_log
         | None \<Rightarrow> from_log))"

definition get_block_id_for_num :: "fc_hashes \<Rightarrow> nat \<Rightarrow> chain_state \<Rightarrow> exn + string" where
  "get_block_id_for_num hs n s =
     bindR (find_block_id_for_num hs n s) (\<lambda>bid.
     bindR (assertR (bid \<noteq> replicate 20 (CHR 0x00)) ''bid != block_id_type()'') (\<lambda>_.
     Inr bid))"

definition fetch_block_by_number :: "nat \<Rightarrow> chain_state \<Rightarrow> exn + signed_block option" where
  "fetch_block_by_number n s =
     (let results = fork_fetch_block_by_number n (cs_fork s) in
      if length results = 1 then Inr (Some (item_data (results ! 0)))
      else read_block_by_num n (cs_log s))"

definition is_known_block :: "fc_hashes \<Rightarrow> string \<Rightarrow> chain_state \<Rightarrow> exn + bool" where
  "is_known_block hs i s = bindR (fetch_block_by_id hs i s) (\<lambda>b. Inr (b \<noteq> None))"

text \<open>The last element of an empty branch does not exist; the source then has no defined behaviour.\<close>

definition get_block_ids_on_fork :: "string \<Rightarrow> chain_state \<Rightarrow> exn + string list" where
  "get_block_ids_on_fork head_of_fork s =
     bindR (fetch_branch_from (g_head_block_id (dgpo (cs_db s))) head_of_fork (cs_fork s)) (\<lambda>(first, second).
     if first = [] \<or> second = [] then Inl (Other_exception ''back of an empty branch'')
     else Inr (map item_id second @ [previous (item_data (last first))]))"

definition validate_transaction :: "node \<Rightarrow> skip_flags \<Rightarrow> signed_transaction \<Rightarrow> chain_state \<Rightarrow> unit chain_run" where
  "validate_transaction nd skip trx s =
     (let s1 = start_session s in
      case apply_transaction nd skip trx (cs_db s1) of
        Inl e \<Rightarrow> (undo_session (tear s1), Inl e)
      | Inr db \<Rightarrow> (undo_session (s1\<lparr>cs_db := db\<rparr>), Inr ()))"

subsection \<open>Opening\<close>

function undo_all_sessions :: "chain_state \<Rightarrow> chain_state" where
  "undo_all_sessions s = (if cs_undo s = [] then s else undo_all_sessions (undo_session s))"
  by pat_completeness auto
termination
  by (relation "measure (\<lambda>s. length (cs_undo s))") (auto simp: undo_session_def split: list.splits)

declare undo_all_sessions.simps [simp del]

text \<open>What the memory mapped file holds, when it is not new.\<close>

record mapped_file =
  mf_db :: database
  mf_undo :: "(int \<times> database \<times> bool) list"
  mf_revision :: int
  mf_torn :: bool

definition map_file :: "mapped_file option \<Rightarrow> chain_state \<Rightarrow> chain_state" where
  "map_file file s =
     (case file of
        None \<Rightarrow> s\<lparr>cs_db := empty_database, cs_undo := [], cs_revision := 0, cs_torn := False\<rparr>
      | Some f \<Rightarrow> s\<lparr>cs_db := mf_db f, cs_undo := mf_undo f, cs_revision := mf_revision f, cs_torn := mf_torn f\<rparr>)"

text \<open>What is done when the file is opened to be written.\<close>

definition start_from_head :: "node \<Rightarrow> chain_state \<Rightarrow> unit chain_run" where
  "start_from_head nd s =
     (if head_block_num (cs_db s) = 0 then (s, Inr ())
      else
        (case read_block_by_num (head_block_num (cs_db s)) (cs_log s) of
           Inl e \<Rightarrow> (s, Inl e)
         | Inr None \<Rightarrow> (s, Inl (Assert_failed ''Chain state does not match block log. Please reindex blockchain.''))
         | Inr (Some b) \<Rightarrow>
             if block_id (node_hashes nd) b = g_head_block_id (dgpo (cs_db s))
             then (s\<lparr>cs_fork := start_block (node_hashes nd) b (cs_fork s)\<rparr>, Inr ())
             else (s, Inl (Assert_failed ''Chain state does not match block log. Please reindex blockchain.''))))"

definition rewind :: "node \<Rightarrow> chain_state \<Rightarrow> unit chain_run" where
  "rewind nd s =
     (let s1 = undo_all_sessions s in
      if cs_revision s1 \<noteq> int (head_block_num (cs_db s1))
      then (s1, Inl (Assert_failed ''Chainbase revision does not match head block num''))
      else
        (case validate_invariants (node_fc nd) (cs_db s1) of
           Inl e \<Rightarrow> (s1, Inl e)
         | Inr _ \<Rightarrow> start_from_head nd s1))"

definition open_database ::
  "node \<Rightarrow> (string \<Rightarrow> exn + public_key_type) \<Rightarrow> int \<Rightarrow> bool \<Rightarrow> mapped_file option \<Rightarrow> chain_state \<Rightarrow> unit chain_run" where
  "open_database nd read_key initial_supply read_write file s =
     (let s1 = map_file file s in
      andThen
        (if \<not> read_write then (s1, Inr ())
         else
           andThen
             (if file \<noteq> None then (s1, Inr ())
              else case init_genesis read_key initial_supply of
                Inl e \<Rightarrow> (tear s1, Inl e)
              | Inr g \<Rightarrow> (s1\<lparr>cs_db := g\<rparr>, Inr ()))
             (\<lambda>_. rewind nd))
        (\<lambda>_ s2. (s2, init_hardforks (cs_db s2))))"

subsection \<open>Closing and replaying\<close>

definition close_database :: "chain_state \<Rightarrow> chain_state" where
  "close_database s = (let s1 = clear_pending s in s1\<lparr>cs_fork := fork_reset (cs_fork s1)\<rparr>)"

text \<open>The mapped file is removed, so the next \<open>open\<close> finds none.\<close>

definition wipe :: "bool \<Rightarrow> chain_state \<Rightarrow> chain_state" where
  "wipe include_blocks s =
     (let s1 = close_database s in if include_blocks then s1\<lparr>cs_log := []\<rparr> else s1)"

definition replay_flags :: skip_flags where
  "replay_flags =
     skip_witness_signature OR skip_transaction_signatures OR skip_transaction_dupe_check OR skip_tapos_check OR
     skip_merkle_check OR skip_witness_schedule_check OR skip_authority_check OR skip_validate OR
     skip_validate_invariants OR skip_block_log"

text \<open>The blocks of the log in order, up to the first with the number of the last.\<close>

fun replay_blocks :: "node \<Rightarrow> (nat \<times> string) list \<Rightarrow> nat \<Rightarrow> signed_block list \<Rightarrow> chain_state \<Rightarrow> unit chain_run" where
  "replay_blocks nd checkpoints last_block_num [] s = (s, Inl stream_failure)"
| "replay_blocks nd checkpoints last_block_num (b # bs) s =
     (if block_num b \<noteq> last_block_num
      then andThen (run_block nd checkpoints replay_flags b s) (\<lambda>_. replay_blocks nd checkpoints last_block_num bs)
      else run_block nd checkpoints replay_flags b s)"

definition set_chain_revision :: "int \<Rightarrow> chain_state \<Rightarrow> unit chain_run" where
  "set_chain_revision n s =
     (if cs_undo s \<noteq> [] then (s, Inl (Logic_error ''cannot set revision while there is an existing undo stack''))
      else (s\<lparr>cs_revision := n\<rparr>, Inr ()))"

definition reindex :: "node \<Rightarrow> (nat \<times> string) list \<Rightarrow> (string \<Rightarrow> exn + public_key_type) \<Rightarrow> chain_state \<Rightarrow> unit chain_run" where
  "reindex nd checkpoints read_key s =
     andThen (open_database nd read_key INIT_SUPPLY True None (wipe False s)) (\<lambda>_ s1.
     let s2 = s1\<lparr>cs_fork := fork_reset (cs_fork s1)\<rparr>; blocks = cs_log s2 in
     if blocks = [] then (s2, Inl (Other_exception ''No blocks in block log. Cannot reindex an empty chain.''))
     else
       andThen (replay_blocks nd checkpoints (block_num (last blocks)) blocks s2) (\<lambda>_ s3.
       andThen (set_chain_revision (int (head_block_num (cs_db s3))) s3) (\<lambda>_ s4.
       (if block_num (last (cs_log s4)) \<noteq> 0
        then s4\<lparr>cs_fork := start_block (node_hashes nd) (last (cs_log s4)) (cs_fork s4)\<rparr> else s4,
        Inr ()))))"

subsection \<open>Checkpoints and trials\<close>

lemma map_of_checkpoint_put:
  "sorted (map fst cps) \<Longrightarrow> distinct (map fst cps) \<Longrightarrow> map_of (checkpoint_put (n, i) cps) = (map_of cps)(n \<mapsto> i)"
proof (induction "(n, i)" cps rule: checkpoint_put.induct)
  case (2 m j cps)
  then show ?case by (auto simp: fun_eq_iff)
qed auto

lemma checkpoint_put_keys: "set (map fst (checkpoint_put (n, i) cps)) = insert n (set (map fst cps))"
  by (induction "(n, i)" cps rule: checkpoint_put.induct) auto

lemma checkpoint_put_sorted:
  "sorted (map fst cps) \<and> distinct (map fst cps) \<Longrightarrow>
   sorted (map fst (checkpoint_put (n, i) cps)) \<and> distinct (map fst (checkpoint_put (n, i) cps))"
proof (induction "(n, i)" cps rule: checkpoint_put.induct)
  case (2 m j cps)
  then show ?case using checkpoint_put_keys [of n i cps] by (auto simp del: set_map)
qed auto

theorem add_checkpoints_overrides:
  assumes "sorted (map fst cps)" and "distinct (map fst cps)"
  shows "sorted (map fst (add_checkpoints checkpts cps)) \<and> distinct (map fst (add_checkpoints checkpts cps)) \<and>
    map_of (add_checkpoints checkpts cps) = map_of cps ++ map_of (rev checkpts)"
  using assms unfolding add_checkpoints_def
proof (induction checkpts arbitrary: cps)
  case (Cons c checkpts)
  obtain n i where c: "c = (n, i)" by (cases c)
  have "sorted (map fst (checkpoint_put c cps)) \<and> distinct (map fst (checkpoint_put c cps))"
    using checkpoint_put_sorted Cons.prems c by simp
  moreover have "map_of (checkpoint_put c cps) = map_of cps ++ map_of [c]" using map_of_checkpoint_put Cons.prems c by simp
  ultimately show ?case using Cons.IH by (simp add: c) (simp add: map_add_def fun_eq_iff split: option.splits)
qed simp

theorem validate_transaction_leaves_state: "fst (validate_transaction nd skip trx s) = s"
  by (cases "apply_transaction nd skip trx (cs_db s)")
    (simp_all add: validate_transaction_def start_session_def undo_session_def tear_def)

subsection \<open>Rewinding\<close>

lemma undo_all_sessions_bottom:
  "undo_all_sessions s = s\<lparr>cs_db := (if cs_undo s = [] then cs_db s else fst (snd (last (cs_undo s)))),
     cs_torn := (if cs_undo s = [] then cs_torn s else snd (snd (last (cs_undo s)))),
     cs_undo := [], cs_revision := cs_revision s - int (length (cs_undo s))\<rparr>"
proof (induction s rule: undo_all_sessions.induct)
  case (1 s)
  show ?case
  proof (cases "cs_undo s")
    case Nil
    then show ?thesis by (subst undo_all_sessions.simps) simp
  next
    case (Cons x u)
    obtain r db t where x: "x = (r, db, t)" by (cases x)
    have "undo_session s = s\<lparr>cs_db := db, cs_undo := u, cs_revision := cs_revision s - 1, cs_torn := t\<rparr>"
      by (simp add: undo_session_def Cons x)
    with 1 Cons x show ?thesis by (subst undo_all_sessions.simps) (simp split: if_splits)
  qed
qed

lemma rewindE:
  assumes "rewind nd s = (s', Inr ())"
  obtains "cs_revision (undo_all_sessions s) = int (head_block_num (cs_db (undo_all_sessions s)))"
    "validate_invariants (node_fc nd) (cs_db (undo_all_sessions s)) = Inr ()" "start_from_head nd (undo_all_sessions s) = (s', Inr ())"
  using assms by (auto simp: rewind_def Let_def split: if_splits sum.splits)

lemma start_from_head_frame:
  assumes "start_from_head nd s = (s', Inr ())"
  shows "cs_db s' = cs_db s \<and> cs_undo s' = cs_undo s \<and> cs_revision s' = cs_revision s \<and> cs_torn s' = cs_torn s \<and> cs_log s' = cs_log s \<and>
    (head_block_num (cs_db s) > 0 \<longrightarrow> (\<exists>b h. read_block_by_num (head_block_num (cs_db s)) (cs_log s) = Inr (Some b) \<and>
       block_id (node_hashes nd) b = g_head_block_id (dgpo (cs_db s)) \<and> fdb_head (cs_fork s') = Some h \<and> item_data h = b))"
  using assms by (auto simp: start_from_head_def start_block_def make_item_def Let_def split: if_splits sum.splits option.splits)

subsection \<open>Replaying\<close>

definition log_numbered :: "signed_block list \<Rightarrow> bool" where
  "log_numbered blocks \<longleftrightarrow> (\<forall>i < length blocks. block_num (blocks ! i) = i + 1)"

lemma log_append_numbered:
  assumes "log_append b blocks = Inr blocks'" and "log_numbered blocks" and "length blocks' < 2 ^ 32"
  shows "log_numbered blocks'"
proof -
  have a: "int (length blocks) = (int (block_num b) - 1) mod 2 ^ 32" and blocks': "blocks' = blocks @ [b]"
    using assms(1) by (auto simp: log_append_def res_simps assertR_eq_Inr)
  have "block_num b < 2 ^ 32" by (simp add: block_num_def)
  then have "block_num b = length blocks + 1"
  proof (cases "block_num b = 0")
    case True
    with a have "int (length blocks) = 2 ^ 32 - 1" by simp
    with assms(3) blocks' show ?thesis by simp
  next
    case False
    then have "int (length blocks) = int (block_num b) - 1" using a \<open>block_num b < 2 ^ 32\<close> by (simp add: mod_pos_pos_trivial)
    then show ?thesis by simp
  qed
  with assms(2) blocks' show ?thesis by (auto simp: log_numbered_def nth_append less_Suc_eq)
qed

lemma foldR_snoc: "foldR f (xs @ [x]) s = bindR (foldR f xs s) (f x)"
proof (induction xs arbitrary: s)
  case Nil
  show ?case by (cases "f x s") simp_all
next
  case (Cons a xs)
  show ?case by (cases "f a s") (simp_all add: Cons)
qed

lemma replay_blocks_apply:
  assumes "replay_blocks nd cps n bs s = (s', Inr ())" and "\<forall>b \<in> set (butlast bs). block_num b \<noteq> n" and "block_num (last bs) = n"
  shows "foldR (apply_block nd cps replay_flags) bs (cs_db s) = Inr (cs_db s') \<and> set (cs_undo s') \<subseteq> set (cs_undo s)"
  using assms
proof (induction bs arbitrary: s)
  case (Cons b bs)
  obtain s1 r1 where r: "run_block nd cps replay_flags b s = (s1, r1)" by fastforce
  have run: "r1 = Inr () \<Longrightarrow> apply_block nd cps replay_flags b (cs_db s) = Inr (cs_db s1) \<and> set (cs_undo s1) \<subseteq> set (cs_undo s)"
    using r by (auto elim!: run_blockE simp: commit_sessions_def dest!: set_dropWhileD)
  show ?case
  proof (cases "bs = []")
    case True
    with Cons.prems r run show ?thesis by auto
  next
    case False
    with Cons.prems r have r1: "r1 = Inr ()" and rest: "replay_blocks nd cps n bs s1 = (s', Inr ())"
      by (cases r1; auto)+
    from Cons.IH [OF rest] Cons.prems(2,3) False run [OF r1] show ?thesis by auto
  qed
qed simp

lemma replay_log_applies:
  assumes "replay_blocks nd cps (block_num (last blocks)) blocks s = (s', Inr ())" and "log_numbered blocks"
  shows "foldR (apply_block nd cps replay_flags) blocks (cs_db s) = Inr (cs_db s') \<and> set (cs_undo s') \<subseteq> set (cs_undo s)"
proof (cases "blocks = []")
  case False
  have "block_num b \<noteq> block_num (last blocks)" if "b \<in> set (butlast blocks)" for b
  proof -
    from that obtain i where i: "i < length blocks - 1" "b = blocks ! i" by (auto simp: in_set_conv_nth nth_butlast)
    with assms(2) False show ?thesis by (auto simp: log_numbered_def last_conv_nth)
  qed
  with assms(1) show ?thesis by (intro replay_blocks_apply) auto
qed (use assms in simp)

lemma wipe_frame: "cs_log (wipe False s) = cs_log s"
  by (simp add: wipe_def close_database_def clear_pending_def reset_pending_session_def undo_session_def Let_def split: list.splits)

lemma open_newE:
  assumes "open_database nd read_key supply True None s = (s', Inr ())"
  obtains g where "init_genesis read_key supply = Inr g" "cs_db s' = g" "cs_undo s' = []" "cs_log s' = cs_log s"
proof -
  let ?s1 = "map_file None s"
  from assms obtain g where g: "init_genesis read_key supply = Inr g" by (auto simp: open_database_def Let_def split: sum.splits)
  have r: "rewind nd (?s1\<lparr>cs_db := g\<rparr>) = (s', Inr ())"
    using assms g by (cases "rewind nd (?s1\<lparr>cs_db := g\<rparr>)"; cases "snd (rewind nd (?s1\<lparr>cs_db := g\<rparr>))") (auto simp: open_database_def Let_def)
  then show thesis
  proof (rule rewindE)
    assume "start_from_head nd (undo_all_sessions (?s1\<lparr>cs_db := g\<rparr>)) = (s', Inr ())"
    from start_from_head_frame [OF this] g show thesis by (intro that [of g]) (simp_all add: undo_all_sessions_bottom map_file_def)
  qed
qed

text \<open>A successful reindex gives the result of all blocks of the log, applied from genesis.\<close>

theorem reindex_replays_log:
  assumes "reindex nd cps read_key s = (s', Inr ())" and "log_numbered (cs_log s)"
  shows "\<exists>g. init_genesis read_key INIT_SUPPLY = Inr g \<and> foldR (apply_block nd cps replay_flags) (cs_log s) g = Inr (cs_db s') \<and>
    cs_undo s' = [] \<and> cs_revision s' = int (head_block_num (cs_db s'))"
proof -
  obtain s1 r1 where o: "open_database nd read_key INIT_SUPPLY True None (wipe False s) = (s1, r1)" by fastforce
  with assms(1) have r1: "r1 = Inr ()" by (cases r1) (auto simp: reindex_def)
  obtain g where g: "init_genesis read_key INIT_SUPPLY = Inr g" "cs_db s1 = g" "cs_undo s1 = []" "cs_log s1 = cs_log s"
    using open_newE [OF o [unfolded r1]] wipe_frame by metis
  define s2 where "s2 = s1\<lparr>cs_fork := fork_reset (cs_fork s1)\<rparr>"
  obtain s3 r3 where p: "replay_blocks nd cps (block_num (last (cs_log s))) (cs_log s) s2 = (s3, r3)" by fastforce
  have ne: "cs_log s \<noteq> []" using assms(1) o r1 g by (auto simp: reindex_def Let_def)
  with assms(1) o r1 g p have r3: "r3 = Inr ()" by (cases r3) (auto simp: reindex_def Let_def s2_def)
  have a: "foldR (apply_block nd cps replay_flags) (cs_log s) g = Inr (cs_db s3)" "cs_undo s3 = []"
    using replay_log_applies [OF p [unfolded r3] assms(2)] g by (simp_all add: s2_def)
  have "cs_db s' = cs_db s3 \<and> cs_undo s' = [] \<and> cs_revision s' = int (head_block_num (cs_db s3))"
    using assms(1) o r1 r3 g p ne a(2) by (auto simp: reindex_def Let_def s2_def set_chain_revision_def split: if_splits)
  with a g show ?thesis by auto
qed

definition log_sound :: "node \<Rightarrow> (nat \<times> string) list \<Rightarrow> signed_block list \<Rightarrow> database \<Rightarrow> bool" where
  "log_sound nd cps blocks db \<longleftrightarrow>
     run_admissible (apply_block nd cps replay_flags)
       (\<lambda>b db. case checkpoint_skip nd cps b replay_flags of Inl _ \<Rightarrow> True | Inr skip \<Rightarrow> block_sound nd skip b db) blocks db"

lemma replay_reaches:
  "foldR (apply_block nd cps replay_flags) blocks db = Inr db' \<Longrightarrow> log_sound nd cps blocks db \<Longrightarrow> (chain_step nd cps)\<^sup>*\<^sup>* db db'"
proof (induction blocks arbitrary: db)
  case (Cons b blocks)
  from Cons.prems(1) obtain db1 where 1: "apply_block nd cps replay_flags b db = Inr db1"
    and rest: "foldR (apply_block nd cps replay_flags) blocks db1 = Inr db'" by (auto simp: bindR_eq_Inr)
  from 1 obtain skip where k: "checkpoint_skip nd cps b replay_flags = Inr skip" by (auto simp: apply_block_def bindR_eq_Inr)
  with 1 Cons.prems(2) have "block_sound nd skip b db" and "log_sound nd cps blocks db1" by (simp_all add: log_sound_def)
  then show ?case using chain_step.intros [OF k _ 1] Cons.IH [OF rest] by (meson converse_rtranclp_into_rtranclp)
qed simp

text \<open>With the flags of the replay no transaction is recorded.\<close>

lemma skips_or: "skips (a OR b) m \<longleftrightarrow> skips a m \<or> skips b m"
  by (simp add: skips_def bit.conj_disj_distrib2 or_eq_0_iff)

lemma replay_skips_records: "checkpoint_skip nd cps b replay_flags = Inr skip \<Longrightarrow> skips skip skip_transaction_dupe_check"
proof -
  have "skips skip_transaction_dupe_check skip_transaction_dupe_check"
    by (simp add: skips_def skip_transaction_dupe_check_def)
  then show "checkpoint_skip nd cps b replay_flags = Inr skip \<Longrightarrow> skips skip skip_transaction_dupe_check"
    by (auto simp: checkpoint_skip_def replay_flags_def skips_or res_simps split: if_splits)
qed

lemma transactions_unrecorded:
  assumes "interpreters_apart nd" and "skips skip skip_transaction_dupe_check"
  shows "foldR (apply_transaction nd skip) trxs db = Inr db' \<Longrightarrow> db_sorted db \<Longrightarrow> transactions db' = transactions db"
proof (induction trxs arbitrary: db)
  case (Cons x xs)
  from Cons.prems(1) obtain db1 where x: "apply_transaction nd skip x db = Inr db1" and xs: "foldR (apply_transaction nd skip) xs db1 = Inr db'"
    by (auto simp: bindR_eq_Inr)
  from x assms(2) obtain t where "foldR (apply_operation nd) (operations x) (db\<lparr>transactions := t\<rparr>) = Inr db1" "t = transactions db"
    by (elim apply_transactionE) blast
  then have "calm db db1" using operations_calm [OF assms(1)] Cons.prems(2) by simp
  with Cons.IH [OF xs] Cons.prems(2) show ?case by (simp add: calm_def)
qed simp

lemma block_unrecorded:
  assumes "interpreters_apart nd" and "apply_block_body nd skip b db = Inr db'" and "chain_inv db"
    and "skips skip skip_transaction_dupe_check" and "indices (transactions db) = []"
  shows "indices (transactions db') = []"
proof -
  from assms(2) obtain db1 wi db2 db3 where o: "open_block nd skip b db = Inr (db1, wi)"
    and t: "foldR (apply_transaction nd skip) (block_transactions b) db1 = Inr db2"
    and r: "record_block nd skip b wi db2 = Inr db3" and s: "settle_block (node_fc nd) db3 = Inr db'"
    by (auto simp: apply_block_body_def bindR_eq_Inr)
  have "db_sorted db1" using open_block_orderly [OF o] assms(3) by (auto simp: orderly_def chain_inv_def)
  then have "transactions db2 = transactions db"
    using transactions_unrecorded [OF assms(1,4) t] open_block_steady [OF o] by (simp add: steady_def)
  then have "indices (transactions db3) = []" using record_block_head [OF r] assms(5) by simp
  then show ?thesis using settle_block_steady [OF s] by (simp add: steady_def)
qed

context exact_node
begin

lemma replay_unrecorded:
  "foldR (apply_block nd cps replay_flags) blocks db = Inr db' \<Longrightarrow> log_sound nd cps blocks db \<Longrightarrow> chain_inv db \<Longrightarrow>
   indices (transactions db) = [] \<Longrightarrow> indices (transactions db') = []"
proof (induction blocks arbitrary: db)
  case (Cons b blocks)
  from Cons.prems(1) obtain db1 where 1: "apply_block nd cps replay_flags b db = Inr db1"
    and rest: "foldR (apply_block nd cps replay_flags) blocks db1 = Inr db'" by (auto simp: bindR_eq_Inr)
  from 1 obtain skip where k: "checkpoint_skip nd cps b replay_flags = Inr skip" by (auto simp: apply_block_def bindR_eq_Inr)
  have s: "block_sound nd skip b db" "log_sound nd cps blocks db1" using 1 k Cons.prems(2) by (simp_all add: log_sound_def)
  have "chain_inv db1" using chain_step_keeps [OF chain_step.intros [OF k s(1) 1]] Cons.prems(3) by blast
  moreover have "indices (transactions db1) = []"
    using block_unrecorded [OF node_apart apply_block_runs [OF 1 k] Cons.prems(3) replay_skips_records [OF k] Cons.prems(4)] .
  ultimately show ?case using Cons.IH [OF rest s(2)] by blast
qed simp

end

subsection \<open>An example: the replay of one block\<close>

lemma replay_flags_value: "replay_flags = 12007"
  by (simp add: replay_flags_def skip_witness_signature_def skip_transaction_signatures_def skip_transaction_dupe_check_def skip_tapos_check_def
      skip_merkle_check_def skip_witness_schedule_check_def skip_authority_check_def skip_validate_def skip_validate_invariants_def skip_block_log_def)

lemma replay_skips [simp]:
  "skips replay_flags skip_witness_signature" "skips replay_flags skip_transaction_dupe_check" "skips replay_flags skip_tapos_check"
  "skips replay_flags (skip_transaction_signatures OR skip_authority_check)" "skips replay_flags skip_merkle_check"
  "skips replay_flags skip_witness_schedule_check" "skips replay_flags skip_validate" "skips replay_flags skip_block_log"
  "\<not> skips replay_flags skip_undo_history_check"
  by (simp_all add: replay_flags_value skips_def skip_witness_signature_def skip_transaction_signatures_def skip_transaction_dupe_check_def
      skip_tapos_check_def skip_merkle_check_def skip_witness_schedule_check_def skip_authority_check_def skip_validate_def
      skip_block_log_def skip_undo_history_check_def)

lemma replayed_block_opens:
  "open_block sample_node replay_flags first_block block_chain =
     Inr (block_chain\<lparr>dgpo := (dgpo block_chain)\<lparr>g_current_witness := ''alice''\<rparr>\<rparr>, 0)"
proof -
  have h: "validate_block_header sample_node replay_flags first_block block_chain = Inr (0, sample_witness ''alice'' 0)"
    by (simp add: validate_block_header_def) (simp add: get_witness_def block_chain_def sample_chain_def sample_simps default_witness_schedule_object_def default_witness_object_def
       sample_witness_def first_block_def sample_block_def head_block_time_def get_by_def find_by_def)
  show ?thesis
    by (simp add: open_block_def h) (simp add: modify_dgpo_def process_header_extensions_def get_witness_def block_evals
       default_hardfork_property_object_def)
qed

lemma replayed_transactions:
  "\<exists>a. foldR (apply_transaction sample_node replay_flags) [current_trx] (block_chain\<lparr>dgpo := (dgpo block_chain)\<lparr>g_current_witness := ''alice''\<rparr>\<rparr>) =
     Inr (block_chain\<lparr>dgpo := (dgpo block_chain)\<lparr>g_current_witness := ''alice''\<rparr>, accounts := a\<rparr>) \<and>
     indices a = [(0, sample_account ''alice'' 995), (1, sample_account ''bob'' 505), (2, sample_account ''null'' 0)]"
proof -
  let ?db = "block_chain\<lparr>dgpo := (dgpo block_chain)\<lparr>g_current_witness := ''alice''\<rparr>\<rparr>"
  have e: "check_expiration current_trx ?db = Inr ()"
    by (simp add: check_expiration_def current_trx_def block_evals MAX_TIME_UNTIL_EXPIRATION_def)
  show ?thesis
    by (simp add: apply_transaction_def e)
      (simp add: block_evals current_trx_def sample_trx_def
        apply_operation_def sample_transfer_def transfer_evaluator_def get_account_def get_balance_def eval64 adjust_balance_def
        modify_account_def modify_def modify_ok_def account_conflict_def)
qed

lemma replayed_block_recorded:
  assumes "indices a = [(0, sample_account ''alice'' 995), (1, sample_account ''bob'' 505), (2, sample_account ''null'' 0)]"
  shows "\<exists>w g bs. record_block sample_node replay_flags first_block 0
     (block_chain\<lparr>dgpo := (dgpo block_chain)\<lparr>g_current_witness := ''alice''\<rparr>, accounts := a\<rparr>) =
     Inr (block_chain\<lparr>dgpo := g, accounts := a, witnesses := w, block_summaries := bs, transactions := transactions block_chain\<rparr>) \<and>
     g_head_block_number g = 1 \<and> g_time g = 1600000003"
  by (simp add: record_block_def zero_block_num update_global_dynamic_data_def)
    (simp add: block_evals get_slot_at_time_def get_slot_time_def BLOCK_INTERVAL_def time_plus_def zero_block_num
      Let_def modify_dgpo_def advance_head_def record_slots_def record_slot_def minus32_def MAX_UNDO_HISTORY_def update_signing_witness_def
      modify_witness_def modify_def modify_ok_def witness_conflict_def update_last_irreversible_block_def START_MINER_VOTING_BLOCK_def
      BLOCKS_PER_DAY_def MAX_WITNESSES_def note_block_summary_def modify_block_summary_def no_conflict_def
      clear_expired_transactions_def due_transaction_def first_due_def clear_expired_orders_def due_order_def
      clear_expired_delegations_def due_delegation_def update_witness_schedule_def update_virtual_supply_def)

lemma first_block_replays:
  "\<exists>db'. apply_block_body sample_node replay_flags first_block block_chain = Inr db' \<and>
     block_sound sample_node replay_flags first_block block_chain"
proof -
  let ?db = "block_chain\<lparr>dgpo := (dgpo block_chain)\<lparr>g_current_witness := ''alice''\<rparr>\<rparr>"
  have trx: "block_transactions first_block = [current_trx]" by (simp add: first_block_def)
  obtain a where t: "foldR (apply_transaction sample_node replay_flags) [current_trx] ?db = Inr (?db\<lparr>accounts := a\<rparr>)"
    and a: "indices a = [(0, sample_account ''alice'' 995), (1, sample_account ''bob'' 505), (2, sample_account ''null'' 0)]"
    using replayed_transactions by auto
  obtain w g bs where r: "record_block sample_node replay_flags first_block 0 (?db\<lparr>accounts := a\<rparr>) =
     Inr (block_chain\<lparr>dgpo := g, accounts := a, witnesses := w, block_summaries := bs, transactions := transactions block_chain\<rparr>)"
    and g: "g_head_block_number g = 1" "g_time g = 1600000003"
    using replayed_block_recorded [OF a] by auto
  note s = first_block_settled [OF a g, where w = w and bs = bs and ts = "transactions block_chain"]
  have "transaction_sound sample_node current_trx db" for db
    using sample_trx_valid by (auto simp: transaction_sound_def sample_node_def current_trx_def sample_trx_def operation_sound_def split: sum.splits)
  then have ok: "run_admissible (apply_transaction sample_node replay_flags) (transaction_sound sample_node) [current_trx] ?db"
    by (auto split: sum.splits)
  have fc: "node_fc sample_node = fc64" by (simp add: sample_node_def)
  show ?thesis
    using t r s ok by (auto simp: apply_block_body_def block_sound_def replayed_block_opens trx fc)
qed

lemma first_block_log:
  "\<exists>s'. replay_blocks sample_node [] 1 [first_block] fresh_node = (s', Inr ())" "log_sound sample_node [] [first_block] block_chain"
  "log_numbered [first_block]" "block_num (last [first_block]) = 1"
proof -
  obtain db where r: "apply_block_body sample_node replay_flags first_block block_chain = Inr db"
    and s: "block_sound sample_node replay_flags first_block block_chain" using first_block_replays by blast
  from r obtain db1 where db1: "block_start sample_node replay_flags first_block block_chain = Inr db1"
    and "block_finish sample_node first_block db1 = Inr db" by (auto simp: apply_block_split bindR_eq_Inr)
  then have "run_block sample_node [] replay_flags first_block fresh_node =
      ((fst (keep_irreversible replay_flags (fresh_node\<lparr>cs_db := db1\<rparr>)))\<lparr>cs_db := db\<rparr>, Inr ())"
    by (simp add: run_block_def checkpoint_skip_def fresh_node_def keep_irreversible_def Let_def)
  moreover show n: "block_num (last [first_block]) = 1"
    using zero_block_num [of first_block] by (simp add: first_block_def sample_block_def)
  ultimately show "\<exists>s'. replay_blocks sample_node [] 1 [first_block] fresh_node = (s', Inr ())" by simp
  show "log_sound sample_node [] [first_block] block_chain"
    using s by (simp add: log_sound_def checkpoint_skip_def split: sum.splits)
  show "log_numbered [first_block]" using n by (simp add: log_numbered_def)
qed

subsection \<open>Properties of opening and replaying\<close>


definition left_db :: database where
  "left_db = sample_db\<lparr>dgpo := sample_dgpo\<lparr>g_head_block_number := 1, g_head_block_id := block_id sample_hashes first_block\<rparr>\<rparr>"

definition left_file :: mapped_file where
  "left_file = \<lparr> mf_db = empty_database, mf_undo = [(2, left_db, False)], mf_revision = 2, mf_torn = False \<rparr>"

lemma left_db_checks:
  "validate_invariants fc64 left_db = Inr ()" "head_block_num left_db = 1" "init_hardforks left_db = Inr ()"
  "g_head_block_id (dgpo left_db) = block_id sample_hashes first_block"
  by (simp_all add: left_db_def head_block_num_def validate_invariants_def validate_account_sums_def by_name_order_def sum_assets_def
      vsf_votes_of_def witness_vote_weight_def sample_simps eval64 PROXY_TO_SELF_ACCOUNT_def)
    (simp add: init_hardforks_def default_hardfork_property_object_def hf_at_def hardfork_versions_def NUM_HARDFORKS_def
      BLOCKCHAIN_HARDFORK_VERSION_def BLOCKCHAIN_VERSION_def version_num_def hardfork_version_of_def)






end
