(* ===== verification/Witness_Plugin.thy ===== *)
theory Witness_Plugin
  imports Produce_Block
begin

text \<open>
  The plugin of a node that produces blocks (\<open>libraries/plugins/witness\<close>): the limit on the
  bandwidth of accounts, the reserve ratio behind it, the checks of operations while
  producing, the lock on the editing of content, and the loop that decides when to produce a
  block. The containers of the plugin are a record of their own. Its handlers are called by
  the chain through \<open>BMCHAIN_TRY_NOTIFY\<close>, which lets only a \<open>plugin_exception\<close> out: \<open>notify_exn\<close>
  tells the two kinds apart, and a handler returns the state it reached beside its result.
  Keys derived from a memo, packed sizes and the clock come from elsewhere and are arguments.

  Shown: the reserve ratio stays within its bounds and no step of its computation leaves the
  64-bit range; a transaction that a producing node lets through leaves its accounts within
  their share of the bandwidth; and a block is produced only in a slot of a witness of the
  node, at the time of the slot, with its key and enough participation.
\<close>

unbundle bit_operations_syntax

subsection \<open>Objects\<close>

datatype bandwidth_type = bandwidth_post | bandwidth_forum | bandwidth_market

record account_bandwidth_object =
  ab_account :: account_name
  ab_type :: bandwidth_type
  ab_average_bandwidth :: int
  ab_lifetime_bandwidth :: int
  ab_last_bandwidth_update :: time_point_sec

record content_edit_lock_object =
  cl_account :: account_name
  cl_lock_time :: time_point_sec

record reserve_ratio_object =
  rr_average_block_size :: int
  rr_current_reserve_ratio :: int
  rr_max_virtual_bandwidth :: "128 word"

record witness_db =
  bandwidths :: "account_bandwidth_object generic_index"
  edit_locks :: "content_edit_lock_object generic_index"
  reserve_ratios :: "reserve_ratio_object generic_index"

definition bandwidth_conflict :: "account_bandwidth_object \<Rightarrow> account_bandwidth_object \<Rightarrow> bool" where
  "bandwidth_conflict v w \<longleftrightarrow> ab_account v = ab_account w \<and> ab_type v = ab_type w"

definition edit_lock_conflict :: "content_edit_lock_object \<Rightarrow> content_edit_lock_object \<Rightarrow> bool" where
  "edit_lock_conflict v w \<longleftrightarrow> cl_account v = cl_account w"

datatype notify_exn = plugin_exception string | passing_exn exn

type_synonym 'a plugin_run = "witness_db \<times> (notify_exn + 'a)"

definition BANDWIDTH_AVERAGE_WINDOW_SECONDS :: nat where "BANDWIDTH_AVERAGE_WINDOW_SECONDS = 60*60*24*7"
definition BANDWIDTH_PRECISION :: nat where "BANDWIDTH_PRECISION = 1000000"
definition SOFT_MAX_COMMENT_DEPTH :: nat where "SOFT_MAX_COMMENT_DEPTH = 0xff"
definition MAX_RESERVE_RATIO :: int where "MAX_RESERVE_RATIO = 20000"
definition RESERVE_RATIO_PRECISION :: int where "RESERVE_RATIO_PRECISION = 10000"
definition RESERVE_RATIO_MIN_INCREMENT :: int where "RESERVE_RATIO_MIN_INCREMENT = 5000"
definition DISTANCE_CALC_PRECISION :: int where "DISTANCE_CALC_PRECISION = 10000"

subsection \<open>The reserve ratio\<close>

text \<open>
  Signed overflow has no defined result in the source; a 32-bit product wraps here, and the
  64-bit products are integers, which \<open>reserve_ratio_stays_bounded\<close> shows to be in range.
\<close>

definition to_int32 :: "int \<Rightarrow> int" where
  "to_int32 x = (x + 2 ^ 31) mod 2 ^ 32 - 2 ^ 31"

definition average_size :: "int \<Rightarrow> nat \<Rightarrow> int" where
  "average_size average n = to_int32 ((to_int32 (99 * average) mod 2 ^ 64 + int n) mod 2 ^ 64 div 100)"

definition size_distance :: "int \<Rightarrow> int \<Rightarrow> int" where
  "size_distance average max_block_size =
     ((average - max_block_size sdiv 4) * DISTANCE_CALC_PRECISION) sdiv (max_block_size sdiv 4)"

definition adjust_ratio :: "int \<Rightarrow> int \<Rightarrow> int" where
  "adjust_ratio ratio distance =
     (if distance > 0 then
        let r = ratio - (ratio * distance) sdiv (distance + DISTANCE_CALC_PRECISION) in
        if r < RESERVE_RATIO_PRECISION then RESERVE_RATIO_PRECISION else r
      else
        let r = ratio + max RESERVE_RATIO_MIN_INCREMENT ((ratio * distance) sdiv (distance - DISTANCE_CALC_PRECISION)) in
        if r > MAX_RESERVE_RATIO * RESERVE_RATIO_PRECISION then MAX_RESERVE_RATIO * RESERVE_RATIO_PRECISION else r)"

definition virtual_bandwidth :: "fc_lib \<Rightarrow> int \<Rightarrow> int \<Rightarrow> 128 word" where
  "virtual_bandwidth fc max_block_size ratio =
     (u128_of_int fc max_block_size * u128_of_int fc ratio *
      u128_of_int fc (int (BANDWIDTH_PRECISION * BANDWIDTH_AVERAGE_WINDOW_SECONDS))) div
     u128_of_int fc (int BLOCK_INTERVAL * RESERVE_RATIO_PRECISION)"

definition initial_ratio :: "fc_lib \<Rightarrow> reserve_ratio_object" where
  "initial_ratio fc =
     \<lparr> rr_average_block_size = 0, rr_current_reserve_ratio = MAX_RESERVE_RATIO * RESERVE_RATIO_PRECISION,
       rr_max_virtual_bandwidth =
         (u128_of_int fc (int MAX_BLOCK_SIZE) * u128_of_int fc MAX_RESERVE_RATIO * u128_of_int fc (int BANDWIDTH_PRECISION) *
          u128_of_int fc (int BANDWIDTH_AVERAGE_WINDOW_SECONDS)) div u128_of_int fc (int BLOCK_INTERVAL) \<rparr>"

text \<open>A division by zero ends the process; here it is an exception.\<close>

definition update_ratio :: "fc_lib \<Rightarrow> nat \<Rightarrow> nat \<Rightarrow> nat \<Rightarrow> reserve_ratio_object \<Rightarrow> exn + reserve_ratio_object" where
  "update_ratio fc head_num max_block_size n r =
     (let r1 = r\<lparr>rr_average_block_size := average_size (rr_average_block_size r) n\<rparr> in
      if head_num mod 20 \<noteq> 0 then Inr r1
      else if int max_block_size sdiv 4 = 0 then Inl (Other_exception ''division by zero'')
      else
        let ratio = adjust_ratio (rr_current_reserve_ratio r1) (size_distance (rr_average_block_size r1) (int max_block_size)) in
        Inr (r1\<lparr>rr_current_reserve_ratio := ratio, rr_max_virtual_bandwidth := virtual_bandwidth fc (int max_block_size) ratio\<rparr>))"

definition on_block :: "node \<Rightarrow> signed_block \<Rightarrow> database \<Rightarrow> witness_db \<Rightarrow> exn + witness_db" where
  "on_block nd b db w =
     (case find_id (reserve_ratios w) 0 of
        None \<Rightarrow>
          bindR (emplace no_conflict (\<lambda>_. Inr (initial_ratio (node_fc nd))) (reserve_ratios w)) (\<lambda>(g, _).
          Inr (w\<lparr>reserve_ratios := g\<rparr>))
      | Some _ \<Rightarrow>
          bindR (modify no_conflict 0
            (update_ratio (node_fc nd) (head_block_num db) (g_maximum_block_size (dgpo db)) (packed_size (node_hashes nd) b))
            (reserve_ratios w)) (\<lambda>g.
          Inr (w\<lparr>reserve_ratios := g\<rparr>)))"

subsection \<open>Bandwidth\<close>

definition throwing :: "witness_db \<Rightarrow> exn + 'a \<Rightarrow> ('a \<Rightarrow> 'b plugin_run) \<Rightarrow> 'b plugin_run" where
  "throwing w r k = (case r of Inl e \<Rightarrow> (w, Inl (passing_exn e)) | Inr a \<Rightarrow> k a)"

text \<open>What is left of the average after \<open>delta_time\<close> seconds.\<close>

definition decayed_bandwidth :: "fc_lib \<Rightarrow> int \<Rightarrow> int \<Rightarrow> exn + int" where
  "decayed_bandwidth fc delta_time average =
     (if delta_time > int BANDWIDTH_AVERAGE_WINDOW_SECONDS then Inr 0
      else
        bindR (u128_to_u64 fc
          ((u128_of_int fc (int BANDWIDTH_AVERAGE_WINDOW_SECONDS - delta_time) * u128_of_int fc average) div
           u128_of_int fc (int BANDWIDTH_AVERAGE_WINDOW_SECONDS))) (\<lambda>n.
        Inr (safe_of_u64 fc n)))"

definition find_or_create_band :: "account_name \<Rightarrow> bandwidth_type \<Rightarrow> witness_db \<Rightarrow> exn + (witness_db \<times> oid \<times> account_bandwidth_object)" where
  "find_or_create_band n t w =
     (case find_by (\<lambda>b. ab_account b = n \<and> ab_type b = t) (bandwidths w) of
        Some (i, b) \<Rightarrow> Inr (w, i, b)
      | None \<Rightarrow>
          (let b = \<lparr> ab_account = n, ab_type = t, ab_average_bandwidth = 0, ab_lifetime_bandwidth = 0, ab_last_bandwidth_update = 0 \<rparr> in
           bindR (emplace bandwidth_conflict (\<lambda>_. Inr b) (bandwidths w)) (\<lambda>(g, i).
           Inr (w\<lparr>bandwidths := g\<rparr>, i, b))))"

definition charge_band ::
  "fc_lib \<Rightarrow> time_point_sec \<Rightarrow> int \<Rightarrow> int \<Rightarrow> account_bandwidth_object \<Rightarrow> exn + account_bandwidth_object" where
  "charge_band fc now new_bandwidth trx_bandwidth b =
     bindR (safe_add fc (ab_lifetime_bandwidth b) trx_bandwidth) (\<lambda>lifetime.
     Inr (b\<lparr>ab_average_bandwidth := new_bandwidth, ab_lifetime_bandwidth := lifetime, ab_last_bandwidth_update := now\<rparr>))"

definition has_bandwidth :: "fc_lib \<Rightarrow> int \<Rightarrow> int \<Rightarrow> int \<Rightarrow> 128 word \<Rightarrow> bool" where
  "has_bandwidth fc account_vshares total_vshares average max_virtual_bandwidth \<longleftrightarrow>
     u128_of_int fc account_vshares * max_virtual_bandwidth > u128_of_int fc average * u128_of_int fc total_vshares"

definition update_account_bandwidth ::
  "node \<Rightarrow> account_object \<Rightarrow> nat \<Rightarrow> bandwidth_type \<Rightarrow> database \<Rightarrow> witness_db \<Rightarrow> unit plugin_run" where
  "update_account_bandwidth nd a trx_size t db w =
     (let fc = node_fc nd; total = amount (g_total_vesting_shares (dgpo db)); now = head_block_time db in
      if total \<le> 0 then (w, Inr ())
      else
        throwing w (find_or_create_band (a_name a) t w) (\<lambda>(w1, i, band).
        let trx_bandwidth = safe_of_u64 fc (trx_size * BANDWIDTH_PRECISION mod 2 ^ 64);
            delta_time = int now - int (ab_last_bandwidth_update band) in
        throwing w1 (decayed_bandwidth fc delta_time (ab_average_bandwidth band)) (\<lambda>decayed.
        throwing w1 (safe_add fc decayed trx_bandwidth) (\<lambda>new_bandwidth.
        throwing w1 (modify bandwidth_conflict i (charge_band fc now new_bandwidth trx_bandwidth) (bandwidths w1)) (\<lambda>g.
        let w2 = w1\<lparr>bandwidths := g\<rparr> in
        throwing w2 (effective_vesting_shares fc a) (\<lambda>vshares.
        throwing w2 (get_id (reserve_ratios w2) 0) (\<lambda>reserve.
        if node_producing nd \<and> \<not> has_bandwidth fc (amount vshares) total new_bandwidth (rr_max_virtual_bandwidth reserve)
        then (w2, Inl (plugin_exception ''bandwidth limit exceeded. Please wait to transact or power up BMT.''))
        else (w2, Inr ()))))))))"

definition required_accounts :: "signed_transaction \<Rightarrow> account_name list" where
  "required_accounts trx =
     (case get_required_authorities (operations trx) of
        (active, owner, posting, _) \<Rightarrow> fold flat_insert (owner @ posting) active)"

definition charge_account :: "node \<Rightarrow> nat \<Rightarrow> signed_transaction \<Rightarrow> account_name \<Rightarrow> database \<Rightarrow> witness_db \<Rightarrow> unit plugin_run" where
  "charge_account nd trx_size trx n db w =
     throwing w (get_account n db) (\<lambda>(_, acnt).
     case update_account_bandwidth nd acnt trx_size bandwidth_forum db w of
       (w1, Inl e) \<Rightarrow> (w1, Inl e)
     | (w1, Inr _) \<Rightarrow>
         if list_ex is_market_operation (operations trx)
         then update_account_bandwidth nd acnt (trx_size * 10 mod 2 ^ 32) bandwidth_market db w1
         else (w1, Inr ()))"

fun charge_accounts :: "node \<Rightarrow> nat \<Rightarrow> signed_transaction \<Rightarrow> account_name list \<Rightarrow> database \<Rightarrow> witness_db \<Rightarrow> unit plugin_run" where
  "charge_accounts nd trx_size trx [] db w = (w, Inr ())"
| "charge_accounts nd trx_size trx (n # ns) db w =
     (case charge_account nd trx_size trx n db w of
        (w1, Inl e) \<Rightarrow> (w1, Inl e)
      | (w1, Inr _) \<Rightarrow> charge_accounts nd trx_size trx ns db w1)"

definition pre_transaction :: "(signed_transaction \<Rightarrow> nat) \<Rightarrow> node \<Rightarrow> signed_transaction \<Rightarrow> database \<Rightarrow> witness_db \<Rightarrow> unit plugin_run" where
  "pre_transaction pack_size nd trx db w =
     charge_accounts nd (pack_size trx mod 2 ^ 32) trx (required_accounts trx) db w"

text \<open>\<open>BMCHAIN_TRY_NOTIFY\<close>.\<close>

definition try_notify :: "unit plugin_run \<Rightarrow> witness_db \<times> string option" where
  "try_notify r = (case r of (w, Inl (plugin_exception m)) \<Rightarrow> (w, Some m) | (w, Inl (passing_exn _)) \<Rightarrow> (w, None) | (w, Inr _) \<Rightarrow> (w, None))"

subsection \<open>Operations while producing\<close>

text \<open>
  The keys a memo would give away: the key it encodes, if it is one, and the keys derived from
  it as a password. Both derivations are code of the library \<open>fc\<close>.
\<close>

record memo_keys =
  key_in_memo :: "string \<Rightarrow> public_key_type option"
  key_from_seed :: "string \<Rightarrow> public_key_type"

definition plugin_assert :: "bool \<Rightarrow> string \<Rightarrow> notify_exn + unit" where
  "plugin_assert ok m = (if ok then Inr () else Inl (plugin_exception m))"

definition check_memo :: "memo_keys \<Rightarrow> string \<Rightarrow> account_object \<Rightarrow> account_authority_object \<Rightarrow> notify_exn + unit" where
  "check_memo mk memo a auth =
     (let seed = (\<lambda>role. key_from_seed mk (a_name a @ role @ memo));
          keys = (case key_in_memo mk memo of Some k \<Rightarrow> [k] | None \<Rightarrow> []) @ [seed ''owner'', seed ''active'', seed ''posting''];
          clear = (\<lambda>au. list_all (\<lambda>k. k \<notin> set keys) (get_keys au)) in
      bindR (plugin_assert (clear (aa_owner auth)) ''Detected private owner key in memo field. You should change your owner keys.'') (\<lambda>_.
      bindR (plugin_assert (clear (aa_active auth)) ''Detected private active key in memo field. You should change your active keys.'') (\<lambda>_.
      bindR (plugin_assert (clear (aa_posting auth)) ''Detected private posting key in memo field. You should change your posting keys.'') (\<lambda>_.
      plugin_assert (a_memo_key a \<notin> set keys) ''Detected private memo key in memo field. You should change your memo key.''))))"

definition passing :: "exn + 'a \<Rightarrow> notify_exn + 'a" where
  "passing r = (case r of Inl e \<Rightarrow> Inl (passing_exn e) | Inr a \<Rightarrow> Inr a)"

definition visit_memo :: "memo_keys \<Rightarrow> account_name \<Rightarrow> string \<Rightarrow> database \<Rightarrow> notify_exn + unit" where
  "visit_memo mk from memo db =
     (if memo = [] then Inr ()
      else
        bindR (passing (get_account from db)) (\<lambda>(_, a).
        bindR (passing (get_account_authority from db)) (\<lambda>(_, auth).
        check_memo mk memo a auth)))"

definition visit_comment_options :: "comment_options_operation \<Rightarrow> database \<Rightarrow> notify_exn + unit" where
  "visit_comment_options p db =
     bindR (passing (get_comment (cp_author p) (cp_permlink p) db)) (\<lambda>_.
     plugin_assert
       (list_all (\<lambda>e. case e of comment_payout_beneficiaries bs \<Rightarrow> length bs \<le> 8 | comment_curation_rewards_percent _ \<Rightarrow> True) (cp_extensions p))
       ''Cannot specify more than 8 beneficiaries.'')"

definition visit_comment :: "comment_operation \<Rightarrow> database \<Rightarrow> witness_db \<Rightarrow> notify_exn + unit" where
  "visit_comment p db w =
     bindR (if cm_parent_author p = ROOT_POST_PARENT then Inr ()
            else case find_comment (cm_parent_author p) (cm_parent_permlink p) db of
              None \<Rightarrow> Inr ()
            | Some (_, parent) \<Rightarrow> plugin_assert (c_depth parent < SOFT_MAX_COMMENT_DEPTH) ''Comment is nested too deep'') (\<lambda>_.
     case find_comment (cm_author p) (cm_permlink p) db of
       None \<Rightarrow> Inr ()
     | Some (_, c) \<Rightarrow>
         if c_cashout_time c = time_max then
           plugin_assert
             (case find_by (\<lambda>l. cl_account l = cm_author p) (edit_locks w) of
                None \<Rightarrow> False
              | Some (_, l) \<Rightarrow> head_block_time db < cl_lock_time l)
             ''The comment is archived''
         else Inr ())"

definition pre_operation :: "memo_keys \<Rightarrow> node \<Rightarrow> operation \<Rightarrow> database \<Rightarrow> witness_db \<Rightarrow> notify_exn + unit" where
  "pre_operation mk nd opn db w =
     (if \<not> node_producing nd then Inr ()
      else case opn of
        comment_options_op p \<Rightarrow> visit_comment_options p db
      | comment_op p \<Rightarrow> visit_comment p db w
      | transfer_op p \<Rightarrow> visit_memo mk (tr_from p) (tr_memo p) db
      | transfer_to_savings_op p \<Rightarrow> visit_memo mk (ts_from p) (ts_memo p) db
      | transfer_from_savings_op p \<Rightarrow> visit_memo mk (tf_from p) (tf_memo p) db
      | _ \<Rightarrow> Inr ())"

record enable_content_editing_operation =
  ee_account :: account_name
  ee_relock_time :: time_point_sec

definition enable_content_editing_validate :: "enable_content_editing_operation \<Rightarrow> exn + unit" where
  "enable_content_editing_validate p = validate_account_name (ee_account p)"

definition enable_content_editing_evaluator :: "enable_content_editing_operation \<Rightarrow> witness_db \<Rightarrow> exn + witness_db" where
  "enable_content_editing_evaluator p w =
     (case find_by (\<lambda>l. cl_account l = ee_account p) (edit_locks w) of
        None \<Rightarrow>
          bindR (emplace edit_lock_conflict (\<lambda>_. Inr \<lparr> cl_account = ee_account p, cl_lock_time = ee_relock_time p \<rparr>) (edit_locks w)) (\<lambda>(g, _).
          Inr (w\<lparr>edit_locks := g\<rparr>))
      | Some (i, _) \<Rightarrow>
          bindR (modify edit_lock_conflict i (\<lambda>l. Inr (l\<lparr>cl_lock_time := ee_relock_time p\<rparr>)) (edit_locks w)) (\<lambda>g.
          Inr (w\<lparr>edit_locks := g\<rparr>)))"

subsection \<open>Producing blocks\<close>

datatype block_production_condition =
    produced | not_synced | not_my_turn | not_time_yet | no_private_key | low_participation | lag | consecutive
  | wait_for_genesis | exception_producing_block

text \<open>The private keys are the producers that sign with them.\<close>

record witness_plugin =
  production_enabled :: bool
  required_witness_participation :: nat
  production_skip_flags :: skip_flags
  private_keys :: "(public_key_type \<times> producer) list"
  own_witnesses :: "account_name list"

text \<open>The second attempt is made without pending transactions.\<close>

fun try_generate ::
  "nat \<Rightarrow> producer \<Rightarrow> node \<Rightarrow> (nat \<times> string) list \<Rightarrow> skip_flags \<Rightarrow> time_point_sec \<Rightarrow> account_name \<Rightarrow> chain_state \<Rightarrow>
   chain_state \<times> signed_block option" where
  "try_generate 0 pr nd checkpoints skip when w s = (s, None)"
| "try_generate (Suc n) pr nd checkpoints skip when w s =
     (case generate_block pr nd checkpoints skip when w s of
        (s1, Inr b) \<Rightarrow> (s1, Some b)
      | (s1, Inl e) \<Rightarrow> try_generate n pr nd checkpoints skip when w (clear_pending s1))"

definition wake_time :: "nat \<Rightarrow> time_point_sec" where
  "wake_time now_fine = (now_fine + 500000) div 1000000 mod 2 ^ 32"

text \<open>
  \<open>now_fine\<close> is the clock in microseconds. The block that is broadcast is returned. A witness
  of the schedule that does not exist is an exception here; the source dereferences the
  end of the index.
\<close>

definition produce_in_slot ::
  "node \<Rightarrow> (nat \<times> string) list \<Rightarrow> time_point_sec \<Rightarrow> witness_plugin \<Rightarrow> chain_state \<Rightarrow>
   chain_state \<times> (exn + block_production_condition \<times> signed_block option)" where
  "produce_in_slot nd checkpoints now pl s =
     (let db = cs_db s; slot = get_slot_at_time now db in
      if slot = 0 then (s, Inr (not_time_yet, None))
      else case get_scheduled_witness slot db of
        Inl e \<Rightarrow> (s, Inl e)
      | Inr scheduled_witness \<Rightarrow>
          if scheduled_witness \<notin> set (own_witnesses pl) then (s, Inr (not_my_turn, None))
          else case find_witness scheduled_witness db of
            None \<Rightarrow> (s, Inl (Other_exception ''end of the index of witnesses''))
          | Some (_, wit) \<Rightarrow>
              let scheduled_time = get_slot_time slot db in
              case map_of (private_keys pl) (w_signing_key wit) of
                None \<Rightarrow> (s, Inr (no_private_key, None))
              | Some pr \<Rightarrow>
                  if witness_participation_rate db < required_witness_participation pl then (s, Inr (low_participation, None))
                  else if \<bar>int scheduled_time - int now\<bar> * 1000000 > 500000 then (s, Inr (lag, None))
                  else case try_generate 2 pr nd checkpoints (production_skip_flags pl) scheduled_time scheduled_witness s of
                    (s1, Some b) \<Rightarrow> (s1, Inr (produced, Some b))
                  | (s1, None) \<Rightarrow> (s1, Inr (exception_producing_block, None)))"

definition maybe_produce_block ::
  "node \<Rightarrow> (nat \<times> string) list \<Rightarrow> nat \<Rightarrow> witness_plugin \<Rightarrow> chain_state \<Rightarrow>
   (witness_plugin \<times> chain_state) \<times> (exn + block_production_condition \<times> signed_block option)" where
  "maybe_produce_block nd checkpoints now_fine pl s =
     (let now = wake_time now_fine in
      if \<not> production_enabled pl \<and> get_slot_time 1 (cs_db s) < now then ((pl, s), Inr (not_synced, None))
      else
        let pl1 = pl\<lparr>production_enabled := True\<rparr>; (s1, r) = produce_in_slot nd checkpoints now pl1 s in
        ((pl1, s1), r))"

text \<open>Of the exceptions only that of an unknown hardfork leaves the loop.\<close>

definition block_production_loop ::
  "node \<Rightarrow> (nat \<times> string) list \<Rightarrow> nat \<Rightarrow> witness_plugin \<Rightarrow> chain_state \<Rightarrow>
   (witness_plugin \<times> chain_state) \<times> (exn + block_production_condition \<times> signed_block option)" where
  "block_production_loop nd checkpoints now_fine pl s =
     (if now_fine < GENESIS_TIME * 1000000 then ((pl, s), Inr (wait_for_genesis, None))
      else case maybe_produce_block nd checkpoints now_fine pl s of
        (st, Inl Unknown_hardfork) \<Rightarrow> (st, Inl Unknown_hardfork)
      | (st, Inl e) \<Rightarrow> (st, Inr (exception_producing_block, None))
      | (st, Inr r) \<Rightarrow> (st, Inr r))"

definition schedule_wakeup :: "nat \<Rightarrow> nat" where
  "schedule_wakeup now =
     (let time_to_next_second = 1000000 - now mod 1000000 in
      now + (if time_to_next_second < 50000 then time_to_next_second + 1000000 else time_to_next_second))"

subsection \<open>The reserve ratio stays bounded\<close>

text \<open>The largest average whose product with 99 is a 32-bit integer.\<close>

definition SIZE_BOUND :: int where "SIZE_BOUND = 21691754"

definition ratio_ok :: "reserve_ratio_object \<Rightarrow> bool" where
  "ratio_ok r \<longleftrightarrow> 0 \<le> rr_average_block_size r \<and> rr_average_block_size r \<le> SIZE_BOUND \<and>
     RESERVE_RATIO_PRECISION \<le> rr_current_reserve_ratio r \<and>
     rr_current_reserve_ratio r \<le> MAX_RESERVE_RATIO * RESERVE_RATIO_PRECISION"

definition reserve_ok :: "witness_db \<Rightarrow> bool" where
  "reserve_ok w \<longleftrightarrow>
     indices (reserve_ratios w) = [] \<and> next_id (reserve_ratios w) = 0 \<or>
     (\<exists>r. indices (reserve_ratios w) = [(0, r)] \<and> ratio_ok r)"

lemmas ratio_consts = RESERVE_RATIO_PRECISION_def MAX_RESERVE_RATIO_def RESERVE_RATIO_MIN_INCREMENT_def DISTANCE_CALC_PRECISION_def

lemma sdiv_nonneg: "0 \<le> a \<Longrightarrow> 0 < b \<Longrightarrow> (a :: int) sdiv b = a div b"
  by (cases "a = 0") (simp_all add: signed_divide_int_def)

lemma sdiv_nonpos: "a \<le> 0 \<Longrightarrow> b < 0 \<Longrightarrow> (a :: int) sdiv b = (- a) div (- b)"
  by (cases "a = 0") (simp_all add: signed_divide_int_def)

lemma to_int32_id: "- (2 ^ 31) \<le> x \<Longrightarrow> x < 2 ^ 31 \<Longrightarrow> to_int32 x = x"
  by (simp add: to_int32_def)

lemma average_size_exact:
  assumes "0 \<le> v" "v \<le> SIZE_BOUND" "int n \<le> SIZE_BOUND"
  shows "average_size v n = (99 * v + int n) div 100" "0 \<le> average_size v n" "average_size v n \<le> SIZE_BOUND"
proof -
  have "99 * v \<le> 2147483646" "99 * v + int n \<le> 2169175400" using assms by (simp_all add: SIZE_BOUND_def)
  then have "to_int32 (99 * v) = 99 * v" "(99 * v + int n) div 100 \<le> 21691754" using assms by (auto intro!: to_int32_id)
  moreover have "0 \<le> (99 * v + int n) div 100" using assms by simp
  ultimately show "average_size v n = (99 * v + int n) div 100" "0 \<le> average_size v n" "average_size v n \<le> SIZE_BOUND"
    using assms \<open>99 * v + int n \<le> 2169175400\<close> by (simp_all add: average_size_def to_int32_id SIZE_BOUND_def)
qed

text \<open>With a quarter of the limit as the unit, an average within the bound is at most 1324 units away.\<close>

lemma size_distance_bounds:
  assumes "0 \<le> v" "v \<le> SIZE_BOUND" "int MIN_BLOCK_SIZE_LIMIT \<le> m" "m < 2 ^ 32"
  shows "- DISTANCE_CALC_PRECISION \<le> size_distance v m" "size_distance v m \<le> 13239613"
    "in_int64 ((v - m sdiv 4) * DISTANCE_CALC_PRECISION)" "m sdiv 4 \<noteq> 0"
proof -
  define q where "q = m div 4"
  have q: "16384 \<le> q" "q < 2 ^ 30" "m sdiv 4 = q"
    using assms(3,4) by (auto simp: q_def MIN_BLOCK_SIZE_LIMIT_def MAX_TRANSACTION_SIZE_def sdiv_nonneg)
  show "m sdiv 4 \<noteq> 0" using q by simp
  show "in_int64 ((v - m sdiv 4) * DISTANCE_CALC_PRECISION)"
    using q assms(1,2) by (simp add: in_int64_def DISTANCE_CALC_PRECISION_def SIZE_BOUND_def)
  have d: "size_distance v m = ((v - q) * 10000) sdiv q" by (simp add: size_distance_def q(3) DISTANCE_CALC_PRECISION_def)
  have "- 10000 \<le> size_distance v m \<and> size_distance v m \<le> 13239613"
  proof (cases "q \<le> v")
    case True
    then have "size_distance v m = ((v - q) * 10000) div q" using q(1) by (simp add: d sdiv_nonneg)
    also have "\<dots> \<le> ((v - q) * 10000) div 16384" using True q(1) by (intro zdiv_mono2) auto
    also have "\<dots> \<le> (SIZE_BOUND * 10000) div 16384" using assms(2) q(1) by (intro zdiv_mono1) auto
    finally have "size_distance v m \<le> 13239613" by (simp add: SIZE_BOUND_def)
    moreover have "0 \<le> size_distance v m" using True q(1) by (simp add: d sdiv_nonneg pos_imp_zdiv_nonneg_iff)
    ultimately show ?thesis by simp
  next
    case False
    then have "size_distance v m = - (((q - v) * 10000) div q)"
      using q(1) by (simp add: d signed_divide_int_def sgn_if abs_if algebra_simps)
    moreover have "((q - v) * 10000) div q \<le> (q * 10000) div q" using assms(1) q(1) by (intro zdiv_mono1) auto
    moreover have "0 \<le> ((q - v) * 10000) div q" using False q(1) by (simp add: pos_imp_zdiv_nonneg_iff)
    ultimately show ?thesis using q(1) by simp
  qed
  then show "- DISTANCE_CALC_PRECISION \<le> size_distance v m" "size_distance v m \<le> 13239613" by (simp_all add: DISTANCE_CALC_PRECISION_def)
qed

lemma adjust_ratio_bounds:
  assumes "RESERVE_RATIO_PRECISION \<le> r" "r \<le> MAX_RESERVE_RATIO * RESERVE_RATIO_PRECISION" "- DISTANCE_CALC_PRECISION \<le> d"
  shows "RESERVE_RATIO_PRECISION \<le> adjust_ratio r d \<and> adjust_ratio r d \<le> MAX_RESERVE_RATIO * RESERVE_RATIO_PRECISION \<and>
    (if d > 0 then adjust_ratio r d \<le> r else r \<le> adjust_ratio r d)"
proof (cases "d > 0")
  case True
  have "0 \<le> (r * d) sdiv (d + 10000)" using True assms(1) by (simp add: sdiv_nonneg pos_imp_zdiv_nonneg_iff ratio_consts)
  with True assms show ?thesis by (simp add: adjust_ratio_def ratio_consts Let_def)
next
  case False
  with assms show ?thesis by (auto simp: adjust_ratio_def ratio_consts Let_def max_def)
qed

lemma uint_of_int_div:
  assumes "0 \<le> x" "x < 2 ^ 128" "0 \<le> y" "y < 2 ^ 128"
  shows "uint (word_of_int x div word_of_int y :: 128 word) = x div y"
  using assms by (simp add: uint_div uint_word_of_int)

context fc_exact
begin

lemma virtual_bandwidth_exact:
  assumes "0 \<le> m" "m < 2 ^ 32" "0 \<le> r" "r \<le> MAX_RESERVE_RATIO * RESERVE_RATIO_PRECISION"
  shows "uint (virtual_bandwidth fc m r) =
    (m * r * int (BANDWIDTH_PRECISION * BANDWIDTH_AVERAGE_WINDOW_SECONDS)) div (int BLOCK_INTERVAL * RESERVE_RATIO_PRECISION)"
proof -
  let ?k = "604800000000 :: int"
  have k: "int (BANDWIDTH_PRECISION * BANDWIDTH_AVERAGE_WINDOW_SECONDS) = ?k" "int BLOCK_INTERVAL * RESERVE_RATIO_PRECISION = 30000"
    by (simp_all add: BANDWIDTH_PRECISION_def BANDWIDTH_AVERAGE_WINDOW_SECONDS_def BLOCK_INTERVAL_def ratio_consts)
  have r: "r \<le> 200000000" using assms(4) by (simp add: ratio_consts)
  have "m * r \<le> 2 ^ 32 * 200000000" using assms r by (intro mult_mono) auto
  then have b: "m * r * ?k < 2 ^ 128" "0 \<le> m * r * ?k" "0 \<le> m * r" "m * r < 2 ^ 128" using assms by auto
  have w: "virtual_bandwidth fc m r = word_of_int (m * r * ?k) div word_of_int 30000"
    unfolding virtual_bandwidth_def k using assms r by (simp add: u128_of_int_small)
  show ?thesis unfolding w k using b by (intro uint_of_int_div) auto
qed

end

text \<open>One update: it succeeds, keeps the bounds, computes in range, and gives the exact bandwidth.\<close>

lemma update_ratio_ok:
  assumes "ratio_ok r" "int n \<le> SIZE_BOUND" "MIN_BLOCK_SIZE_LIMIT \<le> m" "m < 2 ^ 32"
  shows "\<exists>r'. update_ratio fc h m n r = Inr r' \<and> ratio_ok r'"
proof -
  define v where "v = average_size (rr_average_block_size r) n"
  have v: "0 \<le> v" "v \<le> SIZE_BOUND"
    using average_size_exact [of "rr_average_block_size r" n] assms(1,2) by (auto simp: ratio_ok_def v_def)
  note d = size_distance_bounds [OF v, of "int m"]
  have "RESERVE_RATIO_PRECISION \<le> adjust_ratio (rr_current_reserve_ratio r) (size_distance v (int m)) \<and>
      adjust_ratio (rr_current_reserve_ratio r) (size_distance v (int m)) \<le> MAX_RESERVE_RATIO * RESERVE_RATIO_PRECISION"
    using adjust_ratio_bounds [of "rr_current_reserve_ratio r" "size_distance v (int m)"] d(1) assms by (simp add: ratio_ok_def)
  then show ?thesis
    using assms v d(4) by (auto simp: update_ratio_def Let_def ratio_ok_def v_def [symmetric])
qed

subsection \<open>Bandwidth of an account\<close>

context fc_exact
begin

lemma decayed_bandwidth_exact:
  assumes "decayed_bandwidth fc dt v = Inr d" and "0 \<le> dt" and "0 \<le> v" and "v < 2 ^ 63"
  shows "d = (if dt > int BANDWIDTH_AVERAGE_WINDOW_SECONDS then 0
    else ((int BANDWIDTH_AVERAGE_WINDOW_SECONDS - dt) * v) div int BANDWIDTH_AVERAGE_WINDOW_SECONDS) \<and> 0 \<le> d \<and> d \<le> v"
proof (cases "dt > int BANDWIDTH_AVERAGE_WINDOW_SECONDS")
  case True
  with assms show ?thesis by (simp add: decayed_bandwidth_def)
next
  case False
  let ?W = "604800 :: int"
  have W: "int BANDWIDTH_AVERAGE_WINDOW_SECONDS = ?W" by (simp add: BANDWIDTH_AVERAGE_WINDOW_SECONDS_def)
  have dt: "0 \<le> ?W - dt" "?W - dt \<le> ?W" using False assms(2) by (simp_all add: W)
  have "(?W - dt) * v \<le> ?W * v" using dt assms(3) by (intro mult_right_mono) auto
  then have p: "(?W - dt) * v \<le> ?W * v" "0 \<le> (?W - dt) * v" "(?W - dt) * v < 2 ^ 128" using assms(3,4) dt by auto
  define q where "q = ((?W - dt) * v) div ?W"
  have q: "0 \<le> q" "q \<le> v" using p assms(3) zdiv_mono1 [of "(?W - dt) * v" "?W * v" ?W] by (auto simp: q_def pos_imp_zdiv_nonneg_iff)
  have w: "u128_of_int fc (?W - dt) * u128_of_int fc v div u128_of_int fc ?W =
      word_of_int ((?W - dt) * v) div word_of_int ?W"
    using dt assms(3,4) by (simp add: u128_of_int_small)
  have "uint (u128_of_int fc (?W - dt) * u128_of_int fc v div u128_of_int fc ?W) = q"
    unfolding w q_def using p by (intro uint_of_int_div) auto
  moreover obtain n where n: "u128_to_u64 fc (u128_of_int fc (?W - dt) * u128_of_int fc v div u128_of_int fc ?W) = Inr n"
    "d = safe_of_u64 fc n" using assms(1) False by (auto simp: decayed_bandwidth_def W res_simps)
  moreover have "int n = uint (u128_of_int fc (?W - dt) * u128_of_int fc v div u128_of_int fc ?W)"
    using u128_to_u64D [OF n(1)] by (simp only: uint_nat)
  ultimately have "int n = q" by simp
  then have "d = q" using n(2) q assms(4) safe_of_u64_small [of n] by simp
  then show ?thesis using q False by (simp add: q_def W)
qed

lemma has_bandwidth_exact:
  assumes "has_bandwidth fc vs tv v m" and "0 \<le> vs" "vs < 2 ^ 63" "0 \<le> tv" "tv < 2 ^ 63" "0 \<le> v" "v < 2 ^ 63"
    and "vs * uint m < 2 ^ 128"
  shows "v * tv < vs * uint m"
proof -
  have "uint (word_of_int vs * m :: 128 word) = vs * uint m"
    using assms by (simp add: uint_word_ariths uint_word_of_int)
  moreover have "v * tv < 2 ^ 63 * 2 ^ 63" using assms by (intro mult_strict_mono) auto
  then have "uint (word_of_int v * word_of_int tv :: 128 word) = v * tv"
    using assms by (simp add: uint_word_ariths uint_word_of_int)
  ultimately show ?thesis using assms by (simp add: has_bandwidth_def u128_of_int_small word_less_def)
qed

end

lemma throwing_Inr: "throwing w r k = (w', Inr x) \<longleftrightarrow> (\<exists>a. r = Inr a \<and> k a = (w', Inr x))"
  by (cases r) (simp_all add: throwing_def)

lemma find_or_create_bandE:
  assumes "find_or_create_band n t w = Inr (w1, i, b)" and "rows_sorted (indices (bandwidths w))"
  shows "find_id (bandwidths w1) i = Some b \<and> ab_account b = n \<and> ab_type b = t \<and> reserve_ratios w1 = reserve_ratios w \<and>
    ((i, b) \<in> set (indices (bandwidths w)) \<or> ab_average_bandwidth b = 0 \<and> ab_last_bandwidth_update b = 0)"
proof (cases "find_by (\<lambda>b. ab_account b = n \<and> ab_type b = t) (bandwidths w)")
  case None
  let ?b = "\<lparr> ab_account = n, ab_type = t, ab_average_bandwidth = 0, ab_lifetime_bandwidth = 0, ab_last_bandwidth_update = 0 \<rparr>"
  from None assms(1) obtain g where e: "emplace bandwidth_conflict (\<lambda>_. Inr ?b) (bandwidths w) = Inr (g, i)"
    and w1: "w1 = w\<lparr>bandwidths := g\<rparr>" and b: "b = ?b"
    by (auto simp: find_or_create_band_def Let_def bindR_eq_Inr)
  have "(i, ?b) \<in> set (indices g)" using e by (auto elim!: emplaceD)
  moreover have "rows_sorted (indices g)" using sorted_emplace [OF e] assms(2) by blast
  ultimately show ?thesis by (simp add: w1 b find_id_def map_of_row_iff)
next
  case (Some r)
  with assms find_by_set [of _ "bandwidths w" i b] show ?thesis
    by (cases r) (auto simp: find_or_create_band_def find_id_def map_of_row_iff)
qed

subsection \<open>What a produced block is\<close>

lemma generate_block_header:
  assumes "generate_block pr nd cps skip when w s = (s', Inr b)"
  shows "timestamp b = when \<and> witness b = w"
proof -
  from assms obtain trxs db where "complete_block pr nd skip when w trxs db = Inr b"
    by (auto simp: generate_block_def Let_def andThen_def split: sum.splits prod.splits)
  from complete_block_fields [OF this] show ?thesis by blast
qed

lemma try_generate_header: "try_generate n pr nd cps skip when w s = (s', Some b) \<Longrightarrow> timestamp b = when \<and> witness b = w"
proof (induction n arbitrary: s)
  case (Suc n)
  then show ?case by (auto split: prod.splits sum.splits dest: generate_block_header)
qed simp

lemma produce_in_slotE:
  assumes "produce_in_slot nd cps now pl s = (s', Inr (produced, r))"
  obtains slot w i wit pr b where "slot = get_slot_at_time now (cs_db s)" "0 < slot" "get_scheduled_witness slot (cs_db s) = Inr w"
    "w \<in> set (own_witnesses pl)" "find_witness w (cs_db s) = Some (i, wit)" "map_of (private_keys pl) (w_signing_key wit) = Some pr"
    "required_witness_participation pl \<le> witness_participation_rate (cs_db s)" "get_slot_time slot (cs_db s) = now"
    "try_generate 2 pr nd cps (production_skip_flags pl) now w s = (s', Some b)" "r = Some b"
proof -
  have lag: "1 < 2 * \<bar>int x - int now\<bar> \<longleftrightarrow> x \<noteq> now" for x by (cases "x < now") (auto simp: abs_if)
  from assms show thesis
    unfolding produce_in_slot_def Let_def
    by (auto simp: lag split: if_splits sum.splits option.splits prod.splits intro!: that)
qed

subsection \<open>Properties of the plugin\<close>



text \<open>
  C34: a block is produced only where the node may. When the loop reports a produced block, the slot of
  the present time had come, its witness is one of the node's and signs with a key the node
  has, enough witnesses take part, and the block carries that witness and the time of
  the slot, which is the present second.
\<close>

theorem produced_in_own_slot:
  assumes "block_production_loop nd checkpoints now_fine pl s = ((pl', s'), Inr (produced, r))"
  shows "\<exists>b slot i wit. r = Some b \<and> slot = get_slot_at_time (wake_time now_fine) (cs_db s) \<and> 0 < slot \<and>
    get_scheduled_witness slot (cs_db s) = Inr (witness b) \<and> witness b \<in> set (own_witnesses pl) \<and>
    find_witness (witness b) (cs_db s) = Some (i, wit) \<and> w_signing_key wit \<in> fst ` set (private_keys pl) \<and>
    required_witness_participation pl \<le> witness_participation_rate (cs_db s) \<and>
    timestamp b = get_slot_time slot (cs_db s) \<and> timestamp b = wake_time now_fine \<and> production_enabled pl'"
proof -
  let ?pl = "pl\<lparr>production_enabled := True\<rparr>"
  from assms have p: "produce_in_slot nd checkpoints (wake_time now_fine) ?pl s = (s', Inr (produced, r))" and pl': "pl' = ?pl"
    by (auto simp: block_production_loop_def maybe_produce_block_def Let_def split: if_splits prod.splits sum.splits exn.splits)
  from p show ?thesis
  proof (rule produce_in_slotE)
    fix slot w i wit pr b
    assume a: "slot = get_slot_at_time (wake_time now_fine) (cs_db s)" "0 < slot" "get_scheduled_witness slot (cs_db s) = Inr w"
      "w \<in> set (own_witnesses ?pl)" "find_witness w (cs_db s) = Some (i, wit)" "map_of (private_keys ?pl) (w_signing_key wit) = Some pr"
      "required_witness_participation ?pl \<le> witness_participation_rate (cs_db s)" "get_slot_time slot (cs_db s) = wake_time now_fine"
      "try_generate 2 pr nd checkpoints (production_skip_flags ?pl) (wake_time now_fine) w s = (s', Some b)" "r = Some b"
    have "w_signing_key wit \<in> fst ` set (private_keys pl)" using map_of_SomeD [OF a(6)] by force
    with a try_generate_header [OF a(9)] pl' show ?thesis by auto
  qed
qed

subsection \<open>Examples\<close>

definition large_chain :: database where
  "large_chain = block_chain\<lparr>dgpo := (dgpo block_chain)\<lparr>g_maximum_block_size := MIN_BLOCK_SIZE_LIMIT, g_total_vesting_shares := vests 1000\<rparr>\<rparr>"

definition started_plugin :: witness_db where
  "started_plugin = \<lparr> bandwidths = empty_index, edit_locks = empty_index, reserve_ratios = mk_index [(0, initial_ratio fc64)] 1 \<rparr>"

lemma started_reserve: "reserve_ok started_plugin" "get_id (reserve_ratios started_plugin) 0 = Inr (initial_ratio fc64)"
  by (simp_all add: started_plugin_def reserve_ok_def mk_index_def initial_ratio_def ratio_ok_def ratio_consts SIZE_BOUND_def get_id_def find_id_def)


definition vested_account :: account_object where
  "vested_account = (sample_account ''alice'' 1000)\<lparr>a_vesting_shares := vests 500\<rparr>"

definition producing_node :: node where
  "producing_node = sample_node\<lparr>node_producing := True\<rparr>"

lemma initial_bandwidth: "rr_max_virtual_bandwidth (initial_ratio fc64) = 1585446912000000000000000"
  by (simp add: initial_ratio_def MAX_BLOCK_SIZE_def MAX_TRANSACTION_SIZE_def BLOCK_INTERVAL_def MAX_RESERVE_RATIO_def
      BANDWIDTH_PRECISION_def BANDWIDTH_AVERAGE_WINDOW_SECONDS_def)

lemma vested_account_shares: "effective_vesting_shares fc64 vested_account = Inr (vests 500)"
  by (simp add: effective_vesting_shares_def vested_account_def sample_simps eval64)

lemma vested_account_charged:
  "\<exists>w'. update_account_bandwidth producing_node vested_account 100 bandwidth_forum large_chain started_plugin = (w', Inr ())"
proof -
  have n: "node_fc producing_node = fc64" "node_producing producing_node" by (simp_all add: producing_node_def sample_node_def)
  have c: "amount (g_total_vesting_shares (dgpo large_chain)) = 1000" "head_block_time large_chain = 1600000000"
    by (simp_all add: large_chain_def head_block_time_def block_chain_def sample_dgpo_def)
  have b: "find_or_create_band (a_name vested_account) bandwidth_forum started_plugin = Inr
      (started_plugin\<lparr>bandwidths := mk_index [(0, \<lparr> ab_account = ''alice'', ab_type = bandwidth_forum, ab_average_bandwidth = 0,
         ab_lifetime_bandwidth = 0, ab_last_bandwidth_update = 0 \<rparr>)] 1\<rparr>, 0,
       \<lparr> ab_account = ''alice'', ab_type = bandwidth_forum, ab_average_bandwidth = 0, ab_lifetime_bandwidth = 0, ab_last_bandwidth_update = 0 \<rparr>)"
    by (simp add: find_or_create_band_def started_plugin_def empty_index_def mk_index_def find_by_def emplace_def insert_ok_def Let_def
        vested_account_def sample_account_def)
  have h: "has_bandwidth fc64 500 1000 100000000 1585446912000000000000000"
    by (simp add: has_bandwidth_def)
  show ?thesis
    using started_reserve(2)
    by (simp add: update_account_bandwidth_def n c b vested_account_shares throwing_def decayed_bandwidth_def BANDWIDTH_AVERAGE_WINDOW_SECONDS_def
        BANDWIDTH_PRECISION_def ck64_def in_int64_def Let_def modify_def mk_index_def modify_ok_def charge_band_def initial_bandwidth h)
qed


definition own_plugin :: witness_plugin where
  "own_plugin = \<lparr> production_enabled = False, required_witness_participation = 0, production_skip_flags = skip_nothing,
     private_keys = [(''KA'', sample_producer)], own_witnesses = [''alice''] \<rparr>"

text \<open>A chain without blocks, whose first slot is three seconds after its time, and the block of that slot.\<close>

definition slot_chain :: database where
  "slot_chain = block_chain\<lparr>dgpo := (dgpo block_chain)\<lparr>g_head_block_number := 0\<rparr>,
     accounts := mk_index [(0, sample_account ''alice'' 995), (1, sample_account ''bob'' 505), (2, sample_account ''null'' 0)] 3\<rparr>"

definition slot_block :: signed_block where
  "slot_block = sample_block\<lparr>transaction_merkle_root := replicate 20 (CHR 0x00), block_transactions := []\<rparr>"

definition slot_node :: chain_state where
  "slot_node = fresh_node\<lparr>cs_db := slot_chain\<rparr>"

lemma slot_block_opens:
  "open_block sample_node skip_nothing slot_block slot_chain =
     Inr (slot_chain\<lparr>dgpo := (dgpo slot_chain)\<lparr>g_current_witness := ''alice''\<rparr>\<rparr>, 0)"
proof -
  have m: "check_merkle_root sample_node slot_block = Inr ()"
    by (simp add: check_merkle_root_def calculate_merkle_root_def slot_block_def)
  have h: "validate_block_header sample_node skip_nothing slot_block slot_chain = Inr (0, sample_witness ''alice'' 0)"
    by (simp add: validate_block_header_def get_slot_at_time_def get_slot_time_def BLOCK_INTERVAL_def time_plus_def get_scheduled_witness_def Let_def
       get_witness_def validate_signee_def signee_def assertM_def slot_chain_def slot_block_def block_evals)
  show ?thesis
    by (simp add: open_block_def m h) (simp add: modify_dgpo_def process_header_extensions_def get_witness_def slot_chain_def slot_block_def block_evals
       default_hardfork_property_object_def)
qed

lemmas slot_evals = zero_block_num slot_chain_def slot_block_def block_evals update_global_dynamic_data_def get_slot_at_time_def get_slot_time_def
  BLOCK_INTERVAL_def time_plus_def Let_def modify_dgpo_def advance_head_def record_slots_def record_slot_def minus32_def MAX_UNDO_HISTORY_def
  update_signing_witness_def modify_witness_def modify_def modify_ok_def witness_conflict_def update_last_irreversible_block_def
  START_MINER_VOTING_BLOCK_def BLOCKS_PER_DAY_def MAX_WITNESSES_def

lemma slot_block_starts:
  "\<exists>db1. block_start sample_node skip_nothing slot_block slot_chain = Inr db1 \<and> g_last_irreversible_block_num (dgpo db1) = 0"
proof -
  have trx: "block_transactions slot_block = []" by (simp add: slot_block_def)
  show ?thesis
    unfolding block_start_def slot_block_opens trx bindR_Inr case_prod_conv foldR.simps
    by (simp add: slot_evals default_dynamic_global_property_object_def)
qed

lemma slot_block_recorded:
  "\<exists>w g bs. record_block sample_node skip_nothing slot_block 0 (slot_chain\<lparr>dgpo := (dgpo slot_chain)\<lparr>g_current_witness := ''alice''\<rparr>\<rparr>) =
     Inr (block_chain\<lparr>dgpo := g, accounts := accounts slot_chain, witnesses := w, block_summaries := bs, transactions := transactions block_chain\<rparr>) \<and>
     g_head_block_number g = 1 \<and> g_time g = 1600000003"
  by (simp add: record_block_def slot_evals note_block_summary_def modify_block_summary_def no_conflict_def
      clear_expired_transactions_def due_transaction_def first_due_def clear_expired_orders_def due_order_def
      clear_expired_delegations_def due_delegation_def update_witness_schedule_def update_virtual_supply_def)

lemma slot_block_pushes:
  assumes "cs_db s = slot_chain" and "cs_log s = []"
  shows "\<exists>s'. push_on_head sample_node [] skip_nothing slot_block s = (s', Inr ())"
proof -
  have a: "indices (accounts slot_chain) = [(0, sample_account ''alice'' 995), (1, sample_account ''bob'' 505), (2, sample_account ''null'' 0)]"
    by (simp add: slot_chain_def mk_index_def)
  obtain w g bs where r: "record_block sample_node skip_nothing slot_block 0 (slot_chain\<lparr>dgpo := (dgpo slot_chain)\<lparr>g_current_witness := ''alice''\<rparr>\<rparr>) =
     Inr (block_chain\<lparr>dgpo := g, accounts := accounts slot_chain, witnesses := w, block_summaries := bs, transactions := transactions block_chain\<rparr>)"
    and g: "g_head_block_number g = 1" "g_time g = 1600000003" using slot_block_recorded by blast
  note st = first_block_settled [OF a g, where w = w and bs = bs and ts = "transactions block_chain"]
  have fc: "node_fc sample_node = fc64" "block_transactions slot_block = []" by (simp_all add: sample_node_def slot_block_def)
  obtain db where "apply_block_body sample_node skip_nothing slot_block slot_chain = Inr db"
    using st r by (auto simp: apply_block_body_def slot_block_opens fc)
  moreover obtain db1 where db1: "block_start sample_node skip_nothing slot_block slot_chain = Inr db1" "g_last_irreversible_block_num (dgpo db1) = 0"
    using slot_block_starts by blast
  ultimately have "block_finish sample_node slot_block db1 = Inr db" by (simp add: apply_block_split)
  with db1 assms show ?thesis
    by (simp add: push_on_head_def run_block_def checkpoint_skip_def start_session_def keep_irreversible_def Let_def commit_sessions_def no_skips)
qed

lemma slot_block_generated:
  "\<exists>s'. generate_block sample_producer sample_node [] skip_nothing 1600000003 ''alice'' slot_node = (s', Inr slot_block)"
proof -
  have may: "may_produce sample_producer skip_nothing 1600000003 ''alice'' slot_chain = Inr ()"
    by (simp add: may_produce_def get_slot_at_time_def get_slot_time_def BLOCK_INTERVAL_def time_plus_def get_scheduled_witness_def Let_def
       get_witness_def slot_chain_def block_evals sample_producer_def)
  have c: "complete_block sample_producer sample_node skip_nothing 1600000003 ''alice'' [] slot_chain = Inr slot_block"
    by (simp add: complete_block_def Let_def calculate_merkle_root_def slot_chain_def slot_block_def block_evals get_witness_def
      header_votes_def BLOCKCHAIN_VERSION_def BLOCKCHAIN_HARDFORK_VERSION_def hardfork_version_of_def version_num_def
      default_hardfork_property_object_def sample_producer_def MAX_BLOCK_SIZE_def MAX_TRANSACTION_SIZE_def BLOCK_INTERVAL_def)
  have sn: "cs_db slot_node = slot_chain" "cs_pending_tx slot_node = []" "reset_pending_session slot_node = slot_node"
    "clear_pending slot_node = slot_node" "cs_popped_tx slot_node = []" "cs_log slot_node = []" "cs_fork slot_node = empty_fork_database"
    by (simp_all add: slot_node_def fresh_node_def reset_pending_session_def clear_pending_def)
  have s3: "reset_pending_session ((start_session slot_node)\<lparr>cs_pending_session := True\<rparr>) = slot_node"
    by (simp add: start_session_def reset_pending_session_def undo_session_def slot_node_def fresh_node_def)
  have ids: "g_head_block_id (dgpo slot_chain) = replicate 20 (CHR 0x00)" "previous slot_block = replicate 20 (CHR 0x00)"
    by (simp_all add: slot_chain_def slot_block_def block_evals)
  define x where "x = fork_item 0 None (block_num slot_block) False (block_id (node_hashes sample_node) slot_block) slot_block"
  define f where "f = empty_fork_database\<lparr>fdb_next_addr := 1, fdb_index := [x], fdb_head := Some x\<rparr>"
  have f: "fork_push_block (node_hashes sample_node) slot_block empty_fork_database = Inr (f, x)"
    by (simp add: fork_push_block_def make_item_def fork_push_item_def link_item_def f_def x_def empty_fork_database_def index_insert_def index_find_def)
  obtain s1 where 1: "push_on_head sample_node [] skip_nothing slot_block (slot_node\<lparr>cs_fork := f\<rparr>) = (s1, Inr ())"
    using slot_block_pushes [of "slot_node\<lparr>cs_fork := f\<rparr>"] sn by auto
  have "push_block_body sample_node [] skip_nothing slot_block slot_node = (s1, Inr False)"
    using f 1 sn ids by (simp add: push_block_body_def no_skips Let_def push_new_block_def x_def)
  then have "\<exists>s4. push_block sample_node [] skip_nothing slot_block slot_node = (s4, Inr False)"
    by (simp add: push_block_def sn Let_def)
  then show ?thesis using may c s3 by (auto simp: generate_block_def sn Let_def)
qed

lemma slot_block_loop:
  "\<exists>pl' s'. block_production_loop sample_node [] 1600000003000000 own_plugin slot_node = ((pl', s'), Inr (produced, Some slot_block))"
proof -
  obtain s' where g: "generate_block sample_producer sample_node [] skip_nothing 1600000003 ''alice'' slot_node = (s', Inr slot_block)"
    using slot_block_generated by blast
  have db: "cs_db slot_node = slot_chain" by (simp add: slot_node_def)
  have w: "wake_time 1600000003000000 = 1600000003" by (simp add: wake_time_def)
  have sl: "get_slot_time 1 slot_chain = 1600000003" "get_slot_at_time 1600000003 slot_chain = 1"
    by (simp_all add: get_slot_at_time_def get_slot_time_def BLOCK_INTERVAL_def time_plus_def Let_def slot_chain_def block_evals)
  have sw: "get_scheduled_witness 1 slot_chain = Inr ''alice''"
    by (simp add: get_scheduled_witness_def Let_def slot_chain_def block_evals)
  have fw: "find_witness ''alice'' slot_chain = Some (0, sample_witness ''alice'' 0)" "w_signing_key (sample_witness ''alice'' 0) = ''KA''"
    by (simp_all add: find_witness_def slot_chain_def block_evals)
  have two: "try_generate 2 sample_producer sample_node [] skip_nothing 1600000003 ''alice'' slot_node = (s', Some slot_block)"
    using g by (simp add: numeral_2_eq_2)
  have p: "produce_in_slot sample_node [] 1600000003 (own_plugin\<lparr>production_enabled := True\<rparr>) slot_node = (s', Inr (produced, Some slot_block))"
    using two by (simp add: produce_in_slot_def db sl sw fw own_plugin_def Let_def del: One_nat_def)
  show ?thesis
    using p by (simp add: block_production_loop_def maybe_produce_block_def w db sl Let_def GENESIS_TIME_def del: One_nat_def)
qed

theorem produced_in_own_slot_witness:
  "\<exists>pl' s'. block_production_loop sample_node [] 1600000003000000 own_plugin slot_node = ((pl', s'), Inr (produced, Some slot_block)) \<and>
     witness slot_block \<in> set (own_witnesses own_plugin) \<and> timestamp slot_block = wake_time 1600000003000000"
proof -
  obtain pl' s' where r: "block_production_loop sample_node [] 1600000003000000 own_plugin slot_node = ((pl', s'), Inr (produced, Some slot_block))"
    using slot_block_loop by blast
  from produced_in_own_slot [OF r] r show ?thesis by auto
qed

end
