(* ===== verification/Spec2Isabelle.thy ===== *)
theory Spec2Isabelle
  imports Chainbase Produce_Block History Asset_Text Replay Witness_Plugin
begin

text \<open>
  A verification library of the BMChain node, a delegated-proof-of-stake chain in the line of
  Steem. It models the consensus code under \<open>src/libraries/protocol\<close>, \<open>src/libraries/chain\<close>
  and \<open>src/libraries/chainbase\<close>: everything that decides whether a transaction or a block is
  accepted and what it does to the state. All definitions are executable functions
  translated from the C++ source, with the checks and writes in the order of the source; the
  names are those of the source where Isabelle allows it.

  \<^bold>\<open>The program.\<close> A node keeps a database of objects in ordered containers with unique keys
  and undo sessions (chainbase). Users send signed transactions, lists of operations. A
  transaction is validated without state, its signatures are checked against the weighted
  authorities of the accounts its operations name, and each operation is applied by its
  evaluator. A scheduled witness collects transactions in a block every three seconds. A
  block is applied as a whole: the header is checked, the transactions are applied, and a
  fixed sequence of maintenance steps follows (expiry, witness schedule, payouts,
  withdrawals, emissions, hardforks). Blocks that compete are kept in the fork database; the
  node follows the longest branch and undoes and applies blocks when it switches.

  \<^bold>\<open>How the code is modelled.\<close>
  \<^item> Exceptions are values: a function that may throw returns \<open>exn + 'a\<close>, and \<open>bindR\<close> stops at
    the first throw (\<open>Prelude\<close>). Functions whose state survives the exception (\<open>Push_Block\<close>)
    return the state beside the result.
  \<^item> The database is a record of containers (\<open>Objects\<close>, \<open>Database\<close>). A container is the list of
    its rows, id and object, in the order of ids, with the undo stack of \<open>Chainbase\<close>. A
    reference to an object is its id. Other indices of a container are sorted views of the
    rows, computed where the code iterates over them.
  \<^item> Integers that can wrap are words or carry their \<open>mod\<close>; \<open>share_type\<close> is \<open>fc::safe<int64_t>\<close>,
    whose operators throw. Doubles are rationals rounded to 53 bits.
  \<^item> Third-party code is a parameter: \<open>fc_lib\<close> (the library fc, \<open>Fc_Lib\<close>), \<open>fc_crypto\<close> (packing,
    hashing and key recovery of transactions, \<open>Transaction\<close>), \<open>fc_hashes\<close> (the same for blocks,
    \<open>Block_Header\<close>), the interpreters of plugins (\<open>node\<close>, \<open>Apply\<close>). What the proofs need of it
    are the locales \<open>fc_exact\<close> (an operator of \<open>safe\<close> that returns, returns the exact value)
    and \<open>exact_node\<close> (and plugins keep their hands off the ledger); both are interpreted on
    a concrete library, which the witnesses use.
  \<^item> The build is the default one: no test net, no low-memory node, votes of paid-out
    comments are cleared.

  \<^bold>\<open>The theories\<close>, in the order of their imports:
  \<^item> \<open>Prelude\<close>: results, rows, sums, words and times. \<open>Config\<close>: the constants of \<open>config.hpp\<close>.
    \<open>Fc_Lib\<close>: the library fc.
  \<^item> \<open>Chainbase\<close> (\<open>chainbase.hpp\<close>, \<open>generic_index\<close>): \<open>emplace\<close>, \<open>modify\<close>, \<open>remove\<close>, sessions, \<open>undo\<close>,
    \<open>squash\<close>, \<open>commit\<close>. Shown: undoing a session restores the index, a squashed session is
    undone with its parent, \<open>squash\<close> follows the matrix in its comment; and a case in which
    \<open>undo\<close> throws.
  \<^item> \<open>Asset\<close> (\<open>asset.hpp\<close>, \<open>asset.cpp\<close>), \<open>Authority\<close> (\<open>authority.cpp\<close>, \<open>sign_state.cpp\<close>): a successful
    check of an authority rests on enough weight; the grammar of account names.
    \<open>Operations\<close>, \<open>Validate\<close> (\<open>bmchain_operations.hpp/.cpp\<close>, \<open>custom_token_operations\<close>): the
    operations, their required authorities and \<open>validate\<close>.
  \<^item> \<open>Transaction\<close> (\<open>transaction.cpp\<close>): digests, \<open>verify_authority\<close>, \<open>get_required_signatures\<close>,
    \<open>minimize_required_signatures\<close>. \<open>Block_Header\<close> (\<open>block.cpp\<close>): ids, signee, Merkle root.
  \<^item> \<open>Objects\<close>, \<open>Database\<close>: the objects with defaults and keys, the access to their containers,
    and the gaps \<open>supply_gap\<close>, \<open>vests_gap\<close>, \<open>pending_gap\<close> between recorded and held amounts.
    \<open>Ledger\<close> (\<open>database.cpp\<close>): balances, supply, vesting, votes for witnesses, emission by
    activity, \<open>validate_invariants\<close>. \<open>Frames\<close>: what each step leaves alone. \<open>Reward\<close>
    (\<open>util/reward.cpp\<close>): \<open>approx_sqrt\<close> and the reward curves.
  \<^item> The evaluators (\<open>bmchain_evaluator.cpp\<close>, \<open>custom_token_evaluator.cpp\<close>): \<open>Escrow\<close>,
    \<open>Transfers\<close>, \<open>Market\<close>, \<open>Content_Orders\<close>, \<open>Tokens\<close>, \<open>Accounts\<close>, \<open>Comments\<close>, \<open>Votes\<close>. For each the
    lemmas give its effect on the gaps and the containers it writes.
  \<^item> \<open>Apply\<close>: \<open>apply_operation\<close> over the registry of evaluators and \<open>_apply_transaction\<close>. Shown:
    a validated operation keeps the gaps, with three exceptions that are flaws of the code
    (\<open>operation_sound\<close>); an applied transaction was new, current, validated and signed.
  \<^item> \<open>Slots\<close>, \<open>Witness_Schedule\<close> (\<open>witness_schedule.cpp\<close>), \<open>Hardforks\<close> (\<open>version.cpp\<close>): slots and
    headers, participation, irreversibility, the schedule, versions.
  \<^item> \<open>Loops\<close>, \<open>Expiry\<close>, \<open>Savings\<close>, \<open>Cashout\<close>: the maintenance of a block. The locale \<open>draining\<close> is
    the contract between a loop over an index and the measure that bounds it.
  \<^item> \<open>Steady\<close>, \<open>Block\<close>: \<open>_apply_block\<close>, \<open>apply_block\<close>, \<open>init_genesis\<close>, and the states a chain can
    reach (\<open>chain_step\<close>): balanced in all of them, and no transaction twice.
  \<^item> \<open>Fork_Database\<close> (\<open>fork_database.cpp\<close>): the tree of recent blocks and its branches.
  \<^item> \<open>Push_Block\<close> (\<open>database.cpp\<close>, \<open>db_with.hpp\<close>): sessions around blocks, \<open>pop_block\<close>,
    \<open>push_block\<close> with the switch of forks, pending transactions. Shown: what the node keeps is
    always the result of whole applications, and failed blocks and switches are undone.
  \<^item> \<open>Block_Log\<close> (\<open>block_log.cpp\<close>): the log of irreversible blocks as the bytes of its two files.
    Shown: they implement the list of blocks that \<open>Push_Block\<close> writes, and opening repairs the
    index, except for a log of one block. The locale \<open>block_codec\<close> states what packing promises.
  \<^item> \<open>Replay\<close> (\<open>database.cpp\<close>): \<open>open\<close>, \<open>close\<close>, \<open>wipe\<close>, \<open>reindex\<close>, checkpoints and blocks by number.
    Shown: opening returns to the state before all sessions, a replay applies the whole log, and
    afterwards knows none of its transactions.
  \<^item> \<open>Produce_Block\<close> (\<open>database.cpp\<close>, \<open>_generate_block\<close>): what a witness puts into a block.
  \<^item> \<open>Follow\<close> (\<open>plugins/follow\<close>, \<open>generic_custom_operation_interpreter.hpp\<close>): followers, feeds and
    reputation, with containers of their own. Shown: the counts are exact, feeds are bounded,
    and a vote that never counted can still be taken off a reputation.
  \<^item> \<open>Witness_Plugin\<close> (\<open>plugins/witness\<close>): bandwidth, reserve ratio, checks while producing, and the
    loop that produces blocks. Shown: the ratio and what a transaction may use are bounded, and
    blocks are produced only in the slots of the node's witnesses.
  \<^item> \<open>History\<close> (\<open>app/impacted.cpp\<close>, \<open>plugins/account_history\<close>): the accounts an operation concerns
    and their histories, which are numbered without gaps.
  \<^item> \<open>Asset_Text\<close> (\<open>asset.cpp\<close>): assets as text and back; the locale \<open>decimal_text\<close> states what the
    number formatting of the library promises.

  \<^bold>\<open>Interfaces.\<close> \<open>undo_sessions\<close> (what a container with sessions promises), \<open>fc_exact\<close>,
  \<open>exact_node\<close>, \<open>decimal_text\<close> and \<open>block_codec\<close> (third-party code), \<open>ledger_machine\<close> (steps that
  keep the gaps; provided by operations, transactions and blocks), \<open>draining\<close> (loops),
  \<open>unique_key\<close> (a container with one unique key as a map), and \<open>applied_property\<close> (properties kept by
  applied blocks and transactions hold of all that the node keeps). The theorems of the
  manifest are stated over the model's own definitions and use these locales through their
  interpretations.

  \<^bold>\<open>Bounds.\<close> A loop that restarts at the first due element carries a bound, the number of rows or
  the time the rows are behind; \<open>draining\<close> shows that it is never met. The recursion of
  \<open>check_authority\<close> has the depth limit of the source. The walk over the parents of a comment
  is bounded by its depth (\<open>update_parents_counts_thread\<close>). The proxy recursion has the limit
  \<open>MAX_PROXY_RECURSION_DEPTH\<close> of the source. The functions on fork items recurse on the items
  themselves and need no bound, and the loop that rebuilds an index ends with its file.

  \<^bold>\<open>Not modelled.\<close> Networking, the wallet, the APIs and read-only queries, plugins other than
  \<open>follow\<close>, \<open>witness\<close>, \<open>account_history\<close> and the evaluator of private messages, logging,
  notifications of observers, locks and the memory mapped file: they do not decide what a block does. The
  recounts (\<open>retally_*\<close>, \<open>perform_vesting_share_split\<close>) and the old rewards
  (\<open>get_content_reward\<close> and the like) are called by nothing in the chain. Virtual operations only
  notify plugins. Code that the source has commented out (parts of evaluators) is left out,
  and so is \<open>process_funds\<close>, whose only call is commented out.
\<close>

end
